(* ===== verification/Prelude.thy ===== *)
theory Prelude
  imports Main "HOL-Library.AList" "HOL-Library.Sublist"
begin

text \<open>
  Shared vocabulary of the development: the JavaScript containers the code keeps its state
  in (\<open>Map\<close> and \<open>Set\<close>, both ordered by first insertion), the string functions it calls,
  decimal printing of stream ids, and the computations of methods that may throw and that
  change the state of the objects they are called on.

  JavaScript numbers that the code uses as ids, byte counts and millisecond clocks are
  modelled as \<open>int\<close>; strings as \<open>string\<close>, one \<open>char\<close> per code unit of an ASCII string.
\<close>

named_theorems store_simps \<open>reading a container after an update\<close>
named_theorems wf_intros \<open>preservation of well-formedness by the operations of a component\<close>
named_theorems comp_simps \<open>unfolding of throwing, state-changing computations\<close>

section \<open>JavaScript maps\<close>

text \<open>
  A \<open>Map\<close> is the list of its entries in insertion order: \<open>set\<close> on a present key keeps the
  entry's place, on a new key appends; \<open>delete\<close> drops the entry. These are
  \<^const>\<open>AList.update\<close> and \<^const>\<open>AList.delete\<close>.
\<close>

type_synonym ('k, 'v) js_map = "('k \<times> 'v) list"

abbreviation js_get :: "('k, 'v) js_map \<Rightarrow> 'k \<Rightarrow> 'v option" where
  "js_get \<equiv> map_of"

abbreviation js_set :: "'k \<Rightarrow> 'v \<Rightarrow> ('k, 'v) js_map \<Rightarrow> ('k, 'v) js_map" where
  "js_set \<equiv> AList.update"

abbreviation js_delete :: "'k \<Rightarrow> ('k, 'v) js_map \<Rightarrow> ('k, 'v) js_map" where
  "js_delete \<equiv> AList.delete"

abbreviation js_values :: "('k, 'v) js_map \<Rightarrow> 'v list" where
  "js_values m \<equiv> map snd m"

abbreviation js_size :: "('k, 'v) js_map \<Rightarrow> nat" where
  "js_size \<equiv> length"

definition js_has :: "('k, 'v) js_map \<Rightarrow> 'k \<Rightarrow> bool" where
  "js_has m k \<longleftrightarrow> map_of m k \<noteq> None"

text \<open>Every \<open>Map\<close> has one entry per key.\<close>

definition wf_map :: "('k, 'v) js_map \<Rightarrow> bool" where
  "wf_map m \<longleftrightarrow> distinct (map fst m)"

lemma js_get_set [store_simps]: "js_get (js_set k v m) k' = (if k' = k then Some v else js_get m k')"
  by (simp add: AList.update_conv')

lemma js_get_delete [store_simps]: "js_get (js_delete k m) k' = (if k' = k then None else js_get m k')"
  by (simp add: AList.delete_conv')

lemma wf_map_Nil [simp]: "wf_map []"
  by (simp add: wf_map_def)

lemma wf_map_set [wf_intros]: "wf_map m \<Longrightarrow> wf_map (js_set k v m)"
  by (simp add: wf_map_def AList.distinct_update)

lemma wf_map_delete [wf_intros]: "wf_map m \<Longrightarrow> wf_map (js_delete k m)"
  by (simp add: wf_map_def AList.distinct_delete)

lemma wf_map_filter [wf_intros]: "wf_map m \<Longrightarrow> wf_map (filter P m)"
  by (simp add: wf_map_def distinct_map_filter)

lemma js_entry_iff: "wf_map m \<Longrightarrow> (k, v) \<in> set m \<longleftrightarrow> js_get m k = Some v"
  by (simp add: wf_map_def)

lemma js_values_iff: "wf_map m \<Longrightarrow> v \<in> set (js_values m) \<longleftrightarrow> (\<exists>k. js_get m k = Some v)"
  by (force simp flip: js_entry_iff)

lemma js_keys_iff: "k \<in> set (map fst m) \<longleftrightarrow> js_get m k \<noteq> None"
  by (simp add: map_of_eq_None_iff)

lemma js_has_iff: "js_has m k \<longleftrightarrow> k \<in> fst ` set m"
  by (simp add: js_has_def map_of_eq_None_iff)

lemma js_get_filter:
  assumes "wf_map m"
  shows "js_get (filter (\<lambda>(k, v). P k v) m) k =
    (case js_get m k of None \<Rightarrow> None | Some v \<Rightarrow> if P k v then Some v else None)"
    (is "?l = ?r")
proof -
  have "wf_map (filter (\<lambda>(k, v). P k v) m)"
    using assms by (rule wf_map_filter)
  then have "?l = Some v \<longleftrightarrow> ?r = Some v" for v
    using assms by (auto simp flip: js_entry_iff split: option.splits)
      (simp add: js_entry_iff)+
  then show ?thesis
    by (metis not_None_eq)
qed

lemma js_size_set:
  "js_size (js_set k v m) = (if js_has m k then js_size m else Suc (js_size m))"
  by (induction m) (auto simp: js_has_def)

lemma js_set_fresh: "js_get m k = None \<Longrightarrow> js_set k v m = m @ [(k, v)]"
  by (induction m) (auto split: if_splits)

lemma js_delete_fresh: "js_get m k = None \<Longrightarrow> js_delete k m = m"
  by (simp add: map_of_eq_None_iff)

lemma js_size_delete:
  "wf_map m \<Longrightarrow> js_size (js_delete k m) = (if js_has m k then js_size m - 1 else js_size m)"
proof (induction m)
  case (Cons e m)
  obtain k' v where e: "e = (k', v)"
    by (cases e)
  show ?case
  proof (cases "k' = k")
    case True
    with Cons.prems have "js_get m k = None"
      by (simp add: e wf_map_def map_of_eq_None_iff)
    with True show ?thesis
      by (simp add: e js_has_def js_delete_fresh)
  next
    case False
    have "js_get m k = Some w \<Longrightarrow> js_size m \<noteq> 0" for w
      by (cases m) auto
    with False Cons show ?thesis
      by (auto simp: e wf_map_def js_has_def)
  qed
qed (simp add: js_has_def)

text \<open>How many values satisfy a condition, and deleting the keys of a list.\<close>

definition js_count :: "('v \<Rightarrow> bool) \<Rightarrow> ('k, 'v) js_map \<Rightarrow> nat" where
  "js_count P m = length (filter P (js_values m))"

lemma js_count_Nil [simp]: "js_count P [] = 0"
  by (simp add: js_count_def)

lemma js_count_set_fresh:
  "js_get m k = None \<Longrightarrow> js_count P (js_set k v m) = js_count P m + (if P v then 1 else 0)"
  by (simp add: js_count_def js_set_fresh)

lemma js_count_delete:
  assumes "wf_map m" and "js_get m k = Some v"
  shows "js_count P (js_delete k m) + (if P v then 1 else 0) = js_count P m"
  using assms
proof (induction m)
  case (Cons e m)
  show ?case
  proof (cases "fst e = k")
    case True
    with Cons.prems have "js_get m k = None"
      by (cases e) (simp add: wf_map_def map_of_eq_None_iff)
    with True Cons.prems show ?thesis
      by (cases e) (simp add: js_count_def js_delete_fresh)
  next
    case False
    with Cons show ?thesis
      by (cases e) (auto simp: js_count_def wf_map_def)
  qed
qed simp

lemma js_count_filter:
  assumes "\<And>k v. (k, v) \<in> set m \<Longrightarrow> P v \<Longrightarrow> Q k v"
  shows "js_count P (filter (\<lambda>(k, v). Q k v) m) = js_count P m"
  using assms by (induction m) (auto simp: js_count_def)

lemma js_count_0_iff: "js_count P m = 0 \<longleftrightarrow> (\<forall>v\<in>set (js_values m). \<not> P v)"
  by (auto simp: js_count_def filter_empty_conv)

lemma js_fold_delete:
  "fold (\<lambda>x. js_delete (f x)) xs m = filter (\<lambda>(k, v). k \<notin> f ` set xs) m"
proof (induction xs arbitrary: m)
  case (Cons x xs)
  then show ?case
    by (simp add: AList.delete_eq case_prod_beta') (auto intro: filter_cong)
qed (simp add: case_prod_beta')

section \<open>JavaScript sets\<close>

definition js_add :: "'a \<Rightarrow> 'a list \<Rightarrow> 'a list" where
  "js_add x xs = (if x \<in> set xs then xs else xs @ [x])"

definition js_remove :: "'a \<Rightarrow> 'a list \<Rightarrow> 'a list" where
  "js_remove x xs = filter (\<lambda>y. y \<noteq> x) xs"

lemma set_js_add [simp]: "set (js_add x xs) = insert x (set xs)"
  by (auto simp: js_add_def)

lemma set_js_remove [simp]: "set (js_remove x xs) = set xs - {x}"
  by (auto simp: js_remove_def)

lemma distinct_js_add [wf_intros]: "distinct xs \<Longrightarrow> distinct (js_add x xs)"
  by (simp add: js_add_def)

lemma distinct_js_remove [wf_intros]: "distinct xs \<Longrightarrow> distinct (js_remove x xs)"
  by (simp add: js_remove_def)

section \<open>Strings\<close>

text \<open>
  \<open>s.startsWith(p)\<close>, \<open>s.endsWith(p)\<close> and \<open>s.includes(p)\<close>; ASCII \<open>toLowerCase\<close>,
  \<open>toUpperCase\<close> and \<open>trim\<close>; \<open>parts.join(sep)\<close>.
\<close>

definition js_starts_with :: "'a list \<Rightarrow> 'a list \<Rightarrow> bool" where
  "js_starts_with s p \<longleftrightarrow> take (length p) s = p"

definition js_ends_with :: "'a list \<Rightarrow> 'a list \<Rightarrow> bool" where
  "js_ends_with s p \<longleftrightarrow> js_starts_with (rev s) (rev p)"

fun js_includes :: "'a list \<Rightarrow> 'a list \<Rightarrow> bool" where
  "js_includes [] p = (p = [])"
| "js_includes (c # s) p = (js_starts_with (c # s) p \<or> js_includes s p)"

lemma js_starts_with_iff: "js_starts_with s p \<longleftrightarrow> (\<exists>t. s = p @ t)"
  unfolding js_starts_with_def by (metis append_eq_conv_conj append_take_drop_id)

lemma js_ends_with_iff: "js_ends_with s p \<longleftrightarrow> (\<exists>t. s = t @ p)"
proof -
  have "rev s = rev p @ t \<longleftrightarrow> s = rev t @ p" for t
    by (metis rev_append rev_rev_ident)
  then show ?thesis
    by (metis js_ends_with_def js_starts_with_iff rev_rev_ident)
qed

lemma js_includes_iff: "js_includes s p \<longleftrightarrow> (\<exists>t u. s = t @ p @ u)"
proof (induction s)
  case (Cons c s)
  have "(\<exists>t u. c # s = t @ p @ u) \<longleftrightarrow> (\<exists>u. c # s = p @ u) \<or> (\<exists>t u. s = t @ p @ u)"
    by (metis append_Cons append_Nil list.sel(3) neq_Nil_conv)
  with Cons show ?case
    by (simp add: js_starts_with_iff)
qed simp

definition lower_char :: "char \<Rightarrow> char" where
  "lower_char c = (let n = of_char c :: nat in if 65 \<le> n \<and> n \<le> 90 then char_of (n + 32) else c)"

definition upper_char :: "char \<Rightarrow> char" where
  "upper_char c = (let n = of_char c :: nat in if 97 \<le> n \<and> n \<le> 122 then char_of (n - 32) else c)"

definition to_lower :: "string \<Rightarrow> string" where
  "to_lower s = map lower_char s"

definition to_upper :: "string \<Rightarrow> string" where
  "to_upper s = map upper_char s"

definition is_space :: "char \<Rightarrow> bool" where
  "is_space c \<longleftrightarrow> (of_char c :: nat) \<in> {9, 10, 11, 12, 13, 32}"

definition js_trim :: "string \<Rightarrow> string" where
  "js_trim s = rev (dropWhile is_space (rev (dropWhile is_space s)))"

fun js_join :: "'a list \<Rightarrow> 'a list list \<Rightarrow> 'a list" where
  "js_join sep [] = []"
| "js_join sep [s] = s"
| "js_join sep (s # t # ss) = s @ sep @ js_join sep (t # ss)"

lemma to_lower_idem [simp]: "to_lower (to_lower s) = to_lower s"
proof -
  have "lower_char (lower_char c) = lower_char c" for c
    by (simp add: lower_char_def Let_def)
  then show ?thesis
    by (simp add: to_lower_def)
qed

lemma to_upper_idem [simp]: "to_upper (to_upper s) = to_upper s"
proof -
  have "upper_char (upper_char c) = upper_char c" for c
    by (auto simp: upper_char_def Let_def)
  then show ?thesis
    by (simp add: to_upper_def)
qed

section \<open>Decimal printing\<close>

text \<open>\<open>String(n)\<close> of an integer below the magnitude where JavaScript switches to exponents.\<close>

definition digit_char :: "nat \<Rightarrow> char" where
  "digit_char d = char_of (48 + d)"

fun string_of_nat :: "nat \<Rightarrow> string" where
  "string_of_nat n =
     (if n < 10 then [digit_char n] else string_of_nat (n div 10) @ [digit_char (n mod 10)])"

declare string_of_nat.simps [simp del]

definition string_of_int :: "int \<Rightarrow> string" where
  "string_of_int i = (if i < 0 then CHR ''-'' # string_of_nat (nat (- i)) else string_of_nat (nat i))"

definition digits_value :: "string \<Rightarrow> nat" where
  "digits_value s = foldl (\<lambda>acc c. 10 * acc + (of_char c - 48)) 0 s"

lemma of_char_digit: "d < 10 \<Longrightarrow> of_char (digit_char d) = 48 + d"
  by (simp add: digit_char_def)

lemma digits_value_string_of_nat: "digits_value (string_of_nat n) = n"
proof (induction n rule: string_of_nat.induct)
  case (1 n)
  show ?case
  proof (cases "n < 10")
    case True
    then show ?thesis
      by (simp add: string_of_nat.simps [of n] digits_value_def of_char_digit)
  next
    case False
    with 1 have "digits_value (string_of_nat (n div 10)) = n div 10"
      by simp
    with False show ?thesis
      by (simp add: string_of_nat.simps [of n] digits_value_def of_char_digit)
  qed
qed

lemma string_of_nat_digits: "c \<in> set (string_of_nat n) \<Longrightarrow> (of_char c :: nat) \<in> {48..57}"
proof (induction n rule: string_of_nat.induct)
  case (1 n)
  then show ?case
    by (cases "n < 10") (auto simp: string_of_nat.simps [of n] of_char_digit)
qed

lemma string_of_nat_inj: "string_of_nat m = string_of_nat n \<Longrightarrow> m = n"
  by (metis digits_value_string_of_nat)

lemma string_of_nat_no_minus: "CHR ''-'' # s \<noteq> string_of_nat n"
proof
  assume "CHR ''-'' # s = string_of_nat n"
  then have "CHR ''-'' \<in> set (string_of_nat n)"
    by (metis list.set_intros(1))
  then show False
    by (drule_tac string_of_nat_digits) simp
qed

lemma string_of_int_inj: "string_of_int i = string_of_int j \<longleftrightarrow> i = j"
proof
  assume eq: "string_of_int i = string_of_int j"
  show "i = j"
  proof (cases "i < 0"; cases "j < 0")
    assume "i < 0" and "j < 0"
    with eq have "nat (- i) = nat (- j)"
      by (auto simp: string_of_int_def intro: string_of_nat_inj)
    with \<open>i < 0\<close> \<open>j < 0\<close> show ?thesis
      by simp
  next
    assume "\<not> i < 0" and "\<not> j < 0"
    with eq have "nat i = nat j"
      by (auto simp: string_of_int_def intro: string_of_nat_inj)
    with \<open>\<not> i < 0\<close> \<open>\<not> j < 0\<close> show ?thesis
      by simp
  qed (use eq in \<open>simp_all add: string_of_int_def string_of_nat_no_minus
      string_of_nat_no_minus [symmetric]\<close>)
qed simp

lemma string_of_int_no_colon: "CHR '':'' \<notin> set (string_of_int i)"
  using string_of_nat_digits [of "CHR '':''"] by (auto simp: string_of_int_def)

text \<open>A key \<open>prefix:suffix\<close> whose suffix has no colon determines both parts.\<close>

lemma last_separator_inj:
  assumes "x \<notin> set d" and "x \<notin> set e"
  shows "a @ x # d = b @ x # e \<longleftrightarrow> a = b \<and> d = e"
proof -
  have split: "takeWhile (\<lambda>y. y \<noteq> x) (rev (p @ x # s)) = rev s" if "x \<notin> set s" for p s
    using that by (auto simp: takeWhile_append takeWhile_eq_all_conv)
  have "d = e" if "a @ x # d = b @ x # e"
    using that split [OF assms(1), of a] split [OF assms(2), of b] by (metis rev_is_rev_conv)
  then show ?thesis
    by auto
qed

lemma first_separator_inj:
  assumes "x \<notin> set a" and "x \<notin> set b"
  shows "a @ x # d = b @ x # e \<longleftrightarrow> a = b \<and> d = e"
proof -
  have split: "takeWhile (\<lambda>y. y \<noteq> x) (p @ x # s) = p" if "x \<notin> set p" for p s
    using that by (auto simp: takeWhile_append takeWhile_eq_all_conv)
  have "a = b" if "a @ x # d = b @ x # e"
    using that split [OF assms(1), of d] split [OF assms(2), of e] by simp
  then show ?thesis
    by auto
qed

section \<open>Methods that throw and change state\<close>

text \<open>
  A method is a function from the state to its result, a thrown error or a value, and the
  next state. Throwing does not undo the changes made before.
\<close>

type_synonym ('e, 's, 'a) comp = "'s \<Rightarrow> ('e + 'a) \<times> 's"

definition comp_return :: "'a \<Rightarrow> ('e, 's, 'a) comp" where
  "comp_return a s = (Inr a, s)"

definition comp_throw :: "'e \<Rightarrow> ('e, 's, 'a) comp" where
  "comp_throw e s = (Inl e, s)"

definition comp_bind :: "('e, 's, 'a) comp \<Rightarrow> ('a \<Rightarrow> ('e, 's, 'b) comp) \<Rightarrow> ('e, 's, 'b) comp" where
  "comp_bind m f s = (case m s of (Inl e, t) \<Rightarrow> (Inl e, t) | (Inr a, t) \<Rightarrow> f a t)"

definition comp_catch :: "('e, 's, 'a) comp \<Rightarrow> ('e \<Rightarrow> ('e, 's, 'a) comp) \<Rightarrow> ('e, 's, 'a) comp" where
  "comp_catch m h s = (case m s of (Inl e, t) \<Rightarrow> h e t | (Inr a, t) \<Rightarrow> (Inr a, t))"

text \<open>
  \<open>comp_spec P m Q E\<close>: from a state satisfying \<open>P\<close> the method either returns a value and a
  state related by \<open>Q\<close>, or throws in a state satisfying \<open>E\<close>.
\<close>

definition comp_spec ::
  "('s \<Rightarrow> bool) \<Rightarrow> ('e, 's, 'a) comp \<Rightarrow> ('a \<Rightarrow> 's \<Rightarrow> bool) \<Rightarrow> ('e \<Rightarrow> 's \<Rightarrow> bool) \<Rightarrow> bool" where
  "comp_spec P m Q E \<longleftrightarrow>
     (\<forall>s. P s \<longrightarrow> (case m s of (Inl e, t) \<Rightarrow> E e t | (Inr a, t) \<Rightarrow> Q a t))"

lemmas comp_defs = comp_return_def comp_throw_def comp_bind_def comp_catch_def

lemma comp_bind_return [simp]: "comp_bind (comp_return a) f = f a"
  by (rule ext) (simp add: comp_defs)

lemma comp_bind_throw [simp]: "comp_bind (comp_throw e) f = comp_throw e"
  by (rule ext) (simp add: comp_defs)

lemma comp_return_apply [comp_simps]: "comp_return a s = (Inr a, s)"
  by (simp add: comp_return_def)

lemma comp_throw_apply [comp_simps]: "comp_throw e s = (Inl e, s)"
  by (simp add: comp_throw_def)

lemma comp_bind_Inr:
  "comp_bind m f s = (Inr b, u) \<longleftrightarrow> (\<exists>a t. m s = (Inr a, t) \<and> f a t = (Inr b, u))"
  by (auto simp: comp_bind_def split: prod.splits sum.splits)

lemma comp_bind_value [comp_simps]: "m s = (Inr a, t) \<Longrightarrow> comp_bind m f s = f a t"
  by (simp add: comp_bind_def)

lemma comp_bind_error [comp_simps]: "m s = (Inl e, t) \<Longrightarrow> comp_bind m f s = (Inl e, t)"
  by (simp add: comp_bind_def)

lemma comp_specI:
  assumes "\<And>s a t. P s \<Longrightarrow> m s = (Inr a, t) \<Longrightarrow> Q a t"
    and "\<And>s e t. P s \<Longrightarrow> m s = (Inl e, t) \<Longrightarrow> E e t"
  shows "comp_spec P m Q E"
  using assms by (simp add: comp_spec_def split: prod.split sum.split)

lemma comp_spec_value: "comp_spec P m Q E \<Longrightarrow> P s \<Longrightarrow> m s = (Inr a, t) \<Longrightarrow> Q a t"
  by (force simp: comp_spec_def)

lemma comp_spec_error: "comp_spec P m Q E \<Longrightarrow> P s \<Longrightarrow> m s = (Inl e, t) \<Longrightarrow> E e t"
  by (force simp: comp_spec_def)

lemma comp_spec_return: "(\<And>s. P s \<Longrightarrow> Q a s) \<Longrightarrow> comp_spec P (comp_return a) Q E"
  by (simp add: comp_spec_def comp_return_def)

lemma comp_spec_throw: "(\<And>s. P s \<Longrightarrow> E e s) \<Longrightarrow> comp_spec P (comp_throw e) Q E"
  by (simp add: comp_spec_def comp_throw_def)

lemma comp_spec_bind:
  assumes m: "comp_spec P m R E" and f: "\<And>a. comp_spec (R a) (f a) Q E"
  shows "comp_spec P (comp_bind m f) Q E"
proof (rule comp_specI)
  fix s b u
  assume "P s" and "comp_bind m f s = (Inr b, u)"
  then obtain a t where "m s = (Inr a, t)" and "f a t = (Inr b, u)"
    by (auto simp: comp_bind_Inr)
  then show "Q b u"
    using comp_spec_value [OF m \<open>P s\<close>] comp_spec_value [OF f] by blast
next
  fix s e u
  assume "P s" and "comp_bind m f s = (Inl e, u)"
  then consider "m s = (Inl e, u)" | a t where "m s = (Inr a, t)" and "f a t = (Inl e, u)"
    by (auto simp: comp_bind_def split: prod.splits sum.splits)
  then show "E e u"
    using comp_spec_error [OF m \<open>P s\<close>] comp_spec_value [OF m \<open>P s\<close>] comp_spec_error [OF f]
    by cases blast+
qed

lemma comp_spec_catch:
  assumes m: "comp_spec P m Q F" and h: "\<And>e. comp_spec (F e) (h e) Q E"
  shows "comp_spec P (comp_catch m h) Q E"
proof (rule comp_specI)
  fix s b u
  assume "P s" and "comp_catch m h s = (Inr b, u)"
  then consider "m s = (Inr b, u)" | e t where "m s = (Inl e, t)" and "h e t = (Inr b, u)"
    by (auto simp: comp_catch_def split: prod.splits sum.splits)
  then show "Q b u"
    using comp_spec_value [OF m \<open>P s\<close>] comp_spec_error [OF m \<open>P s\<close>] comp_spec_value [OF h]
    by cases blast+
next
  fix s e u
  assume "P s" and "comp_catch m h s = (Inl e, u)"
  then obtain e' t where "m s = (Inl e', t)" and "h e' t = (Inl e, u)"
    by (auto simp: comp_catch_def split: prod.splits sum.splits)
  then show "E e u"
    using comp_spec_error [OF m \<open>P s\<close>] comp_spec_error [OF h] by blast
qed

lemma comp_spec_weaken:
  assumes "comp_spec P m Q E" and "\<And>s. P' s \<Longrightarrow> P s" and "\<And>a s. Q a s \<Longrightarrow> Q' a s"
    and "\<And>e s. E e s \<Longrightarrow> E' e s"
  shows "comp_spec P' m Q' E'"
  using assms by (intro comp_specI) (blast dest: comp_spec_value comp_spec_error)+

end
