(* ===== verification/DataFrame.thy ===== *)
theory DataFrame
  imports Prelude "HOL-Library.Word"
begin

text \<open>
  The binary data frames of a sandbox tunnel: \<open>encodeDataFrame\<close> and \<open>decodeDataFrame\<close> of
  \<open>packages/sandbox-session-protocol/src/data-frame.ts\<close>, and the gateway's \<open>FrameCodec\<close> of
  \<open>apps/data-plane-gateway/src/tunnel/protocol/frame-codec.ts\<close>, which reads the same header
  without copying the payload and rewrites the stream id in place.

  A buffer is a list of bytes. A frame is one kind byte, the stream id in four bytes, most
  significant first, one payload-kind byte, then the payload. A thrown \<open>Error\<close> is its message.
\<close>

type_synonym byte = "8 word"

definition DataFrameHeaderByteLength :: nat where "DataFrameHeaderByteLength = 6"
definition DataFrameKindData :: int where "DataFrameKindData = 1"
definition PayloadKindRawBytes :: int where "PayloadKindRawBytes = 1"
definition PayloadKindWebSocketText :: int where "PayloadKindWebSocketText = 2"
definition PayloadKindWebSocketBinary :: int where "PayloadKindWebSocketBinary = 3"
definition MaxStreamId :: int where "MaxStreamId = 4294967295"
definition DefaultStreamWindowBytes :: int where "DefaultStreamWindowBytes = 16 * 1024 * 1024"

lemmas frame_constants = DataFrameHeaderByteLength_def DataFrameKindData_def
  PayloadKindRawBytes_def PayloadKindWebSocketText_def PayloadKindWebSocketBinary_def MaxStreamId_def

record stream_data_frame =
  frameKind :: int
  streamId :: int
  payloadKind :: int
  payload :: "byte list"

section \<open>DataView accesses\<close>

definition setUint8 :: "int \<Rightarrow> byte" where
  "setUint8 n = word_of_int n"

definition setUint32 :: "int \<Rightarrow> byte list" where
  "setUint32 n = [word_of_int (n div 2 ^ 24), word_of_int (n div 2 ^ 16),
     word_of_int (n div 2 ^ 8), word_of_int n]"

definition getUint8 :: "byte list \<Rightarrow> nat \<Rightarrow> int" where
  "getUint8 bs i = uint (bs ! i)"

definition getUint32 :: "byte list \<Rightarrow> nat \<Rightarrow> int" where
  "getUint32 bs i = uint (bs ! i) * 2 ^ 24 + uint (bs ! (i + 1)) * 2 ^ 16
     + uint (bs ! (i + 2)) * 2 ^ 8 + uint (bs ! (i + 3))"

lemma length_setUint32 [simp]: "length (setUint32 n) = 4"
  by (simp add: setUint32_def)

lemma uint_byte_of_int: "uint (word_of_int n :: byte) = n mod 256"
  by (simp add: uint_word_of_int)

lemma byte_bounds: "0 \<le> uint (b :: byte)" "uint (b :: byte) < 256"
  using uint_lt2p [of b] by simp_all

lemma div_byte_shifts: "n div 2 ^ 16 = n div 256 div 256" "n div 2 ^ 24 = n div 256 div 256 div 256"
  for n :: int
  by (simp_all add: zdiv_zmult2_eq [symmetric])

lemma getUint32_set:
  assumes "0 \<le> n" and "n \<le> MaxStreamId"
  shows "getUint32 (k # setUint32 n @ rest) 1 = n"
proof -
  define x y z where "x = n div 256" and "y = x div 256" and "z = y div 256"
  have "n = 256 * x + n mod 256" "x = 256 * y + x mod 256" "y = 256 * z + y mod 256"
    by (simp_all add: x_def y_def z_def)
  moreover have "n < 4294967296"
    using assms by (simp add: MaxStreamId_def)
  then have "x < 16777216" "y < 65536" "z < 256"
    by (simp_all add: x_def y_def z_def div_less_iff_less_mult)
  moreover have "0 \<le> z"
    using assms by (simp add: x_def y_def z_def pos_imp_zdiv_nonneg_iff)
  ultimately have "z mod 256 * 2 ^ 24 + y mod 256 * 2 ^ 16 + x mod 256 * 2 ^ 8 + n mod 256 = n"
    by simp
  then show ?thesis
    by (simp add: getUint32_def setUint32_def uint_byte_of_int div_byte_shifts numeral_2_eq_2
        numeral_3_eq_3 del: power_numeral)
      (simp add: x_def y_def z_def)
qed

lemma base_256_digit: "0 \<le> c \<Longrightarrow> c < 256 \<Longrightarrow> (256 * m + c) div 256 = m \<and> (256 * m + c) mod 256 = c"
  for m c :: int
  by (simp add: div_pos_pos_trivial)

lemma setUint32_get:
  assumes "length bs = 4"
  shows "setUint32 (getUint32 (k # bs @ rest) 1) = bs"
proof -
  obtain a b c d where bs: "bs = [a, b, c, d]"
    using assms by (auto simp: length_Suc_conv numeral_eq_Suc)
  define n where "n = 256 * (256 * (256 * uint a + uint b) + uint c) + uint d"
  note bounds = byte_bounds [of a] byte_bounds [of b] byte_bounds [of c] byte_bounds [of d]
  have word: "word_of_int x = e" if "x mod 256 = uint e" for x and e :: byte
    using that by (metis uint_byte_of_int word_uint_eq_iff)
  have "getUint32 (k # bs @ rest) 1 = n"
    by (simp add: bs getUint32_def n_def numeral_2_eq_2 numeral_3_eq_3)
  moreover have "n mod 256 = uint d" "n div 256 mod 256 = uint c" "n div 256 div 256 mod 256 = uint b"
      "n div 256 div 256 div 256 mod 256 = uint a"
    unfolding n_def using bounds by (simp_all only: base_256_digit) simp_all
  ultimately show ?thesis
    by (simp only: bs setUint32_def div_byte_shifts list.inject word simp_thms) (simp add: word)
qed

lemma getUint32_bounds: "0 \<le> getUint32 bs i" "getUint32 bs i \<le> MaxStreamId"
  using byte_bounds [of "bs ! i"] byte_bounds [of "bs ! (i + 1)"] byte_bounds [of "bs ! (i + 2)"]
    byte_bounds [of "bs ! (i + 3)"]
  by (simp_all add: getUint32_def MaxStreamId_def)

section \<open>Encoding and decoding\<close>

definition StreamIdMessage :: string where
  "StreamIdMessage = ''streamId must be an integer between 1 and '' @ string_of_int MaxStreamId"

definition validateStreamId :: "int \<Rightarrow> string + unit" where
  "validateStreamId sid = (if sid \<le> 0 \<or> sid > MaxStreamId then Inl StreamIdMessage else Inr ())"

definition validatePayloadKind :: "int \<Rightarrow> string + unit" where
  "validatePayloadKind kind =
     (if kind \<noteq> PayloadKindRawBytes \<and> kind \<noteq> PayloadKindWebSocketText
         \<and> kind \<noteq> PayloadKindWebSocketBinary
      then Inl (''payloadKind is not supported: '' @ string_of_int kind) else Inr ())"

definition encodeDataFrame :: "int \<Rightarrow> int \<Rightarrow> byte list \<Rightarrow> string + byte list" where
  "encodeDataFrame sid kind data =
     (case validateStreamId sid of Inl e \<Rightarrow> Inl e
      | Inr _ \<Rightarrow> (case validatePayloadKind kind of Inl e \<Rightarrow> Inl e
         | Inr _ \<Rightarrow> Inr (setUint8 DataFrameKindData # setUint32 sid @ setUint8 kind # data)))"

definition decodeDataFrame :: "byte list \<Rightarrow> string + stream_data_frame" where
  "decodeDataFrame encoded =
     (if length encoded < DataFrameHeaderByteLength
      then Inl (''data frame must be at least '' @ string_of_nat DataFrameHeaderByteLength
             @ '' bytes long'')
      else let kind = getUint8 encoded 0 in
        if kind \<noteq> DataFrameKindData
        then Inl (''frameKind is not supported: '' @ string_of_int kind)
        else let sid = getUint32 encoded 1 in
          case validateStreamId sid of Inl e \<Rightarrow> Inl e
          | Inr _ \<Rightarrow> (let pkind = getUint8 encoded 5 in
             case validatePayloadKind pkind of Inl e \<Rightarrow> Inl e
             | Inr _ \<Rightarrow> Inr \<lparr>frameKind = kind, streamId = sid, payloadKind = pkind,
                  payload = drop DataFrameHeaderByteLength encoded\<rparr>))"

section \<open>The gateway's frame codec\<close>

record tunnel_data_frame_header =
  headerPayloadKind :: int
  headerStreamId :: int

definition isSupportedDataFramePayloadKind :: "int \<Rightarrow> bool" where
  "isSupportedDataFramePayloadKind kind \<longleftrightarrow> kind = PayloadKindRawBytes
     \<or> kind = PayloadKindWebSocketText \<or> kind = PayloadKindWebSocketBinary"

definition readDataFrameHeader :: "byte list \<Rightarrow> tunnel_data_frame_header option" where
  "readDataFrameHeader bs =
     (if length bs < DataFrameHeaderByteLength then None
      else if getUint8 bs 0 \<noteq> DataFrameKindData then None
      else let sid = getUint32 bs 1 in
        if sid = 0 \<or> sid > MaxStreamId then None
        else let kind = getUint8 bs 5 in
          if \<not> isSupportedDataFramePayloadKind kind then None
          else Some \<lparr>headerPayloadKind = kind, headerStreamId = sid\<rparr>)"

definition rewriteStreamId :: "byte list \<Rightarrow> int \<Rightarrow> byte list option" where
  "rewriteStreamId bs sid =
     (if sid \<le> 0 \<or> sid > MaxStreamId then None
      else case readDataFrameHeader bs of None \<Rightarrow> None
        | Some _ \<Rightarrow> Some (take 1 bs @ setUint32 sid @ drop 5 bs))"

section \<open>Lemmas\<close>

lemma header_split:
  assumes "6 \<le> length bs"
  obtains k ids p data where "bs = k # ids @ p # data" and "length ids = 4"
proof
  have "bs = hd bs # take 4 (drop 1 bs) @ drop 5 bs"
    using assms by (cases bs) (simp_all add: drop_Suc [symmetric] flip: append_take_drop_id [of 4])
  then show "bs = hd bs # take 4 (drop 1 bs) @ (bs ! 5) # drop 6 bs"
    using assms Cons_nth_drop_Suc [of 5 bs] by simp
  show "length (take 4 (drop 1 bs)) = 4"
    using assms by simp
qed

lemma getUint8_header [simp]:
  "length ids = 4 \<Longrightarrow> getUint8 (k # ids @ p # data) 5 = uint p"
  "getUint8 (k # rest) 0 = uint k"
  by (simp_all add: getUint8_def nth_append)

lemma setUint8_uint [simp]: "setUint8 (uint b) = b"
  by (simp add: setUint8_def)

lemma validateStreamId_Inr: "validateStreamId sid = Inr () \<longleftrightarrow> 0 < sid \<and> sid \<le> MaxStreamId"
  by (auto simp: validateStreamId_def)

lemma validatePayloadKind_Inr:
  "validatePayloadKind kind = Inr () \<longleftrightarrow> isSupportedDataFramePayloadKind kind"
  by (auto simp: validatePayloadKind_def isSupportedDataFramePayloadKind_def)

lemma supported_kind_byte: "isSupportedDataFramePayloadKind kind \<Longrightarrow> 0 \<le> kind \<and> kind < 256"
  by (auto simp: isSupportedDataFramePayloadKind_def frame_constants)

lemma uint_setUint8: "0 \<le> n \<Longrightarrow> n < 256 \<Longrightarrow> uint (setUint8 n) = n"
  by (simp add: setUint8_def uint_byte_of_int)

lemma sum_unit_Inr: "(\<exists>u. x = Inr u) \<longleftrightarrow> x = Inr ()" "(x = Inr u) = (x = Inr ())" for x :: "'e + unit"
  by (cases x; simp)+

lemma encodeDataFrame_Inr:
  "encodeDataFrame sid kind data = Inr bs \<longleftrightarrow>
     0 < sid \<and> sid \<le> MaxStreamId \<and> isSupportedDataFramePayloadKind kind
     \<and> bs = setUint8 DataFrameKindData # setUint32 sid @ setUint8 kind # data"
  unfolding encodeDataFrame_def validatePayloadKind_Inr [symmetric]
  using validateStreamId_Inr [of sid] by (auto split: sum.splits)

lemma readDataFrameHeader_Cons:
  assumes "length ids = 4"
  shows "readDataFrameHeader (k # ids @ p # data) =
    (if uint k = 1 \<and> getUint32 (k # ids @ p # data) 1 \<noteq> 0 \<and> isSupportedDataFramePayloadKind (uint p)
     then Some \<lparr>headerPayloadKind = uint p, headerStreamId = getUint32 (k # ids @ p # data) 1\<rparr> else None)"
  using assms getUint32_bounds(2) [of "k # ids @ p # data" 1]
  by (simp add: readDataFrameHeader_def Let_def DataFrameHeaderByteLength_def DataFrameKindData_def
      not_less [symmetric])

lemma decodeDataFrame_Inr:
  "decodeDataFrame bs = Inr f \<longleftrightarrow>
     readDataFrameHeader bs = Some \<lparr>headerPayloadKind = payloadKind f, headerStreamId = streamId f\<rparr>
     \<and> frameKind f = DataFrameKindData \<and> payload f = drop DataFrameHeaderByteLength bs"
  using getUint32_bounds [of bs 1]
  unfolding decodeDataFrame_def readDataFrameHeader_def Let_def
  by (cases f) (auto simp: validateStreamId_def validatePayloadKind_def
      isSupportedDataFramePayloadKind_def split: sum.splits if_splits)

text \<open>Moving an encoded frame to another stream id.\<close>

lemma encoded_header:
  assumes "encodeDataFrame sid kind data = Inr frame"
  shows "readDataFrameHeader frame = Some \<lparr>headerPayloadKind = kind, headerStreamId = sid\<rparr>"
proof -
  have sid: "0 < sid" "sid \<le> MaxStreamId" and kind: "isSupportedDataFramePayloadKind kind"
    and frame: "frame = setUint8 DataFrameKindData # setUint32 sid @ setUint8 kind # data"
    using assms by (simp_all add: encodeDataFrame_Inr)
  have "uint (setUint8 kind) = kind" and "uint (setUint8 DataFrameKindData) = 1"
    using supported_kind_byte [OF kind] by (simp_all add: uint_setUint8 DataFrameKindData_def)
  then show ?thesis
    using sid kind unfolding frame by (simp add: readDataFrameHeader_Cons getUint32_set [simplified])
qed

lemma rewrite_encoded:
  assumes "encodeDataFrame sid kind data = Inr frame" and "encodeDataFrame sid' kind data = Inr frame'"
  shows "rewriteStreamId frame sid' = Some frame'"
  using assms encoded_header [OF assms(1)]
  by (simp add: rewriteStreamId_def encodeDataFrame_Inr drop_Cons')

section \<open>Properties\<close>

text \<open>
  C38: Decoding an encoded data frame gives back its stream id, payload kind and payload, with
  the data frame kind.
\<close>

theorem decode_encode:
  assumes "encodeDataFrame sid kind data = Inr bs"
  shows "decodeDataFrame bs = Inr \<lparr>frameKind = DataFrameKindData, streamId = sid,
    payloadKind = kind, payload = data\<rparr>"
proof -
  have sid: "0 < sid" "sid \<le> MaxStreamId" and kind: "isSupportedDataFramePayloadKind kind"
    and bs: "bs = setUint8 DataFrameKindData # setUint32 sid @ setUint8 kind # data"
    using assms by (simp_all add: encodeDataFrame_Inr)
  have "uint (setUint8 kind) = kind" and "uint (setUint8 DataFrameKindData) = 1"
    using supported_kind_byte [OF kind] by (simp_all add: uint_setUint8 DataFrameKindData_def)
  then show ?thesis
    using sid kind unfolding decodeDataFrame_Inr bs
    by (simp add: readDataFrameHeader_Cons getUint32_set [simplified] DataFrameHeaderByteLength_def)
qed

theorem decode_encode_witness:
  "decodeDataFrame [1, 0, 1, 2, 3, 2, 104, 105] = Inr \<lparr>frameKind = DataFrameKindData,
     streamId = 66051, payloadKind = 2, payload = [104, 105]\<rparr>"
  by (rule decode_encode)
    (simp add: encodeDataFrame_Inr isSupportedDataFramePayloadKind_def frame_constants
      setUint8_def setUint32_def)

text \<open>
  Every byte string that \<open>decodeDataFrame\<close> accepts is the encoding of the frame it returns:
  re-encoding the decoded stream id, payload kind and payload gives the same bytes, so the format
  has one representation per frame.
\<close>

theorem encode_decode:
  assumes "decodeDataFrame bs = Inr f"
  shows "encodeDataFrame (streamId f) (payloadKind f) (payload f) = Inr bs"
proof -
  have header: "readDataFrameHeader bs
      = Some \<lparr>headerPayloadKind = payloadKind f, headerStreamId = streamId f\<rparr>"
    and data: "payload f = drop 6 bs"
    using assms by (simp_all add: decodeDataFrame_Inr DataFrameHeaderByteLength_def)
  then have "6 \<le> length bs"
    by (auto simp: readDataFrameHeader_def DataFrameHeaderByteLength_def split: if_splits)
  then obtain k ids p d where bs: "bs = k # ids @ p # d" and ids: "length ids = 4"
    by (rule header_split)
  from header ids have k: "uint k = 1" and sid: "streamId f = getUint32 bs 1" "streamId f \<noteq> 0"
    and kind: "payloadKind f = uint p" "isSupportedDataFramePayloadKind (uint p)"
    by (auto simp: bs readDataFrameHeader_Cons split: if_splits)
  have "k = setUint8 DataFrameKindData"
    using k by (metis DataFrameKindData_def setUint8_uint)
  moreover have "setUint32 (streamId f) = ids"
    unfolding sid(1) bs using ids by (rule setUint32_get)
  ultimately show ?thesis
    using sid kind data ids getUint32_bounds [of bs 1] by (simp add: encodeDataFrame_Inr bs)
qed

theorem encode_decode_witness:
  "encodeDataFrame 66051 2 [104, 105] = Inr [1, 0, 1, 2, 3, 2, 104, 105]"
  using encode_decode [of "[1, 0, 1, 2, 3, 2, 104, 105]"
      "\<lparr>frameKind = 1, streamId = 66051, payloadKind = 2, payload = [104, 105]\<rparr>"]
  by simp code_simp

text \<open>
  \<open>FrameCodec.rewriteStreamId\<close>, which patches four header bytes in place, is equivalent to
  decoding the frame with the sandbox-session-protocol package and encoding it again under the new
  stream id, and returns \<open>undefined\<close> exactly when one of the two would throw.
\<close>

theorem rewriteStreamId_decode:
  "rewriteStreamId bs sid =
     (case decodeDataFrame bs of
        Inl _ \<Rightarrow> None
      | Inr f \<Rightarrow> (case encodeDataFrame sid (payloadKind f) (payload f) of
          Inl _ \<Rightarrow> None | Inr frame \<Rightarrow> Some frame))"
proof (cases "readDataFrameHeader bs")
  case None
  then have "decodeDataFrame bs \<noteq> Inr f" for f
    by (simp add: decodeDataFrame_Inr)
  with None show ?thesis
    by (cases "decodeDataFrame bs") (auto simp: rewriteStreamId_def)
next
  case (Some h)
  then have "6 \<le> length bs"
    by (auto simp: readDataFrameHeader_def DataFrameHeaderByteLength_def split: if_splits)
  then obtain k ids p d where bs: "bs = k # ids @ p # d" and ids: "length ids = 4"
    by (rule header_split)
  have k: "uint k = 1" and h: "h = \<lparr>headerPayloadKind = uint p, headerStreamId = getUint32 bs 1\<rparr>"
    and p: "isSupportedDataFramePayloadKind (uint p)"
    using Some ids by (auto simp: bs readDataFrameHeader_Cons split: if_splits)
  have decoded: "decodeDataFrame bs = Inr \<lparr>frameKind = DataFrameKindData, streamId = getUint32 bs 1,
      payloadKind = uint p, payload = d\<rparr>"
    using ids Some h by (simp add: decodeDataFrame_Inr DataFrameHeaderByteLength_def bs)
  have "k = setUint8 DataFrameKindData"
    using k by (metis DataFrameKindData_def setUint8_uint)
  moreover have "drop 5 bs = p # d"
    using ids by (simp add: bs drop_Cons')
  ultimately have "rewriteStreamId bs sid = (if sid \<le> 0 \<or> sid > MaxStreamId then None
      else Some (setUint8 DataFrameKindData # setUint32 sid @ setUint8 (uint p) # d))"
    unfolding rewriteStreamId_def Some by (simp add: bs)
  then show ?thesis
    using p by (simp add: decoded encodeDataFrame_def validateStreamId_def
        validatePayloadKind_Inr [symmetric])
qed

end
