(* ===== verification/Protocol.thy ===== *)
theory Protocol
  imports Prelude
begin

text \<open>
  The control messages of a sandbox tunnel, \<open>packages/sandbox-session-protocol/src/stream-protocol.ts\<close>:
  one constructor per object schema (its literal \<open>type\<close> is the constructor), the constraints of the
  schemas as bool-valued checks, and the parse functions. JSON text is read and written by the
  parameters of \<open>json_codec\<close>.
\<close>

section \<open>Field constraints\<close>

definition max_safe_integer :: int where "max_safe_integer = 9007199254740991"

definition is_safe_int :: "int \<Rightarrow> bool" where
  "is_safe_int n \<longleftrightarrow> - max_safe_integer \<le> n \<and> n \<le> max_safe_integer"

definition positive_int :: "int \<Rightarrow> bool" where
  "positive_int n \<longleftrightarrow> is_safe_int n \<and> n > 0"

definition non_empty :: "string \<Rightarrow> bool" where
  "non_empty s \<longleftrightarrow> s \<noteq> []"

definition optional :: "('a \<Rightarrow> bool) \<Rightarrow> 'a option \<Rightarrow> bool" where
  "optional P x \<longleftrightarrow> (case x of None \<Rightarrow> True | Some a \<Rightarrow> P a)"

section \<open>Channels, signals and events\<close>

datatype stream_channel_kind = KindAgent | KindProcesses | KindFileUpload | KindExec | KindFileSearch

datatype stream_channel =
    AgentStreamChannel
  | ProcessesStreamChannel
  | FileUploadStreamChannel string string string int
  | ExecStreamChannel string "string list option" "string option" "string option" "int option" "int option"
  | FileSearchStreamChannel string

fun channel_kind :: "stream_channel \<Rightarrow> stream_channel_kind" where
  "channel_kind AgentStreamChannel = KindAgent"
| "channel_kind ProcessesStreamChannel = KindProcesses"
| "channel_kind (FileUploadStreamChannel _ _ _ _) = KindFileUpload"
| "channel_kind (ExecStreamChannel _ _ _ _ _ _) = KindExec"
| "channel_kind (FileSearchStreamChannel _) = KindFileSearch"

fun valid_channel :: "stream_channel \<Rightarrow> bool" where
  "valid_channel AgentStreamChannel = True"
| "valid_channel ProcessesStreamChannel = True"
| "valid_channel (FileUploadStreamChannel threadId mimeType originalFilename sizeBytes) =
     (non_empty threadId \<and> non_empty mimeType \<and> non_empty originalFilename \<and> positive_int sizeBytes)"
| "valid_channel (ExecStreamChannel command args cwd stdin timeoutMs maxOutputBytes) =
     (non_empty command \<and> optional (list_all non_empty) args \<and> optional non_empty cwd
      \<and> optional positive_int timeoutMs \<and> optional positive_int maxOutputBytes)"
| "valid_channel (FileSearchStreamChannel cwd) = non_empty cwd"

datatype stream_signal = PTYResizeSignal int int

fun valid_signal :: "stream_signal \<Rightarrow> bool" where
  "valid_signal (PTYResizeSignal cols rows) = (positive_int cols \<and> positive_int rows)"

datatype upload_kind = ImageUpload | FileUpload

datatype stream_event =
    PTYExitEvent int
  | FileUploadCompletedEvent upload_kind string string string string int string
  | ExecResultEvent int string string bool

fun valid_event :: "stream_event \<Rightarrow> bool" where
  "valid_event (PTYExitEvent exitCode) = is_safe_int exitCode"
| "valid_event (FileUploadCompletedEvent kind attachmentId threadId originalFilename mimeType
     sizeBytes path) =
     (non_empty attachmentId \<and> non_empty threadId \<and> non_empty originalFilename \<and> non_empty mimeType
      \<and> positive_int sizeBytes \<and> non_empty path)"
| "valid_event (ExecResultEvent exitCode stdout stderr truncated) = is_safe_int exitCode"

section \<open>Control messages\<close>

datatype stream_control_message =
    StreamOpen int stream_channel
  | StreamOpenOK int
  | StreamOpenError int string string
  | StreamSignalMessage int stream_signal
  | StreamEventMessage int stream_event
  | StreamClose int
  | StreamComplete int
  | StreamReset int string string
  | StreamWindow int int

fun valid_stream_control :: "stream_control_message \<Rightarrow> bool" where
  "valid_stream_control (StreamOpen sid channel) = (positive_int sid \<and> valid_channel channel)"
| "valid_stream_control (StreamOpenOK sid) = positive_int sid"
| "valid_stream_control (StreamOpenError sid code message) =
     (positive_int sid \<and> non_empty code \<and> non_empty message)"
| "valid_stream_control (StreamSignalMessage sid signal) = (positive_int sid \<and> valid_signal signal)"
| "valid_stream_control (StreamEventMessage sid event) = (positive_int sid \<and> valid_event event)"
| "valid_stream_control (StreamClose sid) = positive_int sid"
| "valid_stream_control (StreamComplete sid) = positive_int sid"
| "valid_stream_control (StreamReset sid code message) =
     (positive_int sid \<and> non_empty code \<and> non_empty message)"
| "valid_stream_control (StreamWindow sid bytes) = (positive_int sid \<and> positive_int bytes)"

datatype telemetry_signal = LogsSignal | TracesSignal
datatype telemetry_format = RuntimeLogV1 | OtlpHttpTracesV1Json

datatype telemetry_control_message =
    TelemetryOpen int telemetry_signal telemetry_format
  | TelemetryOpenOK int int
  | TelemetryOpenError int string string
  | TelemetryWindow int int
  | TelemetryClose int
  | TelemetryReset int string string

fun valid_telemetry_control :: "telemetry_control_message \<Rightarrow> bool" where
  "valid_telemetry_control (TelemetryOpen sid signal format) = positive_int sid"
| "valid_telemetry_control (TelemetryOpenOK sid initialWindowBytes) =
     (positive_int sid \<and> positive_int initialWindowBytes)"
| "valid_telemetry_control (TelemetryOpenError sid code message) =
     (positive_int sid \<and> non_empty code \<and> non_empty message)"
| "valid_telemetry_control (TelemetryWindow sid bytes) = (positive_int sid \<and> positive_int bytes)"
| "valid_telemetry_control (TelemetryClose sid) = positive_int sid"
| "valid_telemetry_control (TelemetryReset sid code message) =
     (positive_int sid \<and> non_empty code \<and> non_empty message)"

datatype operation_kind = StartOperation | ResumeOperation | SetupCheckOperation
  | SnapshotOperation | StopOperation

datatype operation_control_message =
    OperationOpen int string operation_kind
  | OperationOpenOK int int
  | OperationOpenError int string string
  | OperationWindow int int
  | OperationClose int
  | OperationReset int string string

fun valid_operation_control :: "operation_control_message \<Rightarrow> bool" where
  "valid_operation_control (OperationOpen sid operationId kind) =
     (positive_int sid \<and> non_empty operationId)"
| "valid_operation_control (OperationOpenOK sid initialWindowBytes) =
     (positive_int sid \<and> positive_int initialWindowBytes)"
| "valid_operation_control (OperationOpenError sid code message) =
     (positive_int sid \<and> non_empty code \<and> non_empty message)"
| "valid_operation_control (OperationWindow sid bytes) = (positive_int sid \<and> positive_int bytes)"
| "valid_operation_control (OperationClose sid) = positive_int sid"
| "valid_operation_control (OperationReset sid code message) =
     (positive_int sid \<and> non_empty code \<and> non_empty message)"

datatype upstream_protocol = Http | Https
datatype body_direction = RequestBody | ResponseBody
datatype authorize_failure = PortUnreachable | UnsupportedProtocol | BootstrapDisconnected
datatype upstream_failure = UpstreamConnectFailed | UpstreamHandshakeFailed | UpstreamIoError

type_synonym repeated_headers = "(string \<times> string list) list"

datatype ports_control_message =
    PortsTargetAuthorize string int
  | PortsTargetAuthorizeSuccess string upstream_protocol bool
  | PortsTargetAuthorizeFailure string authorize_failure

fun valid_ports_control :: "ports_control_message \<Rightarrow> bool" where
  "valid_ports_control (PortsTargetAuthorize requestId port) = (non_empty requestId \<and> positive_int port)"
| "valid_ports_control (PortsTargetAuthorizeSuccess requestId protocol ws) = non_empty requestId"
| "valid_ports_control (PortsTargetAuthorizeFailure requestId reason) = non_empty requestId"

datatype ports_transport_message =
    PortsTcpOpen int int upstream_protocol
  | PortsTcpConnected int
  | PortsTcpClose int body_direction
  | PortsTcpError int upstream_failure string
  | PortsHttpOpen int int upstream_protocol string string "string option" repeated_headers
  | PortsHttpResponseStart int int repeated_headers
  | PortsHttpBodyChunk int body_direction string
  | PortsHttpBodyEnd int body_direction
  | PortsStreamClose int
  | PortsStreamError int upstream_failure string

definition valid_headers :: "repeated_headers \<Rightarrow> bool" where
  "valid_headers headers \<longleftrightarrow> list_all (\<lambda>(name, values). non_empty name) headers"

fun valid_ports_transport :: "ports_transport_message \<Rightarrow> bool" where
  "valid_ports_transport (PortsTcpOpen sid port protocol) = (positive_int sid \<and> positive_int port)"
| "valid_ports_transport (PortsTcpConnected sid) = positive_int sid"
| "valid_ports_transport (PortsTcpClose sid direction) = positive_int sid"
| "valid_ports_transport (PortsTcpError sid code message) = (positive_int sid \<and> non_empty message)"
| "valid_ports_transport (PortsHttpOpen sid port protocol method path query headers) =
     (positive_int sid \<and> positive_int port \<and> non_empty method \<and> non_empty path
      \<and> optional non_empty query \<and> valid_headers headers)"
| "valid_ports_transport (PortsHttpResponseStart sid status headers) =
     (positive_int sid \<and> 200 \<le> status \<and> status \<le> 599 \<and> valid_headers headers)"
| "valid_ports_transport (PortsHttpBodyChunk sid direction bytes) = positive_int sid"
| "valid_ports_transport (PortsHttpBodyEnd sid direction) = positive_int sid"
| "valid_ports_transport (PortsStreamClose sid) = positive_int sid"
| "valid_ports_transport (PortsStreamError sid code message) = (positive_int sid \<and> non_empty message)"

datatype egress_token_failure = InvalidSandboxState | InternalEgressError

datatype egress_token_message =
    EgressTokenRequest string "string option"
  | EgressTokenResponse string string string int
  | EgressTokenError string egress_token_failure string

fun valid_egress_token :: "egress_token_message \<Rightarrow> bool" where
  "valid_egress_token (EgressTokenRequest requestId actingUserId) =
     (non_empty requestId \<and> optional non_empty actingUserId)"
| "valid_egress_token (EgressTokenResponse requestId token expiresAt ttlMs) =
     (non_empty requestId \<and> non_empty token \<and> non_empty expiresAt \<and> positive_int ttlMs)"
| "valid_egress_token (EgressTokenError requestId code message) =
     (non_empty requestId \<and> non_empty message)"

datatype pty_session_mode = CreatePty | AttachPty

record pty_session_launch =
  pty_session :: pty_session_mode
  pty_cols :: "int option"
  pty_rows :: "int option"
  pty_cwd :: "string option"
  pty_command :: "string option"
  pty_args :: "string list option"

definition valid_launch :: "pty_session_launch \<Rightarrow> bool" where
  "valid_launch l \<longleftrightarrow> optional positive_int (pty_cols l) \<and> optional positive_int (pty_rows l)
     \<and> optional non_empty (pty_cwd l) \<and> optional non_empty (pty_command l)
     \<and> optional (list_all non_empty) (pty_args l)"

datatype pty_session_message =
    PtySessionOpen string string string string pty_session_launch
  | PtySessionOpened string string
  | PtySessionError string string string string

definition pty_session_error_codes :: "string list" where
  "pty_session_error_codes = [''transport_connect_failed'', ''pty_create_failed'',
     ''pty_attach_failed'', ''internal_error'']"

fun valid_pty_session :: "(string \<Rightarrow> bool) \<Rightarrow> pty_session_message \<Rightarrow> bool" where
  "valid_pty_session is_url (PtySessionOpen requestId ptySessionId url token launch) =
     (non_empty requestId \<and> non_empty ptySessionId \<and> is_url url \<and> non_empty token
      \<and> valid_launch launch)"
| "valid_pty_session is_url (PtySessionOpened requestId ptySessionId) =
     (non_empty requestId \<and> non_empty ptySessionId)"
| "valid_pty_session is_url (PtySessionError requestId ptySessionId code message) =
     (non_empty requestId \<and> non_empty ptySessionId \<and> code \<in> set pty_session_error_codes
      \<and> non_empty message)"

record signing_request =
  sign_requestId :: string
  sign_organizationId :: string
  sign_sandboxInstanceId :: string
  sign_actingUserId :: string
  sign_providerFamily :: string
  sign_integrationConnectionId :: string
  sign_keyRef :: string
  sign_grant :: string
  sign_payload :: string

datatype signing_control_message =
    SigningRequest signing_request
  | SigningSuccessResult string string
  | SigningFailureResult string string string

fun valid_signing_control :: "signing_control_message \<Rightarrow> bool" where
  "valid_signing_control (SigningRequest r) = list_all non_empty [sign_requestId r,
     sign_organizationId r, sign_sandboxInstanceId r, sign_actingUserId r, sign_providerFamily r,
     sign_integrationConnectionId r, sign_keyRef r, sign_grant r]"
| "valid_signing_control (SigningSuccessResult requestId signature) = non_empty requestId"
| "valid_signing_control (SigningFailureResult requestId code message) =
     (non_empty requestId \<and> non_empty code \<and> non_empty message)"

section \<open>Parse functions\<close>

datatype control_message =
    StreamControl stream_control_message
  | TelemetryControl telemetry_control_message
  | OperationControl operation_control_message
  | PortsControl ports_control_message
  | PortsTransport ports_transport_message
  | EgressTokenControl egress_token_message
  | PtySessionControl pty_session_message
  | SigningControl signing_control_message
  | SandboxKeepaliveState int bool
  | SandboxRuntimeReady bool

fun valid_message :: "(string \<Rightarrow> bool) \<Rightarrow> control_message \<Rightarrow> bool" where
  "valid_message is_url (StreamControl m) = valid_stream_control m"
| "valid_message is_url (TelemetryControl m) = valid_telemetry_control m"
| "valid_message is_url (OperationControl m) = valid_operation_control m"
| "valid_message is_url (PortsControl m) = valid_ports_control m"
| "valid_message is_url (PortsTransport m) = valid_ports_transport m"
| "valid_message is_url (EgressTokenControl m) = valid_egress_token m"
| "valid_message is_url (PtySessionControl m) = valid_pty_session is_url m"
| "valid_message is_url (SigningControl m) = valid_signing_control m"
| "valid_message is_url (SandboxKeepaliveState ttlMs active) = positive_int ttlMs"
| "valid_message is_url (SandboxRuntimeReady ready) = True"

text \<open>The message unions that differ from a whole group.\<close>

fun is_bootstrap_control :: "control_message \<Rightarrow> bool" where
  "is_bootstrap_control (StreamControl m) = (case m of StreamOpenOK _ \<Rightarrow> True
     | StreamOpenError _ _ _ \<Rightarrow> True | StreamEventMessage _ _ \<Rightarrow> True | StreamComplete _ \<Rightarrow> True
     | StreamReset _ _ _ \<Rightarrow> True | StreamWindow _ _ \<Rightarrow> True | _ \<Rightarrow> False)"
| "is_bootstrap_control (TelemetryControl m) = (case m of TelemetryOpen _ _ _ \<Rightarrow> True
     | TelemetryClose _ \<Rightarrow> True | _ \<Rightarrow> False)"
| "is_bootstrap_control (OperationControl m) = (case m of OperationOpen _ _ _ \<Rightarrow> True
     | OperationClose _ \<Rightarrow> True | _ \<Rightarrow> False)"
| "is_bootstrap_control (SandboxKeepaliveState _ _) = True"
| "is_bootstrap_control (SandboxRuntimeReady _) = True"
| "is_bootstrap_control _ = False"

text \<open>
  \<open>read_message\<close> stands for \<open>JSON.parse\<close> and the selection of the object schema by \<open>type\<close>, \<open>is_url\<close> for
  the URL check of one field, \<open>stringify\<close> for \<open>JSON.stringify\<close>.
\<close>

record json_codec =
  read_message :: "string \<Rightarrow> control_message option"
  stringify :: "control_message \<Rightarrow> string"
  is_url :: "string \<Rightarrow> bool"

definition parse_message :: "json_codec \<Rightarrow> string \<Rightarrow> control_message option" where
  "parse_message json text =
     (case read_message json text of None \<Rightarrow> None
      | Some message \<Rightarrow> if valid_message (is_url json) message then Some message else None)"

definition parseStreamControlMessage :: "json_codec \<Rightarrow> string \<Rightarrow> stream_control_message option" where
  "parseStreamControlMessage json text =
     (case parse_message json text of Some (StreamControl m) \<Rightarrow> Some m | _ \<Rightarrow> None)"

definition parseTelemetryControlMessage :: "json_codec \<Rightarrow> string \<Rightarrow> telemetry_control_message option" where
  "parseTelemetryControlMessage json text =
     (case parse_message json text of Some (TelemetryControl m) \<Rightarrow> Some m | _ \<Rightarrow> None)"

definition parseOperationControlMessage :: "json_codec \<Rightarrow> string \<Rightarrow> operation_control_message option" where
  "parseOperationControlMessage json text =
     (case parse_message json text of Some (OperationControl m) \<Rightarrow> Some m | _ \<Rightarrow> None)"

definition parseSigningControlMessage :: "json_codec \<Rightarrow> string \<Rightarrow> signing_control_message option" where
  "parseSigningControlMessage json text =
     (case parse_message json text of Some (SigningControl m) \<Rightarrow> Some m | _ \<Rightarrow> None)"

definition parseBootstrapControlMessage :: "json_codec \<Rightarrow> string \<Rightarrow> control_message option" where
  "parseBootstrapControlMessage json text =
     (case parse_message json text of None \<Rightarrow> None
      | Some m \<Rightarrow> if is_bootstrap_control m then Some m else None)"

definition parsePortsControlMessage :: "json_codec \<Rightarrow> string \<Rightarrow> ports_control_message option" where
  "parsePortsControlMessage json text =
     (case parse_message json text of Some (PortsControl m) \<Rightarrow> Some m | _ \<Rightarrow> None)"

definition parsePortsTransportMessage :: "json_codec \<Rightarrow> string \<Rightarrow> ports_transport_message option" where
  "parsePortsTransportMessage json text =
     (case parse_message json text of Some (PortsTransport m) \<Rightarrow> Some m | _ \<Rightarrow> None)"

definition parseEgressTokenControlMessage :: "json_codec \<Rightarrow> string \<Rightarrow> egress_token_message option" where
  "parseEgressTokenControlMessage json text =
     (case parse_message json text of Some (EgressTokenControl m) \<Rightarrow> Some m | _ \<Rightarrow> None)"

definition parsePtySessionControlMessage :: "json_codec \<Rightarrow> string \<Rightarrow> pty_session_message option" where
  "parsePtySessionControlMessage json text =
     (case parse_message json text of Some (PtySessionControl m) \<Rightarrow> Some m | _ \<Rightarrow> None)"

lemmas parse_defs = parseStreamControlMessage_def parseTelemetryControlMessage_def
  parseOperationControlMessage_def parseSigningControlMessage_def parseBootstrapControlMessage_def
  parsePortsControlMessage_def parsePortsTransportMessage_def parseEgressTokenControlMessage_def
  parsePtySessionControlMessage_def

lemma parse_message_Some:
  "parse_message json text = Some m \<longleftrightarrow> read_message json text = Some m \<and> valid_message (is_url json) m"
  by (auto simp: parse_message_def split: option.splits if_splits)

lemma parseStreamControlMessage_Some:
  "parseStreamControlMessage json text = Some m \<longleftrightarrow> parse_message json text = Some (StreamControl m)"
  by (auto simp: parseStreamControlMessage_def split: option.splits control_message.splits)

text \<open>A text is a message of at most one group.\<close>

lemma parse_groups:
  assumes "parse_message json text = Some (StreamControl m)"
  shows "parseStreamControlMessage json text = Some m"
    "parseTelemetryControlMessage json text = None" "parseOperationControlMessage json text = None"
    "parseSigningControlMessage json text = None" "parsePortsControlMessage json text = None"
    "parsePortsTransportMessage json text = None" "parseEgressTokenControlMessage json text = None"
    "parsePtySessionControlMessage json text = None"
  using assms by (simp_all add: parse_defs)

end
