(* ===== verification/TunnelTypes.thy ===== *)
theory TunnelTypes
  imports DataFrame Protocol
begin

text \<open>
  Data shared by the tunnel components of \<open>apps/data-plane-gateway/src/tunnel\<close>: peers and relay
  envelopes (\<open>types.ts\<close>), stream bindings (\<open>sandbox-tunnel-session.ts\<close>), forwarding inputs, results
  and errors (\<open>gateway-forwarding/types.ts\<close>, \<open>bootstrap-tunnel-not-connected-error.ts\<close>). The class
  of a thrown error is a constructor of \<open>gateway_error\<close>; a plain \<open>Error\<close> is its message.
\<close>

datatype relay_peer_side = BootstrapSide | ConnectionSide | PtyClientSide | PtySandboxSide

record relay_target =
  target_sandboxInstanceId :: string
  target_side :: relay_peer_side
  target_nodeId :: string
  target_sessionId :: string

datatype relay_payload = Text string | Binary "byte list"

datatype relay_envelope =
    FrameEnvelope (envelope_target: relay_target) relay_payload
  | CloseEnvelope (envelope_target: relay_target) int string

record client_stream_binding =
  channelKind :: stream_channel_kind
  clientSessionId :: string
  clientStreamId :: int
  tunnelStreamId :: int

record forwarding_target =
  sourceNodeId :: string
  targetNodeId :: string
  targetBootstrapSessionId :: string

record interactive_stream_route =
  bootstrapTarget :: relay_target
  binding :: client_stream_binding

record release_result =
  releaseBootstrapTarget :: "relay_target option"
  releasedBindings :: "client_stream_binding list"

datatype forwarding_operation = OpenInteractiveStream | FindInteractiveStreamByClient
  | FindInteractiveStreamByTunnel | CloseInteractiveStream | ReleaseClientSessionStreams
  | AuthorizePortAccessTarget | OpenPortAccessStream | ReleasePortAccessStream

datatype authorization_error_code = AuthorizationBootstrapDisconnected
  | AuthorizationBootstrapNotConnected | TargetAuthorizeTimedOut

datatype unavailable_reason = ConnectionClosed | ConnectionDraining | NoResponders

record unavailable_details =
  unavailable_operation :: forwarding_operation
  unavailable_reason :: unavailable_reason
  unavailable_sandboxInstanceId :: string
  unavailable_subject :: string
  unavailable_target :: forwarding_target

datatype gateway_error =
    PlainError string
  | BootstrapTunnelNotConnectedError string
  | TunnelSessionBindingLimitExceededError int
  | GatewayForwardingUnavailableError string unavailable_details
  | GatewayForwardingPortAccessAuthorizationError authorization_error_code string
  | TunnelProtocolViolationError string

definition in_quotes :: "string \<Rightarrow> string" where
  "in_quotes s = [CHR 0x27] @ s @ [CHR 0x27]"

fun error_message :: "gateway_error \<Rightarrow> string" where
  "error_message (PlainError message) = message"
| "error_message (BootstrapTunnelNotConnectedError sandboxInstanceId) =
     ''Sandbox bootstrap tunnel is not connected for sandbox '' @ in_quotes sandboxInstanceId @ ''.''"
| "error_message (TunnelSessionBindingLimitExceededError maxBindingCount) =
     ''Bootstrap tunnel session already has the maximum '' @ string_of_int maxBindingCount
       @ '' active interactive stream bindings.''"
| "error_message (GatewayForwardingUnavailableError message details) = message"
| "error_message (GatewayForwardingPortAccessAuthorizationError code message) = message"
| "error_message (TunnelProtocolViolationError message) = message"

end
