(* ===== verification/TunnelSession.thy ===== *)
theory TunnelSession
  imports TunnelTypes
begin

text \<open>
  One live bootstrap tunnel, \<open>tunnel/tunnel-session/sandbox-tunnel-session.ts\<close> of the gateway: the
  bindings of client streams to tunnel stream ids, indexed both ways, the number of bindings of each
  client session, the reserved ids and the next id to hand out. \<open>wf_session\<close> is the invariant that
  keeps the indexes in step; every method preserves it.
\<close>

section \<open>State\<close>

record tunnel_session =
  session_bootstrapTarget :: relay_target
  maxBindingCount :: "int option"
  bindingsByClientKey :: "(string, client_stream_binding) js_map"
  bindingsByTunnelStreamId :: "(int, client_stream_binding) js_map"
  bindingCountsByClientSessionId :: "(string, int) js_map"
  reservedTunnelStreamIds :: "int list"
  nextTunnelStreamId :: int

definition new_tunnel_session :: "relay_target \<Rightarrow> int option \<Rightarrow> tunnel_session" where
  "new_tunnel_session target maxCount = \<lparr>session_bootstrapTarget = target, maxBindingCount = maxCount,
     bindingsByClientKey = [], bindingsByTunnelStreamId = [], bindingCountsByClientSessionId = [],
     reservedTunnelStreamIds = [], nextTunnelStreamId = 1\<rparr>"

definition toClientBindingKey :: "string \<Rightarrow> int \<Rightarrow> string" where
  "toClientBindingKey sessionId sid = sessionId @ '':'' @ string_of_int sid"

section \<open>Allocation\<close>

text \<open>The loop that skips the ids in use; each turn leaves fewer used ids ahead.\<close>

function free_stream_id ::
  "(int, client_stream_binding) js_map \<Rightarrow> int list \<Rightarrow> int \<Rightarrow> int" where
  "free_stream_id bound reserved n =
     (if js_has bound n \<or> n \<in> set reserved then free_stream_id bound reserved (n + 1) else n)"
  by pat_completeness auto

termination
proof (relation "measure (\<lambda>(bound, reserved, n). card {i \<in> fst ` set bound \<union> set reserved. n \<le> i})")
  fix bound :: "(int, client_stream_binding) js_map" and reserved and n :: int
  let ?used = "fst ` set bound \<union> set reserved"
  assume "js_has bound n \<or> n \<in> set reserved"
  then have "n \<in> ?used"
    by (simp add: js_has_iff)
  then have "n \<in> {i \<in> ?used. n \<le> i}" and "n \<notin> {i \<in> ?used. n + 1 \<le> i}"
    by auto
  moreover have "{i \<in> ?used. n + 1 \<le> i} \<subseteq> {i \<in> ?used. n \<le> i}"
    by auto
  ultimately have "{i \<in> ?used. n + 1 \<le> i} \<subset> {i \<in> ?used. n \<le> i}"
    by blast
  then show "((bound, reserved, n + 1), bound, reserved, n)
      \<in> measure (\<lambda>(bound, reserved, n). card {i \<in> fst ` set bound \<union> set reserved. n \<le> i})"
    by (simp add: psubset_card_mono)
qed simp

declare free_stream_id.simps [simp del]

definition allocateTunnelStreamId :: "tunnel_session \<Rightarrow> int \<times> tunnel_session" where
  "allocateTunnelStreamId s =
     (let sid = free_stream_id (bindingsByTunnelStreamId s) (reservedTunnelStreamIds s)
        (nextTunnelStreamId s)
      in (sid, s\<lparr>nextTunnelStreamId := sid + 1\<rparr>))"

section \<open>Methods\<close>

definition binding_count_of :: "tunnel_session \<Rightarrow> string \<Rightarrow> int \<Rightarrow> int" where
  "binding_count_of s sessionId otherwise =
     (case js_get (bindingCountsByClientSessionId s) sessionId of None \<Rightarrow> otherwise | Some n \<Rightarrow> n)"

definition session_bindClientStream ::
  "stream_channel_kind \<Rightarrow> string \<Rightarrow> int
     \<Rightarrow> (gateway_error, tunnel_session, client_stream_binding) comp" where
  "session_bindClientStream kind sessionId sid s =
     (if sid \<le> 0 then (Inl (PlainError ''Client stream id must be a positive integer.''), s)
      else if (case maxBindingCount s of None \<Rightarrow> False
          | Some m \<Rightarrow> int (js_size (bindingsByTunnelStreamId s)) \<ge> m)
      then (Inl (TunnelSessionBindingLimitExceededError (the (maxBindingCount s))), s)
      else let key = toClientBindingKey sessionId sid in
        if js_has (bindingsByClientKey s) key
        then (Inl (PlainError (''Client stream binding already exists for session ''
                @ in_quotes sessionId @ '' stream '' @ string_of_int sid @ ''.'')), s)
        else let (tunnelId, s1) = allocateTunnelStreamId s;
          b = \<lparr>channelKind = kind, clientSessionId = sessionId, clientStreamId = sid,
                tunnelStreamId = tunnelId\<rparr> in
          (Inr b, s1\<lparr>bindingsByClientKey := js_set key b (bindingsByClientKey s1),
             bindingsByTunnelStreamId := js_set tunnelId b (bindingsByTunnelStreamId s1),
             bindingCountsByClientSessionId := js_set sessionId (binding_count_of s1 sessionId 0 + 1)
               (bindingCountsByClientSessionId s1)\<rparr>))"

definition session_reserveTunnelStream :: "tunnel_session \<Rightarrow> int \<times> tunnel_session" where
  "session_reserveTunnelStream s =
     (let (sid, s1) = allocateTunnelStreamId s
      in (sid, s1\<lparr>reservedTunnelStreamIds := js_add sid (reservedTunnelStreamIds s1)\<rparr>))"

definition session_releaseReservedTunnelStream :: "int \<Rightarrow> tunnel_session \<Rightarrow> bool \<times> tunnel_session" where
  "session_releaseReservedTunnelStream sid s = (sid \<in> set (reservedTunnelStreamIds s),
     s\<lparr>reservedTunnelStreamIds := js_remove sid (reservedTunnelStreamIds s)\<rparr>)"

definition session_getBindingByClientStream ::
  "string \<Rightarrow> int \<Rightarrow> tunnel_session \<Rightarrow> client_stream_binding option" where
  "session_getBindingByClientStream sessionId sid s =
     js_get (bindingsByClientKey s) (toClientBindingKey sessionId sid)"

definition session_getBindingByTunnelStreamId ::
  "int \<Rightarrow> tunnel_session \<Rightarrow> client_stream_binding option" where
  "session_getBindingByTunnelStreamId sid s = js_get (bindingsByTunnelStreamId s) sid"

definition session_unbindClientStream ::
  "string \<Rightarrow> int \<Rightarrow> tunnel_session \<Rightarrow> client_stream_binding option \<times> tunnel_session" where
  "session_unbindClientStream sessionId sid s =
     (let key = toClientBindingKey sessionId sid in
      case js_get (bindingsByClientKey s) key of
        None \<Rightarrow> (None, s)
      | Some b \<Rightarrow>
          (let s1 = s\<lparr>bindingsByClientKey := js_delete key (bindingsByClientKey s),
                bindingsByTunnelStreamId :=
                  js_delete (tunnelStreamId b) (bindingsByTunnelStreamId s)\<rparr>;
               next = binding_count_of s (clientSessionId b) 1 - 1 in
           (Some b, s1\<lparr>bindingCountsByClientSessionId :=
              (if next \<le> 0 then js_delete (clientSessionId b) (bindingCountsByClientSessionId s1)
               else js_set (clientSessionId b) next (bindingCountsByClientSessionId s1))\<rparr>)))"

definition session_releaseAllBindings ::
  "tunnel_session \<Rightarrow> client_stream_binding list \<times> tunnel_session" where
  "session_releaseAllBindings s = (js_values (bindingsByTunnelStreamId s),
     s\<lparr>bindingsByClientKey := [], bindingsByTunnelStreamId := [], bindingCountsByClientSessionId := [],
       reservedTunnelStreamIds := []\<rparr>)"

definition drop_binding :: "client_stream_binding \<Rightarrow> tunnel_session \<Rightarrow> tunnel_session" where
  "drop_binding b s = s\<lparr>bindingsByClientKey :=
       js_delete (toClientBindingKey (clientSessionId b) (clientStreamId b)) (bindingsByClientKey s),
     bindingsByTunnelStreamId := js_delete (tunnelStreamId b) (bindingsByTunnelStreamId s)\<rparr>"

definition session_releaseClientSessionBindings ::
  "string \<Rightarrow> tunnel_session \<Rightarrow> client_stream_binding list \<times> tunnel_session" where
  "session_releaseClientSessionBindings sessionId s =
     (let released = filter (\<lambda>b. clientSessionId b = sessionId) (js_values (bindingsByTunnelStreamId s));
          s1 = fold drop_binding released s in
      (released, if length released > 0
         then s1\<lparr>bindingCountsByClientSessionId :=
           js_delete sessionId (bindingCountsByClientSessionId s1)\<rparr>
         else s1))"

definition session_bindingCount :: "tunnel_session \<Rightarrow> nat" where
  "session_bindingCount s = js_size (bindingsByTunnelStreamId s)"

section \<open>Invariant\<close>

definition binding_key :: "client_stream_binding \<Rightarrow> string" where
  "binding_key b = toClientBindingKey (clientSessionId b) (clientStreamId b)"

definition counts_match ::
  "(string, int) js_map \<Rightarrow> (int, client_stream_binding) js_map \<Rightarrow> bool" where
  "counts_match counts bound \<longleftrightarrow> (\<forall>c. js_get counts c =
     (let n = js_count (\<lambda>b. clientSessionId b = c) bound in if n = 0 then None else Some (int n)))"

definition wf_session :: "tunnel_session \<Rightarrow> bool" where
  "wf_session s \<longleftrightarrow>
     wf_map (bindingsByClientKey s) \<and> wf_map (bindingsByTunnelStreamId s)
     \<and> distinct (reservedTunnelStreamIds s)
     \<and> (\<forall>k b. js_get (bindingsByClientKey s) k = Some b \<longleftrightarrow>
          k = binding_key b \<and> js_get (bindingsByTunnelStreamId s) (tunnelStreamId b) = Some b)
     \<and> (\<forall>i b. js_get (bindingsByTunnelStreamId s) i = Some b \<longrightarrow>
          tunnelStreamId b = i \<and> 0 < clientStreamId b \<and> 0 < i \<and> i < nextTunnelStreamId s)
     \<and> (\<forall>i\<in>set (reservedTunnelStreamIds s). 0 < i \<and> i < nextTunnelStreamId s
          \<and> js_get (bindingsByTunnelStreamId s) i = None)
     \<and> 0 < nextTunnelStreamId s
     \<and> counts_match (bindingCountsByClientSessionId s) (bindingsByTunnelStreamId s)
     \<and> (\<forall>m. maxBindingCount s = Some m \<longrightarrow> int (js_size (bindingsByTunnelStreamId s)) \<le> max 0 m)"

lemma toClientBindingKey_inj:
  "toClientBindingKey c i = toClientBindingKey d j \<longleftrightarrow> c = d \<and> i = j"
  unfolding toClientBindingKey_def
  using last_separator_inj [OF string_of_int_no_colon string_of_int_no_colon]
  by (simp add: string_of_int_inj)

lemma binding_key_eq:
  "toClientBindingKey c i = binding_key b \<longleftrightarrow> c = clientSessionId b \<and> i = clientStreamId b"
  by (simp add: binding_key_def toClientBindingKey_inj)

lemma free_stream_id_unused:
  "\<not> js_has bound n \<Longrightarrow> n \<notin> set reserved \<Longrightarrow> free_stream_id bound reserved n = n"
  by (simp add: free_stream_id.simps)

text \<open>The loop ends at the first id that is neither bound nor reserved.\<close>

lemma free_stream_id_least:
  "\<not> js_has bound (free_stream_id bound reserved n) \<and> free_stream_id bound reserved n \<notin> set reserved
   \<and> n \<le> free_stream_id bound reserved n
   \<and> (\<forall>i. n \<le> i \<and> i < free_stream_id bound reserved n \<longrightarrow> js_has bound i \<or> i \<in> set reserved)"
proof (induction bound reserved n rule: free_stream_id.induct)
  case (1 bound reserved n)
  show ?case
  proof (cases "js_has bound n \<or> n \<in> set reserved")
    case True
    then have step: "free_stream_id bound reserved n = free_stream_id bound reserved (n + 1)"
      by (simp add: free_stream_id.simps [of bound reserved n])
    have "i = n \<or> n + 1 \<le> i" if "n \<le> i" for i
      using that by linarith
    with True 1 [OF True] show ?thesis
      unfolding step by fastforce
  qed (auto simp: free_stream_id.simps)
qed

lemma allocate_wf:
  assumes "wf_session s"
  shows "allocateTunnelStreamId s =
    (nextTunnelStreamId s, s\<lparr>nextTunnelStreamId := nextTunnelStreamId s + 1\<rparr>)"
proof -
  have "js_get (bindingsByTunnelStreamId s) (nextTunnelStreamId s) = None"
    using assms unfolding wf_session_def by (metis less_irrefl not_None_eq)
  moreover have "nextTunnelStreamId s \<notin> set (reservedTunnelStreamIds s)"
    using assms unfolding wf_session_def by (metis less_irrefl)
  ultimately show ?thesis
    by (simp add: allocateTunnelStreamId_def free_stream_id_unused js_has_def Let_def)
qed

lemma wf_new_session [wf_intros]: "wf_session (new_tunnel_session target maxCount)"
  by (simp add: wf_session_def new_tunnel_session_def counts_match_def)

lemma wf_session_maps:
  assumes "wf_session s"
  shows "wf_map (bindingsByClientKey s)" "wf_map (bindingsByTunnelStreamId s)"
    "distinct (reservedTunnelStreamIds s)" "0 < nextTunnelStreamId s"
    "counts_match (bindingCountsByClientSessionId s) (bindingsByTunnelStreamId s)"
  using assms by (simp_all add: wf_session_def)

lemma wf_session_key:
  "wf_session s \<Longrightarrow> js_get (bindingsByClientKey s) k = Some b \<longleftrightarrow>
     k = binding_key b \<and> js_get (bindingsByTunnelStreamId s) (tunnelStreamId b) = Some b"
  by (simp add: wf_session_def)

lemma wf_session_id:
  "wf_session s \<Longrightarrow> js_get (bindingsByTunnelStreamId s) i = Some b \<Longrightarrow>
     tunnelStreamId b = i \<and> 0 < clientStreamId b \<and> 0 < i \<and> i < nextTunnelStreamId s"
  by (simp add: wf_session_def)

lemma wf_session_reserved:
  "wf_session s \<Longrightarrow> i \<in> set (reservedTunnelStreamIds s) \<Longrightarrow>
     0 < i \<and> i < nextTunnelStreamId s \<and> js_get (bindingsByTunnelStreamId s) i = None"
  by (simp add: wf_session_def)

lemma wf_session_fresh:
  assumes "wf_session s"
  shows "js_get (bindingsByTunnelStreamId s) (nextTunnelStreamId s) = None"
    "nextTunnelStreamId s \<notin> set (reservedTunnelStreamIds s)"
proof -
  show "js_get (bindingsByTunnelStreamId s) (nextTunnelStreamId s) = None"
    using wf_session_id [OF assms] by (metis less_irrefl not_None_eq)
  show "nextTunnelStreamId s \<notin> set (reservedTunnelStreamIds s)"
    using wf_session_reserved [OF assms] by (metis less_irrefl)
qed

section \<open>Preservation\<close>

lemma bindClientStream_Inr:
  assumes "wf_session s"
  shows "session_bindClientStream kind c i s = (Inr b, t) \<longleftrightarrow>
    0 < i \<and> (\<forall>m. maxBindingCount s = Some m \<longrightarrow> int (js_size (bindingsByTunnelStreamId s)) < m)
    \<and> js_get (bindingsByClientKey s) (toClientBindingKey c i) = None
    \<and> b = \<lparr>channelKind = kind, clientSessionId = c, clientStreamId = i,
             tunnelStreamId = nextTunnelStreamId s\<rparr>
    \<and> t = s\<lparr>nextTunnelStreamId := nextTunnelStreamId s + 1,
        bindingsByClientKey := js_set (toClientBindingKey c i) b (bindingsByClientKey s),
        bindingsByTunnelStreamId := js_set (nextTunnelStreamId s) b (bindingsByTunnelStreamId s),
        bindingCountsByClientSessionId :=
          js_set c (binding_count_of s c 0 + 1) (bindingCountsByClientSessionId s)\<rparr>"
  unfolding session_bindClientStream_def Let_def allocate_wf [OF assms]
  by (auto simp: js_has_def binding_count_of_def split: option.splits)

lemma bindClientStream_Inl: "session_bindClientStream kind c i s = (Inl e, t) \<Longrightarrow> t = s"
  by (auto simp: session_bindClientStream_def Let_def split: if_splits prod.splits)

lemma counts_match_set:
  assumes "counts_match counts bound" and "js_get bound i = None" and "clientSessionId b = c"
  shows "counts_match
    (js_set c ((case js_get counts c of None \<Rightarrow> 0 | Some n \<Rightarrow> n) + 1) counts) (js_set i b bound)"
  using assms by (auto simp: counts_match_def js_count_set_fresh js_get_set Let_def)

lemma counts_match_delete:
  assumes "counts_match counts bound" and "wf_map bound" and "js_get bound i = Some b"
  defines "next \<equiv> (case js_get counts (clientSessionId b) of None \<Rightarrow> 1 | Some n \<Rightarrow> n) - 1"
  shows "counts_match (if next \<le> 0 then js_delete (clientSessionId b) counts
     else js_set (clientSessionId b) next counts) (js_delete i bound)"
proof -
  let ?n = "\<lambda>c. js_count (\<lambda>b. clientSessionId b = c)"
  have count: "?n c (js_delete i bound) + (if clientSessionId b = c then 1 else 0) = ?n c bound" for c
    by (rule js_count_delete) fact+
  have "next = int (?n (clientSessionId b) (js_delete i bound))"
    using assms(1) count [of "clientSessionId b"]
    by (simp add: next_def counts_match_def Let_def split: option.splits)
  moreover have "js_get counts c = (let n = ?n c bound in if n = 0 then None else Some (int n))" for c
    using assms(1) by (simp add: counts_match_def)
  moreover have "?n c (js_delete i bound) = ?n c bound" if "c \<noteq> clientSessionId b" for c
    using count [of c] that by simp
  ultimately show ?thesis
    unfolding counts_match_def by (simp add: js_get_set js_get_delete Let_def)
qed

lemma wf_bind [wf_intros]:
  assumes "wf_session s" and "session_bindClientStream kind c i s = (r, t)"
  shows "wf_session t"
proof (cases r)
  case (Inl e)
  with assms show ?thesis
    by (metis bindClientStream_Inl)
next
  case (Inr b)
  note bind = assms(2) [unfolded Inr bindClientStream_Inr [OF assms(1)]]
  have fresh: "js_get (bindingsByTunnelStreamId s) (nextTunnelStreamId s) = None"
    "nextTunnelStreamId s \<notin> set (reservedTunnelStreamIds s)"
    using assms(1) by (rule wf_session_fresh)+
  have key: "toClientBindingKey c i = binding_key b"
    using bind by (simp add: binding_key_def)
  have "counts_match (bindingCountsByClientSessionId t) (bindingsByTunnelStreamId t)"
    using counts_match_set [OF wf_session_maps(5) [OF assms(1)] fresh(1), of b c] bind
    by (simp add: binding_count_of_def)
  moreover have "int (js_size (bindingsByTunnelStreamId t)) \<le> max 0 m" if "maxBindingCount t = Some m" for m
    using bind that fresh by (auto simp: js_size_set js_has_def)
  moreover have "js_get (bindingsByClientKey t) k = Some b' \<longleftrightarrow>
      k = binding_key b' \<and> js_get (bindingsByTunnelStreamId t) (tunnelStreamId b') = Some b'" for k b'
  proof (cases "tunnelStreamId b' = nextTunnelStreamId s")
    case True
    then show ?thesis
      using bind key fresh wf_session_key [OF assms(1), of k b'] by (auto simp: js_get_set)
  next
    case False
    then have "b' \<noteq> b"
      using bind by auto
    moreover have "js_get (bindingsByTunnelStreamId s) (tunnelStreamId b') \<noteq> Some b'" if "binding_key b' = binding_key b"
      using that bind key wf_session_key [OF assms(1), of "binding_key b'" b'] by auto
    ultimately show ?thesis
      using bind key False wf_session_key [OF assms(1), of k b'] by (auto simp: js_get_set)
  qed
  moreover have "js_get (bindingsByTunnelStreamId t) j = Some b' \<Longrightarrow>
      tunnelStreamId b' = j \<and> 0 < clientStreamId b' \<and> 0 < j \<and> j < nextTunnelStreamId t" for j b'
    using bind wf_session_id [OF assms(1), of j b'] wf_session_maps(4) [OF assms(1)]
    by (auto simp: js_get_set split: if_splits)
  moreover have "j \<in> set (reservedTunnelStreamIds t) \<Longrightarrow> 0 < j \<and> j < nextTunnelStreamId t
      \<and> js_get (bindingsByTunnelStreamId t) j = None" for j
    using bind wf_session_reserved [OF assms(1), of j] by (auto simp: js_get_set)
  ultimately show ?thesis
    using bind wf_session_maps [OF assms(1)] unfolding wf_session_def by (simp add: wf_map_set)
qed

lemma wf_reserve [wf_intros]:
  assumes "wf_session s"
  shows "wf_session (snd (session_reserveTunnelStream s))"
  using assms wf_session_fresh [OF assms] wf_session_id [OF assms] wf_session_reserved [OF assms]
  unfolding session_reserveTunnelStream_def allocate_wf [OF assms]
  by (auto simp: wf_session_def distinct_js_add less_imp_le intro: less_trans)

lemma wf_releaseReserved [wf_intros]:
  "wf_session s \<Longrightarrow> wf_session (snd (session_releaseReservedTunnelStream i s))"
  by (auto simp: wf_session_def session_releaseReservedTunnelStream_def distinct_js_remove)

lemma wf_releaseAll [wf_intros]: "wf_session s \<Longrightarrow> wf_session (snd (session_releaseAllBindings s))"
  by (auto simp: wf_session_def session_releaseAllBindings_def counts_match_def)

lemma unbind_Some:
  assumes "wf_session s"
  shows "session_unbindClientStream c i s = (Some b, t) \<Longrightarrow>
    js_get (bindingsByTunnelStreamId s) (tunnelStreamId b) = Some b \<and> clientSessionId b = c
    \<and> clientStreamId b = i"
  using wf_session_key [OF assms] toClientBindingKey_inj
  by (fastforce simp: session_unbindClientStream_def Let_def binding_key_def split: option.splits)

lemma wf_unbind [wf_intros]:
  assumes "wf_session s" and "session_unbindClientStream c i s = (r, t)"
  shows "wf_session t"
proof (cases r)
  case None
  with assms show ?thesis
    by (auto simp: session_unbindClientStream_def Let_def split: option.splits)
next
  case (Some b)
  have b: "js_get (bindingsByTunnelStreamId s) (tunnelStreamId b) = Some b"
    "clientSessionId b = c" "clientStreamId b = i"
    using unbind_Some [OF assms(1)] assms(2) Some by auto
  then have key: "toClientBindingKey c i = binding_key b"
    by (simp add: binding_key_def)
  have fields: "bindingsByClientKey t = js_delete (binding_key b) (bindingsByClientKey s)"
    "bindingsByTunnelStreamId t = js_delete (tunnelStreamId b) (bindingsByTunnelStreamId s)"
    "reservedTunnelStreamIds t = reservedTunnelStreamIds s" "nextTunnelStreamId t = nextTunnelStreamId s"
    "maxBindingCount t = maxBindingCount s"
    using assms(2) Some by (auto simp: session_unbindClientStream_def Let_def key split: option.splits)
  have "counts_match (bindingCountsByClientSessionId t) (bindingsByTunnelStreamId t)"
    using counts_match_delete [OF wf_session_maps(5,2) [OF assms(1)] b(1)] assms(2) Some
    by (auto simp: session_unbindClientStream_def Let_def binding_count_of_def fields
        split: option.splits)
  moreover have "js_get (bindingsByClientKey t) k = Some b' \<longleftrightarrow>
      k = binding_key b' \<and> js_get (bindingsByTunnelStreamId t) (tunnelStreamId b') = Some b'" for k b'
  proof -
    have "binding_key b' = binding_key b \<longleftrightarrow> tunnelStreamId b' = tunnelStreamId b"
      if "js_get (bindingsByTunnelStreamId s) (tunnelStreamId b') = Some b'"
      using that b(1) wf_session_key [OF assms(1), of "binding_key b'"] by (metis option.inject)
    then show ?thesis
      using wf_session_key [OF assms(1), of k b'] by (auto simp: fields js_get_delete)
  qed
  moreover have "js_size (bindingsByTunnelStreamId t) \<le> js_size (bindingsByTunnelStreamId s)"
    by (simp add: fields AList.length_delete_le)
  ultimately show ?thesis
    using assms(1) unfolding wf_session_def fields
    by (auto simp: wf_map_delete js_get_delete intro: order_trans split: if_splits)
qed

lemma fold_drop_binding:
  "fold drop_binding bs s = s\<lparr>bindingsByClientKey :=
       filter (\<lambda>(k, v). k \<notin> binding_key ` set bs) (bindingsByClientKey s),
     bindingsByTunnelStreamId :=
       filter (\<lambda>(k, v). k \<notin> tunnelStreamId ` set bs) (bindingsByTunnelStreamId s)\<rparr>"
proof -
  have "fold drop_binding bs s = s\<lparr>bindingsByClientKey :=
       fold (\<lambda>b. js_delete (binding_key b)) bs (bindingsByClientKey s),
     bindingsByTunnelStreamId :=
       fold (\<lambda>b. js_delete (tunnelStreamId b)) bs (bindingsByTunnelStreamId s)\<rparr>"
    by (induction bs arbitrary: s) (simp_all add: drop_binding_def binding_key_def)
  then show ?thesis
    by (simp add: js_fold_delete)
qed

text \<open>Releasing a client session removes exactly its bindings from every index.\<close>

lemma releaseClientSession_eq:
  assumes "session_releaseClientSessionBindings c s = (bs, t)"
  shows "bs = filter (\<lambda>b. clientSessionId b = c) (js_values (bindingsByTunnelStreamId s))"
    and "t = s\<lparr>bindingsByClientKey :=
        filter (\<lambda>(k, v). k \<notin> binding_key ` set bs) (bindingsByClientKey s),
      bindingsByTunnelStreamId :=
        filter (\<lambda>(k, v). k \<notin> tunnelStreamId ` set bs) (bindingsByTunnelStreamId s),
      bindingCountsByClientSessionId := (if bs = [] then bindingCountsByClientSessionId s
        else js_delete c (bindingCountsByClientSessionId s))\<rparr>"
proof -
  let ?bs = "filter (\<lambda>b. clientSessionId b = c) (js_values (bindingsByTunnelStreamId s))"
  show bs: "bs = ?bs"
    using assms unfolding session_releaseClientSessionBindings_def Let_def prod.inject by (rule conjunct1 [THEN sym])
  have "t = (if length ?bs > 0 then (fold drop_binding ?bs s)\<lparr>bindingCountsByClientSessionId :=
      js_delete c (bindingCountsByClientSessionId (fold drop_binding ?bs s))\<rparr> else fold drop_binding ?bs s)"
    using assms unfolding session_releaseClientSessionBindings_def Let_def prod.inject by (rule conjunct2 [THEN sym])
  then show "t = s\<lparr>bindingsByClientKey :=
        filter (\<lambda>(k, v). k \<notin> binding_key ` set bs) (bindingsByClientKey s),
      bindingsByTunnelStreamId :=
        filter (\<lambda>(k, v). k \<notin> tunnelStreamId ` set bs) (bindingsByTunnelStreamId s),
      bindingCountsByClientSessionId := (if bs = [] then bindingCountsByClientSessionId s
        else js_delete c (bindingCountsByClientSessionId s))\<rparr>"
    unfolding bs [symmetric] by (cases "bs = []") (simp_all add: fold_drop_binding)
qed

lemma set_released:
  assumes "wf_session s"
    and "bs = filter (\<lambda>b. clientSessionId b = c) (js_values (bindingsByTunnelStreamId s))"
  shows "b \<in> set bs \<longleftrightarrow> js_get (bindingsByTunnelStreamId s) (tunnelStreamId b) = Some b
    \<and> clientSessionId b = c"
proof -
  have "b \<in> set (js_values (bindingsByTunnelStreamId s)) \<longleftrightarrow>
      js_get (bindingsByTunnelStreamId s) (tunnelStreamId b) = Some b"
    unfolding js_values_iff [OF wf_session_maps(2) [OF assms(1)]]
    using wf_session_id [OF assms(1)] by metis
  then show ?thesis
    unfolding assms(2) by (simp del: set_map)
qed

lemma releaseClientSession_get:
  assumes "wf_session s" and rel: "session_releaseClientSessionBindings c s = (bs, t)"
  shows "js_get (bindingsByTunnelStreamId t) j = Some b \<longleftrightarrow>
      js_get (bindingsByTunnelStreamId s) j = Some b \<and> clientSessionId b \<noteq> c"
    and "js_get (bindingsByClientKey t) k = Some b \<longleftrightarrow>
      js_get (bindingsByClientKey s) k = Some b \<and> clientSessionId b \<noteq> c"
proof -
  note maps = wf_session_maps(1,2) [OF assms(1)]
  note eq = releaseClientSession_eq [OF rel]
  note set = set_released [OF assms(1) eq(1)]
  have id: "j \<in> tunnelStreamId ` set bs \<longleftrightarrow> clientSessionId b = c"
    if "js_get (bindingsByTunnelStreamId s) j = Some b" for j b
  proof
    assume "j \<in> tunnelStreamId ` set bs"
    then obtain b' where "b' \<in> set bs" and "j = tunnelStreamId b'"
      by blast
    then have "js_get (bindingsByTunnelStreamId s) j = Some b'" and "clientSessionId b' = c"
      using set [of b'] by simp_all
    then show "clientSessionId b = c"
      using that by simp
  next
    assume "clientSessionId b = c"
    then show "j \<in> tunnelStreamId ` set bs"
      using that set [of b] wf_session_id [OF assms(1) that] by (simp add: rev_image_eqI)
  qed
  have key: "k \<in> binding_key ` set bs \<longleftrightarrow> clientSessionId b = c"
    if "js_get (bindingsByClientKey s) k = Some b" for k b
  proof
    assume "k \<in> binding_key ` set bs"
    then obtain b' where "b' \<in> set bs" and "k = binding_key b'"
      by blast
    then have "js_get (bindingsByClientKey s) k = Some b'" and "clientSessionId b' = c"
      using set wf_session_key [OF assms(1), of k b'] by simp_all
    then show "clientSessionId b = c"
      using that by simp
  next
    assume "clientSessionId b = c"
    then show "k \<in> binding_key ` set bs"
      using that set [of b] wf_session_key [OF assms(1), of k b] by (simp add: rev_image_eqI)
  qed
  show "js_get (bindingsByTunnelStreamId t) j = Some b \<longleftrightarrow>
      js_get (bindingsByTunnelStreamId s) j = Some b \<and> clientSessionId b \<noteq> c"
    using id [of j] by (auto simp: eq(2) js_get_filter [OF maps(2)] split: option.splits)
  show "js_get (bindingsByClientKey t) k = Some b \<longleftrightarrow>
      js_get (bindingsByClientKey s) k = Some b \<and> clientSessionId b \<noteq> c"
    using key [of k] by (auto simp: eq(2) js_get_filter [OF maps(1)] split: option.splits)
qed

lemma releaseClientSession_counts:
  assumes "wf_session s" and rel: "session_releaseClientSessionBindings c s = (bs, t)"
  shows "counts_match (bindingCountsByClientSessionId t) (bindingsByTunnelStreamId t)"
proof -
  note maps = wf_session_maps [OF assms(1)]
  note eq = releaseClientSession_eq [OF rel]
  let ?n = "\<lambda>d. js_count (\<lambda>b. clientSessionId b = d)"
  have "?n c (bindingsByTunnelStreamId t) = 0"
  proof -
    have "wf_map (bindingsByTunnelStreamId t)"
      using maps(2) by (simp add: eq(2) wf_map_filter)
    then show ?thesis
      using releaseClientSession_get(1) [OF assms]
      by (simp add: js_count_0_iff js_values_iff del: set_map)
  qed
  moreover have "?n d (bindingsByTunnelStreamId t) = ?n d (bindingsByTunnelStreamId s)"
    if "d \<noteq> c" for d
  proof -
    have "i \<notin> tunnelStreamId ` set bs"
      if entry: "(i, b) \<in> set (bindingsByTunnelStreamId s)" "clientSessionId b = d" for i b
    proof
      assume "i \<in> tunnelStreamId ` set bs"
      then obtain b' where "b' \<in> set bs" and "i = tunnelStreamId b'"
        by blast
      then have "js_get (bindingsByTunnelStreamId s) i = Some b'" and "clientSessionId b' = c"
        using set_released [OF assms(1) eq(1), of b'] by simp_all
      moreover have "js_get (bindingsByTunnelStreamId s) i = Some b"
        using entry(1) maps(2) by (simp add: js_entry_iff)
      ultimately show False
        using entry(2) \<open>d \<noteq> c\<close> by simp
    qed
    then show ?thesis
      unfolding eq(2) by (simp add: js_count_filter)
  qed
  moreover have "bs = [] \<longleftrightarrow> ?n c (bindingsByTunnelStreamId s) = 0"
    by (simp add: eq(1) js_count_0_iff filter_empty_conv)
  ultimately show ?thesis
    using maps(5) by (auto simp: counts_match_def eq(2) js_get_delete Let_def)
qed

lemma wf_releaseClientSession [wf_intros]:
  assumes "wf_session s"
  shows "wf_session (snd (session_releaseClientSessionBindings c s))"
proof -
  obtain bs t where rel: "session_releaseClientSessionBindings c s = (bs, t)"
    by fastforce
  note get = releaseClientSession_get [OF assms rel]
  note eq = releaseClientSession_eq(2) [OF rel]
  have "js_size (bindingsByTunnelStreamId t) \<le> js_size (bindingsByTunnelStreamId s)"
    by (simp add: eq)
  moreover have "js_get (bindingsByTunnelStreamId t) i = None"
    if "js_get (bindingsByTunnelStreamId s) i = None" for i
    using that get(1) [of i] by (metis not_None_eq)
  moreover have "wf_map (bindingsByClientKey t)" "wf_map (bindingsByTunnelStreamId t)"
      "reservedTunnelStreamIds t = reservedTunnelStreamIds s"
      "nextTunnelStreamId t = nextTunnelStreamId s" "maxBindingCount t = maxBindingCount s"
    using wf_session_maps [OF assms] by (simp_all add: eq wf_map_filter)
  ultimately show ?thesis
    using assms releaseClientSession_counts [OF assms rel] unfolding rel snd_conv wf_session_def get
    by (auto intro: order_trans)
qed

section \<open>Reachable sessions\<close>

datatype session_op =
    BindOp stream_channel_kind string int
  | ReserveOp
  | ReleaseReservedOp int
  | UnbindOp string int
  | ReleaseAllOp
  | ReleaseClientOp string

fun session_apply :: "session_op \<Rightarrow> tunnel_session \<Rightarrow> tunnel_session" where
  "session_apply (BindOp kind c i) s = snd (session_bindClientStream kind c i s)"
| "session_apply ReserveOp s = snd (session_reserveTunnelStream s)"
| "session_apply (ReleaseReservedOp i) s = snd (session_releaseReservedTunnelStream i s)"
| "session_apply (UnbindOp c i) s = snd (session_unbindClientStream c i s)"
| "session_apply ReleaseAllOp s = snd (session_releaseAllBindings s)"
| "session_apply (ReleaseClientOp c) s = snd (session_releaseClientSessionBindings c s)"

lemma wf_session_apply [wf_intros]: "wf_session s \<Longrightarrow> wf_session (session_apply ops s)"
  by (cases ops) (auto intro: wf_bind [OF _ surjective_pairing] wf_unbind [OF _ surjective_pairing]
      wf_reserve wf_releaseReserved wf_releaseAll wf_releaseClientSession)

lemma wf_session_run: "wf_session s \<Longrightarrow> wf_session (fold session_apply ops s)"
  by (induction ops arbitrary: s) (simp_all add: wf_session_apply)

lemma bind_next:
  assumes "wf_session s" and "session_bindClientStream kind c i s = (Inr b, t)"
  shows "tunnelStreamId b = nextTunnelStreamId s" "nextTunnelStreamId t = nextTunnelStreamId s + 1"
  using assms(2) [unfolded bindClientStream_Inr [OF assms(1)]] by simp_all

lemma bind_keeps:
  assumes "wf_session s"
  shows "nextTunnelStreamId s \<le> nextTunnelStreamId (snd (session_bindClientStream kind c i s))
    \<and> maxBindingCount (snd (session_bindClientStream kind c i s)) = maxBindingCount s"
proof -
  obtain r t where bind: "session_bindClientStream kind c i s = (r, t)"
    by fastforce
  show ?thesis
  proof (cases r)
    case (Inl e)
    with bind have "t = s"
      by (simp add: bindClientStream_Inl)
    with bind show ?thesis
      by simp
  next
    case (Inr b)
    with bind show ?thesis
      using bindClientStream_Inr [OF assms, of kind c i b t] by simp
  qed
qed

lemma release_keeps:
  "nextTunnelStreamId (snd (session_releaseClientSessionBindings c s)) = nextTunnelStreamId s
   \<and> maxBindingCount (snd (session_releaseClientSessionBindings c s)) = maxBindingCount s"
  using releaseClientSession_eq(2) [OF surjective_pairing, of c s] by (metis (no_types, lifting)
      tunnel_session.ext_inject tunnel_session.surjective tunnel_session.update_convs(3-5))

lemma session_apply_keeps:
  assumes "wf_session s"
  shows "nextTunnelStreamId s \<le> nextTunnelStreamId (session_apply a s)
    \<and> maxBindingCount (session_apply a s) = maxBindingCount s"
  using bind_keeps [OF assms] release_keeps
  by (cases a) (simp_all add: session_reserveTunnelStream_def allocate_wf [OF assms]
      session_releaseReservedTunnelStream_def session_unbindClientStream_def Let_def
      session_releaseAllBindings_def split: option.split)

lemma session_run_keeps:
  "wf_session s \<Longrightarrow> nextTunnelStreamId s \<le> nextTunnelStreamId (fold session_apply ops s)
     \<and> maxBindingCount (fold session_apply ops s) = maxBindingCount s"
proof (induction ops arbitrary: s)
  case (Cons a ops)
  from Cons.IH [OF wf_session_apply [OF Cons.prems]] session_apply_keeps [OF Cons.prems]
  show ?case
    by (metis fold_simps(2) order_trans)
qed simp

section \<open>Properties\<close>

text \<open>
  C1: In a session reached by any sequence of binds, reservations, releases and unbinds, the two
  indexes hold the same bindings: a client stream is bound to \<open>b\<close> exactly if \<open>b\<close> carries that client
  session and stream id and is found under its own tunnel stream id; no bound id is also reserved,
  and the number of bindings never exceeds the configured maximum.
\<close>

theorem session_indexes_agree:
  fixes target maxCount ops
  defines "s \<equiv> fold session_apply ops (new_tunnel_session target maxCount)"
  shows "(session_getBindingByClientStream c i s = Some b \<longleftrightarrow>
      clientSessionId b = c \<and> clientStreamId b = i
      \<and> session_getBindingByTunnelStreamId (tunnelStreamId b) s = Some b)
    \<and> (case session_getBindingByTunnelStreamId j s of None \<Rightarrow> True
       | Some bound \<Rightarrow> tunnelStreamId bound = j \<and> j \<notin> set (reservedTunnelStreamIds s))
    \<and> (case maxCount of None \<Rightarrow> True | Some m \<Rightarrow> int (session_bindingCount s) \<le> max 0 m)"
proof -
  have wf: "wf_session s"
    unfolding s_def by (intro wf_session_run wf_new_session)
  have "maxBindingCount s = maxCount"
    using session_run_keeps [OF wf_new_session, where ops = ops]
    by (simp add: s_def new_tunnel_session_def)
  then show ?thesis
    using wf wf_session_key [OF wf, of _ b] wf_session_id [OF wf, of j] wf_session_reserved [OF wf, of j]
    by (auto simp: session_getBindingByClientStream_def session_getBindingByTunnelStreamId_def
        session_bindingCount_def binding_key_eq wf_session_def split: option.split)
qed

text \<open>
  A tunnel stream id is never handed out twice by one bootstrap session: an id bound or reserved
  later is larger than every id handed out before, whatever is unbound or released in between, so a
  late frame for a closed stream cannot reach a newer one.
\<close>

theorem tunnel_ids_increase:
  assumes "wf_session s" and "session_bindClientStream kind c i s = (Inr b, t)"
  shows "(\<forall>j\<in>set (reservedTunnelStreamIds s) \<union> fst ` set (bindingsByTunnelStreamId s). j < tunnelStreamId b)
    \<and> (case session_bindClientStream kind' c' i' (fold session_apply ops t) of
         (Inr b', _) \<Rightarrow> tunnelStreamId b < tunnelStreamId b' | (Inl _, _) \<Rightarrow> True)
    \<and> tunnelStreamId b < fst (session_reserveTunnelStream (fold session_apply ops t))"
proof -
  let ?u = "fold session_apply ops t"
  have wf: "wf_session t" "wf_session ?u"
    using wf_bind [OF assms] by (simp_all add: wf_session_run)
  have "tunnelStreamId b < nextTunnelStreamId ?u"
    using bind_next [OF assms] session_run_keeps [OF wf(1), of ops] by simp
  moreover have "j < nextTunnelStreamId s"
    if "j \<in> set (reservedTunnelStreamIds s) \<union> fst ` set (bindingsByTunnelStreamId s)" for j
    using that wf_session_reserved [OF assms(1), of j] wf_session_id [OF assms(1), of j]
    by (auto simp: js_has_iff [symmetric] js_has_def)
  ultimately show ?thesis
    using bind_next [OF assms] bind_next [OF wf(2)]
    by (auto simp: session_reserveTunnelStream_def allocate_wf [OF wf(2)] split: prod.split sum.split)
qed

definition sample_target :: relay_target where
  "sample_target = \<lparr>target_sandboxInstanceId = ''sbi'', target_side = BootstrapSide,
     target_nodeId = ''node'', target_sessionId = ''bootstrap''\<rparr>"

theorem tunnel_ids_increase_witness:
  "let t = snd (session_bindClientStream KindAgent ''c'' 7 (new_tunnel_session sample_target None)) in
   1 < fst (session_reserveTunnelStream (session_apply (UnbindOp ''c'' 7) t))"
proof -
  let ?s = "new_tunnel_session sample_target None"
  let ?b = "\<lparr>channelKind = KindAgent, clientSessionId = ''c'', clientStreamId = 7, tunnelStreamId = 1\<rparr>"
  let ?bound = "session_bindClientStream KindAgent ''c'' 7 ?s"
  have "fst ?bound = Inr ?b"
    by (simp add: session_bindClientStream_def allocate_wf wf_new_session Let_def)
      (simp add: new_tunnel_session_def js_has_def)
  then have "?bound = (Inr ?b, snd ?bound)"
    by (metis prod.collapse)
  from tunnel_ids_increase [OF wf_new_session this, where ops = "[UnbindOp ''c'' 7]"] show ?thesis
    by (simp add: Let_def)
qed

end
