(* ===== verification/SessionRegistry.thy ===== *)
theory SessionRegistry
  imports TunnelSession
begin

text \<open>
  The tunnel sessions of one gateway node: \<open>InMemoryTunnelSessionRegistryAdapter\<close>
  (\<open>tunnel/tunnel-session/adapters/in-memory-tunnel-session-registry-adapter.ts\<close>), its interface
  \<open>TunnelSessionRegistryAdapter\<close> as the locale \<open>registry_adapter\<close>, and \<open>TunnelSessionRegistry\<close>
  (\<open>tunnel-session-registry.ts\<close>), which adds the availability probes of live websockets. A probe is
  a number; what it answers at a moment is the argument \<open>answer\<close> of the method that calls it.
\<close>

section \<open>The in-memory adapter\<close>

record registry_adapter =
  sessionsBySandboxInstanceId :: "(string, tunnel_session) js_map"
  adapter_maxBindingCount :: "int option"

record attach_result =
  replacedBootstrapTarget :: "relay_target option"
  attach_releasedBindings :: "client_stream_binding list"

record detach_result =
  detached_bootstrapTarget :: relay_target
  detach_releasedBindings :: "client_stream_binding list"

definition isSameBootstrapTarget :: "relay_target \<Rightarrow> relay_target \<Rightarrow> bool" where
  "isSameBootstrapTarget left right \<longleftrightarrow>
     target_sandboxInstanceId left = target_sandboxInstanceId right \<and> target_side left = target_side right
     \<and> target_nodeId left = target_nodeId right \<and> target_sessionId left = target_sessionId right"

abbreviation session_of :: "registry_adapter \<Rightarrow> string \<Rightarrow> tunnel_session option" where
  "session_of a i \<equiv> js_get (sessionsBySandboxInstanceId a) i"

definition put_session :: "string \<Rightarrow> tunnel_session \<Rightarrow> registry_adapter \<Rightarrow> registry_adapter" where
  "put_session i s a = a\<lparr>sessionsBySandboxInstanceId := js_set i s (sessionsBySandboxInstanceId a)\<rparr>"

definition adapter_attachBootstrapSession ::
  "relay_target \<Rightarrow> registry_adapter \<Rightarrow> attach_result \<times> registry_adapter" where
  "adapter_attachBootstrapSession target a =
     (let replaced = session_of a (target_sandboxInstanceId target);
          s = new_tunnel_session target (adapter_maxBindingCount a) in
      (\<lparr>replacedBootstrapTarget = map_option session_bootstrapTarget replaced,
         attach_releasedBindings = (case replaced of None \<Rightarrow> []
           | Some r \<Rightarrow> fst (session_releaseAllBindings r))\<rparr>,
       put_session (target_sandboxInstanceId target) s a))"

definition adapter_getBootstrapTarget :: "string \<Rightarrow> registry_adapter \<Rightarrow> relay_target option" where
  "adapter_getBootstrapTarget i a = map_option session_bootstrapTarget (session_of a i)"

definition adapter_detachBootstrapSession ::
  "relay_target \<Rightarrow> registry_adapter \<Rightarrow> detach_result option \<times> registry_adapter" where
  "adapter_detachBootstrapSession target a =
     (case session_of a (target_sandboxInstanceId target) of
        None \<Rightarrow> (None, a)
      | Some current \<Rightarrow>
          if \<not> isSameBootstrapTarget (session_bootstrapTarget current) target then (None, a)
          else (Some \<lparr>detached_bootstrapTarget = session_bootstrapTarget current,
                  detach_releasedBindings = fst (session_releaseAllBindings current)\<rparr>,
                a\<lparr>sessionsBySandboxInstanceId := js_delete (target_sandboxInstanceId target)
                   (sessionsBySandboxInstanceId a)\<rparr>))"

definition not_registered :: "string \<Rightarrow> gateway_error" where
  "not_registered i = PlainError (''Bootstrap tunnel session is not registered for sandbox ''
     @ in_quotes i @ ''.'')"

definition adapter_bindClientStream ::
  "string \<Rightarrow> stream_channel_kind \<Rightarrow> string \<Rightarrow> int
     \<Rightarrow> (gateway_error, registry_adapter, client_stream_binding) comp" where
  "adapter_bindClientStream i kind c sid a =
     (case session_of a i of
        None \<Rightarrow> (Inl (not_registered i), a)
      | Some s \<Rightarrow> (let (r, t) = session_bindClientStream kind c sid s in (r, put_session i t a)))"

definition adapter_reserveTunnelStream ::
  "string \<Rightarrow> (gateway_error, registry_adapter, int) comp" where
  "adapter_reserveTunnelStream i a =
     (case session_of a i of
        None \<Rightarrow> (Inl (not_registered i), a)
      | Some s \<Rightarrow> (let (sid, t) = session_reserveTunnelStream s in (Inr sid, put_session i t a)))"

definition adapter_releaseReservedTunnelStream ::
  "string \<Rightarrow> int \<Rightarrow> registry_adapter \<Rightarrow> bool \<times> registry_adapter" where
  "adapter_releaseReservedTunnelStream i sid a =
     (case session_of a i of
        None \<Rightarrow> (False, a)
      | Some s \<Rightarrow> (let (r, t) = session_releaseReservedTunnelStream sid s in (r, put_session i t a)))"

definition adapter_getBindingByClientStream ::
  "string \<Rightarrow> string \<Rightarrow> int \<Rightarrow> registry_adapter \<Rightarrow> client_stream_binding option" where
  "adapter_getBindingByClientStream i c sid a =
     (case session_of a i of None \<Rightarrow> None | Some s \<Rightarrow> session_getBindingByClientStream c sid s)"

definition adapter_getBindingByTunnelStreamId ::
  "string \<Rightarrow> int \<Rightarrow> registry_adapter \<Rightarrow> client_stream_binding option" where
  "adapter_getBindingByTunnelStreamId i sid a =
     (case session_of a i of None \<Rightarrow> None | Some s \<Rightarrow> session_getBindingByTunnelStreamId sid s)"

definition adapter_unbindClientStream ::
  "string \<Rightarrow> string \<Rightarrow> int \<Rightarrow> registry_adapter \<Rightarrow> client_stream_binding option \<times> registry_adapter" where
  "adapter_unbindClientStream i c sid a =
     (case session_of a i of
        None \<Rightarrow> (None, a)
      | Some s \<Rightarrow> (let (r, t) = session_unbindClientStream c sid s in (r, put_session i t a)))"

definition adapter_releaseClientSessionBindings ::
  "string \<Rightarrow> string \<Rightarrow> registry_adapter \<Rightarrow> client_stream_binding list \<times> registry_adapter" where
  "adapter_releaseClientSessionBindings i c a =
     (case session_of a i of
        None \<Rightarrow> ([], a)
      | Some s \<Rightarrow> (let (bs, t) = session_releaseClientSessionBindings c s in (bs, put_session i t a)))"

section \<open>The interface\<close>

text \<open>
  What \<open>TunnelSessionRegistry\<close> relies on when bootstrap tunnels come and go: attaching replaces the
  target of its sandbox only, detaching is fenced by the whole target.
\<close>

locale bootstrap_registry =
  fixes attach :: "relay_target \<Rightarrow> 's \<Rightarrow> attach_result \<times> 's"
    and get_target :: "string \<Rightarrow> 's \<Rightarrow> relay_target option"
    and detach :: "relay_target \<Rightarrow> 's \<Rightarrow> detach_result option \<times> 's"
    and inv :: "'s \<Rightarrow> bool"
  assumes get_attach: "get_target i (snd (attach t s)) =
      (if i = target_sandboxInstanceId t then Some t else get_target i s)"
    and attach_replaces: "replacedBootstrapTarget (fst (attach t s)) = get_target (target_sandboxInstanceId t) s"
    and get_detach: "get_target i (snd (detach t s)) =
      (if get_target (target_sandboxInstanceId t) s = Some t \<and> i = target_sandboxInstanceId t then None
       else get_target i s)"
    and detach_result: "fst (detach t s) \<noteq> None \<longleftrightarrow> get_target (target_sandboxInstanceId t) s = Some t"
    and detach_target: "fst (detach t s) = Some r \<Longrightarrow> detached_bootstrapTarget r = t"
    and inv_attach: "inv s \<Longrightarrow> inv (snd (attach t s))"
    and inv_detach: "inv s \<Longrightarrow> inv (snd (detach t s))"
begin

lemma stale_detach:
  assumes "target_sandboxInstanceId t = target_sandboxInstanceId u" and "t \<noteq> u"
  shows "fst (detach t (snd (attach u s))) = None"
  using assms detach_result [of t "snd (attach u s)"] get_attach [of "target_sandboxInstanceId t" u s]
  by (cases "fst (detach t (snd (attach u s)))") simp_all

lemma attach_detach:
  "get_target (target_sandboxInstanceId t) (snd (detach t (snd (attach t s)))) = None"
  by (simp add: get_detach get_attach)

end

text \<open>Every session is stored under the sandbox of its own target and is well formed.\<close>

definition wf_adapter :: "registry_adapter \<Rightarrow> bool" where
  "wf_adapter a \<longleftrightarrow> wf_map (sessionsBySandboxInstanceId a)
     \<and> (\<forall>i s. session_of a i = Some s \<longrightarrow>
          wf_session s \<and> target_sandboxInstanceId (session_bootstrapTarget s) = i)"

lemma isSameBootstrapTarget_iff [simp]: "isSameBootstrapTarget t u \<longleftrightarrow> t = u"
  by (auto simp: isSameBootstrapTarget_def)

lemma session_of_put [simp]: "session_of (put_session i s a) j = (if j = i then Some s else session_of a j)"
  by (simp add: put_session_def js_get_set)

lemma wf_put_session [wf_intros]:
  "wf_adapter a \<Longrightarrow> wf_session s \<Longrightarrow> target_sandboxInstanceId (session_bootstrapTarget s) = i \<Longrightarrow>
     wf_adapter (put_session i s a)"
  by (simp add: wf_adapter_def) (simp add: put_session_def wf_map_set)

lemma wf_adapter_session:
  "wf_adapter a \<Longrightarrow> session_of a i = Some s \<Longrightarrow>
     wf_session s \<and> target_sandboxInstanceId (session_bootstrapTarget s) = i"
  by (simp add: wf_adapter_def)

lemma new_session_target [simp]: "session_bootstrapTarget (new_tunnel_session t m) = t"
  by (simp add: new_tunnel_session_def)

lemma wf_attach [wf_intros]: "wf_adapter a \<Longrightarrow> wf_adapter (snd (adapter_attachBootstrapSession t a))"
  by (simp add: adapter_attachBootstrapSession_def Let_def wf_put_session wf_new_session)

lemma wf_detach [wf_intros]: "wf_adapter a \<Longrightarrow> wf_adapter (snd (adapter_detachBootstrapSession t a))"
  by (auto simp: adapter_detachBootstrapSession_def wf_adapter_def js_get_delete wf_map_delete
      split: option.splits if_splits)

lemma detach_cases:
  "adapter_detachBootstrapSession t a =
     (if adapter_getBootstrapTarget (target_sandboxInstanceId t) a = Some t
      then (Some \<lparr>detached_bootstrapTarget = t, detach_releasedBindings =
              fst (session_releaseAllBindings (the (session_of a (target_sandboxInstanceId t))))\<rparr>,
            a\<lparr>sessionsBySandboxInstanceId := js_delete (target_sandboxInstanceId t)
               (sessionsBySandboxInstanceId a)\<rparr>)
      else (None, a))"
  by (auto simp: adapter_detachBootstrapSession_def adapter_getBootstrapTarget_def split: option.split)

interpretation adapter: bootstrap_registry adapter_attachBootstrapSession adapter_getBootstrapTarget
  adapter_detachBootstrapSession wf_adapter
proof unfold_locales
  fix a t i
  show "adapter_getBootstrapTarget i (snd (adapter_detachBootstrapSession t a)) =
      (if adapter_getBootstrapTarget (target_sandboxInstanceId t) a = Some t
          \<and> i = target_sandboxInstanceId t then None else adapter_getBootstrapTarget i a)"
    by (simp add: detach_cases) (simp add: adapter_getBootstrapTarget_def js_get_delete)
  show "adapter_getBootstrapTarget i (snd (adapter_attachBootstrapSession t a)) =
      (if i = target_sandboxInstanceId t then Some t else adapter_getBootstrapTarget i a)"
    by (simp add: adapter_getBootstrapTarget_def adapter_attachBootstrapSession_def Let_def)
qed (auto simp: detach_cases wf_attach wf_detach adapter_getBootstrapTarget_def [symmetric]
    adapter_attachBootstrapSession_def [of t s for t s] Let_def split: if_splits
    dest: wf_detach [of a t for a t] wf_attach [of a t for a t])

section \<open>The registry\<close>

record tunnel_session_registry =
  registry_state :: registry_adapter
  bootstrapAvailabilityByKey :: "(string, nat) js_map"

definition createBootstrapAvailabilityKey :: "string \<Rightarrow> string \<Rightarrow> string" where
  "createBootstrapAvailabilityKey sandboxId sessionId = sandboxId @ '':'' @ sessionId"

definition on_adapter ::
  "(registry_adapter \<Rightarrow> 'a \<times> registry_adapter) \<Rightarrow> tunnel_session_registry \<Rightarrow> 'a \<times> tunnel_session_registry" where
  "on_adapter f g = (let (r, a) = f (registry_state g) in (r, g\<lparr>registry_state := a\<rparr>))"

definition setBootstrapSessionAvailability ::
  "string \<Rightarrow> string \<Rightarrow> nat \<Rightarrow> tunnel_session_registry \<Rightarrow> tunnel_session_registry" where
  "setBootstrapSessionAvailability sandboxId sessionId probe g = g\<lparr>bootstrapAvailabilityByKey :=
     js_set (createBootstrapAvailabilityKey sandboxId sessionId) probe (bootstrapAvailabilityByKey g)\<rparr>"

definition clearBootstrapSessionAvailability ::
  "string \<Rightarrow> string \<Rightarrow> tunnel_session_registry \<Rightarrow> tunnel_session_registry" where
  "clearBootstrapSessionAvailability sandboxId sessionId g = g\<lparr>bootstrapAvailabilityByKey :=
     js_delete (createBootstrapAvailabilityKey sandboxId sessionId) (bootstrapAvailabilityByKey g)\<rparr>"

definition isBootstrapSessionAvailable ::
  "(nat \<Rightarrow> bool) \<Rightarrow> relay_target \<Rightarrow> tunnel_session_registry \<Rightarrow> bool" where
  "isBootstrapSessionAvailable answer t g =
     (case js_get (bootstrapAvailabilityByKey g)
        (createBootstrapAvailabilityKey (target_sandboxInstanceId t) (target_sessionId t)) of
        None \<Rightarrow> True | Some probe \<Rightarrow> answer probe)"

definition attachBootstrapSession ::
  "relay_target \<Rightarrow> tunnel_session_registry \<Rightarrow> attach_result \<times> tunnel_session_registry" where
  "attachBootstrapSession t g = on_adapter (adapter_attachBootstrapSession t) g"

definition getBootstrapTarget :: "string \<Rightarrow> tunnel_session_registry \<Rightarrow> relay_target option" where
  "getBootstrapTarget i g = adapter_getBootstrapTarget i (registry_state g)"

definition detachBootstrapSession ::
  "relay_target \<Rightarrow> tunnel_session_registry \<Rightarrow> detach_result option \<times> tunnel_session_registry" where
  "detachBootstrapSession t g =
     (let (r, g1) = on_adapter (adapter_detachBootstrapSession t) g in
      (r, if r \<noteq> None
          then clearBootstrapSessionAvailability (target_sandboxInstanceId t) (target_sessionId t) g1
          else g1))"

definition bindClientStream ::
  "string \<Rightarrow> stream_channel_kind \<Rightarrow> string \<Rightarrow> int
     \<Rightarrow> (gateway_error, tunnel_session_registry, client_stream_binding) comp" where
  "bindClientStream i kind c sid g = on_adapter (adapter_bindClientStream i kind c sid) g"

definition reserveTunnelStream :: "string \<Rightarrow> (gateway_error, tunnel_session_registry, int) comp" where
  "reserveTunnelStream i g = on_adapter (adapter_reserveTunnelStream i) g"

definition releaseReservedTunnelStream ::
  "string \<Rightarrow> int \<Rightarrow> tunnel_session_registry \<Rightarrow> bool \<times> tunnel_session_registry" where
  "releaseReservedTunnelStream i sid g = on_adapter (adapter_releaseReservedTunnelStream i sid) g"

definition getBindingByClientStream ::
  "string \<Rightarrow> string \<Rightarrow> int \<Rightarrow> tunnel_session_registry \<Rightarrow> client_stream_binding option" where
  "getBindingByClientStream i c sid g = adapter_getBindingByClientStream i c sid (registry_state g)"

definition getBindingByTunnelStreamId ::
  "string \<Rightarrow> int \<Rightarrow> tunnel_session_registry \<Rightarrow> client_stream_binding option" where
  "getBindingByTunnelStreamId i sid g = adapter_getBindingByTunnelStreamId i sid (registry_state g)"

definition unbindClientStream ::
  "string \<Rightarrow> string \<Rightarrow> int \<Rightarrow> tunnel_session_registry
     \<Rightarrow> client_stream_binding option \<times> tunnel_session_registry" where
  "unbindClientStream i c sid g = on_adapter (adapter_unbindClientStream i c sid) g"

definition releaseClientSessionBindings ::
  "string \<Rightarrow> string \<Rightarrow> tunnel_session_registry \<Rightarrow> client_stream_binding list \<times> tunnel_session_registry" where
  "releaseClientSessionBindings i c g = on_adapter (adapter_releaseClientSessionBindings i c) g"

definition wf_registry :: "tunnel_session_registry \<Rightarrow> bool" where
  "wf_registry g \<longleftrightarrow> wf_adapter (registry_state g)"

definition new_registry :: "int option \<Rightarrow> tunnel_session_registry" where
  "new_registry maxCount = \<lparr>registry_state = \<lparr>sessionsBySandboxInstanceId = [],
     adapter_maxBindingCount = maxCount\<rparr>, bootstrapAvailabilityByKey = []\<rparr>"

lemma wf_new_registry [wf_intros]: "wf_registry (new_registry maxCount)"
  by (simp add: wf_registry_def new_registry_def wf_adapter_def)

lemma wf_on_adapter:
  "(\<And>a. wf_adapter a \<Longrightarrow> wf_adapter (snd (f a))) \<Longrightarrow> wf_registry g \<Longrightarrow> wf_registry (snd (on_adapter f g))"
  by (simp add: wf_registry_def on_adapter_def split: prod.split) (metis snd_conv)

lemma session_op_target:
  "session_bootstrapTarget (snd (session_bindClientStream kind c i s)) = session_bootstrapTarget s"
  "session_bootstrapTarget (snd (session_reserveTunnelStream s)) = session_bootstrapTarget s"
  "session_bootstrapTarget (snd (session_releaseReservedTunnelStream i s)) = session_bootstrapTarget s"
  "session_bootstrapTarget (snd (session_unbindClientStream c i s)) = session_bootstrapTarget s"
  "session_bootstrapTarget (snd (session_releaseClientSessionBindings c s)) = session_bootstrapTarget s"
proof -
  show "session_bootstrapTarget (snd (session_releaseClientSessionBindings c s)) = session_bootstrapTarget s"
    using arg_cong [OF releaseClientSession_eq(2) [OF surjective_pairing, of c s],
        of session_bootstrapTarget] by simp
qed (simp_all add: session_bindClientStream_def session_reserveTunnelStream_def Let_def
    allocateTunnelStreamId_def session_releaseReservedTunnelStream_def session_unbindClientStream_def
    split: option.split)

lemma wf_adapter_ops [wf_intros]:
  assumes "wf_adapter a"
  shows "wf_adapter (snd (adapter_bindClientStream i kind c sid a))"
    "wf_adapter (snd (adapter_reserveTunnelStream i a))"
    "wf_adapter (snd (adapter_releaseReservedTunnelStream i sid a))"
    "wf_adapter (snd (adapter_unbindClientStream i c sid a))"
    "wf_adapter (snd (adapter_releaseClientSessionBindings i c a))"
proof -
  note session = wf_adapter_session [OF assms, of i]
  show "wf_adapter (snd (adapter_bindClientStream i kind c sid a))"
    using assms session session_op_target(1) [of kind c sid] wf_bind [OF _ surjective_pairing, of _ kind c sid]
    by (auto simp: adapter_bindClientStream_def wf_put_session case_prod_beta Let_def split: option.split)
  show "wf_adapter (snd (adapter_reserveTunnelStream i a))"
    using assms session session_op_target(2) wf_reserve
    by (auto simp: adapter_reserveTunnelStream_def wf_put_session case_prod_beta Let_def split: option.split)
  show "wf_adapter (snd (adapter_releaseReservedTunnelStream i sid a))"
    using assms session session_op_target(3) wf_releaseReserved
    by (auto simp: adapter_releaseReservedTunnelStream_def wf_put_session case_prod_beta Let_def
        split: option.split)
  show "wf_adapter (snd (adapter_unbindClientStream i c sid a))"
    using assms session session_op_target(4) [of c sid] wf_unbind [OF _ surjective_pairing, of _ c sid]
    by (auto simp: adapter_unbindClientStream_def wf_put_session case_prod_beta Let_def split: option.split)
  show "wf_adapter (snd (adapter_releaseClientSessionBindings i c a))"
    using assms session session_op_target(5) wf_releaseClientSession
    by (auto simp: adapter_releaseClientSessionBindings_def wf_put_session case_prod_beta Let_def
        split: option.split)
qed

lemma wf_registry_ops [wf_intros]:
  assumes "wf_registry g"
  shows "wf_registry (snd (attachBootstrapSession t g))" "wf_registry (snd (detachBootstrapSession t g))"
    "wf_registry (snd (bindClientStream i kind c sid g))" "wf_registry (snd (reserveTunnelStream i g))"
    "wf_registry (snd (releaseReservedTunnelStream i sid g))"
    "wf_registry (snd (unbindClientStream i c sid g))"
    "wf_registry (snd (releaseClientSessionBindings i c g))"
proof -
  show "wf_registry (snd (detachBootstrapSession t g))"
    using assms by (simp add: detachBootstrapSession_def clearBootstrapSessionAvailability_def
        case_prod_beta Let_def wf_registry_def on_adapter_def wf_detach)
qed (use assms in \<open>simp_all add: attachBootstrapSession_def bindClientStream_def reserveTunnelStream_def
      releaseReservedTunnelStream_def unbindClientStream_def releaseClientSessionBindings_def
      wf_on_adapter wf_attach wf_adapter_ops\<close>)

section \<open>Properties\<close>

text \<open>
  Attaching a bootstrap session invalidates every stream of the sandbox and reports them: the new
  session has no binding, the released bindings are those of the replaced session, other sandboxes
  keep theirs, and detaching the replaced bootstrap afterwards changes nothing, so a late close of an
  old tunnel cannot take down the new one.
\<close>

theorem attach_replaces_session:
  assumes "wf_registry g" and "attachBootstrapSession t g = (r, g')"
  shows "getBootstrapTarget (target_sandboxInstanceId t) g' = Some t
    \<and> getBindingByTunnelStreamId (target_sandboxInstanceId t) j g' = None
    \<and> getBindingByClientStream (target_sandboxInstanceId t) c sid g' = None
    \<and> (b \<in> set (attach_releasedBindings r) \<longleftrightarrow>
         getBindingByTunnelStreamId (target_sandboxInstanceId t) (tunnelStreamId b) g = Some b)
    \<and> (\<forall>i. i \<noteq> target_sandboxInstanceId t \<longrightarrow>
         getBootstrapTarget i g' = getBootstrapTarget i g
         \<and> getBindingByTunnelStreamId i j g' = getBindingByTunnelStreamId i j g)
    \<and> (\<forall>u. u \<noteq> t \<longrightarrow> target_sandboxInstanceId u = target_sandboxInstanceId t \<longrightarrow>
         detachBootstrapSession u g' = (None, g'))"
proof -
  let ?i = "target_sandboxInstanceId t" and ?a = "registry_state g"
  have r: "r = fst (adapter_attachBootstrapSession t ?a)"
    and g': "g' = g\<lparr>registry_state := snd (adapter_attachBootstrapSession t ?a)\<rparr>"
    using assms(2) by (simp_all add: attachBootstrapSession_def on_adapter_def case_prod_beta Let_def)
  have sessions: "session_of (registry_state g') i =
      (if i = ?i then Some (new_tunnel_session t (adapter_maxBindingCount ?a)) else session_of ?a i)" for i
    by (simp add: g' adapter_attachBootstrapSession_def Let_def)
  have "b \<in> set (attach_releasedBindings r) \<longleftrightarrow>
      getBindingByTunnelStreamId ?i (tunnelStreamId b) g = Some b"
  proof (cases "session_of ?a ?i")
    case None
    then show ?thesis
      by (simp add: r adapter_attachBootstrapSession_def Let_def getBindingByTunnelStreamId_def
          adapter_getBindingByTunnelStreamId_def)
  next
    case (Some s)
    then have wf: "wf_session s"
      using assms(1) wf_adapter_session by (auto simp: wf_registry_def)
    have "b \<in> set (js_values (bindingsByTunnelStreamId s)) \<longleftrightarrow>
        js_get (bindingsByTunnelStreamId s) (tunnelStreamId b) = Some b"
      unfolding js_values_iff [OF wf_session_maps(2) [OF wf]] using wf_session_id [OF wf] by metis
    with Some show ?thesis
      by (simp add: r adapter_attachBootstrapSession_def Let_def getBindingByTunnelStreamId_def
          adapter_getBindingByTunnelStreamId_def session_releaseAllBindings_def
          session_getBindingByTunnelStreamId_def)
  qed
  moreover have "detachBootstrapSession u g' = (None, g')"
    if "u \<noteq> t" "target_sandboxInstanceId u = ?i" for u
    using that adapter.get_attach [of ?i t ?a]
    by (simp add: detachBootstrapSession_def on_adapter_def detach_cases g')
  ultimately show ?thesis
    by (simp add: getBootstrapTarget_def adapter_getBootstrapTarget_def sessions
        getBindingByTunnelStreamId_def adapter_getBindingByTunnelStreamId_def
        getBindingByClientStream_def adapter_getBindingByClientStream_def
        session_getBindingByClientStream_def session_getBindingByTunnelStreamId_def)
      (simp add: new_tunnel_session_def)
qed

theorem attach_replaces_session_witness:
  "detachBootstrapSession (sample_target\<lparr>target_sessionId := ''old''\<rparr>)
     (snd (attachBootstrapSession sample_target (new_registry None)))
   = (None, snd (attachBootstrapSession sample_target (new_registry None)))"
  using attach_replaces_session [OF wf_new_registry surjective_pairing, of sample_target None]
  by (simp add: sample_target_def)

end
