(* ===== verification/Lifecycle.thy ===== *)
theory Lifecycle
  imports Prelude
begin

text \<open>
  The life cycle of a sandbox instance, \<open>packages/sandbox-lifecycle/src\<close>: the statuses
  (\<open>statuses.ts\<close>), the transition function on lifecycle events (\<open>transition.ts\<close>) and the
  policies that read a status (\<open>policy.ts\<close>). \<open>lifecycle_run\<close> is the
  relation of the histories that \<open>transitionSandboxLifecycle\<close> accepts; which code keeps to it is shown where that code is
  modelled.
\<close>

section \<open>Statuses\<close>

datatype sandbox_instance_status = PENDING | STARTING | STARTED | INITIALIZING | RUNNING
  | DEGRADED | RECONNECTING | STOPPING | STOPPED | FAILED

fun status_string :: "sandbox_instance_status \<Rightarrow> string" where
  "status_string PENDING = ''pending''"
| "status_string STARTING = ''starting''"
| "status_string STARTED = ''started''"
| "status_string INITIALIZING = ''initializing''"
| "status_string RUNNING = ''running''"
| "status_string DEGRADED = ''degraded''"
| "status_string RECONNECTING = ''reconnecting''"
| "status_string STOPPING = ''stopping''"
| "status_string STOPPED = ''stopped''"
| "status_string FAILED = ''failed''"

definition all_statuses :: "sandbox_instance_status list" where
  "all_statuses = [PENDING, STARTING, STARTED, INITIALIZING, RUNNING, DEGRADED, RECONNECTING,
     STOPPING, STOPPED, FAILED]"

definition isSandboxInstanceStatus :: "string \<Rightarrow> bool" where
  "isSandboxInstanceStatus input \<longleftrightarrow> input \<in> set (map status_string all_statuses)"

definition quoted :: "string \<Rightarrow> string" where
  "quoted s = [CHR 0x27] @ s @ [CHR 0x27]"

definition assertSandboxInstanceLifecycleStatus :: "string \<Rightarrow> string + unit" where
  "assertSandboxInstanceLifecycleStatus input =
     (if \<not> isSandboxInstanceStatus input
      then Inl (''Unsupported sandbox instance status '' @ quoted input @ ''.'')
      else Inr ())"

section \<open>Transitions\<close>

datatype sandbox_lifecycle_event = PROVIDER_START_REQUESTED | PROVIDER_START_ACCEPTED
  | PROVIDER_RUNTIME_INITIALIZATION_STARTED | RUNTIME_READY | BOOTSTRAP_DEGRADED
  | BOOTSTRAP_RECOVERED | BOOTSTRAP_DETACHED | BOOTSTRAP_REATTACHED_NOT_READY
  | BOOTSTRAP_REATTACHED_READY | STOP_REQUESTED | PROVIDER_STOPPED | FAILURE_RECORDED

fun event_string :: "sandbox_lifecycle_event \<Rightarrow> string" where
  "event_string PROVIDER_START_REQUESTED = ''provider_start_requested''"
| "event_string PROVIDER_START_ACCEPTED = ''provider_start_accepted''"
| "event_string PROVIDER_RUNTIME_INITIALIZATION_STARTED = ''provider_runtime_initialization_started''"
| "event_string RUNTIME_READY = ''runtime_ready''"
| "event_string BOOTSTRAP_DEGRADED = ''bootstrap_degraded''"
| "event_string BOOTSTRAP_RECOVERED = ''bootstrap_recovered''"
| "event_string BOOTSTRAP_DETACHED = ''bootstrap_detached''"
| "event_string BOOTSTRAP_REATTACHED_NOT_READY = ''bootstrap_reattached_not_ready''"
| "event_string BOOTSTRAP_REATTACHED_READY = ''bootstrap_reattached_ready''"
| "event_string STOP_REQUESTED = ''stop_requested''"
| "event_string PROVIDER_STOPPED = ''provider_stopped''"
| "event_string FAILURE_RECORDED = ''failure_recorded''"

datatype transition_result =
    Transition (transition_from: sandbox_instance_status) (transition_to: sandbox_instance_status)
  | Unchanged sandbox_instance_status
  | Invalid sandbox_instance_status sandbox_lifecycle_event (reason: string)

record transition_rule =
  rule_from :: "sandbox_instance_status list"
  rule_to :: sandbox_instance_status
  rule_idempotent :: "sandbox_instance_status list option"

definition transitionFrom ::
  "sandbox_instance_status \<Rightarrow> sandbox_lifecycle_event \<Rightarrow> transition_rule \<Rightarrow> transition_result" where
  "transitionFrom status event rule =
     (if status \<in> set (rule_from rule)
      then if status = rule_to rule then Unchanged status else Transition status (rule_to rule)
      else if (case rule_idempotent rule of None \<Rightarrow> False | Some is \<Rightarrow> status \<in> set is)
      then Unchanged status
      else Invalid status event (''Cannot apply sandbox lifecycle event '' @ quoted (event_string event)
             @ '' while status is '' @ quoted (status_string status) @ ''.''))"

abbreviation rule_with where
  "rule_with from to idem \<equiv> \<lparr>rule_from = from, rule_to = to, rule_idempotent = Some idem\<rparr>"

fun lifecycle_rule :: "sandbox_lifecycle_event \<Rightarrow> transition_rule" where
  "lifecycle_rule PROVIDER_START_REQUESTED = rule_with [PENDING, STOPPED, FAILED] STARTING [STARTING]"
| "lifecycle_rule PROVIDER_START_ACCEPTED = rule_with [STARTING] STARTED [STARTED]"
| "lifecycle_rule PROVIDER_RUNTIME_INITIALIZATION_STARTED =
     rule_with [STARTED] INITIALIZING [INITIALIZING]"
| "lifecycle_rule RUNTIME_READY = rule_with [INITIALIZING] RUNNING [RUNNING]"
| "lifecycle_rule BOOTSTRAP_DEGRADED = rule_with [RUNNING] DEGRADED [DEGRADED]"
| "lifecycle_rule BOOTSTRAP_RECOVERED = rule_with [DEGRADED] RUNNING [RUNNING]"
| "lifecycle_rule BOOTSTRAP_DETACHED = rule_with [RUNNING, DEGRADED] RECONNECTING [RECONNECTING]"
| "lifecycle_rule BOOTSTRAP_REATTACHED_NOT_READY =
     rule_with [RECONNECTING] INITIALIZING [INITIALIZING]"
| "lifecycle_rule BOOTSTRAP_REATTACHED_READY = rule_with [RECONNECTING] RUNNING [RUNNING]"
| "lifecycle_rule STOP_REQUESTED = rule_with [STARTING, STARTED, RUNNING, DEGRADED, RECONNECTING,
     INITIALIZING] STOPPING [STOPPING]"
| "lifecycle_rule PROVIDER_STOPPED = rule_with [STOPPING] STOPPED [STOPPED]"
| "lifecycle_rule FAILURE_RECORDED = rule_with [PENDING, STARTING, STARTED, INITIALIZING, RUNNING,
     DEGRADED, RECONNECTING, STOPPING, STOPPED] FAILED [FAILED]"

definition transitionSandboxLifecycle ::
  "sandbox_instance_status \<Rightarrow> sandbox_lifecycle_event \<Rightarrow> transition_result" where
  "transitionSandboxLifecycle status event = transitionFrom status event (lifecycle_rule event)"

section \<open>Policies\<close>

datatype delivery_disposition = DELIVER | WAIT | RESUME | RECOVER | NON_DELIVERABLE

datatype reconciliation_phase = PHASE_STARTUP | PHASE_RUNTIME | PHASE_STOPPING

fun getSandboxDeliveryDisposition :: "sandbox_instance_status \<Rightarrow> delivery_disposition" where
  "getSandboxDeliveryDisposition RUNNING = DELIVER"
| "getSandboxDeliveryDisposition PENDING = WAIT"
| "getSandboxDeliveryDisposition STARTING = WAIT"
| "getSandboxDeliveryDisposition STARTED = WAIT"
| "getSandboxDeliveryDisposition INITIALIZING = WAIT"
| "getSandboxDeliveryDisposition DEGRADED = WAIT"
| "getSandboxDeliveryDisposition RECONNECTING = WAIT"
| "getSandboxDeliveryDisposition STOPPED = RESUME"
| "getSandboxDeliveryDisposition FAILED = RECOVER"
| "getSandboxDeliveryDisposition STOPPING = NON_DELIVERABLE"

fun isSandboxBootstrapTokenExchangeEligible :: "sandbox_instance_status \<Rightarrow> bool" where
  "isSandboxBootstrapTokenExchangeEligible status =
     (case status of STARTING \<Rightarrow> True | STARTED \<Rightarrow> True | INITIALIZING \<Rightarrow> True | RUNNING \<Rightarrow> True
      | DEGRADED \<Rightarrow> True | RECONNECTING \<Rightarrow> True
      | PENDING \<Rightarrow> False | STOPPING \<Rightarrow> False | STOPPED \<Rightarrow> False | FAILED \<Rightarrow> False)"

fun isSandboxUserStopEligible :: "sandbox_instance_status \<Rightarrow> bool" where
  "isSandboxUserStopEligible status =
     (case status of RUNNING \<Rightarrow> True | DEGRADED \<Rightarrow> True | RECONNECTING \<Rightarrow> True
      | PENDING \<Rightarrow> False | STARTING \<Rightarrow> False | STARTED \<Rightarrow> False | INITIALIZING \<Rightarrow> False
      | STOPPING \<Rightarrow> False | STOPPED \<Rightarrow> False | FAILED \<Rightarrow> False)"

fun getSandboxDisconnectReconciliationPhase ::
  "sandbox_instance_status \<Rightarrow> reconciliation_phase option" where
  "getSandboxDisconnectReconciliationPhase status =
     (case status of STARTING \<Rightarrow> Some PHASE_STARTUP | STARTED \<Rightarrow> Some PHASE_STARTUP
      | INITIALIZING \<Rightarrow> Some PHASE_STARTUP
      | RUNNING \<Rightarrow> Some PHASE_RUNTIME | DEGRADED \<Rightarrow> Some PHASE_RUNTIME
      | RECONNECTING \<Rightarrow> Some PHASE_RUNTIME
      | STOPPING \<Rightarrow> Some PHASE_STOPPING
      | PENDING \<Rightarrow> None | STOPPED \<Rightarrow> None | FAILED \<Rightarrow> None)"

definition isSandboxDisconnectReconciliationCandidate :: "sandbox_instance_status \<Rightarrow> bool" where
  "isSandboxDisconnectReconciliationCandidate status \<longleftrightarrow>
     getSandboxDisconnectReconciliationPhase status \<noteq> None"

definition getSandboxEffectiveStatus ::
  "sandbox_instance_status \<Rightarrow> bool \<Rightarrow> bool \<Rightarrow> sandbox_instance_status" where
  "getSandboxEffectiveStatus persistedStatus runtimeReady bootstrapAttached =
     (if persistedStatus \<in> {PENDING, FAILED, DEGRADED, RECONNECTING, STOPPING} then persistedStatus
      else if persistedStatus = RUNNING then
        if runtimeReady then RUNNING else if bootstrapAttached then INITIALIZING else RECONNECTING
      else if persistedStatus = STOPPED then
        if runtimeReady then RUNNING else if bootstrapAttached then INITIALIZING else STOPPED
      else
        if runtimeReady then RUNNING else if bootstrapAttached then INITIALIZING
        else persistedStatus)"

section \<open>Histories\<close>

text \<open>An accepted event moves to the status of the result; a rejected one is no step.\<close>

inductive lifecycle_step ::
  "sandbox_instance_status \<Rightarrow> sandbox_lifecycle_event \<Rightarrow> sandbox_instance_status \<Rightarrow> bool" where
  move: "transitionSandboxLifecycle s e = Transition s t \<Longrightarrow> lifecycle_step s e t"
| stay: "transitionSandboxLifecycle s e = Unchanged s \<Longrightarrow> lifecycle_step s e s"

inductive lifecycle_run ::
  "sandbox_instance_status \<Rightarrow> sandbox_lifecycle_event list \<Rightarrow> sandbox_instance_status \<Rightarrow> bool" where
  empty: "lifecycle_run s [] s"
| event: "lifecycle_run s es t \<Longrightarrow> lifecycle_step t e u \<Longrightarrow> lifecycle_run s (es @ [e]) u"

inductive_simps lifecycle_step_iff: "lifecycle_step s e t"
inductive_cases lifecycle_run_NilE: "lifecycle_run s [] t"

lemma lifecycle_step_rule:
  "lifecycle_step s e t \<longleftrightarrow> (s \<in> set (rule_from (lifecycle_rule e)) \<or> s = rule_to (lifecycle_rule e))
     \<and> t = rule_to (lifecycle_rule e)"
  unfolding lifecycle_step_iff transitionSandboxLifecycle_def transitionFrom_def
  by (cases e) auto

lemma transition_Invalid:
  "(\<exists>r. transitionSandboxLifecycle s e = Invalid s e r) \<longleftrightarrow> \<not> (\<exists>t. lifecycle_step s e t)"
  unfolding lifecycle_step_rule transitionSandboxLifecycle_def transitionFrom_def
  by (cases e) auto

lemma lifecycle_step_det: "lifecycle_step s e t \<Longrightarrow> lifecycle_step s e u \<Longrightarrow> t = u"
  by (simp add: lifecycle_step_rule)

text \<open>What a history must contain, by how far it got.\<close>

definition startup_events :: "sandbox_lifecycle_event list" where
  "startup_events = [PROVIDER_START_REQUESTED, PROVIDER_START_ACCEPTED,
     PROVIDER_RUNTIME_INITIALIZATION_STARTED, RUNTIME_READY]"

fun startup_progress :: "sandbox_instance_status \<Rightarrow> nat" where
  "startup_progress STARTING = 1"
| "startup_progress STARTED = 2"
| "startup_progress INITIALIZING = 3"
| "startup_progress RUNNING = 4"
| "startup_progress DEGRADED = 4"
| "startup_progress RECONNECTING = 4"
| "startup_progress s = 0"

lemma subseq_take_snoc:
  assumes "subseq (take n xs) es" and "n < length xs"
  shows "subseq (take (Suc n) xs) (es @ [xs ! n])"
  using assms by (simp add: take_Suc_conv_app_nth list_emb_append_mono)

lemma subseq_take_less:
  assumes "subseq (take n xs) es" and "m \<le> n"
  shows "subseq (take m xs) (es @ [e])"
proof -
  have "subseq (take m xs) (take n xs)"
    using assms(2) by (metis min.absorb1 prefix_imp_subseq take_is_prefix take_take)
  then show ?thesis
    using assms(1) by (metis subseq_order.order_trans subseq_rev_drop_many append.right_neutral list_emb_append2)
qed

lemma step_progress:
  assumes "lifecycle_step s e t"
  shows "startup_progress t \<le> startup_progress s
    \<or> startup_progress t = Suc (startup_progress s) \<and> e = startup_events ! startup_progress s"
  using assms unfolding lifecycle_step_rule
  by (cases e) (auto simp: startup_events_def)

lemma run_startup:
  "lifecycle_run s es t \<Longrightarrow> startup_progress s = 0 \<Longrightarrow>
     subseq (take (startup_progress t) startup_events) es"
proof (induction rule: lifecycle_run.induct)
  case (event s es t e u)
  have "startup_progress t < length startup_events" if "startup_progress u = Suc (startup_progress t)"
    using that by (cases u) (simp_all add: startup_events_def)
  with event step_progress [OF event.hyps(2)] show ?case
    by (metis subseq_take_less subseq_take_snoc)
qed simp

section \<open>Properties\<close>

text \<open>
  An instance that is pending, stopped or failed (or stopping) and is later running, degraded or
  reconnecting went through the whole start-up: its accepted events contain, in this order, a
  provider start request, the provider's acceptance, the start of the runtime initialization and the
  readiness of the runtime.
\<close>

theorem running_needs_startup:
  assumes "lifecycle_run s es t"
    and "s \<in> {PENDING, STOPPING, STOPPED, FAILED}" and "t \<in> {RUNNING, DEGRADED, RECONNECTING}"
  shows "subseq [PROVIDER_START_REQUESTED, PROVIDER_START_ACCEPTED,
    PROVIDER_RUNTIME_INITIALIZATION_STARTED, RUNTIME_READY] es"
proof -
  have "startup_progress s = 0" and "startup_progress t = 4"
    using assms(2,3) by auto
  with run_startup [OF assms(1)] show ?thesis
    by (simp add: startup_events_def)
qed

lemma startup_run: "lifecycle_run PENDING startup_events RUNNING"
proof -
  have "lifecycle_run PENDING ([] @ [PROVIDER_START_REQUESTED]) STARTING"
    by (rule lifecycle_run.event [OF lifecycle_run.empty]) (simp add: lifecycle_step_rule)
  from lifecycle_run.event [OF this, of PROVIDER_START_ACCEPTED STARTED]
  have "lifecycle_run PENDING [PROVIDER_START_REQUESTED, PROVIDER_START_ACCEPTED] STARTED"
    by (simp add: lifecycle_step_rule)
  from lifecycle_run.event [OF this, of PROVIDER_RUNTIME_INITIALIZATION_STARTED INITIALIZING]
  have "lifecycle_run PENDING (take 3 startup_events) INITIALIZING"
    by (simp add: lifecycle_step_rule startup_events_def)
  from lifecycle_run.event [OF this, of RUNTIME_READY RUNNING] show ?thesis
    by (simp add: lifecycle_step_rule startup_events_def)
qed

theorem running_needs_startup_witness:
  "lifecycle_run PENDING startup_events RUNNING \<and>
   subseq [PROVIDER_START_REQUESTED, PROVIDER_START_ACCEPTED,
     PROVIDER_RUNTIME_INITIALIZATION_STARTED, RUNTIME_READY] startup_events"
  using running_needs_startup [OF startup_run] startup_run by simp

text \<open>
  The policies agree with the transition function. A stop request is accepted exactly in the
  statuses with a disconnect reconciliation phase; it moves the instance to stopping exactly in the
  statuses in which a bootstrap token may be exchanged, and every status a user may stop is one of
  them; the stopping phase is the case where the request changes nothing.
\<close>

theorem stop_policies:
  "(isSandboxDisconnectReconciliationCandidate s \<longleftrightarrow> (\<exists>t. lifecycle_step s STOP_REQUESTED t)) \<and>
   (isSandboxBootstrapTokenExchangeEligible s
     \<longleftrightarrow> transitionSandboxLifecycle s STOP_REQUESTED = Transition s STOPPING) \<and>
   (getSandboxDisconnectReconciliationPhase s = Some PHASE_STOPPING
     \<longleftrightarrow> transitionSandboxLifecycle s STOP_REQUESTED = Unchanged s) \<and>
   (getSandboxDisconnectReconciliationPhase s = Some PHASE_RUNTIME \<longleftrightarrow> isSandboxUserStopEligible s)"
  unfolding isSandboxDisconnectReconciliationCandidate_def lifecycle_step_rule
    transitionSandboxLifecycle_def transitionFrom_def
  by (cases s) simp_all

text \<open>
  Messages are delivered to an instance only when its runtime is known to be ready: under the
  effective status the disposition is to deliver exactly if the runtime is ready and the persisted
  status is starting, started, initializing, running or stopped.
\<close>

theorem deliver_iff_ready:
  "getSandboxDeliveryDisposition (getSandboxEffectiveStatus s ready attached) = DELIVER
     \<longleftrightarrow> ready \<and> s \<in> {STARTING, STARTED, INITIALIZING, RUNNING, STOPPED}"
  by (cases s) (simp_all add: getSandboxEffectiveStatus_def)

end
