(* ===== verification/Forwarding.thy ===== *)
theory Forwarding
  imports SessionRegistry
begin

text \<open>
  Interactive streams are opened, found and closed on the gateway node that owns the sandbox:
  \<open>InteractiveStreamRouter\<close> (\<open>tunnel/gateway-forwarding/interactive-stream-router.ts\<close>) resolves the
  owner and calls a forwarding client, once more on another owner if the first is unavailable; the
  local client and server (\<open>adapters/local-gateway-forwarding-client-adapter.ts\<close> and
  \<open>-server-adapter.ts\<close>) serve the owner node from its session registry; the owner is read from the
  active bootstrap session (\<open>ownership/attachment-backed-sandbox-owner-resolver.ts\<close>).

  Awaited calls are computations on a world state of any type; the forwarding client, the owner
  resolver and the port-access handlers are arguments.
\<close>

section \<open>Inputs, owners and the client interface\<close>

record open_stream_input =
  open_sandboxInstanceId :: string
  open_clientSessionId :: string
  open_clientStreamId :: int
  open_channelKind :: stream_channel_kind

record client_stream_input =
  client_sandboxInstanceId :: string
  client_clientSessionId :: string
  client_clientStreamId :: int

record tunnel_stream_input =
  tunnel_sandboxInstanceId :: string
  tunnel_tunnelStreamId :: int

record release_streams_input =
  release_sandboxInstanceId :: string
  release_clientSessionId :: string

record open_port_result =
  port_bootstrapTarget :: relay_target
  port_streamId :: int

record sandbox_owner =
  owner_sandboxInstanceId :: string
  owner_nodeId :: string
  owner_sessionId :: string
  owner_leaseId :: string
  owner_expiresAt :: int

datatype owner_resolution = OwnerMissing | OwnerLocal sandbox_owner | OwnerRemote sandbox_owner

fun resolved_owner :: "owner_resolution \<Rightarrow> sandbox_owner option" where
  "resolved_owner OwnerMissing = None"
| "resolved_owner (OwnerLocal owner) = Some owner"
| "resolved_owner (OwnerRemote owner) = Some owner"

type_synonym ('s, 'a) gateway_comp = "(gateway_error, 's, 'a) comp"

record 's forwarding_client =
  client_openInteractiveStream ::
    "forwarding_target \<Rightarrow> open_stream_input \<Rightarrow> ('s, interactive_stream_route) gateway_comp"
  client_findInteractiveStreamByClient ::
    "forwarding_target \<Rightarrow> client_stream_input \<Rightarrow> ('s, interactive_stream_route option) gateway_comp"
  client_findInteractiveStreamByTunnel ::
    "forwarding_target \<Rightarrow> tunnel_stream_input \<Rightarrow> ('s, interactive_stream_route option) gateway_comp"
  client_closeInteractiveStream ::
    "forwarding_target \<Rightarrow> client_stream_input \<Rightarrow> ('s, interactive_stream_route option) gateway_comp"
  client_releaseClientSessionStreams ::
    "forwarding_target \<Rightarrow> release_streams_input \<Rightarrow> ('s, release_result) gateway_comp"

section \<open>Owner resolution\<close>

record active_bootstrap_session =
  active_sandboxInstanceId :: string
  active_nodeId :: string
  active_sessionId :: string
  active_ownerLeaseId :: string
  active_attachedAtMs :: int

definition resolveOwner :: "string \<Rightarrow> (string \<Rightarrow> int \<Rightarrow> active_bootstrap_session option) \<Rightarrow> int
    \<Rightarrow> string \<Rightarrow> owner_resolution" where
  "resolveOwner nodeId getActiveSession nowMs sandboxId =
     (case getActiveSession sandboxId nowMs of
        None \<Rightarrow> OwnerMissing
      | Some active \<Rightarrow>
          (let owner = \<lparr>owner_sandboxInstanceId = active_sandboxInstanceId active,
                owner_nodeId = active_nodeId active, owner_sessionId = active_sessionId active,
                owner_leaseId = active_ownerLeaseId active, owner_expiresAt = active_attachedAtMs active\<rparr>
           in if owner_nodeId owner = nodeId then OwnerLocal owner else OwnerRemote owner))"

section \<open>The router\<close>

definition to_forwarding_target :: "string \<Rightarrow> sandbox_owner \<Rightarrow> forwarding_target" where
  "to_forwarding_target source owner = \<lparr>sourceNodeId = source, targetNodeId = owner_nodeId owner,
     targetBootstrapSessionId = owner_sessionId owner\<rparr>"

definition sameForwardingTarget :: "forwarding_target \<Rightarrow> forwarding_target \<Rightarrow> bool" where
  "sameForwardingTarget left right \<longleftrightarrow> sourceNodeId left = sourceNodeId right
     \<and> targetNodeId left = targetNodeId right
     \<and> targetBootstrapSessionId left = targetBootstrapSessionId right"

fun is_unavailable :: "gateway_error \<Rightarrow> bool" where
  "is_unavailable (GatewayForwardingUnavailableError _ _) = True"
| "is_unavailable _ = False"

definition resolveGatewayForwardingRetryTarget ::
  "forwarding_target \<Rightarrow> gateway_error \<Rightarrow> owner_resolution \<Rightarrow> string
     \<Rightarrow> gateway_error + forwarding_target option" where
  "resolveGatewayForwardingRetryTarget current err retryResolution source =
     (if \<not> is_unavailable err then Inl err
      else case resolved_owner retryResolution of
        None \<Rightarrow> Inr None
      | Some owner \<Rightarrow>
          (let retry = to_forwarding_target source owner in
           if sameForwardingTarget current retry then Inr None else Inr (Some retry)))"

record 's stream_router =
  router_sourceNodeId :: string
  router_resolveOwner :: "string \<Rightarrow> ('s, owner_resolution) gateway_comp"
  router_client :: "'s forwarding_client"

definition resolveForwardingTarget :: "'s stream_router \<Rightarrow> string \<Rightarrow> ('s, forwarding_target) gateway_comp" where
  "resolveForwardingTarget r sandboxId = comp_bind (router_resolveOwner r sandboxId) (\<lambda>resolution.
     case resolved_owner resolution of
       None \<Rightarrow> comp_throw (BootstrapTunnelNotConnectedError sandboxId)
     | Some owner \<Rightarrow> comp_return (to_forwarding_target (router_sourceNodeId r) owner))"

definition resolveRetryTarget ::
  "'s stream_router \<Rightarrow> forwarding_target \<Rightarrow> gateway_error \<Rightarrow> string
     \<Rightarrow> ('s, forwarding_target option) gateway_comp" where
  "resolveRetryTarget r current err sandboxId =
     (if \<not> is_unavailable err then comp_throw err
      else comp_bind (router_resolveOwner r sandboxId) (\<lambda>resolution.
        case resolveGatewayForwardingRetryTarget current err resolution (router_sourceNodeId r) of
          Inl e \<Rightarrow> comp_throw e
        | Inr retry \<Rightarrow> comp_return retry))"

text \<open>
  The \<open>try ... catch\<close> every router method has: call on the target; if the call throws, call on the
  retry target, or give \<open>absent\<close> when there is none.
\<close>

definition call_with_retry ::
  "'s stream_router \<Rightarrow> string \<Rightarrow> forwarding_target \<Rightarrow> (forwarding_target \<Rightarrow> ('s, 'a) gateway_comp)
     \<Rightarrow> ('s, 'a) gateway_comp \<Rightarrow> ('s, 'a) gateway_comp" where
  "call_with_retry r sandboxId target call absent =
     comp_catch (call target) (\<lambda>err.
       comp_bind (resolveRetryTarget r target err sandboxId) (\<lambda>retry.
         case retry of None \<Rightarrow> absent | Some retryTarget \<Rightarrow> call retryTarget))"

definition openInteractiveStream ::
  "'s stream_router \<Rightarrow> open_stream_input \<Rightarrow> ('s, interactive_stream_route) gateway_comp" where
  "openInteractiveStream r inp = comp_bind (resolveForwardingTarget r (open_sandboxInstanceId inp)) (\<lambda>target.
     call_with_retry r (open_sandboxInstanceId inp) target
       (\<lambda>t. client_openInteractiveStream (router_client r) t inp)
       (comp_throw (BootstrapTunnelNotConnectedError (open_sandboxInstanceId inp))))"

definition findInteractiveStreamByClient ::
  "'s stream_router \<Rightarrow> client_stream_input \<Rightarrow> ('s, interactive_stream_route option) gateway_comp" where
  "findInteractiveStreamByClient r inp =
     comp_bind (resolveForwardingTarget r (client_sandboxInstanceId inp)) (\<lambda>target.
       call_with_retry r (client_sandboxInstanceId inp) target
         (\<lambda>t. client_findInteractiveStreamByClient (router_client r) t inp) (comp_return None))"

definition findInteractiveStreamByTunnel ::
  "'s stream_router \<Rightarrow> tunnel_stream_input \<Rightarrow> ('s, interactive_stream_route option) gateway_comp" where
  "findInteractiveStreamByTunnel r inp =
     comp_bind (resolveForwardingTarget r (tunnel_sandboxInstanceId inp)) (\<lambda>target.
       call_with_retry r (tunnel_sandboxInstanceId inp) target
         (\<lambda>t. client_findInteractiveStreamByTunnel (router_client r) t inp) (comp_return None))"

definition closeInteractiveStream ::
  "'s stream_router \<Rightarrow> client_stream_input \<Rightarrow> ('s, interactive_stream_route option) gateway_comp" where
  "closeInteractiveStream r inp =
     comp_bind (resolveForwardingTarget r (client_sandboxInstanceId inp)) (\<lambda>target.
       call_with_retry r (client_sandboxInstanceId inp) target
         (\<lambda>t. client_closeInteractiveStream (router_client r) t inp) (comp_return None))"

definition nothing_released :: release_result where
  "nothing_released = \<lparr>releaseBootstrapTarget = None, releasedBindings = []\<rparr>"

definition releaseClientSessionStreams ::
  "'s stream_router \<Rightarrow> release_streams_input \<Rightarrow> ('s, release_result) gateway_comp" where
  "releaseClientSessionStreams r inp =
     comp_bind (router_resolveOwner r (release_sandboxInstanceId inp)) (\<lambda>resolution.
       case resolved_owner resolution of
         None \<Rightarrow> comp_return nothing_released
       | Some owner \<Rightarrow>
           call_with_retry r (release_sandboxInstanceId inp)
             (to_forwarding_target (router_sourceNodeId r) owner)
             (\<lambda>t. client_releaseClientSessionStreams (router_client r) t inp)
             (comp_return nothing_released))"

section \<open>The local server\<close>

definition getMatchingBootstrapTarget ::
  "forwarding_target \<Rightarrow> string \<Rightarrow> tunnel_session_registry \<Rightarrow> relay_target option" where
  "getMatchingBootstrapTarget target sandboxId g =
     (case getBootstrapTarget sandboxId g of
        None \<Rightarrow> None
      | Some bootstrap \<Rightarrow>
          if target_sessionId bootstrap \<noteq> targetBootstrapSessionId target then None else Some bootstrap)"

definition requireBootstrapTarget ::
  "(nat \<Rightarrow> bool) \<Rightarrow> forwarding_target \<Rightarrow> string \<Rightarrow> tunnel_session_registry
     \<Rightarrow> gateway_error + relay_target" where
  "requireBootstrapTarget answer target sandboxId g =
     (case getBootstrapTarget sandboxId g of
        None \<Rightarrow> Inl (BootstrapTunnelNotConnectedError sandboxId)
      | Some bootstrap \<Rightarrow>
          if target_sessionId bootstrap \<noteq> targetBootstrapSessionId target
          then Inl (PlainError (''Resolved bootstrap session is no longer current for sandbox ''
                 @ in_quotes sandboxId @ ''.''))
          else if \<not> isBootstrapSessionAvailable answer bootstrap g
          then Inl (BootstrapTunnelNotConnectedError sandboxId)
          else Inr bootstrap)"

definition server_openInteractiveStream ::
  "(nat \<Rightarrow> bool) \<Rightarrow> forwarding_target \<Rightarrow> open_stream_input
     \<Rightarrow> (tunnel_session_registry, interactive_stream_route) gateway_comp" where
  "server_openInteractiveStream answer target inp g =
     (case requireBootstrapTarget answer target (open_sandboxInstanceId inp) g of
        Inl e \<Rightarrow> (Inl e, g)
      | Inr bootstrap \<Rightarrow>
          (case bindClientStream (open_sandboxInstanceId inp) (open_channelKind inp)
             (open_clientSessionId inp) (open_clientStreamId inp) g of
             (Inl e, g') \<Rightarrow> (Inl e, g')
           | (Inr b, g') \<Rightarrow> (Inr \<lparr>bootstrapTarget = bootstrap, binding = b\<rparr>, g')))"

definition server_findInteractiveStreamByClient ::
  "forwarding_target \<Rightarrow> client_stream_input
     \<Rightarrow> (tunnel_session_registry, interactive_stream_route option) gateway_comp" where
  "server_findInteractiveStreamByClient target inp g =
     (Inr (case getMatchingBootstrapTarget target (client_sandboxInstanceId inp) g of
        None \<Rightarrow> None
      | Some bootstrap \<Rightarrow>
          map_option (\<lambda>b. \<lparr>bootstrapTarget = bootstrap, binding = b\<rparr>)
            (getBindingByClientStream (client_sandboxInstanceId inp) (client_clientSessionId inp)
              (client_clientStreamId inp) g)), g)"

definition server_findInteractiveStreamByTunnel ::
  "forwarding_target \<Rightarrow> tunnel_stream_input
     \<Rightarrow> (tunnel_session_registry, interactive_stream_route option) gateway_comp" where
  "server_findInteractiveStreamByTunnel target inp g =
     (Inr (case getMatchingBootstrapTarget target (tunnel_sandboxInstanceId inp) g of
        None \<Rightarrow> None
      | Some bootstrap \<Rightarrow>
          map_option (\<lambda>b. \<lparr>bootstrapTarget = bootstrap, binding = b\<rparr>)
            (getBindingByTunnelStreamId (tunnel_sandboxInstanceId inp) (tunnel_tunnelStreamId inp) g)), g)"

definition server_closeInteractiveStream ::
  "forwarding_target \<Rightarrow> client_stream_input
     \<Rightarrow> (tunnel_session_registry, interactive_stream_route option) gateway_comp" where
  "server_closeInteractiveStream target inp g =
     (case getMatchingBootstrapTarget target (client_sandboxInstanceId inp) g of
        None \<Rightarrow> (Inr None, g)
      | Some bootstrap \<Rightarrow>
          (case unbindClientStream (client_sandboxInstanceId inp) (client_clientSessionId inp)
             (client_clientStreamId inp) g of
             (None, g') \<Rightarrow> (Inr None, g')
           | (Some b, g') \<Rightarrow> (Inr (Some \<lparr>bootstrapTarget = bootstrap, binding = b\<rparr>), g')))"

definition server_releaseClientSessionStreams ::
  "forwarding_target \<Rightarrow> release_streams_input
     \<Rightarrow> (tunnel_session_registry, release_result) gateway_comp" where
  "server_releaseClientSessionStreams target inp g =
     (case getMatchingBootstrapTarget target (release_sandboxInstanceId inp) g of
        None \<Rightarrow> (Inr nothing_released, g)
      | Some bootstrap \<Rightarrow>
          (case releaseClientSessionBindings (release_sandboxInstanceId inp)
             (release_clientSessionId inp) g of
             (bs, g') \<Rightarrow> (Inr \<lparr>releaseBootstrapTarget = Some bootstrap, releasedBindings = bs\<rparr>, g')))"

text \<open>Port access is forwarded to handlers, if they are configured.\<close>

definition server_authorizePortAccessTarget ::
  "(nat \<Rightarrow> bool) \<Rightarrow> (forwarding_target \<Rightarrow> string \<Rightarrow> int
      \<Rightarrow> (tunnel_session_registry, ports_control_message) gateway_comp) option
     \<Rightarrow> forwarding_target \<Rightarrow> string \<Rightarrow> int \<Rightarrow> (tunnel_session_registry, ports_control_message) gateway_comp" where
  "server_authorizePortAccessTarget answer handler target sandboxId port g =
     (case handler of
        None \<Rightarrow> (Inl (PlainError ''Port Access target authorization handler is not configured.''), g)
      | Some authorize \<Rightarrow>
          (case requireBootstrapTarget answer target sandboxId g of
             Inl e \<Rightarrow> (Inl e, g)
           | Inr _ \<Rightarrow> authorize target sandboxId port g))"

record port_stream_handler =
  handler_open :: "forwarding_target \<Rightarrow> string \<Rightarrow> string
    \<Rightarrow> (tunnel_session_registry, open_port_result) gateway_comp"
  handler_release :: "forwarding_target \<Rightarrow> string \<Rightarrow> int \<Rightarrow> (tunnel_session_registry, unit) gateway_comp"

definition no_port_handler :: gateway_error where
  "no_port_handler = PlainError ''Port Access stream forwarding handler is not configured.''"

definition server_openPortAccessStream ::
  "(nat \<Rightarrow> bool) \<Rightarrow> port_stream_handler option \<Rightarrow> forwarding_target \<Rightarrow> string \<Rightarrow> string
     \<Rightarrow> (tunnel_session_registry, open_port_result) gateway_comp" where
  "server_openPortAccessStream answer handler target sandboxId connectionId g =
     (case handler of
        None \<Rightarrow> (Inl no_port_handler, g)
      | Some h \<Rightarrow>
          (case requireBootstrapTarget answer target sandboxId g of
             Inl e \<Rightarrow> (Inl e, g)
           | Inr _ \<Rightarrow> handler_open h target sandboxId connectionId g))"

definition server_releasePortAccessStream ::
  "port_stream_handler option \<Rightarrow> forwarding_target \<Rightarrow> string \<Rightarrow> int
     \<Rightarrow> (tunnel_session_registry, unit) gateway_comp" where
  "server_releasePortAccessStream handler target sandboxId sid g =
     (case handler of
        None \<Rightarrow> (Inl no_port_handler, g)
      | Some h \<Rightarrow> handler_release h target sandboxId sid g)"

section \<open>The local client\<close>

definition assertLocalTarget :: "string \<Rightarrow> forwarding_target \<Rightarrow> gateway_error + unit" where
  "assertLocalTarget localNodeId target =
     (if targetNodeId target \<noteq> localNodeId
      then Inl (PlainError (''Local forwarding client can only target node '' @ in_quotes localNodeId
             @ '', received '' @ in_quotes (targetNodeId target) @ ''.''))
      else Inr ())"

definition if_local :: "string \<Rightarrow> forwarding_target \<Rightarrow> ('s, 'a) gateway_comp \<Rightarrow> ('s, 'a) gateway_comp" where
  "if_local localNodeId target m =
     (case assertLocalTarget localNodeId target of Inl e \<Rightarrow> comp_throw e | Inr _ \<Rightarrow> m)"

definition local_client :: "string \<Rightarrow> (nat \<Rightarrow> bool) \<Rightarrow> tunnel_session_registry forwarding_client" where
  "local_client localNodeId answer =
     \<lparr>client_openInteractiveStream = (\<lambda>t inp. if_local localNodeId t (server_openInteractiveStream answer t inp)),
      client_findInteractiveStreamByClient =
        (\<lambda>t inp. if_local localNodeId t (server_findInteractiveStreamByClient t inp)),
      client_findInteractiveStreamByTunnel =
        (\<lambda>t inp. if_local localNodeId t (server_findInteractiveStreamByTunnel t inp)),
      client_closeInteractiveStream =
        (\<lambda>t inp. if_local localNodeId t (server_closeInteractiveStream t inp)),
      client_releaseClientSessionStreams =
        (\<lambda>t inp. if_local localNodeId t (server_releaseClientSessionStreams t inp))\<rparr>"

definition local_authorizePortAccessTarget ::
  "string \<Rightarrow> (nat \<Rightarrow> bool) \<Rightarrow> (forwarding_target \<Rightarrow> string \<Rightarrow> int
      \<Rightarrow> (tunnel_session_registry, ports_control_message) gateway_comp) option
     \<Rightarrow> forwarding_target \<Rightarrow> string \<Rightarrow> int \<Rightarrow> (tunnel_session_registry, ports_control_message) gateway_comp" where
  "local_authorizePortAccessTarget localNodeId answer handler target sandboxId port =
     if_local localNodeId target (server_authorizePortAccessTarget answer handler target sandboxId port)"

definition local_openPortAccessStream ::
  "string \<Rightarrow> (nat \<Rightarrow> bool) \<Rightarrow> port_stream_handler option \<Rightarrow> forwarding_target \<Rightarrow> string \<Rightarrow> string
     \<Rightarrow> (tunnel_session_registry, open_port_result) gateway_comp" where
  "local_openPortAccessStream localNodeId answer handler target sandboxId connectionId =
     if_local localNodeId target (server_openPortAccessStream answer handler target sandboxId connectionId)"

definition local_releasePortAccessStream ::
  "string \<Rightarrow> port_stream_handler option \<Rightarrow> forwarding_target \<Rightarrow> string \<Rightarrow> int
     \<Rightarrow> (tunnel_session_registry, unit) gateway_comp" where
  "local_releasePortAccessStream localNodeId handler target sandboxId sid =
     if_local localNodeId target (server_releasePortAccessStream handler target sandboxId sid)"

section \<open>Retries\<close>

text \<open>The router on a client that logs the targets it is called with.\<close>

definition unlogged :: "('s, 'a) gateway_comp \<Rightarrow> ('s \<times> forwarding_target list, 'a) gateway_comp" where
  "unlogged m s = (case m (fst s) of (r, t) \<Rightarrow> (r, (t, snd s)))"

definition logged :: "(forwarding_target \<Rightarrow> ('s, 'a) gateway_comp) \<Rightarrow> forwarding_target
    \<Rightarrow> ('s \<times> forwarding_target list, 'a) gateway_comp" where
  "logged call t s = (case call t (fst s) of (r, u) \<Rightarrow> (r, (u, snd s @ [t])))"

definition logged_client :: "'s forwarding_client \<Rightarrow> ('s \<times> forwarding_target list) forwarding_client" where
  "logged_client c =
     \<lparr>client_openInteractiveStream = (\<lambda>t inp. logged (\<lambda>t. client_openInteractiveStream c t inp) t),
      client_findInteractiveStreamByClient =
        (\<lambda>t inp. logged (\<lambda>t. client_findInteractiveStreamByClient c t inp) t),
      client_findInteractiveStreamByTunnel =
        (\<lambda>t inp. logged (\<lambda>t. client_findInteractiveStreamByTunnel c t inp) t),
      client_closeInteractiveStream = (\<lambda>t inp. logged (\<lambda>t. client_closeInteractiveStream c t inp) t),
      client_releaseClientSessionStreams =
        (\<lambda>t inp. logged (\<lambda>t. client_releaseClientSessionStreams c t inp) t)\<rparr>"

definition logged_router :: "'s stream_router \<Rightarrow> ('s \<times> forwarding_target list) stream_router" where
  "logged_router r = \<lparr>router_sourceNodeId = router_sourceNodeId r,
     router_resolveOwner = (\<lambda>i. unlogged (router_resolveOwner r i)),
     router_client = logged_client (router_client r)\<rparr>"

definition one_retry :: "(forwarding_target \<Rightarrow> ('s, 'a) gateway_comp) \<Rightarrow> forwarding_target list \<Rightarrow> bool" where
  "one_retry call log \<longleftrightarrow> log = [] \<or> (\<exists>t. log = [t])
     \<or> (\<exists>t u. log = [t, u] \<and> t \<noteq> u \<and> (\<exists>s e s'. call t s = (Inl e, s') \<and> is_unavailable e))"

lemma sameForwardingTarget_iff [simp]: "sameForwardingTarget t u \<longleftrightarrow> t = u"
  by (auto simp: sameForwardingTarget_def)

lemma retry_target_other:
  "resolveGatewayForwardingRetryTarget t e resolution source = Inr (Some u) \<Longrightarrow> is_unavailable e \<and> u \<noteq> t"
  by (auto simp: resolveGatewayForwardingRetryTarget_def Let_def split: if_splits option.splits)

lemma resolveRetryTarget_logged:
  assumes "resolveRetryTarget (logged_router r) t e i s = (res, s')"
  shows "snd s' = snd s \<and> (\<forall>u. res = Inr (Some u) \<longrightarrow> is_unavailable e \<and> u \<noteq> t)"
  using assms
  by (auto simp: resolveRetryTarget_def logged_router_def unlogged_def comp_defs
      split: if_splits prod.splits sum.splits dest: retry_target_other)

lemma call_with_retry_logged:
  assumes "\<And>s. snd (snd (absent s)) = snd s"
  shows "one_retry call
    (snd (snd (call_with_retry (logged_router r) i t (logged call) absent (s, []))))"
proof -
  obtain res s1 where first: "call t s = (res, s1)"
    by fastforce
  show ?thesis
  proof (cases res)
    case (Inr a)
    with first show ?thesis
      by (simp add: call_with_retry_def comp_catch_def logged_def one_retry_def)
  next
    case (Inl e)
    obtain retry s2 where retry: "resolveRetryTarget (logged_router r) t e i (s1, [t]) = (retry, s2)"
      by (cases "resolveRetryTarget (logged_router r) t e i (s1, [t])")
    then have log: "snd s2 = [t]" and other: "retry = Inr (Some u) \<Longrightarrow> is_unavailable e \<and> u \<noteq> t" for u
      using resolveRetryTarget_logged [OF retry] by simp_all
    have run: "call_with_retry (logged_router r) i t (logged call) absent (s, []) =
        (case retry of Inl e' \<Rightarrow> (Inl e', s2) | Inr None \<Rightarrow> absent s2
         | Inr (Some u) \<Rightarrow> logged call u s2)"
      using first Inl retry
      by (simp add: call_with_retry_def comp_catch_def comp_bind_def logged_def
          split: sum.split option.split)
    show ?thesis
    proof (cases "\<exists>u. retry = Inr (Some u)")
      case True
      then obtain u where u: "retry = Inr (Some u)"
        by blast
      then show ?thesis
        using first Inl other [of u] log unfolding run
        by (auto simp: logged_def one_retry_def split: prod.split)
    next
      case False
      then have "snd (snd (call_with_retry (logged_router r) i t (logged call) absent (s, []))) = [t]"
        using assms [of s2] log unfolding run by (auto split: sum.split option.split)
      then show ?thesis
        by (simp add: one_retry_def)
    qed
  qed
qed

lemma resolveForwardingTarget_logged:
  assumes "resolveForwardingTarget (logged_router r) i (s, []) = (res, s')"
  shows "snd s' = []"
  using assms by (auto simp: resolveForwardingTarget_def logged_router_def unlogged_def comp_defs
      split: prod.splits sum.splits option.splits)

lemma forwarded_logged:
  assumes "\<And>s. snd (snd (absent s)) = snd s"
  shows "one_retry call (snd (snd (comp_bind (resolveForwardingTarget (logged_router r) i)
    (\<lambda>t. call_with_retry (logged_router r) i t (logged call) absent) (s, []))))"
proof -
  obtain res s1 log where res: "resolveForwardingTarget (logged_router r) i (s, []) = (res, (s1, log))"
    by (metis surj_pair)
  with resolveForwardingTarget_logged [OF res] call_with_retry_logged [OF assms] show ?thesis
    by (cases res) (simp_all add: comp_bind_def one_retry_def)
qed

lemma releaseClientSessionStreams_logged:
  "one_retry (\<lambda>t. client_releaseClientSessionStreams (router_client r) t inp)
    (snd (snd (releaseClientSessionStreams (logged_router r) inp (s, []))))"
proof -
  obtain res s1 where res: "router_resolveOwner r (release_sandboxInstanceId inp) s = (res, s1)"
    by fastforce
  show ?thesis
  proof (cases res)
    case (Inl e)
    with res show ?thesis
      by (simp add: releaseClientSessionStreams_def comp_bind_def logged_router_def unlogged_def
          one_retry_def)
  next
    case (Inr resolution)
    have "router_resolveOwner (logged_router r) (release_sandboxInstanceId inp) (s, []) = (Inr resolution, (s1, []))"
      using res Inr by (simp add: logged_router_def unlogged_def)
    moreover have "client_releaseClientSessionStreams (router_client (logged_router r)) t inp
        = logged (\<lambda>t. client_releaseClientSessionStreams (router_client r) t inp) t" for t
      by (simp add: logged_router_def logged_client_def)
    ultimately show ?thesis
      using call_with_retry_logged [of "comp_return nothing_released", OF _,
          of "\<lambda>t. client_releaseClientSessionStreams (router_client r) t inp" r "release_sandboxInstanceId inp" _ s1]
      by (cases "resolved_owner resolution")
        (simp_all add: releaseClientSessionStreams_def comp_bind_def comp_return_def one_retry_def)
  qed
qed

section \<open>The owner node\<close>

text \<open>
  What the translator of tunnel messages relies on, as an interface: a stream that was opened is
  found from both ends until it is closed.
\<close>

definition route_of :: "'s \<Rightarrow> ('s, interactive_stream_route option) gateway_comp \<Rightarrow> interactive_stream_route option" where
  "route_of s m = (case fst (m s) of Inr r \<Rightarrow> r | Inl _ \<Rightarrow> None)"

definition opened_client :: "open_stream_input \<Rightarrow> client_stream_input" where
  "opened_client inp = \<lparr>client_sandboxInstanceId = open_sandboxInstanceId inp,
     client_clientSessionId = open_clientSessionId inp, client_clientStreamId = open_clientStreamId inp\<rparr>"

definition route_tunnel :: "string \<Rightarrow> interactive_stream_route \<Rightarrow> tunnel_stream_input" where
  "route_tunnel sandboxId r = \<lparr>tunnel_sandboxInstanceId = sandboxId,
     tunnel_tunnelStreamId = tunnelStreamId (binding r)\<rparr>"

locale stream_directory =
  fixes open_stream :: "open_stream_input \<Rightarrow> ('s, interactive_stream_route) gateway_comp"
    and find_client :: "client_stream_input \<Rightarrow> ('s, interactive_stream_route option) gateway_comp"
    and find_tunnel :: "tunnel_stream_input \<Rightarrow> ('s, interactive_stream_route option) gateway_comp"
    and close_stream :: "client_stream_input \<Rightarrow> ('s, interactive_stream_route option) gateway_comp"
    and inv :: "'s \<Rightarrow> bool"
  assumes inv_open: "inv s \<Longrightarrow> inv (snd (open_stream i s))"
    and inv_close: "inv s \<Longrightarrow> inv (snd (close_stream c s))"
    and find_open: "inv s \<Longrightarrow> open_stream i s = (Inr r, t) \<Longrightarrow>
      route_of t (find_client (opened_client i)) = Some r"
    and find_client_fields: "inv s \<Longrightarrow> route_of s (find_client c) = Some r \<Longrightarrow>
      clientSessionId (binding r) = client_clientSessionId c
      \<and> clientStreamId (binding r) = client_clientStreamId c"
    and find_both: "inv s \<Longrightarrow> route_of s (find_client c) = Some r \<Longrightarrow>
      route_of s (find_tunnel (route_tunnel (client_sandboxInstanceId c) r)) = Some r"
    and find_closed: "inv s \<Longrightarrow> close_stream c s = (Inr q, t) \<Longrightarrow>
      q = route_of s (find_client c) \<and> route_of t (find_client c) = None"
begin

lemma tunnel_id_determines_client:
  assumes "inv s" and "route_of s (find_client c) = Some r" and "route_of s (find_client d) = Some q"
    and "client_sandboxInstanceId c = client_sandboxInstanceId d"
    and "tunnelStreamId (binding r) = tunnelStreamId (binding q)"
  shows "c = d"
proof -
  have "r = q"
    using find_both [OF assms(1,2)] find_both [OF assms(1,3)] assms(4,5) by (simp add: route_tunnel_def)
  with find_client_fields [OF assms(1,2)] find_client_fields [OF assms(1,3)] assms(4) show ?thesis
    by simp
qed

lemma open_find_close:
  assumes "inv s" and "open_stream i s = (Inr r, t)"
  shows "route_of t (find_tunnel (route_tunnel (open_sandboxInstanceId i) r)) = Some r"
    and "close_stream (opened_client i) t = (Inr q, u) \<Longrightarrow>
      q = Some r \<and> route_of u (find_client (opened_client i)) = None"
proof -
  have inv: "inv t"
    using inv_open [OF assms(1), of i] assms(2) by simp
  have found: "route_of t (find_client (opened_client i)) = Some r"
    by (rule find_open) fact+
  show "route_of t (find_tunnel (route_tunnel (open_sandboxInstanceId i) r)) = Some r"
    using find_both [OF inv found] by (simp add: opened_client_def)
  show "q = Some r \<and> route_of u (find_client (opened_client i)) = None"
    if "close_stream (opened_client i) t = (Inr q, u)"
    using find_closed [OF inv that] found by simp
qed

end

text \<open>
  The router of the owner node itself: the active bootstrap session is the one registered on the
  node, and the forwarding client is the local one.
\<close>

definition registered_session :: "tunnel_session_registry \<Rightarrow> string \<Rightarrow> int \<Rightarrow> active_bootstrap_session option" where
  "registered_session g sandboxId nowMs = map_option (\<lambda>t. \<lparr>active_sandboxInstanceId = sandboxId,
     active_nodeId = target_nodeId t, active_sessionId = target_sessionId t, active_ownerLeaseId = [],
     active_attachedAtMs = nowMs\<rparr>) (getBootstrapTarget sandboxId g)"

definition owner_node_router :: "string \<Rightarrow> (nat \<Rightarrow> bool) \<Rightarrow> int \<Rightarrow> tunnel_session_registry stream_router" where
  "owner_node_router nodeId answer nowMs = \<lparr>router_sourceNodeId = nodeId,
     router_resolveOwner = (\<lambda>i g. (Inr (resolveOwner nodeId (registered_session g) nowMs i), g)),
     router_client = local_client nodeId answer\<rparr>"

text \<open>Every registered bootstrap tunnel is attached to this node.\<close>

definition wf_owner_node :: "string \<Rightarrow> tunnel_session_registry \<Rightarrow> bool" where
  "wf_owner_node nodeId g \<longleftrightarrow> wf_registry g
     \<and> (\<forall>i t. getBootstrapTarget i g = Some t \<longrightarrow> target_nodeId t = nodeId)"

definition to_owner :: "string \<Rightarrow> relay_target \<Rightarrow> forwarding_target" where
  "to_owner nodeId t = \<lparr>sourceNodeId = nodeId, targetNodeId = nodeId,
     targetBootstrapSessionId = target_sessionId t\<rparr>"

lemma resolve_owner_node:
  assumes "wf_owner_node nodeId g"
  shows "resolveForwardingTarget (owner_node_router nodeId answer nowMs) i g =
    (case getBootstrapTarget i g of None \<Rightarrow> (Inl (BootstrapTunnelNotConnectedError i), g)
     | Some t \<Rightarrow> (Inr (to_owner nodeId t), g))"
proof (cases "getBootstrapTarget i g")
  case (Some t)
  with assms have "target_nodeId t = nodeId"
    by (auto simp: wf_owner_node_def)
  with Some show ?thesis
    by (simp add: resolveForwardingTarget_def owner_node_router_def comp_bind_def comp_return_def
        resolveOwner_def registered_session_def to_forwarding_target_def to_owner_def Let_def)
qed (simp add: resolveForwardingTarget_def owner_node_router_def comp_bind_def comp_throw_def
    resolveOwner_def registered_session_def)

lemma call_no_retry:
  assumes "\<And>e t. call target s = (Inl e, t) \<Longrightarrow> \<not> is_unavailable e"
  shows "call_with_retry r i target call absent s = call target s"
  using assms by (auto simp: call_with_retry_def comp_catch_def comp_bind_def resolveRetryTarget_def
      comp_throw_def split: prod.split sum.split)

lemma bind_error_available:
  "bindClientStream i kind c sid g = (Inl e, t) \<Longrightarrow> \<not> is_unavailable e"
  by (auto simp: bindClientStream_def on_adapter_def adapter_bindClientStream_def not_registered_def
      session_bindClientStream_def Let_def split: prod.splits option.splits if_splits)

lemma if_local_owner [simp]: "if_local nodeId (to_owner nodeId t) m = m"
  by (simp add: if_local_def assertLocalTarget_def to_owner_def)

lemma owner_node_client [simp]:
  "router_client (owner_node_router nodeId answer nowMs) = local_client nodeId answer"
  by (simp add: owner_node_router_def)

lemmas local_client_calls [simp] = arg_cong [OF local_client_def, of client_openInteractiveStream, simplified]
  arg_cong [OF local_client_def, of client_findInteractiveStreamByClient, simplified]
  arg_cong [OF local_client_def, of client_findInteractiveStreamByTunnel, simplified]
  arg_cong [OF local_client_def, of client_closeInteractiveStream, simplified]

lemma owner_node_open:
  assumes "wf_owner_node nodeId g"
  shows "openInteractiveStream (owner_node_router nodeId answer nowMs) inp g =
    (case getBootstrapTarget (open_sandboxInstanceId inp) g of
       None \<Rightarrow> (Inl (BootstrapTunnelNotConnectedError (open_sandboxInstanceId inp)), g)
     | Some t \<Rightarrow> server_openInteractiveStream answer (to_owner nodeId t) inp g)"
proof -
  have "\<not> is_unavailable e" if "server_openInteractiveStream answer target inp g = (Inl e, h)" for target e h
    using that by (auto simp: server_openInteractiveStream_def requireBootstrapTarget_def
        split: option.splits if_splits prod.splits sum.splits dest: bind_error_available)
  then show ?thesis
    using resolve_owner_node [OF assms]
    by (auto simp: openInteractiveStream_def comp_bind_def intro!: call_no_retry [THEN trans]
        split: option.split)
qed

lemma owner_node_find_client:
  assumes "wf_owner_node nodeId g"
  shows "findInteractiveStreamByClient (owner_node_router nodeId answer nowMs) inp g =
    (case getBootstrapTarget (client_sandboxInstanceId inp) g of
       None \<Rightarrow> (Inl (BootstrapTunnelNotConnectedError (client_sandboxInstanceId inp)), g)
     | Some t \<Rightarrow> server_findInteractiveStreamByClient (to_owner nodeId t) inp g)"
  using resolve_owner_node [OF assms]
  by (auto simp: findInteractiveStreamByClient_def comp_bind_def server_findInteractiveStreamByClient_def
      call_with_retry_def comp_catch_def split: option.split)

lemma owner_node_find_tunnel:
  assumes "wf_owner_node nodeId g"
  shows "findInteractiveStreamByTunnel (owner_node_router nodeId answer nowMs) inp g =
    (case getBootstrapTarget (tunnel_sandboxInstanceId inp) g of
       None \<Rightarrow> (Inl (BootstrapTunnelNotConnectedError (tunnel_sandboxInstanceId inp)), g)
     | Some t \<Rightarrow> server_findInteractiveStreamByTunnel (to_owner nodeId t) inp g)"
  using resolve_owner_node [OF assms]
  by (auto simp: findInteractiveStreamByTunnel_def comp_bind_def server_findInteractiveStreamByTunnel_def
      call_with_retry_def comp_catch_def split: option.split)

lemma owner_node_close:
  assumes "wf_owner_node nodeId g"
  shows "closeInteractiveStream (owner_node_router nodeId answer nowMs) inp g =
    (case getBootstrapTarget (client_sandboxInstanceId inp) g of
       None \<Rightarrow> (Inl (BootstrapTunnelNotConnectedError (client_sandboxInstanceId inp)), g)
     | Some t \<Rightarrow> server_closeInteractiveStream (to_owner nodeId t) inp g)"
  using resolve_owner_node [OF assms]
  by (auto simp: closeInteractiveStream_def comp_bind_def server_closeInteractiveStream_def
      call_with_retry_def comp_catch_def split: option.split prod.split)

text \<open>The registry behind it.\<close>

lemma registry_targets_kept [simp]:
  "getBootstrapTarget j (snd (bindClientStream i kind c sid g)) = getBootstrapTarget j g"
  "getBootstrapTarget j (snd (unbindClientStream i c sid g)) = getBootstrapTarget j g"
  using session_op_target(1) [of kind c sid] session_op_target(4) [of c sid]
  by (auto simp: getBootstrapTarget_def adapter_getBootstrapTarget_def bindClientStream_def
      unbindClientStream_def on_adapter_def adapter_bindClientStream_def adapter_unbindClientStream_def
      case_prod_beta Let_def split: option.split)

lemma getMatching_owner:
  "getBootstrapTarget i g = Some t \<Longrightarrow> getMatchingBootstrapTarget (to_owner nodeId t) i g = Some t"
  by (simp add: getMatchingBootstrapTarget_def to_owner_def)

definition node_find_client :: "client_stream_input \<Rightarrow> tunnel_session_registry \<Rightarrow> interactive_stream_route option" where
  "node_find_client c g = (case getBootstrapTarget (client_sandboxInstanceId c) g of None \<Rightarrow> None
     | Some t \<Rightarrow> map_option (\<lambda>b. \<lparr>bootstrapTarget = t, binding = b\<rparr>)
         (getBindingByClientStream (client_sandboxInstanceId c) (client_clientSessionId c)
           (client_clientStreamId c) g))"

definition node_find_tunnel :: "tunnel_stream_input \<Rightarrow> tunnel_session_registry \<Rightarrow> interactive_stream_route option" where
  "node_find_tunnel c g = (case getBootstrapTarget (tunnel_sandboxInstanceId c) g of None \<Rightarrow> None
     | Some t \<Rightarrow> map_option (\<lambda>b. \<lparr>bootstrapTarget = t, binding = b\<rparr>)
         (getBindingByTunnelStreamId (tunnel_sandboxInstanceId c) (tunnel_tunnelStreamId c) g))"

lemma route_of_find_client:
  "wf_owner_node nodeId g \<Longrightarrow>
     route_of g (findInteractiveStreamByClient (owner_node_router nodeId answer nowMs) c) = node_find_client c g"
  by (simp add: route_of_def owner_node_find_client node_find_client_def getMatching_owner
      server_findInteractiveStreamByClient_def split: option.split)

lemma route_of_find_tunnel:
  "wf_owner_node nodeId g \<Longrightarrow>
     route_of g (findInteractiveStreamByTunnel (owner_node_router nodeId answer nowMs) c) = node_find_tunnel c g"
  by (simp add: route_of_def owner_node_find_tunnel node_find_tunnel_def getMatching_owner
      server_findInteractiveStreamByTunnel_def split: option.split)

lemma bind_finds:
  assumes "wf_registry g" and "bindClientStream i kind c sid g = (Inr b, h)"
  shows "getBindingByClientStream i c sid h = Some b"
proof -
  obtain s t where s: "session_of (registry_state g) i = Some s"
    and bind: "session_bindClientStream kind c sid s = (Inr b, t)"
    and h: "h = g\<lparr>registry_state := put_session i t (registry_state g)\<rparr>"
    using assms(2) by (auto simp: bindClientStream_def on_adapter_def adapter_bindClientStream_def
        split: option.splits prod.splits)
  have "wf_session s"
    using assms(1) s wf_adapter_session by (auto simp: wf_registry_def)
  with bind have "js_get (bindingsByClientKey t) (toClientBindingKey c sid) = Some b"
    by (simp add: bindClientStream_Inr js_get_set)
  then show ?thesis
    by (simp add: h getBindingByClientStream_def adapter_getBindingByClientStream_def
        session_getBindingByClientStream_def)
qed

lemma unbind_finds:
  assumes "unbindClientStream i c sid g = (r, h)"
  shows "r = getBindingByClientStream i c sid g" and "getBindingByClientStream i c sid h = None"
  using assms
  by (auto simp: unbindClientStream_def on_adapter_def adapter_unbindClientStream_def
      session_unbindClientStream_def getBindingByClientStream_def adapter_getBindingByClientStream_def
      session_getBindingByClientStream_def Let_def js_get_delete split: option.splits prod.splits)

lemma binding_both_ways:
  assumes "wf_registry g" and "getBindingByClientStream i c sid g = Some b"
  shows "clientSessionId b = c \<and> clientStreamId b = sid
    \<and> getBindingByTunnelStreamId i (tunnelStreamId b) g = Some b"
proof -
  obtain s where s: "session_of (registry_state g) i = Some s"
    and key: "js_get (bindingsByClientKey s) (toClientBindingKey c sid) = Some b"
    using assms(2) by (auto simp: getBindingByClientStream_def adapter_getBindingByClientStream_def
        session_getBindingByClientStream_def split: option.splits)
  have "wf_session s"
    using assms(1) s wf_adapter_session by (auto simp: wf_registry_def)
  with s key show ?thesis
    by (auto simp: wf_session_key binding_key_eq getBindingByTunnelStreamId_def
        adapter_getBindingByTunnelStreamId_def session_getBindingByTunnelStreamId_def)
qed

interpretation owner_node: stream_directory "openInteractiveStream (owner_node_router nodeId answer nowMs)"
  "findInteractiveStreamByClient (owner_node_router nodeId answer nowMs)"
  "findInteractiveStreamByTunnel (owner_node_router nodeId answer nowMs)"
  "closeInteractiveStream (owner_node_router nodeId answer nowMs)" "wf_owner_node nodeId"
  for nodeId answer nowMs
proof unfold_locales
  fix g i c r t q
  assume wf: "wf_owner_node nodeId g"
  then have reg: "wf_registry g"
    by (simp add: wf_owner_node_def)
  have kept: "wf_owner_node nodeId (snd (bindClientStream j kind d sid g))"
    "wf_owner_node nodeId (snd (unbindClientStream j d sid g))" for j kind d sid
    using wf wf_registry_ops [OF reg] by (simp_all add: wf_owner_node_def)
  show wf_open: "wf_owner_node nodeId (snd (openInteractiveStream (owner_node_router nodeId answer nowMs) i g))"
    using wf kept(1) [of "open_sandboxInstanceId i" "open_channelKind i" "open_clientSessionId i" "open_clientStreamId i"]
    by (auto simp: owner_node_open server_openInteractiveStream_def split: option.split sum.split prod.split)
  show wf_close: "wf_owner_node nodeId (snd (closeInteractiveStream (owner_node_router nodeId answer nowMs) c g))"
    using wf kept(2) [of "client_sandboxInstanceId c" "client_clientSessionId c" "client_clientStreamId c"]
    by (auto simp: owner_node_close server_closeInteractiveStream_def split: option.split prod.split)
  show "route_of t (findInteractiveStreamByClient (owner_node_router nodeId answer nowMs) (opened_client i)) = Some r"
    if opened: "openInteractiveStream (owner_node_router nodeId answer nowMs) i g = (Inr r, t)"
  proof -
    obtain u b where u: "getBootstrapTarget (open_sandboxInstanceId i) g = Some u"
      and bind: "bindClientStream (open_sandboxInstanceId i) (open_channelKind i) (open_clientSessionId i)
        (open_clientStreamId i) g = (Inr b, t)" and r: "r = \<lparr>bootstrapTarget = u, binding = b\<rparr>"
      using opened wf by (auto simp: owner_node_open server_openInteractiveStream_def
          requireBootstrapTarget_def split: option.splits sum.splits prod.splits if_splits)
    have "getBootstrapTarget (open_sandboxInstanceId i) t = Some u"
      using u registry_targets_kept(1) by (metis bind snd_conv)
    then show ?thesis
      using wf_open opened bind_finds [OF reg bind]
      by (simp add: route_of_find_client node_find_client_def opened_client_def r)
  qed
  show "clientSessionId (binding r) = client_clientSessionId c
      \<and> clientStreamId (binding r) = client_clientStreamId c"
    if "route_of g (findInteractiveStreamByClient (owner_node_router nodeId answer nowMs) c) = Some r"
    using that wf binding_both_ways [OF reg]
    by (auto simp: route_of_find_client node_find_client_def split: option.splits)
  show "route_of g (findInteractiveStreamByTunnel (owner_node_router nodeId answer nowMs)
      (route_tunnel (client_sandboxInstanceId c) r)) = Some r"
    if "route_of g (findInteractiveStreamByClient (owner_node_router nodeId answer nowMs) c) = Some r"
    using that wf binding_both_ways [OF reg]
    by (auto simp: route_of_find_client route_of_find_tunnel node_find_client_def node_find_tunnel_def
        route_tunnel_def split: option.splits)
  show "q = route_of g (findInteractiveStreamByClient (owner_node_router nodeId answer nowMs) c)
      \<and> route_of t (findInteractiveStreamByClient (owner_node_router nodeId answer nowMs) c) = None"
    if closed: "closeInteractiveStream (owner_node_router nodeId answer nowMs) c g = (Inr q, t)"
  proof -
    obtain u b where u: "getBootstrapTarget (client_sandboxInstanceId c) g = Some u"
      and unbind: "unbindClientStream (client_sandboxInstanceId c) (client_clientSessionId c)
        (client_clientStreamId c) g = (b, t)"
      and q: "q = map_option (\<lambda>b. \<lparr>bootstrapTarget = u, binding = b\<rparr>) b"
      using closed wf by (auto simp: owner_node_close server_closeInteractiveStream_def getMatching_owner
          split: option.splits prod.splits)
    have "getBootstrapTarget (client_sandboxInstanceId c) t = Some u"
      using u registry_targets_kept(2) by (metis unbind snd_conv)
    then show ?thesis
      using wf wf_close closed u unbind_finds [OF unbind]
      by (simp add: route_of_find_client node_find_client_def q)
  qed
qed

section \<open>Properties\<close>

text \<open>
  Every router method calls the forwarding client at most twice. It calls a second time only after
  the first call threw \<open>GatewayForwardingUnavailableError\<close>, and then on a different target, so an
  operation that may have taken effect on a reachable owner is never repeated there.
\<close>

theorem router_retries_once:
  fixes r :: "'s stream_router" and s :: 's
  defines "c \<equiv> router_client r" and "R \<equiv> logged_router r"
  shows "one_retry (\<lambda>t. client_openInteractiveStream c t open_inp)
      (snd (snd (openInteractiveStream R open_inp (s, []))))
    \<and> one_retry (\<lambda>t. client_findInteractiveStreamByClient c t client_inp)
      (snd (snd (findInteractiveStreamByClient R client_inp (s, []))))
    \<and> one_retry (\<lambda>t. client_findInteractiveStreamByTunnel c t tunnel_inp)
      (snd (snd (findInteractiveStreamByTunnel R tunnel_inp (s, []))))
    \<and> one_retry (\<lambda>t. client_closeInteractiveStream c t client_inp)
      (snd (snd (closeInteractiveStream R client_inp (s, []))))
    \<and> one_retry (\<lambda>t. client_releaseClientSessionStreams c t release_inp)
      (snd (snd (releaseClientSessionStreams R release_inp (s, []))))"
proof -
  have client: "router_client R = logged_client c"
    by (simp add: R_def c_def logged_router_def)
  show ?thesis
    unfolding openInteractiveStream_def findInteractiveStreamByClient_def
      findInteractiveStreamByTunnel_def closeInteractiveStream_def client
    unfolding logged_client_def forwarding_client.simps
    by (intro conjI releaseClientSessionStreams_logged [of r, folded R_def c_def]
        forwarded_logged [of _ _ r, folded R_def])
      (simp_all add: comp_return_def comp_throw_def)
qed

text \<open>
  C10: On the owner node a stream that was opened through the router is found under the tunnel stream
  id of its route, with that same route, and closing it returns the route and leaves the client stream
  unbound.
\<close>

theorem opened_stream_found_until_closed:
  assumes "wf_owner_node nodeId g"
    and "openInteractiveStream (owner_node_router nodeId answer nowMs) i g = (Inr r, t)"
    and "closeInteractiveStream (owner_node_router nodeId answer nowMs) (opened_client i) t = (Inr q, u)"
  shows "route_of t (findInteractiveStreamByTunnel (owner_node_router nodeId answer nowMs)
      (route_tunnel (open_sandboxInstanceId i) r)) = Some r
    \<and> q = Some r
    \<and> route_of u (findInteractiveStreamByClient (owner_node_router nodeId answer nowMs)
      (opened_client i)) = None"
  using owner_node.open_find_close [OF assms(1,2)] assms(3) by blast

definition sample_open :: open_stream_input where
  "sample_open = \<lparr>open_sandboxInstanceId = ''sbi'', open_clientSessionId = ''c'', open_clientStreamId = 7,
     open_channelKind = KindAgent\<rparr>"

definition sample_registry :: tunnel_session_registry where
  "sample_registry = snd (attachBootstrapSession sample_target (new_registry None))"

lemma wf_sample: "wf_owner_node ''node'' sample_registry"
  using wf_registry_ops(1) [OF wf_new_registry, of sample_target None]
  by (simp add: wf_owner_node_def sample_registry_def)
    (simp add: attachBootstrapSession_def on_adapter_def adapter_attachBootstrapSession_def Let_def
      getBootstrapTarget_def adapter_getBootstrapTarget_def new_registry_def sample_target_def
      put_session_def new_tunnel_session_def)

theorem opened_stream_found_until_closed_witness:
  "route_of (snd (closeInteractiveStream (owner_node_router ''node'' (\<lambda>_. True) 0)
       (opened_client sample_open)
       (snd (openInteractiveStream (owner_node_router ''node'' (\<lambda>_. True) 0) sample_open sample_registry))))
     (findInteractiveStreamByClient (owner_node_router ''node'' (\<lambda>_. True) 0) (opened_client sample_open))
   = None"
proof -
  let ?R = "owner_node_router ''node'' (\<lambda>_. True) 0"
  let ?o = "openInteractiveStream ?R sample_open sample_registry"
  let ?c = "closeInteractiveStream ?R (opened_client sample_open) (snd ?o)"
  have "isl (fst ?o) = False" and "isl (fst ?c) = False"
    by code_simp+
  then obtain r q where "?o = (Inr r, snd ?o)" and "?c = (Inr q, snd ?c)"
    by (metis isl_def old.sum.exhaust prod.collapse)
  from opened_stream_found_until_closed [OF wf_sample this] show ?thesis
    by blast
qed

end
