(* ===== verification/Translator.thy ===== *)
theory Translator
  imports Forwarding
begin

text \<open>
  \<open>TunnelProtocolTranslator\<close> of \<open>tunnel/protocol/tunnel-protocol-translator.ts\<close>: what the gateway does
  with one websocket message of a tunnel, from the client (connection) side or the sandbox
  (bootstrap) side. The interactive stream router is the one of theory Forwarding; the port-access
  services (\<open>publishing/\<close>) and the JSON codec are arguments, collected in \<open>translator_services\<close>.
\<close>

section \<open>Data\<close>

definition ReservedOperationStreamId :: int where "ReservedOperationStreamId = 4294967293"
definition DirectPtyStreamId :: int where "DirectPtyStreamId = 1"

datatype delivery =
    Drop
  | Forward relay_payload "string option" "string option"
  | Respond relay_payload
  | TelemetryOpenDelivery telemetry_control_message
  | TelemetryCloseDelivery telemetry_control_message
  | TelemetryData "byte list" int
  | TelemetryInvalidData int int
  | OperationOpenDelivery operation_control_message
  | OperationCloseDelivery operation_control_message
  | OperationData "byte list" int
  | OperationInvalidData int int
  | SigningRequestDelivery signing_control_message
  | EgressTokenRequestDelivery egress_token_message
  | PtyClientControl relay_payload string

record translation =
  delivery :: delivery
  keepaliveControlMessage :: "(int \<times> bool) option"
  runtimeReadyControlMessage :: "bool option"
  notifyBootstrapPeerOfReleasedStream :: "(client_stream_binding \<times> string) option"
  releaseInteractiveStream :: "(string \<times> int) option"

record inbound_message =
  in_clientSessionId :: string
  in_payload :: relay_payload
  in_sandboxInstanceId :: string
  in_sourcePeerSide :: relay_peer_side

datatype authorize_resolution = ForwardResolution ports_control_message string | LocalResolution

record 's translator_services =
  sv_router :: "'s stream_router"
  sv_forwardConnectionTargetAuthorize :: "string \<Rightarrow> string \<Rightarrow> ports_control_message \<Rightarrow> ('s, unit) gateway_comp"
  sv_resolveTargetAuthorizeResult ::
    "string \<Rightarrow> string \<Rightarrow> ports_control_message \<Rightarrow> ('s, authorize_resolution option) gateway_comp"
  sv_handleBootstrapTransportMessage ::
    "string \<Rightarrow> string \<Rightarrow> ports_transport_message \<Rightarrow> ('s, bool) gateway_comp"
  sv_resolveForwardedBootstrapTransportMessage ::
    "string \<Rightarrow> string \<Rightarrow> ports_transport_message \<Rightarrow> ('s, string option) gateway_comp"
  sv_handleBootstrapStreamWindow :: "string \<Rightarrow> string \<Rightarrow> int \<Rightarrow> int \<Rightarrow> ('s, bool) gateway_comp"
  sv_handleBootstrapDataFrame :: "string \<Rightarrow> string \<Rightarrow> byte list \<Rightarrow> ('s, bool) gateway_comp"
  sv_json :: json_codec

section \<open>Message fields\<close>

fun message_stream_id :: "stream_control_message \<Rightarrow> int" where
  "message_stream_id (StreamOpen sid _) = sid"
| "message_stream_id (StreamOpenOK sid) = sid"
| "message_stream_id (StreamOpenError sid _ _) = sid"
| "message_stream_id (StreamSignalMessage sid _) = sid"
| "message_stream_id (StreamEventMessage sid _) = sid"
| "message_stream_id (StreamClose sid) = sid"
| "message_stream_id (StreamComplete sid) = sid"
| "message_stream_id (StreamReset sid _ _) = sid"
| "message_stream_id (StreamWindow sid _) = sid"

fun with_stream_id :: "int \<Rightarrow> stream_control_message \<Rightarrow> stream_control_message" where
  "with_stream_id sid (StreamOpen _ channel) = StreamOpen sid channel"
| "with_stream_id sid (StreamOpenOK _) = StreamOpenOK sid"
| "with_stream_id sid (StreamOpenError _ code message) = StreamOpenError sid code message"
| "with_stream_id sid (StreamSignalMessage _ signal) = StreamSignalMessage sid signal"
| "with_stream_id sid (StreamEventMessage _ event) = StreamEventMessage sid event"
| "with_stream_id sid (StreamClose _) = StreamClose sid"
| "with_stream_id sid (StreamComplete _) = StreamComplete sid"
| "with_stream_id sid (StreamReset _ code message) = StreamReset sid code message"
| "with_stream_id sid (StreamWindow _ bytes) = StreamWindow sid bytes"

fun stream_type :: "stream_control_message \<Rightarrow> string" where
  "stream_type (StreamOpen _ _) = ''stream.open''"
| "stream_type (StreamOpenOK _) = ''stream.open.ok''"
| "stream_type (StreamOpenError _ _ _) = ''stream.open.error''"
| "stream_type (StreamSignalMessage _ _) = ''stream.signal''"
| "stream_type (StreamEventMessage _ _) = ''stream.event''"
| "stream_type (StreamClose _) = ''stream.close''"
| "stream_type (StreamComplete _) = ''stream.complete''"
| "stream_type (StreamReset _ _ _) = ''stream.reset''"
| "stream_type (StreamWindow _ _) = ''stream.window''"

fun telemetry_type :: "telemetry_control_message \<Rightarrow> string" where
  "telemetry_type (TelemetryOpen _ _ _) = ''telemetry.open''"
| "telemetry_type (TelemetryOpenOK _ _) = ''telemetry.open.ok''"
| "telemetry_type (TelemetryOpenError _ _ _) = ''telemetry.open.error''"
| "telemetry_type (TelemetryWindow _ _) = ''telemetry.window''"
| "telemetry_type (TelemetryClose _) = ''telemetry.close''"
| "telemetry_type (TelemetryReset _ _ _) = ''telemetry.reset''"

fun operation_type :: "operation_control_message \<Rightarrow> string" where
  "operation_type (OperationOpen _ _ _) = ''operation.open''"
| "operation_type (OperationOpenOK _ _) = ''operation.open.ok''"
| "operation_type (OperationOpenError _ _ _) = ''operation.open.error''"
| "operation_type (OperationWindow _ _) = ''operation.window''"
| "operation_type (OperationClose _) = ''operation.close''"
| "operation_type (OperationReset _ _ _) = ''operation.reset''"

fun ports_transport_type :: "ports_transport_message \<Rightarrow> string" where
  "ports_transport_type (PortsTcpOpen _ _ _) = ''ports.tcp.open''"
| "ports_transport_type (PortsTcpConnected _) = ''ports.tcp.connected''"
| "ports_transport_type (PortsTcpClose _ _) = ''ports.tcp.close''"
| "ports_transport_type (PortsTcpError _ _ _) = ''ports.tcp.error''"
| "ports_transport_type (PortsHttpOpen _ _ _ _ _ _ _) = ''ports.http.open''"
| "ports_transport_type (PortsHttpResponseStart _ _ _) = ''ports.http.response.start''"
| "ports_transport_type (PortsHttpBodyChunk _ _ _) = ''ports.http.body.chunk''"
| "ports_transport_type (PortsHttpBodyEnd _ _) = ''ports.http.body.end''"
| "ports_transport_type (PortsStreamClose _) = ''ports.stream.close''"
| "ports_transport_type (PortsStreamError _ _ _) = ''ports.stream.error''"

fun egress_token_type :: "egress_token_message \<Rightarrow> string" where
  "egress_token_type (EgressTokenRequest _ _) = ''egress.token.request''"
| "egress_token_type (EgressTokenResponse _ _ _ _) = ''egress.token.response''"
| "egress_token_type (EgressTokenError _ _ _) = ''egress.token.error''"

fun signing_type :: "signing_control_message \<Rightarrow> string" where
  "signing_type (SigningRequest _) = ''signing.request''"
| "signing_type (SigningSuccessResult _ _) = ''signing.result''"
| "signing_type (SigningFailureResult _ _ _) = ''signing.result''"

section \<open>Helpers\<close>

definition stringify_stream :: "json_codec \<Rightarrow> stream_control_message \<Rightarrow> string" where
  "stringify_stream json m = stringify json (StreamControl m)"

definition replaceStreamId :: "json_codec \<Rightarrow> stream_control_message \<Rightarrow> int \<Rightarrow> string" where
  "replaceStreamId json m sid = stringify_stream json (with_stream_id sid m)"

text \<open>\<open>parseAgentStreamOpen\<close> and its four siblings, by the channel kind they accept.\<close>

definition parseStreamOpen ::
  "stream_channel_kind \<Rightarrow> json_codec \<Rightarrow> string \<Rightarrow> stream_control_message option" where
  "parseStreamOpen kind json text =
     (case parseStreamControlMessage json text of
        Some (StreamOpen sid channel) \<Rightarrow>
          if channel_kind channel \<noteq> kind then None else Some (StreamOpen sid channel)
      | _ \<Rightarrow> None)"

definition shouldReleaseStreamOnConnectionClose :: "client_stream_binding \<Rightarrow> bool" where
  "shouldReleaseStreamOnConnectionClose b \<longleftrightarrow> channelKind b \<noteq> KindFileUpload"

definition shouldReleaseStreamOnBootstrapMessage :: "stream_control_message \<Rightarrow> bool" where
  "shouldReleaseStreamOnBootstrapMessage m =
     (case m of StreamOpenError _ _ _ \<Rightarrow> True | StreamReset _ _ _ \<Rightarrow> True | StreamComplete _ \<Rightarrow> True
      | _ \<Rightarrow> False)"

definition createStreamOpenErrorPayload :: "json_codec \<Rightarrow> string \<Rightarrow> string \<Rightarrow> int \<Rightarrow> string" where
  "createStreamOpenErrorPayload json code message sid =
     stringify_stream json (StreamOpenError sid code message)"

definition createStreamResetPayload :: "json_codec \<Rightarrow> string \<Rightarrow> string \<Rightarrow> int \<Rightarrow> string" where
  "createStreamResetPayload json code message sid = stringify_stream json (StreamReset sid code message)"

definition createUnboundInteractiveStreamResetPayload :: "json_codec \<Rightarrow> int \<Rightarrow> string" where
  "createUnboundInteractiveStreamResetPayload json sid = createStreamResetPayload json
     ''interactive_stream_not_found'' ''Interactive stream is not bound on this tunnel session.'' sid"

definition createInvalidStreamSignalResetPayload :: "json_codec \<Rightarrow> int \<Rightarrow> string" where
  "createInvalidStreamSignalResetPayload json sid = createStreamResetPayload json
     ''invalid_stream_signal'' ''Stream signal is not valid for the bound interactive stream.'' sid"

definition createInvalidStreamDataResetPayload ::
  "json_codec \<Rightarrow> stream_channel_kind \<Rightarrow> int \<Rightarrow> string" where
  "createInvalidStreamDataResetPayload json kind sid = createStreamResetPayload json ''invalid_stream_data''
     (if kind = KindFileUpload then ''File upload streams only accept raw-bytes data frames.''
      else if kind = KindProcesses then ''Processes streams only accept websocket text data frames.''
      else if kind = KindFileSearch then ''File search streams only accept websocket text data frames.''
      else ''Agent streams only accept websocket text or websocket binary data frames.'') sid"

definition toStreamOpenErrorPayload :: "json_codec \<Rightarrow> gateway_error \<Rightarrow> int \<Rightarrow> gateway_error + string" where
  "toStreamOpenErrorPayload json e sid =
     (case e of
        BootstrapTunnelNotConnectedError _ \<Rightarrow>
          Inr (createStreamOpenErrorPayload json ''bootstrap_not_connected'' (error_message e) sid)
      | GatewayForwardingUnavailableError _ _ \<Rightarrow>
          Inr (createStreamOpenErrorPayload json ''bootstrap_not_connected'' (error_message e) sid)
      | GatewayForwardingPortAccessAuthorizationError AuthorizationBootstrapNotConnected _ \<Rightarrow>
          Inr (createStreamOpenErrorPayload json ''bootstrap_not_connected'' (error_message e) sid)
      | TunnelSessionBindingLimitExceededError _ \<Rightarrow>
          Inr (createStreamOpenErrorPayload json ''max_active_streams_exceeded'' (error_message e) sid)
      | _ \<Rightarrow> Inl e)"

definition createUnsupportedTextPayloadErrorMessage :: "relay_peer_side \<Rightarrow> string" where
  "createUnsupportedTextPayloadErrorMessage side = (if side = ConnectionSide
     then ''Connection websocket text payloads must be valid stream control messages.''
     else ''Bootstrap websocket text payloads must be valid bootstrap control messages.'')"

definition createUnsupportedBinaryPayloadErrorMessage :: "relay_peer_side \<Rightarrow> string" where
  "createUnsupportedBinaryPayloadErrorMessage side = (if side = ConnectionSide
     then ''Connection websocket binary payloads must be valid tunnel data frames.''
     else ''Bootstrap websocket binary payloads must be valid tunnel data frames.'')"

definition createUnsupportedConnectionTelemetryMessageError :: "string \<Rightarrow> gateway_error" where
  "createUnsupportedConnectionTelemetryMessageError messageType = TunnelProtocolViolationError
     (''Connection websocket cannot send telemetry control message type '' @ in_quotes messageType @ ''.'')"

definition createUnsupportedConnectionSigningMessageError :: "string \<Rightarrow> gateway_error" where
  "createUnsupportedConnectionSigningMessageError messageType = TunnelProtocolViolationError
     (''Connection websocket cannot send signing control message type '' @ in_quotes messageType @ ''.'')"

definition isConnectionControlMessageAllowed :: "stream_control_message \<Rightarrow> bool" where
  "isConnectionControlMessageAllowed m =
     (case m of StreamOpen _ _ \<Rightarrow> True | StreamSignalMessage _ _ \<Rightarrow> True | StreamClose _ \<Rightarrow> True
      | StreamWindow _ _ \<Rightarrow> True | _ \<Rightarrow> False)"

definition isBootstrapStreamControlMessageAllowed :: "stream_control_message \<Rightarrow> bool" where
  "isBootstrapStreamControlMessageAllowed m =
     (case m of StreamOpenOK _ \<Rightarrow> True | StreamOpenError _ _ _ \<Rightarrow> True | StreamComplete _ \<Rightarrow> True
      | StreamEventMessage _ _ \<Rightarrow> True | StreamReset _ _ _ \<Rightarrow> True | StreamWindow _ _ \<Rightarrow> True
      | _ \<Rightarrow> False)"

definition assertConnectionControlMessageAllowed :: "stream_control_message \<Rightarrow> gateway_error + unit" where
  "assertConnectionControlMessageAllowed m =
     (if isConnectionControlMessageAllowed m then Inr ()
      else Inl (TunnelProtocolViolationError (''Connection websocket cannot send control message type ''
             @ in_quotes (stream_type m) @ ''.'')))"

definition isPayloadKindAllowedForChannel :: "stream_channel_kind \<Rightarrow> int \<Rightarrow> bool" where
  "isPayloadKindAllowedForChannel kind pkind =
     (if kind = KindFileUpload then pkind = PayloadKindRawBytes
      else if kind = KindProcesses \<or> kind = KindFileSearch then pkind = PayloadKindWebSocketText
      else pkind = PayloadKindWebSocketText \<or> pkind = PayloadKindWebSocketBinary)"

definition toReleaseInteractiveStream :: "client_stream_binding \<Rightarrow> string \<times> int" where
  "toReleaseInteractiveStream b = (clientSessionId b, clientStreamId b)"

definition just :: "delivery \<Rightarrow> translation" where
  "just d = \<lparr>delivery = d, keepaliveControlMessage = None, runtimeReadyControlMessage = None,
     notifyBootstrapPeerOfReleasedStream = None, releaseInteractiveStream = None\<rparr>"

definition respond :: "string \<Rightarrow> translation" where
  "respond text = just (Respond (Text text))"

definition throw_violation :: "string \<Rightarrow> ('s, 'a) gateway_comp" where
  "throw_violation message = comp_throw (TunnelProtocolViolationError message)"

fun ports_control_type :: "ports_control_message \<Rightarrow> string" where
  "ports_control_type (PortsTargetAuthorize _ _) = ''ports.target.authorize''"
| "ports_control_type (PortsTargetAuthorizeSuccess _ _ _) = ''ports.target.authorize.result''"
| "ports_control_type (PortsTargetAuthorizeFailure _ _) = ''ports.target.authorize.result''"

fun pty_session_type :: "pty_session_message \<Rightarrow> string" where
  "pty_session_type (PtySessionOpen _ _ _ _ _) = ''pty.session.open''"
| "pty_session_type (PtySessionOpened _ _) = ''pty.session.opened''"
| "pty_session_type (PtySessionError _ _ _ _) = ''pty.session.error''"

fun control_type :: "control_message \<Rightarrow> string" where
  "control_type (StreamControl m) = stream_type m"
| "control_type (TelemetryControl m) = telemetry_type m"
| "control_type (OperationControl m) = operation_type m"
| "control_type (PortsControl m) = ports_control_type m"
| "control_type (PortsTransport m) = ports_transport_type m"
| "control_type (EgressTokenControl m) = egress_token_type m"
| "control_type (PtySessionControl m) = pty_session_type m"
| "control_type (SigningControl m) = signing_type m"
| "control_type (SandboxKeepaliveState _ _) = ''keepalive.state''"
| "control_type (SandboxRuntimeReady _) = ''runtime.ready''"

definition assertBootstrapControlMessageAllowed :: "control_message \<Rightarrow> gateway_error + unit" where
  "assertBootstrapControlMessageAllowed m =
     (if (case m of SandboxKeepaliveState _ _ \<Rightarrow> True | SandboxRuntimeReady _ \<Rightarrow> True
        | StreamControl sm \<Rightarrow> isBootstrapStreamControlMessageAllowed sm
        | TelemetryControl tm \<Rightarrow> (case tm of TelemetryOpen _ _ _ \<Rightarrow> True | TelemetryClose _ \<Rightarrow> True | _ \<Rightarrow> False)
        | OperationControl om \<Rightarrow> (case om of OperationOpen _ _ _ \<Rightarrow> True | OperationClose _ \<Rightarrow> True | _ \<Rightarrow> False)
        | _ \<Rightarrow> False)
      then Inr ()
      else Inl (TunnelProtocolViolationError (''Bootstrap websocket cannot send control message type ''
             @ in_quotes (control_type m) @ ''.'')))"

section \<open>Connection messages\<close>

definition translateConnectionStreamOpen ::
  "'s translator_services \<Rightarrow> stream_channel_kind \<Rightarrow> string \<Rightarrow> stream_control_message \<Rightarrow> string
     \<Rightarrow> ('s, translation) gateway_comp" where
  "translateConnectionStreamOpen sv kind sessionId m sandboxId =
     comp_catch
       (comp_bind (openInteractiveStream (sv_router sv)
            \<lparr>open_sandboxInstanceId = sandboxId, open_clientSessionId = sessionId,
             open_clientStreamId = message_stream_id m, open_channelKind = kind\<rparr>)
          (\<lambda>route. comp_return (just (Forward
             (Text (replaceStreamId (sv_json sv) m (tunnelStreamId (binding route))))
             (Some (target_sessionId (bootstrapTarget route))) None))))
       (\<lambda>e. case toStreamOpenErrorPayload (sv_json sv) e (message_stream_id m) of
          Inl e' \<Rightarrow> comp_throw e'
        | Inr text \<Rightarrow> comp_return (respond text))"

text \<open>A stream control message that opens nothing: it needs a bound stream.\<close>

definition translateConnectionControl ::
  "'s translator_services \<Rightarrow> inbound_message \<Rightarrow> stream_control_message \<Rightarrow> ('s, translation) gateway_comp" where
  "translateConnectionControl sv inp m =
     (case assertConnectionControlMessageAllowed m of
        Inl e \<Rightarrow> comp_throw e
      | Inr _ \<Rightarrow>
          comp_bind (findInteractiveStreamByClient (sv_router sv)
              \<lparr>client_sandboxInstanceId = in_sandboxInstanceId inp,
               client_clientSessionId = in_clientSessionId inp,
               client_clientStreamId = message_stream_id m\<rparr>)
            (\<lambda>found. case found of
               None \<Rightarrow> comp_return
                 (respond (createUnboundInteractiveStreamResetPayload (sv_json sv) (message_stream_id m)))
             | Some route \<Rightarrow>
                 (case m of
                    StreamSignalMessage sid _ \<Rightarrow>
                      comp_return (respond (createInvalidStreamSignalResetPayload (sv_json sv) sid))
                  | _ \<Rightarrow> comp_return ((just (Forward
                        (Text (replaceStreamId (sv_json sv) m (tunnelStreamId (binding route))))
                        (Some (target_sessionId (bootstrapTarget route))) None))
                      \<lparr>releaseInteractiveStream :=
                         (case m of StreamClose _ \<Rightarrow>
                            if shouldReleaseStreamOnConnectionClose (binding route)
                            then Some (toReleaseInteractiveStream (binding route)) else None
                          | _ \<Rightarrow> None)\<rparr>))))"

text \<open>Texts other than a request to authorize a port, in the order they are tried.\<close>

definition translateConnectionControlText ::
  "'s translator_services \<Rightarrow> inbound_message \<Rightarrow> string \<Rightarrow> ('s, translation) gateway_comp" where
  "translateConnectionControlText sv inp text =
     (case parseTelemetryControlMessage (sv_json sv) text of
        Some m \<Rightarrow> comp_throw (createUnsupportedConnectionTelemetryMessageError (telemetry_type m))
      | None \<Rightarrow>
     (case parseOperationControlMessage (sv_json sv) text of
        Some m \<Rightarrow> throw_violation (''Connection websocket cannot send operation control message type ''
          @ in_quotes (operation_type m) @ ''.'')
      | None \<Rightarrow>
     (case parseSigningControlMessage (sv_json sv) text of
        Some m \<Rightarrow> comp_throw (createUnsupportedConnectionSigningMessageError (signing_type m))
      | None \<Rightarrow>
     (case parseStreamControlMessage (sv_json sv) text of
        None \<Rightarrow> throw_violation (createUnsupportedTextPayloadErrorMessage ConnectionSide)
      | Some m \<Rightarrow> translateConnectionControl sv inp m))))"

definition translateConnectionStreamText ::
  "'s translator_services \<Rightarrow> inbound_message \<Rightarrow> string \<Rightarrow> ('s, translation) gateway_comp" where
  "translateConnectionStreamText sv inp text =
     (let json = sv_json sv;
          opens = (\<lambda>kind m. translateConnectionStreamOpen sv kind (in_clientSessionId inp) m
            (in_sandboxInstanceId inp)) in
      (case parseStreamOpen KindAgent json text of Some m \<Rightarrow> opens KindAgent m | None \<Rightarrow>
      (case parseStreamOpen KindProcesses json text of Some m \<Rightarrow> opens KindProcesses m | None \<Rightarrow>
      (case parseStreamOpen KindFileUpload json text of Some m \<Rightarrow> opens KindFileUpload m | None \<Rightarrow>
      (case parseStreamOpen KindExec json text of Some m \<Rightarrow> opens KindExec m | None \<Rightarrow>
      (case parseStreamOpen KindFileSearch json text of Some m \<Rightarrow> opens KindFileSearch m | None \<Rightarrow>
       translateConnectionControlText sv inp text))))))"

definition translateConnectionTextPayload ::
  "'s translator_services \<Rightarrow> inbound_message \<Rightarrow> string \<Rightarrow> ('s, translation) gateway_comp" where
  "translateConnectionTextPayload sv inp text =
     (case parsePortsControlMessage (sv_json sv) text of
        Some (PortsTargetAuthorize requestId port) \<Rightarrow>
          comp_bind (sv_forwardConnectionTargetAuthorize sv (in_sandboxInstanceId inp)
              (in_clientSessionId inp) (PortsTargetAuthorize requestId port))
            (\<lambda>_. comp_return (just Drop))
      | _ \<Rightarrow> translateConnectionStreamText sv inp text)"

definition translateConnectionBinaryPayload ::
  "'s translator_services \<Rightarrow> inbound_message \<Rightarrow> byte list \<Rightarrow> ('s, translation) gateway_comp" where
  "translateConnectionBinaryPayload sv inp bytes =
     (case readDataFrameHeader bytes of
        None \<Rightarrow> throw_violation (createUnsupportedBinaryPayloadErrorMessage ConnectionSide)
      | Some header \<Rightarrow>
          comp_bind (findInteractiveStreamByClient (sv_router sv)
              \<lparr>client_sandboxInstanceId = in_sandboxInstanceId inp,
               client_clientSessionId = in_clientSessionId inp,
               client_clientStreamId = headerStreamId header\<rparr>)
            (\<lambda>found. case found of
               None \<Rightarrow> comp_return
                 (respond (createUnboundInteractiveStreamResetPayload (sv_json sv) (headerStreamId header)))
             | Some route \<Rightarrow>
                 if \<not> isPayloadKindAllowedForChannel (channelKind (binding route)) (headerPayloadKind header)
                 then comp_return ((respond (createInvalidStreamDataResetPayload (sv_json sv)
                          (channelKind (binding route)) (clientStreamId (binding route))))
                     \<lparr>notifyBootstrapPeerOfReleasedStream :=
                        Some (binding route, target_sessionId (bootstrapTarget route)),
                      releaseInteractiveStream := Some (toReleaseInteractiveStream (binding route))\<rparr>)
                 else (case rewriteStreamId bytes (tunnelStreamId (binding route)) of
                     None \<Rightarrow> comp_return
                       (respond (createUnboundInteractiveStreamResetPayload (sv_json sv) (headerStreamId header)))
                   | Some translated \<Rightarrow> comp_return (just (Forward (Binary translated)
                       (Some (target_sessionId (bootstrapTarget route))) None)))))"

section \<open>Bootstrap messages\<close>

definition translateBootstrapStreamControl ::
  "'s translator_services \<Rightarrow> inbound_message \<Rightarrow> stream_control_message \<Rightarrow> ('s, translation) gateway_comp" where
  "translateBootstrapStreamControl sv inp m =
     comp_bind (case m of
          StreamWindow sid bytes \<Rightarrow> sv_handleBootstrapStreamWindow sv (in_sandboxInstanceId inp)
            (in_clientSessionId inp) sid bytes
        | _ \<Rightarrow> comp_return False)
       (\<lambda>handled. if handled then comp_return (just Drop) else
          comp_bind (findInteractiveStreamByTunnel (sv_router sv)
              \<lparr>tunnel_sandboxInstanceId = in_sandboxInstanceId inp,
               tunnel_tunnelStreamId = message_stream_id m\<rparr>)
            (\<lambda>found. case found of
               None \<Rightarrow> comp_return (just Drop)
             | Some route \<Rightarrow> comp_return ((just (Forward
                   (Text (replaceStreamId (sv_json sv) m (clientStreamId (binding route))))
                   None (Some (clientSessionId (binding route)))))
                 \<lparr>releaseInteractiveStream := (if shouldReleaseStreamOnBootstrapMessage m
                    then Some (toReleaseInteractiveStream (binding route)) else None)\<rparr>)))"

definition translateBootstrapControl ::
  "'s translator_services \<Rightarrow> inbound_message \<Rightarrow> control_message \<Rightarrow> ('s, translation) gateway_comp" where
  "translateBootstrapControl sv inp m =
     (case assertBootstrapControlMessageAllowed m of
        Inl e \<Rightarrow> comp_throw e
      | Inr _ \<Rightarrow>
          (case m of
             SandboxKeepaliveState ttlMs active \<Rightarrow>
               comp_return ((just Drop)\<lparr>keepaliveControlMessage := Some (ttlMs, active)\<rparr>)
           | SandboxRuntimeReady ready \<Rightarrow>
               comp_return ((just Drop)\<lparr>runtimeReadyControlMessage := Some ready\<rparr>)
           | TelemetryControl tm \<Rightarrow> comp_return (just (case tm of
               TelemetryOpen _ _ _ \<Rightarrow> TelemetryOpenDelivery tm | _ \<Rightarrow> TelemetryCloseDelivery tm))
           | OperationControl om \<Rightarrow> comp_return (just (case om of
               OperationOpen _ _ _ \<Rightarrow> OperationOpenDelivery om | _ \<Rightarrow> OperationCloseDelivery om))
           | StreamControl sm \<Rightarrow> translateBootstrapStreamControl sv inp sm
           | _ \<Rightarrow> comp_return (just Drop)))"

definition is_forwarded_transport :: "ports_transport_message \<Rightarrow> bool" where
  "is_forwarded_transport m =
     (case m of PortsHttpResponseStart _ _ _ \<Rightarrow> True | PortsHttpBodyChunk _ _ _ \<Rightarrow> True
      | PortsHttpBodyEnd _ _ \<Rightarrow> True | PortsTcpConnected _ \<Rightarrow> True | PortsTcpClose _ _ \<Rightarrow> True
      | PortsTcpError _ _ _ \<Rightarrow> True | PortsStreamError _ _ _ \<Rightarrow> True | _ \<Rightarrow> False)"

definition translateBootstrapTransport ::
  "'s translator_services \<Rightarrow> inbound_message \<Rightarrow> string \<Rightarrow> ports_transport_message
     \<Rightarrow> ('s, translation) gateway_comp" where
  "translateBootstrapTransport sv inp text m =
     (if is_forwarded_transport m
      then comp_bind (sv_handleBootstrapTransportMessage sv (in_sandboxInstanceId inp) (in_clientSessionId inp) m)
        (\<lambda>handled. if handled then comp_return (just Drop)
          else comp_bind (sv_resolveForwardedBootstrapTransportMessage sv (in_sandboxInstanceId inp)
              (in_clientSessionId inp) m)
            (\<lambda>connection. case connection of
               Some c \<Rightarrow> comp_return (just (Forward (Text text) None (Some c)))
             | None \<Rightarrow> comp_return (just Drop)))
      else throw_violation (''Bootstrap websocket cannot send ports transport message type ''
        @ in_quotes (ports_transport_type m) @ ''.''))"

text \<open>Texts other than the result of a port authorization, in the order they are tried.\<close>

definition translateBootstrapControlText ::
  "'s translator_services \<Rightarrow> inbound_message \<Rightarrow> string \<Rightarrow> ('s, translation) gateway_comp" where
  "translateBootstrapControlText sv inp text =
     (case parsePortsTransportMessage (sv_json sv) text of
        Some m \<Rightarrow> translateBootstrapTransport sv inp text m
      | None \<Rightarrow>
     (case parseEgressTokenControlMessage (sv_json sv) text of
        Some m \<Rightarrow> (case m of
            EgressTokenRequest _ _ \<Rightarrow> comp_return (just (EgressTokenRequestDelivery m))
          | _ \<Rightarrow> throw_violation (''Bootstrap websocket cannot send egress token control message type ''
              @ in_quotes (egress_token_type m) @ ''.''))
      | None \<Rightarrow>
     (case parseSigningControlMessage (sv_json sv) text of
        Some m \<Rightarrow> (case m of
            SigningRequest _ \<Rightarrow> comp_return (just (SigningRequestDelivery m))
          | _ \<Rightarrow> throw_violation (''Bootstrap websocket cannot send signing control message type ''
              @ in_quotes (signing_type m) @ ''.''))
      | None \<Rightarrow>
     (case parsePtySessionControlMessage (sv_json sv) text of
        Some m \<Rightarrow> (case m of
            PtySessionOpen _ _ _ _ _ \<Rightarrow>
              throw_violation ''Bootstrap websocket cannot send pty.session.open control messages.''
          | PtySessionOpened _ _ \<Rightarrow> comp_return (just Drop)
          | PtySessionError _ ptySessionId code message \<Rightarrow> comp_return (just (PtyClientControl
              (Text (createStreamResetPayload (sv_json sv) code message DirectPtyStreamId)) ptySessionId)))
      | None \<Rightarrow>
     (case parseBootstrapControlMessage (sv_json sv) text of
        None \<Rightarrow> throw_violation (createUnsupportedTextPayloadErrorMessage BootstrapSide)
      | Some m \<Rightarrow> translateBootstrapControl sv inp m)))))"

definition resolveAuthorizeResult ::
  "'s translator_services \<Rightarrow> inbound_message \<Rightarrow> ports_control_message \<Rightarrow> ('s, translation) gateway_comp" where
  "resolveAuthorizeResult sv inp result =
     comp_bind (sv_resolveTargetAuthorizeResult sv (in_sandboxInstanceId inp) (in_clientSessionId inp) result)
       (\<lambda>resolution. case resolution of
          Some (ForwardResolution forwarded connection) \<Rightarrow> comp_return (just (Forward
            (Text (stringify (sv_json sv) (PortsControl forwarded))) None (Some connection)))
        | _ \<Rightarrow> comp_return (just Drop))"

definition translateBootstrapTextPayload ::
  "'s translator_services \<Rightarrow> inbound_message \<Rightarrow> string \<Rightarrow> ('s, translation) gateway_comp" where
  "translateBootstrapTextPayload sv inp text =
     (case parsePortsControlMessage (sv_json sv) text of
        Some (PortsTargetAuthorizeSuccess requestId protocol ws) \<Rightarrow>
          resolveAuthorizeResult sv inp (PortsTargetAuthorizeSuccess requestId protocol ws)
      | Some (PortsTargetAuthorizeFailure requestId why) \<Rightarrow>
          resolveAuthorizeResult sv inp (PortsTargetAuthorizeFailure requestId why)
      | _ \<Rightarrow> translateBootstrapControlText sv inp text)"

definition translateBootstrapBinaryPayload ::
  "'s translator_services \<Rightarrow> inbound_message \<Rightarrow> byte list \<Rightarrow> ('s, translation) gateway_comp" where
  "translateBootstrapBinaryPayload sv inp bytes =
     (case readDataFrameHeader bytes of
        None \<Rightarrow> throw_violation (createUnsupportedBinaryPayloadErrorMessage BootstrapSide)
      | Some header \<Rightarrow>
          comp_bind (sv_handleBootstrapDataFrame sv (in_sandboxInstanceId inp) (in_clientSessionId inp) bytes)
            (\<lambda>handled. if handled then comp_return (just Drop) else
               comp_bind (findInteractiveStreamByTunnel (sv_router sv)
                   \<lparr>tunnel_sandboxInstanceId = in_sandboxInstanceId inp,
                    tunnel_tunnelStreamId = headerStreamId header\<rparr>)
                 (\<lambda>found. case found of
                    None \<Rightarrow> comp_return (just
                      (let sid = headerStreamId header; pkind = headerPayloadKind header in
                       if pkind \<noteq> PayloadKindRawBytes
                       then if sid = ReservedOperationStreamId then OperationInvalidData pkind sid
                            else TelemetryInvalidData pkind sid
                       else if sid = ReservedOperationStreamId then OperationData bytes sid
                       else TelemetryData bytes sid))
                  | Some route \<Rightarrow>
                      if \<not> isPayloadKindAllowedForChannel (channelKind (binding route)) (headerPayloadKind header)
                      then comp_return ((just (Forward (Text (createInvalidStreamDataResetPayload (sv_json sv)
                               (channelKind (binding route)) (clientStreamId (binding route))))
                             None (Some (clientSessionId (binding route)))))
                          \<lparr>notifyBootstrapPeerOfReleasedStream :=
                             Some (binding route, target_sessionId (bootstrapTarget route)),
                           releaseInteractiveStream := Some (toReleaseInteractiveStream (binding route))\<rparr>)
                      else (case rewriteStreamId bytes (clientStreamId (binding route)) of
                          None \<Rightarrow> comp_return (respond
                            (createUnboundInteractiveStreamResetPayload (sv_json sv) (headerStreamId header)))
                        | Some translated \<Rightarrow> comp_return (just (Forward (Binary translated) None
                            (Some (clientSessionId (binding route)))))))))"

definition translateInboundMessage ::
  "'s translator_services \<Rightarrow> inbound_message \<Rightarrow> ('s, translation) gateway_comp" where
  "translateInboundMessage sv inp =
     (case in_payload inp of
        Text text \<Rightarrow> if in_sourcePeerSide inp = ConnectionSide
          then translateConnectionTextPayload sv inp text else translateBootstrapTextPayload sv inp text
      | Binary bytes \<Rightarrow> if in_sourcePeerSide inp = ConnectionSide
          then translateConnectionBinaryPayload sv inp bytes else translateBootstrapBinaryPayload sv inp bytes)"

definition createStreamClosePayload :: "json_codec \<Rightarrow> client_stream_binding \<Rightarrow> string" where
  "createStreamClosePayload json b = stringify_stream json (StreamClose (tunnelStreamId b))"

definition createReleasedInteractiveStreamResetPayload :: "json_codec \<Rightarrow> client_stream_binding \<Rightarrow> string" where
  "createReleasedInteractiveStreamResetPayload json b = createStreamResetPayload json ''bootstrap_reconnected''
     ''Sandbox bootstrap tunnel reconnected and invalidated the active interactive stream.''
     (clientStreamId b)"

definition createBootstrapDisconnectedStreamResetPayload :: "json_codec \<Rightarrow> client_stream_binding \<Rightarrow> string" where
  "createBootstrapDisconnectedStreamResetPayload json b = createStreamResetPayload json
     ''bootstrap_disconnected''
     ''Sandbox bootstrap tunnel disconnected and invalidated the active interactive stream.''
     (clientStreamId b)"

section \<open>The translator on the owner node\<close>

lemma owner_find_client:
  assumes "wf_owner_node nodeId g"
  shows "findInteractiveStreamByClient (owner_node_router nodeId answer nowMs) c g =
    (if getBootstrapTarget (client_sandboxInstanceId c) g = None
     then Inl (BootstrapTunnelNotConnectedError (client_sandboxInstanceId c))
     else Inr (node_find_client c g), g)"
  using assms by (auto simp: owner_node_find_client server_findInteractiveStreamByClient_def
      node_find_client_def getMatching_owner split: option.split)

lemma owner_find_tunnel:
  assumes "wf_owner_node nodeId g"
  shows "findInteractiveStreamByTunnel (owner_node_router nodeId answer nowMs) c g =
    (if getBootstrapTarget (tunnel_sandboxInstanceId c) g = None
     then Inl (BootstrapTunnelNotConnectedError (tunnel_sandboxInstanceId c))
     else Inr (node_find_tunnel c g), g)"
  using assms by (auto simp: owner_node_find_tunnel server_findInteractiveStreamByTunnel_def
      node_find_tunnel_def getMatching_owner split: option.split)

lemma node_find_clientD:
  assumes "node_find_client c g = Some route"
  shows "getBootstrapTarget (client_sandboxInstanceId c) g = Some (bootstrapTarget route)"
    and "getBindingByClientStream (client_sandboxInstanceId c) (client_clientSessionId c)
      (client_clientStreamId c) g = Some (binding route)"
  using assms by (auto simp: node_find_client_def split: option.splits)

text \<open>What the delivery of a connection message may be, and whose stream it may release.\<close>

definition connection_translation :: "string \<Rightarrow> relay_target option \<Rightarrow> translation \<Rightarrow> bool" where
  "connection_translation sessionId target tr \<longleftrightarrow>
     (case delivery tr of
        Drop \<Rightarrow> True
      | Respond _ \<Rightarrow> True
      | Forward _ toBootstrap toConnection \<Rightarrow>
          toConnection = None \<and> toBootstrap = map_option target_sessionId target \<and> target \<noteq> None
      | _ \<Rightarrow> False)
     \<and> keepaliveControlMessage tr = None \<and> runtimeReadyControlMessage tr = None
     \<and> (case releaseInteractiveStream tr of None \<Rightarrow> True | Some (c, _) \<Rightarrow> c = sessionId)"

lemma connection_translation_just [simp]:
  "connection_translation c t (just d) \<longleftrightarrow>
     (case d of Drop \<Rightarrow> True | Respond _ \<Rightarrow> True
      | Forward _ toBootstrap toConnection \<Rightarrow>
          toConnection = None \<and> toBootstrap = map_option target_sessionId t \<and> t \<noteq> None
      | _ \<Rightarrow> False)"
  by (simp add: connection_translation_def just_def)

lemma connection_translation_respond [simp]: "connection_translation c t (respond text)"
  by (simp add: respond_def)

lemma stream_open_isolated:
  assumes wf: "wf_owner_node nodeId g" and router: "sv_router sv = owner_node_router nodeId answer nowMs"
    and run: "translateConnectionStreamOpen sv kind c m sandboxId g = (Inr tr, h)"
  shows "connection_translation c (getBootstrapTarget sandboxId h) tr"
proof -
  let ?inp = "\<lparr>open_sandboxInstanceId = sandboxId, open_clientSessionId = c,
    open_clientStreamId = message_stream_id m, open_channelKind = kind\<rparr>"
  obtain res u where opened: "openInteractiveStream (sv_router sv) ?inp g = (res, u)"
    by fastforce
  show ?thesis
  proof (cases res)
    case (Inl e)
    with opened run show ?thesis
      by (auto simp: translateConnectionStreamOpen_def comp_catch_def comp_bind_def comp_throw_def
          comp_return_def split: sum.splits)
  next
    case (Inr route)
    have u: "u = h" and tr: "tr = just (Forward
        (Text (replaceStreamId (sv_json sv) m (tunnelStreamId (binding route))))
        (Some (target_sessionId (bootstrapTarget route))) None)"
      using opened run Inr by (simp_all add: translateConnectionStreamOpen_def comp_catch_def
          comp_bind_def comp_return_def)
    have "wf_owner_node nodeId u"
      using owner_node.inv_open [OF wf, of answer nowMs ?inp] opened router by simp
    moreover have "route_of u (findInteractiveStreamByClient (owner_node_router nodeId answer nowMs)
        (opened_client ?inp)) = Some route"
      using opened Inr router by (intro owner_node.find_open [OF wf]) simp
    ultimately have "node_find_client (opened_client ?inp) h = Some route"
      by (simp add: route_of_find_client u)
    from node_find_clientD(1) [OF this] show ?thesis
      by (simp add: tr opened_client_def)
  qed
qed

lemma connection_control_isolated:
  assumes wf: "wf_owner_node nodeId g" and router: "sv_router sv = owner_node_router nodeId answer nowMs"
    and run: "translateConnectionControl sv inp m g = (Inr tr, h)"
  shows "connection_translation (in_clientSessionId inp) (getBootstrapTarget (in_sandboxInstanceId inp) h) tr"
proof -
  let ?c = "\<lparr>client_sandboxInstanceId = in_sandboxInstanceId inp,
    client_clientSessionId = in_clientSessionId inp, client_clientStreamId = message_stream_id m\<rparr>"
  have found: "assertConnectionControlMessageAllowed m = Inr ()" and h: "h = g"
    using run by (auto simp: translateConnectionControl_def comp_bind_def router owner_find_client [OF wf]
        comp_throw_def comp_return_def split: sum.splits if_splits option.splits
        stream_control_message.splits)
  show ?thesis
  proof (cases "node_find_client ?c g")
    case None
    with run show ?thesis
      by (auto simp: translateConnectionControl_def comp_bind_def router owner_find_client [OF wf]
          comp_return_def found split: if_splits)
  next
    case (Some route)
    note route = node_find_clientD [OF Some]
    have reg: "wf_registry g"
      using wf by (simp add: wf_owner_node_def)
    have "clientSessionId (binding route) = in_clientSessionId inp"
      using binding_both_ways [OF reg route(2)] by simp
    with Some route(1) run found show ?thesis
      by (cases m) (auto simp: translateConnectionControl_def comp_bind_def router
          owner_find_client [OF wf] comp_return_def h connection_translation_def just_def
          respond_def toReleaseInteractiveStream_def split: if_splits)
  qed
qed

lemma connection_binary_isolated:
  assumes wf: "wf_owner_node nodeId g" and router: "sv_router sv = owner_node_router nodeId answer nowMs"
    and run: "translateConnectionBinaryPayload sv inp bytes g = (Inr tr, h)"
  shows "connection_translation (in_clientSessionId inp) (getBootstrapTarget (in_sandboxInstanceId inp) h) tr"
proof -
  obtain header where header: "readDataFrameHeader bytes = Some header"
    using run by (cases "readDataFrameHeader bytes")
      (simp_all add: translateConnectionBinaryPayload_def throw_violation_def comp_throw_def)
  let ?c = "\<lparr>client_sandboxInstanceId = in_sandboxInstanceId inp,
    client_clientSessionId = in_clientSessionId inp, client_clientStreamId = headerStreamId header\<rparr>"
  show ?thesis
  proof (cases "node_find_client ?c g")
    case None
    with run show ?thesis
      by (auto simp: translateConnectionBinaryPayload_def header comp_bind_def router
          owner_find_client [OF wf] comp_return_def split: if_splits)
  next
    case (Some route)
    note route = node_find_clientD [OF Some]
    have reg: "wf_registry g"
      using wf by (simp add: wf_owner_node_def)
    have "clientSessionId (binding route) = in_clientSessionId inp"
      using binding_both_ways [OF reg route(2)] by simp
    with Some route(1) run show ?thesis
      by (auto simp: translateConnectionBinaryPayload_def header comp_bind_def router
          owner_find_client [OF wf] comp_return_def connection_translation_def just_def
          respond_def toReleaseInteractiveStream_def split: if_splits option.splits)
  qed
qed

lemma connection_text_isolated:
  assumes wf: "wf_owner_node nodeId g" and router: "sv_router sv = owner_node_router nodeId answer nowMs"
    and run: "translateConnectionTextPayload sv inp text g = (Inr tr, h)"
  shows "connection_translation (in_clientSessionId inp) (getBootstrapTarget (in_sandboxInstanceId inp) h) tr"
proof -
  note opened = stream_open_isolated [OF wf router]
  have control: "connection_translation (in_clientSessionId inp)
      (getBootstrapTarget (in_sandboxInstanceId inp) h) tr"
    if "translateConnectionControlText sv inp text g = (Inr tr, h)"
    using that connection_control_isolated [OF wf router]
    by (auto simp: translateConnectionControlText_def throw_violation_def comp_throw_def
        split: option.splits)
  have stream: "connection_translation (in_clientSessionId inp)
      (getBootstrapTarget (in_sandboxInstanceId inp) h) tr"
    if "translateConnectionStreamText sv inp text g = (Inr tr, h)"
    using that opened control by (auto simp: translateConnectionStreamText_def Let_def split: option.splits)
  show ?thesis
    using run stream by (auto simp: translateConnectionTextPayload_def comp_bind_def comp_return_def
        split: option.splits ports_control_message.splits prod.splits sum.splits)
qed

section \<open>Properties\<close>

text \<open>
  C9: On the owner node a message from a client websocket can only be dropped, answered to its sender,
  or forwarded to the sandbox's current bootstrap session; it never reaches another client, reports no
  keepalive or readiness, and releases no stream of another client session.
\<close>

theorem connection_isolation:
  assumes "wf_owner_node nodeId g" and "sv_router sv = owner_node_router nodeId answer nowMs"
    and "in_sourcePeerSide inp = ConnectionSide"
    and "translateInboundMessage sv inp g = (Inr tr, h)"
  shows "connection_translation (in_clientSessionId inp)
    (getBootstrapTarget (in_sandboxInstanceId inp) h) tr"
  using assms(3,4) connection_text_isolated [OF assms(1,2)] connection_binary_isolated [OF assms(1,2)]
  by (cases "in_payload inp") (auto simp: translateInboundMessage_def)

text \<open>
  Data frames of a bound stream are relayed unchanged but for the stream id, in both directions: the
  client's frame for its own stream id goes to the bootstrap session under the tunnel stream id, and
  the sandbox's frame under the tunnel stream id goes to that client under the client's stream id, with
  the same payload kind and bytes.
\<close>

theorem data_relay:
  assumes "wf_owner_node nodeId g" and "sv_router sv = owner_node_router nodeId answer nowMs"
    and "route_of g (findInteractiveStreamByClient (sv_router sv) \<lparr>client_sandboxInstanceId = i,
      client_clientSessionId = c, client_clientStreamId = sid\<rparr>) = Some route"
    and "isPayloadKindAllowedForChannel (channelKind (binding route)) kind"
    and "encodeDataFrame sid kind data = Inr client_frame"
    and "encodeDataFrame (tunnelStreamId (binding route)) kind data = Inr tunnel_frame"
    and "sv_handleBootstrapDataFrame sv i bootstrapId tunnel_frame g = (Inr False, g)"
  shows "translateInboundMessage sv \<lparr>in_clientSessionId = c, in_payload = Binary client_frame,
        in_sandboxInstanceId = i, in_sourcePeerSide = ConnectionSide\<rparr> g
      = (Inr (just (Forward (Binary tunnel_frame) (Some (target_sessionId (bootstrapTarget route))) None)), g)
    \<and> translateInboundMessage sv \<lparr>in_clientSessionId = bootstrapId, in_payload = Binary tunnel_frame,
        in_sandboxInstanceId = i, in_sourcePeerSide = BootstrapSide\<rparr> g
      = (Inr (just (Forward (Binary client_frame) None (Some c))), g)"
proof -
  let ?c = "\<lparr>client_sandboxInstanceId = i, client_clientSessionId = c, client_clientStreamId = sid\<rparr>"
  have reg: "wf_registry g"
    using assms(1) by (simp add: wf_owner_node_def)
  have found: "node_find_client ?c g = Some route"
    using assms(1-3) by (simp add: route_of_find_client)
  note route = node_find_clientD [OF found, simplified]
  have both: "clientSessionId (binding route) = c" "clientStreamId (binding route) = sid"
    "node_find_tunnel \<lparr>tunnel_sandboxInstanceId = i,
      tunnel_tunnelStreamId = tunnelStreamId (binding route)\<rparr> g = Some route"
    using binding_both_ways [OF reg route(2)] route(1) by (simp_all add: node_find_tunnel_def)
  show ?thesis
    using assms(4,7) found both route(1)
    by (simp add: translateInboundMessage_def translateConnectionBinaryPayload_def
        translateBootstrapBinaryPayload_def comp_bind_def comp_return_def assms(2)
        owner_find_client [OF assms(1)] owner_find_tunnel [OF assms(1)] encoded_header [OF assms(5)]
        encoded_header [OF assms(6)] rewrite_encoded [OF assms(5,6)] rewrite_encoded [OF assms(6,5)])
qed

text \<open>A codec that knows two texts, port services that handle nothing.\<close>

definition sample_json :: json_codec where
  "sample_json = \<lparr>read_message = (\<lambda>text. if text = ''open'' then Some (StreamControl (StreamOpen 7 AgentStreamChannel))
       else if text = ''reset'' then Some (StreamControl (StreamReset 1 ''c'' ''m''))
       else if text = ''close'' then Some (StreamControl (StreamClose 7)) else None),
     stringify = (\<lambda>m. ''json''), is_url = (\<lambda>_. True)\<rparr>"

definition sample_services :: "tunnel_session_registry translator_services" where
  "sample_services = \<lparr>sv_router = owner_node_router ''node'' (\<lambda>_. True) 0,
     sv_forwardConnectionTargetAuthorize = (\<lambda>_ _ _. comp_return ()),
     sv_resolveTargetAuthorizeResult = (\<lambda>_ _ _. comp_return None),
     sv_handleBootstrapTransportMessage = (\<lambda>_ _ _. comp_return False),
     sv_resolveForwardedBootstrapTransportMessage = (\<lambda>_ _ _. comp_return None),
     sv_handleBootstrapStreamWindow = (\<lambda>_ _ _ _. comp_return False),
     sv_handleBootstrapDataFrame = (\<lambda>_ _ _. comp_return False), sv_json = sample_json\<rparr>"

definition opened_registry :: tunnel_session_registry where
  "opened_registry = snd (openInteractiveStream (owner_node_router ''node'' (\<lambda>_. True) 0)
     sample_open sample_registry)"

lemma wf_opened: "wf_owner_node ''node'' opened_registry"
  unfolding opened_registry_def by (rule owner_node.inv_open [OF wf_sample])

definition sample_inbound :: "relay_peer_side \<Rightarrow> string \<Rightarrow> relay_payload \<Rightarrow> inbound_message" where
  "sample_inbound side sessionId p = \<lparr>in_clientSessionId = sessionId, in_payload = p,
     in_sandboxInstanceId = ''sbi'', in_sourcePeerSide = side\<rparr>"

definition sample_route :: interactive_stream_route where
  "sample_route = \<lparr>bootstrapTarget = sample_target, binding = \<lparr>channelKind = KindAgent,
     clientSessionId = ''c'', clientStreamId = 7, tunnelStreamId = 1\<rparr>\<rparr>"

lemma sample_route_found:
  "route_of opened_registry (findInteractiveStreamByClient (sv_router sample_services)
     \<lparr>client_sandboxInstanceId = ''sbi'', client_clientSessionId = ''c'', client_clientStreamId = 7\<rparr>)
   = Some sample_route"
  by code_simp

theorem connection_isolation_witness:
  "\<exists>tr h. translateInboundMessage sample_services (sample_inbound ConnectionSide ''c'' (Text ''open''))
       sample_registry = (Inr tr, h)
     \<and> connection_translation ''c'' (getBootstrapTarget ''sbi'' h) tr"
proof -
  let ?run = "translateInboundMessage sample_services (sample_inbound ConnectionSide ''c'' (Text ''open''))
    sample_registry"
  have "\<not> isl (fst ?run)"
    by code_simp
  then obtain tr where run: "?run = (Inr tr, snd ?run)"
    by (metis isl_def old.sum.exhaust prod.collapse)
  have "connection_translation (in_clientSessionId (sample_inbound ConnectionSide ''c'' (Text ''open'')))
      (getBootstrapTarget (in_sandboxInstanceId (sample_inbound ConnectionSide ''c'' (Text ''open'')))
        (snd ?run)) tr"
    by (rule connection_isolation [OF wf_sample _ _ run, of "\<lambda>_. True" 0])
      (simp_all add: sample_services_def sample_inbound_def)
  with run show ?thesis
    by (auto simp: sample_inbound_def)
qed

theorem data_relay_witness:
  "translateInboundMessage sample_services (sample_inbound ConnectionSide ''c''
       (Binary [1, 0, 0, 0, 7, 2, 104, 105])) opened_registry
     = (Inr (just (Forward (Binary [1, 0, 0, 0, 1, 2, 104, 105]) (Some ''bootstrap'') None)), opened_registry)"
proof -
  have kind: "isPayloadKindAllowedForChannel (channelKind (binding sample_route)) 2"
    and client: "encodeDataFrame 7 2 [104, 105] = Inr [1, 0, 0, 0, 7, 2, 104, 105]"
    and tunnel: "encodeDataFrame (tunnelStreamId (binding sample_route)) 2 [104, 105]
      = Inr [1, 0, 0, 0, 1, 2, 104, 105]"
    by code_simp+
  have "sv_handleBootstrapDataFrame sample_services ''sbi'' b bytes g = (Inr False, g)" for b bytes g
    by (simp add: sample_services_def comp_return_def)
  from data_relay [OF wf_opened _ sample_route_found kind client tunnel this, of "\<lambda>_. True" 0]
  show ?thesis
    by (simp add: sample_inbound_def sample_route_def sample_target_def sample_services_def)
qed

text \<open>
  A stream control message from the sandbox about a bound stream goes to the client that opened it,
  under the client's stream id, and releases the stream exactly if it is an open error, a reset or a
  completion.
\<close>

theorem bootstrap_control_relay:
  assumes "wf_owner_node nodeId g" and "sv_router sv = owner_node_router nodeId answer nowMs"
    and "route_of g (findInteractiveStreamByClient (sv_router sv) \<lparr>client_sandboxInstanceId = i,
      client_clientSessionId = c, client_clientStreamId = sid\<rparr>) = Some route"
    and "parse_message (sv_json sv) text = Some (StreamControl m)"
    and "is_bootstrap_control (StreamControl m)"
    and "message_stream_id m = tunnelStreamId (binding route)"
    and "\<And>n. sv_handleBootstrapStreamWindow sv i bootstrapId (message_stream_id m) n g = (Inr False, g)"
  shows "translateInboundMessage sv \<lparr>in_clientSessionId = bootstrapId, in_payload = Text text,
      in_sandboxInstanceId = i, in_sourcePeerSide = BootstrapSide\<rparr> g
    = (Inr ((just (Forward (Text (stringify (sv_json sv) (StreamControl (with_stream_id sid m)))) None (Some c)))
        \<lparr>releaseInteractiveStream := (case m of StreamOpenError _ _ _ \<Rightarrow> Some (c, sid)
           | StreamReset _ _ _ \<Rightarrow> Some (c, sid) | StreamComplete _ \<Rightarrow> Some (c, sid) | _ \<Rightarrow> None)\<rparr>), g)"
proof -
  let ?c = "\<lparr>client_sandboxInstanceId = i, client_clientSessionId = c, client_clientStreamId = sid\<rparr>"
  have reg: "wf_registry g"
    using assms(1) by (simp add: wf_owner_node_def)
  have found: "node_find_client ?c g = Some route"
    using assms(1-3) by (simp add: route_of_find_client)
  note route = node_find_clientD [OF found, simplified]
  have both: "clientSessionId (binding route) = c" "clientStreamId (binding route) = sid"
    "node_find_tunnel \<lparr>tunnel_sandboxInstanceId = i,
      tunnel_tunnelStreamId = message_stream_id m\<rparr> g = Some route"
    using binding_both_ways [OF reg route(2)] route(1) assms(6) by (simp_all add: node_find_tunnel_def)
  have found_tunnel: "findInteractiveStreamByTunnel (sv_router sv) \<lparr>tunnel_sandboxInstanceId = i,
      tunnel_tunnelStreamId = message_stream_id m\<rparr> g = (Inr (Some route), g)"
    using both(3) route(1) by (simp add: assms(2) owner_find_tunnel [OF assms(1)])
  have "parseBootstrapControlMessage (sv_json sv) text = Some (StreamControl m)"
    using assms(4,5) by (simp add: parseBootstrapControlMessage_def)
  moreover have "assertBootstrapControlMessageAllowed (StreamControl m) = Inr ()"
    using assms(5) by (cases m) (simp_all add: assertBootstrapControlMessageAllowed_def
        isBootstrapStreamControlMessageAllowed_def)
  moreover have "translateBootstrapStreamControl sv \<lparr>in_clientSessionId = bootstrapId,
      in_payload = Text text, in_sandboxInstanceId = i, in_sourcePeerSide = BootstrapSide\<rparr> m g
    = (Inr ((just (Forward (Text (stringify (sv_json sv) (StreamControl (with_stream_id sid m)))) None (Some c)))
        \<lparr>releaseInteractiveStream := (case m of StreamOpenError _ _ _ \<Rightarrow> Some (c, sid)
           | StreamReset _ _ _ \<Rightarrow> Some (c, sid) | StreamComplete _ \<Rightarrow> Some (c, sid) | _ \<Rightarrow> None)\<rparr>), g)"
    using found_tunnel both(1,2) assms(5,7)
    by (cases m) (simp_all add: translateBootstrapStreamControl_def comp_bind_def comp_return_def
        replaceStreamId_def stringify_stream_def shouldReleaseStreamOnBootstrapMessage_def
        toReleaseInteractiveStream_def just_def)
  ultimately show ?thesis
    by (simp add: translateInboundMessage_def translateBootstrapTextPayload_def
        translateBootstrapControlText_def translateBootstrapControl_def parse_groups [OF assms(4)])
qed

theorem bootstrap_control_relay_witness:
  "translateInboundMessage sample_services (sample_inbound BootstrapSide ''b'' (Text ''reset'')) opened_registry
   = (Inr ((just (Forward (Text ''json'') None (Some ''c'')))
       \<lparr>releaseInteractiveStream := Some (''c'', 7)\<rparr>), opened_registry)"
proof -
  have "parse_message (sv_json sample_services) ''reset'' = Some (StreamControl (StreamReset 1 ''c'' ''m''))"
    by code_simp
  from bootstrap_control_relay [OF wf_opened _ sample_route_found this, of "\<lambda>_. True" 0 "''b''"]
  show ?thesis
    by (simp add: sample_inbound_def sample_route_def sample_services_def sample_json_def comp_return_def)
qed

text \<open>
  A client's close of a bound stream is forwarded under the tunnel stream id; it releases the stream
  unless it is a file upload, whose completion event still has to find its way back.
\<close>

theorem connection_close_release:
  assumes "wf_owner_node nodeId g" and "sv_router sv = owner_node_router nodeId answer nowMs"
    and "route_of g (findInteractiveStreamByClient (sv_router sv) \<lparr>client_sandboxInstanceId = i,
      client_clientSessionId = c, client_clientStreamId = sid\<rparr>) = Some route"
    and "parse_message (sv_json sv) text = Some (StreamControl (StreamClose sid))"
  shows "translateInboundMessage sv \<lparr>in_clientSessionId = c, in_payload = Text text,
      in_sandboxInstanceId = i, in_sourcePeerSide = ConnectionSide\<rparr> g
    = (Inr ((just (Forward
         (Text (stringify (sv_json sv) (StreamControl (StreamClose (tunnelStreamId (binding route))))))
         (Some (target_sessionId (bootstrapTarget route))) None))
        \<lparr>releaseInteractiveStream :=
          (if channelKind (binding route) = KindFileUpload then None else Some (c, sid))\<rparr>), g)"
proof -
  let ?c = "\<lparr>client_sandboxInstanceId = i, client_clientSessionId = c, client_clientStreamId = sid\<rparr>"
  have reg: "wf_registry g"
    using assms(1) by (simp add: wf_owner_node_def)
  have found: "node_find_client ?c g = Some route"
    using assms(1-3) by (simp add: route_of_find_client)
  note route = node_find_clientD [OF found, simplified]
  have both: "clientSessionId (binding route) = c" "clientStreamId (binding route) = sid"
    using binding_both_ways [OF reg route(2)] by simp_all
  have found_client: "findInteractiveStreamByClient (sv_router sv) ?c g = (Inr (Some route), g)"
    using found route(1) by (simp add: assms(2) owner_find_client [OF assms(1)])
  have none: "parseStreamOpen kind (sv_json sv) text = None" for kind
    by (simp add: parseStreamOpen_def parse_groups [OF assms(4)])
  have "translateConnectionControl sv \<lparr>in_clientSessionId = c, in_payload = Text text,
      in_sandboxInstanceId = i, in_sourcePeerSide = ConnectionSide\<rparr> (StreamClose sid) g
    = (Inr ((just (Forward
         (Text (stringify (sv_json sv) (StreamControl (StreamClose (tunnelStreamId (binding route))))))
         (Some (target_sessionId (bootstrapTarget route))) None))
        \<lparr>releaseInteractiveStream :=
          (if channelKind (binding route) = KindFileUpload then None else Some (c, sid))\<rparr>), g)"
    using found_client both
    by (simp add: translateConnectionControl_def assertConnectionControlMessageAllowed_def
        isConnectionControlMessageAllowed_def comp_bind_def comp_return_def replaceStreamId_def
        stringify_stream_def shouldReleaseStreamOnConnectionClose_def toReleaseInteractiveStream_def just_def)
  then show ?thesis
    by (simp add: translateInboundMessage_def translateConnectionTextPayload_def
        translateConnectionStreamText_def translateConnectionControlText_def none Let_def
        parse_groups [OF assms(4)])
qed

theorem connection_close_release_witness:
  "releaseInteractiveStream (projr (fst (translateInboundMessage sample_services
     (sample_inbound ConnectionSide ''c'' (Text ''close'')) opened_registry))) = Some (''c'', 7)"
proof -
  have "parse_message (sv_json sample_services) ''close'' = Some (StreamControl (StreamClose 7))"
    by code_simp
  from connection_close_release [OF wf_opened _ sample_route_found this, of "\<lambda>_. True" 0]
  show ?thesis
    by (simp add: sample_inbound_def sample_route_def sample_services_def just_def)
qed

end
