(* ===== verification/PeerRegistry.thy ===== *)
theory PeerRegistry
  imports TunnelTypes
begin

text \<open>
  The websocket peers attached to one gateway node and the messages relayed between them:
  \<open>InMemoryLocalPeerRegistryAdapter\<close> (\<open>tunnel/local-peer-registry/adapters\<close>) with its interface
  \<open>LocalPeerRegistryAdapter\<close> as a locale, \<open>LocalRelayPeerResolver\<close>, \<open>InMemoryRelayTransportAdapter\<close>
  (\<open>tunnel/relay-transport/adapters\<close>) and \<open>TunnelRelayCoordinator\<close> (\<open>tunnel/relay-coordinator.ts\<close>)
  on top of them. A socket is a number; \<open>ready\<close> gives its \<open>readyState\<close> when a message is delivered,
  and \<open>socketLog\<close> records the \<open>send\<close> and \<open>close\<close> calls made on sockets.
\<close>

section \<open>The peer registry\<close>

fun side_string :: "relay_peer_side \<Rightarrow> string" where
  "side_string BootstrapSide = ''bootstrap''"
| "side_string ConnectionSide = ''connection''"
| "side_string PtyClientSide = ''ptyClient''"
| "side_string PtySandboxSide = ''ptySandbox''"

record peer_registry =
  bootstrapPeersByKey :: "(string, relay_target) js_map"
  sessionPeersByKey :: "(string, relay_target) js_map"

definition createBootstrapPeerKey :: "string \<Rightarrow> string" where
  "createBootstrapPeerKey i = i @ '':bootstrap''"

definition createSessionPeerKey :: "string \<Rightarrow> relay_peer_side \<Rightarrow> string \<Rightarrow> string" where
  "createSessionPeerKey i side x = i @ '':'' @ side_string side @ '':'' @ x"

definition getBootstrapPeer :: "string \<Rightarrow> peer_registry \<Rightarrow> relay_target option" where
  "getBootstrapPeer i p = js_get (bootstrapPeersByKey p) (createBootstrapPeerKey i)"

definition setBootstrapPeer :: "relay_target \<Rightarrow> peer_registry \<Rightarrow> relay_target option \<times> peer_registry" where
  "setBootstrapPeer t p =
     (let key = createBootstrapPeerKey (target_sandboxInstanceId t) in
      (js_get (bootstrapPeersByKey p) key,
       p\<lparr>bootstrapPeersByKey := js_set key t (bootstrapPeersByKey p)\<rparr>))"

definition getSessionPeer :: "string \<Rightarrow> relay_peer_side \<Rightarrow> string \<Rightarrow> peer_registry \<Rightarrow> relay_target option" where
  "getSessionPeer i side x p = js_get (sessionPeersByKey p) (createSessionPeerKey i side x)"

definition setSessionPeer :: "relay_target \<Rightarrow> peer_registry \<Rightarrow> relay_target option \<times> peer_registry" where
  "setSessionPeer t p =
     (let key = createSessionPeerKey (target_sandboxInstanceId t) (target_side t) (target_sessionId t) in
      (js_get (sessionPeersByKey p) key,
       p\<lparr>sessionPeersByKey := js_set key t (sessionPeersByKey p)\<rparr>))"

definition getConnectionPeer :: "string \<Rightarrow> relay_peer_side \<Rightarrow> string \<Rightarrow> peer_registry \<Rightarrow> relay_target option" where
  "getConnectionPeer i side x p = getSessionPeer i side x p"

definition setConnectionPeer :: "relay_target \<Rightarrow> peer_registry \<Rightarrow> relay_target option \<times> peer_registry" where
  "setConnectionPeer t p = setSessionPeer t p"

definition listSessionPeers :: "string \<Rightarrow> relay_peer_side \<Rightarrow> peer_registry \<Rightarrow> relay_target list" where
  "listSessionPeers i side p = map snd (filter
     (\<lambda>(key, _). js_starts_with key (i @ '':'' @ side_string side @ '':'')) (sessionPeersByKey p))"

definition listConnectionPeers :: "string \<Rightarrow> peer_registry \<Rightarrow> relay_target list" where
  "listConnectionPeers i p = listSessionPeers i ConnectionSide p"

definition removePeer :: "relay_target \<Rightarrow> peer_registry \<Rightarrow> bool \<times> peer_registry" where
  "removePeer t p =
     (let key = (if target_side t = BootstrapSide then createBootstrapPeerKey (target_sandboxInstanceId t)
            else createSessionPeerKey (target_sandboxInstanceId t) (target_side t) (target_sessionId t));
          peers = (if target_side t = BootstrapSide then bootstrapPeersByKey p else sessionPeersByKey p) in
      case js_get peers key of
        None \<Rightarrow> (False, p)
      | Some existing \<Rightarrow>
          if target_nodeId existing \<noteq> target_nodeId t \<or> target_sessionId existing \<noteq> target_sessionId t
          then (False, p)
          else (True, if target_side t = BootstrapSide
            then p\<lparr>bootstrapPeersByKey := js_delete key peers\<rparr>
            else p\<lparr>sessionPeersByKey := js_delete key peers\<rparr>))"

section \<open>The registry interface\<close>

text \<open>Sandbox instance ids carry no colon, so the keys of the adapter keep their parts apart.\<close>

definition plain_id :: "string \<Rightarrow> bool" where
  "plain_id i \<longleftrightarrow> CHR '':'' \<notin> set i"

locale local_peer_registry =
  fixes get_bootstrap :: "string \<Rightarrow> 'p \<Rightarrow> relay_target option"
    and set_bootstrap :: "relay_target \<Rightarrow> 'p \<Rightarrow> relay_target option \<times> 'p"
    and get_session :: "string \<Rightarrow> relay_peer_side \<Rightarrow> string \<Rightarrow> 'p \<Rightarrow> relay_target option"
    and set_session :: "relay_target \<Rightarrow> 'p \<Rightarrow> relay_target option \<times> 'p"
    and list_session :: "string \<Rightarrow> relay_peer_side \<Rightarrow> 'p \<Rightarrow> relay_target list"
    and remove :: "relay_target \<Rightarrow> 'p \<Rightarrow> bool \<times> 'p"
    and inv :: "'p \<Rightarrow> bool"
  assumes inv_ops: "inv p \<Longrightarrow> plain_id (target_sandboxInstanceId t) \<Longrightarrow> target_side t = BootstrapSide \<Longrightarrow>
        inv (snd (set_bootstrap t p))"
      "inv p \<Longrightarrow> plain_id (target_sandboxInstanceId t) \<Longrightarrow> inv (snd (set_session t p))"
      "inv p \<Longrightarrow> inv (snd (remove t p))"
    and previous: "fst (set_bootstrap t p) = get_bootstrap (target_sandboxInstanceId t) p"
      "fst (set_session t p) = get_session (target_sandboxInstanceId t) (target_side t) (target_sessionId t) p"
    and get_bootstrap_set: "get_bootstrap i (snd (set_bootstrap t p)) =
        (if i = target_sandboxInstanceId t then Some t else get_bootstrap i p)"
      "get_bootstrap i (snd (set_session t p)) = get_bootstrap i p"
    and get_session_set: "get_session i side x (snd (set_bootstrap t p)) = get_session i side x p"
      "plain_id i \<Longrightarrow> plain_id (target_sandboxInstanceId t) \<Longrightarrow>
        get_session i side x (snd (set_session t p)) =
          (if i = target_sandboxInstanceId t \<and> side = target_side t \<and> x = target_sessionId t then Some t
           else get_session i side x p)"
    and removed: "inv p \<Longrightarrow> plain_id (target_sandboxInstanceId t) \<Longrightarrow> fst (remove t p) \<longleftrightarrow>
        (if target_side t = BootstrapSide then get_bootstrap (target_sandboxInstanceId t) p
         else get_session (target_sandboxInstanceId t) (target_side t) (target_sessionId t) p) = Some t"
      "\<not> fst (remove t p) \<Longrightarrow> snd (remove t p) = p"
      "fst (remove t p) \<Longrightarrow> target_side t = BootstrapSide \<Longrightarrow>
        get_bootstrap i (snd (remove t p)) = (if i = target_sandboxInstanceId t then None else get_bootstrap i p)
        \<and> get_session j side x (snd (remove t p)) = get_session j side x p"
      "fst (remove t p) \<Longrightarrow> target_side t \<noteq> BootstrapSide \<Longrightarrow> plain_id j \<Longrightarrow>
        plain_id (target_sandboxInstanceId t) \<Longrightarrow>
        get_bootstrap i (snd (remove t p)) = get_bootstrap i p
        \<and> get_session j side x (snd (remove t p)) =
          (if j = target_sandboxInstanceId t \<and> side = target_side t \<and> x = target_sessionId t then None
           else get_session j side x p)"
    and listed: "inv p \<Longrightarrow> plain_id i \<Longrightarrow>
        t \<in> set (list_session i side p) \<longleftrightarrow> get_session i side (target_sessionId t) p = Some t"
begin

text \<open>The peer that is registered where \<open>t\<close> would be.\<close>

definition current :: "relay_target \<Rightarrow> 'p \<Rightarrow> relay_target option" where
  "current t p = (if target_side t = BootstrapSide then get_bootstrap (target_sandboxInstanceId t) p
     else get_session (target_sandboxInstanceId t) (target_side t) (target_sessionId t) p)"

lemma removed_not_current:
  assumes "inv p" and "plain_id (target_sandboxInstanceId t)"
  shows "current t (snd (remove t p)) \<noteq> Some t"
proof (cases "fst (remove t p)")
  case True
  then show ?thesis
    using removed(3) [OF True] removed(4) [OF True] assms(2) by (auto simp: current_def)
next
  case False
  then show ?thesis
    using removed(1) [OF assms] removed(2) [OF False] by (auto simp: current_def)
qed

lemma stale_remove:
  "inv p \<Longrightarrow> plain_id (target_sandboxInstanceId t) \<Longrightarrow> current t p \<noteq> Some t \<Longrightarrow>
     remove t p = (False, p)"
  using removed(1) [of p t] removed(2) [of t p] by (metis current_def prod.collapse)

end

text \<open>Entries are stored under the keys of their own targets.\<close>

definition wf_peers :: "peer_registry \<Rightarrow> bool" where
  "wf_peers p \<longleftrightarrow> wf_map (bootstrapPeersByKey p) \<and> wf_map (sessionPeersByKey p)
     \<and> (\<forall>key t. js_get (bootstrapPeersByKey p) key = Some t \<longrightarrow> target_side t = BootstrapSide
          \<and> key = createBootstrapPeerKey (target_sandboxInstanceId t))
     \<and> (\<forall>key t. js_get (sessionPeersByKey p) key = Some t \<longrightarrow> plain_id (target_sandboxInstanceId t)
          \<and> key = createSessionPeerKey (target_sandboxInstanceId t) (target_side t) (target_sessionId t))"

lemma side_string_plain [simp]: "CHR '':'' \<notin> set (side_string side)"
  by (cases side) simp_all

lemma side_string_inj [simp]: "side_string a = side_string b \<longleftrightarrow> a = b"
  by (cases a; cases b) simp_all

lemma createBootstrapPeerKey_inj [simp]: "createBootstrapPeerKey i = createBootstrapPeerKey j \<longleftrightarrow> i = j"
  by (simp add: createBootstrapPeerKey_def)

lemma createSessionPeerKey_inj:
  assumes "plain_id i" and "plain_id j"
  shows "createSessionPeerKey i a x = createSessionPeerKey j b y \<longleftrightarrow> i = j \<and> a = b \<and> x = y"
  using first_separator_inj [of "CHR '':''" i j "side_string a @ '':'' @ x" "side_string b @ '':'' @ y"]
    first_separator_inj [of "CHR '':''" "side_string a" "side_string b" x y] assms
  by (simp add: createSessionPeerKey_def plain_id_def)

lemma session_key_prefix:
  assumes "plain_id i" and "plain_id j"
  shows "js_starts_with (createSessionPeerKey i a x) (j @ '':'' @ side_string b @ '':'') \<longleftrightarrow> i = j \<and> a = b"
proof -
  have "js_starts_with (createSessionPeerKey i a x) (j @ '':'' @ side_string b @ '':'')
      \<longleftrightarrow> (\<exists>y. createSessionPeerKey i a x = createSessionPeerKey j b y)"
    by (simp add: js_starts_with_iff createSessionPeerKey_def)
  then show ?thesis
    using createSessionPeerKey_inj [OF assms] by auto
qed

lemma wf_peers_bootstrap:
  assumes "wf_peers p" and "getBootstrapPeer i p = Some t"
  shows "target_side t = BootstrapSide \<and> target_sandboxInstanceId t = i"
proof -
  have "target_side t = BootstrapSide"
    and "createBootstrapPeerKey i = createBootstrapPeerKey (target_sandboxInstanceId t)"
    using assms by (simp_all add: wf_peers_def getBootstrapPeer_def)
  then show ?thesis
    by simp
qed

lemma wf_peers_session:
  assumes "wf_peers p" and "getSessionPeer i side x p = Some t" and "plain_id i"
  shows "target_sandboxInstanceId t = i \<and> target_side t = side \<and> target_sessionId t = x"
proof -
  have "plain_id (target_sandboxInstanceId t)" and "createSessionPeerKey i side x
      = createSessionPeerKey (target_sandboxInstanceId t) (target_side t) (target_sessionId t)"
    using assms(1,2) by (auto simp: wf_peers_def getSessionPeer_def)
  then show ?thesis
    using createSessionPeerKey_inj [OF assms(3)] by auto
qed

lemma wf_setBootstrapPeer [wf_intros]:
  "wf_peers p \<Longrightarrow> target_side t = BootstrapSide \<Longrightarrow> wf_peers (snd (setBootstrapPeer t p))"
  by (simp add: wf_peers_def setBootstrapPeer_def Let_def wf_map_set js_get_set)

lemma wf_setSessionPeer [wf_intros]:
  "wf_peers p \<Longrightarrow> plain_id (target_sandboxInstanceId t) \<Longrightarrow> wf_peers (snd (setSessionPeer t p))"
  by (simp add: wf_peers_def setSessionPeer_def Let_def wf_map_set js_get_set)

lemma wf_removePeer [wf_intros]: "wf_peers p \<Longrightarrow> wf_peers (snd (removePeer t p))"
  by (auto simp: wf_peers_def removePeer_def Let_def wf_map_delete js_get_delete split: option.split)

lemma removePeer_current:
  assumes "wf_peers p" and "plain_id (target_sandboxInstanceId t)"
  shows "fst (removePeer t p) \<longleftrightarrow>
    (if target_side t = BootstrapSide then getBootstrapPeer (target_sandboxInstanceId t) p
     else getSessionPeer (target_sandboxInstanceId t) (target_side t) (target_sessionId t) p) = Some t"
    (is "_ \<longleftrightarrow> ?current = Some t")
proof (cases ?current)
  case None
  then show ?thesis
    by (cases "target_side t = BootstrapSide")
      (simp_all add: removePeer_def getBootstrapPeer_def getSessionPeer_def Let_def)
next
  case (Some u)
  have "target_sandboxInstanceId u = target_sandboxInstanceId t \<and> target_side u = target_side t"
    using Some wf_peers_bootstrap [OF assms(1), of "target_sandboxInstanceId t" u]
      wf_peers_session [OF assms(1) _ assms(2), of "target_side t" "target_sessionId t" u]
    by (cases "target_side t = BootstrapSide") simp_all
  then have "target_nodeId u = target_nodeId t \<and> target_sessionId u = target_sessionId t \<longleftrightarrow> u = t"
    by auto
  with Some show ?thesis
    by (cases "target_side t = BootstrapSide")
      (auto simp: removePeer_def getBootstrapPeer_def getSessionPeer_def Let_def)
qed

lemma listSessionPeers_iff:
  assumes "wf_peers p" and "plain_id i"
  shows "t \<in> set (listSessionPeers i side p) \<longleftrightarrow> getSessionPeer i side (target_sessionId t) p = Some t"
proof
  assume "t \<in> set (listSessionPeers i side p)"
  then obtain key where entry: "(key, t) \<in> set (sessionPeersByKey p)"
    and prefix: "js_starts_with key (i @ '':'' @ side_string side @ '':'')"
    by (auto simp: listSessionPeers_def)
  have get: "js_get (sessionPeersByKey p) key = Some t"
    using entry assms(1) by (simp add: wf_peers_def js_entry_iff)
  then have "plain_id (target_sandboxInstanceId t)"
    and key: "key = createSessionPeerKey (target_sandboxInstanceId t) (target_side t) (target_sessionId t)"
    using assms(1) by (simp_all add: wf_peers_def)
  with prefix have "target_sandboxInstanceId t = i \<and> target_side t = side"
    using session_key_prefix [OF _ assms(2)] by simp
  with get key show "getSessionPeer i side (target_sessionId t) p = Some t"
    by (simp add: getSessionPeer_def)
next
  assume "getSessionPeer i side (target_sessionId t) p = Some t"
  then have "(createSessionPeerKey i side (target_sessionId t), t) \<in> set (sessionPeersByKey p)"
    using assms(1) by (simp add: getSessionPeer_def wf_peers_def js_entry_iff)
  then show "t \<in> set (listSessionPeers i side p)"
    using session_key_prefix [OF assms(2) assms(2), of side] by (force simp: listSessionPeers_def)
qed

interpretation peers: local_peer_registry getBootstrapPeer setBootstrapPeer getSessionPeer setSessionPeer
  listSessionPeers removePeer wf_peers
proof unfold_locales
  fix p t
  show "fst (removePeer t p) \<Longrightarrow> target_side t \<noteq> BootstrapSide \<Longrightarrow> plain_id j \<Longrightarrow>
      plain_id (target_sandboxInstanceId t) \<Longrightarrow>
      getBootstrapPeer i (snd (removePeer t p)) = getBootstrapPeer i p
      \<and> getSessionPeer j side x (snd (removePeer t p)) =
        (if j = target_sandboxInstanceId t \<and> side = target_side t \<and> x = target_sessionId t then None
         else getSessionPeer j side x p)" for i j side x
    by (auto simp: removePeer_def Let_def getBootstrapPeer_def getSessionPeer_def js_get_delete
        createSessionPeerKey_inj split: option.splits if_splits)
  show "fst (removePeer t p) \<Longrightarrow> target_side t = BootstrapSide \<Longrightarrow>
      getBootstrapPeer i (snd (removePeer t p)) =
        (if i = target_sandboxInstanceId t then None else getBootstrapPeer i p)
      \<and> getSessionPeer j side x (snd (removePeer t p)) = getSessionPeer j side x p" for i j side x
    by (auto simp: removePeer_def Let_def getBootstrapPeer_def getSessionPeer_def js_get_delete
        split: option.splits if_splits)
  show "wf_peers p \<Longrightarrow> plain_id (target_sandboxInstanceId t) \<Longrightarrow> target_side t = BootstrapSide \<Longrightarrow>
      wf_peers (snd (setBootstrapPeer t p))"
    by (rule wf_setBootstrapPeer)
  show "wf_peers p \<Longrightarrow> plain_id (target_sandboxInstanceId t) \<Longrightarrow> wf_peers (snd (setSessionPeer t p))"
    by (rule wf_setSessionPeer)
  show "\<not> fst (removePeer t p) \<Longrightarrow> snd (removePeer t p) = p"
    by (auto simp: removePeer_def Let_def split: option.splits if_splits)
qed (simp_all add: wf_removePeer removePeer_current
    listSessionPeers_iff getBootstrapPeer_def getSessionPeer_def setBootstrapPeer_def setSessionPeer_def
    Let_def js_get_set createSessionPeerKey_inj)

end
