(* ===== verification/RelayCoordinator.thy ===== *)
theory RelayCoordinator
  imports PeerRegistry
begin

text \<open>
  Relaying between websocket peers on one node: \<open>LocalRelayPeerResolver\<close>
  (\<open>tunnel/local-peer-registry/local-relay-peer-resolver.ts\<close>), \<open>InMemoryRelayTransportAdapter\<close>
  (\<open>tunnel/relay-transport/adapters/in-memory-relay-transport-adapter.ts\<close>) and
  \<open>TunnelRelayCoordinator\<close> (\<open>tunnel/relay-coordinator.ts\<close>) with its default resolver. A socket is a
  number; \<open>ready\<close> gives its \<open>readyState\<close> when an envelope is delivered, and \<open>socketLog\<close> records the
  \<open>send\<close> and \<open>close\<close> calls made on sockets.
\<close>

section \<open>Transport\<close>

datatype socket_action = SendTo nat relay_payload | CloseSocket nat int string

record relay_state =
  peers :: peer_registry
  socketsByPeerKey :: "(string, nat) js_map"
  socketLog :: "socket_action list"

definition WebSocketOpen :: int where "WebSocketOpen = 1"

definition createPeerKey :: "relay_target \<Rightarrow> string" where
  "createPeerKey t = side_string (target_side t) @ '':'' @ target_sessionId t"

definition registerLocalPeer :: "string \<Rightarrow> relay_target \<Rightarrow> nat \<Rightarrow> (gateway_error, relay_state, unit) comp" where
  "registerLocalPeer nodeId t socket s =
     (if target_nodeId t \<noteq> nodeId
      then (Inl (PlainError ''Expected local peer registration to target current gateway node.''), s)
      else (Inr (), s\<lparr>socketsByPeerKey := js_set (createPeerKey t) socket (socketsByPeerKey s)\<rparr>))"

definition unregisterLocalPeer :: "string \<Rightarrow> relay_target \<Rightarrow> relay_state \<Rightarrow> relay_state" where
  "unregisterLocalPeer nodeId t s =
     (if target_nodeId t \<noteq> nodeId then s
      else s\<lparr>socketsByPeerKey := js_delete (createPeerKey t) (socketsByPeerKey s)\<rparr>)"

definition deliverEnvelope ::
  "string \<Rightarrow> (nat \<Rightarrow> int) \<Rightarrow> relay_envelope \<Rightarrow> (gateway_error, relay_state, unit) comp" where
  "deliverEnvelope nodeId ready envelope s =
     (if target_nodeId (envelope_target envelope) \<noteq> nodeId
      then (Inl (PlainError ''Expected in-memory relay transport target to be local.''), s)
      else case js_get (socketsByPeerKey s) (createPeerKey (envelope_target envelope)) of
        None \<Rightarrow> (Inr (), s)
      | Some socket \<Rightarrow>
          if ready socket \<noteq> WebSocketOpen then (Inr (), s)
          else (Inr (), s\<lparr>socketLog := socketLog s @ [case envelope of
            FrameEnvelope _ p \<Rightarrow> SendTo socket p
          | CloseEnvelope _ code why \<Rightarrow> CloseSocket socket code why]\<rparr>))"

text \<open>\<open>void promise.catch(() => undefined)\<close>\<close>

definition ignore_errors :: "('e, 's, 'a) comp \<Rightarrow> 's \<Rightarrow> 's" where
  "ignore_errors m s = snd (m s)"

section \<open>Peer resolution\<close>

definition resolver_resolveBootstrapPeer ::
  "string \<Rightarrow> string option \<Rightarrow> peer_registry \<Rightarrow> relay_target option" where
  "resolver_resolveBootstrapPeer i sessionId p =
     (case getBootstrapPeer i p of
        None \<Rightarrow> None
      | Some t \<Rightarrow> if sessionId \<noteq> None \<and> target_sessionId t \<noteq> the sessionId then None else Some t)"

definition resolver_resolveSessionPeer ::
  "string \<Rightarrow> relay_peer_side \<Rightarrow> string \<Rightarrow> peer_registry \<Rightarrow> relay_target option" where
  "resolver_resolveSessionPeer i side x p = PeerRegistry.getConnectionPeer i side x p"

definition resolver_resolveConnectionPeer :: "string \<Rightarrow> string \<Rightarrow> peer_registry \<Rightarrow> relay_target option" where
  "resolver_resolveConnectionPeer i x p = resolver_resolveSessionPeer i ConnectionSide x p"

section \<open>The coordinator\<close>

definition CloseCodeReplaced :: int where "CloseCodeReplaced = 1012"
definition CloseCodePeerDisconnected :: int where "CloseCodePeerDisconnected = 1012"

definition isSamePeerLocation :: "relay_target \<Rightarrow> relay_target \<Rightarrow> bool" where
  "isSamePeerLocation left right \<longleftrightarrow>
     target_sandboxInstanceId left = target_sandboxInstanceId right \<and> target_side left = target_side right
     \<and> target_nodeId left = target_nodeId right \<and> target_sessionId left = target_sessionId right"

definition attachPeer ::
  "string \<Rightarrow> (nat \<Rightarrow> int) \<Rightarrow> string \<Rightarrow> relay_peer_side \<Rightarrow> nat \<Rightarrow> string
     \<Rightarrow> (gateway_error, relay_state, relay_target) comp" where
  "attachPeer nodeId ready i side socket x =
     (let t = \<lparr>target_sandboxInstanceId = i, target_side = side, target_nodeId = nodeId,
            target_sessionId = x\<rparr> in
      comp_bind (registerLocalPeer nodeId t socket) (\<lambda>_ s.
        let (replaced, p) = (if side = BootstrapSide then setBootstrapPeer t (peers s)
              else setSessionPeer t (peers s));
            s1 = s\<lparr>peers := p\<rparr> in
        case replaced of
          None \<Rightarrow> (Inr t, s1)
        | Some old \<Rightarrow> (Inr t, ignore_errors (deliverEnvelope nodeId ready (CloseEnvelope old CloseCodeReplaced
            ''Replaced by newer sandbox tunnel connection.'')) s1)))"

definition isCurrentPeer :: "relay_target \<Rightarrow> relay_state \<Rightarrow> bool" where
  "isCurrentPeer t s =
     (case (if target_side t = BootstrapSide then getBootstrapPeer (target_sandboxInstanceId t) (peers s)
        else getSessionPeer (target_sandboxInstanceId t) (target_side t) (target_sessionId t) (peers s)) of
        None \<Rightarrow> False
      | Some current \<Rightarrow> isSamePeerLocation current t)"

definition deliver_to ::
  "string \<Rightarrow> (nat \<Rightarrow> int) \<Rightarrow> relay_target option \<Rightarrow> relay_payload \<Rightarrow> (gateway_error, relay_state, unit) comp" where
  "deliver_to nodeId ready target p =
     (case target of None \<Rightarrow> comp_return () | Some t \<Rightarrow> deliverEnvelope nodeId ready (FrameEnvelope t p))"

definition forwardPeerMessage ::
  "string \<Rightarrow> (nat \<Rightarrow> int) \<Rightarrow> string \<Rightarrow> relay_peer_side \<Rightarrow> relay_payload \<Rightarrow> string option
     \<Rightarrow> (gateway_error, relay_state, unit) comp" where
  "forwardPeerMessage nodeId ready i fromSide p sessionId s =
     deliver_to nodeId ready
       (if fromSide = ConnectionSide then resolver_resolveBootstrapPeer i sessionId (peers s)
        else case sessionId of None \<Rightarrow> None | Some x \<Rightarrow> resolver_resolveConnectionPeer i x (peers s)) p s"

definition forwardSessionPeerMessage ::
  "string \<Rightarrow> (nat \<Rightarrow> int) \<Rightarrow> string \<Rightarrow> relay_peer_side \<Rightarrow> string \<Rightarrow> relay_payload
     \<Rightarrow> (gateway_error, relay_state, unit) comp" where
  "forwardSessionPeerMessage nodeId ready i side x p s =
     (if side = BootstrapSide
      then (Inl (PlainError ''Use forwardPeerMessage to target bootstrap peers.''), s)
      else deliver_to nodeId ready (resolver_resolveSessionPeer i side x (peers s)) p s)"

definition resolveSessionPeer :: "string \<Rightarrow> relay_peer_side \<Rightarrow> string \<Rightarrow> relay_state \<Rightarrow> relay_target option" where
  "resolveSessionPeer i side x s =
     (if side = BootstrapSide then resolver_resolveBootstrapPeer i (Some x) (peers s)
      else resolver_resolveSessionPeer i side x (peers s))"

definition resolveBootstrapPeer :: "string \<Rightarrow> string option \<Rightarrow> relay_state \<Rightarrow> relay_target option" where
  "resolveBootstrapPeer i sessionId s = resolver_resolveBootstrapPeer i sessionId (peers s)"

definition closePeer ::
  "string \<Rightarrow> (nat \<Rightarrow> int) \<Rightarrow> relay_target \<Rightarrow> int \<Rightarrow> string \<Rightarrow> (gateway_error, relay_state, unit) comp" where
  "closePeer nodeId ready t code why = deliverEnvelope nodeId ready (CloseEnvelope t code why)"

definition closeSessionPeer ::
  "string \<Rightarrow> (nat \<Rightarrow> int) \<Rightarrow> string \<Rightarrow> relay_peer_side \<Rightarrow> string \<Rightarrow> int \<Rightarrow> string
     \<Rightarrow> (gateway_error, relay_state, unit) comp" where
  "closeSessionPeer nodeId ready i side x code why s =
     (if side = BootstrapSide then (Inl (PlainError ''Use closePeer to target bootstrap peers.''), s)
      else case resolveSessionPeer i side x s of
        None \<Rightarrow> (Inr (), s)
      | Some t \<Rightarrow> closePeer nodeId ready t code why s)"

definition listOppositePeersForDetachedPeer :: "relay_target \<Rightarrow> relay_state \<Rightarrow> relay_target list" where
  "listOppositePeersForDetachedPeer t s =
     (if target_side t = ConnectionSide then []
      else if target_side t = PtyClientSide \<or> target_side t = PtySandboxSide
      then filter (\<lambda>peer. target_sessionId peer = target_sessionId t)
        (listSessionPeers (target_sandboxInstanceId t)
          (if target_side t = PtyClientSide then PtySandboxSide else PtyClientSide) (peers s))
      else listConnectionPeers (target_sandboxInstanceId t) (peers s)
        @ listSessionPeers (target_sandboxInstanceId t) PtyClientSide (peers s)
        @ listSessionPeers (target_sandboxInstanceId t) PtySandboxSide (peers s))"

definition detachPeerWithOptions ::
  "string \<Rightarrow> (nat \<Rightarrow> int) \<Rightarrow> relay_target \<Rightarrow> bool \<Rightarrow> relay_state \<Rightarrow> relay_state" where
  "detachPeerWithOptions nodeId ready t notify s =
     (let s1 = unregisterLocalPeer nodeId t s;
          (removed, p) = removePeer t (peers s1);
          s2 = s1\<lparr>peers := p\<rparr> in
      if \<not> removed then s2
      else let opposite = listOppositePeersForDetachedPeer t s2 in
        if \<not> notify \<or> length opposite = 0 then s2
        else fold (\<lambda>peer. ignore_errors (deliverEnvelope nodeId ready
          (CloseEnvelope peer CloseCodePeerDisconnected ''Sandbox tunnel peer disconnected.''))) opposite s2)"

definition detachPeer :: "string \<Rightarrow> (nat \<Rightarrow> int) \<Rightarrow> relay_target \<Rightarrow> relay_state \<Rightarrow> relay_state" where
  "detachPeer nodeId ready t = detachPeerWithOptions nodeId ready t True"

definition getConnectionPeer :: "string \<Rightarrow> string \<Rightarrow> relay_state \<Rightarrow> relay_target option" where
  "getConnectionPeer i x s = PeerRegistry.getConnectionPeer i ConnectionSide x (peers s)"

definition coordinator_getBootstrapPeer :: "string \<Rightarrow> relay_state \<Rightarrow> relay_target option" where
  "coordinator_getBootstrapPeer i s = getBootstrapPeer i (peers s)"

section \<open>Lemmas\<close>

lemma isSamePeerLocation_iff [simp]: "isSamePeerLocation t u \<longleftrightarrow> t = u"
  by (auto simp: isSamePeerLocation_def)

lemma isCurrentPeer_iff: "isCurrentPeer t s \<longleftrightarrow> peers.current t (peers s) = Some t"
  by (auto simp: isCurrentPeer_def peers.current_def split: option.split)

lemma deliver_keeps [simp]:
  "peers (snd (deliverEnvelope nodeId ready e s)) = peers s"
  "socketsByPeerKey (snd (deliverEnvelope nodeId ready e s)) = socketsByPeerKey s"
  by (auto simp: deliverEnvelope_def split: option.split)

lemma fold_deliver_keeps [simp]:
  "peers (fold (\<lambda>peer. ignore_errors (deliverEnvelope nodeId ready (f peer))) ps s) = peers s"
  "socketsByPeerKey (fold (\<lambda>peer. ignore_errors (deliverEnvelope nodeId ready (f peer))) ps s)
   = socketsByPeerKey s"
  by (induction ps arbitrary: s) (simp_all add: ignore_errors_def)

text \<open>The sockets a list of local peers is reached at.\<close>

definition open_sockets :: "string \<Rightarrow> (nat \<Rightarrow> int) \<Rightarrow> relay_target list \<Rightarrow> relay_state \<Rightarrow> nat list" where
  "open_sockets nodeId ready ts s = concat (map (\<lambda>t.
     case js_get (socketsByPeerKey s) (createPeerKey t) of
       None \<Rightarrow> []
     | Some socket \<Rightarrow> if target_nodeId t = nodeId \<and> ready socket = WebSocketOpen then [socket] else []) ts)"

lemma fold_close_log:
  "socketLog (fold (\<lambda>peer. ignore_errors (deliverEnvelope nodeId ready (CloseEnvelope peer code why))) ps s)
   = socketLog s @ map (\<lambda>socket. CloseSocket socket code why) (open_sockets nodeId ready ps s)"
proof (induction ps arbitrary: s)
  case (Cons t ps)
  let ?s = "ignore_errors (deliverEnvelope nodeId ready (CloseEnvelope t code why)) s"
  have "open_sockets nodeId ready ps ?s = open_sockets nodeId ready ps s"
    by (simp add: open_sockets_def ignore_errors_def)
  moreover have "socketLog ?s = socketLog s @ map (\<lambda>socket. CloseSocket socket code why)
      (open_sockets nodeId ready [t] s)"
    by (simp add: ignore_errors_def deliverEnvelope_def open_sockets_def split: option.split)
  ultimately show ?case
    using Cons [of ?s] by (simp add: open_sockets_def)
qed (simp add: open_sockets_def)

section \<open>Properties\<close>

text \<open>
  A bootstrap peer that attaches becomes the current one of its sandbox: a client message is then
  sent to its socket, the peer it replaces is no longer current, and when the replaced peer detaches
  later, the registered peers stay as they are and no socket is closed.
\<close>

theorem attach_bootstrap_current:
  assumes "wf_peers (peers s)" and "plain_id i"
    and "attachPeer nodeId ready i BootstrapSide socket x s = (Inr t, s')"
  shows "isCurrentPeer t s' \<and> wf_peers (peers s')
    \<and> (ready' socket = WebSocketOpen \<longrightarrow>
        socketLog (snd (forwardPeerMessage nodeId ready' i ConnectionSide p None s'))
          = socketLog s' @ [SendTo socket p])
    \<and> (\<forall>u. target_side u = BootstrapSide \<longrightarrow> target_sandboxInstanceId u = i \<longrightarrow> u \<noteq> t \<longrightarrow>
        \<not> isCurrentPeer u s'
        \<and> peers (detachPeer nodeId ready' u s') = peers s'
        \<and> socketLog (detachPeer nodeId ready' u s') = socketLog s')"
proof -
  define p' where "p' = snd (setBootstrapPeer t (peers s))"
  have t: "t = \<lparr>target_sandboxInstanceId = i, target_side = BootstrapSide, target_nodeId = nodeId,
      target_sessionId = x\<rparr>"
    using assms(3) by (auto simp: attachPeer_def comp_bind_def registerLocalPeer_def Let_def
        split: prod.splits option.splits)
  have s': "peers s' = p'" "socketsByPeerKey s' = js_set (createPeerKey t) socket (socketsByPeerKey s)"
    using assms(3) unfolding p'_def t
    by (auto simp: attachPeer_def comp_bind_def registerLocalPeer_def Let_def ignore_errors_def
        split: prod.splits option.splits)
  have wf: "wf_peers p'"
    unfolding p'_def using assms(1) by (rule wf_setBootstrapPeer) (simp add: t)
  have get: "getBootstrapPeer i p' = Some t"
    unfolding p'_def using peers.get_bootstrap_set(1) [of i t] by (simp add: t)
  have current: "isCurrentPeer u s' \<longleftrightarrow> u = t"
    if "target_side u = BootstrapSide" "target_sandboxInstanceId u = i" for u
    using that get by (auto simp: isCurrentPeer_iff peers.current_def s')
  have forwarded: "socketLog (snd (forwardPeerMessage nodeId ready' i ConnectionSide p None s'))
      = socketLog s' @ [SendTo socket p]" if "ready' socket = WebSocketOpen"
    using that get by (simp add: forwardPeerMessage_def resolver_resolveBootstrapPeer_def s' deliver_to_def
        deliverEnvelope_def js_get_set t)
  have stale: "removePeer u p' = (False, p')"
    if "target_side u = BootstrapSide" "target_sandboxInstanceId u = i" "u \<noteq> t" for u
    using current [OF that(1,2)] that assms(2)
    by (intro peers.stale_remove [OF wf]) (simp_all add: isCurrentPeer_iff s')
  have "peers (detachPeer nodeId ready' u s') = peers s' \<and> socketLog (detachPeer nodeId ready' u s') = socketLog s'"
    if "target_side u = BootstrapSide" "target_sandboxInstanceId u = i" "u \<noteq> t" for u
    using stale [OF that] by (simp add: detachPeer_def detachPeerWithOptions_def unregisterLocalPeer_def s' Let_def)
  with current forwarded wf show ?thesis
    by (simp add: s' t)
qed

definition no_peers :: relay_state where
  "no_peers = \<lparr>peers = \<lparr>bootstrapPeersByKey = [], sessionPeersByKey = []\<rparr>, socketsByPeerKey = [],
     socketLog = []\<rparr>"

lemma wf_no_peers: "wf_peers (peers no_peers)"
  by (simp add: no_peers_def wf_peers_def)

definition sample_peer :: "relay_peer_side \<Rightarrow> string \<Rightarrow> relay_target" where
  "sample_peer side x = \<lparr>target_sandboxInstanceId = ''sbi'', target_side = side,
     target_nodeId = ''node'', target_sessionId = x\<rparr>"

lemma attach_sample:
  "attachPeer ''node'' (\<lambda>_. 1) ''sbi'' side socket x no_peers = (Inr (sample_peer side x), snd
     (attachPeer ''node'' (\<lambda>_. 1) ''sbi'' side socket x no_peers))"
  by (auto simp: attachPeer_def comp_bind_def registerLocalPeer_def Let_def sample_peer_def
      split: prod.split option.split)

lemma plain_sample: "plain_id ''sbi''"
  by (simp add: plain_id_def)

theorem attach_bootstrap_current_witness:
  "isCurrentPeer (sample_peer BootstrapSide ''b'')
     (snd (attachPeer ''node'' (\<lambda>_. 1) ''sbi'' BootstrapSide 4 ''b'' no_peers))
   \<and> \<not> isCurrentPeer (sample_peer BootstrapSide ''old'')
     (snd (attachPeer ''node'' (\<lambda>_. 1) ''sbi'' BootstrapSide 4 ''b'' no_peers))"
  using attach_bootstrap_current [OF wf_no_peers plain_sample attach_sample]
  by (simp add: sample_peer_def)

text \<open>
  When the current bootstrap peer of a sandbox detaches, exactly the open local sockets of that
  sandbox's connection, PTY client and PTY sandbox peers are closed, with code 1012, and the sandbox
  has no bootstrap peer any more.
\<close>

theorem detach_bootstrap_closes_peers:
  fixes ready :: "nat \<Rightarrow> int"
  assumes "wf_peers (peers s)" and "plain_id (target_sandboxInstanceId t)"
    and "target_side t = BootstrapSide" and "target_nodeId t = nodeId" and "isCurrentPeer t s"
  defines "i \<equiv> target_sandboxInstanceId t" and "s' \<equiv> detachPeer nodeId ready t s"
  shows "coordinator_getBootstrapPeer i s' = None
    \<and> (\<exists>sockets. socketLog s' = socketLog s @ map (\<lambda>socket. CloseSocket socket 1012
          ''Sandbox tunnel peer disconnected.'') sockets
        \<and> (\<forall>socket. socket \<in> set sockets \<longleftrightarrow> ready socket = WebSocketOpen
          \<and> (\<exists>u. target_side u \<noteq> BootstrapSide \<and> target_nodeId u = nodeId
              \<and> getSessionPeer i (target_side u) (target_sessionId u) (peers s) = Some u
              \<and> js_get (socketsByPeerKey (unregisterLocalPeer nodeId t s)) (createPeerKey u) = Some socket)))"
proof -
  define s1 where "s1 = unregisterLocalPeer nodeId t s"
  define p where "p = snd (removePeer t (peers s))"
  have s1: "peers s1 = peers s" "socketLog s1 = socketLog s"
    by (simp_all add: s1_def unregisterLocalPeer_def)
  have removed: "fst (removePeer t (peers s))"
    using assms(3,5) peers.removed(1) [OF assms(1,2)] by (simp add: isCurrentPeer_iff peers.current_def)
  have wf: "wf_peers p"
    unfolding p_def using assms(1) by (rule wf_removePeer)
  have get: "getBootstrapPeer i p = None" "getSessionPeer j side x p = getSessionPeer j side x (peers s)" for j side x
    using peers.removed(3) [OF removed assms(3)] by (simp_all add: p_def i_def)
  define opposite where "opposite = listOppositePeersForDetachedPeer t (s1\<lparr>peers := p\<rparr>)"
  have session_side: "target_side u = side" if "getSessionPeer i side (target_sessionId u) p = Some u" for u side
    using wf_peers_session [OF wf that] assms(2) by (simp add: i_def)
  have opposite: "u \<in> set opposite \<longleftrightarrow>
      target_side u \<noteq> BootstrapSide \<and> getSessionPeer i (target_side u) (target_sessionId u) (peers s) = Some u" for u
    using session_side [of ConnectionSide u] session_side [of PtyClientSide u] session_side [of PtySandboxSide u]
      assms(2,3) by (cases "target_side u") (auto simp: opposite_def listOppositePeersForDetachedPeer_def
        listConnectionPeers_def listSessionPeers_iff [OF wf] i_def [symmetric] get(2))
  have s': "s' = (if opposite = [] then s1\<lparr>peers := p\<rparr> else fold (\<lambda>peer. ignore_errors (deliverEnvelope nodeId ready
      (CloseEnvelope peer 1012 ''Sandbox tunnel peer disconnected.''))) opposite (s1\<lparr>peers := p\<rparr>))"
    using removed by (simp add: s'_def detachPeer_def detachPeerWithOptions_def Let_def s1_def [symmetric] s1
        p_def opposite_def case_prod_beta CloseCodePeerDisconnected_def)
  have "peers s' = p"
    unfolding s' by simp
  moreover have "socketLog s' = socketLog s @ map (\<lambda>socket. CloseSocket socket 1012
      ''Sandbox tunnel peer disconnected.'') (open_sockets nodeId ready opposite (s1\<lparr>peers := p\<rparr>))"
    unfolding s' by (simp add: fold_close_log s1) (simp add: open_sockets_def)
  moreover have "socket \<in> set (open_sockets nodeId ready opposite (s1\<lparr>peers := p\<rparr>)) \<longleftrightarrow>
      ready socket = WebSocketOpen \<and> (\<exists>u. target_side u \<noteq> BootstrapSide \<and> target_nodeId u = nodeId
        \<and> getSessionPeer i (target_side u) (target_sessionId u) (peers s) = Some u
        \<and> js_get (socketsByPeerKey s1) (createPeerKey u) = Some socket)" for socket
    by (force simp: open_sockets_def opposite split: option.splits if_splits)
  ultimately show ?thesis
    using get(1) unfolding s1_def coordinator_getBootstrapPeer_def by blast
qed

lemma wf_attach_sample:
  "wf_peers (peers (snd (attachPeer ''node'' (\<lambda>_. 1) ''sbi'' BootstrapSide 4 ''b'' no_peers)))"
  by (simp add: attachPeer_def comp_bind_def registerLocalPeer_def Let_def case_prod_beta ignore_errors_def
      wf_setBootstrapPeer wf_no_peers split: option.split)

theorem detach_bootstrap_closes_peers_witness:
  "coordinator_getBootstrapPeer ''sbi'' (detachPeer ''node'' (\<lambda>_. 1) (sample_peer BootstrapSide ''b'')
     (snd (attachPeer ''node'' (\<lambda>_. 1) ''sbi'' BootstrapSide 4 ''b'' no_peers))) = None"
proof -
  have "isCurrentPeer (sample_peer BootstrapSide ''b'')
      (snd (attachPeer ''node'' (\<lambda>_. 1) ''sbi'' BootstrapSide 4 ''b'' no_peers))"
    by code_simp
  from detach_bootstrap_closes_peers [OF wf_attach_sample _ _ _ this, of "''node''"] show ?thesis
    by (simp add: sample_peer_def plain_sample)
qed

text \<open>
  A session peer attached again under the same side and session id takes over the transport entry of
  the peer it replaces before that peer is closed, so the close with code 1012 reaches the new socket:
  the newly attached websocket is closed and the replaced one stays open, while the registry reports the
  new peer as current.
\<close>

theorem reattach_closes_new_socket:
  assumes "side \<noteq> BootstrapSide" and "ready b = WebSocketOpen"
    and "attachPeer nodeId ready i side a x s = (Inr t, s1)"
    and "attachPeer nodeId ready i side b x s1 = (Inr u, s2)"
  shows "u = t \<and> isCurrentPeer u s2
    \<and> socketLog s2 = socketLog s1 @ [CloseSocket b 1012 ''Replaced by newer sandbox tunnel connection.'']"
proof -
  let ?t = "\<lparr>target_sandboxInstanceId = i, target_side = side, target_nodeId = nodeId, target_sessionId = x\<rparr>"
  let ?key = "createSessionPeerKey i side x"
  have t: "t = ?t" and s1: "js_get (sessionPeersByKey (peers s1)) ?key = Some ?t"
    using assms(1,3) by (auto simp: attachPeer_def comp_bind_def registerLocalPeer_def Let_def
        ignore_errors_def setSessionPeer_def js_get_set split: prod.splits option.splits)
  let ?s = "s1\<lparr>socketsByPeerKey := js_set (createPeerKey ?t) b (socketsByPeerKey s1),
    peers := (peers s1)\<lparr>sessionPeersByKey := js_set ?key ?t (sessionPeersByKey (peers s1))\<rparr>\<rparr>"
  have "u = ?t" and s2: "s2 = snd (deliverEnvelope nodeId ready (CloseEnvelope ?t CloseCodeReplaced
      ''Replaced by newer sandbox tunnel connection.'') ?s)"
    using assms(1,4) s1 by (auto simp: attachPeer_def comp_bind_def registerLocalPeer_def Let_def
        ignore_errors_def setSessionPeer_def split: prod.splits option.splits)
  then show ?thesis
    using assms(1,2) t by (simp add: isCurrentPeer_def s2 getSessionPeer_def js_get_set deliverEnvelope_def
        CloseCodeReplaced_def)
qed

theorem reattach_closes_new_socket_witness:
  "let s1 = snd (attachPeer ''node'' (\<lambda>_. 1) ''sbi'' PtySandboxSide 4 ''pty'' no_peers);
       s2 = snd (attachPeer ''node'' (\<lambda>_. 1) ''sbi'' PtySandboxSide 5 ''pty'' s1) in
   socketLog s2 = socketLog s1 @ [CloseSocket 5 1012 ''Replaced by newer sandbox tunnel connection.'']"
proof -
  let ?s1 = "snd (attachPeer ''node'' (\<lambda>_. 1) ''sbi'' PtySandboxSide 4 ''pty'' no_peers)"
  let ?again = "attachPeer ''node'' (\<lambda>_. 1) ''sbi'' PtySandboxSide 5 ''pty'' ?s1"
  have "fst ?again = Inr (sample_peer PtySandboxSide ''pty'')"
    by code_simp
  then have "?again = (Inr (sample_peer PtySandboxSide ''pty''), snd ?again)"
    by (metis prod.collapse)
  from reattach_closes_new_socket [OF _ _ attach_sample this] show ?thesis
    by (simp add: WebSocketOpen_def)
qed

end
