(* ===== verification/RuntimeStores.thy ===== *)
theory RuntimeStores
  imports Forwarding
begin

text \<open>
  The in-memory runtime state of a gateway, \<open>apps/data-plane-gateway/src/runtime-state/adapters\<close>:
  presence leases and keepalive records, which expire, the runtime attachment of a sandbox and its
  readiness, which belong to an owner lease. \<open>lease_table\<close> is what the presence and keepalive stores
  promise: a lease is live from a touch until it expires or is released. A call that reads the clock of
  the store takes its reading \<open>clockMs\<close> as an argument; logging is left out.
\<close>

section \<open>Durations\<close>

definition OWNER_LEASE_RENEW_INTERVAL_MS :: int where "OWNER_LEASE_RENEW_INTERVAL_MS = 10000"
definition OWNER_LEASE_TTL_MS :: int where "OWNER_LEASE_TTL_MS = 30000"
definition ATTACHMENT_TTL_MS :: int where "ATTACHMENT_TTL_MS = 30000"
definition IDLE_TIMEOUT_MS :: int where "IDLE_TIMEOUT_MS = 300000"
definition BOOTSTRAP_DISCONNECT_GRACE_MS :: int where "BOOTSTRAP_DISCONNECT_GRACE_MS = 60000"
definition PRESENCE_LEASE_RENEW_INTERVAL_MS :: int where "PRESENCE_LEASE_RENEW_INTERVAL_MS = 10000"
definition PRESENCE_LEASE_TTL_MS :: int where "PRESENCE_LEASE_TTL_MS = 30000"
definition WEBSOCKET_PING_INTERVAL_MS :: int where "WEBSOCKET_PING_INTERVAL_MS = 10000"
definition WEBSOCKET_PONG_TIMEOUT_MS :: int where "WEBSOCKET_PONG_TIMEOUT_MS = 10000"
definition BOOTSTRAP_WEBSOCKET_MAX_CONSECUTIVE_MISSED_PONGS :: int where
  "BOOTSTRAP_WEBSOCKET_MAX_CONSECUTIVE_MISSED_PONGS = 3"

section \<open>Tables of expiring records\<close>

text \<open>
  Both stores keep a map of maps, sandbox to lease id to record, and prune the expired records of a
  sandbox in the same way; \<open>expires\<close> reads the expiry of a record.
\<close>

type_synonym 'r lease_map = "(string, (string, 'r) js_map) js_map"

definition prune_leases :: "('r \<Rightarrow> int) \<Rightarrow> string \<Rightarrow> int \<Rightarrow> 'r lease_map \<Rightarrow> 'r lease_map" where
  "prune_leases expires i nowMs m =
     (case js_get m i of
        None \<Rightarrow> m
      | Some leases \<Rightarrow>
          (let kept = filter (\<lambda>(_, r). \<not> expires r \<le> nowMs) leases in
           if js_size kept = 0 then js_delete i m else js_set i kept m))"

definition put_lease :: "string \<Rightarrow> string \<Rightarrow> 'r \<Rightarrow> 'r lease_map \<Rightarrow> 'r lease_map" where
  "put_lease i lease r m =
     js_set i (js_set lease r (case js_get m i of None \<Rightarrow> [] | Some leases \<Rightarrow> leases)) m"

definition drop_lease :: "string \<Rightarrow> string \<Rightarrow> 'r lease_map \<Rightarrow> bool \<times> 'r lease_map" where
  "drop_lease i lease m =
     (case js_get m i of
        None \<Rightarrow> (False, m)
      | Some leases \<Rightarrow>
          (let remaining = js_delete lease leases in
           (js_has leases lease, if js_size remaining = 0 then js_delete i m else js_set i remaining m)))"

definition lease_of :: "'r lease_map \<Rightarrow> string \<Rightarrow> string \<Rightarrow> 'r option" where
  "lease_of m i lease = (case js_get m i of None \<Rightarrow> None | Some leases \<Rightarrow> js_get leases lease)"

text \<open>No empty map is kept for a sandbox.\<close>

definition wf_leases :: "'r lease_map \<Rightarrow> bool" where
  "wf_leases m \<longleftrightarrow> (\<forall>i leases. js_get m i = Some leases \<longrightarrow> wf_map leases \<and> leases \<noteq> [])"

lemma lease_of_put [store_simps]:
  "lease_of (put_lease i l r m) j k = (if j = i \<and> k = l then Some r else lease_of m j k)"
  by (simp add: lease_of_def put_lease_def js_get_set split: option.split)

lemma wf_put_lease [wf_intros]: "wf_leases m \<Longrightarrow> wf_leases (put_lease i l r m)"
  by (auto simp: wf_leases_def put_lease_def js_get_set wf_map_set split: option.splits if_splits)

lemma wf_leases_get: "wf_leases m \<Longrightarrow> js_get m i = Some leases \<Longrightarrow> wf_map leases \<and> leases \<noteq> []"
  by (simp add: wf_leases_def)

lemma lease_of_prune [store_simps]:
  assumes "wf_leases m"
  shows "lease_of (prune_leases expires i now m) j k =
    (case lease_of m j k of None \<Rightarrow> None
     | Some r \<Rightarrow> if j = i \<and> expires r \<le> now then None else Some r)"
proof (cases "js_get m i")
  case (Some leases)
  have "js_get (filter (\<lambda>(_, r). \<not> expires r \<le> now) leases) k =
      (case js_get leases k of None \<Rightarrow> None | Some r \<Rightarrow> if \<not> expires r \<le> now then Some r else None)"
    using js_get_filter [of leases "\<lambda>_ r. \<not> expires r \<le> now"] wf_leases_get [OF assms Some] by simp
  moreover have "js_get (filter (\<lambda>(_, r). \<not> expires r \<le> now) leases) k = None"
    if "filter (\<lambda>(_, r). \<not> expires r \<le> now) leases = []"
    using that by simp
  ultimately show ?thesis
    using Some by (auto simp: prune_leases_def lease_of_def Let_def js_get_set js_get_delete split: option.split)
qed (auto simp: prune_leases_def lease_of_def split: option.split)

lemma wf_prune [wf_intros]: "wf_leases m \<Longrightarrow> wf_leases (prune_leases expires i now m)"
  by (auto simp: wf_leases_def prune_leases_def Let_def js_get_set js_get_delete wf_map_filter
      split: option.split if_splits)

lemma drop_lease_lease_of [store_simps]:
  assumes "wf_leases m"
  shows "fst (drop_lease i l m) \<longleftrightarrow> lease_of m i l \<noteq> None"
    and "lease_of (snd (drop_lease i l m)) j k = (if j = i \<and> k = l then None else lease_of m j k)"
proof -
  have "js_get leases k = None" if "js_delete l leases = []" "k \<noteq> l" for leases :: "(string, 'a) js_map" and k
    using that js_get_delete [of l leases k] by simp
  then show "lease_of (snd (drop_lease i l m)) j k = (if j = i \<and> k = l then None else lease_of m j k)"
    by (auto simp: drop_lease_def lease_of_def Let_def js_get_set js_get_delete split: option.split)
qed (auto simp: drop_lease_def lease_of_def js_has_def Let_def split: option.split)

lemma wf_drop [wf_intros]: "wf_leases m \<Longrightarrow> wf_leases (snd (drop_lease i l m))"
  by (auto simp: wf_leases_def drop_lease_def Let_def js_get_set js_get_delete wf_map_delete
      split: option.split if_splits)

lemma lease_exists:
  assumes "wf_leases m"
  shows "js_get m i \<noteq> None \<longleftrightarrow> (\<exists>l. lease_of m i l \<noteq> None)"
proof
  assume "js_get m i \<noteq> None"
  then obtain leases where leases: "js_get m i = Some leases"
    by blast
  then obtain l r rest where "leases = (l, r) # rest"
    using wf_leases_get [OF assms leases] by (cases leases) auto
  with leases have "lease_of m i l = Some r"
    by (simp add: lease_of_def)
  then show "\<exists>l. lease_of m i l \<noteq> None"
    by blast
qed (auto simp: lease_of_def split: option.splits)

section \<open>The interface\<close>

text \<open>
  \<open>expiry\<close> is the abstract state of a table: when a lease expires, if it is stored. A query at \<open>now\<close>
  answers from the leases that expire later and may forget the others.
\<close>

locale lease_table =
  fixes touch :: "string \<Rightarrow> string \<Rightarrow> 'i \<Rightarrow> int \<Rightarrow> int \<Rightarrow> 's \<Rightarrow> 's"
    and release :: "int \<Rightarrow> string \<Rightarrow> string \<Rightarrow> 's \<Rightarrow> bool \<times> 's"
    and query :: "int \<Rightarrow> string \<Rightarrow> 's \<Rightarrow> bool \<times> 's"
    and expiry :: "'s \<Rightarrow> string \<Rightarrow> string \<Rightarrow> int option"
    and inv :: "'s \<Rightarrow> bool"
  assumes inv_ops: "inv s \<Longrightarrow> inv (touch i l info ttl now s)" "inv s \<Longrightarrow> inv (snd (release now i l s))"
      "inv s \<Longrightarrow> inv (snd (query now i s))"
    and touched: "inv s \<Longrightarrow> expiry (touch i l info ttl now s) j k =
        (if j = i \<and> k = l then Some (now + ttl) else expiry s j k)"
    and released: "inv s \<Longrightarrow> fst (release now i l s) \<longleftrightarrow> (\<exists>e. expiry s i l = Some e \<and> now < e)"
      "inv s \<Longrightarrow> expiry (snd (release now i l s)) j k =
        (if j = i \<and> k = l then None else case expiry s j k of None \<Rightarrow> None
         | Some e \<Rightarrow> if j = i \<and> e \<le> now then None else Some e)"
    and queried: "inv s \<Longrightarrow> fst (query now i s) \<longleftrightarrow> (\<exists>l e. expiry s i l = Some e \<and> now < e)"
      "inv s \<Longrightarrow> expiry (snd (query now i s)) j k = (case expiry s j k of None \<Rightarrow> None
         | Some e \<Rightarrow> if j = i \<and> e \<le> now then None else Some e)"
begin

text \<open>Answers at \<open>t\<close> are not changed by queries and releases of other leases made before \<open>t\<close>.\<close>

definition live :: "int \<Rightarrow> 's \<Rightarrow> string \<Rightarrow> string \<Rightarrow> bool" where
  "live t s i l \<longleftrightarrow> (\<exists>e. expiry s i l = Some e \<and> t < e)"

lemma live_touch: "inv s \<Longrightarrow> live t (touch i l info ttl now s) j k \<longleftrightarrow>
    (if j = i \<and> k = l then t < now + ttl else live t s j k)"
  by (simp add: live_def touched)

lemma live_release: "inv s \<Longrightarrow> now \<le> t \<Longrightarrow>
    live t (snd (release now i l s)) j k \<longleftrightarrow> (j \<noteq> i \<or> k \<noteq> l) \<and> live t s j k"
  by (auto simp: live_def released split: option.split)

lemma live_query: "inv s \<Longrightarrow> now \<le> t \<Longrightarrow> live t (snd (query now i s)) j k \<longleftrightarrow> live t s j k"
  by (auto simp: live_def queried split: option.split)

lemma query_live: "inv s \<Longrightarrow> fst (query t i s) \<longleftrightarrow> (\<exists>l. live t s i l)"
  by (simp add: queried live_def)

text \<open>A touched lease keeps its sandbox active until it expires, whatever else happens before.\<close>

lemma touch_query:
  assumes "inv s" and "now \<le> t'" and "t' \<le> t" and "t < now + ttl" and "k \<noteq> l \<or> j \<noteq> i"
  shows "fst (query t i (snd (release t' j k (touch i l info ttl now s))))"
    and "fst (query t i (snd (query t' j (touch i l info ttl now s))))"
  using assms inv_ops by (auto simp: query_live live_release live_query live_touch)

end

text \<open>
  Calls with the clock readings they are made at, run on a table, and the specification of their
  results: leases are never forgotten but by a release, and count while they have not expired.
\<close>

datatype 'i lease_call =
    TouchCall string string 'i int
  | ReleaseCall string string
  | QueryCall string

fun run_leases ::
  "(string \<Rightarrow> string \<Rightarrow> 'i \<Rightarrow> int \<Rightarrow> int \<Rightarrow> 's \<Rightarrow> 's) \<Rightarrow> (int \<Rightarrow> string \<Rightarrow> string \<Rightarrow> 's \<Rightarrow> bool \<times> 's)
     \<Rightarrow> (int \<Rightarrow> string \<Rightarrow> 's \<Rightarrow> bool \<times> 's) \<Rightarrow> (int \<times> 'i lease_call) list \<Rightarrow> 's \<Rightarrow> bool list" where
  "run_leases touch release query [] s = []"
| "run_leases touch release query ((now, TouchCall i l info ttl) # calls) s =
     True # run_leases touch release query calls (touch i l info ttl now s)"
| "run_leases touch release query ((now, ReleaseCall i l) # calls) s =
     fst (release now i l s) # run_leases touch release query calls (snd (release now i l s))"
| "run_leases touch release query ((now, QueryCall i) # calls) s =
     fst (query now i s) # run_leases touch release query calls (snd (query now i s))"

fun spec_leases :: "(int \<times> 'i lease_call) list \<Rightarrow> (string \<times> string, int) js_map \<Rightarrow> bool list" where
  "spec_leases [] A = []"
| "spec_leases ((now, TouchCall i l info ttl) # calls) A =
     True # spec_leases calls (js_set (i, l) (now + ttl) A)"
| "spec_leases ((now, ReleaseCall i l) # calls) A =
     (case js_get A (i, l) of None \<Rightarrow> False | Some e \<Rightarrow> now < e) # spec_leases calls (js_delete (i, l) A)"
| "spec_leases ((now, QueryCall i) # calls) A =
     list_ex (\<lambda>((j, l), e). j = i \<and> now < e) A # spec_leases calls A"

lemma list_ex_lease:
  assumes "wf_map A"
  shows "list_ex (\<lambda>((j, l), e). j = i \<and> now < e) A \<longleftrightarrow> (\<exists>l e. js_get A (i, l) = Some e \<and> now < e)"
  using assms by (auto simp: list_ex_iff simp flip: js_entry_iff)

context lease_table
begin

definition tracks :: "int \<Rightarrow> (string \<times> string, int) js_map \<Rightarrow> 's \<Rightarrow> bool" where
  "tracks now A s \<longleftrightarrow> inv s \<and> wf_map A
     \<and> (\<forall>t i l. now \<le> t \<longrightarrow> live t s i l \<longleftrightarrow> (\<exists>e. js_get A (i, l) = Some e \<and> t < e))"

lemma tracks_later: "tracks now A s \<Longrightarrow> now \<le> now' \<Longrightarrow> tracks now' A s"
  by (simp add: tracks_def)

lemma tracks_touch: "tracks now A s \<Longrightarrow> tracks now (js_set (i, l) (now + ttl) A) (touch i l info ttl now s)"
  by (auto simp: tracks_def inv_ops wf_map_set live_touch js_get_set)

lemma tracks_release: "tracks now A s \<Longrightarrow> tracks now (js_delete (i, l) A) (snd (release now i l s))"
  by (auto simp: tracks_def inv_ops wf_map_delete live_release js_get_delete)

lemma tracks_query: "tracks now A s \<Longrightarrow> tracks now A (snd (query now i s))"
  by (auto simp: tracks_def inv_ops live_query)

theorem run_refines:
  "sorted (map fst calls) \<Longrightarrow> (\<And>now call. (now, call) \<in> set calls \<Longrightarrow> start \<le> now) \<Longrightarrow> tracks start A s \<Longrightarrow>
     run_leases touch release query calls s = spec_leases calls A"
proof (induction calls arbitrary: start A s)
  case (Cons c calls)
  obtain now call where c: "c = (now, call)"
    by fastforce
  have now: "tracks now A s"
    using Cons.prems(2) [of now call] Cons.prems(3) tracks_later by (auto simp: c)
  have later: "now \<le> now'" if "(now', call') \<in> set calls" for now' call'
    using Cons.prems(1) that by (force simp: c)
  have ih: "run_leases touch release query calls s' = spec_leases calls A'" if "tracks now A' s'" for A' s'
    using Cons.IH [OF _ later that] Cons.prems(1) by (simp add: c)
  have answers: "fst (release now i l s) \<longleftrightarrow> (\<exists>e. js_get A (i, l) = Some e \<and> now < e)"
    "fst (query now i s) \<longleftrightarrow> (\<exists>l e. js_get A (i, l) = Some e \<and> now < e)" for i l
    using now by (auto simp: tracks_def released queried live_def)
  show ?case
  proof (cases call)
    case (QueryCall i)
    have "wf_map A"
      using now by (simp add: tracks_def)
    then show ?thesis
      using ih [OF tracks_query [OF now]] by (simp add: c QueryCall answers list_ex_lease)
  qed (use ih [OF tracks_touch [OF now]] ih [OF tracks_release [OF now]] in
      \<open>auto simp: c answers split: option.split\<close>)
qed simp

end

section \<open>Presence\<close>

datatype presence_source = DashboardPresence | CliPresence

record presence_lease =
  presence_sandboxInstanceId :: string
  presence_leaseId :: string
  presence_source :: presence_source
  presence_sessionId :: string
  presence_expiresAtMs :: int

type_synonym presence_store = "presence_lease lease_map"

definition touchLease ::
  "string \<Rightarrow> string \<Rightarrow> presence_source \<Rightarrow> string \<Rightarrow> int \<Rightarrow> int \<Rightarrow> presence_store \<Rightarrow> presence_store" where
  "touchLease i leaseId source sessionId ttlMs nowMs store =
     put_lease i leaseId \<lparr>presence_sandboxInstanceId = i, presence_leaseId = leaseId,
       presence_source = source, presence_sessionId = sessionId,
       presence_expiresAtMs = nowMs + ttlMs\<rparr> store"

definition pruneExpiredLeases :: "string \<Rightarrow> int \<Rightarrow> presence_store \<Rightarrow> presence_store" where
  "pruneExpiredLeases i nowMs store = prune_leases presence_expiresAtMs i nowMs store"

definition releaseLease :: "int \<Rightarrow> string \<Rightarrow> string \<Rightarrow> presence_store \<Rightarrow> bool \<times> presence_store" where
  "releaseLease clockMs i leaseId store = drop_lease i leaseId (pruneExpiredLeases i clockMs store)"

definition countActiveLeases :: "string \<Rightarrow> int \<Rightarrow> presence_store \<Rightarrow> nat \<times> presence_store" where
  "countActiveLeases i nowMs store =
     (let pruned = pruneExpiredLeases i nowMs store in
      (case js_get pruned i of None \<Rightarrow> 0 | Some leases \<Rightarrow> js_size leases, pruned))"

definition hasAnyActiveLease :: "string \<Rightarrow> int \<Rightarrow> presence_store \<Rightarrow> bool \<times> presence_store" where
  "hasAnyActiveLease i nowMs store =
     (case countActiveLeases i nowMs store of (n, store') \<Rightarrow> (n > 0, store'))"

definition presence_expiry :: "presence_store \<Rightarrow> string \<Rightarrow> string \<Rightarrow> int option" where
  "presence_expiry store i l = map_option presence_expiresAtMs (lease_of store i l)"

lemma lease_of_prune_some:
  "wf_leases m \<Longrightarrow> lease_of (prune_leases expires i now m) i l \<noteq> None \<longleftrightarrow>
     (\<exists>r. lease_of m i l = Some r \<and> now < expires r)"
  by (auto simp: lease_of_prune split: option.split)

lemma hasAnyActiveLease_iff:
  assumes "wf_leases store"
  shows "fst (hasAnyActiveLease i now store) \<longleftrightarrow> (\<exists>l e. presence_expiry store i l = Some e \<and> now < e)"
proof -
  have wf: "wf_leases (pruneExpiredLeases i now store)"
    using assms by (simp add: pruneExpiredLeases_def wf_prune)
  have "fst (hasAnyActiveLease i now store) \<longleftrightarrow> js_get (pruneExpiredLeases i now store) i \<noteq> None"
    using wf_leases_get [OF wf, of i] by (auto simp: hasAnyActiveLease_def countActiveLeases_def Let_def
        split: option.split)
  also have "\<dots> \<longleftrightarrow> (\<exists>l. lease_of (pruneExpiredLeases i now store) i l \<noteq> None)"
    by (rule lease_exists [OF wf])
  also have "\<dots> \<longleftrightarrow> (\<exists>l e. presence_expiry store i l = Some e \<and> now < e)"
    using lease_of_prune_some [OF assms, of presence_expiresAtMs i now]
    by (simp add: pruneExpiredLeases_def presence_expiry_def) blast
  finally show ?thesis .
qed

interpretation presence: lease_table
  "\<lambda>i l (source, sessionId) ttlMs nowMs. touchLease i l source sessionId ttlMs nowMs"
  releaseLease "\<lambda>nowMs i. hasAnyActiveLease i nowMs" presence_expiry wf_leases
proof unfold_locales
  fix s :: presence_store and now i l j k
  assume wf: "wf_leases s"
  have pruned: "wf_leases (prune_leases presence_expiresAtMs i now s)"
    using wf by (rule wf_prune)
  have stored: "snd (hasAnyActiveLease i now s) = prune_leases presence_expiresAtMs i now s"
    by (simp add: hasAnyActiveLease_def countActiveLeases_def pruneExpiredLeases_def Let_def)
  show "wf_leases (snd (releaseLease now i l s))"
    unfolding releaseLease_def pruneExpiredLeases_def by (rule wf_drop [OF pruned])
  show "wf_leases (snd (hasAnyActiveLease i now s))"
    unfolding stored by (rule pruned)
  show "fst (releaseLease now i l s) \<longleftrightarrow> (\<exists>e. presence_expiry s i l = Some e \<and> now < e)"
    using lease_of_prune_some [OF wf, of presence_expiresAtMs i now l]
    by (simp add: releaseLease_def pruneExpiredLeases_def drop_lease_lease_of [OF pruned] presence_expiry_def)
      blast
  show "presence_expiry (snd (releaseLease now i l s)) j k =
      (if j = i \<and> k = l then None else case presence_expiry s j k of None \<Rightarrow> None
       | Some e \<Rightarrow> if j = i \<and> e \<le> now then None else Some e)"
    by (auto simp: releaseLease_def pruneExpiredLeases_def drop_lease_lease_of [OF pruned]
        presence_expiry_def lease_of_prune [OF wf] split: option.split)
  show "fst (hasAnyActiveLease i now s) \<longleftrightarrow> (\<exists>l e. presence_expiry s i l = Some e \<and> now < e)"
    by (rule hasAnyActiveLease_iff [OF wf])
  show "presence_expiry (snd (hasAnyActiveLease i now s)) j k = (case presence_expiry s j k of None \<Rightarrow> None
       | Some e \<Rightarrow> if j = i \<and> e \<le> now then None else Some e)"
    by (auto simp: stored presence_expiry_def lease_of_prune [OF wf] split: option.split)
qed (auto simp: touchLease_def wf_put_lease presence_expiry_def lease_of_put)

section \<open>Keepalive\<close>

record keepalive_record =
  keepalive_sandboxInstanceId :: string
  keepalive_keepaliveId :: string
  keepalive_source :: string
  keepalive_externalSubjectId :: "string option"
  keepalive_metadata :: "string option"
  keepalive_nodeId :: string
  keepalive_expiresAtMs :: int

record keepalive_state =
  kstate_sandboxInstanceId :: string
  kstate_ownerLeaseId :: string
  kstate_nodeId :: string
  kstate_active :: bool
  kstate_expiresAtMs :: int

record keepalive_store =
  keepalivesBySandboxInstanceId :: "keepalive_record lease_map"
  stateBySandboxInstanceId :: "(string, keepalive_state) js_map"

definition touchKeepalive ::
  "string \<Rightarrow> string \<Rightarrow> string \<Rightarrow> string option \<Rightarrow> string option \<Rightarrow> string \<Rightarrow> int \<Rightarrow> int
     \<Rightarrow> keepalive_store \<Rightarrow> keepalive_store" where
  "touchKeepalive i keepaliveId source subject metadata nodeId ttlMs nowMs store =
     store\<lparr>keepalivesBySandboxInstanceId := put_lease i keepaliveId
       \<lparr>keepalive_sandboxInstanceId = i, keepalive_keepaliveId = keepaliveId, keepalive_source = source,
        keepalive_externalSubjectId = subject, keepalive_metadata = metadata,
        keepalive_nodeId = nodeId, keepalive_expiresAtMs = nowMs + ttlMs\<rparr>
       (keepalivesBySandboxInstanceId store)\<rparr>"

definition keepalive_replaceStateForOwner ::
  "string \<Rightarrow> string \<Rightarrow> string \<Rightarrow> int \<Rightarrow> int \<Rightarrow> bool \<Rightarrow> keepalive_store \<Rightarrow> keepalive_store" where
  "keepalive_replaceStateForOwner i ownerLeaseId nodeId ttlMs nowMs active store =
     store\<lparr>stateBySandboxInstanceId := js_set i
       \<lparr>kstate_sandboxInstanceId = i, kstate_ownerLeaseId = ownerLeaseId, kstate_nodeId = nodeId,
        kstate_active = active, kstate_expiresAtMs = nowMs + ttlMs\<rparr> (stateBySandboxInstanceId store)\<rparr>"

definition pruneExpiredKeepalives :: "string \<Rightarrow> int \<Rightarrow> keepalive_store \<Rightarrow> keepalive_store" where
  "pruneExpiredKeepalives i nowMs store = store\<lparr>keepalivesBySandboxInstanceId :=
     prune_leases keepalive_expiresAtMs i nowMs (keepalivesBySandboxInstanceId store)\<rparr>"

definition pruneExpiredState :: "string \<Rightarrow> int \<Rightarrow> keepalive_store \<Rightarrow> keepalive_store" where
  "pruneExpiredState i nowMs store =
     (case js_get (stateBySandboxInstanceId store) i of
        None \<Rightarrow> store
      | Some state \<Rightarrow> if kstate_expiresAtMs state \<le> nowMs
          then store\<lparr>stateBySandboxInstanceId := js_delete i (stateBySandboxInstanceId store)\<rparr> else store)"

definition renewKeepalive ::
  "int \<Rightarrow> string \<Rightarrow> string \<Rightarrow> int \<Rightarrow> int \<Rightarrow> keepalive_store \<Rightarrow> bool \<times> keepalive_store" where
  "renewKeepalive clockMs i keepaliveId ttlMs nowMs store =
     (let pruned = pruneExpiredKeepalives i clockMs store in
      case lease_of (keepalivesBySandboxInstanceId pruned) i keepaliveId of
        None \<Rightarrow> (False, pruned)
      | Some current \<Rightarrow> (True, pruned\<lparr>keepalivesBySandboxInstanceId :=
          put_lease i keepaliveId (current\<lparr>keepalive_expiresAtMs := nowMs + ttlMs\<rparr>)
            (keepalivesBySandboxInstanceId pruned)\<rparr>))"

definition releaseKeepalive :: "int \<Rightarrow> string \<Rightarrow> string \<Rightarrow> keepalive_store \<Rightarrow> bool \<times> keepalive_store" where
  "releaseKeepalive clockMs i keepaliveId store =
     (let pruned = pruneExpiredKeepalives i clockMs store in
      case drop_lease i keepaliveId (keepalivesBySandboxInstanceId pruned) of
        (deleted, m) \<Rightarrow> (deleted, pruned\<lparr>keepalivesBySandboxInstanceId := m\<rparr>))"

definition keepalive_summarize ::
  "string \<Rightarrow> int \<Rightarrow> string option \<Rightarrow> keepalive_store \<Rightarrow> bool \<times> keepalive_store" where
  "keepalive_summarize i nowMs ownerLeaseId store =
     (let s = pruneExpiredState i nowMs (pruneExpiredKeepalives i nowMs store) in
      ((case js_get (keepalivesBySandboxInstanceId s) i of
          None \<Rightarrow> False | Some keepalives \<Rightarrow> js_size keepalives > 0)
       \<or> (case ownerLeaseId of None \<Rightarrow> False
          | Some lease \<Rightarrow> (case js_get (stateBySandboxInstanceId s) i of None \<Rightarrow> False
              | Some state \<Rightarrow> kstate_active state \<and> kstate_ownerLeaseId state = lease)), s))"

definition keepalive_expiry :: "keepalive_store \<Rightarrow> string \<Rightarrow> string \<Rightarrow> int option" where
  "keepalive_expiry store i l =
     map_option keepalive_expiresAtMs (lease_of (keepalivesBySandboxInstanceId store) i l)"

definition wf_keepalives :: "keepalive_store \<Rightarrow> bool" where
  "wf_keepalives store \<longleftrightarrow> wf_leases (keepalivesBySandboxInstanceId store)"

lemma pruneExpiredState_keepalives [simp]:
  "keepalivesBySandboxInstanceId (pruneExpiredState i now s) = keepalivesBySandboxInstanceId s"
  by (simp add: pruneExpiredState_def split: option.split)

lemma pruneExpiredState_get:
  "js_get (stateBySandboxInstanceId (pruneExpiredState i now s)) i = Some state \<longleftrightarrow>
     js_get (stateBySandboxInstanceId s) i = Some state \<and> now < kstate_expiresAtMs state"
  by (auto simp: pruneExpiredState_def js_get_delete split: option.split)

lemma keepalive_summarize_iff:
  assumes "wf_keepalives store"
  shows "fst (keepalive_summarize i now owner store) \<longleftrightarrow>
    (\<exists>l e. keepalive_expiry store i l = Some e \<and> now < e)
    \<or> (\<exists>lease state. owner = Some lease \<and> js_get (stateBySandboxInstanceId store) i = Some state
        \<and> now < kstate_expiresAtMs state \<and> kstate_active state \<and> kstate_ownerLeaseId state = lease)"
proof -
  let ?m = "keepalivesBySandboxInstanceId store"
  let ?p = "prune_leases keepalive_expiresAtMs i now ?m"
  have wf: "wf_leases ?m" and pruned: "wf_leases ?p"
    using assms by (simp_all add: wf_keepalives_def wf_prune)
  have "(case js_get ?p i of None \<Rightarrow> False | Some keepalives \<Rightarrow> js_size keepalives > 0) \<longleftrightarrow> js_get ?p i \<noteq> None"
    using wf_leases_get [OF pruned, of i] by (auto split: option.split)
  also have "\<dots> \<longleftrightarrow> (\<exists>l e. keepalive_expiry store i l = Some e \<and> now < e)"
    using lease_exists [OF pruned, of i] lease_of_prune_some [OF wf, of keepalive_expiresAtMs i now]
    by (simp add: keepalive_expiry_def) blast
  finally have keepalives: "(case js_get ?p i of None \<Rightarrow> False | Some keepalives \<Rightarrow> js_size keepalives > 0) \<longleftrightarrow>
      (\<exists>l e. keepalive_expiry store i l = Some e \<and> now < e)" .
  have state: "(case owner of None \<Rightarrow> False
      | Some lease \<Rightarrow> (case js_get (stateBySandboxInstanceId
            (pruneExpiredState i now (pruneExpiredKeepalives i now store))) i of None \<Rightarrow> False
          | Some state \<Rightarrow> kstate_active state \<and> kstate_ownerLeaseId state = lease))
      \<longleftrightarrow> (\<exists>lease state. owner = Some lease \<and> js_get (stateBySandboxInstanceId store) i = Some state
        \<and> now < kstate_expiresAtMs state \<and> kstate_active state \<and> kstate_ownerLeaseId state = lease)"
  proof -
    have "js_get (stateBySandboxInstanceId (pruneExpiredState i now (pruneExpiredKeepalives i now store))) i
        = Some st \<longleftrightarrow> js_get (stateBySandboxInstanceId store) i = Some st \<and> now < kstate_expiresAtMs st" for st
      by (simp add: pruneExpiredState_get) (simp add: pruneExpiredKeepalives_def)
    then show ?thesis
      by (auto split: option.splits)
  qed
  show ?thesis
    unfolding keepalive_summarize_def Let_def fst_conv state pruneExpiredState_keepalives
    by (simp add: pruneExpiredKeepalives_def keepalives)
qed

interpretation keepalive: lease_table
  "\<lambda>i l (source, subject, metadata, nodeId) ttlMs nowMs.
     touchKeepalive i l source subject metadata nodeId ttlMs nowMs"
  releaseKeepalive "\<lambda>nowMs i. keepalive_summarize i nowMs None" keepalive_expiry wf_keepalives
proof unfold_locales
  fix s :: keepalive_store and now i l j k
  assume wf: "wf_keepalives s"
  then have leases: "wf_leases (keepalivesBySandboxInstanceId s)"
    by (simp add: wf_keepalives_def)
  then have pruned: "wf_leases (prune_leases keepalive_expiresAtMs i now (keepalivesBySandboxInstanceId s))"
    by (rule wf_prune)
  have released: "fst (releaseKeepalive now i l s) = fst (drop_lease i l (prune_leases keepalive_expiresAtMs i now
      (keepalivesBySandboxInstanceId s)))" "keepalivesBySandboxInstanceId (snd (releaseKeepalive now i l s))
      = snd (drop_lease i l (prune_leases keepalive_expiresAtMs i now (keepalivesBySandboxInstanceId s)))"
    by (simp_all add: releaseKeepalive_def pruneExpiredKeepalives_def Let_def split: prod.split)
  have stored: "keepalivesBySandboxInstanceId (snd (keepalive_summarize i now None s)) =
      prune_leases keepalive_expiresAtMs i now (keepalivesBySandboxInstanceId s)"
    by (simp add: keepalive_summarize_def Let_def) (simp add: pruneExpiredKeepalives_def)
  show "wf_keepalives (snd (releaseKeepalive now i l s))"
    unfolding wf_keepalives_def released by (rule wf_drop [OF pruned])
  show "wf_keepalives (snd (keepalive_summarize i now None s))"
    unfolding wf_keepalives_def stored by (rule pruned)
  show "fst (releaseKeepalive now i l s) \<longleftrightarrow> (\<exists>e. keepalive_expiry s i l = Some e \<and> now < e)"
    using lease_of_prune_some [OF leases, of keepalive_expiresAtMs i now l]
    by (simp add: released drop_lease_lease_of [OF pruned] keepalive_expiry_def) blast
  show "keepalive_expiry (snd (releaseKeepalive now i l s)) j k =
      (if j = i \<and> k = l then None else case keepalive_expiry s j k of None \<Rightarrow> None
       | Some e \<Rightarrow> if j = i \<and> e \<le> now then None else Some e)"
    by (auto simp: released drop_lease_lease_of [OF pruned] keepalive_expiry_def lease_of_prune [OF leases]
        split: option.split)
  show "fst (keepalive_summarize i now None s) \<longleftrightarrow> (\<exists>l e. keepalive_expiry s i l = Some e \<and> now < e)"
    by (simp add: keepalive_summarize_iff [OF wf])
  show "keepalive_expiry (snd (keepalive_summarize i now None s)) j k =
      (case keepalive_expiry s j k of None \<Rightarrow> None | Some e \<Rightarrow> if j = i \<and> e \<le> now then None else Some e)"
    by (auto simp: stored keepalive_expiry_def lease_of_prune [OF leases] split: option.split)
qed (auto simp: touchKeepalive_def wf_keepalives_def wf_put_lease keepalive_expiry_def lease_of_put)

section \<open>Attachment and readiness\<close>

text \<open>An attachment is the \<open>active_bootstrap_session\<close> of theory Forwarding.\<close>

record attachment_record =
  attachment :: active_bootstrap_session
  attachment_expiresAtMs :: int

type_synonym attachment_store = "(string, attachment_record) js_map"

definition upsertAttachment :: "active_bootstrap_session \<Rightarrow> int \<Rightarrow> int \<Rightarrow> attachment_store \<Rightarrow> attachment_store" where
  "upsertAttachment a ttlMs nowMs store = js_set (active_sandboxInstanceId a)
     \<lparr>attachment = a, attachment_expiresAtMs = nowMs + ttlMs\<rparr> store"

definition getAttachment ::
  "string \<Rightarrow> int \<Rightarrow> attachment_store \<Rightarrow> active_bootstrap_session option \<times> attachment_store" where
  "getAttachment i nowMs store =
     (case js_get store i of
        None \<Rightarrow> (None, store)
      | Some current \<Rightarrow> if attachment_expiresAtMs current > nowMs then (Some (attachment current), store)
          else (None, js_delete i store))"

definition clearAttachment :: "int \<Rightarrow> string \<Rightarrow> string \<Rightarrow> attachment_store \<Rightarrow> bool \<times> attachment_store" where
  "clearAttachment clockMs i ownerLeaseId store =
     (case getAttachment i clockMs store of
        (None, store') \<Rightarrow> (False, store')
      | (Some current, store') \<Rightarrow>
          if active_ownerLeaseId current \<noteq> ownerLeaseId then (False, store')
          else (True, js_delete i store'))"

definition getActiveSession ::
  "string \<Rightarrow> int \<Rightarrow> attachment_store \<Rightarrow> active_bootstrap_session option \<times> attachment_store" where
  "getActiveSession i nowMs store = getAttachment i nowMs store"

record readiness_state =
  ready_sandboxInstanceId :: string
  ready_ownerLeaseId :: string
  ready_nodeId :: string
  ready_ready :: bool

type_synonym readiness_store = "(string, readiness_state) js_map"

definition readiness_replaceStateForOwner ::
  "string \<Rightarrow> string \<Rightarrow> string \<Rightarrow> bool \<Rightarrow> readiness_store \<Rightarrow> readiness_store" where
  "readiness_replaceStateForOwner i ownerLeaseId nodeId isReady store = js_set i
     \<lparr>ready_sandboxInstanceId = i, ready_ownerLeaseId = ownerLeaseId, ready_nodeId = nodeId,
      ready_ready = isReady\<rparr> store"

definition readiness_summarize :: "string \<Rightarrow> string option \<Rightarrow> readiness_store \<Rightarrow> bool" where
  "readiness_summarize i ownerLeaseId store =
     (case ownerLeaseId of
        None \<Rightarrow> False
      | Some lease \<Rightarrow> (case js_get store i of
          None \<Rightarrow> False
        | Some current \<Rightarrow> if ready_ownerLeaseId current \<noteq> lease then False else ready_ready current))"

section \<open>Properties\<close>

text \<open>
  The presence store refines the table that forgets nothing: for calls made at increasing clock
  readings, touches, releases and activity queries answer as if every lease were kept with its expiry
  time and only a release removed it, so pruning is never observed.
\<close>

theorem presence_refines:
  assumes "sorted (map fst calls)"
  shows "run_leases (\<lambda>i l (source, sessionId) ttlMs nowMs. touchLease i l source sessionId ttlMs nowMs)
      releaseLease (\<lambda>nowMs i. hasAnyActiveLease i nowMs) calls [] = spec_leases calls []"
proof (cases calls)
  case (Cons c rest)
  have tracks: "presence.tracks start [] []" for start
    by (simp add: presence.tracks_def wf_leases_def presence.live_def presence_expiry_def lease_of_def)
  show ?thesis
    by (rule presence.run_refines [OF assms _ tracks, of "fst c"]) (use assms Cons in force)
qed simp

definition sample_calls :: "(int \<times> (presence_source \<times> string) lease_call) list" where
  "sample_calls = [(0, TouchCall ''sbi'' ''a'' (CliPresence, ''s'') 30000), (10, QueryCall ''sbi''),
     (20, ReleaseCall ''sbi'' ''a''), (30, QueryCall ''sbi'')]"

theorem presence_refines_witness:
  "run_leases (\<lambda>i l (source, sessionId) ttlMs nowMs. touchLease i l source sessionId ttlMs nowMs)
     releaseLease (\<lambda>nowMs i. hasAnyActiveLease i nowMs) sample_calls [] = [True, True, True, False]"
proof -
  have sorted: "sorted (map fst sample_calls)"
    by (simp add: sample_calls_def)
  have spec: "spec_leases sample_calls [] = [True, True, True, False]"
    by code_simp
  from presence_refines [OF sorted] show ?thesis
    by (simp only: spec)
qed

text \<open>
  The keepalive store gives the same answers for keepalive records, and its summary is active
  exactly if a keepalive record has not expired or the unexpired keepalive state of the given owner
  lease says so; the state of another owner never counts.
\<close>

theorem keepalive_refines:
  assumes "sorted (map fst calls)"
    and "wf_keepalives store"
  shows "run_leases (\<lambda>i l (source, subject, metadata, nodeId) ttlMs nowMs.
        touchKeepalive i l source subject metadata nodeId ttlMs nowMs)
      releaseKeepalive (\<lambda>nowMs i. keepalive_summarize i nowMs None) calls
      \<lparr>keepalivesBySandboxInstanceId = [], stateBySandboxInstanceId = states\<rparr> = spec_leases calls []
    \<and> (fst (keepalive_summarize i now owner store) \<longleftrightarrow>
        fst (keepalive_summarize i now None store)
        \<or> (\<exists>state. js_get (stateBySandboxInstanceId store) i = Some state \<and> now < kstate_expiresAtMs state
            \<and> kstate_active state \<and> owner = Some (kstate_ownerLeaseId state)))"
proof
  have tracks: "keepalive.tracks start [] \<lparr>keepalivesBySandboxInstanceId = [], stateBySandboxInstanceId = states\<rparr>" for start
    by (simp add: keepalive.tracks_def wf_keepalives_def wf_leases_def keepalive.live_def
        keepalive_expiry_def lease_of_def)
  show "run_leases (\<lambda>i l (source, subject, metadata, nodeId) ttlMs nowMs.
        touchKeepalive i l source subject metadata nodeId ttlMs nowMs)
      releaseKeepalive (\<lambda>nowMs i. keepalive_summarize i nowMs None) calls
      \<lparr>keepalivesBySandboxInstanceId = [], stateBySandboxInstanceId = states\<rparr> = spec_leases calls []"
  proof (cases calls)
    case (Cons c rest)
    show ?thesis
      by (rule keepalive.run_refines [OF assms(1) _ tracks, of "fst c"]) (use assms(1) Cons in force)
  qed simp
  show "fst (keepalive_summarize i now owner store) \<longleftrightarrow>
      fst (keepalive_summarize i now None store)
      \<or> (\<exists>state. js_get (stateBySandboxInstanceId store) i = Some state \<and> now < kstate_expiresAtMs state
          \<and> kstate_active state \<and> owner = Some (kstate_ownerLeaseId state))"
    unfolding keepalive_summarize_iff [OF assms(2)] by auto
qed

theorem keepalive_refines_witness:
  "fst (keepalive_summarize ''sbi'' 0 (Some ''other'') (keepalive_replaceStateForOwner ''sbi'' ''lease'' ''node''
      30000 0 True \<lparr>keepalivesBySandboxInstanceId = [], stateBySandboxInstanceId = []\<rparr>)) = False"
proof -
  let ?s = "keepalive_replaceStateForOwner ''sbi'' ''lease'' ''node'' 30000 0 True
    \<lparr>keepalivesBySandboxInstanceId = [], stateBySandboxInstanceId = []\<rparr>"
  have wf: "wf_keepalives ?s" and idle: "\<not> fst (keepalive_summarize ''sbi'' 0 None ?s)"
    by (simp add: keepalive_replaceStateForOwner_def wf_keepalives_def wf_leases_def) code_simp
  from keepalive_refines [OF _ wf, of "[] :: (int \<times> (string \<times> string option \<times> string option \<times> string) lease_call) list" "[]" "''sbi''" 0 "Some ''other''"] idle
  show ?thesis
    by (simp add: keepalive_replaceStateForOwner_def)
qed

text \<open>
  Clears of an attachment are fenced: a clear by another owner lease reports failure and the
  attachment is read as before at every later time; a clear by the owner of a live attachment removes it.
\<close>

theorem attachment_clear_fenced:
  assumes "fst (getAttachment i now store) = Some a" and "now \<le> t"
  shows "(fst (clearAttachment now i lease store) \<longleftrightarrow> lease = active_ownerLeaseId a)
    \<and> fst (getAttachment i t (snd (clearAttachment now i lease store))) =
        (if lease = active_ownerLeaseId a then None else fst (getAttachment i t store))"
  using assms by (auto simp: clearAttachment_def getAttachment_def js_get_delete split: option.splits if_splits)

definition sample_session :: "string \<Rightarrow> active_bootstrap_session" where
  "sample_session lease = \<lparr>active_sandboxInstanceId = ''sbi'', active_nodeId = ''node'',
     active_sessionId = ''s'', active_ownerLeaseId = lease, active_attachedAtMs = 0\<rparr>"

theorem attachment_clear_fenced_witness:
  "\<not> fst (clearAttachment 5 ''sbi'' ''old'' (upsertAttachment (sample_session ''new'') 30000 0 []))"
  using attachment_clear_fenced [of "''sbi''" 5 "upsertAttachment (sample_session ''new'') 30000 0 []"
      "sample_session ''new''" 5 "''old''"]
  by (simp add: upsertAttachment_def getAttachment_def sample_session_def)

text \<open>
  Writes of an attachment are not fenced, against the comment on \<open>SandboxRuntimeAttachment\<close>: an upsert
  by any owner lease replaces a live attachment of another one.
\<close>

lemma upsertAttachment_unfenced:
  "0 < ttl \<Longrightarrow> fst (getAttachment (active_sandboxInstanceId a) now (upsertAttachment a ttl now store)) = Some a"
  by (simp add: upsertAttachment_def getAttachment_def js_get_set)

end
