(* ===== verification/ForwardingRecovery.thy ===== *)
theory ForwardingRecovery
  imports Prelude
begin

text \<open>
  Readiness of a gateway's forwarding and the supervisor that replaces a gateway whose
  forwarding does not come back:
  \<open>apps/data-plane-gateway/src/runtime/gateway-forwarding-readiness.ts\<close> and
  \<open>gateway-forwarding-recovery-supervisor.ts\<close>. The listener the supervisor subscribes runs
  inside each \<open>mark\<close> call of the readiness; its timer is the due time of the pending
  \<open>scheduler.schedule\<close>. Clock readings are arguments. \<open>recovery_step\<close> is the relation of the
  calls the process makes, with a clock that does not go back.
\<close>

section \<open>Readiness\<close>

datatype forwarding_status = NotReady | Checking | Ready

datatype forwarding_reason = LocalBackend | NatsDisconnected | NatsReconnected | Startup
  | StartupCheckFailed | Stopping | SubscriptionStarted | SubscriptionExited
  | SubscriptionFailed | SelfCheckSucceeded | SelfCheckFailed

record forwarding_state =
  changedAtMs :: int
  consecutiveFailedChecks :: int
  lastCheckAtMs :: "int option"
  notReadySinceMs :: "int option"
  fwReason :: forwarding_reason
  fwStatus :: forwarding_status

definition initial_readiness :: "int \<Rightarrow> forwarding_state" where
  "initial_readiness now = \<lparr> changedAtMs = now, consecutiveFailedChecks = 0,
     lastCheckAtMs = None, notReadySinceMs = Some now, fwReason = Startup, fwStatus = NotReady \<rparr>"

definition isReady :: "forwarding_state \<Rightarrow> bool" where
  "isReady st \<longleftrightarrow> fwStatus st = Ready"

record forwarding_snapshot = forwarding_state +
  snapshotNodeId :: string
  snapshotSubject :: string

definition getSnapshot :: "string \<Rightarrow> string \<Rightarrow> forwarding_state \<Rightarrow> forwarding_snapshot" where
  "getSnapshot localNodeId subject st =
     forwarding_state.extend st \<lparr> snapshotNodeId = localNodeId, snapshotSubject = subject \<rparr>"

text \<open>The state after \<open>transition\<close>; the listeners are called on it.\<close>

definition transition_state :: "forwarding_state \<Rightarrow> forwarding_state \<Rightarrow> forwarding_state" where
  "transition_state previousState nextState =
     (if fwStatus previousState = fwStatus nextState \<and> fwReason previousState = fwReason nextState
      then nextState\<lparr>changedAtMs := changedAtMs previousState\<rparr>
      else nextState)"

definition checking_state :: "int \<Rightarrow> forwarding_reason \<Rightarrow> forwarding_state \<Rightarrow> forwarding_state" where
  "checking_state now r st = transition_state st \<lparr> changedAtMs = now,
     consecutiveFailedChecks = consecutiveFailedChecks st,
     lastCheckAtMs = lastCheckAtMs st, notReadySinceMs = None, fwReason = r, fwStatus = Checking \<rparr>"

definition ready_state :: "int \<Rightarrow> forwarding_reason \<Rightarrow> forwarding_state \<Rightarrow> forwarding_state" where
  "ready_state now r st = transition_state st \<lparr> changedAtMs = now,
     consecutiveFailedChecks = (if r = SelfCheckSucceeded then 0 else consecutiveFailedChecks st),
     lastCheckAtMs = (if r = SelfCheckSucceeded then Some now else lastCheckAtMs st),
     notReadySinceMs = None, fwReason = r, fwStatus = Ready \<rparr>"

definition not_ready_state :: "int \<Rightarrow> forwarding_reason \<Rightarrow> forwarding_state \<Rightarrow> forwarding_state" where
  "not_ready_state now r st = transition_state st \<lparr> changedAtMs = now,
     consecutiveFailedChecks =
       (if r = SelfCheckFailed then consecutiveFailedChecks st + 1 else consecutiveFailedChecks st),
     lastCheckAtMs = (if r = SelfCheckFailed then Some now else lastCheckAtMs st),
     notReadySinceMs = (case notReadySinceMs st of None \<Rightarrow> Some now | Some t \<Rightarrow> Some t),
     fwReason = r, fwStatus = NotReady \<rparr>"

section \<open>The recovery supervisor\<close>

datatype replacement_reason = CheckFailureThreshold | NotReadyTimeout

definition DefaultMaxConsecutiveCheckFailures :: int where
  "DefaultMaxConsecutiveCheckFailures = 3"

definition DefaultNotReadyReplacementDelayMs :: int where
  "DefaultNotReadyReplacementDelayMs = 90000"

record supervisor_input =
  inputMaxFailures :: "int option"
  inputDelayMs :: "int option"

definition maxConsecutiveCheckFailures :: "supervisor_input \<Rightarrow> int" where
  "maxConsecutiveCheckFailures i = (case inputMaxFailures i of
     None \<Rightarrow> DefaultMaxConsecutiveCheckFailures | Some n \<Rightarrow> n)"

definition notReadyReplacementDelayMs :: "supervisor_input \<Rightarrow> int" where
  "notReadyReplacementDelayMs i = (case inputDelayMs i of
     None \<Rightarrow> DefaultNotReadyReplacementDelayMs | Some n \<Rightarrow> n)"

text \<open>
  \<open>replacementTimer\<close> is the due time of the pending timer, \<open>listening\<close> says that
  \<open>stopReadinessListener\<close> is set, \<open>terminations\<close> lists the calls of \<open>input.terminate\<close>,
  latest first; \<open>drainStarted\<close> is what \<open>input.isDraining\<close> reads.
\<close>

record recovery_world =
  readiness :: forwarding_state
  replacementTimer :: "int option"
  listening :: bool
  terminated :: bool
  terminations :: "replacement_reason list"
  drainStarted :: bool

definition initial_world :: "int \<Rightarrow> recovery_world" where
  "initial_world now = \<lparr> readiness = initial_readiness now, replacementTimer = None,
     listening = False, terminated = False, terminations = [], drainStarted = False \<rparr>"

definition cancelNotReadyReplacementTimer :: "recovery_world \<Rightarrow> recovery_world" where
  "cancelNotReadyReplacementTimer w = w\<lparr>replacementTimer := None\<rparr>"

definition terminate :: "replacement_reason \<Rightarrow> recovery_world \<Rightarrow> recovery_world" where
  "terminate r w =
     (let w1 = cancelNotReadyReplacementTimer (w\<lparr>terminated := True\<rparr>)
      in w1\<lparr>terminations := r # terminations w1\<rparr>)"

definition handleReadinessState :: "supervisor_input \<Rightarrow> int \<Rightarrow> forwarding_state \<Rightarrow> recovery_world \<Rightarrow> recovery_world" where
  "handleReadinessState i now st w =
     (if terminated w \<or> drainStarted w then w
      else if consecutiveFailedChecks st \<ge> maxConsecutiveCheckFailures i
      then terminate CheckFailureThreshold w
      else if fwStatus st \<noteq> NotReady then cancelNotReadyReplacementTimer w
      else (case notReadySinceMs st of
              None \<Rightarrow> w
            | Some since \<Rightarrow>
                let elapsedMs = now - since;
                    remainingMs = notReadyReplacementDelayMs i - elapsedMs
                in if remainingMs \<le> 0 then terminate NotReadyTimeout w
                   else (case replacementTimer w of
                           Some _ \<Rightarrow> w
                         | None \<Rightarrow> w\<lparr>replacementTimer := Some (now + remainingMs)\<rparr>)))"

definition supervisor_start :: "supervisor_input \<Rightarrow> int \<Rightarrow> recovery_world \<Rightarrow> (string + unit) \<times> recovery_world" where
  "supervisor_start i now w =
     (if listening w
      then (Inl ''Gateway forwarding recovery supervisor is already started.'', w)
      else (Inr (), handleReadinessState i now (readiness w) (w\<lparr>listening := True\<rparr>)))"

definition supervisor_stop :: "recovery_world \<Rightarrow> recovery_world" where
  "supervisor_stop w = (cancelNotReadyReplacementTimer w)\<lparr>listening := False\<rparr>"

text \<open>The callback of the timer, run by the scheduler.\<close>

definition timer_fired :: "supervisor_input \<Rightarrow> int \<Rightarrow> recovery_world \<Rightarrow> recovery_world" where
  "timer_fired i now w =
     handleReadinessState i now (readiness w) (w\<lparr>replacementTimer := None\<rparr>)"

definition notifyListeners :: "supervisor_input \<Rightarrow> int \<Rightarrow> recovery_world \<Rightarrow> recovery_world" where
  "notifyListeners i now w =
     (if listening w then handleReadinessState i now (readiness w) w else w)"

definition set_readiness :: "supervisor_input \<Rightarrow> int \<Rightarrow> forwarding_state \<Rightarrow> recovery_world \<Rightarrow> recovery_world" where
  "set_readiness i now st w = notifyListeners i now (w\<lparr>readiness := st\<rparr>)"

definition markChecking :: "supervisor_input \<Rightarrow> int \<Rightarrow> forwarding_reason \<Rightarrow> recovery_world \<Rightarrow> recovery_world" where
  "markChecking i now r w = set_readiness i now (checking_state now r (readiness w)) w"

definition markReady :: "supervisor_input \<Rightarrow> int \<Rightarrow> forwarding_reason \<Rightarrow> recovery_world \<Rightarrow> recovery_world" where
  "markReady i now r w = set_readiness i now (ready_state now r (readiness w)) w"

definition markNotReady :: "supervisor_input \<Rightarrow> int \<Rightarrow> forwarding_reason \<Rightarrow> recovery_world \<Rightarrow> recovery_world" where
  "markNotReady i now r w = set_readiness i now (not_ready_state now r (readiness w)) w"

section \<open>Histories of the process\<close>

datatype recovery_call = CallStart | CallStop | CallDrain | CallTimer
  | CallChecking forwarding_reason | CallReady forwarding_reason | CallNotReady forwarding_reason

inductive recovery_step ::
  "supervisor_input \<Rightarrow> int \<times> recovery_world \<Rightarrow> recovery_call \<Rightarrow> int \<times> recovery_world \<Rightarrow> bool"
  for i :: supervisor_input where
  step_start: "now \<le> t \<Longrightarrow> recovery_step i (now, w) CallStart (t, snd (supervisor_start i t w))"
| step_stop: "now \<le> t \<Longrightarrow> recovery_step i (now, w) CallStop (t, supervisor_stop w)"
| step_drain: "now \<le> t \<Longrightarrow> recovery_step i (now, w) CallDrain (t, w\<lparr>drainStarted := True\<rparr>)"
| step_timer: "replacementTimer w = Some due \<Longrightarrow> now \<le> t \<Longrightarrow> due \<le> t \<Longrightarrow>
    recovery_step i (now, w) CallTimer (t, timer_fired i t w)"
| step_checking: "now \<le> t \<Longrightarrow> recovery_step i (now, w) (CallChecking r) (t, markChecking i t r w)"
| step_ready: "now \<le> t \<Longrightarrow> recovery_step i (now, w) (CallReady r) (t, markReady i t r w)"
| step_not_ready: "now \<le> t \<Longrightarrow> recovery_step i (now, w) (CallNotReady r) (t, markNotReady i t r w)"

inductive recovery_run ::
  "supervisor_input \<Rightarrow> int \<Rightarrow> recovery_call list \<Rightarrow> int \<times> recovery_world \<Rightarrow> bool"
  for i :: supervisor_input and t0 :: int where
  run_initial: "recovery_run i t0 [] (t0, initial_world t0)"
| run_step: "recovery_run i t0 cs s \<Longrightarrow> recovery_step i s c s' \<Longrightarrow> recovery_run i t0 (c # cs) s'"

inductive_cases recovery_stepE: "recovery_step i s c s'"
inductive_simps recovery_step_timer: "recovery_step i s CallTimer s'"

section \<open>The readiness state\<close>

definition readiness_ok :: "int \<Rightarrow> forwarding_state \<Rightarrow> bool" where
  "readiness_ok now st \<longleftrightarrow>
     (fwStatus st = NotReady \<longleftrightarrow> notReadySinceMs st \<noteq> None) \<and>
     (\<forall>since. notReadySinceMs st = Some since \<longrightarrow> since \<le> now) \<and>
     changedAtMs st \<le> now"

named_theorems recovery_simps \<open>reading the world after an operation of the supervisor\<close>

lemmas readiness_defs = transition_state_def checking_state_def ready_state_def not_ready_state_def

lemma readiness_ok_initial: "readiness_ok now (initial_readiness now)"
  by (simp add: readiness_ok_def initial_readiness_def)

lemma readiness_ok_mono: "readiness_ok now st \<Longrightarrow> now \<le> t \<Longrightarrow> readiness_ok t st"
  by (force simp: readiness_ok_def)

lemma readiness_ok_checking: "readiness_ok now st \<Longrightarrow> readiness_ok now (checking_state now r st)"
  by (simp add: readiness_ok_def readiness_defs)

lemma readiness_ok_ready: "readiness_ok now st \<Longrightarrow> readiness_ok now (ready_state now r st)"
  by (simp add: readiness_ok_def readiness_defs)

lemma readiness_ok_not_ready: "readiness_ok now st \<Longrightarrow> readiness_ok now (not_ready_state now r st)"
  by (auto simp: readiness_ok_def readiness_defs split: option.splits)

text \<open>A state that stays not ready keeps the moment it became so.\<close>

lemma not_ready_since_kept:
  "notReadySinceMs st = Some since \<Longrightarrow> notReadySinceMs (not_ready_state now r st) = Some since"
  by (simp add: readiness_defs)

section \<open>The supervisor's invariant\<close>

definition supervisor_ok :: "supervisor_input \<Rightarrow> recovery_world \<Rightarrow> bool" where
  "supervisor_ok i w \<longleftrightarrow>
     (terminated w \<longleftrightarrow> terminations w \<noteq> []) \<and> length (terminations w) \<le> 1 \<and>
     (terminated w \<longrightarrow> replacementTimer w = None) \<and>
     (\<not> listening w \<longrightarrow> replacementTimer w = None)"

definition watching_ok :: "supervisor_input \<Rightarrow> recovery_world \<Rightarrow> bool" where
  "watching_ok i w \<longleftrightarrow> (listening w \<and> \<not> terminated w \<and> \<not> drainStarted w \<longrightarrow>
     consecutiveFailedChecks (readiness w) < maxConsecutiveCheckFailures i \<and>
     replacementTimer w = map_option (\<lambda>since. since + notReadyReplacementDelayMs i)
       (notReadySinceMs (readiness w)))"

text \<open>
  What a world looks like when the handler is entered: the pending timer, if any, is the one
  of the moment the readiness turned not ready.
\<close>

definition timer_ok :: "supervisor_input \<Rightarrow> recovery_world \<Rightarrow> bool" where
  "timer_ok i w \<longleftrightarrow> (\<forall>due. replacementTimer w = Some due \<longrightarrow>
     (case notReadySinceMs (readiness w) of None \<Rightarrow> True
        | Some since \<Rightarrow> due = since + notReadyReplacementDelayMs i))"

lemmas supervisor_defs = handleReadinessState_def terminate_def cancelNotReadyReplacementTimer_def

lemma handler_readiness [recovery_simps]:
  "readiness (handleReadinessState i now st w) = readiness w"
  "listening (handleReadinessState i now st w) = listening w"
  "drainStarted (handleReadinessState i now st w) = drainStarted w"
  by (simp_all add: supervisor_defs Let_def split: option.splits)

lemma handler_supervisor_ok:
  "supervisor_ok i w \<Longrightarrow> listening w \<Longrightarrow> supervisor_ok i (handleReadinessState i now st w)"
  by (auto simp: supervisor_ok_def supervisor_defs Let_def split: option.splits)

lemma handler_watching_ok:
  assumes "readiness_ok now (readiness w)" "timer_ok i w"
  shows "watching_ok i (handleReadinessState i now (readiness w) w)"
  using assms
  by (auto simp: watching_ok_def supervisor_defs Let_def timer_ok_def readiness_ok_def
      split: option.splits)

lemma handler_terminations:
  assumes "terminations (handleReadinessState i now st w) \<noteq> terminations w"
  shows "\<not> terminated w \<and>
     (terminations (handleReadinessState i now st w) = CheckFailureThreshold # terminations w \<and>
        maxConsecutiveCheckFailures i \<le> consecutiveFailedChecks st \<or>
      terminations (handleReadinessState i now st w) = NotReadyTimeout # terminations w \<and>
        fwStatus st = NotReady \<and>
        (\<exists>since. notReadySinceMs st = Some since \<and> since + notReadyReplacementDelayMs i \<le> now))"
  using assms by (auto simp: supervisor_defs Let_def split: option.splits if_splits)

lemma notify_ok:
  assumes "supervisor_ok i w" "readiness_ok now (readiness w)"
    "\<not> drainStarted w \<Longrightarrow> \<not> terminated w \<Longrightarrow> timer_ok i w"
  shows "supervisor_ok i (notifyListeners i now w)" "watching_ok i (notifyListeners i now w)"
proof -
  show "supervisor_ok i (notifyListeners i now w)"
    using assms(1) by (simp add: notifyListeners_def handler_supervisor_ok)
  show "watching_ok i (notifyListeners i now w)"
  proof (cases "drainStarted w \<or> terminated w")
    case True
    then show ?thesis by (auto simp: notifyListeners_def watching_ok_def handleReadinessState_def)
  next
    case False
    then show ?thesis using assms(2,3) handler_watching_ok
      by (auto simp: notifyListeners_def) (simp add: watching_ok_def)
  qed
qed

definition world_ok :: "supervisor_input \<Rightarrow> int \<Rightarrow> recovery_world \<Rightarrow> bool" where
  "world_ok i now w \<longleftrightarrow>
     readiness_ok now (readiness w) \<and> supervisor_ok i w \<and> watching_ok i w"

lemma world_ok_initial: "world_ok i now (initial_world now)"
  by (simp add: world_ok_def readiness_ok_initial supervisor_ok_def watching_ok_def initial_world_def)

lemma world_ok_mono: "world_ok i now w \<Longrightarrow> now \<le> t \<Longrightarrow> world_ok i t w"
  by (auto simp: world_ok_def intro: readiness_ok_mono)

lemma world_timer_ok:
  assumes "world_ok i now w" "\<not> drainStarted w" "\<not> terminated w"
  shows "timer_ok i w"
  using assms by (cases "listening w")
    (auto simp: world_ok_def supervisor_ok_def watching_ok_def timer_ok_def split: option.splits)

text \<open>A change of the readiness that keeps the moment of not being ready, or clears it.\<close>

lemma set_readiness_ok:
  assumes w: "world_ok i now w" and st: "readiness_ok now st"
    and since: "notReadySinceMs st = None \<or> notReadySinceMs (readiness w) = None \<or>
      notReadySinceMs st = notReadySinceMs (readiness w)"
  shows "world_ok i now (set_readiness i now st w)"
proof -
  let ?w = "w\<lparr>readiness := st\<rparr>"
  have "supervisor_ok i ?w" using w by (simp add: world_ok_def supervisor_ok_def)
  moreover have "timer_ok i ?w" if "\<not> drainStarted ?w" "\<not> terminated ?w"
  proof -
    have "timer_ok i w" using world_timer_ok w that by simp
    moreover have "notReadySinceMs (readiness w) = None \<Longrightarrow> replacementTimer w = None"
      using w that
      by (cases "listening w") (auto simp: world_ok_def supervisor_ok_def watching_ok_def)
    ultimately show ?thesis using since by (auto simp: timer_ok_def split: option.splits)
  qed
  ultimately show ?thesis using notify_ok [of i ?w now] st
    by (auto simp: world_ok_def set_readiness_def notifyListeners_def recovery_simps)
qed

lemma mark_ok:
  assumes "world_ok i now w"
  shows "world_ok i now (markChecking i now r w)" "world_ok i now (markReady i now r w)"
    "world_ok i now (markNotReady i now r w)"
proof -
  have ok: "readiness_ok now (readiness w)" using assms by (simp add: world_ok_def)
  show "world_ok i now (markChecking i now r w)"
    unfolding markChecking_def
    by (rule set_readiness_ok [OF assms readiness_ok_checking [OF ok]]) (simp add: readiness_defs)
  show "world_ok i now (markReady i now r w)"
    unfolding markReady_def
    by (rule set_readiness_ok [OF assms readiness_ok_ready [OF ok]]) (simp add: readiness_defs)
  show "world_ok i now (markNotReady i now r w)"
    unfolding markNotReady_def
    by (rule set_readiness_ok [OF assms readiness_ok_not_ready [OF ok]])
      (auto simp: readiness_defs split: option.splits)
qed

lemma handler_world_ok:
  assumes "readiness_ok now (readiness w)" "supervisor_ok i w" "listening w" "timer_ok i w"
  shows "world_ok i now (handleReadinessState i now (readiness w) w)"
  using assms handler_supervisor_ok handler_watching_ok by (simp add: world_ok_def recovery_simps)

lemma start_ok:
  assumes "world_ok i now w"
  shows "world_ok i now (snd (supervisor_start i now w))"
proof (cases "listening w")
  case True
  then show ?thesis using assms by (simp add: supervisor_start_def)
next
  case False
  then have "world_ok i now (handleReadinessState i now (readiness (w\<lparr>listening := True\<rparr>)) (w\<lparr>listening := True\<rparr>))"
    using assms
    by (intro handler_world_ok) (auto simp: world_ok_def supervisor_ok_def timer_ok_def)
  then show ?thesis using False by (simp add: supervisor_start_def)
qed

lemma stop_ok: "world_ok i now w \<Longrightarrow> world_ok i now (supervisor_stop w)"
  by (simp add: world_ok_def supervisor_ok_def watching_ok_def supervisor_stop_def
      cancelNotReadyReplacementTimer_def)

lemma drain_ok: "world_ok i now w \<Longrightarrow> world_ok i now (w\<lparr>drainStarted := True\<rparr>)"
  by (simp add: world_ok_def supervisor_ok_def watching_ok_def)

lemma timer_fired_ok:
  assumes "world_ok i now w" "replacementTimer w = Some due"
  shows "world_ok i now (timer_fired i now w)"
proof -
  have "world_ok i now (handleReadinessState i now (readiness (w\<lparr>replacementTimer := None\<rparr>)) (w\<lparr>replacementTimer := None\<rparr>))"
    using assms
    by (intro handler_world_ok) (auto simp: world_ok_def supervisor_ok_def timer_ok_def)
  then show ?thesis by (simp add: timer_fired_def)
qed

lemma step_world_ok:
  assumes "recovery_step i (now, w) c (t, w')" "world_ok i now w"
  shows "world_ok i t w'"
proof -
  have "now \<le> t" using assms(1) by (auto elim: recovery_stepE)
  then have "world_ok i t w" using assms(2) world_ok_mono by blast
  then show ?thesis using assms(1)
    by (auto elim!: recovery_stepE intro: mark_ok start_ok stop_ok drain_ok timer_fired_ok)
qed

lemma run_world_ok: "recovery_run i t0 cs (now, w) \<Longrightarrow> world_ok i now w"
proof (induction cs "(now, w)" arbitrary: now w rule: recovery_run.induct)
  case run_initial
  show ?case by (rule world_ok_initial)
next
  case (run_step cs s c)
  then show ?case by (cases s) (auto intro: step_world_ok)
qed

section \<open>Consecutive failed checks\<close>

text \<open>
  The failed checks since the last successful one, read off the calls of the run (latest
  first).
\<close>

definition failed_checks :: "recovery_call list \<Rightarrow> nat" where
  "failed_checks cs = length (filter (\<lambda>c. c = CallNotReady SelfCheckFailed)
     (takeWhile (\<lambda>c. c \<noteq> CallReady SelfCheckSucceeded) cs))"

lemma set_readiness_readiness [recovery_simps]: "readiness (set_readiness i now st w) = st"
  by (simp add: set_readiness_def notifyListeners_def recovery_simps)

lemma step_failed_checks:
  assumes "recovery_step i (now, w) c (t, w')"
    "consecutiveFailedChecks (readiness w) = int (failed_checks cs)"
  shows "consecutiveFailedChecks (readiness w') = int (failed_checks (c # cs))"
  using assms
  by (auto elim!: recovery_stepE simp: failed_checks_def supervisor_start_def supervisor_stop_def
      cancelNotReadyReplacementTimer_def timer_fired_def markChecking_def markReady_def
      markNotReady_def recovery_simps readiness_defs split: if_splits)

lemma run_failed_checks:
  "recovery_run i t0 cs (now, w) \<Longrightarrow> consecutiveFailedChecks (readiness w) = int (failed_checks cs)"
proof (induction cs "(now, w)" arbitrary: now w rule: recovery_run.induct)
  case run_initial
  show ?case by (simp add: initial_world_def initial_readiness_def failed_checks_def)
next
  case (run_step cs s c)
  then show ?case by (cases s) (auto intro: step_failed_checks)
qed

section \<open>What the supervisor guarantees\<close>

text \<open>
  C27: While the supervisor is started and the gateway is not draining, it has either asked for
  the replacement of the gateway, exactly once and with no timer left, or fewer than the allowed
  checks have failed since the last successful one, and a replacement timer is pending exactly
  when the forwarding is not ready, due the replacement delay after the moment it stopped being
  ready. So a forwarding that does not come back always has its replacement scheduled, and a
  forwarding that came back has none.
\<close>

theorem recovery_watched:
  assumes "recovery_run i t0 cs (now, w)" "listening w" "\<not> drainStarted w"
  shows "(terminated w \<and> length (terminations w) = 1 \<and> replacementTimer w = None) \<or>
    (terminations w = [] \<and> int (failed_checks cs) < maxConsecutiveCheckFailures i \<and>
     (if fwStatus (readiness w) = NotReady
      then \<exists>since \<le> now. notReadySinceMs (readiness w) = Some since \<and>
             replacementTimer w = Some (since + notReadyReplacementDelayMs i)
      else replacementTimer w = None))"
proof -
  have ok: "world_ok i now w" using assms(1) by (rule run_world_ok)
  have n: "consecutiveFailedChecks (readiness w) = int (failed_checks cs)"
    using assms(1) by (rule run_failed_checks)
  show ?thesis
  proof (cases "terminated w")
    case True
    then show ?thesis using ok by (auto simp: world_ok_def supervisor_ok_def le_Suc_eq)
  next
    case False
    then show ?thesis using ok assms(2,3) n
      by (auto simp: world_ok_def supervisor_ok_def watching_ok_def readiness_ok_def)
  qed
qed

definition supervisor_defaults :: supervisor_input where
  "supervisor_defaults = \<lparr> inputMaxFailures = None, inputDelayMs = None \<rparr>"

lemma example_run:
  "recovery_run supervisor_defaults 0 [CallNotReady SelfCheckFailed, CallReady SelfCheckSucceeded, CallStart]
     (20, markNotReady supervisor_defaults 20 SelfCheckFailed
       (markReady supervisor_defaults 10 SelfCheckSucceeded
         (snd (supervisor_start supervisor_defaults 5 (initial_world 0)))))"
  by (rule run_step [OF run_step [OF run_step [OF run_initial step_start [of 0 5]] step_ready [of 5 10]]
        step_not_ready]) simp_all

lemmas example_defs = supervisor_defaults_def markNotReady_def markReady_def set_readiness_def
  notifyListeners_def supervisor_start_def handleReadinessState_def initial_world_def
  initial_readiness_def readiness_defs maxConsecutiveCheckFailures_def
  notReadyReplacementDelayMs_def DefaultMaxConsecutiveCheckFailures_def
  DefaultNotReadyReplacementDelayMs_def cancelNotReadyReplacementTimer_def

lemma recovery_watched_witness:
  "\<exists>w. recovery_run supervisor_defaults 0
       [CallNotReady SelfCheckFailed, CallReady SelfCheckSucceeded, CallStart] (20, w) \<and>
     replacementTimer w = Some 90020 \<and> terminations w = []"
proof -
  let ?w = "markNotReady supervisor_defaults 20 SelfCheckFailed (markReady supervisor_defaults 10 SelfCheckSucceeded
    (snd (supervisor_start supervisor_defaults 5 (initial_world 0))))"
  have w: "listening ?w" "\<not> drainStarted ?w" "fwStatus (readiness ?w) = NotReady"
      "notReadySinceMs (readiness ?w) = Some 20" "\<not> terminated ?w"
    by (simp_all add: example_defs)
  have d: "notReadyReplacementDelayMs supervisor_defaults = 90000"
    by (simp add: example_defs)
  have "replacementTimer ?w = Some 90020 \<and> terminations ?w = []"
    using recovery_watched [OF example_run w(1,2)] w(3,4,5) d by auto
  then show ?thesis using example_run by blast
qed

text \<open>
  A gateway is given up only for a reason that holds: when a call makes the supervisor ask
  for the replacement, it had not asked before, the gateway was not draining, and either at
  least the allowed number of checks has failed since the last successful one, or the forwarding
  has not been ready for at least the replacement delay.
\<close>

theorem replacement_justified:
  assumes "recovery_run i t0 cs (now, w)" "recovery_step i (now, w) c (t, w')"
    "terminations w' \<noteq> terminations w"
  shows "terminations w = [] \<and> \<not> drainStarted w \<and>
    (terminations w' = [CheckFailureThreshold] \<and>
       maxConsecutiveCheckFailures i \<le> int (failed_checks (c # cs)) \<or>
     terminations w' = [NotReadyTimeout] \<and> fwStatus (readiness w') = NotReady \<and>
       (\<exists>since. notReadySinceMs (readiness w') = Some since \<and>
          since + notReadyReplacementDelayMs i \<le> t))"
proof -
  have ok: "world_ok i now w" using assms(1) by (rule run_world_ok)
  have n: "consecutiveFailedChecks (readiness w') = int (failed_checks (c # cs))"
    using run_failed_checks [OF run_step [OF assms(1,2)]] .
  obtain v where v: "w' = handleReadinessState i t (readiness w') v" "terminations v = terminations w"
      "terminated v = terminated w" "drainStarted v = drainStarted w"
    using assms(2,3)
    by (auto elim!: recovery_stepE simp: supervisor_start_def supervisor_stop_def timer_fired_def
        cancelNotReadyReplacementTimer_def markChecking_def markReady_def markNotReady_def
        set_readiness_def notifyListeners_def recovery_simps split: if_splits)
  have "terminations (handleReadinessState i t (readiness w') v) \<noteq> terminations v"
    using assms(3) v(1,2) by simp
  note cause = handler_terminations [OF this, folded v(1)]
  have "\<not> drainStarted v"
  proof
    assume "drainStarted v"
    then have "handleReadinessState i t (readiness w') v = v" by (simp add: handleReadinessState_def)
    then show False using assms(3) v(1,2) by simp
  qed
  moreover have "terminations w = []"
    using cause v ok by (simp add: world_ok_def supervisor_ok_def)
  ultimately show ?thesis using cause v n by auto
qed

lemma replacement_justified_witness:
  "\<exists>w w'. recovery_run supervisor_defaults 0
       [CallNotReady SelfCheckFailed, CallReady SelfCheckSucceeded, CallStart] (20, w) \<and>
     recovery_step supervisor_defaults (20, w) CallTimer (90020, w') \<and>
     terminations w' = [NotReadyTimeout] \<and> fwStatus (readiness w') = NotReady"
proof -
  let ?w = "markNotReady supervisor_defaults 20 SelfCheckFailed (markReady supervisor_defaults 10 SelfCheckSucceeded
    (snd (supervisor_start supervisor_defaults 5 (initial_world 0))))"
  let ?w' = "timer_fired supervisor_defaults 90020 ?w"
  have timer: "replacementTimer ?w = Some 90020" by (simp add: example_defs)
  have step: "recovery_step supervisor_defaults (20, ?w) CallTimer (90020, ?w')"
    by (rule step_timer [OF timer]) simp_all
  have w: "consecutiveFailedChecks (readiness ?w) = 1" by (simp add: example_defs)
  have "terminations ?w' = [NotReadyTimeout]" "terminations ?w = []"
    by (simp_all add: timer_fired_def terminate_def example_defs)
  then have "terminations ?w' \<noteq> terminations ?w" by simp
  from replacement_justified [OF example_run step this] \<open>terminations ?w' = [NotReadyTimeout]\<close>
  have "fwStatus (readiness ?w') = NotReady" by simp
  then show ?thesis using example_run step \<open>terminations ?w' = [NotReadyTimeout]\<close> by blast
qed

end
