(* ===== verification/GatewayDrain.thy ===== *)
theory GatewayDrain
  imports Prelude
begin

text \<open>
  Draining a gateway, \<open>apps/data-plane-gateway/src/runtime\<close>: the life cycle of the process
  (\<open>gateway-lifecycle.ts\<close>), the admission check (\<open>gateway-drain-admission.ts\<close>), the
  registry of long-lived connections (\<open>gateway-drain-registry.ts\<close>) and the handler that
  replaces a gateway whose forwarding failed (\<open>gateway-forwarding-replacement.ts\<close>).

  Sockets are numbers; the calls made on them are logged. What the code reads of a socket
  (\<open>readyState\<close> of a web socket, \<open>destroyed\<close> of a stream) is an argument of the operation that
  reads it. \<open>closeForServiceRestart\<close> suspends once; its two halves are the operations
  \<open>closeForServiceRestart_start\<close> and \<open>closeForServiceRestart_finish\<close>.
\<close>

section \<open>Life cycle and admission\<close>

datatype gateway_status = Serving | Draining (drainReason: string) (startedAtMs: int)

definition isServing :: "gateway_status \<Rightarrow> bool" where
  "isServing st \<longleftrightarrow> st = Serving"

definition startDrain :: "int \<Rightarrow> string \<Rightarrow> gateway_status \<Rightarrow> gateway_status" where
  "startDrain now r st = (case st of Draining _ _ \<Rightarrow> st | Serving \<Rightarrow> Draining r now)"

record http_response =
  responseStatus :: int
  responseBody :: "string + (string \<times> string) list"
  responseContentType :: string

definition GatewayDrainingRejectionCode :: string where
  "GatewayDrainingRejectionCode = ''gateway_draining''"

definition GatewayDrainingRejectionMessage :: string where
  "GatewayDrainingRejectionMessage =
     ''Gateway instance is draining; reconnect through the configured gateway URL.''"

definition createGatewayDrainingJsonResponse :: http_response where
  "createGatewayDrainingJsonResponse = \<lparr> responseStatus = 503,
     responseBody = Inr [(''error'', GatewayDrainingRejectionCode),
       (''message'', GatewayDrainingRejectionMessage)],
     responseContentType = ''application/json'' \<rparr>"

definition createGatewayDrainingTextResponse :: http_response where
  "createGatewayDrainingTextResponse = \<lparr> responseStatus = 503,
     responseBody = Inl (GatewayDrainingRejectionCode @ '': '' @ GatewayDrainingRejectionMessage),
     responseContentType = ''text/plain; charset=utf-8'' \<rparr>"

definition createGatewayDrainingAdmissionResponse :: "gateway_status \<Rightarrow> string \<Rightarrow> http_response option" where
  "createGatewayDrainingAdmissionResponse st responseKind =
     (if isServing st then None
      else Some (if responseKind = ''json'' then createGatewayDrainingJsonResponse
                 else createGatewayDrainingTextResponse))"

section \<open>The registry of connections\<close>

datatype websocket_category = DirectEgress | PtyTransport | SandboxTunnel
datatype raw_category = PortAccess

record registered_websocket =
  wsCategory :: websocket_category
  wsSocket :: nat

record registered_raw =
  rawCategory :: raw_category
  rawSocket :: nat

datatype socket_call = SocketClose nat int string | SocketTerminate nat | SocketEnd nat
  | SocketDestroy nat

text \<open>
  One record per started drain; \<open>activeDrain\<close> is the place of \<open>#serviceRestartDrainState\<close> among
  them. \<open>settled\<close> lists the waits that have been answered, with the answer.
\<close>

record drain_state =
  rawLongLivedConnectionEndCount :: int
  serviceRestartWebSocketCloseCount :: int

record drain_registry =
  rawConnections :: "(int, registered_raw) js_map"
  waiters :: "nat list"
  webSockets :: "(int, registered_websocket) js_map"
  nextRegistrationId :: int
  drainStates :: "drain_state list"
  activeDrain :: "nat option"
  settled :: "(nat \<times> bool) list"
  socketLog :: "socket_call list"

definition empty_registry :: drain_registry where
  "empty_registry = \<lparr> rawConnections = [], waiters = [], webSockets = [], nextRegistrationId = 1,
     drainStates = [], activeDrain = None, settled = [], socketLog = [] \<rparr>"

record drain_counts =
  rawLongLivedConnectionCount :: int
  webSocketCount :: int

definition activeCounts :: "drain_registry \<Rightarrow> drain_counts" where
  "activeCounts r = \<lparr> rawLongLivedConnectionCount = int (js_size (rawConnections r)),
     webSocketCount = int (js_size (webSockets r)) \<rparr>"

record category_counts =
  directEgressWebSocketCount :: int
  portAccessRawConnectionCount :: int
  ptyTransportWebSocketCount :: int
  sandboxTunnelWebSocketCount :: int

definition count_websocket :: "registered_websocket \<Rightarrow> category_counts \<Rightarrow> category_counts" where
  "count_websocket registration counts =
     (if wsCategory registration = DirectEgress
      then counts\<lparr>directEgressWebSocketCount := directEgressWebSocketCount counts + 1\<rparr>
      else if wsCategory registration = PtyTransport
      then counts\<lparr>ptyTransportWebSocketCount := ptyTransportWebSocketCount counts + 1\<rparr>
      else counts\<lparr>sandboxTunnelWebSocketCount := sandboxTunnelWebSocketCount counts + 1\<rparr>)"

definition count_raw :: "registered_raw \<Rightarrow> category_counts \<Rightarrow> category_counts" where
  "count_raw registration counts =
     (if rawCategory registration = PortAccess
      then counts\<lparr>portAccessRawConnectionCount := portAccessRawConnectionCount counts + 1\<rparr>
      else counts)"

definition activeCategoryCounts :: "drain_registry \<Rightarrow> category_counts" where
  "activeCategoryCounts r =
     fold count_raw (js_values (rawConnections r))
       (fold count_websocket (js_values (webSockets r))
         \<lparr> directEgressWebSocketCount = 0, portAccessRawConnectionCount = 0,
           ptyTransportWebSocketCount = 0, sandboxTunnelWebSocketCount = 0 \<rparr>)"

definition registry_isEmpty :: "drain_registry \<Rightarrow> bool" where
  "registry_isEmpty r \<longleftrightarrow> js_size (webSockets r) = 0 \<and> js_size (rawConnections r) = 0"

text \<open>Every waiter is called; each settles its wait and leaves the set.\<close>

definition finish_wait :: "bool \<Rightarrow> nat \<Rightarrow> drain_registry \<Rightarrow> drain_registry" where
  "finish_wait result w r =
     (if w \<notin> set (waiters r) then r
      else r\<lparr>waiters := js_remove w (waiters r), settled := (w, result) # settled r\<rparr>)"

definition notifyIfEmpty :: "drain_registry \<Rightarrow> drain_registry" where
  "notifyIfEmpty r =
     (if \<not> registry_isEmpty r then r else fold (finish_wait True) (waiters r) r)"

definition SERVICE_RESTART_CODE :: int where
  "SERVICE_RESTART_CODE = 4001"

definition SERVICE_RESTART_REASON :: string where
  "SERVICE_RESTART_REASON = ''service_restart''"

definition WS_CLOSING :: int where "WS_CLOSING = 2"
definition WS_CLOSED :: int where "WS_CLOSED = 3"

definition update_drain :: "nat \<Rightarrow> (drain_state \<Rightarrow> drain_state) \<Rightarrow> drain_registry \<Rightarrow> drain_registry" where
  "update_drain d f r = r\<lparr>drainStates := (drainStates r)[d := f (drainStates r ! d)]\<rparr>"

definition closeWebSocketForActiveServiceRestartDrain :: "int \<Rightarrow> nat \<Rightarrow> drain_registry \<Rightarrow> drain_registry" where
  "closeWebSocketForActiveServiceRestartDrain readyState sock r = (case activeDrain r of
     None \<Rightarrow> r
   | Some d \<Rightarrow>
       if readyState = WS_CLOSED \<or> readyState = WS_CLOSING then r
       else update_drain d
              (\<lambda>s. s\<lparr>serviceRestartWebSocketCloseCount := serviceRestartWebSocketCloseCount s + 1\<rparr>)
              (r\<lparr>socketLog := socketLog r @
                   [SocketClose sock SERVICE_RESTART_CODE SERVICE_RESTART_REASON]\<rparr>))"

definition endRawConnectionForActiveServiceRestartDrain :: "bool \<Rightarrow> nat \<Rightarrow> drain_registry \<Rightarrow> drain_registry" where
  "endRawConnectionForActiveServiceRestartDrain destroyed sock r = (case activeDrain r of
     None \<Rightarrow> r
   | Some d \<Rightarrow>
       if destroyed then r
       else update_drain d
              (\<lambda>s. s\<lparr>rawLongLivedConnectionEndCount := rawLongLivedConnectionEndCount s + 1\<rparr>)
              (r\<lparr>socketLog := socketLog r @ [SocketEnd sock]\<rparr>))"

text \<open>Registering returns the registration id, which the returned function captures.\<close>

definition registerGatewayWebSocket :: "websocket_category \<Rightarrow> nat \<Rightarrow> int \<Rightarrow> drain_registry \<Rightarrow> int \<times> drain_registry" where
  "registerGatewayWebSocket cat sock readyState r =
     (let registrationId = nextRegistrationId r;
          r1 = r\<lparr>nextRegistrationId := nextRegistrationId r + 1\<rparr>;
          r2 = r1\<lparr>webSockets := js_set registrationId \<lparr> wsCategory = cat, wsSocket = sock \<rparr> (webSockets r1)\<rparr>
      in (registrationId, closeWebSocketForActiveServiceRestartDrain readyState sock r2))"

definition unregisterWebSocket :: "int \<Rightarrow> drain_registry \<Rightarrow> drain_registry" where
  "unregisterWebSocket registrationId r =
     notifyIfEmpty (r\<lparr>webSockets := js_delete registrationId (webSockets r)\<rparr>)"

definition registerRawLongLivedConnection :: "raw_category \<Rightarrow> nat \<Rightarrow> bool \<Rightarrow> drain_registry \<Rightarrow> int \<times> drain_registry" where
  "registerRawLongLivedConnection cat sock destroyed r =
     (let registrationId = nextRegistrationId r;
          r1 = r\<lparr>nextRegistrationId := nextRegistrationId r + 1\<rparr>;
          r2 = r1\<lparr>rawConnections := js_set registrationId \<lparr> rawCategory = cat, rawSocket = sock \<rparr> (rawConnections r1)\<rparr>
      in (registrationId, endRawConnectionForActiveServiceRestartDrain destroyed sock r2))"

text \<open>The socket's \<open>close\<close> event and the caller's unregistration run the same function.\<close>

definition unregisterRaw :: "int \<Rightarrow> drain_registry \<Rightarrow> drain_registry" where
  "unregisterRaw registrationId r =
     notifyIfEmpty (r\<lparr>rawConnections := js_delete registrationId (rawConnections r)\<rparr>)"

definition startServiceRestartDrain :: "drain_registry \<Rightarrow> nat \<times> drain_registry" where
  "startServiceRestartDrain r = (case activeDrain r of
     Some d \<Rightarrow> (d, r)
   | None \<Rightarrow> (length (drainStates r),
       r\<lparr>drainStates := drainStates r @
            [\<lparr> rawLongLivedConnectionEndCount = 0, serviceRestartWebSocketCloseCount = 0 \<rparr>],
          activeDrain := Some (length (drainStates r))\<rparr>))"

definition finishServiceRestartDrain :: "drain_registry \<Rightarrow> drain_registry" where
  "finishServiceRestartDrain r = r\<lparr>activeDrain := None\<rparr>"

text \<open>\<open>Some\<close> answer at once, or a wait registered under the name \<open>w\<close>.\<close>

definition waitForEmpty :: "nat \<Rightarrow> drain_registry \<Rightarrow> bool option \<times> drain_registry" where
  "waitForEmpty w r =
     (if registry_isEmpty r then (Some True, r)
      else (None, r\<lparr>waiters := js_add w (waiters r)\<rparr>))"

definition wait_timeout :: "nat \<Rightarrow> drain_registry \<Rightarrow> drain_registry" where
  "wait_timeout = finish_wait False"

definition close_websockets :: "(int \<Rightarrow> int) \<Rightarrow> (int, registered_websocket) js_map \<Rightarrow> drain_registry \<Rightarrow> drain_registry" where
  "close_websockets ready regs =
     fold (\<lambda>(n, registration). closeWebSocketForActiveServiceRestartDrain (ready n) (wsSocket registration)) regs"

definition end_raws :: "(int \<Rightarrow> bool) \<Rightarrow> (int, registered_raw) js_map \<Rightarrow> drain_registry \<Rightarrow> drain_registry" where
  "end_raws destroyed regs =
     fold (\<lambda>(n, registration). endRawConnectionForActiveServiceRestartDrain (destroyed n) (rawSocket registration)) regs"

record pending_close =
  initialCounts :: drain_counts
  initialCategoryCounts :: category_counts
  drainIndex :: nat

definition closeForServiceRestart_start ::
  "nat \<Rightarrow> (int \<Rightarrow> int) \<Rightarrow> (int \<Rightarrow> bool) \<Rightarrow> drain_registry \<Rightarrow> (pending_close \<times> bool option) \<times> drain_registry" where
  "closeForServiceRestart_start w ready destroyed r =
     (case startServiceRestartDrain r of (d, r1) \<Rightarrow>
        let r2 = close_websockets ready (webSockets r1) r1;
            r3 = end_raws destroyed (rawConnections r2) r2
        in (case waitForEmpty w r3 of (answer, r4) \<Rightarrow>
              ((\<lparr> initialCounts = activeCounts r, initialCategoryCounts = activeCategoryCounts r,
                  drainIndex = d \<rparr>, answer), r4)))"

definition terminate_websockets :: "(int \<Rightarrow> int) \<Rightarrow> drain_registry \<Rightarrow> socket_call list" where
  "terminate_websockets ready r =
     map (\<lambda>(n, registration). SocketTerminate (wsSocket registration))
       (filter (\<lambda>(n, registration). ready n \<noteq> WS_CLOSED) (webSockets r))"

definition destroy_raws :: "(int \<Rightarrow> bool) \<Rightarrow> drain_registry \<Rightarrow> socket_call list" where
  "destroy_raws destroyed r =
     map (\<lambda>(n, registration). SocketDestroy (rawSocket registration))
       (filter (\<lambda>(n, registration). \<not> destroyed n) (rawConnections r))"

record close_result =
  resultCounts :: drain_counts
  resultCategoryCounts :: category_counts
  forcedRawLongLivedConnectionCount :: int
  forcedWebSocketCount :: int
  graceful :: bool
  resultRawEndCount :: int
  resultCloseCount :: int

definition closeForServiceRestart_finish ::
  "pending_close \<Rightarrow> bool \<Rightarrow> (int \<Rightarrow> int) \<Rightarrow> (int \<Rightarrow> bool) \<Rightarrow> drain_registry \<Rightarrow> close_result \<times> drain_registry" where
  "closeForServiceRestart_finish p answer ready destroyed r =
     (let forcedWs = (if answer then [] else terminate_websockets ready r);
          forcedRaw = (if answer then [] else destroy_raws destroyed r);
          s = drainStates r ! drainIndex p
      in (\<lparr> resultCounts = initialCounts p, resultCategoryCounts = initialCategoryCounts p,
            forcedRawLongLivedConnectionCount = int (length forcedRaw),
            forcedWebSocketCount = int (length forcedWs), graceful = answer,
            resultRawEndCount = rawLongLivedConnectionEndCount s,
            resultCloseCount = serviceRestartWebSocketCloseCount s \<rparr>,
          r\<lparr>socketLog := socketLog r @ forcedWs @ forcedRaw\<rparr>))"

section \<open>What the operations change\<close>

named_theorems drain_simps \<open>reading the registry after an operation\<close>

definition still_open :: "int \<Rightarrow> bool" where
  "still_open readyState \<longleftrightarrow> readyState \<noteq> WS_CLOSED \<and> readyState \<noteq> WS_CLOSING"

definition close_calls :: "(int \<Rightarrow> int) \<Rightarrow> (int, registered_websocket) js_map \<Rightarrow> socket_call list" where
  "close_calls ready regs = map (\<lambda>(n, registration).
       SocketClose (wsSocket registration) SERVICE_RESTART_CODE SERVICE_RESTART_REASON)
     (filter (\<lambda>(n, registration). still_open (ready n)) regs)"

definition end_calls :: "(int \<Rightarrow> bool) \<Rightarrow> (int, registered_raw) js_map \<Rightarrow> socket_call list" where
  "end_calls destroyed regs = map (\<lambda>(n, registration). SocketEnd (rawSocket registration))
     (filter (\<lambda>(n, registration). \<not> destroyed n) regs)"

lemma update_drain_simps [drain_simps]:
  "webSockets (update_drain d f r) = webSockets r"
  "rawConnections (update_drain d f r) = rawConnections r"
  "waiters (update_drain d f r) = waiters r"
  "settled (update_drain d f r) = settled r"
  "nextRegistrationId (update_drain d f r) = nextRegistrationId r"
  "activeDrain (update_drain d f r) = activeDrain r"
  "socketLog (update_drain d f r) = socketLog r"
  "length (drainStates (update_drain d f r)) = length (drainStates r)"
  by (simp_all add: update_drain_def)

lemma close_one_simps [drain_simps]:
  "webSockets (closeWebSocketForActiveServiceRestartDrain rs k r) = webSockets r"
  "rawConnections (closeWebSocketForActiveServiceRestartDrain rs k r) = rawConnections r"
  "waiters (closeWebSocketForActiveServiceRestartDrain rs k r) = waiters r"
  "settled (closeWebSocketForActiveServiceRestartDrain rs k r) = settled r"
  "nextRegistrationId (closeWebSocketForActiveServiceRestartDrain rs k r) = nextRegistrationId r"
  "activeDrain (closeWebSocketForActiveServiceRestartDrain rs k r) = activeDrain r"
  "length (drainStates (closeWebSocketForActiveServiceRestartDrain rs k r)) = length (drainStates r)"
  "socketLog (closeWebSocketForActiveServiceRestartDrain rs k r) = socketLog r @
     (if activeDrain r \<noteq> None \<and> still_open rs
      then [SocketClose k SERVICE_RESTART_CODE SERVICE_RESTART_REASON] else [])"
  by (simp_all add: closeWebSocketForActiveServiceRestartDrain_def drain_simps still_open_def
      split: option.splits)

lemma end_one_simps [drain_simps]:
  "webSockets (endRawConnectionForActiveServiceRestartDrain b k r) = webSockets r"
  "rawConnections (endRawConnectionForActiveServiceRestartDrain b k r) = rawConnections r"
  "waiters (endRawConnectionForActiveServiceRestartDrain b k r) = waiters r"
  "settled (endRawConnectionForActiveServiceRestartDrain b k r) = settled r"
  "nextRegistrationId (endRawConnectionForActiveServiceRestartDrain b k r) = nextRegistrationId r"
  "activeDrain (endRawConnectionForActiveServiceRestartDrain b k r) = activeDrain r"
  "length (drainStates (endRawConnectionForActiveServiceRestartDrain b k r)) = length (drainStates r)"
  "socketLog (endRawConnectionForActiveServiceRestartDrain b k r) = socketLog r @
     (if activeDrain r \<noteq> None \<and> \<not> b then [SocketEnd k] else [])"
  by (simp_all add: endRawConnectionForActiveServiceRestartDrain_def drain_simps split: option.splits)

lemma close_websockets_simps [drain_simps]:
  "webSockets (close_websockets ready regs r) = webSockets r"
  "rawConnections (close_websockets ready regs r) = rawConnections r"
  "waiters (close_websockets ready regs r) = waiters r"
  "settled (close_websockets ready regs r) = settled r"
  "nextRegistrationId (close_websockets ready regs r) = nextRegistrationId r"
  "activeDrain (close_websockets ready regs r) = activeDrain r"
  "length (drainStates (close_websockets ready regs r)) = length (drainStates r)"
  "socketLog (close_websockets ready regs r) =
     socketLog r @ (if activeDrain r \<noteq> None then close_calls ready regs else [])"
  by (induction regs arbitrary: r)
    (auto simp: close_websockets_def close_calls_def drain_simps)

lemma end_raws_simps [drain_simps]:
  "webSockets (end_raws destroyed regs r) = webSockets r"
  "rawConnections (end_raws destroyed regs r) = rawConnections r"
  "waiters (end_raws destroyed regs r) = waiters r"
  "settled (end_raws destroyed regs r) = settled r"
  "nextRegistrationId (end_raws destroyed regs r) = nextRegistrationId r"
  "activeDrain (end_raws destroyed regs r) = activeDrain r"
  "length (drainStates (end_raws destroyed regs r)) = length (drainStates r)"
  "socketLog (end_raws destroyed regs r) =
     socketLog r @ (if activeDrain r \<noteq> None then end_calls destroyed regs else [])"
  by (induction regs arbitrary: r)
    (auto simp: end_raws_def end_calls_def drain_simps)

lemma start_drain_simps [drain_simps]:
  "webSockets (snd (startServiceRestartDrain r)) = webSockets r"
  "rawConnections (snd (startServiceRestartDrain r)) = rawConnections r"
  "waiters (snd (startServiceRestartDrain r)) = waiters r"
  "settled (snd (startServiceRestartDrain r)) = settled r"
  "nextRegistrationId (snd (startServiceRestartDrain r)) = nextRegistrationId r"
  "socketLog (snd (startServiceRestartDrain r)) = socketLog r"
  "activeDrain (snd (startServiceRestartDrain r)) = Some (fst (startServiceRestartDrain r))"
  by (simp_all add: startServiceRestartDrain_def split: option.splits)

lemma finish_wait_simps [drain_simps]:
  "webSockets (finish_wait b w r) = webSockets r"
  "rawConnections (finish_wait b w r) = rawConnections r"
  "nextRegistrationId (finish_wait b w r) = nextRegistrationId r"
  "activeDrain (finish_wait b w r) = activeDrain r"
  "drainStates (finish_wait b w r) = drainStates r"
  "socketLog (finish_wait b w r) = socketLog r"
  "set (waiters (finish_wait b w r)) = set (waiters r) - {w}"
  by (auto simp: finish_wait_def)

lemma fold_finish_wait_simps [drain_simps]:
  "webSockets (fold (finish_wait b) ws r) = webSockets r"
  "rawConnections (fold (finish_wait b) ws r) = rawConnections r"
  "nextRegistrationId (fold (finish_wait b) ws r) = nextRegistrationId r"
  "activeDrain (fold (finish_wait b) ws r) = activeDrain r"
  "drainStates (fold (finish_wait b) ws r) = drainStates r"
  "socketLog (fold (finish_wait b) ws r) = socketLog r"
  "set (waiters (fold (finish_wait b) ws r)) = set (waiters r) - set ws"
  by (induction ws arbitrary: r) (auto simp: drain_simps)

lemma notify_simps [drain_simps]:
  "webSockets (notifyIfEmpty r) = webSockets r"
  "rawConnections (notifyIfEmpty r) = rawConnections r"
  "nextRegistrationId (notifyIfEmpty r) = nextRegistrationId r"
  "activeDrain (notifyIfEmpty r) = activeDrain r"
  "drainStates (notifyIfEmpty r) = drainStates r"
  "socketLog (notifyIfEmpty r) = socketLog r"
  "set (waiters (notifyIfEmpty r)) = (if registry_isEmpty r then {} else set (waiters r))"
  by (simp_all add: notifyIfEmpty_def drain_simps)

lemma registry_isEmpty_cong:
  "webSockets r = webSockets r' \<Longrightarrow> rawConnections r = rawConnections r' \<Longrightarrow>
     registry_isEmpty r = registry_isEmpty r'"
  by (simp add: registry_isEmpty_def)

lemma close_start_simps [drain_simps]:
  "webSockets (snd (closeForServiceRestart_start w ready destroyed r)) = webSockets r"
  "rawConnections (snd (closeForServiceRestart_start w ready destroyed r)) = rawConnections r"
  "settled (snd (closeForServiceRestart_start w ready destroyed r)) = settled r"
  "nextRegistrationId (snd (closeForServiceRestart_start w ready destroyed r)) = nextRegistrationId r"
  "activeDrain (snd (closeForServiceRestart_start w ready destroyed r)) =
     Some (drainIndex (fst (fst (closeForServiceRestart_start w ready destroyed r))))"
  "socketLog (snd (closeForServiceRestart_start w ready destroyed r)) = socketLog r @
     close_calls ready (webSockets r) @ end_calls destroyed (rawConnections r)"
  "waiters (snd (closeForServiceRestart_start w ready destroyed r)) =
     (if registry_isEmpty r then waiters r else js_add w (waiters r))"
  "snd (fst (closeForServiceRestart_start w ready destroyed r)) =
     (if registry_isEmpty r then Some True else None)"
  by (simp_all add: closeForServiceRestart_start_def waitForEmpty_def Let_def split_def drain_simps
      registry_isEmpty_def)

lemma registry_isEmpty_iff: "registry_isEmpty r \<longleftrightarrow> webSockets r = [] \<and> rawConnections r = []"
  by (simp add: registry_isEmpty_def)

section \<open>Histories of the registry\<close>

text \<open>
  \<open>seen\<close> collects the sockets the registry found closing, closed or destroyed. A wait is named
  by a number not used before.
\<close>

inductive drain_step :: "drain_registry \<times> nat set \<Rightarrow> drain_registry \<times> nat set \<Rightarrow> bool" where
  drain_register_ws: "drain_step (r, seen)
    (snd (registerGatewayWebSocket cat sock rs r), if still_open rs then seen else insert sock seen)"
| drain_unregister_ws: "drain_step (r, seen) (unregisterWebSocket n r, seen)"
| drain_register_raw: "drain_step (r, seen)
    (snd (registerRawLongLivedConnection rcat sock b r), if b then insert sock seen else seen)"
| drain_unregister_raw: "drain_step (r, seen) (unregisterRaw n r, seen)"
| drain_close_start: "w \<notin> set (waiters r) \<Longrightarrow> w \<notin> fst ` set (settled r) \<Longrightarrow>
    drain_step (r, seen) (snd (closeForServiceRestart_start w ready destroyed r),
      seen \<union> {wsSocket g | n g. (n, g) \<in> set (webSockets r) \<and> \<not> still_open (ready n)}
           \<union> {rawSocket g | n g. (n, g) \<in> set (rawConnections r) \<and> destroyed n})"
| drain_timeout: "drain_step (r, seen) (wait_timeout w r, seen)"
| drain_close_finish: "drain_step (r, seen)
    (snd (closeForServiceRestart_finish p answer ready destroyed r), seen)"
| drain_finish: "drain_step (r, seen) (finishServiceRestartDrain r, seen)"

inductive drain_run :: "drain_registry \<Rightarrow> nat set \<Rightarrow> bool" where
  drain_run_empty: "drain_run empty_registry {}"
| drain_run_step: "drain_run r seen \<Longrightarrow> drain_step (r, seen) (r', seen') \<Longrightarrow> drain_run r' seen'"

inductive_cases drain_stepE: "drain_step s s'"

definition waits_ok :: "drain_registry \<Rightarrow> bool" where
  "waits_ok r \<longleftrightarrow> distinct (waiters r @ map fst (settled r)) \<and>
     (registry_isEmpty r \<longrightarrow> waiters r = [])"

definition ids_ok :: "drain_registry \<Rightarrow> bool" where
  "ids_ok r \<longleftrightarrow> wf_map (webSockets r) \<and> wf_map (rawConnections r) \<and>
     (\<forall>n. n \<in> fst ` set (webSockets r) \<union> fst ` set (rawConnections r) \<longrightarrow> n < nextRegistrationId r) \<and>
     fst ` set (webSockets r) \<inter> fst ` set (rawConnections r) = {}"

definition told_ok :: "drain_registry \<Rightarrow> nat set \<Rightarrow> bool" where
  "told_ok r seen \<longleftrightarrow> (activeDrain r \<noteq> None \<longrightarrow>
     (\<forall>g \<in> snd ` set (webSockets r). wsSocket g \<in> seen \<or>
        SocketClose (wsSocket g) SERVICE_RESTART_CODE SERVICE_RESTART_REASON \<in> set (socketLog r)) \<and>
     (\<forall>g \<in> snd ` set (rawConnections r). rawSocket g \<in> seen \<or>
        SocketEnd (rawSocket g) \<in> set (socketLog r)))"

lemma set_js_set_subset: "set (js_set k v m) \<subseteq> insert (k, v) (set m)"
  by (induction m) auto

lemma set_js_delete_subset: "set (js_delete k m) \<subseteq> set m"
  by (auto simp: AList.delete_eq)

lemma told_ok_step:
  assumes "drain_step (r, seen) (r', seen')" "told_ok r seen"
  shows "told_ok r' seen'"
  using assms(1)
proof (cases rule: drain_step.cases)
  case (drain_register_ws cat sock rs)
  then show ?thesis using assms(2)
      set_js_set_subset [of "nextRegistrationId r" "\<lparr>wsCategory = cat, wsSocket = sock\<rparr>" "webSockets r"]
    by (force simp: told_ok_def registerGatewayWebSocket_def Let_def drain_simps)
next
  case (drain_unregister_ws n)
  then show ?thesis using assms(2) set_js_delete_subset [of n "webSockets r"]
    by (force simp: told_ok_def unregisterWebSocket_def drain_simps)
next
  case (drain_register_raw rcat sock b)
  then show ?thesis using assms(2)
      set_js_set_subset [of "nextRegistrationId r" "\<lparr>rawCategory = rcat, rawSocket = sock\<rparr>" "rawConnections r"]
    by (force simp: told_ok_def registerRawLongLivedConnection_def Let_def drain_simps)
next
  case (drain_unregister_raw n)
  then show ?thesis using assms(2) set_js_delete_subset [of n "rawConnections r"]
    by (force simp: told_ok_def unregisterRaw_def drain_simps)
next
  case (drain_close_start w ready destroyed)
  have "wsSocket g \<in> seen' \<or>
      SocketClose (wsSocket g) SERVICE_RESTART_CODE SERVICE_RESTART_REASON \<in> set (close_calls ready (webSockets r))"
    if "(n, g) \<in> set (webSockets r)" for n g
    using that drain_close_start by (cases "still_open (ready n)") (force simp: close_calls_def)+
  moreover have "rawSocket g \<in> seen' \<or> SocketEnd (rawSocket g) \<in> set (end_calls destroyed (rawConnections r))"
    if "(n, g) \<in> set (rawConnections r)" for n g
    using that drain_close_start by (cases "destroyed n") (force simp: end_calls_def)+
  ultimately show ?thesis using drain_close_start(1) by (fastforce simp: told_ok_def drain_simps)
next
  case (drain_timeout w)
  then show ?thesis using assms(2) by (simp add: told_ok_def wait_timeout_def drain_simps)
next
  case (drain_close_finish p answer ready destroyed)
  then show ?thesis using assms(2)
    by (auto simp: told_ok_def closeForServiceRestart_finish_def Let_def)
next
  case drain_finish
  then show ?thesis by (simp add: told_ok_def finishServiceRestartDrain_def)
qed

text \<open>Waits are answered at most once, and none is left waiting for an empty registry.\<close>

lemma waits_distinct_finish:
  "distinct (waiters r @ map fst (settled r)) \<Longrightarrow>
     distinct (waiters (finish_wait b w r) @ map fst (settled (finish_wait b w r)))"
  by (auto simp: finish_wait_def distinct_js_remove)

lemma waits_distinct_fold:
  "distinct (waiters r @ map fst (settled r)) \<Longrightarrow>
     distinct (waiters (fold (finish_wait b) ws r) @ map fst (settled (fold (finish_wait b) ws r)))"
proof (induction ws arbitrary: r)
  case (Cons w ws)
  then show ?case using waits_distinct_finish by simp
qed simp

lemma waits_ok_notify:
  assumes "distinct (waiters r @ map fst (settled r))"
  shows "waits_ok (notifyIfEmpty r)"
proof -
  have "distinct (waiters (notifyIfEmpty r) @ map fst (settled (notifyIfEmpty r)))"
    using assms waits_distinct_fold [of r True "waiters r"] by (auto simp: notifyIfEmpty_def)
  moreover have "set (waiters (notifyIfEmpty r)) = {}" if "registry_isEmpty (notifyIfEmpty r)"
    using that by (simp add: drain_simps registry_isEmpty_def)
  ultimately show ?thesis by (simp add: waits_ok_def)
qed

lemma set_js_set_nonempty: "js_set k v m \<noteq> []"
  by (cases m) auto

lemma waits_ok_step:
  assumes "drain_step (r, seen) (r', seen')" "waits_ok r"
  shows "waits_ok r'"
  using assms(1)
proof (cases rule: drain_step.cases)
  case (drain_register_ws cat sock rs)
  then show ?thesis using assms(2)
    by (simp add: waits_ok_def registerGatewayWebSocket_def Let_def drain_simps
        registry_isEmpty_iff set_js_set_nonempty)
next
  case (drain_unregister_ws n)
  have "waits_ok (notifyIfEmpty (r\<lparr>webSockets := js_delete n (webSockets r)\<rparr>))"
    by (rule waits_ok_notify) (use assms(2) in \<open>simp add: waits_ok_def\<close>)
  then show ?thesis using drain_unregister_ws by (simp add: unregisterWebSocket_def)
next
  case (drain_register_raw rcat sock b)
  then show ?thesis using assms(2)
    by (simp add: waits_ok_def registerRawLongLivedConnection_def Let_def drain_simps
        registry_isEmpty_iff set_js_set_nonempty)
next
  case (drain_unregister_raw n)
  have "waits_ok (notifyIfEmpty (r\<lparr>rawConnections := js_delete n (rawConnections r)\<rparr>))"
    by (rule waits_ok_notify) (use assms(2) in \<open>simp add: waits_ok_def\<close>)
  then show ?thesis using drain_unregister_raw by (simp add: unregisterRaw_def)
next
  case (drain_close_start w ready destroyed)
  moreover have "registry_isEmpty r' = registry_isEmpty r"
    using drain_close_start(1) by (intro registry_isEmpty_cong) (simp_all add: drain_simps)
  ultimately show ?thesis using assms(2)
    by (auto simp: waits_ok_def drain_simps distinct_js_add)
next
  case (drain_timeout w)
  moreover have "registry_isEmpty r' = registry_isEmpty r"
    using drain_timeout(1) by (intro registry_isEmpty_cong) (simp_all add: wait_timeout_def drain_simps)
  moreover have "set (waiters r') \<subseteq> set (waiters r)"
    using drain_timeout(1) by (auto simp: wait_timeout_def drain_simps)
  ultimately show ?thesis using assms(2) waits_distinct_finish [of r False w]
    by (auto simp: waits_ok_def wait_timeout_def)
next
  case (drain_close_finish p answer ready destroyed)
  then show ?thesis using assms(2)
    by (auto simp: waits_ok_def closeForServiceRestart_finish_def Let_def registry_isEmpty_def)
next
  case drain_finish
  then show ?thesis using assms(2) by (auto simp: waits_ok_def finishServiceRestartDrain_def registry_isEmpty_def)
qed

lemma fst_set_js_delete: "fst ` set (js_delete n m) = fst ` set m - {n}"
  by (force simp: AList.delete_eq)

lemma ids_ok_delete_ws:
  "ids_ok r \<Longrightarrow> ids_ok (r\<lparr>webSockets := js_delete n (webSockets r)\<rparr>)"
  "ids_ok r \<Longrightarrow> ids_ok (r\<lparr>rawConnections := js_delete n (rawConnections r)\<rparr>)"
  unfolding ids_ok_def by (simp_all add: wf_map_delete fst_set_js_delete) blast+

lemma ids_ok_cong:
  "ids_ok r \<Longrightarrow> webSockets r' = webSockets r \<Longrightarrow> rawConnections r' = rawConnections r \<Longrightarrow>
     nextRegistrationId r' = nextRegistrationId r \<Longrightarrow> ids_ok r'"
  by (simp add: ids_ok_def)

lemma fst_set_js_set: "fst ` set (js_set k v m) = insert k (fst ` set m)"
  by (induction m) auto

lemma ids_ok_register:
  assumes "ids_ok r"
  shows "ids_ok (r\<lparr>webSockets := js_set (nextRegistrationId r) g (webSockets r),
      nextRegistrationId := nextRegistrationId r + 1\<rparr>)"
    "ids_ok (r\<lparr>rawConnections := js_set (nextRegistrationId r) h (rawConnections r),
      nextRegistrationId := nextRegistrationId r + 1\<rparr>)"
proof -
  have old: "n < nextRegistrationId r + 1" if "n \<in> fst ` set (webSockets r) \<or> n \<in> fst ` set (rawConnections r)" for n
    using that assms by (meson UnI1 UnI2 ids_ok_def less_add_one order_less_trans)
  have new: "nextRegistrationId r \<notin> fst ` set (webSockets r)" "nextRegistrationId r \<notin> fst ` set (rawConnections r)"
    using assms by (meson UnI1 UnI2 ids_ok_def less_irrefl)+
  show "ids_ok (r\<lparr>webSockets := js_set (nextRegistrationId r) g (webSockets r),
      nextRegistrationId := nextRegistrationId r + 1\<rparr>)"
    "ids_ok (r\<lparr>rawConnections := js_set (nextRegistrationId r) h (rawConnections r),
      nextRegistrationId := nextRegistrationId r + 1\<rparr>)"
    using old new assms unfolding ids_ok_def
    by (simp_all add: wf_map_set fst_set_js_set)
qed

lemma ids_ok_step:
  assumes "drain_step (r, seen) (r', seen')" "ids_ok r"
  shows "ids_ok r'"
  using assms(1)
proof (cases rule: drain_step.cases)
  case (drain_register_ws cat sock rs)
  have "ids_ok (r\<lparr>webSockets := js_set (nextRegistrationId r) \<lparr> wsCategory = cat, wsSocket = sock \<rparr> (webSockets r),
      nextRegistrationId := nextRegistrationId r + 1\<rparr>)"
    using assms(2) by (rule ids_ok_register)
  then show ?thesis using drain_register_ws
    by (auto simp: registerGatewayWebSocket_def Let_def drain_simps intro: ids_ok_cong)
next
  case (drain_unregister_ws n)
  then show ?thesis using ids_ok_delete_ws(1) [OF assms(2), of n]
    by (auto simp: unregisterWebSocket_def drain_simps intro: ids_ok_cong)
next
  case (drain_register_raw rcat sock b)
  have "ids_ok (r\<lparr>rawConnections := js_set (nextRegistrationId r) \<lparr> rawCategory = rcat, rawSocket = sock \<rparr> (rawConnections r),
      nextRegistrationId := nextRegistrationId r + 1\<rparr>)"
    using assms(2) by (rule ids_ok_register)
  then show ?thesis using drain_register_raw
    by (auto simp: registerRawLongLivedConnection_def Let_def drain_simps intro: ids_ok_cong)
next
  case (drain_unregister_raw n)
  then show ?thesis using ids_ok_delete_ws(2) [OF assms(2), of n]
    by (auto simp: unregisterRaw_def drain_simps intro: ids_ok_cong)
next
  case (drain_close_start w ready destroyed)
  then show ?thesis using assms(2) by (auto simp: drain_simps intro: ids_ok_cong)
next
  case (drain_timeout w)
  then show ?thesis using assms(2) by (auto simp: wait_timeout_def drain_simps intro: ids_ok_cong)
next
  case (drain_close_finish p answer ready destroyed)
  then show ?thesis using assms(2)
    by (auto simp: closeForServiceRestart_finish_def Let_def intro: ids_ok_cong)
next
  case drain_finish
  then show ?thesis using assms(2) by (auto simp: finishServiceRestartDrain_def intro: ids_ok_cong)
qed

lemma drain_run_ok:
  "drain_run r seen \<Longrightarrow> told_ok r seen \<and> waits_ok r \<and> ids_ok r"
proof (induction rule: drain_run.induct)
  case drain_run_empty
  show ?case by (simp add: told_ok_def waits_ok_def ids_ok_def empty_registry_def)
next
  case (drain_run_step r seen r' seen')
  then show ?case using told_ok_step waits_ok_step ids_ok_step by blast
qed

section \<open>The category counts\<close>

definition category_total :: "category_counts \<Rightarrow> int" where
  "category_total c = directEgressWebSocketCount c + portAccessRawConnectionCount c +
     ptyTransportWebSocketCount c + sandboxTunnelWebSocketCount c"

lemma category_total_websockets: "category_total (fold count_websocket gs c) = category_total c + int (length gs)"
  by (induction gs arbitrary: c) (simp_all add: count_websocket_def category_total_def)

lemma category_total_raws: "category_total (fold count_raw gs c) = category_total c + int (length gs)"
proof (induction gs arbitrary: c)
  case (Cons g gs)
  then show ?case by (cases "rawCategory g") (simp add: count_raw_def category_total_def)
qed simp

lemma category_counts_total:
  "category_total (activeCategoryCounts r) =
     webSocketCount (activeCounts r) + rawLongLivedConnectionCount (activeCounts r)"
  by (simp add: activeCategoryCounts_def category_total_websockets category_total_raws activeCounts_def)
    (simp add: category_total_def)

section \<open>What a drain guarantees\<close>

text \<open>
  C14: In every history of the registry, while a service-restart drain is active every registered
  web socket that was not found closing or closed has been sent a close with the service-restart
  code, and every registered raw connection that was not found destroyed has been ended, those
  that registered after the drain had begun included; and a wait of the drain is pending only
  while some connection is registered, and is answered at most once.
\<close>

theorem drain_overlooks_none:
  assumes "drain_run r seen"
  shows "(activeDrain r = None \<or>
      (\<forall>n g. js_get (webSockets r) n = Some g \<longrightarrow> wsSocket g \<in> seen \<or>
         SocketClose (wsSocket g) SERVICE_RESTART_CODE SERVICE_RESTART_REASON \<in> set (socketLog r)) \<and>
      (\<forall>n g. js_get (rawConnections r) n = Some g \<longrightarrow> rawSocket g \<in> seen \<or>
         SocketEnd (rawSocket g) \<in> set (socketLog r))) \<and>
    (registry_isEmpty r \<longrightarrow> waiters r = []) \<and> distinct (waiters r @ map fst (settled r))"
proof -
  have ok: "told_ok r seen" "waits_ok r" using drain_run_ok [OF assms] by auto
  show ?thesis
    using ok by (force simp: told_ok_def waits_ok_def dest!: map_of_SomeD)
qed

definition example_draining :: drain_registry where
  "example_draining = snd (registerGatewayWebSocket PtyTransport 8 1
     (snd (closeForServiceRestart_start 0 (\<lambda>n. 1) (\<lambda>n. False)
       (snd (registerGatewayWebSocket SandboxTunnel 7 1 empty_registry)))))"

lemma example_draining_run: "drain_run example_draining {}"
proof -
  have 1: "drain_run (snd (registerGatewayWebSocket SandboxTunnel 7 1 empty_registry)) {}"
    using drain_run_step [OF drain_run_empty drain_register_ws [of empty_registry "{}" SandboxTunnel 7 1]]
    by (simp add: still_open_def WS_CLOSED_def WS_CLOSING_def)
  have "drain_step (snd (registerGatewayWebSocket SandboxTunnel 7 1 empty_registry), {})
      (snd (closeForServiceRestart_start 0 (\<lambda>n. 1) (\<lambda>n. False)
       (snd (registerGatewayWebSocket SandboxTunnel 7 1 empty_registry))), {})"
    using drain_close_start [of 0 "snd (registerGatewayWebSocket SandboxTunnel 7 1 empty_registry)" "{}"
        "\<lambda>n. 1" "\<lambda>n. False"]
    by (simp add: still_open_def WS_CLOSED_def WS_CLOSING_def registerGatewayWebSocket_def Let_def
        drain_simps empty_registry_def)
  note 2 = drain_run_step [OF 1 this]
  show ?thesis
    using drain_run_step [OF 2 drain_register_ws [of _ "{}" PtyTransport 8 1]]
    by (simp add: example_draining_def still_open_def WS_CLOSED_def WS_CLOSING_def)
qed

lemma drain_overlooks_none_witness:
  "SocketClose 8 SERVICE_RESTART_CODE SERVICE_RESTART_REASON \<in> set (socketLog example_draining) \<and>
   \<not> registry_isEmpty example_draining"
proof -
  have "activeDrain example_draining = Some 0"
      "js_get (webSockets example_draining) 2 = Some \<lparr> wsCategory = PtyTransport, wsSocket = 8 \<rparr>"
      "waiters example_draining = [0]"
    by code_simp+
  then show ?thesis using drain_overlooks_none [OF example_draining_run] by fastforce
qed

section \<open>Replacing the gateway\<close>

text \<open>
  The handler of \<open>createGatewayForwardingReplacementHandler\<close>: \<open>Idle\<close> while its
  \<open>replacementPromise\<close> is undefined, \<open>Waiting\<close> while the drain is awaited (under the wait name,
  with the answer when the registry was empty at once), \<open>Replaced\<close> when the \<open>finally\<close> block has
  run. \<open>unrecoverable\<close> lists the calls of \<open>onUnrecoverableForwarding\<close>, latest first.
\<close>

datatype replacement_phase = Idle
  | Waiting (phaseReason: string) (phaseWait: nat) (phaseAnswer: "bool option") (phasePending: pending_close)
  | Replaced (phaseReason: string)

record replacement_world =
  lifecycle :: gateway_status
  registry :: drain_registry
  phase :: replacement_phase
  unrecoverable :: "string list"

definition replacement_handler ::
  "int \<Rightarrow> nat \<Rightarrow> (int \<Rightarrow> int) \<Rightarrow> (int \<Rightarrow> bool) \<Rightarrow> string \<Rightarrow> replacement_world \<Rightarrow> replacement_world" where
  "replacement_handler now w ready destroyed r s = (case phase s of
     Idle \<Rightarrow>
       let started = startDrain now SERVICE_RESTART_REASON (lifecycle s) in
       (case closeForServiceRestart_start w ready destroyed (registry s) of ((p, answer), reg) \<Rightarrow>
          s\<lparr>lifecycle := started, registry := reg, phase := Waiting r w answer p\<rparr>)
   | _ \<Rightarrow> s)"

text \<open>The continuation after the awaited drain, run when its answer is there.\<close>

definition replacement_resume ::
  "(int \<Rightarrow> int) \<Rightarrow> (int \<Rightarrow> bool) \<Rightarrow> replacement_world \<Rightarrow> replacement_world" where
  "replacement_resume ready destroyed s = (case phase s of
     Waiting r w answer p \<Rightarrow>
       (case (case answer of Some b \<Rightarrow> Some b | None \<Rightarrow> map_of (settled (registry s)) w) of
          None \<Rightarrow> s
        | Some b \<Rightarrow>
            s\<lparr>registry := snd (closeForServiceRestart_finish p b ready destroyed (registry s)),
              phase := Replaced r, unrecoverable := r # unrecoverable s\<rparr>)
   | _ \<Rightarrow> s)"

text \<open>A drain that throws reaches the \<open>finally\<close> block too.\<close>

definition replacement_drain_failed :: "replacement_world \<Rightarrow> replacement_world" where
  "replacement_drain_failed s = (case phase s of
     Waiting r w answer p \<Rightarrow> s\<lparr>phase := Replaced r, unrecoverable := r # unrecoverable s\<rparr>
   | _ \<Rightarrow> s)"

inductive replacement_step :: "replacement_world \<Rightarrow> string option \<Rightarrow> replacement_world \<Rightarrow> bool" where
  replacement_called: "w \<notin> set (waiters (registry s)) \<Longrightarrow> w \<notin> fst ` set (settled (registry s)) \<Longrightarrow>
    replacement_step s (Some r) (replacement_handler now w ready destroyed r s)"
| replacement_resumed: "replacement_step s None (replacement_resume ready destroyed s)"
| replacement_failed: "replacement_step s None (replacement_drain_failed s)"
| registry_changed: "drain_step (registry s, seen) (reg, seen') \<Longrightarrow>
    replacement_step s None (s\<lparr>registry := reg\<rparr>)"
| lifecycle_drained: "replacement_step s None (s\<lparr>lifecycle := startDrain now r (lifecycle s)\<rparr>)"

inductive replacement_run :: "string list \<Rightarrow> replacement_world \<Rightarrow> bool" where
  replacement_idle: "replacement_run [] \<lparr> lifecycle = Serving, registry = empty_registry, phase = Idle, unrecoverable = [] \<rparr>"
| replacement_more: "replacement_run cs s \<Longrightarrow> replacement_step s c s' \<Longrightarrow>
    replacement_run (cs @ (case c of None \<Rightarrow> [] | Some r \<Rightarrow> [r])) s'"

definition wait_names :: "drain_registry \<Rightarrow> nat set" where
  "wait_names r = set (waiters r) \<union> fst ` set (settled r)"

lemma wait_names_finish_wait: "wait_names (finish_wait b w r) = wait_names r"
  by (auto simp: wait_names_def finish_wait_def)

lemma wait_names_fold: "wait_names (fold (finish_wait b) ws r) = wait_names r"
  by (induction ws arbitrary: r) (simp_all add: wait_names_finish_wait)

lemma wait_names_notify: "wait_names (notifyIfEmpty r) = wait_names r"
  by (simp add: notifyIfEmpty_def wait_names_fold)

lemma wait_names_step:
  assumes "drain_step (r, seen) (r', seen')"
  shows "wait_names r \<subseteq> wait_names r'"
  using assms
proof (cases rule: drain_step.cases)
  case (drain_unregister_ws n)
  have "wait_names (r\<lparr>webSockets := js_delete n (webSockets r)\<rparr>) = wait_names r"
    by (simp add: wait_names_def)
  then show ?thesis using drain_unregister_ws by (simp add: unregisterWebSocket_def wait_names_notify)
next
  case (drain_unregister_raw n)
  have "wait_names (r\<lparr>rawConnections := js_delete n (rawConnections r)\<rparr>) = wait_names r"
    by (simp add: wait_names_def)
  then show ?thesis using drain_unregister_raw by (simp add: unregisterRaw_def wait_names_notify)
next
  case (drain_timeout w)
  then show ?thesis by (simp add: wait_timeout_def wait_names_finish_wait)
qed (auto simp: wait_names_def registerGatewayWebSocket_def registerRawLongLivedConnection_def
    Let_def drain_simps closeForServiceRestart_finish_def finishServiceRestartDrain_def)

definition replacement_ok :: "string list \<Rightarrow> replacement_world \<Rightarrow> bool" where
  "replacement_ok cs s \<longleftrightarrow> (case phase s of
     Idle \<Rightarrow> cs = [] \<and> unrecoverable s = []
   | Waiting r w answer p \<Rightarrow> cs \<noteq> [] \<and> r = hd cs \<and> unrecoverable s = [] \<and> lifecycle s \<noteq> Serving \<and>
       (answer = None \<longrightarrow> w \<in> wait_names (registry s))
   | Replaced r \<Rightarrow> cs \<noteq> [] \<and> r = hd cs \<and> unrecoverable s = [r] \<and> lifecycle s \<noteq> Serving)"

lemma startDrain_draining: "startDrain now r st \<noteq> Serving"
  by (simp add: startDrain_def split: gateway_status.splits)

lemma handler_ok:
  assumes "replacement_ok cs s"
  shows "replacement_ok (cs @ [r]) (replacement_handler now w ready destroyed r s)"
proof (cases "phase s")
  case Idle
  let ?c = "closeForServiceRestart_start w ready destroyed (registry s)"
  have "snd (fst ?c) = None \<Longrightarrow> w \<in> wait_names (snd ?c)"
    by (simp add: drain_simps wait_names_def split: if_splits)
  then show ?thesis using assms Idle startDrain_draining
    by (auto simp: replacement_ok_def replacement_handler_def Let_def split: prod.splits)
qed (use assms in \<open>auto simp: replacement_ok_def replacement_handler_def\<close>)

lemma replacement_step_ok:
  assumes "replacement_step s c s'" "replacement_ok cs s"
  shows "replacement_ok (cs @ (case c of None \<Rightarrow> [] | Some r \<Rightarrow> [r])) s'"
  using assms(1)
proof (cases rule: replacement_step.cases)
  case (replacement_called w r now ready destroyed)
  then show ?thesis using handler_ok [OF assms(2)] by simp
next
  case (replacement_resumed ready destroyed)
  then show ?thesis using assms(2)
    by (auto simp: replacement_ok_def replacement_resume_def split: replacement_phase.splits option.splits)
next
  case replacement_failed
  then show ?thesis using assms(2)
    by (auto simp: replacement_ok_def replacement_drain_failed_def split: replacement_phase.splits)
next
  case (registry_changed seen reg seen')
  then show ?thesis using assms(2) wait_names_step [OF registry_changed(3)]
    by (auto simp: replacement_ok_def split: replacement_phase.splits)
next
  case (lifecycle_drained now r)
  then show ?thesis using assms(2) startDrain_draining
    by (auto simp: replacement_ok_def split: replacement_phase.splits)
qed

lemma replacement_run_ok: "replacement_run cs s \<Longrightarrow> replacement_ok cs s"
proof (induction rule: replacement_run.induct)
  case replacement_idle
  show ?case by (simp add: replacement_ok_def)
next
  case (replacement_more cs s c s')
  then show ?case using replacement_step_ok by blast
qed

text \<open>
  However often the replacement handler is called and whatever the connections do, the
  process is told to give up at most once, with the reason of the first call; from that call on
  every admission is refused with status 503; and the replacement cannot get stuck: once the
  wait of the drain has timed out, or was answered, resuming the handler gives the process up.
\<close>

theorem replacement_happens_once:
  assumes "replacement_run cs s" "cs \<noteq> []"
  shows "(unrecoverable s = [] \<or> unrecoverable s = [hd cs]) \<and>
    (\<exists>resp. createGatewayDrainingAdmissionResponse (lifecycle s) responseKind = Some resp \<and>
       responseStatus resp = 503) \<and>
    unrecoverable (replacement_resume ready destroyed
      (s\<lparr>registry := wait_timeout (phaseWait (phase s)) (registry s)\<rparr>)) = [hd cs]"
proof -
  have ok: "replacement_ok cs s" using assms(1) by (rule replacement_run_ok)
  have "lifecycle s \<noteq> Serving" "unrecoverable s = [] \<or> unrecoverable s = [hd cs]"
    using ok assms(2) by (auto simp: replacement_ok_def split: replacement_phase.splits)
  moreover have "unrecoverable (replacement_resume ready destroyed
      (s\<lparr>registry := wait_timeout (phaseWait (phase s)) (registry s)\<rparr>)) = [hd cs]"
  proof (cases "phase s")
    case (Waiting r w answer p)
    have "answer = None \<Longrightarrow> w \<in> fst ` set (settled (wait_timeout w (registry s)))"
      using ok Waiting by (auto simp: replacement_ok_def wait_names_def wait_timeout_def finish_wait_def)
    then have "answer = None \<Longrightarrow> map_of (settled (wait_timeout w (registry s))) w \<noteq> None"
      by (metis map_of_eq_None_iff)
    then show ?thesis using ok Waiting
      by (auto simp: replacement_ok_def replacement_resume_def split: option.splits)
  qed (use ok assms(2) in \<open>auto simp: replacement_ok_def replacement_resume_def\<close>)
  ultimately show ?thesis
    by (auto simp: createGatewayDrainingAdmissionResponse_def isServing_def
        createGatewayDrainingJsonResponse_def createGatewayDrainingTextResponse_def)
qed

lemma replacement_happens_once_witness:
  "\<exists>s. replacement_run [''forwarding_not_ready_timeout''] s \<and>
     (\<exists>resp. createGatewayDrainingAdmissionResponse (lifecycle s) ''json'' = Some resp \<and>
       responseStatus resp = 503)"
proof -
  let ?s = "\<lparr> lifecycle = Serving, registry = empty_registry, phase = Idle, unrecoverable = [] \<rparr>"
  have "replacement_step ?s (Some ''forwarding_not_ready_timeout'')
      (replacement_handler 5 0 (\<lambda>n. 1) (\<lambda>n. False) ''forwarding_not_ready_timeout'' ?s)"
    by (rule replacement_called) (simp_all add: empty_registry_def)
  from replacement_more [OF replacement_idle this]
  have run: "replacement_run [''forwarding_not_ready_timeout'']
      (replacement_handler 5 0 (\<lambda>n. 1) (\<lambda>n. False) ''forwarding_not_ready_timeout'' ?s)"
    by simp
  show ?thesis using replacement_happens_once [OF run, of "''json''"] run by blast
qed

end
