(* ===== verification/Deadlines.thy ===== *)
theory Deadlines
  imports Prelude
begin

text \<open>
  Deadlines of sandbox instances, \<open>apps/data-plane-gateway/src/deadlines\<close>: the requests the
  gateway makes of the data-plane API (\<open>sandbox-instance-deadline-service.ts\<close>; the client is a
  parameter, each request may throw) and the queue that serialises them per sandbox instance
  (\<open>sandbox-deadline-lifecycle-coordinator.ts\<close>), as a relation on the promises it chains.
\<close>

section \<open>The deadline service\<close>

datatype deadline_kind = IdleDeadline | DisconnectDeadline

datatype runtime_event = BootstrapRecovered | BootstrapDegraded | BootstrapDetached
  | RuntimeReadinessReported bool

record deadline_input =
  inputSandboxInstanceId :: string
  inputOwnerLeaseId :: string
  inputTestEnvironmentId :: "string option"

text \<open>The requests; the due time is the millisecond clock value of the ISO string that is sent.\<close>

datatype deadline_request =
    PutDeadline (requestInput: deadline_input) deadline_kind int
  | DeleteDeadline (requestInput: deadline_input) deadline_kind
  | LifecycleEvent (requestInput: deadline_input) runtime_event

record lifecycle_durations =
  idleTimeoutMs :: int
  bootstrapDisconnectGraceMs :: int

type_synonym ('e, 's) deadline_client = "deadline_request \<Rightarrow> ('e, 's, unit) comp"

abbreviation and_then :: "('e, 's, unit) comp \<Rightarrow> ('e, 's, unit) comp \<Rightarrow> ('e, 's, unit) comp" where
  "and_then m k \<equiv> comp_bind m (\<lambda>_. k)"

definition touchIdleDeadline ::
  "('e, 's) deadline_client \<Rightarrow> lifecycle_durations \<Rightarrow> int \<Rightarrow> deadline_input \<Rightarrow> ('e, 's, unit) comp" where
  "touchIdleDeadline client dur now i = client (PutDeadline i IdleDeadline (now + idleTimeoutMs dur))"

definition clearIdleDeadline :: "('e, 's) deadline_client \<Rightarrow> deadline_input \<Rightarrow> ('e, 's, unit) comp" where
  "clearIdleDeadline client i = client (DeleteDeadline i IdleDeadline)"

definition handleBootstrapAttach ::
  "('e, 's) deadline_client \<Rightarrow> lifecycle_durations \<Rightarrow> int \<Rightarrow> deadline_input \<Rightarrow> ('e, 's, unit) comp" where
  "handleBootstrapAttach client dur now i =
     and_then (client (LifecycleEvent i BootstrapRecovered))
       (and_then (client (LifecycleEvent i (RuntimeReadinessReported False)))
         (touchIdleDeadline client dur now i))"

definition handleBootstrapDisconnect ::
  "('e, 's) deadline_client \<Rightarrow> lifecycle_durations \<Rightarrow> int \<Rightarrow> deadline_input \<Rightarrow> ('e, 's, unit) comp" where
  "handleBootstrapDisconnect client dur now i =
     and_then (clearIdleDeadline client i)
       (and_then (client (LifecycleEvent i BootstrapDetached))
         (client (PutDeadline i DisconnectDeadline (now + bootstrapDisconnectGraceMs dur))))"

definition handleBootstrapDegraded :: "('e, 's) deadline_client \<Rightarrow> deadline_input \<Rightarrow> ('e, 's, unit) comp" where
  "handleBootstrapDegraded client i = client (LifecycleEvent i BootstrapDegraded)"

definition handleBootstrapRecovered :: "('e, 's) deadline_client \<Rightarrow> deadline_input \<Rightarrow> ('e, 's, unit) comp" where
  "handleBootstrapRecovered client i = client (LifecycleEvent i BootstrapRecovered)"

definition handleRuntimeReadiness :: "('e, 's) deadline_client \<Rightarrow> deadline_input \<Rightarrow> bool \<Rightarrow> ('e, 's, unit) comp" where
  "handleRuntimeReadiness client i rdy = client (LifecycleEvent i (RuntimeReadinessReported rdy))"

text \<open>A client that logs its requests and fails from the \<open>n\<close>-th on.\<close>

definition logging_client :: "nat \<Rightarrow> (string, deadline_request list) deadline_client" where
  "logging_client n req log =
     (if length log < n then (Inr (), log @ [req]) else (Inl ''unavailable'', log))"

text \<open>
  A disconnect deadline is never armed while the idle deadline may still stand, and never before
  the detach is recorded: the requests are made in that order and stop at the first failure.
\<close>

lemma disconnect_requests:
  "snd (handleBootstrapDisconnect (logging_client n) dur now i []) = take n
     [DeleteDeadline i IdleDeadline, LifecycleEvent i BootstrapDetached,
      PutDeadline i DisconnectDeadline (now + bootstrapDisconnectGraceMs dur)]"
  by (cases n; cases "n - 1"; cases "n - 2")
    (auto simp: handleBootstrapDisconnect_def clearIdleDeadline_def logging_client_def comp_bind_def
      take_Cons')

lemma attach_requests:
  "snd (handleBootstrapAttach (logging_client n) dur now i []) = take n
     [LifecycleEvent i BootstrapRecovered, LifecycleEvent i (RuntimeReadinessReported False),
      PutDeadline i IdleDeadline (now + idleTimeoutMs dur)]"
  by (cases n; cases "n - 1"; cases "n - 2")
    (auto simp: handleBootstrapAttach_def touchIdleDeadline_def logging_client_def comp_bind_def
      take_Cons')

section \<open>The queue of lifecycle transitions\<close>

text \<open>
  A transition is the promise \<open>currentTransition\<close>, named by its place in \<open>transitions\<close>. It is
  \<open>Queued\<close> until its operation is called (once the promise it was chained to has settled, either
  way), \<open>Running\<close> until the operation's promise settles, then \<open>Settled\<close> (with whether it
  failed), and \<open>Cleaned\<close> when the \<open>finally\<close> block of its \<open>enqueue\<close> has run.
\<close>

datatype transition_status = Queued | Running | Settled bool | Cleaned

record transition =
  transitionSandbox :: string
  chainedTo :: "nat option"
  transitionStatus :: transition_status

record coordinator =
  transitions :: "transition list"
  transitionsBySandboxInstanceId :: "(string, nat) js_map"

definition empty_coordinator :: coordinator where
  "empty_coordinator = \<lparr> transitions = [], transitionsBySandboxInstanceId = [] \<rparr>"

definition is_settled :: "transition \<Rightarrow> bool" where
  "is_settled t \<longleftrightarrow> (case transitionStatus t of Settled _ \<Rightarrow> True | Cleaned \<Rightarrow> True | _ \<Rightarrow> False)"

definition enqueue :: "string \<Rightarrow> coordinator \<Rightarrow> coordinator" where
  "enqueue sb c =
     (let previousTransition = js_get (transitionsBySandboxInstanceId c) sb;
          current = length (transitions c)
      in c\<lparr>transitions := transitions c @
             [\<lparr> transitionSandbox = sb, chainedTo = previousTransition, transitionStatus = Queued \<rparr>],
           transitionsBySandboxInstanceId := js_set sb current (transitionsBySandboxInstanceId c)\<rparr>)"

definition set_status :: "nat \<Rightarrow> transition_status \<Rightarrow> coordinator \<Rightarrow> coordinator" where
  "set_status n st c = c\<lparr>transitions := (transitions c)[n := (transitions c ! n)\<lparr>transitionStatus := st\<rparr>]\<rparr>"

definition may_start :: "nat \<Rightarrow> coordinator \<Rightarrow> bool" where
  "may_start n c \<longleftrightarrow> n < length (transitions c) \<and> transitionStatus (transitions c ! n) = Queued \<and>
     (case chainedTo (transitions c ! n) of None \<Rightarrow> True | Some p \<Rightarrow> is_settled (transitions c ! p))"

definition cleanup :: "nat \<Rightarrow> coordinator \<Rightarrow> coordinator" where
  "cleanup n c =
     (let sb = transitionSandbox (transitions c ! n);
          c1 = (if js_get (transitionsBySandboxInstanceId c) sb = Some n
                then c\<lparr>transitionsBySandboxInstanceId := js_delete sb (transitionsBySandboxInstanceId c)\<rparr>
                else c)
      in set_status n Cleaned c1)"

inductive coordinator_step :: "coordinator \<Rightarrow> coordinator \<Rightarrow> bool" where
  coordinator_enqueue: "coordinator_step c (enqueue sb c)"
| coordinator_start: "may_start n c \<Longrightarrow> coordinator_step c (set_status n Running c)"
| coordinator_settle: "n < length (transitions c) \<Longrightarrow> transitionStatus (transitions c ! n) = Running \<Longrightarrow>
    coordinator_step c (set_status n (Settled failed) c)"
| coordinator_cleanup: "n < length (transitions c) \<Longrightarrow>
    transitionStatus (transitions c ! n) = Settled failed \<Longrightarrow> coordinator_step c (cleanup n c)"

inductive coordinator_run :: "coordinator \<Rightarrow> bool" where
  coordinator_empty: "coordinator_run empty_coordinator"
| coordinator_more: "coordinator_run c \<Longrightarrow> coordinator_step c c' \<Longrightarrow> coordinator_run c'"

section \<open>Serialisation\<close>

text \<open>
  The invariant: the map's entry for a sandbox is its latest transition, and without an entry all
  its transitions have settled; a transition is chained to an earlier one of its sandbox, all
  transitions of the sandbox between them being settled.
\<close>

definition entry_ok :: "coordinator \<Rightarrow> bool" where
  "entry_ok c \<longleftrightarrow> (\<forall>sb n. n < length (transitions c) \<longrightarrow> transitionSandbox (transitions c ! n) = sb \<longrightarrow>
     (case js_get (transitionsBySandboxInstanceId c) sb of
        None \<Rightarrow> is_settled (transitions c ! n)
      | Some m \<Rightarrow> n \<le> m)) \<and>
     (\<forall>sb m. js_get (transitionsBySandboxInstanceId c) sb = Some m \<longrightarrow>
        m < length (transitions c) \<and> transitionSandbox (transitions c ! m) = sb)"

definition chain_ok :: "coordinator \<Rightarrow> bool" where
  "chain_ok c \<longleftrightarrow> (\<forall>n k. n < k \<longrightarrow> k < length (transitions c) \<longrightarrow>
     transitionSandbox (transitions c ! n) = transitionSandbox (transitions c ! k) \<longrightarrow>
     (case chainedTo (transitions c ! k) of None \<Rightarrow> is_settled (transitions c ! n)
      | Some p \<Rightarrow> n \<le> p)) \<and>
     (\<forall>k p. k < length (transitions c) \<longrightarrow> chainedTo (transitions c ! k) = Some p \<longrightarrow>
        p < k \<and> transitionSandbox (transitions c ! p) = transitionSandbox (transitions c ! k))"

definition order_ok :: "coordinator \<Rightarrow> bool" where
  "order_ok c \<longleftrightarrow> (\<forall>n k. n < k \<longrightarrow> k < length (transitions c) \<longrightarrow>
     transitionSandbox (transitions c ! n) = transitionSandbox (transitions c ! k) \<longrightarrow>
     transitionStatus (transitions c ! k) \<noteq> Queued \<longrightarrow> is_settled (transitions c ! n))"

definition coordinator_ok :: "coordinator \<Rightarrow> bool" where
  "coordinator_ok c \<longleftrightarrow> entry_ok c \<and> chain_ok c \<and> order_ok c"

lemma order_okD:
  "order_ok c \<Longrightarrow> n < k \<Longrightarrow> k < length (transitions c) \<Longrightarrow>
     transitionSandbox (transitions c ! n) = transitionSandbox (transitions c ! k) \<Longrightarrow>
     transitionStatus (transitions c ! k) \<noteq> Queued \<Longrightarrow> is_settled (transitions c ! n)"
  by (simp add: order_ok_def)

lemma chain_okD:
  "chain_ok c \<Longrightarrow> n < k \<Longrightarrow> k < length (transitions c) \<Longrightarrow>
     transitionSandbox (transitions c ! n) = transitionSandbox (transitions c ! k) \<Longrightarrow>
     (case chainedTo (transitions c ! k) of None \<Rightarrow> is_settled (transitions c ! n) | Some p \<Rightarrow> n \<le> p)"
  "chain_ok c \<Longrightarrow> k < length (transitions c) \<Longrightarrow> chainedTo (transitions c ! k) = Some p \<Longrightarrow>
     p < k \<and> transitionSandbox (transitions c ! p) = transitionSandbox (transitions c ! k)"
  by (simp_all add: chain_ok_def)

lemma entry_okD:
  "entry_ok c \<Longrightarrow> n < length (transitions c) \<Longrightarrow> transitionSandbox (transitions c ! n) = sb \<Longrightarrow>
     (case js_get (transitionsBySandboxInstanceId c) sb of
        None \<Rightarrow> is_settled (transitions c ! n) | Some m \<Rightarrow> n \<le> m)"
  "entry_ok c \<Longrightarrow> js_get (transitionsBySandboxInstanceId c) sb = Some m \<Longrightarrow>
     m < length (transitions c) \<and> transitionSandbox (transitions c ! m) = sb"
  unfolding entry_ok_def by blast+

lemma case_option_mono:
  "(case x of None \<Rightarrow> P | Some m \<Rightarrow> Q m) \<Longrightarrow> (P \<Longrightarrow> P') \<Longrightarrow>
     (case x of None \<Rightarrow> P' | Some m \<Rightarrow> Q m)"
  by (cases x) simp_all

lemma set_status_nth:
  "n < length (transitions c) \<Longrightarrow> transitions (set_status n st c) ! k =
     (if k = n then (transitions c ! n)\<lparr>transitionStatus := st\<rparr> else transitions c ! k)"
  by (simp add: set_status_def nth_list_update)

lemma set_status_simps [simp]:
  "length (transitions (set_status n st c)) = length (transitions c)"
  "transitionsBySandboxInstanceId (set_status n st c) = transitionsBySandboxInstanceId c"
  by (simp_all add: set_status_def)

lemma is_settled_update [simp]:
  "is_settled (t\<lparr>transitionStatus := st\<rparr>) \<longleftrightarrow> (case st of Settled _ \<Rightarrow> True | Cleaned \<Rightarrow> True | _ \<Rightarrow> False)"
  by (simp add: is_settled_def)

text \<open>A status change that does not take a settlement back keeps the maps and chains right.\<close>

lemma entry_chain_set_status:
  assumes "entry_ok c" "chain_ok c" "n < length (transitions c)"
    "is_settled (transitions c ! n) \<Longrightarrow> is_settled ((transitions c ! n)\<lparr>transitionStatus := st\<rparr>)"
  shows "entry_ok (set_status n st c)" "chain_ok (set_status n st c)"
proof -
  have keep: "is_settled (transitions c ! k) \<Longrightarrow> is_settled (transitions (set_status n st c) ! k)" for k
    using assms(3,4) by (cases "k = n") (simp_all add: set_status_nth)
  have sb: "transitionSandbox (transitions (set_status n st c) ! k) = transitionSandbox (transitions c ! k)"
    "chainedTo (transitions (set_status n st c) ! k) = chainedTo (transitions c ! k)" for k
    using assms(3) by (simp_all add: set_status_nth)
  show "entry_ok (set_status n st c)"
    using assms(1) keep case_option_mono unfolding entry_ok_def sb set_status_simps by metis
  show "chain_ok (set_status n st c)"
    using assms(2) keep case_option_mono unfolding chain_ok_def sb set_status_simps by metis
qed

lemma start_after_all_earlier:
  assumes ok: "coordinator_ok c" and start: "may_start k c"
    and n: "n < k" "transitionSandbox (transitions c ! n) = transitionSandbox (transitions c ! k)"
  shows "is_settled (transitions c ! n)"
proof (cases "chainedTo (transitions c ! k)")
  case None
  then show ?thesis using ok start n by (fastforce simp: coordinator_ok_def chain_ok_def may_start_def)
next
  case (Some p)
  have p: "p < k" "transitionSandbox (transitions c ! p) = transitionSandbox (transitions c ! k)"
      "n \<le> p" "is_settled (transitions c ! p)" "k < length (transitions c)"
    using ok start n Some by (fastforce simp: coordinator_ok_def chain_ok_def may_start_def)+
  then have "transitionStatus (transitions c ! p) \<noteq> Queued" by (auto simp: is_settled_def)
  then show ?thesis using ok n p order_okD [of c n p] by (cases "n = p") (auto simp: coordinator_ok_def)
qed

lemma enqueue_nth:
  "k < length (transitions c) \<Longrightarrow> transitions (enqueue sb c) ! k = transitions c ! k"
  "transitions (enqueue sb c) ! length (transitions c) =
     \<lparr> transitionSandbox = sb, chainedTo = js_get (transitionsBySandboxInstanceId c) sb, transitionStatus = Queued \<rparr>"
  "length (transitions (enqueue sb c)) = Suc (length (transitions c))"
  "transitionsBySandboxInstanceId (enqueue sb c) =
     js_set sb (length (transitions c)) (transitionsBySandboxInstanceId c)"
  by (simp_all add: enqueue_def Let_def nth_append)

lemma enqueue_ok:
  assumes "coordinator_ok c"
  shows "coordinator_ok (enqueue sb c)"
proof -
  have e: "entry_ok c" and ch: "chain_ok c" and o: "order_ok c" using assms by (auto simp: coordinator_ok_def)
  have "entry_ok (enqueue sb c)"
    using e unfolding entry_ok_def enqueue_nth(3,4)
    by (auto simp: less_Suc_eq enqueue_nth store_simps split: option.splits if_splits)
  moreover have "chain_ok (enqueue sb c)"
    unfolding chain_ok_def enqueue_nth(3)
  proof (intro conjI allI impI)
    fix n k
    assume *: "n < k" "k < Suc (length (transitions c))"
      "transitionSandbox (transitions (enqueue sb c) ! n) = transitionSandbox (transitions (enqueue sb c) ! k)"
    show "case chainedTo (transitions (enqueue sb c) ! k) of
        None \<Rightarrow> is_settled (transitions (enqueue sb c) ! n) | Some p \<Rightarrow> n \<le> p"
      using * chain_okD(1) [OF ch, of n k] entry_okD(1) [OF e, of n sb]
      by (cases "k = length (transitions c)") (simp_all add: enqueue_nth cong: option.case_cong)
  next
    fix k p
    assume *: "k < Suc (length (transitions c))" "chainedTo (transitions (enqueue sb c) ! k) = Some p"
    have "p < k \<and> transitionSandbox (transitions c ! p) = transitionSandbox (transitions (enqueue sb c) ! k)"
      using * chain_okD(2) [OF ch, of k p] entry_okD(2) [OF e, of sb p]
      by (cases "k = length (transitions c)") (simp_all add: enqueue_nth)
    then show "p < k" "transitionSandbox (transitions (enqueue sb c) ! p) =
        transitionSandbox (transitions (enqueue sb c) ! k)"
      using *(1) by (simp_all add: enqueue_nth)
  qed
  moreover have "order_ok (enqueue sb c)"
    using o unfolding order_ok_def enqueue_nth(3)
    by (auto simp: less_Suc_eq enqueue_nth)
  ultimately show ?thesis by (simp add: coordinator_ok_def)
qed

lemma order_ok_set_status:
  assumes "order_ok c" "k < length (transitions c)"
    "is_settled (transitions c ! k) \<Longrightarrow> is_settled ((transitions c ! k)\<lparr>transitionStatus := st\<rparr>)"
    "\<And>n. n < k \<Longrightarrow> transitionSandbox (transitions c ! n) = transitionSandbox (transitions c ! k) \<Longrightarrow>
       is_settled (transitions c ! n)"
  shows "order_ok (set_status k st c)"
  unfolding order_ok_def set_status_simps
proof (intro allI impI)
  fix n m
  assume *: "n < m" "m < length (transitions c)"
    "transitionSandbox (transitions (set_status k st c) ! n) = transitionSandbox (transitions (set_status k st c) ! m)"
    "transitionStatus (transitions (set_status k st c) ! m) \<noteq> Queued"
  have "transitionSandbox (transitions c ! n) = transitionSandbox (transitions c ! m)"
    using *(3) assms(2) by (simp add: set_status_nth split: if_splits)
  then have "is_settled (transitions c ! n)"
    using * assms(2,4) order_okD [OF assms(1), of n m] by (cases "m = k") (simp_all add: set_status_nth)
  then show "is_settled (transitions (set_status k st c) ! n)"
    using assms(2,3) by (cases "n = k") (simp_all add: set_status_nth)
qed

lemma set_status_ok:
  assumes ok: "coordinator_ok c" and k: "k < length (transitions c)"
    and keep: "is_settled (transitions c ! k) \<Longrightarrow> is_settled ((transitions c ! k)\<lparr>transitionStatus := st\<rparr>)"
    and started: "transitionStatus (transitions c ! k) \<noteq> Queued \<or> may_start k c"
  shows "coordinator_ok (set_status k st c)"
proof -
  have "is_settled (transitions c ! n)"
    if "n < k" "transitionSandbox (transitions c ! n) = transitionSandbox (transitions c ! k)" for n
    using started start_after_all_earlier [OF ok _ that] order_okD [of c n k] ok that k
    by (auto simp: coordinator_ok_def)
  then show ?thesis
    using entry_chain_set_status [OF _ _ k keep] order_ok_set_status [OF _ k keep] ok
    by (simp add: coordinator_ok_def)
qed

lemma delete_entry_ok:
  assumes ok: "coordinator_ok c" and n: "n < length (transitions c)" "is_settled (transitions c ! n)"
    and entry: "js_get (transitionsBySandboxInstanceId c) (transitionSandbox (transitions c ! n)) = Some n"
  shows "coordinator_ok (c\<lparr>transitionsBySandboxInstanceId :=
     js_delete (transitionSandbox (transitions c ! n)) (transitionsBySandboxInstanceId c)\<rparr>)"
proof -
  let ?sb = "transitionSandbox (transitions c ! n)"
  have e: "entry_ok c" and o: "order_ok c" using ok by (auto simp: coordinator_ok_def)
  have "transitionStatus (transitions c ! n) \<noteq> Queued" using n(2) by (auto simp: is_settled_def)
  then have settled: "is_settled (transitions c ! k)"
    if "k < length (transitions c)" "transitionSandbox (transitions c ! k) = ?sb" for k
    using entry_okD(1) [OF e that] entry order_okD [OF o, of k n] n that by (cases "k = n") auto
  let ?c = "c\<lparr>transitionsBySandboxInstanceId := js_delete ?sb (transitionsBySandboxInstanceId c)\<rparr>"
  have "entry_ok ?c"
    unfolding entry_ok_def
  proof (intro conjI allI impI)
    fix sb k
    assume "k < length (transitions ?c)" "transitionSandbox (transitions ?c ! k) = sb"
    then show "case js_get (transitionsBySandboxInstanceId ?c) sb of
        None \<Rightarrow> is_settled (transitions ?c ! k) | Some m \<Rightarrow> k \<le> m"
      using settled entry_okD(1) [OF e, of k sb] by (simp add: store_simps cong: option.case_cong)
  qed (use entry_okD(2) [OF e] in \<open>auto simp: store_simps split: if_splits\<close>)
  moreover have "chain_ok ?c" "order_ok ?c"
    using ok by (simp_all add: coordinator_ok_def chain_ok_def order_ok_def cong: option.case_cong)
  ultimately show ?thesis by (simp add: coordinator_ok_def)
qed

lemma cleanup_ok:
  assumes ok: "coordinator_ok c" and n: "n < length (transitions c)"
    and settled: "transitionStatus (transitions c ! n) = Settled failed"
  shows "coordinator_ok (cleanup n c)"
proof -
  have s: "is_settled (transitions c ! n)" using settled by (simp add: is_settled_def)
  have "coordinator_ok (set_status n Cleaned c')" if "coordinator_ok c'" "transitions c' = transitions c" for c'
    by (rule set_status_ok [OF that(1)]) (simp_all add: that(2) n settled)
  then show ?thesis using ok delete_entry_ok [OF ok n s] by (simp add: cleanup_def Let_def)
qed

lemma coordinator_step_ok:
  assumes "coordinator_step c c'" "coordinator_ok c"
  shows "coordinator_ok c'"
  using assms
proof (induction rule: coordinator_step.induct)
  case (coordinator_enqueue c sb)
  then show ?case by (rule enqueue_ok)
next
  case (coordinator_start n c)
  then show ?case by (intro set_status_ok) (simp_all add: may_start_def is_settled_def)
next
  case (coordinator_settle n c failed)
  then show ?case by (intro set_status_ok) simp_all
next
  case (coordinator_cleanup n c failed)
  then show ?case by (intro cleanup_ok)
qed

lemma coordinator_run_ok: "coordinator_run c \<Longrightarrow> coordinator_ok c"
proof (induction rule: coordinator_run.induct)
  case coordinator_empty
  show ?case by (simp add: coordinator_ok_def entry_ok_def chain_ok_def order_ok_def empty_coordinator_def)
next
  case (coordinator_more c c')
  then show ?case using coordinator_step_ok by blast
qed

text \<open>A transition whose predecessors have settled can run, whether they failed or not.\<close>

lemma next_may_start:
  assumes "coordinator_run c" "k < length (transitions c)" "transitionStatus (transitions c ! k) = Queued"
    "\<And>n. n < k \<Longrightarrow> transitionSandbox (transitions c ! n) = transitionSandbox (transitions c ! k) \<Longrightarrow>
       is_settled (transitions c ! n)"
  shows "may_start k c"
proof (cases "chainedTo (transitions c ! k)")
  case (Some p)
  then show ?thesis using coordinator_run_ok [OF assms(1)] assms(2-4) chain_okD(2) [of c k p]
    by (simp add: may_start_def coordinator_ok_def)
qed (use assms(2,3) in \<open>simp add: may_start_def\<close>)

text \<open>
  C34: The deadline transitions of one sandbox instance run one at a time and in the order they
  were enqueued: when a transition's operation has been called, every transition of the same
  sandbox enqueued before it has settled; and no failure blocks the queue: the first transition
  of a sandbox that has not been called, its predecessors settled in whatever way, may be called.
\<close>

theorem transitions_serialised:
  assumes "coordinator_run c" "n < k" "k < length (transitions c)"
    "transitionSandbox (transitions c ! n) = transitionSandbox (transitions c ! k)"
  shows "if transitionStatus (transitions c ! k) = Queued
     then may_start k c \<longleftrightarrow>
       (\<forall>m < k. transitionSandbox (transitions c ! m) = transitionSandbox (transitions c ! k) \<longrightarrow>
          is_settled (transitions c ! m))
     else is_settled (transitions c ! n)"
proof -
  have ok: "coordinator_ok c" using assms(1) by (rule coordinator_run_ok)
  have "is_settled (transitions c ! n)" if "transitionStatus (transitions c ! k) \<noteq> Queued"
    using ok order_okD [of c n k] assms(2-4) that by (simp add: coordinator_ok_def)
  then show ?thesis
    using start_after_all_earlier [OF ok, of k] next_may_start [OF assms(1,3)] by auto
qed

definition example_queue :: coordinator where
  "example_queue = set_status 0 (Settled True) (set_status 0 Running
     (enqueue ''sbi_1'' (enqueue ''sbi_1'' empty_coordinator)))"

lemma example_queue_run: "coordinator_run example_queue"
  unfolding example_queue_def
  by (intro coordinator_more [OF _ coordinator_settle] coordinator_more [OF _ coordinator_start]
      coordinator_more [OF _ coordinator_enqueue] coordinator_empty) code_simp+

lemma transitions_serialised_witness: "may_start 1 example_queue"
proof -
  have "(0::nat) < 1" "1 < length (transitions example_queue)"
      "transitionSandbox (transitions example_queue ! 0) = transitionSandbox (transitions example_queue ! 1)"
      "transitionStatus (transitions example_queue ! 1) = Queued" "is_settled (transitions example_queue ! 0)"
    by code_simp+
  then show ?thesis using transitions_serialised [OF example_queue_run, of 0 1] by auto
qed

end
