(* ===== verification/HealthMonitor.thy ===== *)
theory HealthMonitor
  imports Prelude
begin

text \<open>
  The ping/pong health monitor of a tunnel web socket,
  \<open>apps/data-plane-gateway/src/tunnel/session/websocket-health-monitor.ts\<close>. The variables of
  the closure are the fields of \<open>monitor\<close>; a timer handle is the time its callback is due. The
  callbacks the caller passed are logged as \<open>health_event\<close>s, together with the pings written to
  the socket. Clock readings and the socket's state are arguments of each event handler;
  \<open>JSON.parse\<close> is a parameter.
\<close>

section \<open>State\<close>

datatype json_value = JNull | JBool bool | JNumber int | JString string
  | JArray "json_value list" | JObject "(string \<times> json_value) list"

datatype control_frame_kind = CloseFrame | ErrorFrame | PingFrame | PongFrame

record socket_snapshot =
  bufferedAmount :: int
  readyState :: int

record missed_pong =
  missedConsecutive :: int
  missedLastPongAgeMs :: int
  missedMax :: int
  missedPingScheduleDelayMs :: int
  missedPingSentAtMs :: int
  missedPingSeq :: int
  missedPingWriteCallbackAtMs :: "int option"
  missedPingWriteDurationMs :: "int option"
  missedPongTimeoutDriftMs :: int
  missedPongTimeoutFiredAtMs :: int

record ping_write =
  writePingScheduleDelayMs :: int
  writePingSentAtMs :: int
  writePingSeq :: int
  writeCallbackAtMs :: int
  writeDurationMs :: int

datatype health_event =
    PingWritten (writtenSeq: int) (writtenAtMs: int)
  | MissedPong missed_pong socket_snapshot
  | PeerPingReceived (payloadLen: int) (receivedAtMs: int) socket_snapshot
  | PongReceived (expectedPingSeq: "int option") (pongAgeMs: int) (pongMatched: bool)
      (pongPingSeq: "int option") (pongReceivedAtMs: int) (pongSentAtMs: "int option") socket_snapshot
  | Recovered (recoveredMissed: int) (recoveredPongAgeMs: int) (recoveredPingSeq: "int option")
  | SocketClosed (closedCode: int) (closedReason: string) (closedAtMs: int) socket_snapshot
  | SocketError (errorText: string) (errorAtMs: int) socket_snapshot
  | PingWriteCompleted ping_write socket_snapshot
  | PingWriteFailed ping_write (writeError: string) socket_snapshot
  | RoundTripTimeObserved int
  | Unhealthy

record monitor =
  healthy :: bool
  stopped :: bool
  pingHandle :: "int option"
  pingSentAtMs :: "int option"
  pongTimeoutHandle :: "int option"
  consecutiveMissedPongs :: int
  lastPongAtMs :: int
  lastPongReceivedAtMs :: "int option"
  lastControlFrame :: "control_frame_kind option"
  lastControlFrameAtMs :: "int option"
  lastPeerPingAtMs :: "int option"
  lastPongPingSeq :: "int option"
  nextPingSeq :: int
  pingSeq :: "int option"
  pingScheduleDelayMs :: "int option"
  pingWriteCallbackAtMs :: "int option"
  pingWriteDurationMs :: "int option"
  healthLog :: "health_event list"

record monitor_input =
  pingIntervalMs :: int
  pongTimeoutMs :: int
  inputMaxConsecutiveMissedPongs :: "int option"

definition maxConsecutiveMissedPongs :: "monitor_input \<Rightarrow> int" where
  "maxConsecutiveMissedPongs i = (case inputMaxConsecutiveMissedPongs i of None \<Rightarrow> 1 | Some n \<Rightarrow> n)"

definition WS_OPEN :: int where "WS_OPEN = 1"

definition toWebSocketReadyState :: "int \<Rightarrow> int" where
  "toWebSocketReadyState n = (if n = 0 \<or> n = 1 \<or> n = 2 \<or> n = 3 then n else 3)"

definition snapshotWebSocketHealthSocket :: "socket_snapshot \<Rightarrow> socket_snapshot" where
  "snapshotWebSocketHealthSocket k = k\<lparr>readyState := toWebSocketReadyState (readyState k)\<rparr>"

definition emit :: "health_event \<Rightarrow> monitor \<Rightarrow> monitor" where
  "emit e m = m\<lparr>healthLog := healthLog m @ [e]\<rparr>"

section \<open>Ping payloads\<close>

definition createHealthPingPayload :: "int \<Rightarrow> int \<Rightarrow> json_value" where
  "createHealthPingPayload sq sent = JObject [(''type'', JString ''mistle.tunnel.health_ping''),
     (''pingSeq'', JNumber sq), (''sentAtMs'', JNumber sent)]"

definition parseHealthPingPayload :: "(string \<Rightarrow> json_value option) \<Rightarrow> string \<Rightarrow> (int \<times> int) option" where
  "parseHealthPingPayload json_parse data = (case json_parse data of
     Some (JObject entries) \<Rightarrow>
       (case (map_of entries ''type'', map_of entries ''pingSeq'', map_of entries ''sentAtMs'') of
          (Some (JString ty), Some (JNumber sq), Some (JNumber sent)) \<Rightarrow>
            if ty \<noteq> ''mistle.tunnel.health_ping'' then None else Some (sq, sent)
        | _ \<Rightarrow> None)
   | _ \<Rightarrow> None)"

section \<open>The closures\<close>

definition cleanupTimers :: "monitor \<Rightarrow> monitor" where
  "cleanupTimers m = m\<lparr>pingHandle := None, pongTimeoutHandle := None\<rparr>"

definition markUnhealthy :: "monitor \<Rightarrow> monitor" where
  "markUnhealthy m =
     (if stopped m \<or> \<not> healthy m then m
      else emit Unhealthy (cleanupTimers (m\<lparr>healthy := False\<rparr>)))"

text \<open>The socket's listeners are taken off when \<open>stopped\<close> is set.\<close>

definition stopForClosedSocket :: "monitor \<Rightarrow> monitor" where
  "stopForClosedSocket m = (if stopped m then m else cleanupTimers (m\<lparr>stopped := True\<rparr>))"

definition handle_stop :: "monitor \<Rightarrow> monitor" where
  "handle_stop m = (if stopped m then m else cleanupTimers (m\<lparr>stopped := True\<rparr>))"

definition scheduleNextPing :: "monitor_input \<Rightarrow> int \<Rightarrow> monitor \<Rightarrow> monitor" where
  "scheduleNextPing i now m =
     (if stopped m \<or> \<not> healthy m then m
      else if pingHandle m \<noteq> None then m
      else m\<lparr>pingHandle := Some (now + pingIntervalMs i)\<rparr>)"

definition onPing :: "int \<Rightarrow> socket_snapshot \<Rightarrow> string \<Rightarrow> monitor \<Rightarrow> monitor" where
  "onPing now sock data m =
     (if stopped m then m
      else emit (PeerPingReceived (int (length data)) now (snapshotWebSocketHealthSocket sock))
        (m\<lparr>lastControlFrame := Some PingFrame, lastControlFrameAtMs := Some now, lastPeerPingAtMs := Some now\<rparr>))"

definition onClose :: "int \<Rightarrow> socket_snapshot \<Rightarrow> int \<Rightarrow> string \<Rightarrow> monitor \<Rightarrow> monitor" where
  "onClose now sock code reasonText m =
     stopForClosedSocket
       (emit (SocketClosed code reasonText now (snapshotWebSocketHealthSocket sock))
         (m\<lparr>lastControlFrame := Some CloseFrame, lastControlFrameAtMs := Some now\<rparr>))"

definition onError :: "int \<Rightarrow> socket_snapshot \<Rightarrow> string \<Rightarrow> monitor \<Rightarrow> monitor" where
  "onError now sock err m =
     (if stopped m then m
      else emit (SocketError err now (snapshotWebSocketHealthSocket sock))
        (m\<lparr>lastControlFrame := Some ErrorFrame, lastControlFrameAtMs := Some now\<rparr>))"

text \<open>The parts of \<open>onPong\<close>: the frame and the report, the round trip, the recovery, the reset.\<close>

definition pong_matched :: "(int \<times> int) option \<Rightarrow> monitor \<Rightarrow> bool" where
  "pong_matched pongPayload m \<longleftrightarrow> (case pongPayload of None \<Rightarrow> True
     | Some (sq, _) \<Rightarrow> (case pingSeq m of None \<Rightarrow> True | Some expected \<Rightarrow> sq = expected))"

definition observe_round_trip :: "int \<Rightarrow> monitor \<Rightarrow> monitor" where
  "observe_round_trip now m = (case pingSentAtMs m of None \<Rightarrow> m
     | Some sent \<Rightarrow> emit (RoundTripTimeObserved (now - sent)) (m\<lparr>pingSentAtMs := None\<rparr>))"

definition pong_seq :: "(int \<times> int) option \<Rightarrow> monitor \<Rightarrow> int option" where
  "pong_seq pongPayload m = (case pongPayload of Some (sq, _) \<Rightarrow> Some sq | None \<Rightarrow> pingSeq m)"

definition report_recovery :: "int \<Rightarrow> (int \<times> int) option \<Rightarrow> monitor \<Rightarrow> monitor" where
  "report_recovery now pongPayload m =
     (if consecutiveMissedPongs m > 0
      then emit (Recovered (consecutiveMissedPongs m) (now - lastPongAtMs m) (pong_seq pongPayload m)) m
      else m)"

definition onPong ::
  "(string \<Rightarrow> json_value option) \<Rightarrow> monitor_input \<Rightarrow> int \<Rightarrow> socket_snapshot \<Rightarrow> string \<Rightarrow> monitor \<Rightarrow> monitor" where
  "onPong json_parse i now sock data m =
     (if stopped m then m
      else
        let pongPayload = parseHealthPingPayload json_parse data;
            m1 = m\<lparr>lastControlFrame := Some PongFrame, lastControlFrameAtMs := Some now\<rparr>;
            matched = pong_matched pongPayload m1;
            m2 = emit (PongReceived (pingSeq m1) (now - lastPongAtMs m1) matched
                   (map_option fst pongPayload) now (map_option snd pongPayload)
                   (snapshotWebSocketHealthSocket sock)) m1
        in if \<not> matched then m2
           else
             let m3 = report_recovery now pongPayload (observe_round_trip now m2);
                 m4 = m3\<lparr>consecutiveMissedPongs := 0, lastPongAtMs := now,
                        lastPongReceivedAtMs := Some now, lastPongPingSeq := pong_seq pongPayload m3,
                        pingSeq := None, pongTimeoutHandle := None\<rparr>
             in scheduleNextPing i now m4)"

text \<open>The callback of the ping timer.\<close>

definition ping_timer_fired :: "monitor_input \<Rightarrow> int \<Rightarrow> socket_snapshot \<Rightarrow> monitor \<Rightarrow> monitor" where
  "ping_timer_fired i now sock m = (case pingHandle m of
     None \<Rightarrow> m
   | Some scheduledPingAtMs \<Rightarrow>
       let m0 = m\<lparr>pingHandle := None\<rparr> in
       if stopped m0 \<or> \<not> healthy m0 then m0
       else if readyState sock \<noteq> WS_OPEN then stopForClosedSocket m0
       else
         let timeoutScheduledAtMs = now + pongTimeoutMs i;
             sq = nextPingSeq m0
         in emit (PingWritten sq now)
              (m0\<lparr>pongTimeoutHandle := Some timeoutScheduledAtMs, pingSentAtMs := Some now,
                  pingSeq := Some sq, pingScheduleDelayMs := Some (now - scheduledPingAtMs),
                  pingWriteCallbackAtMs := None, pingWriteDurationMs := None,
                  nextPingSeq := nextPingSeq m0 + 1\<rparr>))"

text \<open>The callback of the pong timer.\<close>

definition pong_timer_fired :: "monitor_input \<Rightarrow> int \<Rightarrow> socket_snapshot \<Rightarrow> monitor \<Rightarrow> monitor" where
  "pong_timer_fired i now sock m = (case pongTimeoutHandle m of
     None \<Rightarrow> m
   | Some timeoutScheduledAtMs \<Rightarrow>
       let m0 = m\<lparr>pongTimeoutHandle := None\<rparr> in
       if readyState sock \<noteq> WS_OPEN then stopForClosedSocket m0
       else
         let missed = consecutiveMissedPongs m0 + 1;
             ev = MissedPong \<lparr> missedConsecutive = missed,
                    missedLastPongAgeMs = now - lastPongAtMs m0,
                    missedMax = maxConsecutiveMissedPongs i,
                    missedPingScheduleDelayMs = case_option 0 id (pingScheduleDelayMs m0),
                    missedPingSentAtMs = case_option now id (pingSentAtMs m0),
                    missedPingSeq = case_option 0 id (pingSeq m0),
                    missedPingWriteCallbackAtMs = pingWriteCallbackAtMs m0,
                    missedPingWriteDurationMs = pingWriteDurationMs m0,
                    missedPongTimeoutDriftMs = now - timeoutScheduledAtMs,
                    missedPongTimeoutFiredAtMs = now \<rparr> (snapshotWebSocketHealthSocket sock);
             m1 = emit ev (m0\<lparr>pingSentAtMs := None, pingSeq := None, pingScheduleDelayMs := None,
                    pingWriteCallbackAtMs := None, pingWriteDurationMs := None,
                    consecutiveMissedPongs := missed\<rparr>)
         in if missed \<ge> maxConsecutiveMissedPongs i then markUnhealthy m1
            else scheduleNextPing i now m1)"

text \<open>
  The callback of \<open>rawSocket.ping\<close>, which captured the number, time and delay of its ping.
\<close>

definition ping_write_callback ::
  "int \<Rightarrow> socket_snapshot \<Rightarrow> int \<Rightarrow> int \<Rightarrow> int \<Rightarrow> string option \<Rightarrow> monitor \<Rightarrow> monitor" where
  "ping_write_callback now sock currentPingSeq currentPingSentAtMs currentPingScheduleDelayMs err m =
     (let writeDuration = now - currentPingSentAtMs;
          m1 = (if pingSeq m = Some currentPingSeq
                then m\<lparr>pingWriteCallbackAtMs := Some now, pingWriteDurationMs := Some writeDuration\<rparr>
                else m);
          w = \<lparr> writePingScheduleDelayMs = currentPingScheduleDelayMs,
                writePingSentAtMs = currentPingSentAtMs, writePingSeq = currentPingSeq,
                writeCallbackAtMs = now, writeDurationMs = writeDuration \<rparr>
      in case err of
           Some e \<Rightarrow>
             let m2 = emit (PingWriteFailed w e (snapshotWebSocketHealthSocket sock)) m1
             in if readyState sock \<noteq> WS_OPEN then stopForClosedSocket m2 else markUnhealthy m2
         | None \<Rightarrow> emit (PingWriteCompleted w (snapshotWebSocketHealthSocket sock)) m1)"

definition fresh_monitor :: "int \<Rightarrow> monitor" where
  "fresh_monitor now = \<lparr> healthy = True, stopped = False, pingHandle = None, pingSentAtMs = None,
     pongTimeoutHandle = None, consecutiveMissedPongs = 0, lastPongAtMs = now,
     lastPongReceivedAtMs = None, lastControlFrame = None, lastControlFrameAtMs = None,
     lastPeerPingAtMs = None, lastPongPingSeq = None, nextPingSeq = 1, pingSeq = None,
     pingScheduleDelayMs = None, pingWriteCallbackAtMs = None, pingWriteDurationMs = None,
     healthLog = [] \<rparr>"

definition startWebSocketHealthMonitor :: "bool \<Rightarrow> monitor_input \<Rightarrow> int \<Rightarrow> string + monitor" where
  "startWebSocketHealthMonitor has_raw i now =
     (if \<not> has_raw then Inl ''Expected websocket raw socket for health monitoring.''
      else if maxConsecutiveMissedPongs i < 1
      then Inl ''Expected websocket health monitor missed pong threshold to be positive.''
      else Inr (scheduleNextPing i now (fresh_monitor now)))"

record health_snapshot =
  snapHealthy :: bool
  snapConsecutiveMissedPongs :: int
  snapLastPongAgeMs :: int
  snapLastControlFrame :: "control_frame_kind option"
  snapLastControlFrameAtMs :: "int option"
  snapLastPeerPingAtMs :: "int option"
  snapLastPongAtMs :: "int option"
  snapLastPongPingSeq :: "int option"
  snapPingInFlight :: bool
  snapPingSeq :: "int option"

definition getSnapshot :: "int \<Rightarrow> monitor \<Rightarrow> health_snapshot" where
  "getSnapshot now m = \<lparr> snapHealthy = healthy m,
     snapConsecutiveMissedPongs = consecutiveMissedPongs m,
     snapLastPongAgeMs = now - lastPongAtMs m, snapLastControlFrame = lastControlFrame m,
     snapLastControlFrameAtMs = lastControlFrameAtMs m, snapLastPeerPingAtMs = lastPeerPingAtMs m,
     snapLastPongAtMs = lastPongReceivedAtMs m, snapLastPongPingSeq = lastPongPingSeq m,
     snapPingInFlight = (pingSentAtMs m \<noteq> None), snapPingSeq = pingSeq m \<rparr>"

section \<open>Histories of a monitor\<close>

text \<open>
  The socket's listeners run while they are attached (\<open>stopped\<close> not set); a timer fires when it is
  due; a write callback belongs to a ping that was written.
\<close>

inductive monitor_step :: "(string \<Rightarrow> json_value option) \<Rightarrow> monitor_input \<Rightarrow> monitor \<Rightarrow> monitor \<Rightarrow> bool"
  for json_parse :: "string \<Rightarrow> json_value option" and i :: monitor_input where
  step_pong: "\<not> stopped m \<Longrightarrow> monitor_step json_parse i m (onPong json_parse i now sock data m)"
| step_ping: "\<not> stopped m \<Longrightarrow> monitor_step json_parse i m (onPing now sock data m)"
| step_close: "\<not> stopped m \<Longrightarrow> monitor_step json_parse i m (onClose now sock code text m)"
| step_error: "\<not> stopped m \<Longrightarrow> monitor_step json_parse i m (onError now sock err m)"
| step_ping_timer: "pingHandle m = Some due \<Longrightarrow> due \<le> now \<Longrightarrow>
    monitor_step json_parse i m (ping_timer_fired i now sock m)"
| step_pong_timer: "pongTimeoutHandle m = Some due \<Longrightarrow> due \<le> now \<Longrightarrow>
    monitor_step json_parse i m (pong_timer_fired i now sock m)"
| step_write: "PingWritten sq sent \<in> set (healthLog m) \<Longrightarrow>
    monitor_step json_parse i m (ping_write_callback now sock sq sent delay error m)"
| step_stop: "monitor_step json_parse i m (handle_stop m)"

inductive monitor_run :: "(string \<Rightarrow> json_value option) \<Rightarrow> monitor_input \<Rightarrow> monitor \<Rightarrow> bool"
  for json_parse :: "string \<Rightarrow> json_value option" and i :: monitor_input where
  run_start: "startWebSocketHealthMonitor True i now = Inr m \<Longrightarrow> monitor_run json_parse i m"
| run_step: "monitor_run json_parse i m \<Longrightarrow> monitor_step json_parse i m m' \<Longrightarrow> monitor_run json_parse i m'"

inductive_cases monitor_stepE: "monitor_step json_parse i m m'"

section \<open>The invariant\<close>

definition active :: "monitor \<Rightarrow> bool" where
  "active m \<longleftrightarrow> healthy m \<and> \<not> stopped m"

fun is_missed :: "health_event \<Rightarrow> bool" where
  "is_missed (MissedPong _ _) = True"
| "is_missed _ = False"

fun is_matched_pong :: "health_event \<Rightarrow> bool" where
  "is_matched_pong (PongReceived _ _ b _ _ _ _) = b"
| "is_matched_pong _ = False"

text \<open>The missed pongs reported since the last pong that was accepted, read off the log.\<close>

definition missed_since_pong :: "health_event list \<Rightarrow> int" where
  "missed_since_pong log =
     int (length (filter is_missed (takeWhile (\<lambda>e. \<not> is_matched_pong e) (rev log))))"

definition unhealthy_count :: "health_event list \<Rightarrow> nat" where
  "unhealthy_count log = length (filter (\<lambda>e. e = Unhealthy) log)"

definition timers_ok :: "monitor \<Rightarrow> bool" where
  "timers_ok m \<longleftrightarrow>
     (if active m then (pingHandle m = None) \<noteq> (pongTimeoutHandle m = None)
      else pingHandle m = None \<and> pongTimeoutHandle m = None)"

definition flight_ok :: "monitor \<Rightarrow> bool" where
  "flight_ok m \<longleftrightarrow> (active m \<longrightarrow>
     (pongTimeoutHandle m \<noteq> None \<longleftrightarrow> pingSeq m \<noteq> None) \<and>
     (pingSeq m \<noteq> None \<longleftrightarrow> pingSentAtMs m \<noteq> None) \<and>
     (pingSeq m = None \<or> pingSeq m = Some (nextPingSeq m - 1)))"

definition misses_ok :: "monitor_input \<Rightarrow> monitor \<Rightarrow> bool" where
  "misses_ok i m \<longleftrightarrow> consecutiveMissedPongs m = missed_since_pong (healthLog m) \<and>
     (active m \<longrightarrow> consecutiveMissedPongs m < maxConsecutiveMissedPongs i) \<and>
     unhealthy_count (healthLog m) = (if healthy m then 0 else 1)"

lemma missed_since_pong_append [simp]:
  "missed_since_pong (log @ [e]) =
     (if is_matched_pong e then 0 else (if is_missed e then 1 else 0) + missed_since_pong log)"
  by (simp add: missed_since_pong_def)

lemma unhealthy_count_append [simp]:
  "unhealthy_count (log @ [e]) = unhealthy_count log + (if e = Unhealthy then 1 else 0)"
  by (simp add: unhealthy_count_def)

lemma missed_since_pong_nonneg: "0 \<le> missed_since_pong log"
  by (simp add: missed_since_pong_def)

lemma emit_simps [simp]:
  "healthy (emit e m) = healthy m" "stopped (emit e m) = stopped m"
  "pingHandle (emit e m) = pingHandle m" "pingSentAtMs (emit e m) = pingSentAtMs m"
  "pongTimeoutHandle (emit e m) = pongTimeoutHandle m"
  "consecutiveMissedPongs (emit e m) = consecutiveMissedPongs m"
  "lastPongAtMs (emit e m) = lastPongAtMs m" "pingSeq (emit e m) = pingSeq m"
  "nextPingSeq (emit e m) = nextPingSeq m"
  "missed_since_pong (healthLog (emit e m)) = (if is_matched_pong e then 0
     else (if is_missed e then 1 else 0) + missed_since_pong (healthLog m))"
  "unhealthy_count (healthLog (emit e m)) = unhealthy_count (healthLog m) + (if e = Unhealthy then 1 else 0)"
  by (simp_all add: emit_def)

lemmas monitor_defs = cleanupTimers_def markUnhealthy_def stopForClosedSocket_def
  handle_stop_def scheduleNextPing_def

lemmas invariant_defs = timers_ok_def flight_ok_def active_def

text \<open>One lemma per handler and per part of the invariant.\<close>

lemma pong_timers_ok: "timers_ok m \<Longrightarrow> timers_ok (onPong json_parse i now sock data m)"
  by (auto simp: onPong_def Let_def observe_round_trip_def report_recovery_def monitor_defs
      timers_ok_def active_def split: option.splits if_splits)

lemma pong_flight_ok:
  "timers_ok m \<Longrightarrow> flight_ok m \<Longrightarrow> flight_ok (onPong json_parse i now sock data m)"
  by (auto simp: onPong_def Let_def observe_round_trip_def report_recovery_def monitor_defs
      invariant_defs split: option.splits)

lemma pong_misses_ok:
  assumes "misses_ok i m" "1 \<le> maxConsecutiveMissedPongs i"
  shows "misses_ok i (onPong json_parse i now sock data m)"
  using assms missed_since_pong_nonneg
  by (auto simp: onPong_def Let_def observe_round_trip_def report_recovery_def monitor_defs
      misses_ok_def active_def split: option.splits if_splits)

lemma listener_ok:
  assumes "timers_ok m" "flight_ok m" "misses_ok i m"
  shows "timers_ok (onPing now sock data m) \<and> flight_ok (onPing now sock data m) \<and> misses_ok i (onPing now sock data m)"
    "timers_ok (onClose now sock code text m) \<and> flight_ok (onClose now sock code text m) \<and> misses_ok i (onClose now sock code text m)"
    "timers_ok (onError now sock err m) \<and> flight_ok (onError now sock err m) \<and> misses_ok i (onError now sock err m)"
    "timers_ok (handle_stop m) \<and> flight_ok (handle_stop m) \<and> misses_ok i (handle_stop m)"
  using assms
  by (auto simp: onPing_def onClose_def onError_def monitor_defs invariant_defs misses_ok_def)

lemma ping_timer_ok:
  assumes "timers_ok m" "flight_ok m" "misses_ok i m" "pingHandle m = Some due"
  shows "timers_ok (ping_timer_fired i now sock m)" "flight_ok (ping_timer_fired i now sock m)"
    "misses_ok i (ping_timer_fired i now sock m)"
  using assms by (auto simp: ping_timer_fired_def Let_def monitor_defs invariant_defs misses_ok_def)

lemma pong_timer_ok:
  assumes "timers_ok m" "flight_ok m" "misses_ok i m" "pongTimeoutHandle m = Some due"
  shows "timers_ok (pong_timer_fired i now sock m)" "flight_ok (pong_timer_fired i now sock m)"
    "misses_ok i (pong_timer_fired i now sock m)"
  using assms
  by (auto simp: pong_timer_fired_def Let_def monitor_defs invariant_defs misses_ok_def split: if_splits)

lemma write_ok:
  assumes "timers_ok m" "flight_ok m" "misses_ok i m"
  shows "timers_ok (ping_write_callback now sock sq sent delay error m)"
    "flight_ok (ping_write_callback now sock sq sent delay error m)"
    "misses_ok i (ping_write_callback now sock sq sent delay error m)"
  using assms
  by (auto simp: ping_write_callback_def Let_def monitor_defs invariant_defs misses_ok_def
      split: option.splits if_splits)

definition monitor_ok :: "monitor_input \<Rightarrow> monitor \<Rightarrow> bool" where
  "monitor_ok i m \<longleftrightarrow> timers_ok m \<and> flight_ok m \<and> misses_ok i m \<and> 1 \<le> maxConsecutiveMissedPongs i"

lemma monitor_step_ok:
  assumes "monitor_step json_parse i m m'" "monitor_ok i m"
  shows "monitor_ok i m'"
  using assms(1)
proof (cases rule: monitor_step.cases)
  case (step_pong now sock data)
  then show ?thesis using assms(2) by (simp add: monitor_ok_def pong_timers_ok pong_flight_ok pong_misses_ok)
next
  case (step_ping now sock data)
  then show ?thesis using assms(2) listener_ok(1) [of m i] by (simp add: monitor_ok_def)
next
  case (step_close now sock code msg)
  then show ?thesis using assms(2) listener_ok(2) [of m i] by (simp add: monitor_ok_def)
next
  case (step_error now sock err)
  then show ?thesis using assms(2) listener_ok(3) [of m i] by (simp add: monitor_ok_def)
next
  case (step_ping_timer due now sock)
  then show ?thesis using assms(2) ping_timer_ok by (simp add: monitor_ok_def)
next
  case (step_pong_timer due now sock)
  then show ?thesis using assms(2) pong_timer_ok by (simp add: monitor_ok_def)
next
  case (step_write sq sent now sock delay error)
  then show ?thesis using assms(2) write_ok [of m i] by (simp add: monitor_ok_def)
next
  case step_stop
  then show ?thesis using assms(2) listener_ok(4) [of m i] by (simp add: monitor_ok_def)
qed

lemma monitor_run_ok: "monitor_run json_parse i m \<Longrightarrow> monitor_ok i m"
proof (induction rule: monitor_run.induct)
  case (run_start now m)
  then show ?case
    by (auto simp: startWebSocketHealthMonitor_def fresh_monitor_def scheduleNextPing_def monitor_ok_def
        invariant_defs misses_ok_def missed_since_pong_def unhealthy_count_def split: if_splits)
next
  case (run_step m m')
  then show ?case using monitor_step_ok by blast
qed

section \<open>What the monitor guarantees\<close>

text \<open>
  A monitor that has not stopped and has not declared its socket unhealthy always has exactly
  one timer pending, the next ping or the timeout of the ping in flight, so the check never
  stalls; its count of missed pongs is the number reported since the last accepted pong and is
  below the allowed number; a monitor that stopped or gave up has no timer; and the socket is
  declared unhealthy at most once.
\<close>

theorem monitor_never_stalls:
  assumes "monitor_run json_parse i m"
  shows "(if healthy m \<and> \<not> stopped m
     then (pingHandle m \<noteq> None \<longleftrightarrow> pongTimeoutHandle m = None) \<and>
       (pongTimeoutHandle m \<noteq> None \<longleftrightarrow> pingSeq m \<noteq> None) \<and>
       consecutiveMissedPongs m < maxConsecutiveMissedPongs i
     else pingHandle m = None \<and> pongTimeoutHandle m = None) \<and>
    consecutiveMissedPongs m = missed_since_pong (healthLog m) \<and>
    unhealthy_count (healthLog m) = (if healthy m then 0 else 1)"
  using monitor_run_ok [OF assms]
  by (auto simp: monitor_ok_def timers_ok_def flight_ok_def misses_ok_def active_def)

definition two_misses_input :: monitor_input where
  "two_misses_input = \<lparr> pingIntervalMs = 10, pongTimeoutMs = 5, inputMaxConsecutiveMissedPongs = Some 2 \<rparr>"

definition open_socket :: socket_snapshot where
  "open_socket = \<lparr> bufferedAmount = 0, readyState = 1 \<rparr>"

text \<open>A ping sent at 10 whose pong is missing at 15, then a second one sent at 25.\<close>

definition example_monitor :: monitor where
  "example_monitor = ping_timer_fired two_misses_input 25 open_socket
     (pong_timer_fired two_misses_input 15 open_socket
       (ping_timer_fired two_misses_input 10 open_socket
         (scheduleNextPing two_misses_input 0 (fresh_monitor 0))))"

lemma example_monitor_run: "monitor_run json_parse two_misses_input example_monitor"
proof -
  let ?m0 = "scheduleNextPing two_misses_input 0 (fresh_monitor 0)"
  let ?m1 = "ping_timer_fired two_misses_input 10 open_socket ?m0"
  let ?m2 = "pong_timer_fired two_misses_input 15 open_socket ?m1"
  have "startWebSocketHealthMonitor True two_misses_input 0 = Inr ?m0" by code_simp
  then have 0: "monitor_run json_parse two_misses_input ?m0" by (rule run_start)
  have "pingHandle ?m0 = Some 10" by code_simp
  from run_step [OF 0 step_ping_timer [OF this]] have 1: "monitor_run json_parse two_misses_input ?m1" by simp
  have "pongTimeoutHandle ?m1 = Some 15" by code_simp
  from run_step [OF 1 step_pong_timer [OF this]] have 2: "monitor_run json_parse two_misses_input ?m2" by simp
  have "pingHandle ?m2 = Some 25" by code_simp
  from run_step [OF 2 step_ping_timer [OF this]] show ?thesis by (simp add: example_monitor_def)
qed

lemma monitor_never_stalls_witness:
  "consecutiveMissedPongs example_monitor = 1 \<and> pongTimeoutHandle example_monitor \<noteq> None"
proof -
  have "healthy example_monitor" "\<not> stopped example_monitor" "pingHandle example_monitor = None"
      "missed_since_pong (healthLog example_monitor) = 1"
    by code_simp+
  then show ?thesis using monitor_never_stalls [OF example_monitor_run] by auto
qed

lemma round_trip_healthy: "healthy (observe_round_trip now m) = healthy m"
  by (simp add: observe_round_trip_def split: option.splits)

lemma recovery_healthy: "healthy (report_recovery now payload m) = healthy m"
  by (simp add: report_recovery_def)

lemma listeners_healthy:
  "healthy (onPong json_parse i now sock data m) = healthy m"
  "healthy (onPing now sock data m) = healthy m" "healthy (onClose now sock code msg m) = healthy m"
  "healthy (onError now sock err m) = healthy m" "healthy (handle_stop m) = healthy m"
  "healthy (ping_timer_fired i now sock m) = healthy m"
  by (simp_all add: onPong_def onPing_def onClose_def onError_def ping_timer_fired_def Let_def
      round_trip_healthy recovery_healthy monitor_defs split: option.splits)

lemma emit_last [simp]: "last (healthLog (emit e m)) = e"
  by (simp add: emit_def)

lemma pong_timeout_healthy:
  assumes "pongTimeoutHandle m = Some due" "healthy m" "\<not> stopped m"
    "\<not> healthy (pong_timer_fired i now sock m)"
  shows "readyState sock = WS_OPEN" "maxConsecutiveMissedPongs i \<le> consecutiveMissedPongs m + 1"
    "last (healthLog (pong_timer_fired i now sock m)) = Unhealthy"
    "missed_since_pong (healthLog (pong_timer_fired i now sock m)) = 1 + missed_since_pong (healthLog m)"
proof -
  show 1: "readyState sock = WS_OPEN"
    using assms by (simp add: pong_timer_fired_def Let_def monitor_defs split: if_split_asm)
  show 2: "maxConsecutiveMissedPongs i \<le> consecutiveMissedPongs m + 1"
    using assms 1 by (simp add: pong_timer_fired_def Let_def monitor_defs split: if_split_asm)
  show "last (healthLog (pong_timer_fired i now sock m)) = Unhealthy"
    "missed_since_pong (healthLog (pong_timer_fired i now sock m)) = 1 + missed_since_pong (healthLog m)"
    using assms 1 2 by (simp_all add: pong_timer_fired_def Let_def monitor_defs)
qed

lemma write_unhealthy:
  assumes "healthy m" "\<not> healthy (ping_write_callback now sock sq sent delay err m)"
  shows "\<not> stopped m" "readyState sock = WS_OPEN" "err \<noteq> None"
    "last (healthLog (ping_write_callback now sock sq sent delay err m)) = Unhealthy"
proof -
  obtain e where e: "err = Some e"
    using assms by (cases err) (simp_all add: ping_write_callback_def Let_def split: if_split_asm)
  show 1: "readyState sock = WS_OPEN"
    using assms e by (simp add: ping_write_callback_def Let_def monitor_defs split: if_split_asm)
  show 2: "\<not> stopped m"
    using assms e 1 by (simp add: ping_write_callback_def Let_def monitor_defs split: if_split_asm)
  show "err \<noteq> None" using e by simp
  show "last (healthLog (ping_write_callback now sock sq sent delay err m)) = Unhealthy"
    using assms e 1 2 by (simp add: ping_write_callback_def Let_def monitor_defs)
qed

text \<open>
  A socket is declared unhealthy only for cause: the step that does so finds the socket open,
  the monitor not stopped and not yet unhealthy, and is either the timeout of a ping in flight
  that makes the misses since the last accepted pong reach the allowed number, or the failed write
  of a ping; in particular no pong, ping, close or error of the peer makes it unhealthy.
\<close>

theorem unhealthy_for_cause:
  assumes "monitor_run json_parse i m" "monitor_step json_parse i m m'" "healthy m" "\<not> healthy m'"
  shows "\<not> stopped m \<and> last (healthLog m') = Unhealthy \<and>
    ((\<exists>now sock. readyState sock = WS_OPEN \<and> m' = pong_timer_fired i now sock m \<and>
        pingSeq m \<noteq> None \<and>
        missed_since_pong (healthLog m') = maxConsecutiveMissedPongs i) \<or>
     (\<exists>now sock sq sent delay error. readyState sock = WS_OPEN \<and>
        PingWritten sq sent \<in> set (healthLog m) \<and>
        m' = ping_write_callback now sock sq sent delay (Some error) m))"
  using assms(2)
proof (cases rule: monitor_step.cases)
  case (step_pong_timer due now sock)
  have ok: "monitor_ok i m" using assms(1) by (rule monitor_run_ok)
  have a: "active m" using ok step_pong_timer(2) by (auto simp: monitor_ok_def timers_ok_def split: if_splits)
  then have stop: "\<not> stopped m" by (simp add: active_def)
  have seq: "pingSeq m \<noteq> None" using ok a step_pong_timer(2) by (simp add: monitor_ok_def flight_ok_def)
  note timeout = pong_timeout_healthy [OF step_pong_timer(2) assms(3) stop assms(4) [unfolded step_pong_timer(1)],
      folded step_pong_timer(1)]
  have "missed_since_pong (healthLog m') = maxConsecutiveMissedPongs i"
    using ok a timeout(2,4) by (simp add: monitor_ok_def misses_ok_def)
  then show ?thesis using stop seq timeout(1,3) step_pong_timer(1) by blast
next
  case (step_write sq sent now sock delay error)
  note failed = write_unhealthy [OF assms(3) assms(4) [unfolded step_write(1)], folded step_write(1)]
  obtain e where "error = Some e" using failed(3) by blast
  then have "m' = ping_write_callback now sock sq sent delay (Some e) m" using step_write(1) by simp
  then show ?thesis using failed(1,2,4) step_write(2) by blast
qed (use assms(3,4) in \<open>simp_all add: listeners_healthy\<close>)

lemma unhealthy_for_cause_witness:
  "\<exists>m'. monitor_step (\<lambda>_. None) two_misses_input example_monitor m' \<and> last (healthLog m') = Unhealthy"
proof -
  let ?m' = "pong_timer_fired two_misses_input 30 open_socket example_monitor"
  have "pongTimeoutHandle example_monitor = Some 30" by code_simp
  then have step: "monitor_step (\<lambda>_. None) two_misses_input example_monitor ?m'"
    by (rule step_pong_timer) simp
  have "healthy example_monitor" "\<not> healthy ?m'" by code_simp+
  from unhealthy_for_cause [OF example_monitor_run step this] step show ?thesis by blast
qed

text \<open>A pong for another ping than the one in flight changes no count and no timer.\<close>

lemma stale_pong_ignored:
  assumes "parseHealthPingPayload json_parse data = Some (sq, sent)" "pingSeq m = Some expected"
    "sq \<noteq> expected"
  shows "consecutiveMissedPongs (onPong json_parse i now sock data m) = consecutiveMissedPongs m"
    "pongTimeoutHandle (onPong json_parse i now sock data m) = pongTimeoutHandle m"
    "pingSeq (onPong json_parse i now sock data m) = pingSeq m"
  using assms by (simp_all add: onPong_def Let_def pong_matched_def)

text \<open>A ping's payload is read back from what the peer echoes.\<close>

lemma ping_payload_roundtrip:
  assumes "json_parse echo = Some (createHealthPingPayload sq sent)"
  shows "parseHealthPingPayload json_parse echo = Some (sq, sent)"
  using assms by (simp add: parseHealthPingPayload_def createHealthPingPayload_def)

end
