(* ===== verification/IngressSessions.thy ===== *)
theory IngressSessions
  imports DataFrame Protocol
begin

text \<open>
  Receive windows of the record streams a sandbox opens on its bootstrap tunnel:
  \<open>operation-ingress/bootstrap-operation-session.ts\<close>,
  \<open>telemetry-ingress/bootstrap-telemetry-session.ts\<close>, \<open>telemetry-ingress/telemetry-stream-format.ts\<close>
  and the message builders \<open>operation-control-messages.ts\<close> and \<open>telemetry-control-messages.ts\<close>,
  all under \<open>apps/data-plane-gateway/src/tunnel\<close>. \<open>receive_window\<close> is the contract the two session
  classes share towards a sender that spends only credit it was granted.
\<close>

section \<open>A sender on a link to a receive window\<close>

text \<open>
  The link between a sender that spends its credit and a receiver: payloads and window grants may
  be under way. \<open>receiver\<close> is \<open>None\<close> after the receiver has reset the stream.
\<close>

record 's link =
  receiver :: "'s option"
  credit :: int
  payloadsUnderWay :: "int list"
  grantsUnderWay :: "int list"

inductive link_step ::
  "(int \<Rightarrow> 's \<Rightarrow> 's option) \<Rightarrow> ('s \<Rightarrow> int option \<times> 's) \<Rightarrow> 's link \<Rightarrow> 's link \<Rightarrow> bool"
  for consume :: "int \<Rightarrow> 's \<Rightarrow> 's option" and grant :: "'s \<Rightarrow> int option \<times> 's" where
  link_send: "0 \<le> n \<Longrightarrow> n \<le> credit k \<Longrightarrow>
    link_step consume grant k (k\<lparr>credit := credit k - n, payloadsUnderWay := payloadsUnderWay k @ [n]\<rparr>)"
| link_deliver: "payloadsUnderWay k = n # ns \<Longrightarrow> receiver k = Some s \<Longrightarrow>
    link_step consume grant k (k\<lparr>receiver := consume n s, payloadsUnderWay := ns\<rparr>)"
| link_grant: "receiver k = Some s \<Longrightarrow> grant s = (g, t) \<Longrightarrow>
    link_step consume grant k
      (k\<lparr>receiver := Some t, grantsUnderWay := grantsUnderWay k @ (case g of None \<Rightarrow> [] | Some n \<Rightarrow> [n])\<rparr>)"
| link_granted: "grantsUnderWay k = n # ns \<Longrightarrow>
    link_step consume grant k (k\<lparr>credit := credit k + n, grantsUnderWay := ns\<rparr>)"

inductive link_run ::
  "(int \<Rightarrow> 's \<Rightarrow> 's option) \<Rightarrow> ('s \<Rightarrow> int option \<times> 's) \<Rightarrow> int \<Rightarrow> 's \<Rightarrow> 's link \<Rightarrow> bool"
  for consume :: "int \<Rightarrow> 's \<Rightarrow> 's option" and grant :: "'s \<Rightarrow> int option \<times> 's" and window :: int and s0 :: 's where
  link_opened: "link_run consume grant window s0
    \<lparr> receiver = Some s0, credit = window, payloadsUnderWay = [], grantsUnderWay = [] \<rparr>"
| link_more: "link_run consume grant window s0 k \<Longrightarrow> link_step consume grant k k' \<Longrightarrow>
    link_run consume grant window s0 k'"

text \<open>
  The contract of a receive window: what fits is taken off the window, what does not fit resets
  the stream, and a grant adds what it says, leaving less than a batch ungranted.
\<close>

locale receive_window =
  fixes consume :: "int \<Rightarrow> 's \<Rightarrow> 's option"
    and grant :: "'s \<Rightarrow> int option \<times> 's"
    and remaining :: "'s \<Rightarrow> int"
    and ok :: "'s \<Rightarrow> bool"
    and initial :: int
    and batch :: int
  assumes batch_pos: "0 < batch"
    and consume_fits: "ok s \<Longrightarrow> 0 \<le> n \<Longrightarrow> n \<le> remaining s \<Longrightarrow>
      \<exists>t. consume n s = Some t \<and> ok t \<and> remaining t = remaining s - n"
    and consume_overrun: "remaining s < n \<Longrightarrow> consume n s = None"
    and grant_law: "ok s \<Longrightarrow> grant s = (g, t) \<Longrightarrow>
      ok t \<and> remaining t = remaining s + (case g of None \<Rightarrow> 0 | Some n \<Rightarrow> n) \<and>
      (case g of None \<Rightarrow> True | Some n \<Rightarrow> batch \<le> n) \<and> initial - batch < remaining t"
begin

definition link_ok :: "'s link \<Rightarrow> bool" where
  "link_ok k \<longleftrightarrow> (\<exists>s. receiver k = Some s \<and> ok s \<and>
     remaining s = credit k + sum_list (payloadsUnderWay k) + sum_list (grantsUnderWay k)) \<and>
     0 \<le> credit k \<and> (\<forall>n\<in>set (payloadsUnderWay k @ grantsUnderWay k). 0 \<le> n)"

lemma link_ok_step:
  assumes "link_step consume grant k k'" "link_ok k"
  shows "link_ok k'"
  using assms
proof (induction rule: link_step.induct)
  case (link_send n k)
  then show ?case by (auto simp: link_ok_def)
next
  case (link_deliver k n ns s)
  have s: "ok s" "remaining s = credit k + (n + sum_list ns) + sum_list (grantsUnderWay k)" "0 \<le> credit k"
      "0 \<le> n" "\<forall>m\<in>set ns. 0 \<le> m" "\<forall>m\<in>set (grantsUnderWay k). 0 \<le> m"
    using link_deliver by (auto simp: link_ok_def)
  have "0 \<le> sum_list ns" "0 \<le> sum_list (grantsUnderWay k)"
    using s(5,6) by (simp_all add: sum_list_nonneg)
  then have "n \<le> remaining s" using s by simp
  from consume_fits [OF s(1,4) this] show ?case using s by (auto simp: link_ok_def)
next
  case (link_grant k s g t)
  have "ok s" using link_grant by (auto simp: link_ok_def)
  from grant_law [OF this link_grant(2)] show ?case
    using link_grant(1,3) batch_pos by (auto simp: link_ok_def split: option.splits)
next
  case (link_granted k n ns)
  then show ?case by (auto simp: link_ok_def)
qed

lemma link_run_ok:
  assumes "ok s0" "remaining s0 = initial" "0 \<le> initial"
  shows "link_run consume grant initial s0 k \<Longrightarrow> link_ok k"
proof (induction rule: link_run.induct)
  case link_opened
  show ?case using assms by (simp add: link_ok_def)
next
  case (link_more k k')
  then show ?case using link_ok_step by blast
qed

text \<open>The sender is never reset, and when nothing is under way its credit is the window.\<close>

lemma sender_not_reset:
  assumes "link_run consume grant initial s0 k" "ok s0" "remaining s0 = initial" "0 \<le> initial"
  shows "\<exists>s. receiver k = Some s \<and> ok s \<and> credit k \<le> remaining s \<and>
     (payloadsUnderWay k = [] \<longrightarrow> grantsUnderWay k = [] \<longrightarrow> credit k = remaining s)"
proof -
  have "link_ok k" using link_run_ok [OF assms(2-4) assms(1)] .
  then obtain s where s: "receiver k = Some s" "ok s"
      "remaining s = credit k + sum_list (payloadsUnderWay k) + sum_list (grantsUnderWay k)"
      "\<forall>n\<in>set (payloadsUnderWay k @ grantsUnderWay k). 0 \<le> n"
    by (auto simp: link_ok_def)
  have "0 \<le> sum_list (payloadsUnderWay k)" "0 \<le> sum_list (grantsUnderWay k)"
    using s(4) by (simp_all add: sum_list_nonneg)
  then show ?thesis using s by auto
qed

text \<open>A sender can always go on: once the window has been granted and nothing is under way, its
  credit is more than the initial window less a batch.\<close>

lemma sender_not_starved:
  assumes "link_run consume grant initial s0 k" "ok s0" "remaining s0 = initial" "0 \<le> initial"
    "payloadsUnderWay k = []" "grantsUnderWay k = []" "receiver k = Some s" "grant s = (None, t)"
  shows "initial - batch < credit k"
proof -
  obtain s' where "receiver k = Some s'" "ok s'" "credit k = remaining s'"
    using sender_not_reset [OF assms(1-4)] assms(5,6) by auto
  then show ?thesis using grant_law [of s None t] assms(7,8) by auto
qed

end

section \<open>Windows of a stream\<close>

record receive_stream =
  consumedSinceLastWindowGrantBytes :: int
  remainingWindowBytes :: int
  streamNumber :: int

text \<open>The part \<open>consumeWindow\<close> and \<open>grantWindowIfNeeded\<close> have in common in both classes.\<close>

definition take_window :: "int \<Rightarrow> ('a receive_stream_scheme) \<Rightarrow> ('a receive_stream_scheme) option" where
  "take_window payloadByteLength st =
     (if payloadByteLength > remainingWindowBytes st then None
      else Some (st\<lparr>remainingWindowBytes := remainingWindowBytes st - payloadByteLength,
        consumedSinceLastWindowGrantBytes := consumedSinceLastWindowGrantBytes st + payloadByteLength\<rparr>))"

definition grant_window :: "int \<Rightarrow> ('a receive_stream_scheme) \<Rightarrow> int option \<times> ('a receive_stream_scheme)" where
  "grant_window windowGrantBatchBytes st =
     (if consumedSinceLastWindowGrantBytes st < windowGrantBatchBytes then (None, st)
      else let grantedBytes = consumedSinceLastWindowGrantBytes st
           in (Some grantedBytes,
               st\<lparr>consumedSinceLastWindowGrantBytes := 0,
                  remainingWindowBytes := remainingWindowBytes st + grantedBytes\<rparr>))"

definition window_ok :: "int \<Rightarrow> ('a receive_stream_scheme) \<Rightarrow> bool" where
  "window_ok initialWindowBytes st \<longleftrightarrow>
     remainingWindowBytes st + consumedSinceLastWindowGrantBytes st = initialWindowBytes \<and>
     0 \<le> consumedSinceLastWindowGrantBytes st \<and> 0 \<le> remainingWindowBytes st"

lemma take_window_ok:
  "window_ok w st \<Longrightarrow> 0 \<le> n \<Longrightarrow> n \<le> remainingWindowBytes st \<Longrightarrow>
     \<exists>t. take_window n st = Some t \<and> window_ok w t \<and> remainingWindowBytes t = remainingWindowBytes st - n"
  by (auto simp: take_window_def window_ok_def)

lemma take_window_overrun: "remainingWindowBytes st < n \<Longrightarrow> take_window n st = None"
  by (simp add: take_window_def)

lemma grant_window_ok:
  "0 < batch \<Longrightarrow> window_ok w st \<Longrightarrow> grant_window batch st = (g, t) \<Longrightarrow>
     window_ok w t \<and> remainingWindowBytes t = remainingWindowBytes st + (case g of None \<Rightarrow> 0 | Some n \<Rightarrow> n) \<and>
     (case g of None \<Rightarrow> True | Some n \<Rightarrow> batch \<le> n) \<and> w - batch < remainingWindowBytes t"
  by (auto simp: grant_window_def window_ok_def Let_def split: if_splits)

section \<open>The operation session of a bootstrap tunnel\<close>

record operation_stream = receive_stream +
  operationId :: string
  operationKind :: operation_kind

definition OperationWindowGrantBatchBytes :: int where
  "OperationWindowGrantBatchBytes = 16 * 1024"

definition OperationStreamFormat :: string where
  "OperationStreamFormat = ''mistle.sandbox-operation.v1+jsonl''"

definition OperationStreamId :: int where
  "OperationStreamId = 4294967293"

text \<open>\<open>initialWindowBytes\<close> and \<open>windowGrantBatchBytes\<close> are the constructor's parameters.\<close>

record operation_session =
  operationInitialWindow :: int
  operationGrantBatch :: int
  operationStreams :: "(int, operation_stream) js_map"

definition new_operation_session :: operation_session where
  "new_operation_session = \<lparr> operationInitialWindow = DefaultStreamWindowBytes,
     operationGrantBatch = OperationWindowGrantBatchBytes, operationStreams = [] \<rparr>"

definition createOperationOpenOk :: "int \<Rightarrow> int \<Rightarrow> operation_control_message" where
  "createOperationOpenOk initialWindowBytes sid = OperationOpenOK sid initialWindowBytes"

definition createOperationOpenError :: "string \<Rightarrow> string \<Rightarrow> int \<Rightarrow> operation_control_message" where
  "createOperationOpenError code msg sid = OperationOpenError sid code msg"

definition createOperationReset :: "string \<Rightarrow> string \<Rightarrow> int \<Rightarrow> operation_control_message" where
  "createOperationReset code msg sid = OperationReset sid code msg"

definition createOperationWindow :: "int \<Rightarrow> int \<Rightarrow> operation_control_message" where
  "createOperationWindow bytes sid = OperationWindow sid bytes"

text \<open>The response, with the stream when the stream was opened.\<close>

definition operation_openStream ::
  "string \<Rightarrow> string \<Rightarrow> operation_kind \<Rightarrow> int \<Rightarrow> operation_session \<Rightarrow>
     (operation_control_message \<times> operation_stream option) \<times> operation_session" where
  "operation_openStream format opId kind sid s =
     (if sid \<noteq> OperationStreamId
      then ((createOperationOpenError ''unsupported_operation_stream''
               (''Operation stream '' @ string_of_int sid @
                '' is not reserved for sandbox operation records.'') sid, None), s)
      else if format \<noteq> OperationStreamFormat
      then ((createOperationOpenError ''unsupported_operation_stream''
               (''Operation stream format '' @ CHR 0x27 # format @ CHR 0x27 # '' is not supported.'') sid, None), s)
      else if js_has (operationStreams s) sid
      then ((createOperationOpenError ''operation_stream_already_open''
               (''Operation stream '' @ string_of_int sid @ '' is already open.'') sid, None), s)
      else let st = \<lparr> consumedSinceLastWindowGrantBytes = 0,
                      remainingWindowBytes = operationInitialWindow s, streamNumber = sid,
                      operationId = opId, operationKind = kind \<rparr>
           in ((createOperationOpenOk (operationInitialWindow s) sid, Some st),
               s\<lparr>operationStreams := js_set sid st (operationStreams s)\<rparr>))"

definition operation_closeStream :: "int \<Rightarrow> operation_session \<Rightarrow> operation_stream option \<times> operation_session" where
  "operation_closeStream sid s = (case js_get (operationStreams s) sid of
     None \<Rightarrow> (None, s)
   | Some st \<Rightarrow> (Some st, s\<lparr>operationStreams := js_delete sid (operationStreams s)\<rparr>))"

definition operation_closeAllStreams :: "operation_session \<Rightarrow> operation_stream list \<times> operation_session" where
  "operation_closeAllStreams s = (js_values (operationStreams s), s\<lparr>operationStreams := []\<rparr>)"

datatype ('m, 's) consume_result = WindowOk 's | WindowReset 'm "'s option"

definition operation_consumeWindow ::
  "int \<Rightarrow> int \<Rightarrow> operation_session \<Rightarrow> (operation_control_message, operation_stream) consume_result \<times> operation_session" where
  "operation_consumeWindow payloadByteLength sid s = (case js_get (operationStreams s) sid of
     None \<Rightarrow> (WindowReset (createOperationReset ''operation_stream_not_found''
       (''Operation stream '' @ string_of_int sid @ '' is not open on this bootstrap session.'') sid) None, s)
   | Some st \<Rightarrow> (case take_window payloadByteLength st of
       None \<Rightarrow> (WindowReset (createOperationReset ''operation_window_exhausted''
           (''Operation stream '' @ string_of_int sid @ '' exhausted its receive window.'') sid) (Some st),
         snd (operation_closeStream (streamNumber st) s))
     | Some t \<Rightarrow> (WindowOk t, s\<lparr>operationStreams := js_set sid t (operationStreams s)\<rparr>)))"

definition operation_grantWindowIfNeeded :: "int \<Rightarrow> operation_session \<Rightarrow> operation_control_message option \<times> operation_session" where
  "operation_grantWindowIfNeeded sid s = (case js_get (operationStreams s) sid of
     None \<Rightarrow> (None, s)
   | Some st \<Rightarrow> (case grant_window (operationGrantBatch s) st of
       (None, _) \<Rightarrow> (None, s)
     | (Some grantedBytes, t) \<Rightarrow> (Some (createOperationWindow grantedBytes sid),
         s\<lparr>operationStreams := js_set sid t (operationStreams s)\<rparr>)))"

definition operation_streamCount :: "operation_session \<Rightarrow> nat" where
  "operation_streamCount s = js_size (operationStreams s)"

definition operation_session_ok :: "operation_session \<Rightarrow> bool" where
  "operation_session_ok s \<longleftrightarrow> wf_map (operationStreams s) \<and>
     (\<forall>sid st. js_get (operationStreams s) sid = Some st \<longrightarrow>
        streamNumber st = sid \<and> sid = OperationStreamId \<and> window_ok (operationInitialWindow s) st)"

section \<open>Telemetry formats\<close>

definition SupportedFormatsBySignal :: "telemetry_signal \<Rightarrow> telemetry_format list" where
  "SupportedFormatsBySignal signal = (case signal of
     LogsSignal \<Rightarrow> [RuntimeLogV1] | TracesSignal \<Rightarrow> [OtlpHttpTracesV1Json])"

definition isSupportedTelemetryStream :: "telemetry_format \<Rightarrow> telemetry_signal \<Rightarrow> bool" where
  "isSupportedTelemetryStream format signal \<longleftrightarrow> format \<in> set (SupportedFormatsBySignal signal)"

definition getTelemetryContentType :: "telemetry_format \<Rightarrow> telemetry_signal \<Rightarrow> string option" where
  "getTelemetryContentType format signal =
     (if \<not> isSupportedTelemetryStream format signal then None
      else if signal = LogsSignal then None
      else if format = OtlpHttpTracesV1Json then Some ''application/json'' else None)"

definition signal_string :: "telemetry_signal \<Rightarrow> string" where
  "signal_string signal = (case signal of LogsSignal \<Rightarrow> ''logs'' | TracesSignal \<Rightarrow> ''traces'')"

definition format_string :: "telemetry_format \<Rightarrow> string" where
  "format_string format = (case format of RuntimeLogV1 \<Rightarrow> ''mistle.sandbox-runtime.log.v1''
     | OtlpHttpTracesV1Json \<Rightarrow> ''otlp.http.traces.v1+json'')"

section \<open>The telemetry session of a bootstrap tunnel\<close>

record telemetry_stream = receive_stream +
  telemetryFormat :: telemetry_format
  telemetrySignal :: telemetry_signal

definition TelemetryWindowGrantBatchBytes :: int where
  "TelemetryWindowGrantBatchBytes = 16 * 1024"

record telemetry_session =
  telemetryInitialWindow :: int
  telemetryGrantBatch :: int
  telemetryStreams :: "(int, telemetry_stream) js_map"
  streamIdsBySignal :: "(telemetry_signal, int) js_map"

definition new_telemetry_session :: telemetry_session where
  "new_telemetry_session = \<lparr> telemetryInitialWindow = DefaultStreamWindowBytes,
     telemetryGrantBatch = TelemetryWindowGrantBatchBytes, telemetryStreams = [], streamIdsBySignal = [] \<rparr>"

definition createTelemetryOpenOk :: "int \<Rightarrow> int \<Rightarrow> telemetry_control_message" where
  "createTelemetryOpenOk initialWindowBytes sid = TelemetryOpenOK sid initialWindowBytes"

definition createTelemetryOpenError :: "string \<Rightarrow> string \<Rightarrow> int \<Rightarrow> telemetry_control_message" where
  "createTelemetryOpenError code msg sid = TelemetryOpenError sid code msg"

definition createTelemetryReset :: "string \<Rightarrow> string \<Rightarrow> int \<Rightarrow> telemetry_control_message" where
  "createTelemetryReset code msg sid = TelemetryReset sid code msg"

definition createTelemetryWindow :: "int \<Rightarrow> int \<Rightarrow> telemetry_control_message" where
  "createTelemetryWindow bytes sid = TelemetryWindow sid bytes"

definition telemetry_openStream ::
  "telemetry_format \<Rightarrow> telemetry_signal \<Rightarrow> int \<Rightarrow> telemetry_session \<Rightarrow>
     (telemetry_control_message \<times> telemetry_stream option) \<times> telemetry_session" where
  "telemetry_openStream format signal sid s =
     (if \<not> isSupportedTelemetryStream format signal
      then ((createTelemetryOpenError ''unsupported_telemetry_stream''
               (''Telemetry format '' @ CHR 0x27 # format_string format @ CHR 0x27 #
                '' is not supported for signal '' @ CHR 0x27 # signal_string signal @ CHR 0x27 # ''.'') sid, None), s)
      else if js_get (telemetryStreams s) sid \<noteq> None
      then ((createTelemetryOpenError ''telemetry_stream_already_open''
               (''Telemetry stream '' @ string_of_int sid @ '' is already open.'') sid, None), s)
      else if js_get (streamIdsBySignal s) signal \<noteq> None
      then ((createTelemetryOpenError ''telemetry_stream_already_open''
               (''A '' @ signal_string signal @
                '' telemetry stream is already active for this bootstrap session.'') sid, None), s)
      else let st = \<lparr> consumedSinceLastWindowGrantBytes = 0,
                      remainingWindowBytes = telemetryInitialWindow s, streamNumber = sid,
                      telemetryFormat = format, telemetrySignal = signal \<rparr>
           in ((createTelemetryOpenOk (telemetryInitialWindow s) sid, Some st),
               s\<lparr>telemetryStreams := js_set sid st (telemetryStreams s),
                 streamIdsBySignal := js_set signal sid (streamIdsBySignal s)\<rparr>))"

definition telemetry_closeStream :: "int \<Rightarrow> telemetry_session \<Rightarrow> telemetry_stream option \<times> telemetry_session" where
  "telemetry_closeStream sid s = (case js_get (telemetryStreams s) sid of
     None \<Rightarrow> (None, s)
   | Some st \<Rightarrow> (Some st, s\<lparr>telemetryStreams := js_delete sid (telemetryStreams s),
       streamIdsBySignal := js_delete (telemetrySignal st) (streamIdsBySignal s)\<rparr>))"

definition telemetry_closeAllStreams :: "telemetry_session \<Rightarrow> telemetry_stream list \<times> telemetry_session" where
  "telemetry_closeAllStreams s =
     (js_values (telemetryStreams s), s\<lparr>telemetryStreams := [], streamIdsBySignal := []\<rparr>)"

definition telemetry_consumeWindow ::
  "int \<Rightarrow> int \<Rightarrow> telemetry_session \<Rightarrow> (telemetry_control_message, telemetry_stream) consume_result \<times> telemetry_session" where
  "telemetry_consumeWindow payloadByteLength sid s = (case js_get (telemetryStreams s) sid of
     None \<Rightarrow> (WindowReset (createTelemetryReset ''telemetry_stream_not_found''
       (''Telemetry stream '' @ string_of_int sid @ '' is not open on this bootstrap session.'') sid) None, s)
   | Some st \<Rightarrow> (case take_window payloadByteLength st of
       None \<Rightarrow> (WindowReset (createTelemetryReset ''telemetry_window_exhausted''
           (''Telemetry stream '' @ string_of_int sid @ '' exhausted its receive window.'') sid) (Some st),
         snd (telemetry_closeStream (streamNumber st) s))
     | Some t \<Rightarrow> (WindowOk t, s\<lparr>telemetryStreams := js_set sid t (telemetryStreams s)\<rparr>)))"

definition telemetry_grantWindowIfNeeded :: "int \<Rightarrow> telemetry_session \<Rightarrow> telemetry_control_message option \<times> telemetry_session" where
  "telemetry_grantWindowIfNeeded sid s = (case js_get (telemetryStreams s) sid of
     None \<Rightarrow> (None, s)
   | Some st \<Rightarrow> (case grant_window (telemetryGrantBatch s) st of
       (None, _) \<Rightarrow> (None, s)
     | (Some grantedBytes, t) \<Rightarrow> (Some (createTelemetryWindow grantedBytes sid),
         s\<lparr>telemetryStreams := js_set sid t (telemetryStreams s)\<rparr>)))"

definition invalidateStream :: "int \<Rightarrow> telemetry_session \<Rightarrow>
     (telemetry_control_message \<times> telemetry_stream option) \<times> telemetry_session" where
  "invalidateStream sid s = (case telemetry_closeStream sid s of
     (None, t) \<Rightarrow> ((createTelemetryReset ''telemetry_stream_not_found''
         (''Telemetry stream '' @ string_of_int sid @ '' is not open on this bootstrap session.'') sid, None), t)
   | (Some st, t) \<Rightarrow> ((createTelemetryReset ''invalid_telemetry_payload_kind''
         ''Telemetry streams only accept raw-bytes payloads.'' sid, Some st), t))"

definition telemetry_streamCount :: "telemetry_session \<Rightarrow> nat" where
  "telemetry_streamCount s = js_size (telemetryStreams s)"

section \<open>Invariants of the sessions\<close>

named_theorems session_defs \<open>the operations of the two session classes\<close>

lemmas operation_defs [session_defs] = operation_openStream_def operation_closeStream_def
  operation_closeAllStreams_def operation_consumeWindow_def operation_grantWindowIfNeeded_def

lemmas telemetry_defs [session_defs] = telemetry_openStream_def telemetry_closeStream_def
  telemetry_closeAllStreams_def telemetry_consumeWindow_def telemetry_grantWindowIfNeeded_def
  invalidateStream_def

lemma take_window_fields:
  "take_window n st = Some t \<Longrightarrow> streamNumber t = streamNumber st \<and> receive_stream.more t = receive_stream.more st"
  by (auto simp: take_window_def split: if_splits)

lemma grant_window_fields:
  "grant_window b st = (g, t) \<Longrightarrow> streamNumber t = streamNumber st \<and> receive_stream.more t = receive_stream.more st"
  by (auto simp: grant_window_def Let_def split: if_splits)

lemma take_window_keeps: "window_ok w st \<Longrightarrow> 0 \<le> n \<Longrightarrow> take_window n st = Some t \<Longrightarrow> window_ok w t"
  by (auto simp: take_window_def window_ok_def split: if_splits)

lemma grant_window_keeps: "window_ok w st \<Longrightarrow> grant_window b st = (g, t) \<Longrightarrow> window_ok w t"
  by (auto simp: grant_window_def window_ok_def Let_def split: if_splits)

lemma operation_session_ok_new: "operation_session_ok new_operation_session"
  by (simp add: operation_session_ok_def new_operation_session_def)

lemma operation_session_ok_set:
  assumes "operation_session_ok s" "streamNumber t = OperationStreamId" "window_ok (operationInitialWindow s) t"
  shows "operation_session_ok (s\<lparr>operationStreams := js_set OperationStreamId t (operationStreams s)\<rparr>)"
  using assms by (auto simp: operation_session_ok_def store_simps wf_map_set) (metis not_None_eq)

lemma operation_session_ok_delete:
  "operation_session_ok s \<Longrightarrow> operation_session_ok (s\<lparr>operationStreams := js_delete sid (operationStreams s)\<rparr>)"
  by (auto simp: operation_session_ok_def store_simps wf_map_delete)

lemma operation_session_okD:
  "operation_session_ok s \<Longrightarrow> js_get (operationStreams s) sid = Some st \<Longrightarrow>
     sid = OperationStreamId \<and> streamNumber st = OperationStreamId \<and> window_ok (operationInitialWindow s) st"
  by (auto simp: operation_session_ok_def)

lemma operation_session_ok_steps:
  assumes "operation_session_ok s" "0 \<le> operationInitialWindow s"
  shows "operation_session_ok (snd (operation_openStream format opId kind sid s))"
    "operation_session_ok (snd (operation_closeStream sid s))"
    "operation_session_ok (snd (operation_closeAllStreams s))"
    "0 \<le> n \<Longrightarrow> operation_session_ok (snd (operation_consumeWindow n sid s))"
    "operation_session_ok (snd (operation_grantWindowIfNeeded sid s))"
proof -
  show "operation_session_ok (snd (operation_openStream format opId kind sid s))"
    using assms by (auto simp: operation_openStream_def Let_def window_ok_def intro!: operation_session_ok_set)
  show close: "operation_session_ok (snd (operation_closeStream sid s))" for sid
    using assms operation_session_ok_delete by (auto simp: operation_closeStream_def split: option.splits)
  show "operation_session_ok (snd (operation_closeAllStreams s))"
    by (simp add: operation_closeAllStreams_def operation_session_ok_def)
  show "operation_session_ok (snd (operation_consumeWindow n sid s))" if "0 \<le> n"
    using assms close that operation_session_okD [OF assms(1)]
    by (auto simp: operation_consumeWindow_def split: option.splits
        intro!: operation_session_ok_set dest: take_window_fields take_window_keeps)
      (metis operation_session_ok_set take_window_fields take_window_keeps)+
  show "operation_session_ok (snd (operation_grantWindowIfNeeded sid s))"
    using assms operation_session_okD [OF assms(1)]
    by (auto simp: operation_grantWindowIfNeeded_def split: option.splits prod.splits)
      (metis operation_session_ok_set grant_window_fields grant_window_keeps)+
qed

text \<open>
  A telemetry session has one stream per signal, under the id its index names, with a format that
  is supported for the signal.
\<close>

definition telemetry_session_ok :: "telemetry_session \<Rightarrow> bool" where
  "telemetry_session_ok s \<longleftrightarrow> wf_map (telemetryStreams s) \<and> wf_map (streamIdsBySignal s) \<and>
     (\<forall>sid st. js_get (telemetryStreams s) sid = Some st \<longrightarrow>
        streamNumber st = sid \<and> js_get (streamIdsBySignal s) (telemetrySignal st) = Some sid \<and>
        isSupportedTelemetryStream (telemetryFormat st) (telemetrySignal st) \<and>
        window_ok (telemetryInitialWindow s) st) \<and>
     (\<forall>signal sid. js_get (streamIdsBySignal s) signal = Some sid \<longrightarrow>
        (\<exists>st. js_get (telemetryStreams s) sid = Some st \<and> telemetrySignal st = signal))"

lemma telemetry_session_ok_new: "telemetry_session_ok new_telemetry_session"
  by (simp add: telemetry_session_ok_def new_telemetry_session_def)

lemma telemetry_session_okD:
  assumes "telemetry_session_ok s" "js_get (telemetryStreams s) sid = Some st"
  shows "streamNumber st = sid" "js_get (streamIdsBySignal s) (telemetrySignal st) = Some sid"
    "isSupportedTelemetryStream (telemetryFormat st) (telemetrySignal st)"
    "window_ok (telemetryInitialWindow s) st"
  using assms by (auto simp: telemetry_session_ok_def)

lemma telemetry_session_ok_open:
  assumes "telemetry_session_ok s" "0 \<le> telemetryInitialWindow s"
  shows "telemetry_session_ok (snd (telemetry_openStream format signal sid s))"
  using assms
  by (fastforce simp: telemetry_openStream_def Let_def telemetry_session_ok_def store_simps wf_map_set window_ok_def)

lemma telemetry_session_ok_close:
  assumes "telemetry_session_ok s"
  shows "telemetry_session_ok (snd (telemetry_closeStream sid s))"
proof (cases "js_get (telemetryStreams s) sid")
  case (Some st)
  let ?t = "s\<lparr>telemetryStreams := js_delete sid (telemetryStreams s),
       streamIdsBySignal := js_delete (telemetrySignal st) (streamIdsBySignal s)\<rparr>"
  have "js_get (streamIdsBySignal ?t) (telemetrySignal st') = Some sid'"
    if "js_get (telemetryStreams ?t) sid' = Some st'" for sid' st'
    using telemetry_session_okD(2) [OF assms Some] telemetry_session_okD(2) [OF assms, of sid' st'] that
    by (auto simp: store_simps split: if_splits)
  moreover have "\<exists>st'. js_get (telemetryStreams ?t) sid' = Some st' \<and> telemetrySignal st' = signal"
    if "js_get (streamIdsBySignal ?t) signal = Some sid'" for signal sid'
  proof -
    have "js_get (streamIdsBySignal s) signal = Some sid'"
      using that by (simp add: store_simps split: if_splits)
    then obtain st' where "js_get (telemetryStreams s) sid' = Some st'" "telemetrySignal st' = signal"
      using assms unfolding telemetry_session_ok_def by blast
    then show ?thesis using Some that by (auto simp: store_simps split: if_splits)
  qed
  moreover have "wf_map (telemetryStreams ?t)" "wf_map (streamIdsBySignal ?t)"
    using assms by (simp_all add: telemetry_session_ok_def wf_map_delete)
  moreover have "streamNumber st' = sid'" "isSupportedTelemetryStream (telemetryFormat st') (telemetrySignal st')"
      "window_ok (telemetryInitialWindow ?t) st'"
    if "js_get (telemetryStreams ?t) sid' = Some st'" for sid' st'
    using telemetry_session_okD [OF assms, of sid' st'] that by (auto simp: store_simps split: if_splits)
  ultimately have "telemetry_session_ok ?t" unfolding telemetry_session_ok_def by blast
  then show ?thesis using Some by (simp add: telemetry_closeStream_def)
qed (use assms in \<open>simp add: telemetry_closeStream_def\<close>)

lemma telemetry_session_ok_set:
  assumes "telemetry_session_ok s" "js_get (telemetryStreams s) sid = Some st"
    "streamNumber t = streamNumber st" "telemetrySignal t = telemetrySignal st"
    "telemetryFormat t = telemetryFormat st" "window_ok (telemetryInitialWindow s) t"
  shows "telemetry_session_ok (s\<lparr>telemetryStreams := js_set sid t (telemetryStreams s)\<rparr>)"
proof -
  let ?s = "s\<lparr>telemetryStreams := js_set sid t (telemetryStreams s)\<rparr>"
  have "streamNumber st' = sid' \<and> js_get (streamIdsBySignal ?s) (telemetrySignal st') = Some sid' \<and>
      isSupportedTelemetryStream (telemetryFormat st') (telemetrySignal st') \<and>
      window_ok (telemetryInitialWindow ?s) st'"
    if "js_get (telemetryStreams ?s) sid' = Some st'" for sid' st'
    using that telemetry_session_okD [OF assms(1,2)] telemetry_session_okD [OF assms(1), of sid' st'] assms(3-6)
    by (cases "sid' = sid") (simp_all add: store_simps)
  moreover have "\<exists>st'. js_get (telemetryStreams ?s) sid' = Some st' \<and> telemetrySignal st' = signal"
    if "js_get (streamIdsBySignal ?s) signal = Some sid'" for signal sid'
  proof -
    have "js_get (streamIdsBySignal s) signal = Some sid'" using that by simp
    then obtain st' where "js_get (telemetryStreams s) sid' = Some st'" "telemetrySignal st' = signal"
      using assms(1) unfolding telemetry_session_ok_def by blast
    then show ?thesis using assms(2,4) by (cases "sid' = sid") (simp_all add: store_simps)
  qed
  moreover have "wf_map (telemetryStreams ?s)" "wf_map (streamIdsBySignal ?s)"
    using assms(1) by (simp_all add: telemetry_session_ok_def wf_map_set)
  ultimately show ?thesis unfolding telemetry_session_ok_def by blast
qed

lemma take_window_telemetry:
  fixes st :: telemetry_stream
  shows "take_window n st = Some t \<Longrightarrow> streamNumber t = streamNumber st \<and>
     telemetrySignal t = telemetrySignal st \<and> telemetryFormat t = telemetryFormat st"
  by (auto simp: take_window_def split: if_splits)

lemma grant_window_telemetry:
  fixes st :: telemetry_stream
  shows "grant_window n st = (g, t) \<Longrightarrow> streamNumber t = streamNumber st \<and>
     telemetrySignal t = telemetrySignal st \<and> telemetryFormat t = telemetryFormat st"
  by (auto simp: grant_window_def Let_def split: if_splits)

lemma telemetry_session_ok_steps:
  assumes "telemetry_session_ok s"
  shows "telemetry_session_ok (snd (telemetry_closeAllStreams s))"
    "0 \<le> n \<Longrightarrow> telemetry_session_ok (snd (telemetry_consumeWindow n sid s))"
    "telemetry_session_ok (snd (telemetry_grantWindowIfNeeded sid s))"
    "telemetry_session_ok (snd (invalidateStream sid s))"
proof -
  show "telemetry_session_ok (snd (telemetry_closeAllStreams s))"
    by (simp add: telemetry_closeAllStreams_def telemetry_session_ok_def)
  show "telemetry_session_ok (snd (telemetry_consumeWindow n sid s))" if "0 \<le> n"
  proof (cases "js_get (telemetryStreams s) sid")
    case (Some st)
    show ?thesis
    proof (cases "take_window n st")
      case None
      then show ?thesis using Some telemetry_session_ok_close [OF assms] by (simp add: telemetry_consumeWindow_def)
    next
      case t: (Some t)
      then show ?thesis
        using telemetry_session_ok_set [OF assms Some] take_window_telemetry [OF t]
          take_window_keeps [OF telemetry_session_okD(4) [OF assms Some] that t] Some
        by (simp add: telemetry_consumeWindow_def)
    qed
  qed (use assms in \<open>simp add: telemetry_consumeWindow_def\<close>)
  show "telemetry_session_ok (snd (telemetry_grantWindowIfNeeded sid s))"
  proof (cases "js_get (telemetryStreams s) sid")
    case (Some st)
    obtain g t where gt: "grant_window (telemetryGrantBatch s) st = (g, t)" by fastforce
    then show ?thesis
      using telemetry_session_ok_set [OF assms Some] grant_window_telemetry [OF gt]
        grant_window_keeps [OF telemetry_session_okD(4) [OF assms Some] gt] Some assms
      by (cases g) (simp_all add: telemetry_grantWindowIfNeeded_def)
  qed (use assms in \<open>simp add: telemetry_grantWindowIfNeeded_def\<close>)
  have "telemetry_session_ok (snd (telemetry_closeStream sid s))" by (rule telemetry_session_ok_close [OF assms])
  then show "telemetry_session_ok (snd (invalidateStream sid s))"
    by (cases "telemetry_closeStream sid s") (auto simp: invalidateStream_def split: option.splits)
qed

section \<open>The sessions as receive windows\<close>

text \<open>The session's window for one stream, as the link sees it.\<close>

definition operation_receive :: "int \<Rightarrow> operation_session \<Rightarrow> operation_session option" where
  "operation_receive n s = (case operation_consumeWindow n OperationStreamId s of
     (WindowOk _, t) \<Rightarrow> Some t | (WindowReset _ _, _) \<Rightarrow> None)"

definition operation_grants :: "operation_session \<Rightarrow> int option \<times> operation_session" where
  "operation_grants s = (case operation_grantWindowIfNeeded OperationStreamId s of
     (Some (OperationWindow _ bytes), t) \<Rightarrow> (Some bytes, t) | (_, t) \<Rightarrow> (None, t))"

definition operation_remaining :: "operation_session \<Rightarrow> int" where
  "operation_remaining s = (case js_get (operationStreams s) OperationStreamId of
     None \<Rightarrow> 0 | Some st \<Rightarrow> remainingWindowBytes st)"

definition operation_stream_open :: "operation_session \<Rightarrow> bool" where
  "operation_stream_open s \<longleftrightarrow> operation_session_ok s \<and>
     operationInitialWindow s = DefaultStreamWindowBytes \<and>
     operationGrantBatch s = OperationWindowGrantBatchBytes \<and>
     js_get (operationStreams s) OperationStreamId \<noteq> None"

interpretation operation_window: receive_window operation_receive operation_grants operation_remaining
    operation_stream_open DefaultStreamWindowBytes OperationWindowGrantBatchBytes
proof (unfold_locales, goal_cases)
  case 1
  show ?case by (simp add: OperationWindowGrantBatchBytes_def)
next
  case (2 s n)
  then obtain st where st: "js_get (operationStreams s) OperationStreamId = Some st"
    by (auto simp: operation_stream_open_def)
  have w: "window_ok DefaultStreamWindowBytes st" "streamNumber st = OperationStreamId"
    using operation_session_okD [of s OperationStreamId st] st 2(1) by (auto simp: operation_stream_open_def)
  have "n \<le> remainingWindowBytes st" using 2(3) st by (simp add: operation_remaining_def)
  from take_window_ok [OF w(1) 2(2) this] obtain t where t: "take_window n st = Some t"
      "window_ok DefaultStreamWindowBytes t" "remainingWindowBytes t = remainingWindowBytes st - n"
    by blast
  have "operation_stream_open (s\<lparr>operationStreams := js_set OperationStreamId t (operationStreams s)\<rparr>)"
    using 2(1) t w take_window_fields [OF t(1)] operation_session_ok_set
    by (simp add: operation_stream_open_def store_simps)
  then show ?case using st t
    by (simp add: operation_receive_def operation_consumeWindow_def operation_remaining_def store_simps)
next
  case (3 s n)
  then show ?case
    by (auto simp: operation_receive_def operation_consumeWindow_def operation_remaining_def
        take_window_def split: option.splits)
next
  case (4 s g t)
  then obtain st where st: "js_get (operationStreams s) OperationStreamId = Some st"
    by (auto simp: operation_stream_open_def)
  have w: "window_ok DefaultStreamWindowBytes st" "streamNumber st = OperationStreamId"
    using operation_session_okD [of s OperationStreamId st] st 4(1) by (auto simp: operation_stream_open_def)
  obtain h u where hu: "grant_window OperationWindowGrantBatchBytes st = (h, u)" by fastforce
  have "0 < OperationWindowGrantBatchBytes" by (simp add: OperationWindowGrantBatchBytes_def)
  note law = grant_window_ok [OF this w(1) hu]
  have o: "operation_stream_open (s\<lparr>operationStreams := js_set OperationStreamId u (operationStreams s)\<rparr>)"
    using 4(1) law w grant_window_fields [OF hu] operation_session_ok_set
    by (simp add: operation_stream_open_def store_simps)
  have "h = None \<Longrightarrow> u = st" using hu by (auto simp: grant_window_def Let_def split: if_splits)
  then show ?case using 4 st hu law o
    by (cases h) (auto simp: operation_grants_def operation_grantWindowIfNeeded_def operation_remaining_def
        operation_stream_open_def createOperationWindow_def store_simps)
qed

definition telemetry_receive :: "int \<Rightarrow> int \<Rightarrow> telemetry_session \<Rightarrow> telemetry_session option" where
  "telemetry_receive sid n s = (case telemetry_consumeWindow n sid s of
     (WindowOk _, t) \<Rightarrow> Some t | (WindowReset _ _, _) \<Rightarrow> None)"

definition telemetry_grants :: "int \<Rightarrow> telemetry_session \<Rightarrow> int option \<times> telemetry_session" where
  "telemetry_grants sid s = (case telemetry_grantWindowIfNeeded sid s of
     (Some (TelemetryWindow _ bytes), t) \<Rightarrow> (Some bytes, t) | (_, t) \<Rightarrow> (None, t))"

definition telemetry_remaining :: "int \<Rightarrow> telemetry_session \<Rightarrow> int" where
  "telemetry_remaining sid s = (case js_get (telemetryStreams s) sid of
     None \<Rightarrow> 0 | Some st \<Rightarrow> remainingWindowBytes st)"

definition telemetry_stream_open :: "int \<Rightarrow> telemetry_session \<Rightarrow> bool" where
  "telemetry_stream_open sid s \<longleftrightarrow> telemetry_session_ok s \<and>
     telemetryInitialWindow s = DefaultStreamWindowBytes \<and>
     telemetryGrantBatch s = TelemetryWindowGrantBatchBytes \<and>
     js_get (telemetryStreams s) sid \<noteq> None"

interpretation telemetry_window: receive_window "telemetry_receive sid" "telemetry_grants sid"
    "telemetry_remaining sid" "telemetry_stream_open sid" DefaultStreamWindowBytes
    TelemetryWindowGrantBatchBytes for sid
proof (unfold_locales, goal_cases)
  case 1
  show ?case by (simp add: TelemetryWindowGrantBatchBytes_def)
next
  case (2 s n)
  then obtain st where st: "js_get (telemetryStreams s) sid = Some st"
    by (auto simp: telemetry_stream_open_def)
  have w: "window_ok DefaultStreamWindowBytes st"
    using telemetry_session_okD(4) [of s sid st] st 2(1) by (auto simp: telemetry_stream_open_def)
  have "n \<le> remainingWindowBytes st" using 2(3) st by (simp add: telemetry_remaining_def)
  from take_window_ok [OF w 2(2) this] obtain t where t: "take_window n st = Some t"
      "window_ok DefaultStreamWindowBytes t" "remainingWindowBytes t = remainingWindowBytes st - n"
    by blast
  have "telemetry_stream_open sid (s\<lparr>telemetryStreams := js_set sid t (telemetryStreams s)\<rparr>)"
    using 2(1) t st take_window_telemetry [OF t(1)] telemetry_session_ok_set [of s sid st t]
    by (simp add: telemetry_stream_open_def store_simps)
  then show ?case using st t
    by (simp add: telemetry_receive_def telemetry_consumeWindow_def telemetry_remaining_def store_simps)
next
  case (3 s n)
  then show ?case
    by (auto simp: telemetry_receive_def telemetry_consumeWindow_def telemetry_remaining_def
        take_window_def split: option.splits)
next
  case (4 s g t)
  then obtain st where st: "js_get (telemetryStreams s) sid = Some st"
    by (auto simp: telemetry_stream_open_def)
  have w: "window_ok DefaultStreamWindowBytes st"
    using telemetry_session_okD(4) [of s sid st] st 4(1) by (auto simp: telemetry_stream_open_def)
  obtain h u where hu: "grant_window TelemetryWindowGrantBatchBytes st = (h, u)" by fastforce
  have "0 < TelemetryWindowGrantBatchBytes" by (simp add: TelemetryWindowGrantBatchBytes_def)
  note law = grant_window_ok [OF this w hu]
  have o: "telemetry_stream_open sid (s\<lparr>telemetryStreams := js_set sid u (telemetryStreams s)\<rparr>)"
    using 4(1) law st grant_window_telemetry [OF hu] telemetry_session_ok_set [of s sid st u]
    by (simp add: telemetry_stream_open_def store_simps)
  have "h = None \<Longrightarrow> u = st" using hu by (auto simp: grant_window_def Let_def split: if_splits)
  then show ?case using 4 st hu law o
    by (cases h) (auto simp: telemetry_grants_def telemetry_grantWindowIfNeeded_def telemetry_remaining_def
        telemetry_stream_open_def createTelemetryWindow_def store_simps)
qed

section \<open>What a sender can rely on\<close>

definition opened_operation_session :: operation_session where
  "opened_operation_session = snd (operation_openStream OperationStreamFormat ''op_1'' StartOperation
     OperationStreamId new_operation_session)"

definition opened_telemetry_session :: "telemetry_signal \<Rightarrow> int \<Rightarrow> telemetry_session" where
  "opened_telemetry_session signal sid =
     snd (telemetry_openStream (hd (SupportedFormatsBySignal signal)) signal sid new_telemetry_session)"

lemma opened_operation_session_open:
  "operation_stream_open opened_operation_session"
  "operation_remaining opened_operation_session = DefaultStreamWindowBytes"
proof -
  have "operation_session_ok opened_operation_session"
    unfolding opened_operation_session_def
    by (rule operation_session_ok_steps(1) [OF operation_session_ok_new])
      (simp add: new_operation_session_def DefaultStreamWindowBytes_def)
  then show "operation_stream_open opened_operation_session"
    "operation_remaining opened_operation_session = DefaultStreamWindowBytes"
    by (simp_all add: operation_stream_open_def operation_remaining_def opened_operation_session_def
        operation_openStream_def new_operation_session_def Let_def store_simps js_has_def)
qed

lemma opened_telemetry_session_open:
  "telemetry_stream_open sid (opened_telemetry_session signal sid)"
  "telemetry_remaining sid (opened_telemetry_session signal sid) = DefaultStreamWindowBytes"
proof -
  have "telemetry_session_ok (opened_telemetry_session signal sid)"
    unfolding opened_telemetry_session_def
    by (rule telemetry_session_ok_open [OF telemetry_session_ok_new])
      (simp add: new_telemetry_session_def DefaultStreamWindowBytes_def)
  moreover have "isSupportedTelemetryStream (hd (SupportedFormatsBySignal signal)) signal"
    by (cases signal) (simp_all add: isSupportedTelemetryStream_def SupportedFormatsBySignal_def)
  ultimately show "telemetry_stream_open sid (opened_telemetry_session signal sid)"
    "telemetry_remaining sid (opened_telemetry_session signal sid) = DefaultStreamWindowBytes"
    by (simp_all add: telemetry_stream_open_def telemetry_remaining_def opened_telemetry_session_def
        telemetry_openStream_def new_telemetry_session_def Let_def store_simps)
qed

text \<open>
  A sandbox that sends operation records only against credit it was granted is never reset
  for an exhausted window, however payloads and grants overtake each other on the link: the
  credit it holds never exceeds the receive window, the window never exceeds the initial one, and
  when nothing is under way and no grant is due the sender holds more than the initial window less
  one batch, so it is never starved.
\<close>

theorem operation_sender_not_reset:
  assumes "link_run operation_receive operation_grants DefaultStreamWindowBytes opened_operation_session k"
  shows "case receiver k of
      None \<Rightarrow> False
    | Some s \<Rightarrow> 0 \<le> credit k \<and> credit k \<le> operation_remaining s \<and>
        operation_remaining s \<le> DefaultStreamWindowBytes \<and>
        (payloadsUnderWay k = [] \<and> grantsUnderWay k = [] \<and> fst (operation_grants s) = None \<longrightarrow>
           DefaultStreamWindowBytes - OperationWindowGrantBatchBytes < credit k)"
proof -
  have w: "(0::int) \<le> DefaultStreamWindowBytes" by (simp add: DefaultStreamWindowBytes_def)
  obtain s where s: "receiver k = Some s" "operation_stream_open s" "credit k \<le> operation_remaining s"
    using operation_window.sender_not_reset [OF assms opened_operation_session_open w] by blast
  have "0 \<le> credit k"
    using operation_window.link_run_ok [OF opened_operation_session_open w assms]
    by (simp add: operation_window.link_ok_def)
  moreover have "operation_remaining s \<le> DefaultStreamWindowBytes"
  proof -
    obtain st where st: "js_get (operationStreams s) OperationStreamId = Some st"
      using s(2) by (auto simp: operation_stream_open_def)
    then have "window_ok DefaultStreamWindowBytes st"
      using operation_session_okD [of s OperationStreamId st] s(2) by (auto simp: operation_stream_open_def)
    then show ?thesis using st by (simp add: operation_remaining_def window_ok_def)
  qed
  moreover have "DefaultStreamWindowBytes - OperationWindowGrantBatchBytes < credit k"
    if "payloadsUnderWay k = []" "grantsUnderWay k = []" "fst (operation_grants s) = None"
    using operation_window.sender_not_starved [OF assms opened_operation_session_open w that(1,2) s(1)] that(3)
    by (cases "operation_grants s") auto
  ultimately show ?thesis using s by simp
qed

definition after_send :: "'s \<Rightarrow> int \<Rightarrow> 's link" where
  "after_send s n = \<lparr> receiver = Some s, credit = DefaultStreamWindowBytes - n,
     payloadsUnderWay = [n], grantsUnderWay = [] \<rparr>"

lemma after_send_run:
  assumes "0 \<le> n" "n \<le> DefaultStreamWindowBytes"
  shows "link_run c g DefaultStreamWindowBytes s (after_send s n)"
  using link_more [OF link_opened link_send [of n]] assms by (simp add: after_send_def)

lemma operation_sender_not_reset_witness:
  "operation_remaining opened_operation_session \<le> DefaultStreamWindowBytes \<and>
   credit (after_send opened_operation_session 4096) \<le> operation_remaining opened_operation_session"
proof -
  have "(0::int) \<le> 4096" "4096 \<le> DefaultStreamWindowBytes" by (simp_all add: DefaultStreamWindowBytes_def)
  note run = after_send_run [OF this, of operation_receive operation_grants opened_operation_session]
  show ?thesis using operation_sender_not_reset [OF run] by (simp add: after_send_def)
qed

text \<open>
  The same holds of the telemetry streams: a sandbox that spends only granted credit is never
  reset for an exhausted window on either signal, and is never starved of credit by a gateway that
  has nothing under way and no grant due.
\<close>

theorem telemetry_sender_not_reset:
  assumes "link_run (telemetry_receive sid) (telemetry_grants sid) DefaultStreamWindowBytes
     (opened_telemetry_session signal sid) k"
  shows "case receiver k of
      None \<Rightarrow> False
    | Some s \<Rightarrow> 0 \<le> credit k \<and> credit k \<le> telemetry_remaining sid s \<and>
        telemetry_remaining sid s \<le> DefaultStreamWindowBytes \<and>
        (payloadsUnderWay k = [] \<and> grantsUnderWay k = [] \<and> fst (telemetry_grants sid s) = None \<longrightarrow>
           DefaultStreamWindowBytes - TelemetryWindowGrantBatchBytes < credit k)"
proof -
  have w: "(0::int) \<le> DefaultStreamWindowBytes" by (simp add: DefaultStreamWindowBytes_def)
  obtain s where s: "receiver k = Some s" "telemetry_stream_open sid s" "credit k \<le> telemetry_remaining sid s"
    using telemetry_window.sender_not_reset [OF assms opened_telemetry_session_open w] by blast
  have "0 \<le> credit k"
    using telemetry_window.link_run_ok [OF opened_telemetry_session_open w assms]
    by (simp add: telemetry_window.link_ok_def)
  moreover have "telemetry_remaining sid s \<le> DefaultStreamWindowBytes"
  proof -
    obtain st where st: "js_get (telemetryStreams s) sid = Some st"
      using s(2) by (auto simp: telemetry_stream_open_def)
    then have "window_ok DefaultStreamWindowBytes st"
      using telemetry_session_okD(4) [of s sid st] s(2) by (auto simp: telemetry_stream_open_def)
    then show ?thesis using st by (simp add: telemetry_remaining_def window_ok_def)
  qed
  moreover have "DefaultStreamWindowBytes - TelemetryWindowGrantBatchBytes < credit k"
    if "payloadsUnderWay k = []" "grantsUnderWay k = []" "fst (telemetry_grants sid s) = None"
    using telemetry_window.sender_not_starved [OF assms opened_telemetry_session_open w that(1,2) s(1)] that(3)
    by (cases "telemetry_grants sid s") auto
  ultimately show ?thesis using s by simp
qed

lemma telemetry_sender_not_reset_witness:
  "credit (after_send (opened_telemetry_session LogsSignal 5) 4096) \<le>
     telemetry_remaining 5 (opened_telemetry_session LogsSignal 5)"
proof -
  have "(0::int) \<le> 4096" "4096 \<le> DefaultStreamWindowBytes" by (simp_all add: DefaultStreamWindowBytes_def)
  note run = after_send_run [OF this, of "telemetry_receive 5" "telemetry_grants 5" "opened_telemetry_session LogsSignal 5"]
  show ?thesis using telemetry_sender_not_reset [OF run] by (simp add: after_send_def)
qed

end
