(* ===== verification/EgressRoutes.thy ===== *)
theory EgressRoutes
  imports Prelude "HOL-Library.Multiset" "HOL-Library.List_Lexorder" "HOL-Library.Char_ord"
begin

text \<open>
  Egress routes of a sandbox: matching, overlap and precedence
  (\<open>packages/integrations-core/src/egress/index.ts\<close>), the check of a compiled plan's routes
  (\<open>validateRoutes\<close> in \<open>packages/integrations-core/src/validation/index.ts\<close>) and the gateway's
  classification of a request by the plan
  (\<open>apps/data-plane-gateway/src/egress/runtime-plan-route-classifier.ts\<close>).

  Of a route only what these functions read is modelled. A thrown error is the left of a sum.
  \<open>localeCompare\<close> and the path of a parsed URL are parameters.
\<close>

section \<open>Routes and requests\<close>

record egress_route =
  egressRuleId :: string
  routeBindingId :: string
  matchHosts :: "string list"
  matchPathPrefixes :: "string list option"
  matchMethods :: "string list option"

record egress_request =
  requestHost :: string
  requestPath :: string
  requestMethod :: string

definition normalizeRoutePathPrefix :: "string \<Rightarrow> string + string" where
  "normalizeRoutePathPrefix pathPrefix =
     (let p = js_trim pathPrefix in
      if p = [] then Inl ''Route path prefix must be non-empty.''
      else if \<not> js_starts_with p ''/'' then Inl (''Route path prefix must start with '' @ CHR 0x27 # ''/'' @ CHR 0x27 # ''.'')
      else if p = ''/'' then Inr ''/''
      else if js_ends_with p ''/'' then Inr (butlast p)
      else Inr p)"

definition resolveRoutePathPrefixFromBaseUrl :: "(string \<Rightarrow> string + string) \<Rightarrow> string \<Rightarrow> string + string" where
  "resolveRoutePathPrefixFromBaseUrl url_pathname baseUrl = (case url_pathname baseUrl of
     Inl e \<Rightarrow> Inl e | Inr p \<Rightarrow> normalizeRoutePathPrefix p)"

definition joinRoutePathPrefixes :: "string \<Rightarrow> string \<Rightarrow> string + string" where
  "joinRoutePathPrefixes basePathPrefix pathPrefix = (case normalizeRoutePathPrefix basePathPrefix of
     Inl e \<Rightarrow> Inl e
   | Inr b \<Rightarrow> (case normalizeRoutePathPrefix pathPrefix of
       Inl e \<Rightarrow> Inl e
     | Inr p \<Rightarrow> Inr (if b = ''/'' then p else if p = ''/'' then b else b @ p)))"

definition normalizeHost :: "string \<Rightarrow> string + string" where
  "normalizeHost host = (let n = to_lower (js_trim host) in
     if n = [] then Inl ''Egress request host must be non-empty.'' else Inr n)"

definition normalizeMethod :: "string \<Rightarrow> string + string" where
  "normalizeMethod method = (let n = to_upper (js_trim method) in
     if n = [] then Inl ''Egress request method must be non-empty.'' else Inr n)"

definition normalizePath :: "string \<Rightarrow> string + string" where
  "normalizePath path =
     (if path = [] then Inl ''Egress request path must be non-empty.''
      else if js_starts_with path ''/'' then Inr path
      else Inr (''/'' @ path))"

section \<open>Overlap\<close>

definition hasHostOverlap :: "string list \<Rightarrow> string list \<Rightarrow> bool" where
  "hasHostOverlap leftHosts rightHosts \<longleftrightarrow>
     list_ex (\<lambda>h. to_lower h \<in> set (map to_lower rightHosts)) leftHosts"

definition hasMethodOverlap :: "string list option \<Rightarrow> string list option \<Rightarrow> bool" where
  "hasMethodOverlap leftMethods rightMethods \<longleftrightarrow> (case (leftMethods, rightMethods) of
     (Some l, Some r) \<Rightarrow> list_ex (\<lambda>m. to_upper m \<in> set (map to_upper r)) l | _ \<Rightarrow> True)"

text \<open>The part after the normalisations, the same in both files.\<close>

definition below_prefix :: "string \<Rightarrow> string \<Rightarrow> bool" where
  "below_prefix path prefx \<longleftrightarrow>
     prefx = ''/'' \<or> path = prefx \<or> js_starts_with path (prefx @ ''/'')"

definition pathBelongsToPrefix :: "string \<Rightarrow> string \<Rightarrow> string + bool" where
  "pathBelongsToPrefix path pathPrefix = (case normalizePath path of
     Inl e \<Rightarrow> Inl e
   | Inr normalizedPath \<Rightarrow> (case normalizeRoutePathPrefix pathPrefix of
       Inl e \<Rightarrow> Inl e | Inr normalizedPathPrefix \<Rightarrow> Inr (below_prefix normalizedPath normalizedPathPrefix)))"

text \<open>A loop or \<open>some\<close> that returns at the first true answer and stops at the first error.\<close>

fun some_result :: "('a \<Rightarrow> 'e + bool) \<Rightarrow> 'a list \<Rightarrow> 'e + bool" where
  "some_result f [] = Inr False"
| "some_result f (x # xs) = (case f x of Inl e \<Rightarrow> Inl e | Inr True \<Rightarrow> Inr True | Inr False \<Rightarrow> some_result f xs)"

definition prefixes_meet :: "string \<Rightarrow> string \<Rightarrow> string + bool" where
  "prefixes_meet leftPrefix rightPrefix = (case pathBelongsToPrefix leftPrefix rightPrefix of
     Inl e \<Rightarrow> Inl e | Inr True \<Rightarrow> Inr True | Inr False \<Rightarrow> pathBelongsToPrefix rightPrefix leftPrefix)"

definition hasPathPrefixOverlap :: "string list option \<Rightarrow> string list option \<Rightarrow> string + bool" where
  "hasPathPrefixOverlap leftPathPrefixes rightPathPrefixes =
     (case (leftPathPrefixes, rightPathPrefixes) of
        (Some ls, Some rs) \<Rightarrow> some_result (\<lambda>l. some_result (prefixes_meet l) rs) ls
      | _ \<Rightarrow> Inr True)"

definition routesOverlap :: "egress_route \<Rightarrow> egress_route \<Rightarrow> string + bool" where
  "routesOverlap left right =
     (if \<not> hasHostOverlap (matchHosts left) (matchHosts right) then Inr False
      else if \<not> hasMethodOverlap (matchMethods left) (matchMethods right) then Inr False
      else hasPathPrefixOverlap (matchPathPrefixes left) (matchPathPrefixes right))"

section \<open>Matching and precedence\<close>

definition matchesRoute :: "egress_route \<Rightarrow> egress_request \<Rightarrow> string + bool" where
  "matchesRoute route request = (case normalizeHost (requestHost request) of
     Inl e \<Rightarrow> Inl e
   | Inr normalizedHost \<Rightarrow> (case normalizeMethod (requestMethod request) of
       Inl e \<Rightarrow> Inl e
     | Inr normalizedMethod \<Rightarrow> (case normalizePath (requestPath request) of
         Inl e \<Rightarrow> Inl e
       | Inr normalizedPath \<Rightarrow>
           if \<not> list_ex (\<lambda>host. to_lower host = normalizedHost) (matchHosts route) then Inr False
           else if (case matchMethods route of None \<Rightarrow> False
                     | Some ms \<Rightarrow> normalizedMethod \<notin> set (map to_upper ms)) then Inr False
           else (case matchPathPrefixes route of
                   None \<Rightarrow> Inr True
                 | Some ps \<Rightarrow> some_result (pathBelongsToPrefix normalizedPath) ps))))"

definition getLongestPathPrefixLength :: "egress_route \<Rightarrow> int" where
  "getLongestPathPrefixLength route = (case matchPathPrefixes route of
     None \<Rightarrow> 0
   | Some ps \<Rightarrow> if ps = [] then 0
       else fold (\<lambda>p longest. if int (length p) > longest then int (length p) else longest) ps 0)"

definition compare_routes :: "(string \<Rightarrow> string \<Rightarrow> int) \<Rightarrow> egress_route \<Rightarrow> egress_route \<Rightarrow> int" where
  "compare_routes localeCompare left right =
     (let leftHostSpecificity = int (length (matchHosts left));
          rightHostSpecificity = int (length (matchHosts right))
      in if leftHostSpecificity \<noteq> rightHostSpecificity then leftHostSpecificity - rightHostSpecificity
      else if (matchMethods left \<noteq> None) \<noteq> (matchMethods right \<noteq> None)
        then (if matchMethods left \<noteq> None then -1 else 1)
      else let methodDifference = (case (matchMethods left, matchMethods right) of
             (Some l, Some r) \<Rightarrow> int (length l) - int (length r) | _ \<Rightarrow> 0)
      in if methodDifference \<noteq> 0 then methodDifference
      else if getLongestPathPrefixLength left \<noteq> getLongestPathPrefixLength right
        then getLongestPathPrefixLength right - getLongestPathPrefixLength left
      else localeCompare (egressRuleId left) (egressRuleId right))"

text \<open>\<open>Array.prototype.sort\<close>, which is stable.\<close>

fun js_insert :: "('a \<Rightarrow> 'a \<Rightarrow> int) \<Rightarrow> 'a \<Rightarrow> 'a list \<Rightarrow> 'a list" where
  "js_insert cmp x [] = [x]"
| "js_insert cmp x (y # ys) = (if cmp x y \<le> 0 then x # y # ys else y # js_insert cmp x ys)"

definition js_sort :: "('a \<Rightarrow> 'a \<Rightarrow> int) \<Rightarrow> 'a list \<Rightarrow> 'a list" where
  "js_sort cmp xs = foldr (js_insert cmp) xs []"

definition orderRoutesForMatching :: "(string \<Rightarrow> string \<Rightarrow> int) \<Rightarrow> egress_route list \<Rightarrow> egress_route list" where
  "orderRoutesForMatching localeCompare routes = js_sort (compare_routes localeCompare) routes"

fun first_match :: "egress_route list \<Rightarrow> egress_request \<Rightarrow> string + egress_route option" where
  "first_match [] request = Inr None"
| "first_match (route # routes) request = (case matchesRoute route request of
     Inl e \<Rightarrow> Inl e | Inr True \<Rightarrow> Inr (Some route) | Inr False \<Rightarrow> first_match routes request)"

definition resolveRouteForRequest ::
  "(string \<Rightarrow> string \<Rightarrow> int) \<Rightarrow> egress_route list \<Rightarrow> egress_request \<Rightarrow> string + egress_route option" where
  "resolveRouteForRequest localeCompare routes request =
     first_match (orderRoutesForMatching localeCompare routes) request"

section \<open>The check of a compiled plan\<close>

datatype compile_error = RouteConflict string | OtherError string

definition quote :: "string \<Rightarrow> string" where
  "quote s = CHR 0x27 # s @ [CHR 0x27]"

definition empty_prefix_at :: "egress_route \<Rightarrow> nat option" where
  "empty_prefix_at route = (case matchPathPrefixes route of
     None \<Rightarrow> None
   | Some ps \<Rightarrow> (case filter (\<lambda>n. js_trim (ps ! n) = []) [0..<length ps] of [] \<Rightarrow> None | n # _ \<Rightarrow> Some n))"

fun validate_ids :: "(string, egress_route) js_map \<Rightarrow> egress_route list \<Rightarrow> compile_error + unit" where
  "validate_ids seen [] = Inr ()"
| "validate_ids seen (route # routes) = (case empty_prefix_at route of
     Some n \<Rightarrow> Inl (RouteConflict (''Egress route '' @ quote (egressRuleId route) @
       '' contains an empty path prefix at index '' @ string_of_int (int n) @ ''.''))
   | None \<Rightarrow> (case js_get seen (egressRuleId route) of
       Some existingRoute \<Rightarrow> Inl (RouteConflict (''Duplicate egress rule id '' @ quote (egressRuleId route) @
         '' detected for bindings '' @ quote (routeBindingId existingRoute) @ '' and '' @
         quote (routeBindingId route) @ ''.''))
     | None \<Rightarrow> validate_ids (js_set (egressRuleId route) route seen) routes))"

fun validate_against :: "egress_route \<Rightarrow> egress_route list \<Rightarrow> compile_error + unit" where
  "validate_against left [] = Inr ()"
| "validate_against left (right # rights) = (case routesOverlap left right of
     Inl e \<Rightarrow> Inl (OtherError e)
   | Inr True \<Rightarrow> Inl (RouteConflict (''Overlapping egress routes detected: '' @ quote (egressRuleId left) @
       '' and '' @ quote (egressRuleId right) @ ''.''))
   | Inr False \<Rightarrow> validate_against left rights)"

fun validate_pairs :: "egress_route list \<Rightarrow> compile_error + unit" where
  "validate_pairs [] = Inr ()"
| "validate_pairs (left # rights) = (case validate_against left rights of
     Inl e \<Rightarrow> Inl e | Inr _ \<Rightarrow> validate_pairs rights)"

definition validateRoutes :: "egress_route list \<Rightarrow> compile_error + unit" where
  "validateRoutes routes = (case validate_ids [] routes of Inl e \<Rightarrow> Inl e | Inr _ \<Rightarrow> validate_pairs routes)"

section \<open>The gateway's classification\<close>

datatype route_classification = Unmatched | Matched egress_route | Ambiguous "egress_route list"

definition normalizePathPrefix :: "string \<Rightarrow> string" where
  "normalizePathPrefix pathPrefix = (let p = js_trim pathPrefix in
     if p = ''/'' then ''/'' else if js_ends_with p ''/'' then butlast p else p)"

definition gateway_pathBelongsToPrefix :: "string \<Rightarrow> string \<Rightarrow> bool" where
  "gateway_pathBelongsToPrefix path pathPrefix =
     below_prefix (if js_starts_with path ''/'' then path else ''/'' @ path) (normalizePathPrefix pathPrefix)"

definition normalizeAuthorityHost :: "string \<Rightarrow> string" where
  "normalizeAuthorityHost authority = (let a = to_lower (js_trim authority) in
     if js_starts_with a ''['' then
       (if CHR '']'' \<notin> set a then a else tl (takeWhile (\<lambda>c. c \<noteq> CHR '']'') a))
     else takeWhile (\<lambda>c. c \<noteq> CHR '':'') a)"

definition doesRouteMatchRequest :: "string \<Rightarrow> string \<Rightarrow> string \<Rightarrow> egress_route \<Rightarrow> bool" where
  "doesRouteMatchRequest host method path route \<longleftrightarrow>
     list_ex (\<lambda>h. to_lower h = host) (matchHosts route) \<and>
     list_ex (gateway_pathBelongsToPrefix path) (case_option [''/''] id (matchPathPrefixes route)) \<and>
     list_ex (\<lambda>m. to_upper m = method) (case_option [method] id (matchMethods route))"

definition classifyRuntimePlanEgressRoute :: "string \<Rightarrow> string \<Rightarrow> string \<Rightarrow> egress_route list \<Rightarrow> route_classification" where
  "classifyRuntimePlanEgressRoute authority method path egressRoutes =
     (let matchingRoutes = filter
            (doesRouteMatchRequest (normalizeAuthorityHost authority) (to_upper method) path) egressRoutes
      in case matchingRoutes of [] \<Rightarrow> Unmatched | [route] \<Rightarrow> Matched route | _ \<Rightarrow> Ambiguous matchingRoutes)"

section \<open>Prefixes on segment boundaries\<close>

lemma js_starts_withD: "js_starts_with s p \<Longrightarrow> \<exists>t. s = p @ t"
  by (simp add: js_starts_with_iff)

lemma below_prefix_iff:
  "below_prefix path p \<longleftrightarrow> p = ''/'' \<or> path = p \<or> (\<exists>t. path = p @ ''/'' @ t)"
  by (auto simp: below_prefix_def js_starts_with_iff)

text \<open>A path below two prefixes makes the longer prefix lie below the shorter one.\<close>

lemma below_both:
  assumes "below_prefix path p" "below_prefix path q" "length p \<le> length q" "js_starts_with p ''/''"
  shows "below_prefix q p"
proof (cases "p = ''/'' \<or> p = q")
  case False
  have q: "q \<noteq> ''/''"
    using assms(3,4) False by (cases p) (auto simp: js_starts_with_iff)
  obtain t where t: "path = q @ t" using assms(2) q by (auto simp: below_prefix_iff)
  obtain u where u: "path = p @ ''/'' @ u"
    using assms False t by (auto simp: below_prefix_iff)
  then have e: "q @ t = p @ CHR ''/'' # u" using t by simp
  then obtain v where v: "q = p @ v" using assms(3) by (auto simp: append_eq_append_conv2)
  then show ?thesis using e False by (cases v) (auto simp: below_prefix_iff)
qed (auto simp: below_prefix_iff)

lemma js_ends_with_butlast: "js_ends_with s [c] \<Longrightarrow> s = butlast s @ [c]"
  by (auto simp: js_ends_with_iff)

text \<open>Both normalisations of a trimmed prefix agree, and take off one final slash at most.\<close>

lemma normalized_prefix:
  assumes "normalizeRoutePathPrefix a = Inr p" "js_trim a = a"
  shows "normalizePathPrefix a = p" "js_starts_with p ''/''" "js_starts_with a ''/''" "a = p \<or> a = p @ ''/''"
proof -
  have a: "a \<noteq> []" "js_starts_with a ''/''"
    using assms by (auto simp: normalizeRoutePathPrefix_def Let_def split: if_splits)
  have p: "p = (if a = ''/'' then ''/'' else if js_ends_with a ''/'' then butlast a else a)"
    using assms a by (auto simp: normalizeRoutePathPrefix_def Let_def split: if_splits)
  show "normalizePathPrefix a = p" using assms(2) p by (simp add: normalizePathPrefix_def Let_def)
  show "js_starts_with a ''/''" by (rule a(2))
  show "a = p \<or> a = p @ ''/''" using p js_ends_with_butlast [of a "CHR ''/''"] by (auto split: if_splits)
  show "js_starts_with p ''/''"
  proof (cases "js_ends_with a ''/'' \<and> a \<noteq> ''/''")
    case True
    then have "a = p @ ''/''" using p js_ends_with_butlast [of a "CHR ''/''"] by simp
    moreover obtain t where "a = CHR ''/'' # t" using a(2) by (auto simp: js_starts_with_iff)
    ultimately show ?thesis using True by (cases p) (auto simp: js_starts_with_iff)
  qed (use p a(2) in \<open>auto simp: js_starts_with_iff\<close>)
qed

lemma below_with_slash: "below_prefix q p \<Longrightarrow> below_prefix (q @ ''/'') p"
  by (auto simp: below_prefix_iff)

lemma some_result_False: "some_result f xs = Inr False \<longleftrightarrow> (\<forall>x\<in>set xs. f x = Inr False)"
  by (induction xs) (auto split: sum.splits bool.splits)

text \<open>Prefixes the check tells apart have no path in common.\<close>

lemma prefixes_apart:
  assumes apart: "prefixes_meet a b = Inr False" and trim: "js_trim a = a" "js_trim b = b"
    and path: "gateway_pathBelongsToPrefix path a" "gateway_pathBelongsToPrefix path b"
  shows False
proof -
  have ab: "pathBelongsToPrefix a b = Inr False" "pathBelongsToPrefix b a = Inr False"
    using apart by (auto simp: prefixes_meet_def split: sum.splits bool.splits)
  obtain p where p: "normalizeRoutePathPrefix a = Inr p"
    using ab(2) by (auto simp: pathBelongsToPrefix_def split: sum.splits)
  obtain q where q: "normalizeRoutePathPrefix b = Inr q"
    using ab(1) by (auto simp: pathBelongsToPrefix_def split: sum.splits)
  note a = normalized_prefix [OF p trim(1)] and b = normalized_prefix [OF q trim(2)]
  have path_of: "js_starts_with x ''/'' \<Longrightarrow> normalizePath x = Inr x" for x
    by (auto simp: normalizePath_def js_starts_with_iff)
  have apart': "\<not> below_prefix a q" "\<not> below_prefix b p"
    using ab a b p q path_of [of a] path_of [of b] by (simp_all add: pathBelongsToPrefix_def)
  have "below_prefix q p \<or> below_prefix p q"
    using below_both [of _ p q] below_both [of _ q p] path a(1,2) b(1,2)
    unfolding gateway_pathBelongsToPrefix_def by (metis nat_le_linear)
  then have "below_prefix b p \<or> below_prefix a q"
    using a(4) b(4) below_with_slash by metis
  then show False using apart' by blast
qed

section \<open>Validated plans are unambiguous\<close>

definition clean_prefixes :: "egress_route \<Rightarrow> bool" where
  "clean_prefixes route \<longleftrightarrow> (case matchPathPrefixes route of None \<Rightarrow> True
     | Some ps \<Rightarrow> (\<forall>p\<in>set ps. js_trim p = p))"

lemma overlap_complete:
  assumes "routesOverlap left right = Inr False" "clean_prefixes left" "clean_prefixes right"
    "doesRouteMatchRequest host method path left" "doesRouteMatchRequest host method path right"
  shows False
proof -
  have "hasHostOverlap (matchHosts left) (matchHosts right)"
    using assms(4,5) by (simp add: hasHostOverlap_def doesRouteMatchRequest_def list_ex_iff image_iff) metis
  moreover have "hasMethodOverlap (matchMethods left) (matchMethods right)"
    using assms(4,5)
    by (simp add: hasMethodOverlap_def doesRouteMatchRequest_def list_ex_iff image_iff split: option.splits) (metis+)
  ultimately have "hasPathPrefixOverlap (matchPathPrefixes left) (matchPathPrefixes right) = Inr False"
    using assms(1) by (simp add: routesOverlap_def)
  then obtain ls rs where lr: "matchPathPrefixes left = Some ls" "matchPathPrefixes right = Some rs"
      "\<forall>l\<in>set ls. \<forall>r\<in>set rs. prefixes_meet l r = Inr False"
    by (auto simp: hasPathPrefixOverlap_def some_result_False split: option.splits)
  moreover obtain l r where "l \<in> set ls" "gateway_pathBelongsToPrefix path l"
      "r \<in> set rs" "gateway_pathBelongsToPrefix path r"
    using assms(4,5) lr(1,2) by (auto simp: doesRouteMatchRequest_def list_ex_iff)
  ultimately show False using prefixes_apart [of l r path] assms(2,3) by (simp add: clean_prefixes_def)
qed

lemma validate_against_Inr:
  "validate_against left rights = Inr () \<longleftrightarrow> (\<forall>r\<in>set rights. routesOverlap left r = Inr False)"
  by (induction rights) (auto split: sum.splits bool.splits)

lemma validate_pairs_Inr:
  "validate_pairs routes = Inr () \<longleftrightarrow> sorted_wrt (\<lambda>l r. routesOverlap l r = Inr False) routes"
  by (induction routes) (auto simp flip: validate_against_Inr split: sum.splits)

lemma one_match:
  assumes "validateRoutes routes = Inr ()" "\<forall>route\<in>set routes. clean_prefixes route"
  shows "length (filter (doesRouteMatchRequest host verb path) routes) \<le> 1"
proof -
  have "sorted_wrt (\<lambda>l r. routesOverlap l r = Inr False) routes"
    using assms(1) by (auto simp: validateRoutes_def validate_pairs_Inr split: sum.splits)
  then show ?thesis using assms(2)
  proof (induction routes)
    case (Cons route routes)
    show ?case
    proof (cases "doesRouteMatchRequest host verb path route")
      case True
      have "\<not> doesRouteMatchRequest host verb path r" if "r \<in> set routes" for r
        using overlap_complete [of route r host verb path] Cons.prems True that by auto
      then show ?thesis using True by (simp add: filter_False)
    qed (use Cons in simp)
  qed simp
qed

lemma mset_js_insert: "mset (js_insert cmp x xs) = add_mset x (mset xs)"
  by (induction xs) auto

lemma mset_js_sort: "mset (js_sort cmp xs) = mset xs"
  by (induction xs) (simp_all add: js_sort_def mset_js_insert)

lemma length_filter_mset: "mset xs = mset ys \<Longrightarrow> length (filter P xs) = length (filter P ys)"
  by (metis mset_filter size_mset)

text \<open>
  C35: A plan whose routes pass the compiler's check is never ambiguous for the gateway: whatever
  the authority, method and path of a request, and in whatever order the plan lists its routes,
  the classification is the one route that matches or, when no route matches, unmatched. (The
  prefixes must be free of surrounding blanks: see the counterexample below.)
\<close>

theorem validated_plan_unambiguous:
  assumes "validateRoutes routes = Inr ()" "\<forall>route\<in>set routes. clean_prefixes route"
  shows "case classifyRuntimePlanEgressRoute authority method path (orderRoutesForMatching localeCompare routes) of
      Ambiguous _ \<Rightarrow> False
    | Matched route \<Rightarrow> {r \<in> set routes. doesRouteMatchRequest (normalizeAuthorityHost authority) (to_upper method) path r} = {route}
    | Unmatched \<Rightarrow> {r \<in> set routes. doesRouteMatchRequest (normalizeAuthorityHost authority) (to_upper method) path r} = {}"
proof -
  let ?P = "doesRouteMatchRequest (normalizeAuthorityHost authority) (to_upper method) path"
  let ?ms = "filter ?P (orderRoutesForMatching localeCompare routes)"
  have perm: "mset (orderRoutesForMatching localeCompare routes) = mset routes"
    by (simp add: orderRoutesForMatching_def mset_js_sort)
  have "length ?ms \<le> 1"
    using length_filter_mset [OF perm, of ?P] one_match [OF assms] by simp
  moreover have "set ?ms = {r \<in> set routes. ?P r}"
    using mset_eq_setD [OF perm] by auto
  ultimately show ?thesis
    by (cases ?ms rule: list.exhaust; cases "tl ?ms") (auto simp: classifyRuntimePlanEgressRoute_def)
qed

definition github_route :: "string \<Rightarrow> string \<Rightarrow> egress_route" where
  "github_route ruleId prefx = \<lparr> egressRuleId = ruleId, routeBindingId = ''ibd_1'',
     matchHosts = [''api.github.com''], matchPathPrefixes = Some [prefx], matchMethods = None \<rparr>"

lemma validated_plan_unambiguous_witness:
  "classifyRuntimePlanEgressRoute ''API.github.com:443'' ''get'' ''/repos/a'' [github_route ''r1'' ''/repos/'', github_route ''r2'' ''/users'']
     \<noteq> Ambiguous [github_route ''r1'' ''/repos/'', github_route ''r2'' ''/users''] \<and>
   validateRoutes [github_route ''r1'' ''/repos/'', github_route ''r2'' ''/users''] = Inr ()"
proof -
  let ?rs = "[github_route ''r1'' ''/repos/'', github_route ''r2'' ''/users'']"
  have v: "validateRoutes ?rs = Inr ()" by code_simp
  have c: "\<forall>route\<in>set ?rs. clean_prefixes route" by code_simp
  have o: "orderRoutesForMatching (\<lambda>_ _. 0) ?rs = ?rs" by code_simp
  show ?thesis
    using validated_plan_unambiguous [OF v c, of "''API.github.com:443''" "''get''" "''/repos/a''" "\<lambda>_ _. 0"]
    unfolding o by (auto simp: v split: route_classification.splits)
qed

text \<open>
  The check of a compiled plan does not trim a prefix that it compares as a path, while the
  gateway trims every prefix: two routes whose prefixes differ by leading blanks pass the check,
  and yet a request that both match is classified as ambiguous, so it is refused.
\<close>

theorem blank_prefix_escapes_check:
  "validateRoutes [github_route ''r1'' '' /repos/a'', github_route ''r2'' ''/repos''] = Inr () \<and>
   classifyRuntimePlanEgressRoute ''api.github.com'' ''GET'' ''/repos/a''
     [github_route ''r1'' '' /repos/a'', github_route ''r2'' ''/repos''] =
   Ambiguous [github_route ''r1'' '' /repos/a'', github_route ''r2'' ''/repos'']"
  by code_simp

section \<open>Precedence does not depend on the order of the plan\<close>

text \<open>What is relied on of \<open>localeCompare\<close>: a total order on the rule ids that occur.\<close>

definition compares_strings :: "(string \<Rightarrow> string \<Rightarrow> int) \<Rightarrow> string set \<Rightarrow> bool" where
  "compares_strings cmp A \<longleftrightarrow>
     (\<forall>a\<in>A. \<forall>b\<in>A. (cmp a b \<le> 0 \<or> cmp b a \<le> 0) \<and> (cmp a b \<le> 0 \<longrightarrow> cmp b a \<le> 0 \<longrightarrow> a = b) \<and>
        (\<forall>c\<in>A. cmp a b \<le> 0 \<longrightarrow> cmp b c \<le> 0 \<longrightarrow> cmp a c \<le> 0))"

definition total_compare :: "('a \<Rightarrow> 'a \<Rightarrow> int) \<Rightarrow> 'a set \<Rightarrow> bool" where
  "total_compare cmp A \<longleftrightarrow>
     (\<forall>a\<in>A. \<forall>b\<in>A. cmp a b \<le> 0 \<or> cmp b a \<le> 0) \<and>
     (\<forall>a\<in>A. \<forall>b\<in>A. \<forall>c\<in>A. cmp a b \<le> 0 \<longrightarrow> cmp b c \<le> 0 \<longrightarrow> cmp a c \<le> 0)"

lemma set_js_insert: "set (js_insert cmp x xs) = insert x (set xs)"
  using mset_js_insert [of cmp x xs] mset_eq_setD [of "js_insert cmp x xs" "x # xs"] by simp

lemma sorted_js_insert:
  assumes "total_compare cmp A" "insert x (set xs) \<subseteq> A" "sorted_wrt (\<lambda>a b. cmp a b \<le> 0) xs"
  shows "sorted_wrt (\<lambda>a b. cmp a b \<le> 0) (js_insert cmp x xs)"
  using assms(2,3)
proof (induction xs)
  case (Cons y ys)
  show ?case
  proof (cases "cmp x y \<le> 0")
    case True
    then have "cmp x z \<le> 0" if "z \<in> set ys" for z
      using assms(1) Cons.prems that unfolding total_compare_def by (metis insert_subset list.set_intros(1,2) list.simps(15) subsetD sorted_wrt.simps(2))
    then show ?thesis using True Cons.prems by simp
  next
    case False
    then have "cmp y x \<le> 0" using assms(1) Cons.prems unfolding total_compare_def by auto
    then show ?thesis using False Cons by (auto simp: set_js_insert)
  qed
qed simp

lemma sorted_js_sort:
  assumes "total_compare cmp (set xs)"
  shows "sorted_wrt (\<lambda>a b. cmp a b \<le> 0) (js_sort cmp xs)"
proof -
  have "set ys \<subseteq> set xs \<Longrightarrow> sorted_wrt (\<lambda>a b. cmp a b \<le> 0) (foldr (js_insert cmp) ys [])" for ys
  proof (induction ys)
    case (Cons y ys)
    have "set (foldr (js_insert cmp) ys []) = set ys"
      using mset_eq_setD [OF mset_js_sort [of cmp ys]] by (simp add: js_sort_def)
    then show ?case using Cons by (auto intro!: sorted_js_insert [OF assms])
  qed simp
  then show ?thesis by (simp add: js_sort_def)
qed

text \<open>Two sorted lists of the same elements are equal when the order tells the elements apart.\<close>

lemma sorted_unique:
  assumes "\<And>a b. a \<in> set xs \<Longrightarrow> b \<in> set xs \<Longrightarrow> R a b \<Longrightarrow> R b a \<Longrightarrow> a = b"
  shows "mset xs = mset ys \<Longrightarrow> sorted_wrt R xs \<Longrightarrow> sorted_wrt R ys \<Longrightarrow> xs = ys"
  using assms
proof (induction xs arbitrary: ys)
  case (Cons x xs)
  then obtain y ys' where ys: "ys = y # ys'" by (cases ys) auto
  have sets: "set (x # xs) = set (y # ys')" using Cons.prems(1) ys mset_eq_setD by blast
  have "x = y"
  proof (rule ccontr)
    assume "x \<noteq> y"
    then have "y \<in> set xs" "x \<in> set ys'" using sets by auto
    then have "R x y" "R y x" using Cons.prems(2,3) ys by auto
    then show False using Cons.prems(4) [of x y] \<open>y \<in> set xs\<close> \<open>x \<noteq> y\<close> by simp
  qed
  moreover have "xs = ys'"
    using Cons.prems \<open>x = y\<close> ys by (intro Cons.IH) auto
  ultimately show ?case using ys by simp
qed simp

text \<open>The comparison is lexicographic in four numbers and the rule id.\<close>

definition methods_rank :: "egress_route \<Rightarrow> int" where
  "methods_rank r = (case matchMethods r of None \<Rightarrow> 1 | Some _ \<Rightarrow> 0)"

definition methods_count :: "egress_route \<Rightarrow> int" where
  "methods_count r = (case matchMethods r of None \<Rightarrow> 0 | Some ms \<Rightarrow> int (length ms))"

definition route_key :: "egress_route \<Rightarrow> int \<times> int \<times> int \<times> int" where
  "route_key r = (int (length (matchHosts r)), methods_rank r, methods_count r, - getLongestPathPrefixLength r)"

definition key_less :: "int \<times> int \<times> int \<times> int \<Rightarrow> int \<times> int \<times> int \<times> int \<Rightarrow> bool" where
  "key_less k l = (case (k, l) of ((a, b, c, d), (a', b', c', d')) \<Rightarrow>
     a < a' \<or> a = a' \<and> (b < b' \<or> b = b' \<and> (c < c' \<or> c = c' \<and> d < d')))"

lemma key_less_trans: "key_less k l \<Longrightarrow> key_less l m \<Longrightarrow> key_less k m"
  by (auto simp: key_less_def)

lemma key_less_cases: "key_less k l \<or> k = l \<or> key_less l k"
  by (auto simp: key_less_def)

lemma key_less_irrefl: "\<not> key_less k k"
  by (auto simp: key_less_def)

lemma compare_routes_le:
  "compare_routes cmp l r \<le> 0 \<longleftrightarrow> key_less (route_key l) (route_key r) \<or>
     route_key l = route_key r \<and> cmp (egressRuleId l) (egressRuleId r) \<le> 0"
  by (cases "matchMethods l"; cases "matchMethods r")
    (simp_all add: compare_routes_def Let_def key_less_def route_key_def methods_rank_def
      methods_count_def; linarith)+

lemma compare_routes_total:
  assumes "compares_strings cmp (egressRuleId ` A)"
  shows "total_compare (compare_routes cmp) A"
  unfolding total_compare_def
proof (intro conjI ballI impI)
  fix a b assume "a \<in> A" "b \<in> A"
  then show "compare_routes cmp a b \<le> 0 \<or> compare_routes cmp b a \<le> 0"
    using assms key_less_cases [of "route_key a" "route_key b"]
    unfolding compare_routes_le compares_strings_def by (metis imageI)
next
  fix a b c assume "a \<in> A" "b \<in> A" "c \<in> A" "compare_routes cmp a b \<le> 0" "compare_routes cmp b c \<le> 0"
  then show "compare_routes cmp a c \<le> 0"
    using assms key_less_trans [of "route_key a" "route_key b" "route_key c"]
    unfolding compare_routes_le compares_strings_def by (metis imageI)
qed

lemma order_unique:
  assumes "compares_strings cmp (egressRuleId ` set routes)" "distinct (map egressRuleId routes)"
    "mset routes' = mset routes"
  shows "orderRoutesForMatching cmp routes' = orderRoutesForMatching cmp routes"
proof -
  let ?R = "\<lambda>a b. compare_routes cmp a b \<le> 0"
  have sets: "set routes' = set routes" "set (orderRoutesForMatching cmp routes') = set routes"
    using assms(3) mset_eq_setD mset_js_sort unfolding orderRoutesForMatching_def by metis+
  have "a = b" if "a \<in> set routes" "b \<in> set routes" "?R a b" "?R b a" for a b
  proof -
    have "\<not> key_less (route_key a) (route_key b) \<or> \<not> key_less (route_key b) (route_key a)"
      using key_less_trans key_less_irrefl by blast
    then have "egressRuleId a = egressRuleId b"
      using that assms(1) key_less_irrefl unfolding compare_routes_le compares_strings_def by (metis imageI)
    then show ?thesis using assms(2) that(1,2) by (simp add: distinct_map inj_on_def)
  qed
  moreover have "sorted_wrt ?R (orderRoutesForMatching cmp routes')" "sorted_wrt ?R (orderRoutesForMatching cmp routes)"
    using compare_routes_total [OF assms(1)] sets(1) unfolding orderRoutesForMatching_def
    by (simp_all add: sorted_js_sort)
  ultimately show ?thesis
    using assms(3) sets(2)
    by (intro sorted_unique [where R = ?R]) (simp_all add: orderRoutesForMatching_def mset_js_sort)
qed

lemma first_match_None:
  "first_match routes request = Inr None \<longleftrightarrow> (\<forall>r\<in>set routes. matchesRoute r request = Inr False)"
  by (induction routes) (auto split: sum.splits bool.splits)

lemma first_match_Some:
  "first_match routes request = Inr (Some r) \<Longrightarrow>
     \<exists>before after. routes = before @ r # after \<and> matchesRoute r request = Inr True \<and>
       (\<forall>b\<in>set before. matchesRoute b request = Inr False)"
proof (induction routes)
  case (Cons route routes)
  consider (yes) "matchesRoute route request = Inr True" "r = route"
    | (no) "matchesRoute route request = Inr False" "first_match routes request = Inr (Some r)"
    using Cons.prems by (auto split: sum.splits bool.splits)
  then show ?case
  proof cases
    case yes
    then show ?thesis by (intro exI [of _ "[]"] exI [of _ routes]) simp
  next
    case no
    then obtain before after where "routes = before @ r # after" "matchesRoute r request = Inr True"
        "\<forall>b\<in>set before. matchesRoute b request = Inr False"
      using Cons.IH by blast
    then show ?thesis using no(1) by (intro exI [of _ "route # before"] exI [of _ after]) simp
  qed
qed simp

text \<open>
  The route a request resolves to does not depend on the order in which the routes are given
  (their rule ids being distinct), and it is a best one: it matches, and every other route that
  matches compares no better, by fewer hosts, then by naming methods and fewer of them, then by a
  longer path prefix, then by its rule id.
\<close>

theorem route_choice_canonical:
  assumes "compares_strings localeCompare (egressRuleId ` set routes)" "distinct (map egressRuleId routes)"
    "mset routes' = mset routes"
  shows "resolveRouteForRequest localeCompare routes' request = resolveRouteForRequest localeCompare routes request \<and>
    (\<forall>route. resolveRouteForRequest localeCompare routes request = Inr (Some route) \<longrightarrow>
      route \<in> set routes \<and> matchesRoute route request = Inr True \<and>
      (\<forall>other\<in>set routes. matchesRoute other request = Inr True \<longrightarrow>
         compare_routes localeCompare route other \<le> 0))"
proof (intro conjI allI impI ballI)
  show "resolveRouteForRequest localeCompare routes' request = resolveRouteForRequest localeCompare routes request"
    using order_unique [OF assms] by (simp add: resolveRouteForRequest_def)
  let ?R = "\<lambda>a b. compare_routes localeCompare a b \<le> 0"
  fix route assume "resolveRouteForRequest localeCompare routes request = Inr (Some route)"
  then obtain before after where split: "orderRoutesForMatching localeCompare routes = before @ route # after"
      "matchesRoute route request = Inr True" "\<forall>b\<in>set before. matchesRoute b request = Inr False"
    using first_match_Some by (fastforce simp: resolveRouteForRequest_def)
  have set_eq: "set (before @ route # after) = set routes"
    using mset_eq_setD [OF mset_js_sort [of "compare_routes localeCompare" routes]] split(1)
    by (simp add: orderRoutesForMatching_def)
  have total: "total_compare (compare_routes localeCompare) (set routes)"
    by (rule compare_routes_total [OF assms(1)])
  have "sorted_wrt ?R (before @ route # after)"
    using sorted_js_sort [OF total] split(1) by (simp add: orderRoutesForMatching_def)
  moreover have "?R route route" using total set_eq by (auto simp: total_compare_def)
  ultimately have best: "route \<in> set routes \<and> matchesRoute route request = Inr True \<and>
      (\<forall>other\<in>set routes. matchesRoute other request = Inr True \<longrightarrow> compare_routes localeCompare route other \<le> 0)"
    using split(2,3) unfolding set_eq [symmetric] by (auto simp: sorted_wrt_append)
  then show "route \<in> set routes" "matchesRoute route request = Inr True" by blast+
  show "compare_routes localeCompare route other \<le> 0" if "other \<in> set routes" "matchesRoute other request = Inr True" for other
    using best that by blast
qed

text \<open>A comparison by code units, one that satisfies what is relied on.\<close>

definition code_compare :: "string \<Rightarrow> string \<Rightarrow> int" where
  "code_compare a b = (if a < b then -1 else if a = b then 0 else 1)"

lemma code_compare_total: "compares_strings code_compare A"
  by (auto simp: compares_strings_def code_compare_def split: if_splits)

lemma route_choice_canonical_witness:
  "resolveRouteForRequest code_compare [github_route ''r2'' ''/'', github_route ''r1'' ''/repos'']
     \<lparr> requestHost = ''api.github.com'', requestPath = ''/repos/a'', requestMethod = ''get'' \<rparr> =
   Inr (Some (github_route ''r1'' ''/repos''))"
proof -
  let ?rs = "[github_route ''r1'' ''/repos'', github_route ''r2'' ''/'']"
  let ?rs' = "[github_route ''r2'' ''/'', github_route ''r1'' ''/repos'']"
  let ?req = "\<lparr> requestHost = ''api.github.com'', requestPath = ''/repos/a'', requestMethod = ''get'' \<rparr>"
  have d: "distinct (map egressRuleId ?rs)" by code_simp
  have p: "mset ?rs' = mset ?rs" by simp
  have r: "resolveRouteForRequest code_compare ?rs ?req = Inr (Some (github_route ''r1'' ''/repos''))"
    by code_simp
  show ?thesis using route_choice_canonical [OF code_compare_total d p, of ?req] unfolding r by blast
qed

end
