(* ===== verification/CredentialCache.thy ===== *)
theory CredentialCache
  imports Prelude "HOL-Library.List_Lexorder" "HOL-Library.Char_ord"
begin

text \<open>
  The gateway's cache of egress credentials,
  \<open>apps/data-plane-gateway/src/egress/credential-cache.ts\<close>, over the cache of
  \<open>packages/cache/src\<close> (\<open>cache.ts\<close>, \<open>in-memory-cache-adapter.ts\<close>). The adapter is an argument of
  the credential cache; \<open>cache_laws\<close> is what it promises, and the in-memory adapter keeps it.

  A cached string is the JSON text of a credential record or of an index of keys; the model stores
  the value that text encodes, and reading a value of the other kind is the error of the schema.
  Clock readings are arguments, \<open>Date.parse\<close> is a parameter.
\<close>

section \<open>Caches\<close>

datatype cached_credential =
    ValueCredential string "string option"
  | AwsSession string string string string

fun credential_expiresAt :: "cached_credential \<Rightarrow> string option" where
  "credential_expiresAt (ValueCredential _ e) = e"
| "credential_expiresAt (AwsSession _ _ _ e) = Some e"

datatype cache_value = CredentialRecord cached_credential int | IndexRecord "string list"

record 's cache_adapter =
  cache_get :: "int \<Rightarrow> string \<Rightarrow> 's \<Rightarrow> cache_value option \<times> 's"
  cache_set :: "int \<Rightarrow> string \<Rightarrow> cache_value \<Rightarrow> int option \<Rightarrow> 's \<Rightarrow> 's"
  cache_delete :: "string \<Rightarrow> 's \<Rightarrow> 's"

definition cached :: "'s cache_adapter \<Rightarrow> int \<Rightarrow> string \<Rightarrow> 's \<Rightarrow> cache_value option" where
  "cached a now k s = fst (cache_get a now k s)"

text \<open>What a cache promises: reads do not change values, and a value stays until its time.\<close>

locale cache_laws =
  fixes a :: "'s cache_adapter"
  assumes after_get: "now \<le> now' \<Longrightarrow> cached a now' k (snd (cache_get a now k' s)) = cached a now' k s"
    and after_set: "now \<le> now' \<Longrightarrow> cached a now' k (cache_set a now k' v ttl s) =
      (if k = k' then (case ttl of None \<Rightarrow> Some v | Some t \<Rightarrow> if now + t \<le> now' then None else Some v)
       else cached a now' k s)"
    and after_delete: "cached a now k (cache_delete a k' s) = (if k = k' then None else cached a now k s)"
    and stays: "now \<le> now' \<Longrightarrow> cached a now' k s = Some v \<Longrightarrow> cached a now k s = Some v"

subsection \<open>The in-memory adapter\<close>

record memory_record =
  recordExpiresAtMs :: "int option"
  recordValue :: cache_value

type_synonym memory_cache = "(string, memory_record) js_map"

definition memory_get :: "int \<Rightarrow> string \<Rightarrow> memory_cache \<Rightarrow> cache_value option \<times> memory_cache" where
  "memory_get now key s = (case js_get s key of
     None \<Rightarrow> (None, s)
   | Some record \<Rightarrow>
       if (case recordExpiresAtMs record of None \<Rightarrow> False | Some t \<Rightarrow> t \<le> now)
       then (None, js_delete key s) else (Some (recordValue record), s))"

definition memory_set :: "int \<Rightarrow> string \<Rightarrow> cache_value \<Rightarrow> int option \<Rightarrow> memory_cache \<Rightarrow> memory_cache" where
  "memory_set now key v ttlMs s =
     js_set key \<lparr> recordExpiresAtMs = map_option (\<lambda>t. now + t) ttlMs, recordValue = v \<rparr> s"

definition memory_delete :: "string \<Rightarrow> memory_cache \<Rightarrow> memory_cache" where
  "memory_delete key s = js_delete key s"

definition memory_adapter :: "memory_cache cache_adapter" where
  "memory_adapter = \<lparr> cache_get = memory_get, cache_set = memory_set, cache_delete = memory_delete \<rparr>"

lemma memory_cached:
  "cached memory_adapter now k s = (case js_get s k of None \<Rightarrow> None
     | Some r \<Rightarrow> if (case recordExpiresAtMs r of None \<Rightarrow> False | Some t \<Rightarrow> t \<le> now) then None
         else Some (recordValue r))"
  by (simp add: cached_def memory_adapter_def memory_get_def split: option.splits)

lemma memory_adapter_simps [simp]:
  "cache_get memory_adapter = memory_get" "cache_set memory_adapter = memory_set"
  "cache_delete memory_adapter = memory_delete"
  by (simp_all add: memory_adapter_def)

interpretation memory: cache_laws memory_adapter
proof (unfold_locales, goal_cases)
  case (1 now now' k k' s)
  then show ?case by (auto simp: memory_cached memory_get_def store_simps split: option.splits)
next
  case (2 now now' k k' v ttl s)
  then show ?case by (simp add: memory_cached memory_set_def store_simps split: option.splits)
next
  case (3 now k k' s)
  then show ?case by (simp add: memory_cached memory_delete_def store_simps)
next
  case (4 now now' k s v)
  then show ?case by (auto simp: memory_cached split: option.splits if_splits)
qed

section \<open>Keys\<close>

datatype credential_key_input =
    IntegrationConnection (keyTestEnvironmentId: "string option") (keyBindingId: string)
      (keyConnectionId: string) string "string option" "string option"
  | LinkedPrincipal (keyTestEnvironmentId: "string option") (keyBindingId: string)
      string string "string option" bool "string option" "string option"
  | MistleMcpToken (keyTestEnvironmentId: "string option") (keyBindingId: string) string string string
  | MistleMcpSetupAssistantToken (keyTestEnvironmentId: "string option") (keyBindingId: string)
      string string string int
  | MistleMcpDesignerToken (keyTestEnvironmentId: "string option") (keyBindingId: string) string string string
  | PlatformOpenaiApiKey (keyTestEnvironmentId: "string option") (keyBindingId: string)
  | PlatformLangfuseSecretKey (keyTestEnvironmentId: "string option") (keyBindingId: string)

definition or_empty :: "string option \<Rightarrow> string" where
  "or_empty s = (case s of None \<Rightarrow> '''' | Some t \<Rightarrow> t)"

definition string_of_bool :: "bool \<Rightarrow> string" where
  "string_of_bool b = (if b then ''true'' else ''false'')"

fun key_fields :: "credential_key_input \<Rightarrow> string list" where
  "key_fields (IntegrationConnection env b conn secretType slotKey resolverKey) =
     [or_empty env, b, ''integration_connection'', conn, secretType, or_empty slotKey, or_empty resolverKey]"
| "key_fields (MistleMcpToken env b org sandbox apiKeyId) =
     [or_empty env, b, ''mistle_mcp_token'', org, sandbox, apiKeyId]"
| "key_fields (MistleMcpSetupAssistantToken env b org sandbox profile version) =
     [or_empty env, b, ''mistle_mcp_setup_assistant_token'', org, sandbox, profile, string_of_int version]"
| "key_fields (MistleMcpDesignerToken env b org sandbox session) =
     [or_empty env, b, ''mistle_mcp_designer_token'', org, sandbox, session]"
| "key_fields (PlatformOpenaiApiKey env b) = [or_empty env, b, ''platform_openai_api_key'']"
| "key_fields (PlatformLangfuseSecretKey env b) = [or_empty env, b, ''platform_langfuse_secret_key'']"
| "key_fields (LinkedPrincipal env b org providerFamily conn actingUserRequired actingUser kind) =
     [or_empty env, b, ''linked_principal'', org, providerFamily, or_empty conn,
      string_of_bool actingUserRequired, or_empty actingUser, or_empty kind]"

definition toCacheKey :: "credential_key_input \<Rightarrow> string" where
  "toCacheKey i = ''gateway-egress-credential:'' @ js_join '':'' (key_fields i)"

definition toConnectionIndexKey :: "string option \<Rightarrow> string \<Rightarrow> string" where
  "toConnectionIndexKey env conn =
     ''gateway-egress-credential-index:'' @ js_join '':'' [or_empty env, ''integration_connection'', conn]"

fun toConnectionIndexKeyForCacheKey :: "credential_key_input \<Rightarrow> string option" where
  "toConnectionIndexKeyForCacheKey (IntegrationConnection env _ conn _ _ _) = Some (toConnectionIndexKey env conn)"
| "toConnectionIndexKeyForCacheKey _ = None"

section \<open>Operations\<close>

record cache_config =
  defaultTtlSeconds :: int
  refreshSkewSeconds :: int
  dateParse :: "string \<Rightarrow> int option"

definition resolveExpiryMs :: "cache_config \<Rightarrow> int \<Rightarrow> cached_credential \<Rightarrow> string + int" where
  "resolveExpiryMs c nowMs credential = (case credential_expiresAt credential of
     None \<Rightarrow> Inr (nowMs + defaultTtlSeconds c * 1000)
   | Some t \<Rightarrow> (case dateParse c t of
       None \<Rightarrow> Inl (''Credential expiry timestamp '' @ CHR 0x27 # t @ CHR 0x27 # '' is invalid.'')
     | Some ms \<Rightarrow> Inr ms))"

definition schema_error :: string where
  "schema_error = ''ZodError''"

text \<open>\<open>#addToConnectionIndex\<close> reads the index and, after the await, writes it.\<close>

definition index_after_add :: "string \<Rightarrow> cache_value option \<Rightarrow> string + string list option" where
  "index_after_add cacheKey v = (case v of
     None \<Rightarrow> Inr (Some [cacheKey])
   | Some (IndexRecord keys) \<Rightarrow>
       if cacheKey \<in> set keys then Inr None else Inr (Some (sort (keys @ [cacheKey])))
   | Some (CredentialRecord _ _) \<Rightarrow> Inl schema_error)"

definition write_index :: "'s cache_adapter \<Rightarrow> int \<Rightarrow> string \<Rightarrow> string + string list option \<Rightarrow> 's \<Rightarrow> (string + unit) \<times> 's" where
  "write_index a now indexKey r s = (case r of
     Inl e \<Rightarrow> (Inl e, s)
   | Inr None \<Rightarrow> (Inr (), s)
   | Inr (Some keys) \<Rightarrow> (Inr (), cache_set a now indexKey (IndexRecord keys) None s))"

definition addToConnectionIndex ::
  "'s cache_adapter \<Rightarrow> int \<Rightarrow> credential_key_input \<Rightarrow> string \<Rightarrow> 's \<Rightarrow> (string + unit) \<times> 's" where
  "addToConnectionIndex a now i cacheKey s = (case toConnectionIndexKeyForCacheKey i of
     None \<Rightarrow> (Inr (), s)
   | Some indexKey \<Rightarrow> (case cache_get a now indexKey s of
       (v, s1) \<Rightarrow> write_index a now indexKey (index_after_add cacheKey v) s1))"

definition removeFromConnectionIndex ::
  "'s cache_adapter \<Rightarrow> int \<Rightarrow> credential_key_input \<Rightarrow> string \<Rightarrow> 's \<Rightarrow> (string + unit) \<times> 's" where
  "removeFromConnectionIndex a now i cacheKey s = (case toConnectionIndexKeyForCacheKey i of
     None \<Rightarrow> (Inr (), s)
   | Some indexKey \<Rightarrow> (case cache_get a now indexKey s of
       (None, s1) \<Rightarrow> (Inr (), s1)
     | (Some (CredentialRecord _ _), s1) \<Rightarrow> (Inl schema_error, s1)
     | (Some (IndexRecord keys), s1) \<Rightarrow>
         let nextIndexKeys = filter (\<lambda>k. k \<noteq> cacheKey) keys
         in if nextIndexKeys = [] then (Inr (), cache_delete a indexKey s1)
            else (Inr (), cache_set a now indexKey (IndexRecord nextIndexKeys) None s1)))"

datatype lookup_result = Hit cached_credential | Miss | RefreshSkewExpired

definition getWithResult ::
  "'s cache_adapter \<Rightarrow> cache_config \<Rightarrow> int \<Rightarrow> credential_key_input \<Rightarrow> 's \<Rightarrow> (string + lookup_result) \<times> 's" where
  "getWithResult a c now i s =
     (let key = toCacheKey i in
      case cache_get a now key s of
        (None, s1) \<Rightarrow> (Inr Miss, s1)
      | (Some (IndexRecord _), s1) \<Rightarrow> (Inl schema_error, s1)
      | (Some (CredentialRecord credential expiresAtMs), s1) \<Rightarrow>
          if now \<ge> expiresAtMs - refreshSkewSeconds c * 1000
          then (case removeFromConnectionIndex a now i key (cache_delete a key s1) of
                  (Inl e, s2) \<Rightarrow> (Inl e, s2) | (Inr _, s2) \<Rightarrow> (Inr RefreshSkewExpired, s2))
          else (Inr (Hit credential), s1))"

definition credential_set ::
  "'s cache_adapter \<Rightarrow> cache_config \<Rightarrow> int \<Rightarrow> credential_key_input \<Rightarrow> cached_credential \<Rightarrow> 's \<Rightarrow> (string + unit) \<times> 's" where
  "credential_set a c now i credential s =
     (let key = toCacheKey i in
      case resolveExpiryMs c now credential of
        Inl e \<Rightarrow> (Inl e, s)
      | Inr expiresAtMs \<Rightarrow>
          if expiresAtMs \<le> now then removeFromConnectionIndex a now i key (cache_delete a key s)
          else addToConnectionIndex a now i key
                 (cache_set a now key (CredentialRecord credential expiresAtMs) (Some (expiresAtMs - now)) s))"

definition invalidateIntegrationConnection ::
  "'s cache_adapter \<Rightarrow> int \<Rightarrow> string option \<Rightarrow> string \<Rightarrow> 's \<Rightarrow> (string + nat) \<times> 's" where
  "invalidateIntegrationConnection a now env conn s =
     (let indexKey = toConnectionIndexKey env conn in
      case cache_get a now indexKey s of
        (None, s1) \<Rightarrow> (Inr 0, s1)
      | (Some (CredentialRecord _ _), s1) \<Rightarrow> (Inl schema_error, s1)
      | (Some (IndexRecord keys), s1) \<Rightarrow>
          let cacheKeys = remdups keys
          in (Inr (length cacheKeys), cache_delete a indexKey (fold (cache_delete a) cacheKeys s1)))"

section \<open>Keys tell inputs apart\<close>

definition plain :: "string \<Rightarrow> bool" where
  "plain s \<longleftrightarrow> CHR '':'' \<notin> set s"

definition plain_option :: "string option \<Rightarrow> bool" where
  "plain_option s \<longleftrightarrow> (case s of None \<Rightarrow> True | Some t \<Rightarrow> plain t \<and> t \<noteq> [])"

text \<open>Ids and names without a colon, optional ones not empty when given.\<close>

fun plain_input :: "credential_key_input \<Rightarrow> bool" where
  "plain_input (IntegrationConnection env b conn secretType slotKey resolverKey) \<longleftrightarrow>
     plain_option env \<and> plain b \<and> plain conn \<and> plain secretType \<and> plain_option slotKey \<and> plain_option resolverKey"
| "plain_input (LinkedPrincipal env b org providerFamily conn actingUserRequired actingUser kind) \<longleftrightarrow>
     plain_option env \<and> plain b \<and> plain org \<and> plain providerFamily \<and> plain_option conn \<and>
     plain_option actingUser \<and> plain_option kind"
| "plain_input (MistleMcpToken env b org sandbox apiKeyId) \<longleftrightarrow>
     plain_option env \<and> plain b \<and> plain org \<and> plain sandbox \<and> plain apiKeyId"
| "plain_input (MistleMcpSetupAssistantToken env b org sandbox profile version) \<longleftrightarrow>
     plain_option env \<and> plain b \<and> plain org \<and> plain sandbox \<and> plain profile"
| "plain_input (MistleMcpDesignerToken env b org sandbox session) \<longleftrightarrow>
     plain_option env \<and> plain b \<and> plain org \<and> plain sandbox \<and> plain session"
| "plain_input (PlatformOpenaiApiKey env b) \<longleftrightarrow> plain_option env \<and> plain b"
| "plain_input (PlatformLangfuseSecretKey env b) \<longleftrightarrow> plain_option env \<and> plain b"

lemma plain_or_empty: "plain_option s \<Longrightarrow> plain (or_empty s)"
  by (simp add: plain_option_def or_empty_def plain_def split: option.splits)

lemma or_empty_inj: "plain_option s \<Longrightarrow> plain_option t \<Longrightarrow> or_empty s = or_empty t \<longleftrightarrow> s = t"
  by (auto simp: plain_option_def or_empty_def split: option.splits)

lemma join_inj:
  assumes "\<forall>x\<in>set xs. c \<notin> set x" "\<forall>y\<in>set ys. c \<notin> set y" "xs \<noteq> []" "ys \<noteq> []"
    "js_join [c] xs = js_join [c] ys"
  shows "xs = ys"
  using assms
proof (induction "[c]" xs arbitrary: ys rule: js_join.induct)
  case (2 s)
  then show ?case by (cases "([c], ys)" rule: js_join.cases) auto
next
  case (3 s t ss)
  then obtain u v us where ys: "ys = u # v # us" by (cases "([c], ys)" rule: js_join.cases) auto
  then have "s @ c # js_join [c] (t # ss) = u @ c # js_join [c] (v # us)" using 3(6) by simp
  then have "s = u \<and> js_join [c] (t # ss) = js_join [c] (v # us)"
    using 3(2,3) ys first_separator_inj [of c s u] by auto
  moreover from this have "t # ss = v # us" using 3 ys by (intro 3(1)) auto
  ultimately show ?case using ys by simp
qed simp

lemma plain_literals:
  "plain ''integration_connection''" "plain ''linked_principal''" "plain ''mistle_mcp_token''"
  "plain ''mistle_mcp_setup_assistant_token''" "plain ''mistle_mcp_designer_token''"
  "plain ''platform_openai_api_key''" "plain ''platform_langfuse_secret_key''"
  "plain (string_of_bool b)" "plain (string_of_int n)"
  by (simp_all add: plain_def string_of_bool_def string_of_int_no_colon)

lemma plain_fields: "plain_input i \<Longrightarrow> \<forall>x\<in>set (key_fields i). plain x"
  by (cases i) (auto simp: plain_or_empty plain_literals)

lemma key_fields_inj:
  "plain_input i \<Longrightarrow> plain_input j \<Longrightarrow> key_fields i = key_fields j \<Longrightarrow> i = j"
  by (cases i; cases j) (auto simp: or_empty_inj string_of_int_inj string_of_bool_def split: if_splits)

lemma toCacheKey_inj:
  assumes "plain_input i" "plain_input j" "toCacheKey i = toCacheKey j"
  shows "i = j"
proof -
  have "key_fields x \<noteq> []" for x by (cases x) simp_all
  then have "key_fields i = key_fields j"
    using join_inj [of "key_fields i" "CHR '':''" "key_fields j"] plain_fields [OF assms(1)]
      plain_fields [OF assms(2)] assms(3) by (simp add: toCacheKey_def plain_def)
  then show ?thesis using assms key_fields_inj by blast
qed

lemma index_key_apart: "toConnectionIndexKey env conn \<noteq> toCacheKey i"
  by (simp add: toConnectionIndexKey_def toCacheKey_def)

lemma index_key_form:
  "toConnectionIndexKeyForCacheKey i = Some ik \<Longrightarrow> \<exists>env conn. ik = toConnectionIndexKey env conn"
  by (cases i) auto

section \<open>The abstract cache\<close>

text \<open>What the credential cache promises: a map of inputs to credentials with their expiry.\<close>

type_synonym credential_map = "credential_key_input \<Rightarrow> (cached_credential \<times> int) option"

definition spec_lookup :: "credential_map \<Rightarrow> int \<Rightarrow> credential_key_input \<Rightarrow> (cached_credential \<times> int) option" where
  "spec_lookup log now i = (case log i of None \<Rightarrow> None | Some (c, e) \<Rightarrow> if now < e then Some (c, e) else None)"

definition spec_get :: "cache_config \<Rightarrow> int \<Rightarrow> credential_key_input \<Rightarrow> credential_map \<Rightarrow> lookup_result \<times> credential_map" where
  "spec_get conf now i log = (case spec_lookup log now i of
     None \<Rightarrow> (Miss, log)
   | Some (c, e) \<Rightarrow> if e - refreshSkewSeconds conf * 1000 \<le> now then (RefreshSkewExpired, log (i := None))
       else (Hit c, log))"

definition spec_set ::
  "cache_config \<Rightarrow> int \<Rightarrow> credential_key_input \<Rightarrow> cached_credential \<Rightarrow> credential_map \<Rightarrow> (string + unit) \<times> credential_map" where
  "spec_set conf now i c log = (case resolveExpiryMs conf now c of
     Inl err \<Rightarrow> (Inl err, log)
   | Inr e \<Rightarrow> (Inr (), log (i := (if e \<le> now then None else Some (c, e)))))"

fun of_connection :: "string option \<Rightarrow> string \<Rightarrow> credential_key_input \<Rightarrow> bool" where
  "of_connection env conn (IntegrationConnection env' _ conn' _ _ _) \<longleftrightarrow> env' = env \<and> conn' = conn"
| "of_connection env conn _ \<longleftrightarrow> False"

definition spec_invalidate :: "string option \<Rightarrow> string \<Rightarrow> credential_map \<Rightarrow> credential_map" where
  "spec_invalidate env conn log = (\<lambda>i. if of_connection env conn i then None else log i)"

text \<open>Calls, each with the time it is made at, and what the caller sees of them.\<close>

datatype cache_call =
    GetCall credential_key_input
  | SetCall credential_key_input cached_credential
  | InvalidateCall "string option" string

datatype cache_answer = Looked lookup_result | Done | Threw string

fun plain_call :: "cache_call \<Rightarrow> bool" where
  "plain_call (GetCall i) \<longleftrightarrow> plain_input i"
| "plain_call (SetCall i c) \<longleftrightarrow> plain_input i"
| "plain_call (InvalidateCall env conn) \<longleftrightarrow> plain_option env \<and> plain conn"

definition answer :: "('a \<Rightarrow> cache_answer) \<Rightarrow> string + 'a \<Rightarrow> cache_answer" where
  "answer f r = (case r of Inl e \<Rightarrow> Threw e | Inr x \<Rightarrow> f x)"

fun cache_call_step ::
  "'s cache_adapter \<Rightarrow> cache_config \<Rightarrow> int \<Rightarrow> cache_call \<Rightarrow> 's \<Rightarrow> cache_answer \<times> 's" where
  "cache_call_step a conf now (GetCall i) s = apfst (answer Looked) (getWithResult a conf now i s)"
| "cache_call_step a conf now (SetCall i c) s = apfst (answer (\<lambda>_. Done)) (credential_set a conf now i c s)"
| "cache_call_step a conf now (InvalidateCall env conn) s =
     apfst (answer (\<lambda>_. Done)) (invalidateIntegrationConnection a now env conn s)"

fun spec_call_step :: "cache_config \<Rightarrow> int \<Rightarrow> cache_call \<Rightarrow> credential_map \<Rightarrow> cache_answer \<times> credential_map" where
  "spec_call_step conf now (GetCall i) log = apfst Looked (spec_get conf now i log)"
| "spec_call_step conf now (SetCall i c) log = apfst (answer (\<lambda>_. Done)) (spec_set conf now i c log)"
| "spec_call_step conf now (InvalidateCall env conn) log = (Done, spec_invalidate env conn log)"

fun cache_answers :: "'s cache_adapter \<Rightarrow> cache_config \<Rightarrow> (int \<times> cache_call) list \<Rightarrow> 's \<Rightarrow> cache_answer list" where
  "cache_answers a conf [] s = []"
| "cache_answers a conf ((now, call) # calls) s =
     (case cache_call_step a conf now call s of (r, s') \<Rightarrow> r # cache_answers a conf calls s')"

fun spec_answers :: "cache_config \<Rightarrow> (int \<times> cache_call) list \<Rightarrow> credential_map \<Rightarrow> cache_answer list" where
  "spec_answers conf [] log = []"
| "spec_answers conf ((now, call) # calls) log =
     (case spec_call_step conf now call log of (r, log') \<Rightarrow> r # spec_answers conf calls log')"

lemma toConnectionIndexKey_inj:
  assumes "plain_option env" "plain conn" "plain_option env'" "plain conn'"
    "toConnectionIndexKey env conn = toConnectionIndexKey env' conn'"
  shows "env = env' \<and> conn = conn'"
proof -
  have "[or_empty env, ''integration_connection'', conn] = [or_empty env', ''integration_connection'', conn']"
    by (rule join_inj [of _ "CHR '':''"])
      (use assms plain_literals(1) plain_or_empty in \<open>auto simp: plain_def toConnectionIndexKey_def\<close>)
  then show ?thesis using or_empty_inj [OF assms(1,3)] by simp
qed

lemma index_key_of_connection:
  assumes "plain_option env" "plain conn" "plain_input i"
  shows "toConnectionIndexKeyForCacheKey i = Some (toConnectionIndexKey env conn) \<longleftrightarrow> of_connection env conn i"
  using assms toConnectionIndexKey_inj [OF assms(1,2)] by (cases i) (simp_all, metis)

section \<open>What is cached stays reachable by its connection\<close>

text \<open>The keys an index may list: those of the connection's credentials.\<close>

definition listable :: "string \<Rightarrow> string set" where
  "listable ik = toCacheKey ` {i. plain_input i \<and> toConnectionIndexKeyForCacheKey i = Some ik}"

context cache_laws
begin

text \<open>
  At a time and from then on: an index does not expire and lists cache keys of its connection only; a cached
  credential of a plain input is listed by the index of its connection, but for the keys in \<open>X\<close>,
  which are not listed yet.
\<close>

definition indexed :: "string set \<Rightarrow> int \<Rightarrow> 's \<Rightarrow> bool" where
  "indexed X now s \<longleftrightarrow>
     (\<forall>env conn t. now \<le> t \<longrightarrow> cached a t (toConnectionIndexKey env conn) s = cached a now (toConnectionIndexKey env conn) s) \<and>
     (\<forall>env conn v. cached a now (toConnectionIndexKey env conn) s = Some v \<longrightarrow>
        (\<exists>keys. v = IndexRecord keys \<and> set keys \<subseteq> listable (toConnectionIndexKey env conn))) \<and>
     (\<forall>i v. plain_input i \<longrightarrow> cached a now (toCacheKey i) s = Some v \<longrightarrow>
        (\<exists>c e. v = CredentialRecord c e) \<and>
        (\<forall>ik. toConnectionIndexKeyForCacheKey i = Some ik \<longrightarrow> toCacheKey i \<notin> X \<longrightarrow>
           (\<exists>keys. cached a now ik s = Some (IndexRecord keys) \<and> toCacheKey i \<in> set keys)))"

lemma indexedD:
  assumes "indexed X now s"
  shows "now \<le> t \<Longrightarrow> cached a t (toConnectionIndexKey env conn) s = cached a now (toConnectionIndexKey env conn) s"
    "cached a now (toConnectionIndexKey env conn) s = Some v \<Longrightarrow> \<exists>keys. v = IndexRecord keys \<and> set keys \<subseteq> listable (toConnectionIndexKey env conn)"
    "plain_input i \<Longrightarrow> cached a now (toCacheKey i) s = Some v \<Longrightarrow> \<exists>c e. v = CredentialRecord c e"
    "plain_input i \<Longrightarrow> cached a now (toCacheKey i) s = Some v \<Longrightarrow> toConnectionIndexKeyForCacheKey i = Some ik \<Longrightarrow>
       toCacheKey i \<notin> X \<Longrightarrow> \<exists>keys. cached a now ik s = Some (IndexRecord keys) \<and> toCacheKey i \<in> set keys"
  using assms unfolding indexed_def by blast+

lemma indexedI:
  assumes "\<And>env conn t. now \<le> t \<Longrightarrow> cached a t (toConnectionIndexKey env conn) s = cached a now (toConnectionIndexKey env conn) s"
    "\<And>env conn v. cached a now (toConnectionIndexKey env conn) s = Some v \<Longrightarrow> \<exists>keys. v = IndexRecord keys \<and> set keys \<subseteq> listable (toConnectionIndexKey env conn)"
    "\<And>i v. plain_input i \<Longrightarrow> cached a now (toCacheKey i) s = Some v \<Longrightarrow> \<exists>c e. v = CredentialRecord c e"
    "\<And>i v env conn. plain_input i \<Longrightarrow> cached a now (toCacheKey i) s = Some v \<Longrightarrow>
       toConnectionIndexKeyForCacheKey i = Some (toConnectionIndexKey env conn) \<Longrightarrow> toCacheKey i \<notin> X \<Longrightarrow>
       \<exists>keys. cached a now (toConnectionIndexKey env conn) s = Some (IndexRecord keys) \<and> toCacheKey i \<in> set keys"
  shows "indexed X now s"
  using assms index_key_form unfolding indexed_def by metis

lemma indexed_later:
  assumes "indexed X now s" "now \<le> t"
  shows "indexed X t s"
proof (rule indexedI)
  note P = indexedD(1) [OF assms(1)]
  show "t \<le> u \<Longrightarrow> cached a u (toConnectionIndexKey env conn) s = cached a t (toConnectionIndexKey env conn) s" for env conn u
    using P [of t env conn] P [of u env conn] assms(2) by simp
  show "cached a t (toConnectionIndexKey env conn) s = Some v \<Longrightarrow> \<exists>keys. v = IndexRecord keys \<and> set keys \<subseteq> listable (toConnectionIndexKey env conn)" for env conn v
    using P [of t env conn] assms indexedD(2) by simp
  fix i v assume i: "plain_input i" "cached a t (toCacheKey i) s = Some v"
  then have now: "cached a now (toCacheKey i) s = Some v" using stays assms(2) by blast
  then show "\<exists>c e. v = CredentialRecord c e" using indexedD(3) [OF assms(1) i(1)] by blast
  show "\<exists>keys. cached a t (toConnectionIndexKey env conn) s = Some (IndexRecord keys) \<and> toCacheKey i \<in> set keys"
    if "toConnectionIndexKeyForCacheKey i = Some (toConnectionIndexKey env conn)" "toCacheKey i \<notin> X" for env conn
    using indexedD(4) [OF assms(1) i(1) now that] indexedD(1) [OF assms(1,2), of env conn] by simp
qed

text \<open>States that read the same from a time on are equally indexed.\<close>

lemma indexed_cong:
  assumes "indexed X now s" "\<And>t k. now \<le> t \<Longrightarrow> cached a t k s' = cached a t k s"
  shows "indexed X now s'"
proof (rule indexedI)
  note [simp] = assms(2)
  show "now \<le> t \<Longrightarrow> cached a t (toConnectionIndexKey env conn) s' = cached a now (toConnectionIndexKey env conn) s'" for env conn t
    using indexedD(1) [OF assms(1), of t env conn] by simp
qed (use indexedD(2-4) [OF assms(1)] assms(2) in auto)

lemma indexed_get: "indexed X now s \<Longrightarrow> indexed X now (snd (cache_get a now k s))"
  by (rule indexed_cong) (simp_all add: after_get)

lemma indexed_delete_key:
  assumes "indexed X now s"
  shows "indexed X now (cache_delete a (toCacheKey i) s)"
proof (rule indexedI)
  note [simp] = after_delete index_key_apart index_key_apart [THEN not_sym]
  show "now \<le> t \<Longrightarrow> cached a t (toConnectionIndexKey env conn) (cache_delete a (toCacheKey i) s) =
      cached a now (toConnectionIndexKey env conn) (cache_delete a (toCacheKey i) s)" for env conn t
    using indexedD(1) [OF assms, of t env conn] by simp
  show "cached a now (toConnectionIndexKey env conn) (cache_delete a (toCacheKey i) s) = Some v \<Longrightarrow>
      \<exists>keys. v = IndexRecord keys \<and> set keys \<subseteq> listable (toConnectionIndexKey env conn)" for env conn v
    using indexedD(2) [OF assms] by simp
  fix j v assume j: "plain_input j" "cached a now (toCacheKey j) (cache_delete a (toCacheKey i) s) = Some v"
  then have c: "cached a now (toCacheKey j) s = Some v" by (simp split: if_splits)
  then show "\<exists>c e. v = CredentialRecord c e" by (rule indexedD(3) [OF assms j(1)])
  show "\<exists>keys. cached a now (toConnectionIndexKey env conn) (cache_delete a (toCacheKey i) s) = Some (IndexRecord keys) \<and>
      toCacheKey j \<in> set keys" if "toConnectionIndexKeyForCacheKey j = Some (toConnectionIndexKey env conn)" "toCacheKey j \<notin> X" for env conn
    using indexedD(4) [OF assms j(1) c that] by simp
qed

lemma indexed_fold_delete:
  "indexed X now s \<Longrightarrow> set keys \<subseteq> range toCacheKey \<Longrightarrow> indexed X now (fold (cache_delete a) keys s)"
  by (induction keys arbitrary: s) (auto intro: indexed_delete_key)

lemma cached_fold_delete:
  "cached a t k (fold (cache_delete a) keys s) = (if k \<in> set keys then None else cached a t k s)"
  by (induction keys arbitrary: s) (auto simp: after_delete)

text \<open>
  Writing an index: every cached credential of the connection, but for the one whose key is given
  up, has to be among the keys written.
\<close>

lemma indexed_write:
  assumes "indexed X now s" "set keys \<subseteq> listable ik"
    "\<And>j v. plain_input j \<Longrightarrow> cached a now (toCacheKey j) s = Some v \<Longrightarrow>
       toConnectionIndexKeyForCacheKey j = Some ik \<Longrightarrow> toCacheKey j \<in> set keys"
    "ik = toConnectionIndexKey env conn"
  shows "indexed X now (cache_set a now ik (IndexRecord keys) None s)"
proof (rule indexedI)
  note [simp] = after_set index_key_apart index_key_apart [THEN not_sym] assms(4)
  let ?s = "cache_set a now ik (IndexRecord keys) None s"
  show "now \<le> t \<Longrightarrow> cached a t (toConnectionIndexKey e c) ?s = cached a now (toConnectionIndexKey e c) ?s" for e c t
    using indexedD(1) [OF assms(1), of t e c] by simp
  show "cached a now (toConnectionIndexKey e c) ?s = Some v \<Longrightarrow>
      \<exists>keys. v = IndexRecord keys \<and> set keys \<subseteq> listable (toConnectionIndexKey e c)" for e c v
    using indexedD(2) [OF assms(1)] assms(2) by (auto split: if_splits)
  fix j v assume j: "plain_input j" "cached a now (toCacheKey j) ?s = Some v"
  then have c: "cached a now (toCacheKey j) s = Some v" by simp
  then show "\<exists>c e. v = CredentialRecord c e" by (rule indexedD(3) [OF assms(1) j(1)])
  show "\<exists>keys. cached a now (toConnectionIndexKey e d) ?s = Some (IndexRecord keys) \<and> toCacheKey j \<in> set keys"
    if "toConnectionIndexKeyForCacheKey j = Some (toConnectionIndexKey e d)" "toCacheKey j \<notin> X" for e d
    using indexedD(4) [OF assms(1) j(1) c that] assms(3) [OF j(1) c] that by auto
qed

lemma indexed_delete_index:
  assumes "indexed X now s" "\<And>j v. plain_input j \<Longrightarrow> cached a now (toCacheKey j) s = Some v \<Longrightarrow>
       toConnectionIndexKeyForCacheKey j \<noteq> Some (toConnectionIndexKey env conn)"
  shows "indexed X now (cache_delete a (toConnectionIndexKey env conn) s)"
proof (rule indexedI)
  note [simp] = after_delete index_key_apart index_key_apart [THEN not_sym]
  let ?s = "cache_delete a (toConnectionIndexKey env conn) s"
  show "now \<le> t \<Longrightarrow> cached a t (toConnectionIndexKey e c) ?s = cached a now (toConnectionIndexKey e c) ?s" for e c t
    using indexedD(1) [OF assms(1), of t e c] by simp
  show "cached a now (toConnectionIndexKey e c) ?s = Some v \<Longrightarrow>
      \<exists>keys. v = IndexRecord keys \<and> set keys \<subseteq> listable (toConnectionIndexKey e c)" for e c v
    using indexedD(2) [OF assms(1)] by (simp split: if_splits)
  fix j v assume j: "plain_input j" "cached a now (toCacheKey j) ?s = Some v"
  then have c: "cached a now (toCacheKey j) s = Some v" by simp
  then show "\<exists>c e. v = CredentialRecord c e" by (rule indexedD(3) [OF assms(1) j(1)])
  show "\<exists>keys. cached a now (toConnectionIndexKey e d) ?s = Some (IndexRecord keys) \<and> toCacheKey j \<in> set keys"
    if "toConnectionIndexKeyForCacheKey j = Some (toConnectionIndexKey e d)" "toCacheKey j \<notin> X" for e d
    using indexedD(4) [OF assms(1) j(1) c that] assms(2) [OF j(1) c] that by auto
qed

lemma indexed_set_key:
  assumes "indexed {} now s"
  shows "indexed {toCacheKey i} now (cache_set a now (toCacheKey i) (CredentialRecord c e) ttl s)"
proof (rule indexedI)
  note [simp] = after_set index_key_apart index_key_apart [THEN not_sym]
  let ?s = "cache_set a now (toCacheKey i) (CredentialRecord c e) ttl s"
  show "now \<le> t \<Longrightarrow> cached a t (toConnectionIndexKey f d) ?s = cached a now (toConnectionIndexKey f d) ?s" for f d t
    using indexedD(1) [OF assms(1), of t f d] by simp
  show "cached a now (toConnectionIndexKey f d) ?s = Some v \<Longrightarrow>
      \<exists>keys. v = IndexRecord keys \<and> set keys \<subseteq> listable (toConnectionIndexKey f d)" for f d v
    using indexedD(2) [OF assms(1)] by simp
  fix j v assume j: "plain_input j" "cached a now (toCacheKey j) ?s = Some v"
  then show "\<exists>c e. v = CredentialRecord c e"
    using indexedD(3) [OF assms j(1), of v] by (auto split: if_splits option.splits)
  show "\<exists>keys. cached a now (toConnectionIndexKey f d) ?s = Some (IndexRecord keys) \<and> toCacheKey j \<in> set keys"
    if "toConnectionIndexKeyForCacheKey j = Some (toConnectionIndexKey f d)" "toCacheKey j \<notin> {toCacheKey i}" for f d
    using indexedD(4) [OF assms j(1) _ that(1)] j(2) that(2) by simp
qed

lemma indexed_listed:
  assumes "indexed X now s"
    "\<And>j v env conn. plain_input j \<Longrightarrow> toCacheKey j \<in> X \<Longrightarrow> cached a now (toCacheKey j) s = Some v \<Longrightarrow>
       toConnectionIndexKeyForCacheKey j = Some (toConnectionIndexKey env conn) \<Longrightarrow>
       \<exists>keys. cached a now (toConnectionIndexKey env conn) s = Some (IndexRecord keys) \<and> toCacheKey j \<in> set keys"
  shows "indexed {} now s"
proof (rule indexedI)
  show "now \<le> t \<Longrightarrow> cached a t (toConnectionIndexKey f d) s = cached a now (toConnectionIndexKey f d) s" for f d t
    using indexedD(1) [OF assms(1)] by blast
next
  show "\<exists>keys. cached a now (toConnectionIndexKey f d) s = Some (IndexRecord keys) \<and> toCacheKey j \<in> set keys"
    if "plain_input j" "cached a now (toCacheKey j) s = Some v" "toConnectionIndexKeyForCacheKey j = Some (toConnectionIndexKey f d)"
    for j v f d
    using indexedD(4) [OF assms(1) that] assms(2) [OF that(1) _ that(2,3)] by blast
qed (use indexedD(2,3) [OF assms(1)] in auto)

lemma get_values:
  assumes "cache_get a now k s = (v, s1)"
  shows "v = cached a now k s" "now \<le> t \<Longrightarrow> cached a t x s1 = cached a t x s"
  using assms after_get [of now t x k s] by (simp_all add: cached_def)

lemma remove_ok:
  assumes ok: "indexed {} now s" and gone: "cached a now (toCacheKey i) s = None"
  shows "indexed {} now (snd (removeFromConnectionIndex a now i (toCacheKey i) s))"
    "now \<le> t \<Longrightarrow> cached a t (toCacheKey j) (snd (removeFromConnectionIndex a now i (toCacheKey i) s)) =
       cached a t (toCacheKey j) s"
proof -
  obtain env conn where ik: "toConnectionIndexKeyForCacheKey i = None \<or>
      toConnectionIndexKeyForCacheKey i = Some (toConnectionIndexKey env conn)"
    using index_key_form [of i] by (cases "toConnectionIndexKeyForCacheKey i") auto
  let ?ik = "toConnectionIndexKey env conn"
  obtain v s1 where g: "cache_get a now ?ik s = (v, s1)" by fastforce
  note vals = get_values [OF g]
  have s1: "indexed {} now s1" by (rule indexed_cong [OF ok]) (simp add: vals)
  have key: "now \<le> u \<Longrightarrow> cached a u (toCacheKey j) s1 = cached a u (toCacheKey j) s" for u j by (simp add: vals)
  have listed: "toCacheKey j \<in> set (filter (\<lambda>k. k \<noteq> toCacheKey i) keys)"
    if "plain_input j" "cached a now (toCacheKey j) s1 = Some w" "toConnectionIndexKeyForCacheKey j = Some ?ik"
      "v = Some (IndexRecord keys)" for j w keys
    using indexedD(4) [OF s1 that(1,2,3)] that(2,4) gone vals by auto
  have range: "set (filter P keys) \<subseteq> listable ?ik" if "v = Some (IndexRecord keys)" for keys P
    using indexedD(2) [OF ok, of env conn] that vals(1) by auto
  note [simp] = removeFromConnectionIndex_def after_set after_delete index_key_apart index_key_apart [THEN not_sym]
  show "indexed {} now (snd (removeFromConnectionIndex a now i (toCacheKey i) s))"
  proof (cases "toConnectionIndexKeyForCacheKey i = None \<or> \<not> (\<exists>keys. v = Some (IndexRecord keys))")
    case True
    then show ?thesis using ik g ok s1 by (auto split: option.splits cache_value.splits)
  next
    case False
    then obtain keys where idx: "toConnectionIndexKeyForCacheKey i = Some ?ik" "v = Some (IndexRecord keys)"
      using ik by (elim disjE) auto
    have "indexed {} now (cache_delete a ?ik s1)" if "filter (\<lambda>k. k \<noteq> toCacheKey i) keys = []"
      by (rule indexed_delete_index [OF s1]) (use listed [OF _ _ _ idx(2)] that in auto)
    moreover have "indexed {} now (cache_set a now ?ik (IndexRecord (filter (\<lambda>k. k \<noteq> toCacheKey i) keys)) None s1)"
      by (rule indexed_write [OF s1 range [OF idx(2)] _ refl]) (rule listed [OF _ _ _ idx(2)])
    ultimately show ?thesis using idx g by (simp add: Let_def)
  qed
  show "now \<le> t \<Longrightarrow> cached a t (toCacheKey j) (snd (removeFromConnectionIndex a now i (toCacheKey i) s)) =
       cached a t (toCacheKey j) s"
    using ik g key by (auto simp: Let_def split: option.splits cache_value.splits)
qed

lemma add_ok:
  assumes ok: "indexed {toCacheKey i} now s" and i: "plain_input i"
  shows "indexed {} now (snd (addToConnectionIndex a now i (toCacheKey i) s))"
    "now \<le> t \<Longrightarrow> cached a t (toCacheKey j) (snd (addToConnectionIndex a now i (toCacheKey i) s)) =
       cached a t (toCacheKey j) s"
proof -
  obtain env conn where ik: "toConnectionIndexKeyForCacheKey i = None \<or>
      toConnectionIndexKeyForCacheKey i = Some (toConnectionIndexKey env conn)"
    using index_key_form [of i] by (cases "toConnectionIndexKeyForCacheKey i") auto
  let ?ik = "toConnectionIndexKey env conn"
  obtain v s1 where g: "cache_get a now ?ik s = (v, s1)" by fastforce
  note vals = get_values [OF g]
  have s1: "indexed {toCacheKey i} now s1" by (rule indexed_cong [OF ok]) (simp add: vals)
  note [simp] = after_set after_delete index_key_apart index_key_apart [THEN not_sym]
  show "now \<le> t \<Longrightarrow> cached a t (toCacheKey j) (snd (addToConnectionIndex a now i (toCacheKey i) s)) =
       cached a t (toCacheKey j) s"
    using ik g vals by (auto simp: addToConnectionIndex_def index_after_add_def write_index_def
        split: option.splits cache_value.splits)
  have same: "toCacheKey j = toCacheKey i \<Longrightarrow> plain_input j \<Longrightarrow> j = i" for j using toCacheKey_inj i by blast
  show "indexed {} now (snd (addToConnectionIndex a now i (toCacheKey i) s))"
  proof (cases "toConnectionIndexKeyForCacheKey i = None")
    case True
    then have "indexed {} now s" by (intro indexed_listed [OF ok]) (auto dest: same)
    then show ?thesis using True by (simp add: addToConnectionIndex_def)
  next
    case False
    then have idx: "toConnectionIndexKeyForCacheKey i = Some ?ik" using ik by (elim disjE) auto
    consider (new) "v = None" | (old) keys where "v = Some (IndexRecord keys)"
      using indexedD(2) [OF ok, of env conn] vals(1) by (cases v) auto
    then show ?thesis
    proof cases
      case new
      have none: "toCacheKey j = toCacheKey i" if "plain_input j" "cached a now (toCacheKey j) s1 = Some w"
          "toConnectionIndexKeyForCacheKey j = Some ?ik" for j w
        using indexedD(4) [OF s1 that] new vals by auto
      have "indexed {toCacheKey i} now (cache_set a now ?ik (IndexRecord [toCacheKey i]) None s1)"
        by (rule indexed_write [OF s1 _ _ refl]) (use none i idx in \<open>auto simp: listable_def\<close>)
      then have "indexed {} now (cache_set a now ?ik (IndexRecord [toCacheKey i]) None s1)"
        by (rule indexed_listed) (use idx in \<open>auto dest!: same\<close>)
      then show ?thesis using new idx g
        by (simp add: addToConnectionIndex_def index_after_add_def write_index_def)
    next
      case old
      let ?keys = "if toCacheKey i \<in> set keys then keys else sort (keys @ [toCacheKey i])"
      have in_keys: "toCacheKey j \<in> set ?keys" if "plain_input j" "cached a now (toCacheKey j) s1 = Some w"
          "toConnectionIndexKeyForCacheKey j = Some ?ik" for j w
        using indexedD(4) [OF s1 that] old vals by (cases "toCacheKey j = toCacheKey i") auto
      have range: "set ?keys \<subseteq> listable ?ik"
        using indexedD(2) [OF ok, of env conn] old vals(1) i idx by (auto simp: listable_def)
      show ?thesis
      proof (cases "toCacheKey i \<in> set keys")
        case True
        have "indexed {} now s1"
          by (rule indexed_listed [OF s1]) (use True old idx vals in \<open>auto dest!: same\<close>)
        then show ?thesis using True old idx g
          by (simp add: addToConnectionIndex_def index_after_add_def write_index_def)
      next
        case False
        have "indexed {toCacheKey i} now (cache_set a now ?ik (IndexRecord ?keys) None s1)"
          by (rule indexed_write [OF s1 range _ refl]) (rule in_keys)
        then have "indexed {} now (cache_set a now ?ik (IndexRecord ?keys) None s1)"
          by (rule indexed_listed) (use idx False in \<open>auto dest!: same\<close>)
        then show ?thesis using False old idx g
          by (simp add: addToConnectionIndex_def index_after_add_def write_index_def)
      qed
    qed
  qed
qed

text \<open>The state holds what the abstract map holds, from now on.\<close>

definition represents :: "int \<Rightarrow> credential_map \<Rightarrow> 's \<Rightarrow> bool" where
  "represents now log s \<longleftrightarrow> indexed {} now s \<and>
     (\<forall>i t. plain_input i \<longrightarrow> now \<le> t \<longrightarrow>
        cached a t (toCacheKey i) s = map_option (\<lambda>(c, e). CredentialRecord c e) (spec_lookup log t i))"

lemma representsD:
  assumes "represents now log s"
  shows "indexed {} now s"
    "plain_input i \<Longrightarrow> now \<le> t \<Longrightarrow>
       cached a t (toCacheKey i) s = map_option (\<lambda>(c, e). CredentialRecord c e) (spec_lookup log t i)"
  using assms unfolding represents_def by blast+

lemma represents_later: "represents now log s \<Longrightarrow> now \<le> t \<Longrightarrow> represents t log s"
  unfolding represents_def using indexed_later by (meson order_trans)

lemma represents_cong:
  assumes "represents now log s" "indexed {} now s'"
    "\<And>t i. now \<le> t \<Longrightarrow> cached a t (toCacheKey i) s' = cached a t (toCacheKey i) s"
  shows "represents now log s'"
  using assms unfolding represents_def by simp

lemma represents_delete:
  assumes "represents now log s" "plain_input i"
  shows "represents now (log (i := None)) (cache_delete a (toCacheKey i) s)"
  using assms toCacheKey_inj [of _ i] unfolding represents_def
  by (auto simp: after_delete spec_lookup_def intro: indexed_delete_key)

lemma remove_represents:
  assumes "represents now log s" "plain_input i"
  shows "represents now (log (i := None))
    (snd (removeFromConnectionIndex a now i (toCacheKey i) (cache_delete a (toCacheKey i) s)))"
proof -
  have ok: "represents now (log (i := None)) (cache_delete a (toCacheKey i) s)"
    by (rule represents_delete [OF assms])
  show ?thesis
    by (rule represents_cong [OF ok])
      (simp_all add: remove_ok [OF representsD(1) [OF ok]] after_delete)
qed

lemma set_represents:
  assumes "represents now log s" "plain_input i" "now < e"
  shows "represents now (log (i := Some (c, e))) (snd (addToConnectionIndex a now i (toCacheKey i)
    (cache_set a now (toCacheKey i) (CredentialRecord c e) (Some (e - now)) s)))"
proof -
  let ?log = "log (i := Some (c, e))"
  let ?s = "cache_set a now (toCacheKey i) (CredentialRecord c e) (Some (e - now)) s"
  have idx: "indexed {toCacheKey i} now ?s" by (rule indexed_set_key [OF representsD(1) [OF assms(1)]])
  have "cached a t (toCacheKey j) ?s = map_option (\<lambda>(c, e). CredentialRecord c e) (spec_lookup ?log t j)"
    if "plain_input j" "now \<le> t" for j t
    using representsD(2) [OF assms(1) that] toCacheKey_inj [OF that(1) assms(2)] that
    by (auto simp: after_set spec_lookup_def)
  then show ?thesis using add_ok [OF idx assms(2)] unfolding represents_def by simp
qed

lemma no_index_error:
  assumes "indexed X now s"
  shows "fst (removeFromConnectionIndex a now i k s) = Inr ()" "fst (addToConnectionIndex a now i k s) = Inr ()"
proof -
  have ik: "\<exists>env conn. ik = toConnectionIndexKey env conn" if "toConnectionIndexKeyForCacheKey i = Some ik" for ik
    using index_key_form that by blast
  have *: "fst (cache_get a now ik s) \<noteq> Some (CredentialRecord c e)"
    if "toConnectionIndexKeyForCacheKey i = Some ik" for ik c e
    using indexedD(2) [OF assms] ik [OF that] by (auto simp: cached_def)
  show "fst (removeFromConnectionIndex a now i k s) = Inr ()"
    using * unfolding removeFromConnectionIndex_def
    by (fastforce simp: Let_def split: option.splits prod.splits cache_value.splits)
  show "fst (addToConnectionIndex a now i k s) = Inr ()"
    using * unfolding addToConnectionIndex_def index_after_add_def write_index_def
    by (fastforce split: option.splits prod.splits cache_value.splits sum.splits)
qed

lemma get_refines:
  assumes "represents now log s" "plain_input i"
  shows "fst (getWithResult a conf now i s) = Inr (fst (spec_get conf now i log)) \<and>
    represents now (snd (spec_get conf now i log)) (snd (getWithResult a conf now i s))"
proof -
  obtain v s1 where g: "cache_get a now (toCacheKey i) s = (v, s1)" by fastforce
  note vals = get_values [OF g]
  have v: "v = map_option (\<lambda>(c, e). CredentialRecord c e) (spec_lookup log now i)"
    using representsD(2) [OF assms, of now] vals(1) by simp
  have s1: "represents now log s1"
    by (rule represents_cong [OF assms(1)]) (use indexed_get [OF representsD(1) [OF assms(1)]] g vals in \<open>auto simp: prod_eq_iff\<close>)
  note rm = remove_represents [OF s1 assms(2)]
  have fine: "fst (removeFromConnectionIndex a now i k (cache_delete a (toCacheKey i) s1)) = Inr ()" for k
    by (rule no_index_error) (rule representsD(1) [OF represents_delete [OF s1 assms(2)]])
  show ?thesis
  proof (cases "spec_lookup log now i")
    case None
    then show ?thesis using g v s1 by (simp add: getWithResult_def spec_get_def)
  next
    case (Some ce)
    obtain c e where "ce = (c, e)" by fastforce
    then show ?thesis using g v s1 Some rm fine [of "toCacheKey i"]
      by (cases "removeFromConnectionIndex a now i (toCacheKey i) (cache_delete a (toCacheKey i) s1)")
        (auto simp: getWithResult_def spec_get_def)
  qed
qed

lemma set_refines:
  assumes "represents now log s" "plain_input i"
  shows "fst (credential_set a conf now i c s) = fst (spec_set conf now i c log) \<and>
    represents now (snd (spec_set conf now i c log)) (snd (credential_set a conf now i c s))"
proof (cases "resolveExpiryMs conf now c")
  case (Inl err)
  then show ?thesis using assms by (simp add: credential_set_def spec_set_def)
next
  case (Inr e)
  have "fst (removeFromConnectionIndex a now i k (cache_delete a (toCacheKey i) s)) = Inr ()" for k
    by (rule no_index_error) (rule representsD(1) [OF represents_delete [OF assms]])
  moreover have "fst (addToConnectionIndex a now i k
      (cache_set a now (toCacheKey i) (CredentialRecord c e) ttl s)) = Inr ()" for k ttl
    by (rule no_index_error) (rule indexed_set_key [OF representsD(1) [OF assms(1)]])
  ultimately show ?thesis using Inr remove_represents [OF assms] set_represents [OF assms, of e c]
    by (cases "e \<le> now") (simp_all add: credential_set_def spec_set_def Let_def)
qed

lemma invalidate_refines:
  assumes "represents now log s" "plain_option env" "plain conn"
  shows "(\<exists>n. fst (invalidateIntegrationConnection a now env conn s) = Inr n) \<and>
    represents now (spec_invalidate env conn log) (snd (invalidateIntegrationConnection a now env conn s))"
proof -
  let ?ik = "toConnectionIndexKey env conn"
  obtain v s1 where g: "cache_get a now ?ik s = (v, s1)" by fastforce
  note vals = get_values [OF g]
  have s1: "represents now log s1"
    by (rule represents_cong [OF assms(1)]) (use indexed_get [OF representsD(1) [OF assms(1)]] g vals in \<open>auto simp: prod_eq_iff\<close>)
  note ok = representsD(1) [OF s1]
  have absent: "cached a t (toCacheKey i) s1 = None"
    if "plain_input i" "of_connection env conn i" "now \<le> t" "\<And>keys. v = Some (IndexRecord keys) \<Longrightarrow> toCacheKey i \<notin> set keys" for i t
  proof (rule ccontr)
    note earlier = stays [OF that(3)]
    assume "cached a t (toCacheKey i) s1 \<noteq> None"
    then obtain w where "cached a now (toCacheKey i) s1 = Some w" using earlier by blast
    then have "\<exists>keys. cached a now ?ik s1 = Some (IndexRecord keys) \<and> toCacheKey i \<in> set keys"
      using indexedD(4) [OF ok that(1)] index_key_of_connection [OF assms(2,3) that(1)] that(2) by simp
    then show False using that(4) vals by auto
  qed
  have spared: "toCacheKey i \<notin> set keys" if "plain_input i" "\<not> of_connection env conn i" "v = Some (IndexRecord keys)" for i keys
  proof
    assume "toCacheKey i \<in> set keys"
    then have "toCacheKey i \<in> listable ?ik"
      using indexedD(2) [OF ok, of env conn "IndexRecord keys"] that(3) vals by auto
    then show False
      using toCacheKey_inj [OF that(1)] index_key_of_connection [OF assms(2,3) that(1)] that(2)
      by (auto simp: listable_def)
  qed
  show ?thesis
  proof (cases "\<exists>keys. v = Some (IndexRecord keys)")
    case False
    then have "cached a now ?ik s1 \<noteq> Some w" for w
      using indexedD(2) [OF ok, of env conn w] vals by auto
    then have "v = None" using vals by (cases v) auto
    then show ?thesis using g s1 absent representsD(2) [OF s1]
      by (auto simp: invalidateIntegrationConnection_def represents_def spec_invalidate_def spec_lookup_def)
  next
    case True
    then obtain keys where v: "v = Some (IndexRecord keys)" by blast
    let ?s = "cache_delete a ?ik (fold (cache_delete a) (remdups keys) s1)"
    have val: "cached a t (toCacheKey i) ?s = (if toCacheKey i \<in> set keys then None else cached a t (toCacheKey i) s1)" for t i
      by (simp add: after_delete cached_fold_delete index_key_apart [THEN not_sym] index_key_apart)
    have gone: "toConnectionIndexKeyForCacheKey j \<noteq> Some ?ik"
      if "plain_input j" "cached a now (toCacheKey j) (fold (cache_delete a) (remdups keys) s1) = Some w" for j w
      using absent [OF that(1) _ order_refl] that v index_key_of_connection [OF assms(2,3) that(1)]
      by (auto simp: cached_fold_delete split: if_splits)
    have "indexed {} now (fold (cache_delete a) (remdups keys) s1)"
      by (rule indexed_fold_delete [OF ok])
        (use indexedD(2) [OF ok, of env conn] v vals in \<open>auto simp: listable_def\<close>)
    then have "indexed {} now ?s"
      by (rule indexed_delete_index) (rule gone)
    moreover have "cached a t (toCacheKey i) ?s =
        map_option (\<lambda>(c, e). CredentialRecord c e) (spec_lookup (spec_invalidate env conn log) t i)"
      if "plain_input i" "now \<le> t" for i t
      using absent [OF that(1) _ that(2)] spared [OF that(1) _ v] representsD(2) [OF s1 that] v
      by (simp add: val spec_invalidate_def spec_lookup_def)
    ultimately show ?thesis using g v by (simp add: invalidateIntegrationConnection_def represents_def Let_def)
  qed
qed

theorem answers_refine:
  assumes "represents now log s" "sorted (now # map fst calls)" "\<forall>x\<in>set calls. plain_call (snd x)"
  shows "cache_answers a conf calls s = spec_answers conf calls log"
  using assms
proof (induction calls arbitrary: now log s)
  case (Cons x calls)
  obtain t call where x: "x = (t, call)" by fastforce
  have r: "represents t log s" using Cons.prems x by (auto intro: represents_later)
  have step: "fst (cache_call_step a conf t call s) = fst (spec_call_step conf t call log) \<and>
      represents t (snd (spec_call_step conf t call log)) (snd (cache_call_step a conf t call s))"
  proof (cases call)
    case (GetCall i)
    then show ?thesis using get_refines [OF r, of i conf] Cons.prems(3) x by (simp add: answer_def)
  next
    case (SetCall i c)
    then show ?thesis using set_refines [OF r, of i conf c] Cons.prems(3) x by simp
  next
    case (InvalidateCall env conn)
    then show ?thesis using invalidate_refines [OF r, of env conn] Cons.prems(3) x by (auto simp: answer_def)
  qed
  then have "cache_answers a conf calls (snd (cache_call_step a conf t call s)) =
      spec_answers conf calls (snd (spec_call_step conf t call log))"
    using Cons.prems x by (intro Cons.IH [where now = t]) auto
  then show ?case using step x by (auto split: prod.splits)
qed simp

end

text \<open>
  C13: Kept in the in-memory cache, with its record per credential and its index per connection, the
  credential cache answers every sequence of calls as one map of inputs to credentials does: a
  lookup hits exactly when the input's own latest credential has not been invalidated with its
  connection and is further from its expiry than the refresh skew; it never serves the credential of
  another binding, connection, principal or environment, and no call fails but for a malformed
  expiry. The calls do not overlap, the clock does not go back, ids and names contain no colon.
\<close>

theorem credential_cache_is_a_map:
  assumes "sorted (map fst calls)" "\<forall>x\<in>set calls. plain_call (snd x)"
  shows "cache_answers memory_adapter conf calls [] = spec_answers conf calls Map.empty"
proof (cases calls)
  case (Cons x xs)
  have "memory.represents (fst x) Map.empty []"
    by (simp add: memory.represents_def memory.indexed_def memory_cached spec_lookup_def)
  then show ?thesis using memory.answers_refine assms Cons by simp
qed simp

text \<open>A service token and a refresh token of one connection.\<close>

definition sample_config :: cache_config where
  "sample_config = \<lparr> defaultTtlSeconds = 300, refreshSkewSeconds = 30, dateParse = (\<lambda>s. None) \<rparr>"

definition token_input :: credential_key_input where
  "token_input = IntegrationConnection None ''b1'' ''c1'' ''token'' None None"

definition other_token_input :: credential_key_input where
  "other_token_input = IntegrationConnection None ''b2'' ''c1'' ''token'' None None"

theorem credential_cache_is_a_map_witness:
  "cache_answers memory_adapter sample_config
     [(0, SetCall token_input (ValueCredential ''v'' None)), (10, GetCall token_input),
      (20, GetCall other_token_input), (30, InvalidateCall None ''c1''), (40, GetCall token_input)] [] =
   [Done, Looked (Hit (ValueCredential ''v'' None)), Looked Miss, Done, Looked Miss]"
  by (subst credential_cache_is_a_map)
    (simp_all add: sample_config_def token_input_def other_token_input_def plain_def plain_option_def
      spec_set_def spec_get_def spec_lookup_def resolveExpiryMs_def answer_def spec_invalidate_def apfst_def map_prod_def)

section \<open>Overlapping calls\<close>

text \<open>
  Two \<open>set\<close> calls of one connection whose awaits interleave: both credentials are written, both
  calls read the index, then each writes the index it has computed.
\<close>

definition overlapping_sets ::
  "'s cache_adapter \<Rightarrow> int \<Rightarrow> credential_key_input \<times> cached_credential \<times> int \<Rightarrow>
   credential_key_input \<times> cached_credential \<times> int \<Rightarrow> string \<Rightarrow> 's \<Rightarrow> 's" where
  "overlapping_sets a now x y indexKey s =
     (case (x, y) of ((i, c, e), (j, d, f)) \<Rightarrow>
        let s1 = cache_set a now (toCacheKey i) (CredentialRecord c e) (Some (e - now)) s;
            s2 = cache_set a now (toCacheKey j) (CredentialRecord d f) (Some (f - now)) s1
        in (case cache_get a now indexKey s2 of (v, s3) \<Rightarrow>
             case cache_get a now indexKey s3 of (w, s4) \<Rightarrow>
               snd (write_index a now indexKey (index_after_add (toCacheKey j) w)
                 (snd (write_index a now indexKey (index_after_add (toCacheKey i) v) s4)))))"

text \<open>
  When two credentials of one connection are cached by overlapping \<open>set\<close> calls, the second
  writer of the index drops the first one's key, and invalidating the connection no longer reaches
  the first credential: it is still served, until its refresh boundary.
\<close>

theorem overlapping_sets_escape_invalidation:
  assumes "plain_input i" "plain_input j" "i \<noteq> j" "of_connection env conn i" "of_connection env conn j"
    "now < e" "now < f" "now \<le> t" "t < e - refreshSkewSeconds conf * 1000"
    "refreshSkewSeconds conf \<ge> 0"
  shows "fst (getWithResult memory_adapter conf t i
    (snd (invalidateIntegrationConnection memory_adapter now env conn
      (overlapping_sets memory_adapter now (i, c, e) (j, d, f) (toConnectionIndexKey env conn) [])))) = Inr (Hit c)"
proof -
  have keys: "toCacheKey j \<noteq> toCacheKey i" "toCacheKey i \<noteq> toCacheKey j" using assms(1-3) toCacheKey_inj by metis+
  show ?thesis using assms(4-)
    by (simp add: overlapping_sets_def getWithResult_def invalidateIntegrationConnection_def write_index_def
        index_after_add_def memory_get_def memory_set_def memory_delete_def store_simps keys index_key_apart
        index_key_apart [THEN not_sym] Let_def split: option.splits)
qed

theorem overlapping_sets_escape_invalidation_witness:
  "fst (getWithResult memory_adapter sample_config 60 token_input
    (snd (invalidateIntegrationConnection memory_adapter 0 None ''c1''
      (overlapping_sets memory_adapter 0 (token_input, ValueCredential ''v'' None, 300000)
        (other_token_input, ValueCredential ''w'' None, 300000) (toConnectionIndexKey None ''c1'') [])))) =
   Inr (Hit (ValueCredential ''v'' None))"
  by (rule overlapping_sets_escape_invalidation)
    (simp_all add: token_input_def other_token_input_def sample_config_def plain_def plain_option_def)

end
