(* ===== verification/JsonValues.thy ===== *)
theory JsonValues
  imports Prelude
begin

text \<open>
  The values \<open>JSON.parse\<close> gives, and the property accesses the code makes on them. An object is
  the list of its own properties. A number is finite or, as for \<open>1e999\<close>, infinite; finite numbers are
  the integers the development counts with.
\<close>

datatype js_number = Finite int | PlusInfinity | MinusInfinity

datatype json =
    JNull
  | JBool bool
  | JNumber js_number
  | JString string
  | JArray "json list"
  | JObject "(string \<times> json) list"

text \<open>Assigning a primitive to \<open>__proto__\<close> makes no property of that name.\<close>

definition set_own_property :: "string \<Rightarrow> 'v \<Rightarrow> (string, 'v) js_map \<Rightarrow> (string, 'v) js_map" where
  "set_own_property name v obj = (if name = ''__proto__'' then obj else js_set name v obj)"

lemma set_own_property_get:
  "js_get (set_own_property name v obj) k = (if k = name \<and> name \<noteq> ''__proto__'' then Some v else js_get obj k)"
  by (simp add: set_own_property_def store_simps)

section \<open>Computations that throw\<close>

definition and_then :: "'e + 'a \<Rightarrow> ('a \<Rightarrow> 'e + 'b) \<Rightarrow> 'e + 'b" where
  "and_then r f = (case r of Inl e \<Rightarrow> Inl e | Inr x \<Rightarrow> f x)"

lemma and_then_simps [simp]: "and_then (Inl e) f = Inl e" "and_then (Inr x) f = f x"
  by (simp_all add: and_then_def)

lemma and_then_Inr: "and_then r f = Inr y \<longleftrightarrow> (\<exists>x. r = Inr x \<and> f x = Inr y)"
  by (cases r) simp_all

lemma and_then_cong [fundef_cong]: "r = r' \<Longrightarrow> (\<And>x. r' = Inr x \<Longrightarrow> f x = g x) \<Longrightarrow> and_then r f = and_then r' g"
  by (cases r') simp_all

text \<open>\<open>xs.map\<close> with a function that may throw.\<close>

fun map_checked :: "('a \<Rightarrow> 'e + 'b) \<Rightarrow> 'a list \<Rightarrow> 'e + 'b list" where
  "map_checked f [] = Inr []"
| "map_checked f (x # xs) = and_then (f x) (\<lambda>y. and_then (map_checked f xs) (\<lambda>ys. Inr (y # ys)))"

lemma map_checked_Inr: "map_checked f xs = Inr ys \<longleftrightarrow> list_all2 (\<lambda>x y. f x = Inr y) xs ys"
  by (induction xs arbitrary: ys) (auto simp: and_then_Inr list_all2_Cons1)

text \<open>\<open>text.split(sep)\<close> for a separator of one character.\<close>

fun js_split :: "'a \<Rightarrow> 'a list \<Rightarrow> 'a list list" where
  "js_split sep [] = [[]]"
| "js_split sep (c # cs) = (if c = sep then [] # js_split sep cs
     else (case js_split sep cs of [] \<Rightarrow> [[c]] | s # ss \<Rightarrow> (c # s) # ss))"

lemma js_split_not_Nil [simp]: "js_split sep cs \<noteq> []"
  by (induction cs) (auto split: list.splits)

lemma js_split_join: "js_join [sep] (js_split sep cs) = cs"
proof (induction cs)
  case (Cons c cs)
  obtain s ss where e: "js_split sep cs = s # ss" by (cases "js_split sep cs") simp_all
  then show ?case using Cons by (cases ss) auto
qed simp

end
