(* ===== verification/TelemetryLogs.thy ===== *)
theory TelemetryLogs
  imports IngressSessions JsonValues
begin

text \<open>
  What the gateway makes of the telemetry bytes of a sandbox, under
  \<open>apps/data-plane-gateway/src/tunnel/telemetry-ingress\<close>: the splitting of a log stream into lines
  (\<open>sandbox-telemetry-log-line-decoder.ts\<close>), the parsing of a line, the log record and the metric
  observation it gives (\<open>sandbox-telemetry-log-line.ts\<close>), and the sink that keeps the open streams
  (\<open>otlp-sandbox-telemetry-ingress-sink.ts\<close>). \<open>TextDecoder\<close>, \<open>JSON.parse\<close> and \<open>Date\<close> are parameters;
  what the exporters are handed is a log in the state of the sink.
\<close>

section \<open>Errors\<close>

datatype telemetry_error = TelemetryResetError string string | OtherTelemetryError string

definition InvalidTelemetryLogShapeMessage :: string where
  "InvalidTelemetryLogShapeMessage = ''Telemetry log line does not match mistle.sandbox-runtime.log.v1.''"

definition invalid_shape :: telemetry_error where
  "invalid_shape = TelemetryResetError ''invalid_telemetry_log_shape'' InvalidTelemetryLogShapeMessage"

section \<open>The line decoder\<close>

definition LineDelimiterByte :: byte where
  "LineDelimiterByte = 0x0a"

definition MaxTelemetryLineBytes :: nat where
  "MaxTelemetryLineBytes = 16 * 1024 * 1024"

definition concatenateBytes :: "byte list list \<Rightarrow> byte list" where
  "concatenateBytes parts = concat parts"

definition decodeUtf8Line :: "(byte list \<Rightarrow> string option) \<Rightarrow> byte list \<Rightarrow> telemetry_error + string" where
  "decodeUtf8Line utf8 lineBytes = (case utf8 lineBytes of None \<Rightarrow> Inl invalid_shape | Some s \<Rightarrow> Inr s)"

definition ensureLineByteLength :: "byte list \<Rightarrow> telemetry_error + unit" where
  "ensureLineByteLength lineBytes =
     (if length lineBytes \<le> MaxTelemetryLineBytes then Inr () else Inl invalid_shape)"

text \<open>The loop of \<open>append\<close> from \<open>byteIndex\<close> on; it returns the lines and \<open>lineStartIndex\<close>.\<close>

function scan_lines ::
  "(byte list \<Rightarrow> string option) \<Rightarrow> byte list \<Rightarrow> nat \<Rightarrow> nat \<Rightarrow> string list \<Rightarrow> telemetry_error + string list \<times> nat" where
  "scan_lines utf8 combined byteIndex lineStartIndex completedLines =
     (if byteIndex < length combined then
        if combined ! byteIndex \<noteq> LineDelimiterByte
        then scan_lines utf8 combined (byteIndex + 1) lineStartIndex completedLines
        else let lineBytes = take (byteIndex - lineStartIndex) (drop lineStartIndex combined) in
          if lineBytes = [] then scan_lines utf8 combined (byteIndex + 1) (byteIndex + 1) completedLines
          else (case ensureLineByteLength lineBytes of Inl e \<Rightarrow> Inl e | Inr _ \<Rightarrow>
                 (case decodeUtf8Line utf8 lineBytes of Inl e \<Rightarrow> Inl e | Inr l \<Rightarrow>
                   scan_lines utf8 combined (byteIndex + 1) (byteIndex + 1) (completedLines @ [l])))
      else Inr (completedLines, lineStartIndex))"
  by pat_completeness auto
termination by (relation "measure (\<lambda>(_, combined, i, _, _). length combined - i)") auto

declare scan_lines.simps [simp del]

text \<open>The state is \<open>#pendingBytes\<close>; it is left as it was when a line is refused.\<close>

definition decoder_append ::
  "(byte list \<Rightarrow> string option) \<Rightarrow> byte list \<Rightarrow> byte list \<Rightarrow> (telemetry_error + string list) \<times> byte list" where
  "decoder_append utf8 pay pendingBytes =
     (if pay = [] then (Inr [], pendingBytes)
      else let combined = concatenateBytes [pendingBytes, pay] in
        case scan_lines utf8 combined 0 0 [] of
          Inl e \<Rightarrow> (Inl e, pendingBytes)
        | Inr (completedLines, lineStartIndex) \<Rightarrow> (Inr completedLines, drop lineStartIndex combined))"

definition decoder_finalize :: "byte list \<Rightarrow> (telemetry_error + unit) \<times> byte list" where
  "decoder_finalize pendingBytes =
     (if pendingBytes = [] then (Inr (), [])
      else (Inl (TelemetryResetError ''unterminated_telemetry_line''
              ''Telemetry stream closed with an incomplete log line.''), []))"

subsection \<open>A byte at a time\<close>

text \<open>The reference: a machine that takes one byte after the other.\<close>

fun feed :: "(byte list \<Rightarrow> string option) \<Rightarrow> byte list \<Rightarrow> string list \<times> byte list \<Rightarrow> telemetry_error + string list \<times> byte list" where
  "feed utf8 [] r = Inr r"
| "feed utf8 (b # bs) (lines, cur) =
     (if b \<noteq> LineDelimiterByte then feed utf8 bs (lines, cur @ [b])
      else if cur = [] then feed utf8 bs (lines, [])
      else if MaxTelemetryLineBytes < length cur then Inl invalid_shape
      else (case utf8 cur of None \<Rightarrow> Inl invalid_shape | Some l \<Rightarrow> feed utf8 bs (lines @ [l], [])))"

lemma feed_append:
  "feed utf8 (xs @ ys) r = (case feed utf8 xs r of Inl e \<Rightarrow> Inl e | Inr r' \<Rightarrow> feed utf8 ys r')"
  by (induction utf8 xs r rule: feed.induct) (auto split: option.splits)

lemma feed_plain: "LineDelimiterByte \<notin> set bs \<Longrightarrow> feed utf8 bs (lines, cur) = Inr (lines, cur @ bs)"
  by (induction bs arbitrary: cur) auto

lemma feed_lines:
  "feed utf8 bs (lines @ ls, cur) = (case feed utf8 bs (ls, cur) of Inl e \<Rightarrow> Inl e | Inr (ls', cur') \<Rightarrow> Inr (lines @ ls', cur'))"
proof (induction utf8 bs "(ls, cur)" arbitrary: ls cur rule: feed.induct)
  case (2 utf8 b bs ls cur)
  then show ?case by (auto split: option.splits)
qed simp

lemma feed_pending: "feed utf8 bs (lines, cur) = Inr (ls, p) \<Longrightarrow> LineDelimiterByte \<notin> set cur \<Longrightarrow> LineDelimiterByte \<notin> set p"
  by (induction utf8 bs "(lines, cur)" arbitrary: lines cur rule: feed.induct) (auto split: if_splits option.splits)

lemma scan_is_feed:
  assumes "start \<le> i" "i \<le> length bs"
  shows "feed utf8 (drop i bs) (lines, take (i - start) (drop start bs)) =
    (case scan_lines utf8 bs i start lines of Inl e \<Rightarrow> Inl e | Inr (ls, st) \<Rightarrow> Inr (ls, drop st bs))"
  using assms
proof (induction utf8 bs i start lines rule: scan_lines.induct)
  case (1 utf8 bs i start lines)
  let ?line = "take (i - start) (drop start bs)"
  show ?case
  proof (cases "i < length bs")
    case False
    then show ?thesis using 1 by (simp add: scan_lines.simps)
  next
    case True
    have dr: "drop i bs = bs ! i # drop (i + 1) bs" using True by (simp add: Cons_nth_drop_Suc)
    have snoc: "take (i + 1 - start) (drop start bs) = ?line @ [bs ! i]"
      using True 1(4) by (simp add: Suc_diff_le take_Suc_conv_app_nth)
    show ?thesis
    proof (cases "bs ! i = LineDelimiterByte")
      case False
      then show ?thesis using 1(1) True snoc 1(4) dr by (subst scan_lines.simps) simp
    next
      case nl: True
      show ?thesis
      proof (cases "?line = []")
        case empty: True
        then show ?thesis using 1(2) True dr nl by (subst scan_lines.simps) simp
      next
        case full: False
        then show ?thesis using 1(3) True dr nl
          by (subst scan_lines.simps)
            (auto simp: Let_def ensureLineByteLength_def decodeUtf8Line_def split: option.splits)
      qed
    qed
  qed
qed

lemma decoder_append_feed:
  assumes "LineDelimiterByte \<notin> set pending"
  shows "decoder_append utf8 pay pending = (case feed utf8 pay ([], pending) of
     Inl e \<Rightarrow> (Inl e, pending) | Inr (ls, p) \<Rightarrow> (Inr ls, p))"
proof (cases "pay = []")
  case False
  have "feed utf8 (pending @ pay) ([], []) = feed utf8 pay ([], pending)"
    by (simp add: feed_append feed_plain assms)
  then show ?thesis using scan_is_feed [of 0 0 "pending @ pay" utf8 "[]"] False
    by (auto simp: decoder_append_def concatenateBytes_def split: sum.splits)
qed (simp add: decoder_append_def)

subsection \<open>Lines do not depend on how the stream is cut\<close>

fun append_chunks ::
  "(byte list \<Rightarrow> string option) \<Rightarrow> byte list list \<Rightarrow> byte list \<Rightarrow> telemetry_error + string list \<times> byte list" where
  "append_chunks utf8 [] pending = Inr ([], pending)"
| "append_chunks utf8 (c # cs) pending = (case decoder_append utf8 c pending of
     (Inl e, _) \<Rightarrow> Inl e
   | (Inr ls, pending') \<Rightarrow> (case append_chunks utf8 cs pending' of
       Inl e \<Rightarrow> Inl e | Inr (ls', p) \<Rightarrow> Inr (ls @ ls', p)))"

lemma append_chunks_feed:
  assumes "LineDelimiterByte \<notin> set pending"
  shows "append_chunks utf8 cs pending = feed utf8 (concat cs) ([], pending)"
  using assms
proof (induction cs arbitrary: pending)
  case (Cons c cs)
  note d = decoder_append_feed [OF Cons.prems, of utf8 c]
  show ?case
  proof (cases "feed utf8 c ([], pending)")
    case (Inr r)
    obtain ls p where r: "r = (ls, p)" by fastforce
    have "LineDelimiterByte \<notin> set p" using feed_pending Inr r Cons.prems by blast
    then show ?thesis using Inr r d Cons.IH feed_lines [of utf8 "concat cs" ls "[]" p]
      by (simp add: feed_append)
  qed (use d in \<open>simp add: feed_append\<close>)
qed simp


text \<open>
  The length limit of a line is checked when its end arrives, never before: bytes without a
  line end are kept, however many they are, and none of them is refused.
\<close>

theorem unfinished_line_unlimited:
  assumes "LineDelimiterByte \<notin> set (pending @ concat cs)"
  shows "append_chunks utf8 cs pending = Inr ([], pending @ concat cs)"
  using assms by (simp add: append_chunks_feed feed_plain)

lemma unfinished_line_unlimited_witness:
  "\<exists>cs. append_chunks (\<lambda>_. None) cs [] = Inr ([], concat cs) \<and> MaxTelemetryLineBytes < length (concat cs)"
proof -
  let ?cs = "replicate 2 (replicate MaxTelemetryLineBytes (65 :: byte))"
  have "append_chunks (\<lambda>_. None) ?cs [] = Inr ([], [] @ concat ?cs)"
    by (rule unfinished_line_unlimited) (simp add: LineDelimiterByte_def)
  moreover have "MaxTelemetryLineBytes < length (concat ?cs)"
    by (simp add: MaxTelemetryLineBytes_def numeral_2_eq_2)
  ultimately show ?thesis by (intro exI [of _ ?cs]) simp
qed

section \<open>Log lines\<close>

datatype log_level = LevelInfo | LevelWarn | LevelError

definition isSandboxTelemetryLogValue :: "json \<Rightarrow> bool" where
  "isSandboxTelemetryLogValue v \<longleftrightarrow> (case v of JString _ \<Rightarrow> True | JNumber _ \<Rightarrow> True | JBool _ \<Rightarrow> True
     | JNull \<Rightarrow> True | JArray _ \<Rightarrow> False | JObject _ \<Rightarrow> False)"

record log_line =
  lineEvent :: string
  extraFields :: "(string, json) js_map"
  lineLevel :: log_level
  lineTimestamp :: int

definition ReservedSandboxTelemetryFields :: "string list" where
  "ReservedSandboxTelemetryFields = [''timestamp'', ''level'', ''event'']"

definition parseTimestamp :: "(string \<Rightarrow> int option) \<Rightarrow> json option \<Rightarrow> telemetry_error + int" where
  "parseTimestamp date_ms rawTimestamp = (case rawTimestamp of
     Some (JString s) \<Rightarrow> (case date_ms s of None \<Rightarrow> Inl invalid_shape | Some t \<Rightarrow> Inr t)
   | _ \<Rightarrow> Inl invalid_shape)"

definition parseLevel :: "json option \<Rightarrow> telemetry_error + log_level" where
  "parseLevel rawLevel =
     (if rawLevel = Some (JString ''info'') then Inr LevelInfo
      else if rawLevel = Some (JString ''warn'') then Inr LevelWarn
      else if rawLevel = Some (JString ''error'') then Inr LevelError
      else Inl invalid_shape)"

definition parseEvent :: "json option \<Rightarrow> telemetry_error + string" where
  "parseEvent rawEvent = (case rawEvent of
     Some (JString s) \<Rightarrow> if js_trim s = [] then Inl invalid_shape else Inr s
   | _ \<Rightarrow> Inl invalid_shape)"

definition getStringField :: "(string, json) js_map \<Rightarrow> string \<Rightarrow> telemetry_error + string" where
  "getStringField fs fieldName = (case js_get fs fieldName of Some (JString s) \<Rightarrow> Inr s | _ \<Rightarrow> Inl invalid_shape)"

definition getNumberField :: "(string, json) js_map \<Rightarrow> string \<Rightarrow> telemetry_error + int" where
  "getNumberField fs fieldName = (case js_get fs fieldName of
     Some (JNumber (Finite n)) \<Rightarrow> if n \<ge> 0 then Inr n else Inl invalid_shape
   | _ \<Rightarrow> Inl invalid_shape)"

definition getNullableNumberField :: "(string, json) js_map \<Rightarrow> string \<Rightarrow> telemetry_error + int option" where
  "getNullableNumberField fs fieldName = (case js_get fs fieldName of
     Some JNull \<Rightarrow> Inr None
   | Some (JNumber (Finite n)) \<Rightarrow> if n \<ge> 0 then Inr (Some n) else Inl invalid_shape
   | _ \<Rightarrow> Inl invalid_shape)"

definition getNullableStringField :: "(string, json) js_map \<Rightarrow> string \<Rightarrow> telemetry_error + string option" where
  "getNullableStringField fs fieldName = (case js_get fs fieldName of
     Some JNull \<Rightarrow> Inr None | Some (JString s) \<Rightarrow> Inr (Some s) | _ \<Rightarrow> Inl invalid_shape)"

fun collect_extra_fields ::
  "(string \<times> json) list \<Rightarrow> (string, json) js_map \<Rightarrow> telemetry_error + (string, json) js_map" where
  "collect_extra_fields [] extra = Inr extra"
| "collect_extra_fields ((fieldName, fieldValue) # entries) extra =
     (if fieldName \<in> set ReservedSandboxTelemetryFields then collect_extra_fields entries extra
      else if \<not> isSandboxTelemetryLogValue fieldValue then Inl invalid_shape
      else collect_extra_fields entries (set_own_property fieldName fieldValue extra))"

definition parseSandboxTelemetryLogLine ::
  "(string \<Rightarrow> json option) \<Rightarrow> (string \<Rightarrow> int option) \<Rightarrow> string \<Rightarrow> telemetry_error + log_line" where
  "parseSandboxTelemetryLogLine json_parse date_ms line = (case json_parse line of
     Some (JObject parsedEntries) \<Rightarrow>
       (case collect_extra_fields parsedEntries [] of Inl e \<Rightarrow> Inl e | Inr extra \<Rightarrow>
       (case parseTimestamp date_ms (js_get parsedEntries ''timestamp'') of Inl e \<Rightarrow> Inl e | Inr t \<Rightarrow>
       (case parseLevel (js_get parsedEntries ''level'') of Inl e \<Rightarrow> Inl e | Inr l \<Rightarrow>
       (case parseEvent (js_get parsedEntries ''event'') of Inl e \<Rightarrow> Inl e | Inr ev \<Rightarrow>
          Inr \<lparr> lineEvent = ev, extraFields = extra, lineLevel = l, lineTimestamp = t \<rparr>))))
   | _ \<Rightarrow> Inl invalid_shape)"

subsection \<open>Log records\<close>

record ingress_stream =
  ingressFormat :: telemetry_format
  ingressRelaySessionId :: string
  ingressSandboxInstanceId :: string
  ingressSignal :: telemetry_signal
  ingressStreamId :: int

datatype severity_number = SeverityINFO | SeverityWARN | SeverityERROR

record log_record =
  recordTimestamp :: int
  observedTimestamp :: int
  severityNumber :: severity_number
  severityText :: string
  eventName :: string
  logBody :: string
  logAttributes :: "(string, json) js_map"

fun SeverityNumberByLevel :: "log_level \<Rightarrow> severity_number" where
  "SeverityNumberByLevel LevelInfo = SeverityINFO"
| "SeverityNumberByLevel LevelWarn = SeverityWARN"
| "SeverityNumberByLevel LevelError = SeverityERROR"

fun level_string :: "log_level \<Rightarrow> string" where
  "level_string LevelInfo = ''info''"
| "level_string LevelWarn = ''warn''"
| "level_string LevelError = ''error''"

definition identity_attributes :: "string \<Rightarrow> ingress_stream \<Rightarrow> string \<Rightarrow> (string, json) js_map" where
  "identity_attributes gatewayNodeId inp event =
     [(''mistle.sandbox.instance.id'', JString (ingressSandboxInstanceId inp)),
      (''mistle.sandbox.instance_id'', JString (ingressSandboxInstanceId inp)),
      (''mistle.delivery.correlation_scope'', JString ''transport_only''),
      (''mistle.gateway.node.id'', JString gatewayNodeId),
      (''mistle.tunnel.relay_session_id'', JString (ingressRelaySessionId inp)),
      (''mistle.telemetry.transport'', JString ''bootstrap_tunnel''),
      (''mistle.telemetry.signal'', JString ''logs''),
      (''mistle.sandbox.log.event'', JString event)]"

definition toSandboxTelemetryLogRecord :: "int \<Rightarrow> string \<Rightarrow> ingress_stream \<Rightarrow> log_line \<Rightarrow> log_record" where
  "toSandboxTelemetryLogRecord nowMs gatewayNodeId inp l =
     \<lparr> recordTimestamp = lineTimestamp l, observedTimestamp = nowMs,
       severityNumber = SeverityNumberByLevel (lineLevel l), severityText = to_upper (level_string (lineLevel l)),
       eventName = lineEvent l, logBody = lineEvent l,
       logAttributes = fold (\<lambda>(fieldName, fieldValue). js_set (''mistle.sandbox.log.'' @ fieldName) fieldValue)
         (extraFields l) (identity_attributes gatewayNodeId inp (lineEvent l)) \<rparr>"

subsection \<open>Metric observations\<close>

datatype metric_observation =
    AgentStreamSummary (avgCreditReturnMs: "int option") (channelKind: string) (durationMs: int)
      (maxMessageBytesIn: int) (maxMessageBytesOut: int) (maxOutstandingBytes: int) (outcome: string)
      (resetCode: "string option") (totalBytesIn: int) (totalBytesOut: int)
  | AgentStreamWindowExhausted (channelKind: string) (outstandingBytes: int) (payloadBytes: int)
      (exhaustedPayloadKind: string)

definition AgentStreamSummaryEvent :: string where
  "AgentStreamSummaryEvent = ''agent_stream_summary''"

definition AgentStreamWindowExhaustedEvent :: string where
  "AgentStreamWindowExhaustedEvent = ''agent_stream_window_exhausted''"

definition toSandboxTunnelMetricObservation :: "log_line \<Rightarrow> telemetry_error + metric_observation option" where
  "toSandboxTunnelMetricObservation l =
     (let fs = extraFields l in
      if lineEvent l = AgentStreamSummaryEvent then
        (case getStringField fs ''channelKind'' of Inl e \<Rightarrow> Inl e | Inr kind \<Rightarrow>
        (case getStringField fs ''outcome'' of Inl e \<Rightarrow> Inl e | Inr outc \<Rightarrow>
        (case getNumberField fs ''durationMs'' of Inl e \<Rightarrow> Inl e | Inr duration \<Rightarrow>
        (case getNumberField fs ''totalBytesOut'' of Inl e \<Rightarrow> Inl e | Inr bytesOut \<Rightarrow>
        (case getNumberField fs ''totalBytesIn'' of Inl e \<Rightarrow> Inl e | Inr bytesIn \<Rightarrow>
        (case getNumberField fs ''maxMessageBytesOut'' of Inl e \<Rightarrow> Inl e | Inr maxOut \<Rightarrow>
        (case getNumberField fs ''maxMessageBytesIn'' of Inl e \<Rightarrow> Inl e | Inr maxIn \<Rightarrow>
        (case getNumberField fs ''maxOutstandingBytes'' of Inl e \<Rightarrow> Inl e | Inr outstanding \<Rightarrow>
        (case getNullableNumberField fs ''avgCreditReturnMs'' of Inl e \<Rightarrow> Inl e | Inr avg \<Rightarrow>
        (case getNullableStringField fs ''resetCode'' of Inl e \<Rightarrow> Inl e | Inr reset \<Rightarrow>
           Inr (Some (AgentStreamSummary avg kind duration maxIn maxOut outstanding outc reset bytesIn bytesOut))))))))))))
      else if lineEvent l = AgentStreamWindowExhaustedEvent then
        (case getStringField fs ''channelKind'' of Inl e \<Rightarrow> Inl e | Inr kind \<Rightarrow>
        (case getStringField fs ''payloadKind'' of Inl e \<Rightarrow> Inl e | Inr pkind \<Rightarrow>
        (case getNumberField fs ''payloadBytes'' of Inl e \<Rightarrow> Inl e | Inr bytes \<Rightarrow>
        (case getNumberField fs ''outstandingBytes'' of Inl e \<Rightarrow> Inl e | Inr outstanding \<Rightarrow>
           Inr (Some (AgentStreamWindowExhausted kind outstanding bytes pkind))))))
      else Inr None)"

datatype metric_event =
    HistogramRecord string int "(string, string) js_map"
  | CounterAdd string int "(string, string) js_map"

definition buildSummaryAttributes :: "string \<Rightarrow> string \<Rightarrow> string option \<Rightarrow> (string, string) js_map" where
  "buildSummaryAttributes kind outc reset =
     (let attributes = [(''mistle.channel_kind'', kind), (''mistle.outcome'', outc)] in
      case reset of None \<Rightarrow> attributes | Some code \<Rightarrow> js_set ''mistle.reset_code'' code attributes)"

definition withDirection :: "(string, string) js_map \<Rightarrow> string \<Rightarrow> (string, string) js_map" where
  "withDirection attributes direction = js_set ''mistle.direction'' direction attributes"

fun metric_events :: "metric_observation \<Rightarrow> metric_event list" where
  "metric_events (AgentStreamSummary avg kind duration maxIn maxOut outstanding outc reset bytesIn bytesOut) =
     (let attributes = buildSummaryAttributes kind outc reset;
          outbound = withDirection attributes ''outbound''; inbound = withDirection attributes ''inbound''
      in [HistogramRecord ''mistle.sandbox.tunnel.stream.duration'' duration attributes,
          HistogramRecord ''mistle.sandbox.tunnel.stream.total_bytes'' bytesOut outbound,
          HistogramRecord ''mistle.sandbox.tunnel.stream.total_bytes'' bytesIn inbound,
          HistogramRecord ''mistle.sandbox.tunnel.stream.max_message_bytes'' maxOut outbound,
          HistogramRecord ''mistle.sandbox.tunnel.stream.max_message_bytes'' maxIn inbound,
          HistogramRecord ''mistle.sandbox.tunnel.stream.max_outstanding_bytes'' outstanding attributes] @
         (case avg of None \<Rightarrow> []
          | Some a \<Rightarrow> [HistogramRecord ''mistle.sandbox.tunnel.stream.avg_credit_return'' a attributes]) @
         (case reset of None \<Rightarrow> []
          | Some _ \<Rightarrow> [CounterAdd ''mistle.sandbox.tunnel.stream.reset.count'' 1 attributes]))"
| "metric_events (AgentStreamWindowExhausted kind outstanding bytes pkind) =
     (let attributes = [(''mistle.channel_kind'', kind), (''mistle.payload_kind'', pkind)]
      in [CounterAdd ''mistle.sandbox.tunnel.stream.window_exhausted.count'' 1 attributes,
          HistogramRecord ''mistle.sandbox.tunnel.stream.window_exhausted.payload_bytes'' bytes attributes,
          HistogramRecord ''mistle.sandbox.tunnel.stream.window_exhausted.outstanding_bytes'' outstanding attributes])"

definition recordFromLogLine :: "log_line \<Rightarrow> metric_event list \<Rightarrow> (telemetry_error + unit) \<times> metric_event list" where
  "recordFromLogLine l events = (case toSandboxTunnelMetricObservation l of
     Inl e \<Rightarrow> (Inl e, events)
   | Inr None \<Rightarrow> (Inr (), events)
   | Inr (Some observation) \<Rightarrow> (Inr (), events @ metric_events observation))"

section \<open>The sink\<close>

datatype active_stream =
    ActiveLogStream ingress_stream (pendingOf: "byte list")
  | ActiveTraceStream ingress_stream string

record otlp_sink =
  sinkStreams :: "(string, active_stream) js_map"
  sinkMetrics :: "metric_event list"
  emittedRecords :: "log_record list"
  forwardedTraces :: "(string \<times> byte list) list"

text \<open>What the sink uses: the decoder and parsers of the platform, its clock, the gateway's node
  id, and the export of a trace payload, which fails with a message or not.\<close>

record sink_env =
  env_utf8 :: "byte list \<Rightarrow> string option"
  env_json :: "string \<Rightarrow> json option"
  env_date :: "string \<Rightarrow> int option"
  env_now :: int
  env_gatewayNodeId :: string
  env_forward :: "string \<Rightarrow> byte list \<Rightarrow> string option"

definition buildStreamKey :: "ingress_stream \<Rightarrow> string" where
  "buildStreamKey inp = ingressSandboxInstanceId inp @ '':'' @ ingressRelaySessionId inp @ '':'' @
     string_of_int (ingressStreamId inp)"

definition isLogStream :: "active_stream \<Rightarrow> bool" where
  "isLogStream st \<longleftrightarrow> (case st of ActiveLogStream i _ \<Rightarrow> True | ActiveTraceStream i _ \<Rightarrow> False)"

definition sink_openStream :: "ingress_stream \<Rightarrow> otlp_sink \<Rightarrow> (telemetry_error + unit) \<times> otlp_sink" where
  "sink_openStream inp s =
     (let streamKey = buildStreamKey inp in
      if js_has (sinkStreams s) streamKey
      then (Inl (OtherTelemetryError (''Sandbox telemetry stream '' @ string_of_int (ingressStreamId inp) @
              '' is already open.'')), s)
      else if ingressSignal inp = LogsSignal
      then (Inr (), s\<lparr>sinkStreams := js_set streamKey (ActiveLogStream inp []) (sinkStreams s)\<rparr>)
      else (case getTelemetryContentType (ingressFormat inp) (ingressSignal inp) of
         None \<Rightarrow> (Inl (OtherTelemetryError (''Unsupported sandbox telemetry stream format '' @
             CHR 0x27 # format_string (ingressFormat inp) @ CHR 0x27 # '' for signal '' @
             CHR 0x27 # signal_string (ingressSignal inp) @ CHR 0x27 # ''.'')), s)
       | Some contentType \<Rightarrow>
           (Inr (), s\<lparr>sinkStreams := js_set streamKey (ActiveTraceStream inp contentType) (sinkStreams s)\<rparr>)))"

fun emit_lines :: "sink_env \<Rightarrow> ingress_stream \<Rightarrow> string list \<Rightarrow> otlp_sink \<Rightarrow> (telemetry_error + unit) \<times> otlp_sink" where
  "emit_lines env inp [] s = (Inr (), s)"
| "emit_lines env inp (l # ls) s = (case parseSandboxTelemetryLogLine (env_json env) (env_date env) l of
     Inl e \<Rightarrow> (Inl e, s)
   | Inr parsedLine \<Rightarrow> (case recordFromLogLine parsedLine (sinkMetrics s) of
       (Inl e, _) \<Rightarrow> (Inl e, s)
     | (Inr _, events) \<Rightarrow> emit_lines env inp ls (s\<lparr>sinkMetrics := events,
         emittedRecords := emittedRecords s @
           [toSandboxTelemetryLogRecord (env_now env) (env_gatewayNodeId env) inp parsedLine]\<rparr>)))"

definition sink_append :: "sink_env \<Rightarrow> ingress_stream \<Rightarrow> byte list \<Rightarrow> otlp_sink \<Rightarrow> (telemetry_error + unit) \<times> otlp_sink" where
  "sink_append env inp pay s = (case js_get (sinkStreams s) (buildStreamKey inp) of
     None \<Rightarrow> (Inl (OtherTelemetryError (''Sandbox telemetry stream '' @ string_of_int (ingressStreamId inp) @
            '' is not open.'')), s)
   | Some (ActiveLogStream i pending) \<Rightarrow> (case decoder_append (env_utf8 env) pay pending of
       (Inl e, _) \<Rightarrow> (Inl e, s)
     | (Inr completedLines, pending') \<Rightarrow> emit_lines env inp completedLines
         (s\<lparr>sinkStreams := js_set (buildStreamKey inp) (ActiveLogStream i pending') (sinkStreams s)\<rparr>))
   | Some (ActiveTraceStream i contentType) \<Rightarrow>
       (case env_forward env contentType pay of
          None \<Rightarrow> (Inr (), s\<lparr>forwardedTraces := forwardedTraces s @ [(contentType, pay)]\<rparr>)
        | Some message \<Rightarrow> (Inl (OtherTelemetryError message), s)))"

definition sink_closeStream :: "ingress_stream \<Rightarrow> otlp_sink \<Rightarrow> (telemetry_error + unit) \<times> otlp_sink" where
  "sink_closeStream inp s = (case js_get (sinkStreams s) (buildStreamKey inp) of
     None \<Rightarrow> (Inr (), s)
   | Some st \<Rightarrow>
       (case st of ActiveLogStream _ pending \<Rightarrow> fst (decoder_finalize pending) | ActiveTraceStream _ _ \<Rightarrow> Inr (),
        s\<lparr>sinkStreams := js_delete (buildStreamKey inp) (sinkStreams s)\<rparr>))"

definition sink_shutdown :: "otlp_sink \<Rightarrow> otlp_sink" where
  "sink_shutdown s = s\<lparr>sinkStreams := []\<rparr>"

subsection \<open>A log line cannot forge its record's identity\<close>

lemma collect_extra_unreserved:
  "collect_extra_fields entries extra = Inr extra' \<Longrightarrow> \<forall>f\<in>set ReservedSandboxTelemetryFields. f \<notin> fst ` set extra \<Longrightarrow>
     \<forall>f\<in>set ReservedSandboxTelemetryFields. f \<notin> fst ` set extra'"
proof (induction entries extra rule: collect_extra_fields.induct)
  case (2 name v entries extra)
  then show ?case
    by (cases "name \<in> set ReservedSandboxTelemetryFields"; cases "isSandboxTelemetryLogValue v")
      (auto simp: set_own_property_def dom_update split: if_splits)
qed simp

lemma parsed_unreserved:
  "parseSandboxTelemetryLogLine js dt line = Inr l \<Longrightarrow> ''event'' \<notin> fst ` set (extraFields l)"
proof -
  assume "parseSandboxTelemetryLogLine js dt line = Inr l"
  then obtain entries where "collect_extra_fields entries [] = Inr (extraFields l)"
    by (auto simp: parseSandboxTelemetryLogLine_def split: option.splits json.splits sum.splits)
  from collect_extra_unreserved [OF this] show ?thesis by (simp add: ReservedSandboxTelemetryFields_def)
qed

lemma fold_prefixed_get:
  "k \<notin> (\<lambda>(f, _). p @ f) ` set kvs \<Longrightarrow> js_get (fold (\<lambda>(f, v). js_set (p @ f) v) kvs m) k = js_get m k"
  by (induction kvs arbitrary: m) (auto simp: store_simps)

lemma identity_kept:
  assumes "''event'' \<notin> fst ` set (extraFields l)" "k \<in> fst ` set (identity_attributes node inp (lineEvent l))"
  shows "js_get (logAttributes (toSandboxTelemetryLogRecord t node inp l)) k = js_get (identity_attributes node inp (lineEvent l)) k"
proof -
  have "k \<notin> (\<lambda>(f, _). ''mistle.sandbox.log.'' @ f) ` set (extraFields l)"
    using assms by (auto simp: identity_attributes_def image_iff)
  then show ?thesis unfolding toSandboxTelemetryLogRecord_def log_record.simps by (rule fold_prefixed_get)
qed

definition identified :: "sink_env \<Rightarrow> ingress_stream \<Rightarrow> log_record \<Rightarrow> bool" where
  "identified env inp r \<longleftrightarrow> (\<forall>(k, v)\<in>set (identity_attributes (env_gatewayNodeId env) inp (eventName r)).
     js_get (logAttributes r) k = Some v)"

lemma parsed_identified:
  assumes "parseSandboxTelemetryLogLine js dt line = Inr l"
  shows "identified env inp (toSandboxTelemetryLogRecord t (env_gatewayNodeId env) inp l)"
proof -
  let ?ids = "identity_attributes (env_gatewayNodeId env) inp (lineEvent l)"
  have "distinct (map fst ?ids)" by (simp add: identity_attributes_def)
  then have "js_get ?ids k = Some v" if "(k, v) \<in> set ?ids" for k v
    using that by (rule map_of_is_SomeI)
  then have "js_get (logAttributes (toSandboxTelemetryLogRecord t (env_gatewayNodeId env) inp l)) k = Some v"
    if "(k, v) \<in> set ?ids" for k v
    using identity_kept [OF parsed_unreserved [OF assms]] that by force
  moreover have "eventName (toSandboxTelemetryLogRecord t (env_gatewayNodeId env) inp l) = lineEvent l"
    by (simp add: toSandboxTelemetryLogRecord_def)
  ultimately show ?thesis unfolding identified_def by fastforce
qed

lemma emit_identified:
  "\<exists>new. emittedRecords (snd (emit_lines env inp ls s)) = emittedRecords s @ new \<and> (\<forall>r\<in>set new. identified env inp r)"
proof (induction env inp ls s rule: emit_lines.induct)
  case (2 env inp l ls s)
  show ?case
  proof (cases "parseSandboxTelemetryLogLine (env_json env) (env_date env) l")
    case (Inr p)
    obtain r events where r: "recordFromLogLine p (sinkMetrics s) = (r, events)" by fastforce
    show ?thesis
    proof (cases r)
      case (Inr u)
      then show ?thesis
        using 2 [OF \<open>_ = Inr p\<close> r [symmetric] Inr] \<open>_ = Inr p\<close> r parsed_identified [OF \<open>_ = Inr p\<close>] by auto
    qed (use Inr r in simp)
  qed simp
qed simp

lemma emit_identified_from:
  "emittedRecords s' = emittedRecords s \<Longrightarrow>
   \<exists>new. emittedRecords (snd (emit_lines env inp ls s')) = emittedRecords s @ new \<and> (\<forall>r\<in>set new. identified env inp r)"
  using emit_identified [of env inp ls s'] by simp

text \<open>
  Whatever bytes a sandbox sends on a log stream, every log record the gateway emits for them
  names the sandbox, the relay session and the gateway node the bytes came through: a field of a
  log line, whatever its name, never replaces one of the identifying attributes.
\<close>

theorem log_identity_not_forged:
  "\<exists>new. emittedRecords (snd (sink_append env inp pay s)) = emittedRecords s @ new \<and>
     list_all (identified env inp) new"
  by (auto simp: sink_append_def list_all_iff split: option.splits active_stream.splits prod.splits sum.splits
      intro!: emit_identified_from)

end
