(* ===== verification/TelemetryIngress.thy ===== *)
theory TelemetryIngress
  imports TelemetryLogs
begin

text \<open>
  The telemetry ingress service of the gateway,
  \<open>apps/data-plane-gateway/src/tunnel/telemetry-ingress/sandbox-telemetry-ingress-service.ts\<close>.
  A handler is cut at its awaits: its first part runs to a call of the sink, and what follows is a
  task that is resumed with the outcome of the call. Sessions are objects: the service maps a key to
  a reference, and a task holds the reference it was started with.
\<close>

section \<open>State\<close>

record telemetry_service =
  sessionObjects :: "telemetry_session list"
  sessionRefs :: "(string, nat) js_map"

definition new_telemetry_service :: telemetry_service where
  "new_telemetry_service = \<lparr> sessionObjects = [], sessionRefs = [] \<rparr>"

datatype telemetry_delivery =
    OpenDelivery telemetry_format telemetry_signal int
  | CloseDelivery int
  | DataDelivery "byte list" int
  | InvalidDataDelivery int int

definition TelemetrySinkFailureMessage :: string where
  "TelemetrySinkFailureMessage = ''Gateway failed to ingest telemetry bytes.''"

definition toSessionKey :: "string \<Rightarrow> string \<Rightarrow> string" where
  "toSessionKey relaySessionId sandboxInstanceId = sandboxInstanceId @ '':'' @ relaySessionId"

definition toIngressStream :: "string \<Rightarrow> string \<Rightarrow> telemetry_stream \<Rightarrow> ingress_stream" where
  "toIngressStream relaySessionId sandboxInstanceId st =
     \<lparr> ingressFormat = telemetryFormat st, ingressRelaySessionId = relaySessionId,
       ingressSandboxInstanceId = sandboxInstanceId, ingressSignal = telemetrySignal st,
       ingressStreamId = streamNumber st \<rparr>"

text \<open>A call of the sink a handler waits for, and what the handler does after it.\<close>

datatype sink_request =
    SinkOpen ingress_stream
  | SinkAppend ingress_stream "byte list"
  | SinkClose ingress_stream

datatype telemetry_task =
    AfterOpen string nat telemetry_stream telemetry_control_message
  | AfterAppend string string nat telemetry_stream
  | AfterFailedAppend string nat telemetry_stream telemetry_error
  | AfterClose string nat telemetry_stream
  | AfterReset string nat
  | AfterDetach

record handler_outcome =
  sentMessages :: "telemetry_control_message list"
  waitingFor :: "(sink_request \<times> telemetry_task) option"
  thrownError :: "string option"

definition returned :: "telemetry_control_message list \<Rightarrow> handler_outcome" where
  "returned ms = \<lparr> sentMessages = ms, waitingFor = None, thrownError = None \<rparr>"

definition waits :: "telemetry_control_message list \<Rightarrow> sink_request \<Rightarrow> telemetry_task \<Rightarrow> handler_outcome" where
  "waits ms req task = \<lparr> sentMessages = ms, waitingFor = Some (req, task), thrownError = None \<rparr>"

definition deref :: "telemetry_service \<Rightarrow> nat \<Rightarrow> telemetry_session" where
  "deref s ref = sessionObjects s ! ref"

definition update_session :: "nat \<Rightarrow> telemetry_session \<Rightarrow> telemetry_service \<Rightarrow> telemetry_service" where
  "update_session ref session s = s\<lparr>sessionObjects := (sessionObjects s)[ref := session]\<rparr>"

definition deleteSessionIfEmpty :: "string \<Rightarrow> nat \<Rightarrow> telemetry_service \<Rightarrow> telemetry_service" where
  "deleteSessionIfEmpty sessionKey ref s =
     (if telemetry_streamCount (deref s ref) = 0
      then s\<lparr>sessionRefs := js_delete sessionKey (sessionRefs s)\<rparr> else s)"

fun toTelemetryReset :: "telemetry_error \<Rightarrow> int \<Rightarrow> telemetry_control_message" where
  "toTelemetryReset (TelemetryResetError code message) sid = createTelemetryReset code message sid"
| "toTelemetryReset (OtherTelemetryError _) sid =
     createTelemetryReset ''telemetry_sink_failed'' TelemetrySinkFailureMessage sid"

section \<open>Handlers\<close>

text \<open>A new session is an object of its own; it is not in the map until the stream is open.\<close>

definition session_for_open :: "string \<Rightarrow> telemetry_service \<Rightarrow> nat \<times> telemetry_service" where
  "session_for_open sessionKey s = (case js_get (sessionRefs s) sessionKey of
     Some ref \<Rightarrow> (ref, s)
   | None \<Rightarrow> (length (sessionObjects s), s\<lparr>sessionObjects := sessionObjects s @ [new_telemetry_session]\<rparr>))"

definition handleOpen ::
  "string \<Rightarrow> string \<Rightarrow> telemetry_format \<Rightarrow> telemetry_signal \<Rightarrow> int \<Rightarrow> telemetry_service \<Rightarrow>
   handler_outcome \<times> telemetry_service" where
  "handleOpen relaySessionId sandboxInstanceId format signal sid s =
     (let sessionKey = toSessionKey relaySessionId sandboxInstanceId in
      case session_for_open sessionKey s of (ref, s1) \<Rightarrow>
      case telemetry_openStream format signal sid (deref s1 ref) of
        ((response, None), session) \<Rightarrow>
          (returned [response], deleteSessionIfEmpty sessionKey ref (update_session ref session s1))
      | ((response, Some st), session) \<Rightarrow>
          (waits [] (SinkOpen (toIngressStream relaySessionId sandboxInstanceId st))
             (AfterOpen sessionKey ref st response),
           update_session ref session s1))"

definition handleData ::
  "string \<Rightarrow> string \<Rightarrow> byte list \<Rightarrow> int \<Rightarrow> string \<Rightarrow> nat \<Rightarrow> telemetry_service \<Rightarrow>
   handler_outcome \<times> telemetry_service" where
  "handleData relaySessionId sandboxInstanceId encoded sid sessionKey ref s = (case decodeDataFrame encoded of
     Inl e \<Rightarrow> (\<lparr> sentMessages = [], waitingFor = None, thrownError = Some e \<rparr>, s)
   | Inr frame \<Rightarrow> (case telemetry_consumeWindow (int (length (payload frame))) sid (deref s ref) of
       (WindowReset response closed, session) \<Rightarrow>
         (let s1 = update_session ref session s in
          case closed of
            None \<Rightarrow> (returned [response], deleteSessionIfEmpty sessionKey ref s1)
          | Some st \<Rightarrow> (waits [response] (SinkClose (toIngressStream relaySessionId sandboxInstanceId st))
              (AfterReset sessionKey ref), s1))
     | (WindowOk st, session) \<Rightarrow>
         (waits [] (SinkAppend (toIngressStream relaySessionId sandboxInstanceId st) (payload frame))
            (AfterAppend relaySessionId sandboxInstanceId ref st), update_session ref session s)))"

definition handleInvalidData ::
  "string \<Rightarrow> string \<Rightarrow> int \<Rightarrow> string \<Rightarrow> nat \<Rightarrow> telemetry_service \<Rightarrow> handler_outcome \<times> telemetry_service" where
  "handleInvalidData relaySessionId sandboxInstanceId sid sessionKey ref s =
     (case invalidateStream sid (deref s ref) of ((response, closed), session) \<Rightarrow>
       let s1 = update_session ref session s in
       case closed of
         None \<Rightarrow> (returned [response], deleteSessionIfEmpty sessionKey ref s1)
       | Some st \<Rightarrow> (waits [response] (SinkClose (toIngressStream relaySessionId sandboxInstanceId st))
           (AfterReset sessionKey ref), s1))"

definition handleClose ::
  "string \<Rightarrow> string \<Rightarrow> int \<Rightarrow> string \<Rightarrow> nat \<Rightarrow> telemetry_service \<Rightarrow> handler_outcome \<times> telemetry_service" where
  "handleClose relaySessionId sandboxInstanceId sid sessionKey ref s =
     (case telemetry_closeStream sid (deref s ref) of
        (None, session) \<Rightarrow> (returned [], deleteSessionIfEmpty sessionKey ref (update_session ref session s))
      | (Some st, session) \<Rightarrow>
          (waits [] (SinkClose (toIngressStream relaySessionId sandboxInstanceId st)) (AfterClose sessionKey ref st),
           update_session ref session s))"

fun delivery_stream :: "telemetry_delivery \<Rightarrow> int" where
  "delivery_stream (OpenDelivery _ _ sid) = sid"
| "delivery_stream (CloseDelivery sid) = sid"
| "delivery_stream (DataDelivery _ sid) = sid"
| "delivery_stream (InvalidDataDelivery _ sid) = sid"

definition with_session ::
  "string \<Rightarrow> telemetry_delivery \<Rightarrow> (nat \<Rightarrow> handler_outcome \<times> telemetry_service) \<Rightarrow> telemetry_service \<Rightarrow>
   handler_outcome \<times> telemetry_service" where
  "with_session sessionKey d handle s = (case js_get (sessionRefs s) sessionKey of
     Some ref \<Rightarrow> handle ref
   | None \<Rightarrow> (returned (case d of CloseDelivery _ \<Rightarrow> []
       | _ \<Rightarrow> [createTelemetryReset ''telemetry_stream_not_found''
           (''Telemetry stream '' @ string_of_int (delivery_stream d) @ '' is not open on this bootstrap session.'')
           (delivery_stream d)]), s))"

fun handleDelivery ::
  "string \<Rightarrow> string \<Rightarrow> telemetry_delivery \<Rightarrow> telemetry_service \<Rightarrow> handler_outcome \<times> telemetry_service" where
  "handleDelivery relay sandbox (OpenDelivery format signal sid) s = handleOpen relay sandbox format signal sid s"
| "handleDelivery relay sandbox (DataDelivery encoded sid) s =
     with_session (toSessionKey relay sandbox) (DataDelivery encoded sid)
       (\<lambda>ref. handleData relay sandbox encoded sid (toSessionKey relay sandbox) ref s) s"
| "handleDelivery relay sandbox (InvalidDataDelivery kind sid) s =
     with_session (toSessionKey relay sandbox) (InvalidDataDelivery kind sid)
       (\<lambda>ref. handleInvalidData relay sandbox sid (toSessionKey relay sandbox) ref s) s"
| "handleDelivery relay sandbox (CloseDelivery sid) s =
     with_session (toSessionKey relay sandbox) (CloseDelivery sid)
       (\<lambda>ref. handleClose relay sandbox sid (toSessionKey relay sandbox) ref s) s"

text \<open>What a handler does once the sink has answered.\<close>

fun resume_task ::
  "telemetry_task \<Rightarrow> telemetry_error + unit \<Rightarrow> telemetry_service \<Rightarrow> handler_outcome \<times> telemetry_service" where
  "resume_task (AfterOpen sessionKey ref st response) (Inl e) s =
     (returned [createTelemetryOpenError ''telemetry_sink_failed'' TelemetrySinkFailureMessage (streamNumber st)],
      deleteSessionIfEmpty sessionKey ref
        (update_session ref (snd (telemetry_closeStream (streamNumber st) (deref s ref))) s))"
| "resume_task (AfterOpen sessionKey ref st response) (Inr _) s =
     (returned [response], s\<lparr>sessionRefs := js_set sessionKey ref (sessionRefs s)\<rparr>)"
| "resume_task (AfterAppend relay sandbox ref st) (Inl e) s =
     (waits [] (SinkClose (toIngressStream relay sandbox st))
        (AfterFailedAppend (toSessionKey relay sandbox) ref st e),
      update_session ref (snd (telemetry_closeStream (streamNumber st) (deref s ref))) s)"
| "resume_task (AfterAppend relay sandbox ref st) (Inr _) s =
     (case telemetry_grantWindowIfNeeded (streamNumber st) (deref s ref) of
        (None, session) \<Rightarrow> (returned [], update_session ref session s)
      | (Some m, session) \<Rightarrow> (returned [m], update_session ref session s))"
| "resume_task (AfterFailedAppend sessionKey ref st e) _ s =
     (returned [toTelemetryReset e (streamNumber st)], deleteSessionIfEmpty sessionKey ref s)"
| "resume_task (AfterClose sessionKey ref st) (Inl e) s =
     (returned [toTelemetryReset e (streamNumber st)], deleteSessionIfEmpty sessionKey ref s)"
| "resume_task (AfterClose sessionKey ref st) (Inr _) s = (returned [], deleteSessionIfEmpty sessionKey ref s)"
| "resume_task (AfterReset sessionKey ref) _ s = (returned [], deleteSessionIfEmpty sessionKey ref s)"
| "resume_task AfterDetach _ s = (returned [], s)"

definition telemetry_detachBootstrapSession ::
  "string \<Rightarrow> string \<Rightarrow> telemetry_service \<Rightarrow> sink_request list \<times> telemetry_service" where
  "telemetry_detachBootstrapSession relaySessionId sandboxInstanceId s =
     (let sessionKey = toSessionKey relaySessionId sandboxInstanceId in
      case js_get (sessionRefs s) sessionKey of
        None \<Rightarrow> ([], s)
      | Some ref \<Rightarrow> (case telemetry_closeAllStreams (deref s ref) of (streams, session) \<Rightarrow>
          (map (\<lambda>st. SinkClose (toIngressStream relaySessionId sandboxInstanceId st)) streams,
           update_session ref session (s\<lparr>sessionRefs := js_delete sessionKey (sessionRefs s)\<rparr>))))"

definition telemetry_shutdown :: "telemetry_service \<Rightarrow> telemetry_service" where
  "telemetry_shutdown s = s\<lparr>sessionRefs := []\<rparr>"

section \<open>The service with its sink\<close>

fun perform :: "sink_env \<Rightarrow> sink_request \<Rightarrow> otlp_sink \<Rightarrow> (telemetry_error + unit) \<times> otlp_sink" where
  "perform env (SinkOpen inp) k = sink_openStream inp k"
| "perform env (SinkAppend inp pay) k = sink_append env inp pay k"
| "perform env (SinkClose inp) k = sink_closeStream inp k"

text \<open>A handler run to its end, nothing else in between: at most two calls of the sink.\<close>

fun settle ::
  "nat \<Rightarrow> sink_env \<Rightarrow> handler_outcome \<times> telemetry_service \<Rightarrow> otlp_sink \<Rightarrow>
   telemetry_control_message list \<times> telemetry_service \<times> otlp_sink" where
  "settle n env (out, s) k = (case (n, waitingFor out) of
     (Suc m, Some (req, task)) \<Rightarrow> (case perform env req k of (r, k') \<Rightarrow>
        apfst (\<lambda>ms. sentMessages out @ ms) (settle m env (resume_task task r s) k'))
   | _ \<Rightarrow> (sentMessages out, s, k))"

definition run_delivery ::
  "sink_env \<Rightarrow> string \<Rightarrow> string \<Rightarrow> telemetry_delivery \<Rightarrow> telemetry_service \<times> otlp_sink \<Rightarrow>
   telemetry_control_message list \<times> telemetry_service \<times> otlp_sink" where
  "run_delivery env relay sandbox d sk = settle 2 env (handleDelivery relay sandbox d (fst sk)) (snd sk)"

definition run_detach :: "sink_env \<Rightarrow> string \<Rightarrow> string \<Rightarrow> telemetry_service \<times> otlp_sink \<Rightarrow> telemetry_service \<times> otlp_sink" where
  "run_detach env relay sandbox sk = (case telemetry_detachBootstrapSession relay sandbox (fst sk) of
     (reqs, s) \<Rightarrow> (s, fold (\<lambda>req k. snd (perform env req k)) reqs (snd sk)))"

section \<open>Overlapping opens lose a stream\<close>

text \<open>
  Two \<open>telemetry.open\<close> messages of one bootstrap session, the second handled while the first waits
  for the sink, which then accepts both.
\<close>

definition accept_open :: "handler_outcome \<Rightarrow> telemetry_service \<Rightarrow> telemetry_control_message list \<times> telemetry_service" where
  "accept_open out s = (case waitingFor out of
     None \<Rightarrow> ([], s) | Some (_, task) \<Rightarrow> apfst sentMessages (resume_task task (Inr ()) s))"

definition overlapping_opens :: "string \<Rightarrow> string \<Rightarrow> int \<Rightarrow> int \<Rightarrow> telemetry_control_message list \<times> telemetry_service" where
  "overlapping_opens relay sandbox sid1 sid2 =
     (case handleDelivery relay sandbox (OpenDelivery RuntimeLogV1 LogsSignal sid1) new_telemetry_service of (out1, s1) \<Rightarrow>
      case handleDelivery relay sandbox (OpenDelivery OtlpHttpTracesV1Json TracesSignal sid2) s1 of (out2, s2) \<Rightarrow>
      case accept_open out1 s2 of (ms1, s3) \<Rightarrow>
      case accept_open out2 s3 of (ms2, s4) \<Rightarrow> (ms1 @ ms2, s4))"

text \<open>
  When a sandbox opens its log stream and its trace stream and the second open is handled while
  the first waits for the sink, each handler makes a session of its own: both opens are confirmed,
  but the second session replaces the first, and the data of the log stream is answered with
  \<open>telemetry_stream_not_found\<close>.
\<close>

theorem overlapping_opens_lose_stream:
  assumes "sid1 \<noteq> sid2" "decodeDataFrame encoded = Inr frame"
  shows "\<exists>w s. overlapping_opens relay sandbox sid1 sid2 = ([TelemetryOpenOK sid1 w, TelemetryOpenOK sid2 w], s) \<and>
    (\<exists>message. sentMessages (fst (handleDelivery relay sandbox (DataDelivery encoded sid1) s)) =
       [TelemetryReset sid1 ''telemetry_stream_not_found'' message])"
  using assms
  by (simp add: overlapping_opens_def accept_open_def new_telemetry_service_def handleOpen_def session_for_open_def
      Let_def telemetry_openStream_def new_telemetry_session_def deref_def update_session_def waits_def returned_def
      isSupportedTelemetryStream_def SupportedFormatsBySignal_def createTelemetryOpenOk_def nth_append
      with_session_def handleData_def telemetry_consumeWindow_def createTelemetryReset_def store_simps)

lemma overlapping_opens_lose_stream_witness:
  "\<exists>w s. overlapping_opens ''rs'' ''sbi'' 1 2 = ([TelemetryOpenOK 1 w, TelemetryOpenOK 2 w], s) \<and>
    (\<exists>message. sentMessages (fst (handleDelivery ''rs'' ''sbi'' (DataDelivery [1, 0, 0, 0, 1, 1, 65] 1) s)) =
       [TelemetryReset 1 ''telemetry_stream_not_found'' message])"
proof (rule overlapping_opens_lose_stream)
  show "decodeDataFrame [1, 0, 0, 0, 1, 1, 65] =
      Inr \<lparr>frameKind = 1, streamId = 1, payloadKind = 1, payload = [65]\<rparr>"
    by code_simp
qed simp

section \<open>One delivery at a time, the sink and the service agree\<close>

definition plain_id :: "string \<Rightarrow> bool" where
  "plain_id s \<longleftrightarrow> CHR '':'' \<notin> set s"

definition sink_has :: "otlp_sink \<Rightarrow> string \<Rightarrow> string \<Rightarrow> int \<Rightarrow> bool" where
  "sink_has k relay sandbox sid \<longleftrightarrow>
     js_has (sinkStreams k) (sandbox @ '':'' @ relay @ '':'' @ string_of_int sid)"

definition service_has :: "telemetry_service \<Rightarrow> string \<Rightarrow> string \<Rightarrow> int \<Rightarrow> bool" where
  "service_has s relay sandbox sid \<longleftrightarrow> (case js_get (sessionRefs s) (toSessionKey relay sandbox) of
     None \<Rightarrow> False | Some ref \<Rightarrow> js_has (telemetryStreams (deref s ref)) sid)"

definition registered_ok :: "telemetry_service \<Rightarrow> bool" where
  "registered_ok s \<longleftrightarrow>
     (\<forall>key ref. js_get (sessionRefs s) key = Some ref \<longrightarrow> ref < length (sessionObjects s) \<and>
        telemetry_session_ok (deref s ref) \<and> 0 \<le> telemetryInitialWindow (deref s ref) \<and> telemetry_streamCount (deref s ref) \<noteq> 0) \<and>
     (\<forall>key key' ref. js_get (sessionRefs s) key = Some ref \<longrightarrow> js_get (sessionRefs s) key' = Some ref \<longrightarrow> key = key')"

definition agrees :: "telemetry_service \<Rightarrow> otlp_sink \<Rightarrow> bool" where
  "agrees s k \<longleftrightarrow> registered_ok s \<and>
     (\<forall>relay sandbox sid. plain_id relay \<longrightarrow> plain_id sandbox \<longrightarrow>
        sink_has k relay sandbox sid = service_has s relay sandbox sid)"

lemma registeredD:
  assumes "registered_ok s" "js_get (sessionRefs s) key = Some ref"
  shows "ref < length (sessionObjects s)" "telemetry_session_ok (deref s ref)"
    "0 \<le> telemetryInitialWindow (deref s ref)" "telemetry_streamCount (deref s ref) \<noteq> 0"
    "js_get (sessionRefs s) key' = Some ref \<Longrightarrow> key' = key"
  using assms unfolding registered_ok_def by blast+

lemma session_key_inj:
  "plain_id sandbox \<Longrightarrow> plain_id sandbox' \<Longrightarrow> toSessionKey relay sandbox = toSessionKey relay' sandbox' \<longleftrightarrow>
     relay = relay' \<and> sandbox = sandbox'"
  using first_separator_inj [of "CHR '':''" sandbox sandbox' relay relay']
  by (auto simp: toSessionKey_def plain_id_def)

lemma stream_key_inj:
  "plain_id sandbox \<Longrightarrow> plain_id sandbox' \<Longrightarrow> plain_id relay \<Longrightarrow> plain_id relay' \<Longrightarrow>
   sandbox @ CHR '':'' # relay @ CHR '':'' # string_of_int sid =
     sandbox' @ CHR '':'' # relay' @ CHR '':'' # string_of_int sid' \<longleftrightarrow>
     sandbox = sandbox' \<and> relay = relay' \<and> sid = sid'"
  using first_separator_inj [of "CHR '':''" sandbox sandbox' "relay @ CHR '':'' # string_of_int sid"
      "relay' @ CHR '':'' # string_of_int sid'"]
    first_separator_inj [of "CHR '':''" relay relay' "string_of_int sid" "string_of_int sid'"]
  by (auto simp: plain_id_def string_of_int_inj)

subsection \<open>The streams of the sink\<close>

lemma key_of_stream:
  "buildStreamKey (toIngressStream relay sandbox st) =
     sandbox @ '':'' @ relay @ '':'' @ string_of_int (streamNumber st)"
  by (simp add: buildStreamKey_def toIngressStream_def)

lemma emit_lines_streams: "sinkStreams (snd (emit_lines env inp ls k)) = sinkStreams k"
  by (induction env inp ls k rule: emit_lines.induct) (auto split: sum.splits prod.splits)

lemma sink_append_has: "js_has (sinkStreams (snd (sink_append env inp pay k))) key = js_has (sinkStreams k) key"
  by (auto simp: sink_append_def emit_lines_streams js_has_def store_simps
      split: option.splits active_stream.splits prod.splits sum.splits)

lemma sink_close_has:
  "js_has (sinkStreams (snd (sink_closeStream inp k))) key \<longleftrightarrow> js_has (sinkStreams k) key \<and> key \<noteq> buildStreamKey inp"
  by (auto simp: sink_closeStream_def js_has_def store_simps split: option.splits)

lemma sink_open_has:
  assumes "\<not> js_has (sinkStreams k) (buildStreamKey inp)" "isSupportedTelemetryStream (ingressFormat inp) (ingressSignal inp)"
  shows "fst (sink_openStream inp k) = Inr ()"
    "js_has (sinkStreams (snd (sink_openStream inp k))) key \<longleftrightarrow> js_has (sinkStreams k) key \<or> key = buildStreamKey inp"
  using assms
  by (auto simp: sink_openStream_def Let_def js_has_def store_simps getTelemetryContentType_def
      isSupportedTelemetryStream_def SupportedFormatsBySignal_def split: option.splits telemetry_signal.splits)

lemma closed_sink:
  assumes "plain_id relay" "plain_id sandbox" "plain_id relay'" "plain_id sandbox'"
  shows "sink_has (snd (sink_closeStream (toIngressStream relay sandbox st) k)) relay' sandbox' sid \<longleftrightarrow>
    sink_has k relay' sandbox' sid \<and> \<not> (relay' = relay \<and> sandbox' = sandbox \<and> sid = streamNumber st)"
  using assms by (auto simp: sink_has_def sink_close_has key_of_stream stream_key_inj)

subsection \<open>The streams of a session\<close>

lemma session_close_has:
  "js_has (telemetryStreams (snd (telemetry_closeStream sid x))) sid' \<longleftrightarrow> js_has (telemetryStreams x) sid' \<and> sid' \<noteq> sid"
  by (auto simp: telemetry_closeStream_def js_has_def store_simps split: option.splits)

lemma session_consume_has:
  "telemetry_consumeWindow n sid x = (WindowOk st, y) \<Longrightarrow>
     js_has (telemetryStreams y) sid' = js_has (telemetryStreams x) sid' \<and> js_has (telemetryStreams x) sid \<and>
     telemetryInitialWindow y = telemetryInitialWindow x"
  by (auto simp: telemetry_consumeWindow_def js_has_def store_simps split: option.splits if_splits)

lemma session_grant_has:
  "js_has (telemetryStreams (snd (telemetry_grantWindowIfNeeded sid x))) sid' = js_has (telemetryStreams x) sid'"
  "telemetryInitialWindow (snd (telemetry_grantWindowIfNeeded sid x)) = telemetryInitialWindow x"
  by (auto simp: telemetry_grantWindowIfNeeded_def js_has_def store_simps split: option.splits prod.splits)

lemma close_initial: "telemetryInitialWindow (snd (telemetry_closeStream sid x)) = telemetryInitialWindow x"
  by (auto simp: telemetry_closeStream_def split: option.splits)

lemma count_zero_has: "telemetry_streamCount x = 0 \<longleftrightarrow> (\<forall>sid. \<not> js_has (telemetryStreams x) sid)"
  by (cases "telemetryStreams x") (auto simp: telemetry_streamCount_def js_has_def intro: exI [of _ "fst (hd _)"])

subsection \<open>Deliveries keep the agreement\<close>

text \<open>The session of one bootstrap connection changes, and its streams in the sink with it.\<close>

lemma agrees_update:
  assumes ag: "agrees s k" and ref: "js_get (sessionRefs s) (toSessionKey relay sandbox) = Some ref"
    and plain: "plain_id relay" "plain_id sandbox"
    and x: "telemetry_session_ok x" "0 \<le> telemetryInitialWindow x"
    and own: "\<And>sid. sink_has k' relay sandbox sid = js_has (telemetryStreams x) sid"
    and other: "\<And>relay' sandbox' sid. plain_id relay' \<Longrightarrow> plain_id sandbox' \<Longrightarrow> (relay', sandbox') \<noteq> (relay, sandbox) \<Longrightarrow>
      sink_has k' relay' sandbox' sid = sink_has k relay' sandbox' sid"
  shows "agrees (deleteSessionIfEmpty (toSessionKey relay sandbox) ref (update_session ref x s)) k'"
proof -
  let ?key = "toSessionKey relay sandbox" and ?s = "update_session ref x s"
  let ?t = "deleteSessionIfEmpty ?key ref ?s"
  have reg: "registered_ok s" using ag by (simp add: agrees_def)
  note r = registeredD [OF reg ref]
  have deref: "deref ?s ref' = (if ref' = ref then x else deref s ref')" for ref'
    using r(1) by (simp add: deref_def update_session_def)
  have same: "deref ?t ref' = deref ?s ref'" "length (sessionObjects ?t) = length (sessionObjects s)" for ref'
    by (simp_all add: deleteSessionIfEmpty_def deref_def update_session_def)
  have refs: "js_get (sessionRefs ?t) key' = (if key' = ?key \<and> telemetry_streamCount x = 0 then None else js_get (sessionRefs s) key')" for key'
    by (simp add: deleteSessionIfEmpty_def deref store_simps) (simp add: update_session_def)
  have "registered_ok ?t"
    unfolding registered_ok_def
  proof (intro conjI allI impI)
    fix key' ref' assume "js_get (sessionRefs ?t) key' = Some ref'"
    then have g: "js_get (sessionRefs s) key' = Some ref'" and nz: "key' = ?key \<Longrightarrow> telemetry_streamCount x \<noteq> 0"
      by (auto simp: refs split: if_splits)
    note r' = registeredD [OF reg g]
    show "ref' < length (sessionObjects ?t)" using r' same by simp
    show "telemetry_session_ok (deref ?t ref')" "0 \<le> telemetryInitialWindow (deref ?t ref')"
      using r' x by (simp_all add: same deref)
    show "telemetry_streamCount (deref ?t ref') \<noteq> 0"
    proof (cases "ref' = ref")
      case True
      then have "key' = ?key" using r(5) g by simp
      then show ?thesis using True nz by (simp add: same deref)
    qed (use r' in \<open>simp add: same deref\<close>)
  next
    fix key1 key2 ref' assume "js_get (sessionRefs ?t) key1 = Some ref'" "js_get (sessionRefs ?t) key2 = Some ref'"
    then have "js_get (sessionRefs s) key1 = Some ref'" "js_get (sessionRefs s) key2 = Some ref'"
      by (simp_all add: refs split: if_splits)
    then show "key1 = key2" using registeredD(5) [OF reg] by blast
  qed
  moreover have "sink_has k' relay' sandbox' sid = service_has ?t relay' sandbox' sid"
    if "plain_id relay'" "plain_id sandbox'" for relay' sandbox' sid
  proof (cases "(relay', sandbox') = (relay, sandbox)")
    case True
    then show ?thesis using own ref count_zero_has [of x]
      by (simp add: service_has_def refs same deref)
  next
    case False
    have "toSessionKey relay' sandbox' \<noteq> ?key" using False session_key_inj that plain by blast
    moreover have "ref' \<noteq> ref" if "js_get (sessionRefs s) (toSessionKey relay' sandbox') = Some ref'" for ref'
      using r(5) that calculation by blast
    ultimately have "service_has ?t relay' sandbox' sid = service_has s relay' sandbox' sid"
      by (simp add: service_has_def refs same deref split: option.splits)
    then show ?thesis using other [OF that False] ag that by (simp add: agrees_def)
  qed
  ultimately show ?thesis by (simp add: agrees_def)
qed

lemma delete_nonempty:
  "telemetry_streamCount (deref s ref) \<noteq> 0 \<Longrightarrow> deleteSessionIfEmpty key ref s = s"
  by (simp add: deleteSessionIfEmpty_def)

lemma deref_update: "ref < length (sessionObjects s) \<Longrightarrow> deref (update_session ref x s) ref = x"
  by (simp add: deref_def update_session_def)

lemma update_refs [simp]: "sessionRefs (update_session ref x s) = sessionRefs s"
  "length (sessionObjects (update_session ref x s)) = length (sessionObjects s)"
  "update_session ref y (update_session ref x s) = update_session ref y s"
  by (simp_all add: update_session_def)

text \<open>A stream of a session is closed, in the session and in the sink.\<close>

lemma agrees_close:
  assumes ag: "agrees s k" and ref: "js_get (sessionRefs s) (toSessionKey relay sandbox) = Some ref"
    and plain: "plain_id relay" "plain_id sandbox"
    and st: "js_get (telemetryStreams (deref s ref)) sid = Some st" "streamNumber st' = sid"
    and k: "\<And>key. js_has (sinkStreams k1) key = js_has (sinkStreams k) key"
  shows "agrees (deleteSessionIfEmpty (toSessionKey relay sandbox) ref
      (update_session ref (snd (telemetry_closeStream sid (deref s ref))) s))
    (snd (sink_closeStream (toIngressStream relay sandbox st') k1))"
proof (rule agrees_update [OF ag ref plain])
  have reg: "registered_ok s" using ag by (simp add: agrees_def)
  note r = registeredD [OF reg ref]
  show "telemetry_session_ok (snd (telemetry_closeStream sid (deref s ref)))"
    by (rule telemetry_session_ok_close [OF r(2)])
  show "0 \<le> telemetryInitialWindow (snd (telemetry_closeStream sid (deref s ref)))"
    using r(3) by (simp add: close_initial)
  have eq: "sink_has k1 relay' sandbox' sid' = sink_has k relay' sandbox' sid'" for relay' sandbox' sid'
    by (simp add: sink_has_def k)
  show "sink_has (snd (sink_closeStream (toIngressStream relay sandbox st') k1)) relay sandbox sid' =
      js_has (telemetryStreams (snd (telemetry_closeStream sid (deref s ref)))) sid'" for sid'
    using ag plain ref st by (simp add: closed_sink session_close_has eq agrees_def service_has_def)
  show "plain_id relay' \<Longrightarrow> plain_id sandbox' \<Longrightarrow> (relay', sandbox') \<noteq> (relay, sandbox) \<Longrightarrow>
      sink_has (snd (sink_closeStream (toIngressStream relay sandbox st') k1)) relay' sandbox' sid' =
      sink_has k relay' sandbox' sid'" for relay' sandbox' sid'
    using plain by (simp add: closed_sink eq) blast
qed

text \<open>A session changes, its streams do not.\<close>

lemma agrees_same_streams:
  assumes ag: "agrees s k" and ref: "js_get (sessionRefs s) (toSessionKey relay sandbox) = Some ref"
    and plain: "plain_id relay" "plain_id sandbox"
    and x: "telemetry_session_ok x" "0 \<le> telemetryInitialWindow x"
      "\<And>sid. js_has (telemetryStreams x) sid = js_has (telemetryStreams (deref s ref)) sid"
    and k: "\<And>key. js_has (sinkStreams k1) key = js_has (sinkStreams k) key"
  shows "agrees (update_session ref x s) k1"
proof -
  have reg: "registered_ok s" using ag by (simp add: agrees_def)
  note r = registeredD [OF reg ref]
  have "agrees (deleteSessionIfEmpty (toSessionKey relay sandbox) ref (update_session ref x s)) k1"
    by (rule agrees_update [OF ag ref plain x(1,2)])
      (use ag plain ref in \<open>simp_all add: sink_has_def k x(3) agrees_def service_has_def\<close>)
  moreover have "telemetry_streamCount x \<noteq> 0" using r(4) by (simp add: count_zero_has x(3))
  ultimately show ?thesis using r(1) by (simp add: delete_nonempty deref_update)
qed

lemma agrees_sink:
  assumes "agrees s k" "\<And>key. js_has (sinkStreams k1) key = js_has (sinkStreams k) key"
  shows "agrees s k1"
  using assms by (simp add: agrees_def sink_has_def)

lemma deleteSessionIfEmpty_twice:
  "deleteSessionIfEmpty key ref (deleteSessionIfEmpty key ref s) = deleteSessionIfEmpty key ref s"
  by (simp add: deleteSessionIfEmpty_def deref_def AList.delete_idem)

lemma session_for_open_old:
  "js_get (sessionRefs s) key = Some r \<Longrightarrow> session_for_open key s = (ref, s1) \<longleftrightarrow> ref = r \<and> s1 = s"
  by (auto simp: session_for_open_def)

lemma session_for_open_new:
  "js_get (sessionRefs s) key = None \<Longrightarrow> session_for_open key s = (ref, s1) \<longleftrightarrow>
     ref = length (sessionObjects s) \<and> s1 = s\<lparr>sessionObjects := sessionObjects s @ [new_telemetry_session]\<rparr>"
  by (auto simp: session_for_open_def)

text \<open>States that register the same sessions.\<close>

lemma agrees_same_registered:
  assumes ag: "agrees s k" and refs: "\<And>key. js_get (sessionRefs t) key = js_get (sessionRefs s) key"
    and len: "length (sessionObjects s) \<le> length (sessionObjects t)"
    and same: "\<And>r. r < length (sessionObjects s) \<Longrightarrow> deref t r = deref s r"
  shows "agrees t k"
proof -
  have reg: "registered_ok s" using ag by (simp add: agrees_def)
  have "registered_ok t"
    unfolding registered_ok_def
  proof (intro conjI allI impI)
    fix key r assume "js_get (sessionRefs t) key = Some r"
    then have g: "js_get (sessionRefs s) key = Some r" by (simp add: refs)
    note r = registeredD [OF reg g]
    show "r < length (sessionObjects t)" using r(1) len by simp
    show "telemetry_session_ok (deref t r)" "0 \<le> telemetryInitialWindow (deref t r)"
      "telemetry_streamCount (deref t r) \<noteq> 0" using r by (simp_all add: same)
  next
    fix key key' r assume "js_get (sessionRefs t) key = Some r" "js_get (sessionRefs t) key' = Some r"
    then show "key = key'" using registeredD(5) [OF reg] by (simp add: refs)
  qed
  moreover have "service_has t relay sandbox sid = service_has s relay sandbox sid" for relay sandbox sid
    using same registeredD(1) [OF reg] by (simp add: service_has_def refs split: option.splits)
  ultimately show ?thesis using ag by (simp add: agrees_def)
qed

lemma agrees_open_refused:
  assumes ag: "agrees s k" and so: "session_for_open key s = (ref, s1)"
  shows "agrees (deleteSessionIfEmpty key ref (update_session ref (deref s1 ref) s1)) k"
proof (cases "js_get (sessionRefs s) key")
  case (Some r)
  then have "ref = r" "s1 = s" using so by (simp_all add: session_for_open_old)
  moreover have "registered_ok s" using ag by (simp add: agrees_def)
  ultimately show ?thesis using ag registeredD(4) [OF _ Some]
    by (simp add: delete_nonempty update_session_def deref_def)
next
  case None
  then have "ref = length (sessionObjects s)" "s1 = s\<lparr>sessionObjects := sessionObjects s @ [new_telemetry_session]\<rparr>"
    using so by (simp_all add: session_for_open_new)
  then show ?thesis using None
    by (intro agrees_same_registered [OF ag])
      (auto simp: deleteSessionIfEmpty_def deref_def update_session_def nth_append nth_list_update store_simps)
qed

lemma new_session_window: "0 \<le> telemetryInitialWindow new_telemetry_session"
    "telemetryStreams new_telemetry_session = []"
  by (simp_all add: new_telemetry_session_def DefaultStreamWindowBytes_def)

lemma session_for_open_ready:
  assumes reg: "registered_ok s" and so: "session_for_open (toSessionKey relay sandbox) s = (ref, s1)"
  shows "telemetry_session_ok (deref s1 ref)" "0 \<le> telemetryInitialWindow (deref s1 ref)"
    "ref < length (sessionObjects s1)" "js_has (telemetryStreams (deref s1 ref)) i = service_has s relay sandbox i"
    "js_get (sessionRefs s) key = Some ref \<Longrightarrow> key = toSessionKey relay sandbox"
    "r < length (sessionObjects s) \<Longrightarrow> deref s1 r = deref s r" "sessionRefs s1 = sessionRefs s"
    "length (sessionObjects s) \<le> length (sessionObjects s1)"
proof -
  let ?key = "toSessionKey relay sandbox"
  consider (old) "js_get (sessionRefs s) ?key = Some ref" "s1 = s"
    | (new) "js_get (sessionRefs s) ?key = None" "ref = length (sessionObjects s)"
        "s1 = s\<lparr>sessionObjects := sessionObjects s @ [new_telemetry_session]\<rparr>"
    using so by (cases "js_get (sessionRefs s) ?key") (simp_all add: session_for_open_old session_for_open_new)
  note split = this
  have fresh: "deref (s\<lparr>sessionObjects := sessionObjects s @ [new_telemetry_session]\<rparr>) (length (sessionObjects s)) =
      new_telemetry_session"
    by (simp add: deref_def)
  have none: "js_get (sessionRefs s) k \<noteq> Some (length (sessionObjects s))" for k
    using registeredD(1) [OF reg, of k "length (sessionObjects s)"] by auto
  show "telemetry_session_ok (deref s1 ref)"
    by (rule split) (simp_all add: registeredD [OF reg] fresh telemetry_session_ok_new)
  show "0 \<le> telemetryInitialWindow (deref s1 ref)"
    by (rule split) (simp_all add: registeredD [OF reg] fresh new_session_window)
  show "ref < length (sessionObjects s1)"
    by (rule split) (simp_all add: registeredD [OF reg])
  show "js_has (telemetryStreams (deref s1 ref)) i = service_has s relay sandbox i"
    by (rule split) (simp_all add: service_has_def fresh new_session_window js_has_def)
  show "js_get (sessionRefs s) key = Some ref \<Longrightarrow> key = ?key"
    by (rule split) (use none in \<open>simp_all add: registeredD(5) [OF reg]\<close>)
  show "r < length (sessionObjects s) \<Longrightarrow> deref s1 r = deref s r"
    by (rule split) (simp_all add: deref_def nth_append)
  show "sessionRefs s1 = sessionRefs s" by (rule split) simp_all
  show "length (sessionObjects s) \<le> length (sessionObjects s1)" by (rule split) simp_all
qed

text \<open>The session an accepted open registers, with its stream in the sink.\<close>

lemma agrees_register:
  assumes ag: "agrees s k" and plain: "plain_id relay" "plain_id sandbox"
    and so: "session_for_open (toSessionKey relay sandbox) s = (ref, s1)"
    and y: "telemetry_session_ok y" "0 \<le> telemetryInitialWindow y"
      "\<And>i. js_has (telemetryStreams y) i \<longleftrightarrow> js_has (telemetryStreams (deref s1 ref)) i \<or> i = sid"
    and k: "\<And>key. js_has (sinkStreams k') key \<longleftrightarrow> js_has (sinkStreams k) key \<or> key = buildStreamKey inp"
    and inp: "buildStreamKey inp = sandbox @ CHR '':'' # relay @ CHR '':'' # string_of_int sid"
  shows "agrees ((update_session ref y s1)\<lparr>sessionRefs := js_set (toSessionKey relay sandbox) ref (sessionRefs s)\<rparr>) k'"
proof -
  let ?key = "toSessionKey relay sandbox"
  let ?t = "(update_session ref y s1)\<lparr>sessionRefs := js_set ?key ref (sessionRefs s)\<rparr>"
  have reg: "registered_ok s" using ag by (simp add: agrees_def)
  note ready = session_for_open_ready [OF reg so]
  have deref: "deref ?t r = (if r = ref then y else deref s1 r)" for r
    using ready(3) by (simp add: deref_def update_session_def)
  have len: "length (sessionObjects ?t) = length (sessionObjects s1)" by simp
  have other: "r \<noteq> ref" "deref s1 r = deref s r" if "js_get (sessionRefs s) key = Some r" "key \<noteq> ?key" for key r
    using ready(5) [of key] ready(6) [of r] registeredD(1) [OF reg that(1)] that by auto
  have "registered_ok ?t"
    unfolding registered_ok_def
  proof (intro conjI allI impI)
    fix key r assume g: "js_get (sessionRefs ?t) key = Some r"
    have "r < length (sessionObjects s1) \<and> telemetry_session_ok (deref ?t r) \<and>
        0 \<le> telemetryInitialWindow (deref ?t r) \<and> telemetry_streamCount (deref ?t r) \<noteq> 0"
    proof (cases "key = ?key")
      case True
      then have "r = ref" using g by (simp add: store_simps)
      moreover have "telemetry_streamCount y \<noteq> 0" using y(3) [of sid] by (auto simp: count_zero_has)
      ultimately show ?thesis using ready(3) y(1,2) by (simp add: deref)
    next
      case False
      then have g': "js_get (sessionRefs s) key = Some r" using g by (simp add: store_simps)
      show ?thesis using registeredD [OF reg g'] other [OF g' False] ready(8) by (simp add: deref)
    qed
    then show "r < length (sessionObjects ?t)" "telemetry_session_ok (deref ?t r)"
      "0 \<le> telemetryInitialWindow (deref ?t r)" "telemetry_streamCount (deref ?t r) \<noteq> 0" by (simp_all add: len)
  next
    fix key key' r assume g: "js_get (sessionRefs ?t) key = Some r" "js_get (sessionRefs ?t) key' = Some r"
    then have "key = ?key \<and> r = ref \<or> js_get (sessionRefs s) key = Some r"
        "key' = ?key \<and> r = ref \<or> js_get (sessionRefs s) key' = Some r"
      by (simp_all add: store_simps split: if_splits)
    then show "key = key'" using ready(5) registeredD(5) [OF reg] by blast
  qed
  moreover have "sink_has k' relay' sandbox' i = service_has ?t relay' sandbox' i"
    if p: "plain_id relay'" "plain_id sandbox'" for relay' sandbox' i
  proof -
    have sink: "sink_has k' relay' sandbox' i \<longleftrightarrow> sink_has k relay' sandbox' i \<or> relay' = relay \<and> sandbox' = sandbox \<and> i = sid"
      using plain p by (auto simp: sink_has_def k inp stream_key_inj)
    have old: "sink_has k relay' sandbox' i = service_has s relay' sandbox' i" using ag p by (simp add: agrees_def)
    show ?thesis
    proof (cases "toSessionKey relay' sandbox' = ?key")
      case True
      then have "relay' = relay" "sandbox' = sandbox" using session_key_inj plain p by blast+
      then show ?thesis using sink old y(3) ready(4) by (simp add: service_has_def [of ?t] store_simps deref)
    next
      case False
      then have "\<not> (relay' = relay \<and> sandbox' = sandbox)" by auto
      moreover have "service_has ?t relay' sandbox' i = service_has s relay' sandbox' i"
        using other [OF _ False] by (simp add: service_has_def store_simps False deref split: option.splits)
      ultimately show ?thesis using sink old by blast
    qed
  qed
  ultimately show ?thesis by (simp add: agrees_def)
qed

lemma opened_stream:
  assumes "telemetry_openStream format signal sid x = ((m, Some st), y)"
  shows "streamNumber st = sid" "telemetrySignal st = signal" "telemetryFormat st = format"
    "isSupportedTelemetryStream format signal" "\<not> js_has (telemetryStreams x) sid"
    "js_has (telemetryStreams y) i \<longleftrightarrow> js_has (telemetryStreams x) i \<or> i = sid"
    "telemetryInitialWindow y = telemetryInitialWindow x"
  using assms by (auto simp: telemetry_openStream_def Let_def js_has_def store_simps split: if_splits)

lemma refused_open: "telemetry_openStream format signal sid x = ((m, None), y) \<Longrightarrow> y = x"
  by (auto simp: telemetry_openStream_def Let_def split: if_splits)

definition both_agree :: "telemetry_control_message list \<times> telemetry_service \<times> otlp_sink \<Rightarrow> bool" where
  "both_agree r \<longleftrightarrow> agrees (fst (snd r)) (snd (snd r))"

lemma agrees_open:
  assumes ag: "agrees s k" and plain: "plain_id relay" "plain_id sandbox"
  shows "both_agree (settle 2 env (handleOpen relay sandbox format signal sid s) k)"
proof -
  have reg: "registered_ok s" using ag by (simp add: agrees_def)
  obtain ref s1 where so: "session_for_open (toSessionKey relay sandbox) s = (ref, s1)" by fastforce
  note ready = session_for_open_ready [OF reg so]
  obtain m o' y where op: "telemetry_openStream format signal sid (deref s1 ref) = ((m, o'), y)"
    by (metis prod.exhaust)
  show ?thesis
  proof (cases o')
    case None
    then have "y = deref s1 ref" using refused_open op by simp
    then show ?thesis using agrees_open_refused [OF ag so] None op so
      by (simp add: handleOpen_def Let_def returned_def numeral_2_eq_2 both_agree_def)
  next
    case (Some st)
    note st = opened_stream [OF op [unfolded Some]]
    let ?inp = "toIngressStream relay sandbox st"
    have fresh: "\<not> js_has (sinkStreams k) (buildStreamKey ?inp)"
      using ag plain st(1,5) ready(4) by (simp add: agrees_def sink_has_def key_of_stream)
    note sink = sink_open_has [OF fresh]
    have y: "telemetry_session_ok y" using telemetry_session_ok_open [OF ready(1,2), of format signal sid] op by simp
    have "agrees ((update_session ref y s1)\<lparr>sessionRefs := js_set (toSessionKey relay sandbox) ref (sessionRefs s)\<rparr>)
        (snd (sink_openStream ?inp k))"
      by (rule agrees_register [OF ag plain so y _ st(6) sink(2)])
        (use ready(2) st in \<open>simp_all add: key_of_stream\<close>, simp_all add: toIngressStream_def)
    then show ?thesis using Some so op sink(1) st ready(7)
      by (cases "sink_openStream ?inp k")
        (simp add: handleOpen_def waits_def returned_def numeral_2_eq_2 both_agree_def toIngressStream_def)
  qed
qed

lemma sink_has_cong: "(\<And>key. js_has (sinkStreams k') key = js_has (sinkStreams k) key) \<Longrightarrow> sink_has k' = sink_has k"
  by (intro ext) (simp add: sink_has_def)

lemma agrees_data:
  assumes ag: "agrees s k" and ref: "js_get (sessionRefs s) (toSessionKey relay sandbox) = Some ref"
    and plain: "plain_id relay" "plain_id sandbox"
  shows "both_agree (settle 2 env (handleData relay sandbox encoded sid (toSessionKey relay sandbox) ref s) k)"
proof (cases "decodeDataFrame encoded")
  case (Inl e)
  then show ?thesis using ag by (simp add: handleData_def both_agree_def)
next
  case (Inr frame)
  have reg: "registered_ok s" using ag by (simp add: agrees_def)
  note r = registeredD [OF reg ref]
  let ?n = "int (length (payload frame))"
  obtain res x where c: "telemetry_consumeWindow ?n sid (deref s ref) = (res, x)" by fastforce
  show ?thesis
  proof (cases res)
    case (WindowReset m o')
    show ?thesis
    proof (cases o')
      case None
      then have "x = deref s ref" using c WindowReset by (auto simp: telemetry_consumeWindow_def split: option.splits)
      then have "update_session ref x s = s" by (simp add: update_session_def deref_def)
      then show ?thesis using None WindowReset c Inr ag r(4)
        by (simp add: handleData_def Let_def returned_def both_agree_def delete_nonempty numeral_2_eq_2)
    next
      case (Some st)
      have st: "js_get (telemetryStreams (deref s ref)) sid = Some st" "x = snd (telemetry_closeStream sid (deref s ref))"
          "streamNumber st = sid"
        using c WindowReset Some telemetry_session_okD(1) [OF r(2)]
        by (auto simp: telemetry_consumeWindow_def split: option.splits)
      have "agrees (deleteSessionIfEmpty (toSessionKey relay sandbox) ref (update_session ref x s))
          (snd (sink_closeStream (toIngressStream relay sandbox st) k))"
        unfolding st(2) by (rule agrees_close [OF ag ref plain st(1,3)]) simp
      then show ?thesis using Some WindowReset c Inr
        by (cases "sink_closeStream (toIngressStream relay sandbox st) k")
          (simp add: handleData_def Let_def returned_def waits_def both_agree_def numeral_2_eq_2)
    qed
  next
    case (WindowOk st)
    have has: "js_has (telemetryStreams x) i = js_has (telemetryStreams (deref s ref)) i"
        "js_has (telemetryStreams (deref s ref)) sid" "telemetryInitialWindow x = telemetryInitialWindow (deref s ref)" for i
      using session_consume_has c WindowOk by blast+
    have x: "telemetry_session_ok x" "0 \<le> telemetryInitialWindow x"
      using telemetry_session_ok_steps(2) [OF r(2), of ?n sid] c r(3) has(3) by simp_all
    have at: "js_get (telemetryStreams x) sid = Some st"
      using c WindowOk by (auto simp: telemetry_consumeWindow_def store_simps split: option.splits)
    note st = at telemetry_session_okD(1) [OF x(1) at]
    let ?s = "update_session ref x s" and ?inp = "toIngressStream relay sandbox st"
    obtain res' k1 where k1: "sink_append env ?inp (payload frame) k = (res', k1)" by fastforce
    have same: "js_has (sinkStreams k1) key = js_has (sinkStreams k) key" for key
      using sink_append_has [of env ?inp "payload frame" k key] k1 by simp
    have ag1: "agrees ?s k1" by (rule agrees_same_streams [OF ag ref plain x has(1) same])
    have d: "deref ?s ref = x" using r(1) by (rule deref_update)
    have ref1: "js_get (sessionRefs ?s) (toSessionKey relay sandbox) = Some ref" using ref by simp
    show ?thesis
    proof (cases res')
      case (Inl e)
      have "agrees (deleteSessionIfEmpty (toSessionKey relay sandbox) ref
          (update_session ref (snd (telemetry_closeStream sid x)) s)) (snd (sink_closeStream ?inp k1))"
        using agrees_close [OF ag1 ref1 plain _ st(2) refl] st(1) by (simp add: d)
      then show ?thesis using \<open>decodeDataFrame encoded = Inr frame\<close> WindowOk c k1 Inl d st(2)
        by (cases "sink_closeStream ?inp k1")
          (simp add: handleData_def returned_def waits_def both_agree_def numeral_2_eq_2)
    next
      case (Inr u)
      have "agrees (update_session ref (snd (telemetry_grantWindowIfNeeded sid x)) ?s) k1"
        by (rule agrees_same_streams [OF ag1 ref1 plain])
          (simp_all add: telemetry_session_ok_steps(3) [OF x(1)] session_grant_has x(2) d)
      then show ?thesis using \<open>decodeDataFrame encoded = Inr frame\<close> WindowOk c k1 Inr d st(2)
        by (cases "telemetry_grantWindowIfNeeded sid x"; cases "fst (telemetry_grantWindowIfNeeded sid x)")
          (simp_all add: handleData_def returned_def waits_def both_agree_def numeral_2_eq_2)
    qed
  qed
qed

lemma close_stream_cases:
  assumes "telemetry_session_ok x" "telemetry_closeStream sid x = (o', y)"
  shows "o' = None \<and> y = x \<or> (\<exists>st. o' = Some st \<and> js_get (telemetryStreams x) sid = Some st \<and> streamNumber st = sid)"
  using assms telemetry_session_okD(1) [OF assms(1)] by (auto simp: telemetry_closeStream_def split: option.splits)

lemma agrees_close_delivery:
  assumes ag: "agrees s k" and ref: "js_get (sessionRefs s) (toSessionKey relay sandbox) = Some ref"
    and plain: "plain_id relay" "plain_id sandbox"
  shows "both_agree (settle 2 env (handleClose relay sandbox sid (toSessionKey relay sandbox) ref s) k) \<and>
    both_agree (settle 2 env (handleInvalidData relay sandbox sid (toSessionKey relay sandbox) ref s) k)"
proof -
  have reg: "registered_ok s" using ag by (simp add: agrees_def)
  note r = registeredD [OF reg ref]
  obtain o' y where c: "telemetry_closeStream sid (deref s ref) = (o', y)" by fastforce
  consider (absent) "o' = None" "y = deref s ref"
    | (there) st where "o' = Some st" "js_get (telemetryStreams (deref s ref)) sid = Some st" "streamNumber st = sid"
    using close_stream_cases [OF r(2) c] by blast
  then show ?thesis
  proof cases
    case absent
    then have "update_session ref y s = s" by (simp add: update_session_def deref_def)
    then show ?thesis using absent(1) c ag r(4)
      by (simp add: handleClose_def handleInvalidData_def invalidateStream_def Let_def returned_def both_agree_def
          delete_nonempty numeral_2_eq_2)
  next
    case there
    have y: "y = snd (telemetry_closeStream sid (deref s ref))" using c by simp
    have "agrees (deleteSessionIfEmpty (toSessionKey relay sandbox) ref (update_session ref y s))
        (snd (sink_closeStream (toIngressStream relay sandbox st) k))"
      unfolding y by (rule agrees_close [OF ag ref plain there(2,3)]) simp
    then show ?thesis using there(1) c
      by (cases "sink_closeStream (toIngressStream relay sandbox st) k"; cases "fst (sink_closeStream (toIngressStream relay sandbox st) k)")
        (simp_all add: handleClose_def handleInvalidData_def invalidateStream_def Let_def returned_def waits_def
          both_agree_def numeral_2_eq_2)
  qed
qed

lemma agrees_delivery:
  assumes ag: "agrees s k" and plain: "plain_id relay" "plain_id sandbox"
  shows "both_agree (run_delivery env relay sandbox d (s, k))"
proof -
  have none: "both_agree (settle 2 env (returned ms, s) k)" for ms
    using ag by (simp add: returned_def both_agree_def numeral_2_eq_2)
  show ?thesis
  proof (cases "js_get (sessionRefs s) (toSessionKey relay sandbox)")
    case None
    then show ?thesis using agrees_open [OF ag plain] none by (cases d) (simp_all add: run_delivery_def with_session_def)
  next
    case (Some ref)
    then show ?thesis
      using agrees_open [OF ag plain] agrees_data [OF ag Some plain] agrees_close_delivery [OF ag Some plain]
      by (cases d) (simp_all add: run_delivery_def with_session_def)
  qed
qed

lemma fold_close_has:
  assumes "plain_id relay" "plain_id sandbox" "plain_id r" "plain_id sb"
  shows "sink_has (fold (\<lambda>req k. snd (perform env req k)) (map (\<lambda>st. SinkClose (toIngressStream relay sandbox st)) sts) k) r sb i \<longleftrightarrow>
    sink_has k r sb i \<and> \<not> (r = relay \<and> sb = sandbox \<and> i \<in> streamNumber ` set sts)"
  by (induction sts arbitrary: k) (auto simp: closed_sink [OF assms])

lemma agrees_detach:
  assumes ag: "agrees s k" and plain: "plain_id relay" "plain_id sandbox"
  shows "agrees (fst (run_detach env relay sandbox (s, k))) (snd (run_detach env relay sandbox (s, k)))"
proof (cases "js_get (sessionRefs s) (toSessionKey relay sandbox)")
  case None
  then show ?thesis using ag by (simp add: run_detach_def telemetry_detachBootstrapSession_def)
next
  case (Some ref)
  have reg: "registered_ok s" using ag by (simp add: agrees_def)
  note r = registeredD [OF reg Some]
  let ?x = "snd (telemetry_closeAllStreams (deref s ref))" and ?sts = "js_values (telemetryStreams (deref s ref))"
  let ?k = "fold (\<lambda>req k. snd (perform env req k)) (map (\<lambda>st. SinkClose (toIngressStream relay sandbox st)) ?sts) k"
  have empty: "telemetryStreams ?x = []" "telemetryInitialWindow ?x = telemetryInitialWindow (deref s ref)"
    by (simp_all add: telemetry_closeAllStreams_def)
  have all: "i \<in> streamNumber ` set ?sts" if "js_has (telemetryStreams (deref s ref)) i" for i
  proof -
    from that have "\<exists>st. js_get (telemetryStreams (deref s ref)) i = Some st" by (auto simp: js_has_def)
    then obtain st where st: "js_get (telemetryStreams (deref s ref)) i = Some st" by blast
    then have "st \<in> set ?sts" by (force dest: map_of_SomeD)
    then show ?thesis using telemetry_session_okD(1) [OF r(2) st] by force
  qed
  have "agrees (deleteSessionIfEmpty (toSessionKey relay sandbox) ref (update_session ref ?x s)) ?k"
  proof (rule agrees_update [OF ag Some plain telemetry_session_ok_steps(1) [OF r(2)]])
    show "0 \<le> telemetryInitialWindow ?x" using r(3) by (simp add: empty)
    show "sink_has ?k relay sandbox sid = js_has (telemetryStreams ?x) sid" for sid
      unfolding fold_close_has [OF plain plain] using all [of sid] ag plain Some
      by (auto simp: empty js_has_def [of "[]"] agrees_def service_has_def)
    show "sink_has ?k r sb sid = sink_has k r sb sid" if "plain_id r" "plain_id sb" "(r, sb) \<noteq> (relay, sandbox)" for r sb sid
      unfolding fold_close_has [OF plain that(1,2)] using that(3) by auto
  qed
  moreover have "deleteSessionIfEmpty (toSessionKey relay sandbox) ref (update_session ref ?x s) =
      update_session ref ?x (s\<lparr>sessionRefs := js_delete (toSessionKey relay sandbox) (sessionRefs s)\<rparr>)"
    using r(1) by (simp add: deleteSessionIfEmpty_def deref_update telemetry_streamCount_def empty)
      (simp add: update_session_def)
  ultimately show ?thesis using Some
    by (simp add: run_detach_def telemetry_detachBootstrapSession_def telemetry_closeAllStreams_def Let_def)
qed

datatype service_event =
    Delivered string string telemetry_delivery
  | Detached string string

fun plain_event :: "service_event \<Rightarrow> bool" where
  "plain_event (Delivered relay sandbox d) \<longleftrightarrow> plain_id relay \<and> plain_id sandbox"
| "plain_event (Detached relay sandbox) \<longleftrightarrow> plain_id relay \<and> plain_id sandbox"

fun run_event :: "sink_env \<Rightarrow> service_event \<Rightarrow> telemetry_service \<times> otlp_sink \<Rightarrow> telemetry_service \<times> otlp_sink" where
  "run_event env (Delivered relay sandbox d) sk = snd (run_delivery env relay sandbox d sk)"
| "run_event env (Detached relay sandbox) sk = run_detach env relay sandbox sk"

definition new_sink :: otlp_sink where
  "new_sink = \<lparr> sinkStreams = [], sinkMetrics = [], emittedRecords = [], forwardedTraces = [] \<rparr>"

text \<open>
  C32: When the deliveries and detaches are handled one after the other, each to its end, the sink
  has a stream open exactly when the session of that relay session has it: no stream of the sink
  outlives its session, whatever is refused, reset, exhausted, malformed or closed on the way, and
  no session that is still registered is without streams.
\<close>

theorem sink_and_sessions_agree:
  assumes "\<forall>e\<in>set events. plain_event e" "plain_id relay" "plain_id sandbox"
  shows "case fold (run_event env) events (new_telemetry_service, new_sink) of (s, k) \<Rightarrow>
    sink_has k relay sandbox sid = service_has s relay sandbox sid \<and>
    (case js_get (sessionRefs s) (toSessionKey relay sandbox) of None \<Rightarrow> True
     | Some ref \<Rightarrow> telemetry_streamCount (deref s ref) \<noteq> 0)"
proof -
  have step: "agrees (fst (run_event env e sk)) (snd (run_event env e sk))"
    if "agrees (fst sk) (snd sk)" "plain_event e" for e sk
    using that agrees_delivery [of "fst sk" "snd sk"] agrees_detach [of "fst sk" "snd sk"]
    by (cases e) (simp_all add: both_agree_def)
  have "agrees (fst (fold (run_event env) es sk)) (snd (fold (run_event env) es sk))"
    if "agrees (fst sk) (snd sk)" "\<forall>e\<in>set es. plain_event e" for es sk
    using that by (induction es arbitrary: sk) (simp_all add: step)
  moreover have "agrees new_telemetry_service new_sink"
    by (simp add: agrees_def registered_ok_def new_telemetry_service_def new_sink_def sink_has_def service_has_def js_has_def)
  ultimately have "agrees (fst (fold (run_event env) events (new_telemetry_service, new_sink)))
      (snd (fold (run_event env) events (new_telemetry_service, new_sink)))" using assms(1) by simp
  then show ?thesis using assms(2,3)
    by (auto simp: agrees_def registered_ok_def split: prod.splits option.splits)
qed

lemma sink_and_sessions_agree_witness:
  "case fold (run_event \<lparr> env_utf8 = \<lambda>_. None, env_json = \<lambda>_. None, env_date = \<lambda>_. None, env_now = 0,
       env_gatewayNodeId = ''gw'', env_forward = \<lambda>_ _. None \<rparr>)
      [Delivered ''rs'' ''sbi'' (OpenDelivery RuntimeLogV1 LogsSignal 1),
       Delivered ''rs'' ''sbi'' (DataDelivery [1, 0, 0, 0, 1, 1, 10, 65, 10] 1)] (new_telemetry_service, new_sink) of (s, k) \<Rightarrow>
    sink_has k ''rs'' ''sbi'' 1 = service_has s ''rs'' ''sbi'' 1 \<and>
    (case js_get (sessionRefs s) (toSessionKey ''rs'' ''sbi'') of None \<Rightarrow> True
     | Some ref \<Rightarrow> telemetry_streamCount (deref s ref) \<noteq> 0)"
  by (rule sink_and_sessions_agree) (simp_all add: plain_id_def)

end
