(* ===== verification/OperationIngress.thy ===== *)
theory OperationIngress
  imports IngressSessions JsonValues
begin

text \<open>
  The operation ingress of the gateway,
  \<open>apps/data-plane-gateway/src/tunnel/operation-ingress/sandbox-operation-ingress-service.ts\<close>: the
  records a sandbox reports about a running operation are parsed, charged against the transcript
  budget of the operation and written to the data plane by
  \<open>packages/db/src/data-plane/sandbox-operation-event-writer.ts\<close>.

  The deliveries of one session are chained, so each runs to its end before the next; the model
  takes a delivery as one step. The event table is the list of its rows in the order of insertion;
  the insertion holds the advisory lock of the operation, so it is one step too. \<open>JSON.parse\<close>, the text
  decoder and the base64 functions of \<open>Buffer\<close> are parameters, as is the failure of an insertion.
\<close>

section \<open>Records\<close>

datatype operation_record =
    LifecycleRecord (recordAttributes: "(string \<times> json) list") (recordMessage: string) (observedAt: string)
      (lifecyclePhase: string) (recordSource: "string option") (lifecycleStatus: string)
  | TranscriptRecord (observedAt: string) (payloadBytes: "byte list") (transcriptPhase: "string option")
      (recordSource: "string option") (transcriptStream: string)

definition MaxOperationRecordBytes :: nat where
  "MaxOperationRecordBytes = 64 * 1024"

definition MaxPersistedTranscriptBytesPerOperation :: nat where
  "MaxPersistedTranscriptBytesPerOperation = 1024 * 1024"

type_synonym json_object = "(string \<times> json) list"

definition field_message :: "string \<Rightarrow> string \<Rightarrow> string" where
  "field_message key rest = ''Operation record field '' @ CHR 0x27 # key @ CHR 0x27 # '' '' @ rest"

definition readString :: "json_object \<Rightarrow> string \<Rightarrow> string + string" where
  "readString record key = (case js_get record key of
     Some (JString s) \<Rightarrow> Inr s | _ \<Rightarrow> Inl (field_message key ''must be a string.''))"

definition readNonEmptyString :: "json_object \<Rightarrow> string \<Rightarrow> string + string" where
  "readNonEmptyString record key = and_then (readString record key) (\<lambda>s.
     if s = [] then Inl (field_message key ''must be non-empty.'') else Inr s)"

definition readOptionalNonEmptyString :: "json_object \<Rightarrow> string \<Rightarrow> string + string option" where
  "readOptionalNonEmptyString record key = (case js_get record key of
     None \<Rightarrow> Inr None | Some _ \<Rightarrow> and_then (readNonEmptyString record key) (\<lambda>s. Inr (Some s)))"

definition LifecyclePhases :: "string list" where
  "LifecyclePhases = [''provider'', ''storage_provision'', ''storage_attach'', ''sandboxd'',
     ''operation_stream'', ''git_identity'', ''egress'', ''runtime_plan'', ''setup_script'',
     ''runtime_processes'', ''runtime_adapters'', ''agent_endpoint'', ''ready'', ''running'', ''snapshot'',
     ''stop'', ''teardown'']"

definition read_enum :: "string list \<Rightarrow> string \<Rightarrow> json_object \<Rightarrow> string \<Rightarrow> string + string" where
  "read_enum values what record key = and_then (readNonEmptyString record key) (\<lambda>s.
     if s \<in> set values then Inr s else Inl (field_message key (''is not a supported '' @ what @ ''.'')))"

definition readLifecyclePhase :: "json_object \<Rightarrow> string \<Rightarrow> string + string" where
  "readLifecyclePhase = read_enum LifecyclePhases ''lifecycle phase''"

definition readLifecycleStatus :: "json_object \<Rightarrow> string \<Rightarrow> string + string" where
  "readLifecycleStatus = read_enum [''started'', ''completed'', ''failed'', ''warning''] ''lifecycle status''"

definition readOptionalOperationSource :: "json_object \<Rightarrow> string \<Rightarrow> string + string option" where
  "readOptionalOperationSource record key = and_then (readOptionalNonEmptyString record key) (\<lambda>v. case v of
     None \<Rightarrow> Inr None
   | Some s \<Rightarrow> if s \<in> set [''worker'', ''gateway'', ''sandboxd''] then Inr (Some s)
       else Inl (field_message key ''is not a supported source.''))"

definition readTranscriptStream :: "json_object \<Rightarrow> string \<Rightarrow> string + string" where
  "readTranscriptStream = read_enum [''stdout'', ''stderr'', ''system''] ''transcript stream''"

definition readRecordAttributes :: "json_object \<Rightarrow> string + json_object" where
  "readRecordAttributes record = (case js_get record ''attributes'' of
     None \<Rightarrow> Inr []
   | Some (JObject attributes) \<Rightarrow> Inr attributes
   | Some _ \<Rightarrow> Inl ''Lifecycle operation record attributes must be an object.'')"

record ingress_env =
  env_decodeText :: "byte list \<Rightarrow> string"
  env_parseJson :: "string \<Rightarrow> json option"
  env_fromBase64 :: "string \<Rightarrow> byte list"
  env_toBase64 :: "byte list \<Rightarrow> string"

definition decodeBase64Payload :: "ingress_env \<Rightarrow> string \<Rightarrow> string + byte list" where
  "decodeBase64Payload env value =
     (let buffer = env_fromBase64 env value in
      if buffer = [] \<or> env_toBase64 env buffer \<noteq> value
      then Inl ''Transcript operation record payloadBase64 must contain valid base64 bytes.'' else Inr buffer)"

definition parse_lifecycle :: "json_object \<Rightarrow> string + operation_record" where
  "parse_lifecycle record =
     and_then (readOptionalOperationSource record ''source'') (\<lambda>source.
     and_then (readNonEmptyString record ''observedAt'') (\<lambda>observed.
     and_then (readLifecyclePhase record ''phase'') (\<lambda>phase.
     and_then (readLifecycleStatus record ''status'') (\<lambda>status.
     and_then (readString record ''message'') (\<lambda>message.
     and_then (readRecordAttributes record) (\<lambda>attributes.
       Inr (LifecycleRecord attributes message observed phase source status)))))))"

definition parse_transcript :: "ingress_env \<Rightarrow> json_object \<Rightarrow> string + operation_record" where
  "parse_transcript env record =
     and_then (readNonEmptyString record ''payloadBase64'') (\<lambda>payloadBase64.
     and_then (readOptionalOperationSource record ''source'') (\<lambda>source.
     and_then (readNonEmptyString record ''observedAt'') (\<lambda>observed.
     and_then (decodeBase64Payload env payloadBase64) (\<lambda>bytes.
     and_then (if js_get record ''phase'' = Some JNull then Inr None
       else and_then (readLifecyclePhase record ''phase'') (\<lambda>p. Inr (Some p))) (\<lambda>phase.
     and_then (readTranscriptStream record ''stream'') (\<lambda>stream.
       Inr (TranscriptRecord observed bytes phase source stream)))))))"

definition parseOperationRecord :: "ingress_env \<Rightarrow> string \<Rightarrow> string + operation_record" where
  "parseOperationRecord env line = (case env_parseJson env line of
     None \<Rightarrow> Inl ''SyntaxError''
   | Some (JObject record) \<Rightarrow>
       if js_get record ''kind'' = Some (JString ''lifecycle'') then parse_lifecycle record
       else if js_get record ''kind'' = Some (JString ''transcript'') then parse_transcript env record
       else Inl ''Operation record kind must be lifecycle or transcript.''
   | Some _ \<Rightarrow> Inl ''Operation record must be a JSON object.'')"

section \<open>The event table\<close>

record operation_event =
  eventSandboxInstanceId :: string
  eventOperationKind :: operation_kind
  eventOperationId :: string
  eventRecordKind :: string
  eventObservedAt :: string
  eventSource :: string
  eventPhase :: "string option"
  eventStatus :: "string option"
  eventStream :: "string option"
  eventMessage :: string
  eventPayloadBytes :: "byte list option"
  eventAttributes :: json_object

text \<open>A row is its sequence number with the inserted values.\<close>

type_synonym event_table = "(nat \<times> operation_event) list"

definition of_operation :: "string \<Rightarrow> string \<Rightarrow> operation_event \<Rightarrow> bool" where
  "of_operation sandbox opId e \<longleftrightarrow> eventSandboxInstanceId e = sandbox \<and> eventOperationId e = opId"

definition readNextSandboxOperationSequence :: "string \<Rightarrow> string \<Rightarrow> event_table \<Rightarrow> nat" where
  "readNextSandboxOperationSequence sandbox opId rows =
     fold max (map fst (filter (\<lambda>(_, e). of_operation sandbox opId e) rows)) 0 + 1"

definition insertSandboxOperationEvent :: "operation_event \<Rightarrow> event_table \<Rightarrow> event_table" where
  "insertSandboxOperationEvent e rows =
     rows @ [(readNextSandboxOperationSequence (eventSandboxInstanceId e) (eventOperationId e) rows, e)]"

section \<open>The service\<close>

record operation_service =
  operationSessions :: "(string, operation_session) js_map"
  persistedTranscriptBytesByOperation :: "(string, nat) js_map"
  eventRows :: event_table
  insertFailures :: "bool list"

text \<open>\<open>insertFailures\<close> are the outcomes of the insertions to come; when it runs out they succeed.\<close>

datatype operation_delivery =
    OperationOpenMessage string string operation_kind int
  | OperationCloseMessage int
  | OperationDataMessage "byte list" int
  | OperationInvalidMessage int int

definition operation_session_key :: "string \<Rightarrow> string \<Rightarrow> string" where
  "operation_session_key relaySessionId sandboxInstanceId = sandboxInstanceId @ '':'' @ relaySessionId"

definition operation_budget_key :: "string \<Rightarrow> string \<Rightarrow> string" where
  "operation_budget_key sandboxInstanceId opId = sandboxInstanceId @ '':'' @ opId"

definition clearTranscriptBudget :: "string \<Rightarrow> operation_stream \<Rightarrow> operation_service \<Rightarrow> operation_service" where
  "clearTranscriptBudget sandbox st s = s\<lparr>persistedTranscriptBytesByOperation :=
     js_delete (operation_budget_key sandbox (operationId st)) (persistedTranscriptBytesByOperation s)\<rparr>"

definition clear_closed :: "string \<Rightarrow> operation_stream option \<Rightarrow> operation_service \<Rightarrow> operation_service" where
  "clear_closed sandbox o' s = (case o' of None \<Rightarrow> s | Some st \<Rightarrow> clearTranscriptBudget sandbox st s)"

text \<open>The session object is written back under its key, and deleted when it has no stream.\<close>

definition store_session :: "string \<Rightarrow> operation_session \<Rightarrow> operation_service \<Rightarrow> operation_service" where
  "store_session sessionKey session s = s\<lparr>operationSessions := js_set sessionKey session (operationSessions s)\<rparr>"

definition deleteOperationSessionIfEmpty :: "string \<Rightarrow> operation_session \<Rightarrow> operation_service \<Rightarrow> operation_service" where
  "deleteOperationSessionIfEmpty sessionKey session s =
     (if operation_streamCount session = 0 then s\<lparr>operationSessions := js_delete sessionKey (operationSessions s)\<rparr> else s)"

definition event_of_record :: "string \<Rightarrow> operation_stream \<Rightarrow> operation_record \<Rightarrow> operation_event" where
  "event_of_record sandbox st r = (let source = (case recordSource r of None \<Rightarrow> ''sandboxd'' | Some x \<Rightarrow> x) in
     case r of
       LifecycleRecord attributes message observed phase _ status \<Rightarrow>
         \<lparr> eventSandboxInstanceId = sandbox, eventOperationKind = operationKind st, eventOperationId = operationId st,
           eventRecordKind = ''lifecycle'', eventObservedAt = observed, eventSource = source, eventPhase = Some phase,
           eventStatus = Some status, eventStream = None, eventMessage = message, eventPayloadBytes = None,
           eventAttributes = attributes \<rparr>
     | TranscriptRecord observed bytes phase _ stream \<Rightarrow>
         \<lparr> eventSandboxInstanceId = sandbox, eventOperationKind = operationKind st, eventOperationId = operationId st,
           eventRecordKind = ''transcript'', eventObservedAt = observed, eventSource = source, eventPhase = phase,
           eventStatus = None, eventStream = Some stream, eventMessage = [], eventPayloadBytes = Some bytes,
           eventAttributes = [] \<rparr>)"

fun transcript_bytes :: "operation_record \<Rightarrow> nat" where
  "transcript_bytes (TranscriptRecord _ bytes _ _ _) = length bytes"
| "transcript_bytes (LifecycleRecord _ _ _ _ _ _) = 0"

text \<open>The transcript bytes are charged before the insertion; \<open>None\<close> when they exceed the budget.\<close>

definition charge_transcript :: "string \<Rightarrow> nat \<Rightarrow> operation_service \<Rightarrow> operation_service option" where
  "charge_transcript operationKey transcriptBytes s =
     (if transcriptBytes = 0 then Some s
      else let persistedBytes = (case js_get (persistedTranscriptBytesByOperation s) operationKey of None \<Rightarrow> 0 | Some n \<Rightarrow> n)
        in if persistedBytes + transcriptBytes > MaxPersistedTranscriptBytesPerOperation then None
           else Some (s\<lparr>persistedTranscriptBytesByOperation :=
             js_set operationKey (persistedBytes + transcriptBytes) (persistedTranscriptBytesByOperation s)\<rparr>))"

definition try_insert :: "operation_event \<Rightarrow> operation_service \<Rightarrow> (string + unit) \<times> operation_service" where
  "try_insert e s = (case insertFailures s of
     True # fs \<Rightarrow> (Inl ''insert failed'', s\<lparr>insertFailures := fs\<rparr>)
   | False # fs \<Rightarrow> (Inr (), s\<lparr>insertFailures := fs, eventRows := insertSandboxOperationEvent e (eventRows s)\<rparr>)
   | [] \<Rightarrow> (Inr (), s\<lparr>eventRows := insertSandboxOperationEvent e (eventRows s)\<rparr>))"

fun persist_lines ::
  "ingress_env \<Rightarrow> string \<Rightarrow> operation_stream \<Rightarrow> string list \<Rightarrow> operation_service \<Rightarrow> (string + unit) \<times> operation_service" where
  "persist_lines env sandbox st [] s = (Inr (), s)"
| "persist_lines env sandbox st (line # lines) s =
     (if length line > MaxOperationRecordBytes then persist_lines env sandbox st lines s
      else (case parseOperationRecord env line of
        Inl e \<Rightarrow> (Inl e, s)
      | Inr r \<Rightarrow> (case charge_transcript (operation_budget_key sandbox (operationId st)) (transcript_bytes r) s of
          None \<Rightarrow> persist_lines env sandbox st lines s
        | Some s1 \<Rightarrow> (case try_insert (event_of_record sandbox st r) s1 of
            (Inl e, s2) \<Rightarrow> (Inl e, s2)
          | (Inr _, s2) \<Rightarrow> persist_lines env sandbox st lines s2))))"

definition persistRecords ::
  "ingress_env \<Rightarrow> string \<Rightarrow> operation_stream \<Rightarrow> byte list \<Rightarrow> operation_service \<Rightarrow> (string + unit) \<times> operation_service" where
  "persistRecords env sandbox st pay s =
     persist_lines env sandbox st (filter (\<lambda>l. l \<noteq> []) (js_split (CHR 0x0A) (env_decodeText env pay))) s"

definition operation_handleOpen ::
  "string \<Rightarrow> string \<Rightarrow> string \<Rightarrow> string \<Rightarrow> operation_kind \<Rightarrow> int \<Rightarrow> operation_service \<Rightarrow>
   operation_control_message list \<times> operation_service" where
  "operation_handleOpen relay sandbox format opId kind sid s =
     (let sessionKey = operation_session_key relay sandbox;
          session = (case js_get (operationSessions s) sessionKey of None \<Rightarrow> new_operation_session | Some x \<Rightarrow> x)
      in case operation_openStream format opId kind sid session of
           ((response, None), session') \<Rightarrow> ([response], deleteOperationSessionIfEmpty sessionKey session' s)
         | ((response, Some _), session') \<Rightarrow> ([response], store_session sessionKey session' s))"

definition operation_handleData ::
  "ingress_env \<Rightarrow> string \<Rightarrow> byte list \<Rightarrow> int \<Rightarrow> string \<Rightarrow> operation_session \<Rightarrow> operation_service \<Rightarrow>
   (string + operation_control_message list) \<times> operation_service" where
  "operation_handleData env sandbox encoded sid sessionKey session s = (case decodeDataFrame encoded of
     Inl e \<Rightarrow> (Inl e, s)
   | Inr frame \<Rightarrow> (case operation_consumeWindow (int (length (payload frame))) sid session of
       (WindowReset response closed, session1) \<Rightarrow>
         (Inr [response], deleteOperationSessionIfEmpty sessionKey session1
            (store_session sessionKey session1 (clear_closed sandbox closed s)))
     | (WindowOk st, session1) \<Rightarrow> (case persistRecords env sandbox st (payload frame) s of
         (Inl _, s1) \<Rightarrow>
           (case operation_closeStream (streamNumber st) session1 of (closed, session2) \<Rightarrow>
             (Inr [createOperationReset ''operation_ingest_failed'' ''Gateway failed to ingest operation records.'' (streamNumber st)],
              deleteOperationSessionIfEmpty sessionKey session2
                (store_session sessionKey session2 (clear_closed sandbox closed s1))))
       | (Inr _, s1) \<Rightarrow>
           (case operation_grantWindowIfNeeded (streamNumber st) session1 of (replenishWindow, session2) \<Rightarrow>
             (Inr (case replenishWindow of None \<Rightarrow> [] | Some m \<Rightarrow> [m]), store_session sessionKey session2 s1)))))"

definition operation_close_and_clear ::
  "string \<Rightarrow> int \<Rightarrow> string \<Rightarrow> operation_session \<Rightarrow> operation_service \<Rightarrow> operation_service" where
  "operation_close_and_clear sandbox sid sessionKey session s =
     (case operation_closeStream sid session of (closed, session') \<Rightarrow>
       deleteOperationSessionIfEmpty sessionKey session' (store_session sessionKey session' (clear_closed sandbox closed s)))"

fun operation_delivery_stream :: "operation_delivery \<Rightarrow> int" where
  "operation_delivery_stream (OperationOpenMessage _ _ _ sid) = sid"
| "operation_delivery_stream (OperationCloseMessage sid) = sid"
| "operation_delivery_stream (OperationDataMessage _ sid) = sid"
| "operation_delivery_stream (OperationInvalidMessage _ sid) = sid"

definition processDelivery ::
  "ingress_env \<Rightarrow> string \<Rightarrow> string \<Rightarrow> operation_delivery \<Rightarrow> operation_service \<Rightarrow>
   (string + operation_control_message list) \<times> operation_service" where
  "processDelivery env relay sandbox d s =
     (let sessionKey = operation_session_key relay sandbox in
      case d of
        OperationOpenMessage format opId kind sid \<Rightarrow>
          apfst Inr (operation_handleOpen relay sandbox format opId kind sid s)
      | _ \<Rightarrow> (case js_get (operationSessions s) sessionKey of
          None \<Rightarrow> (Inr (case d of OperationCloseMessage _ \<Rightarrow> []
             | _ \<Rightarrow> [createOperationReset ''operation_stream_not_found''
                 (''Operation stream '' @ string_of_int (operation_delivery_stream d) @
                  '' is not open on this bootstrap session.'') (operation_delivery_stream d)]), s)
        | Some session \<Rightarrow> (case d of
            OperationDataMessage encoded sid \<Rightarrow> operation_handleData env sandbox encoded sid sessionKey session s
          | OperationInvalidMessage _ sid \<Rightarrow>
              (Inr [createOperationReset ''invalid_operation_payload_kind'' ''Operation streams only accept raw-bytes payloads.'' sid],
               operation_close_and_clear sandbox sid sessionKey session s)
          | OperationCloseMessage sid \<Rightarrow> (Inr [], operation_close_and_clear sandbox sid sessionKey session s)
          | OperationOpenMessage _ _ _ _ \<Rightarrow> (Inr [], s))))"

definition operation_detachBootstrapSession :: "string \<Rightarrow> string \<Rightarrow> operation_service \<Rightarrow> operation_service" where
  "operation_detachBootstrapSession relay sandbox s =
     (let sessionKey = operation_session_key relay sandbox in
      case js_get (operationSessions s) sessionKey of
        None \<Rightarrow> s
      | Some session \<Rightarrow> (fold (clearTranscriptBudget sandbox) (fst (operation_closeAllStreams session)) s)
          \<lparr>operationSessions := js_delete sessionKey (operationSessions s)\<rparr>)"

definition operation_shutdown :: "operation_service \<Rightarrow> operation_service" where
  "operation_shutdown s = s\<lparr>operationSessions := [], persistedTranscriptBytesByOperation := []\<rparr>"

definition new_operation_service :: "bool list \<Rightarrow> operation_service" where
  "new_operation_service failures = \<lparr> operationSessions = [], persistedTranscriptBytesByOperation = [],
     eventRows = [], insertFailures = failures \<rparr>"

section \<open>The transcript budget\<close>

definition event_bytes :: "operation_event \<Rightarrow> nat" where
  "event_bytes e = (case eventPayloadBytes e of None \<Rightarrow> 0 | Some bs \<Rightarrow> length bs)"

definition transcript_total :: "string \<Rightarrow> string \<Rightarrow> event_table \<Rightarrow> nat" where
  "transcript_total sandbox opId rows =
     sum_list (map (\<lambda>(_, e). event_bytes e) (filter (\<lambda>(_, e). of_operation sandbox opId e) rows))"

definition budget_used :: "string \<Rightarrow> string \<Rightarrow> operation_service \<Rightarrow> nat" where
  "budget_used sandbox opId s = (case js_get (persistedTranscriptBytesByOperation s) (operation_budget_key sandbox opId) of
     None \<Rightarrow> 0 | Some n \<Rightarrow> n)"

text \<open>What is in the table has been charged, and the charge is within the budget.\<close>

definition charged :: "string \<Rightarrow> string \<Rightarrow> operation_service \<Rightarrow> bool" where
  "charged sandbox opId s \<longleftrightarrow> transcript_total sandbox opId (eventRows s) \<le> budget_used sandbox opId s \<and>
     budget_used sandbox opId s \<le> MaxPersistedTranscriptBytesPerOperation"

lemma transcript_total_insert:
  "transcript_total sandbox opId (insertSandboxOperationEvent e rows) =
     transcript_total sandbox opId rows + (if of_operation sandbox opId e then event_bytes e else 0)"
  by (simp add: transcript_total_def insertSandboxOperationEvent_def)

lemma event_of_record_bytes:
  "event_bytes (event_of_record sandbox st r) = transcript_bytes r"
  "of_operation sandbox opId (event_of_record sandbox st r) \<longleftrightarrow> operationId st = opId"
  by (cases r; simp add: event_of_record_def event_bytes_def of_operation_def Let_def)+

lemma try_insert_keeps:
  assumes "try_insert e s = (r, s')"
  shows "operationSessions s' = operationSessions s \<and>
    persistedTranscriptBytesByOperation s' = persistedTranscriptBytesByOperation s \<and>
    transcript_total sandbox opId (eventRows s') \<le>
      transcript_total sandbox opId (eventRows s) + (if of_operation sandbox opId e then event_bytes e else 0)"
  using assms by (auto simp: try_insert_def transcript_total_insert split: list.splits bool.splits)

lemma charge_transcript_used:
  assumes "charge_transcript (operation_budget_key sandbox opId) n s = Some s'"
  shows "operationSessions s' = operationSessions s" "eventRows s' = eventRows s"
    "budget_used sandbox opId s' = budget_used sandbox opId s + n"
    "budget_used sandbox opId s \<le> MaxPersistedTranscriptBytesPerOperation \<Longrightarrow>
       budget_used sandbox opId s' \<le> MaxPersistedTranscriptBytesPerOperation"
  using assms by (auto simp: charge_transcript_def budget_used_def Let_def store_simps split: if_splits)

lemma persist_lines_charged:
  assumes "persist_lines env sandbox st lines s = (r, s')" "charged sandbox (operationId st) s"
  shows "charged sandbox (operationId st) s' \<and> operationSessions s' = operationSessions s"
  using assms
proof (induction env sandbox st lines s rule: persist_lines.induct)
  case (2 env sandbox st line lines s)
  let ?op = "operationId st"
  show ?case
  proof (cases "length line > MaxOperationRecordBytes")
    case True
    then show ?thesis using 2 by simp
  next
    case short: False
    show ?thesis
    proof (cases "parseOperationRecord env line")
      case (Inl e)
      then show ?thesis using 2 short by simp
    next
      case (Inr rec)
      show ?thesis
      proof (cases "charge_transcript (operation_budget_key sandbox ?op) (transcript_bytes rec) s")
        case None
        then show ?thesis using 2(2) [OF short Inr None] 2(4,5) Inr short by simp
      next
        case (Some s1)
        obtain q s2 where ins: "try_insert (event_of_record sandbox st rec) s1 = (q, s2)" by fastforce
        have "charged sandbox ?op s2" "operationSessions s2 = operationSessions s"
          using try_insert_keeps [OF ins, of sandbox ?op] charge_transcript_used [OF Some] 2(5)
          by (simp_all add: charged_def event_of_record_bytes) (simp add: budget_used_def)
        then show ?thesis using 2(3) [OF short Inr Some ins [symmetric]] 2(4) Inr short Some ins
          by (cases q) auto
      qed
    qed
  qed
qed simp

text \<open>The deliveries of one session after its open: while the stream is open the table is charged
  to the budget; once it is closed nothing more is written.\<close>

definition budget_kept :: "string \<Rightarrow> string \<Rightarrow> string \<Rightarrow> operation_service \<Rightarrow> bool" where
  "budget_kept relay sandbox opId s \<longleftrightarrow> (case js_get (operationSessions s) (operation_session_key relay sandbox) of
     None \<Rightarrow> transcript_total sandbox opId (eventRows s) \<le> MaxPersistedTranscriptBytesPerOperation
   | Some x \<Rightarrow> operation_session_ok x \<and> 0 \<le> operationInitialWindow x \<and>
       (\<exists>st. js_get (operationStreams x) OperationStreamId = Some st \<and> operationId st = opId) \<and> charged sandbox opId s)"

lemma clear_closed_keeps:
  "eventRows (clear_closed sandbox c s) = eventRows s" "operationSessions (clear_closed sandbox c s) = operationSessions s"
  by (simp_all add: clear_closed_def clearTranscriptBudget_def split: option.splits)

lemma close_only_stream:
  assumes "operation_session_ok x" "js_get (operationStreams x) sid = Some st"
  shows "operation_streamCount (snd (operation_closeStream sid x)) = 0"
proof -
  have "js_get (js_delete sid (operationStreams x)) k = None" for k
    using operation_session_okD [OF assms(1), of k] operation_session_okD [OF assms]
    by (cases "js_get (operationStreams x) k") (auto simp: store_simps)
  then have "js_delete sid (operationStreams x) = []" by (metis map_of_eq_empty_iff ext)
  then show ?thesis using assms(2) by (simp add: operation_closeStream_def operation_streamCount_def)
qed

lemma budget_kept_close:
  assumes kept: "budget_kept relay sandbox opId s"
    and x: "js_get (operationSessions s) (operation_session_key relay sandbox) = Some x"
    and s': "operationSessions s' = operationSessions s" "charged sandbox opId s'"
    and y: "operation_session_ok y" "0 \<le> operationInitialWindow y"
      "js_get (operationStreams y) OperationStreamId = Some st" "operationId st = opId"
  shows "budget_kept relay sandbox opId (deleteOperationSessionIfEmpty (operation_session_key relay sandbox)
      (snd (operation_closeStream sid y))
      (store_session (operation_session_key relay sandbox) (snd (operation_closeStream sid y))
        (clear_closed sandbox (fst (operation_closeStream sid y)) s')))"
proof (cases "js_get (operationStreams y) sid")
  case (Some st')
  have "operation_streamCount (snd (operation_closeStream sid y)) = 0"
    by (rule close_only_stream [OF y(1) Some])
  then show ?thesis using s'(2)
    by (simp add: budget_kept_def deleteOperationSessionIfEmpty_def store_session_def clear_closed_keeps store_simps charged_def)
next
  case None
  then have c: "operation_closeStream sid y = (None, y)" by (simp add: operation_closeStream_def)
  have "operation_streamCount y \<noteq> 0" using y(3) by (auto simp: operation_streamCount_def)
  then show ?thesis using s' y
    by (simp add: c clear_closed_def budget_kept_def deleteOperationSessionIfEmpty_def store_session_def store_simps charged_def
        budget_used_def)
qed

lemma consumed_stream:
  assumes "operation_consumeWindow n sid x = (WindowOk t, y)" "operation_session_ok x" "0 \<le> operationInitialWindow x" "0 \<le> n"
    "js_get (operationStreams x) OperationStreamId = Some st"
  shows "operation_session_ok y" "operationInitialWindow y = operationInitialWindow x"
    "js_get (operationStreams y) OperationStreamId = Some t" "operationId t = operationId st"
    "operationKind t = operationKind st" "streamNumber t = OperationStreamId"
proof -
  obtain st' where st': "js_get (operationStreams x) sid = Some st'" "take_window n st' = Some t"
      "y = x\<lparr>operationStreams := js_set sid t (operationStreams x)\<rparr>"
    using assms(1) by (auto simp: operation_consumeWindow_def split: option.splits)
  have sid: "sid = OperationStreamId" "st' = st" using operation_session_okD [OF assms(2) st'(1)] st'(1) assms(5) by auto
  show "operation_session_ok y" using operation_session_ok_steps(4) [OF assms(2,3,4), of sid] assms(1) by simp
  show "operationInitialWindow y = operationInitialWindow x" by (simp add: st')
  show "js_get (operationStreams y) OperationStreamId = Some t" by (simp add: st' sid store_simps)
  show "operationId t = operationId st" "operationKind t = operationKind st"
    using st'(2) sid by (auto simp: take_window_def split: if_splits)
  show "streamNumber t = OperationStreamId"
    using take_window_fields [OF st'(2)] operation_session_okD [OF assms(2,5)] sid by simp
qed

lemma granted_session:
  assumes "operation_session_ok x" "0 \<le> operationInitialWindow x"
    "js_get (operationStreams x) OperationStreamId = Some st"
  shows "operationInitialWindow (snd (operation_grantWindowIfNeeded sid x)) = operationInitialWindow x \<and>
    (\<exists>t. js_get (operationStreams (snd (operation_grantWindowIfNeeded sid x))) OperationStreamId = Some t \<and> operationId t = operationId st)"
proof (cases "js_get (operationStreams x) sid")
  case (Some st')
  then have "sid = OperationStreamId" "st' = st" using operation_session_okD [OF assms(1) Some] assms(3) by auto
  moreover obtain g t where g: "grant_window (operationGrantBatch x) st' = (g, t)" by fastforce
  moreover have "operationId t = operationId st'" using g by (auto simp: grant_window_def Let_def split: if_splits)
  ultimately show ?thesis using Some assms(3)
    by (cases g) (simp_all add: operation_grantWindowIfNeeded_def store_simps)
qed (use assms(3) in \<open>simp add: operation_grantWindowIfNeeded_def\<close>)

lemma budget_kept_data:
  assumes kept: "budget_kept relay sandbox opId s"
    and x: "js_get (operationSessions s) (operation_session_key relay sandbox) = Some x"
  shows "budget_kept relay sandbox opId
    (snd (operation_handleData env sandbox encoded sid (operation_session_key relay sandbox) x s))"
proof (cases "decodeDataFrame encoded")
  case (Inl e)
  then show ?thesis using kept by (simp add: operation_handleData_def)
next
  case (Inr frame)
  obtain st where ok: "operation_session_ok x" "0 \<le> operationInitialWindow x"
      "js_get (operationStreams x) OperationStreamId = Some st" "operationId st = opId" "charged sandbox opId s"
    using kept x by (auto simp: budget_kept_def)
  let ?n = "int (length (payload frame))" and ?key = "operation_session_key relay sandbox"
  obtain res y where c: "operation_consumeWindow ?n sid x = (res, y)" by fastforce
  show ?thesis
  proof (cases res)
    case (WindowReset m closed)
    have "closed = fst (operation_closeStream sid x) \<and> y = snd (operation_closeStream sid x)"
    proof (cases "js_get (operationStreams x) sid")
      case (Some a)
      then have "streamNumber a = sid" using operation_session_okD [OF ok(1) Some] by simp
      then show ?thesis using c WindowReset Some
        by (auto simp: operation_consumeWindow_def operation_closeStream_def split: option.splits)
    qed (use c WindowReset in \<open>auto simp: operation_consumeWindow_def operation_closeStream_def\<close>)
    then show ?thesis using budget_kept_close [OF kept x refl ok(5,1-4), of sid] Inr c WindowReset
      by (simp add: operation_handleData_def)
  next
    case (WindowOk t)
    note t = consumed_stream [OF c [unfolded WindowOk] ok(1,2) _ ok(3)]
    have y: "operation_session_ok y" "0 \<le> operationInitialWindow y" using t ok(2) by simp_all
    obtain r s1 where p: "persistRecords env sandbox t (payload frame) s = (r, s1)" by fastforce
    have s1: "charged sandbox opId s1" "operationSessions s1 = operationSessions s"
      using persist_lines_charged [OF p [unfolded persistRecords_def]] t ok by simp_all
    show ?thesis
    proof (cases r)
      case (Inl e)
      obtain c z where cz: "operation_closeStream (streamNumber t) y = (c, z)" by fastforce
      have "budget_kept relay sandbox opId (deleteOperationSessionIfEmpty ?key z (store_session ?key z (clear_closed sandbox c s1)))"
        using budget_kept_close [OF kept x s1(2,1) y t(3), of "streamNumber t"] t(4) ok(4) cz by simp
      then show ?thesis using \<open>decodeDataFrame encoded = Inr frame\<close> \<open>operation_consumeWindow ?n sid x = (res, y)\<close> WindowOk p Inl cz
        by (simp add: operation_handleData_def)
    next
      case (Inr u)
      obtain g z where gz: "operation_grantWindowIfNeeded (streamNumber t) y = (g, z)" by fastforce
      have "operation_session_ok z" using operation_session_ok_steps(5) [OF y, of "streamNumber t"] gz by simp
      then have "budget_kept relay sandbox opId (store_session ?key z s1)"
        using granted_session [OF y t(3), of "streamNumber t"] gz t(4) ok(4) s1 y(2)
        by (auto simp: budget_kept_def store_session_def store_simps charged_def budget_used_def)
      then show ?thesis using \<open>decodeDataFrame encoded = Inr frame\<close> c WindowOk p Inr gz
        by (simp add: operation_handleData_def)
    qed
  qed
qed

fun is_open_message :: "operation_delivery \<Rightarrow> bool" where
  "is_open_message (OperationOpenMessage _ _ _ _) \<longleftrightarrow> True"
| "is_open_message _ \<longleftrightarrow> False"

lemma budget_kept_step:
  assumes kept: "budget_kept relay sandbox opId s" and d: "\<not> is_open_message d"
  shows "budget_kept relay sandbox opId (snd (processDelivery env relay sandbox d s))"
proof (cases "js_get (operationSessions s) (operation_session_key relay sandbox)")
  case None
  then show ?thesis using kept d by (cases d) (simp_all add: processDelivery_def Let_def)
next
  case (Some x)
  obtain st where ok: "operation_session_ok x" "0 \<le> operationInitialWindow x"
      "js_get (operationStreams x) OperationStreamId = Some st" "operationId st = opId" "charged sandbox opId s"
    using kept Some by (auto simp: budget_kept_def)
  show ?thesis
    using budget_kept_data [OF kept Some] budget_kept_close [OF kept Some refl ok(5,1-4)] Some d
    by (cases d) (simp_all add: processDelivery_def Let_def operation_close_and_clear_def case_prod_unfold)
qed

definition run_deliveries :: "ingress_env \<Rightarrow> string \<Rightarrow> string \<Rightarrow> operation_delivery list \<Rightarrow> operation_service \<Rightarrow> operation_service" where
  "run_deliveries env relay sandbox ds s = fold (\<lambda>d s. snd (processDelivery env relay sandbox d s)) ds s"


text \<open>A sandbox whose every line is a transcript record of \<open>MaxPersistedTranscriptBytesPerOperation\<close> bytes.\<close>

definition full_record :: json_object where
  "full_record = [(''kind'', JString ''transcript''), (''payloadBase64'', JString ''QUFB''),
     (''observedAt'', JString ''2026-01-01''), (''phase'', JNull), (''stream'', JString ''stdout'')]"

definition full_env :: ingress_env where
  "full_env = \<lparr> env_decodeText = \<lambda>_. ''line'', env_parseJson = \<lambda>_. Some (JObject full_record),
     env_fromBase64 = \<lambda>_. replicate MaxPersistedTranscriptBytesPerOperation 65, env_toBase64 = \<lambda>_. ''QUFB'' \<rparr>"

definition record_frame :: "byte list" where
  "record_frame = [1, 255, 255, 255, 253, 1, 65]"

lemma full_env_parses:
  "parseOperationRecord full_env line = Inr (TranscriptRecord ''2026-01-01''
     (replicate MaxPersistedTranscriptBytesPerOperation 65) None None ''stdout'')"
  by (simp add: parseOperationRecord_def full_env_def full_record_def parse_transcript_def readNonEmptyString_def
      readString_def readOptionalOperationSource_def readOptionalNonEmptyString_def decodeBase64Payload_def
      readTranscriptStream_def read_enum_def Let_def MaxPersistedTranscriptBytesPerOperation_def)

lemma record_frame_decodes:
  "decodeDataFrame record_frame = Inr \<lparr>frameKind = 1, streamId = 4294967293, payloadKind = 1, payload = [65]\<rparr>"
  by code_simp


lemma persist_full:
  assumes "budget_used sandbox (operationId st) s = 0" "insertFailures s = []"
  shows "persistRecords full_env sandbox st pay s = (Inr (),
    s\<lparr>persistedTranscriptBytesByOperation := js_set (operation_budget_key sandbox (operationId st))
        MaxPersistedTranscriptBytesPerOperation (persistedTranscriptBytesByOperation s),
      eventRows := insertSandboxOperationEvent (event_of_record sandbox st (TranscriptRecord ''2026-01-01''
        (replicate MaxPersistedTranscriptBytesPerOperation 65) None None ''stdout'')) (eventRows s)\<rparr>)"
proof -
  have "filter (\<lambda>l. l \<noteq> []) (js_split (CHR 0x0A) (env_decodeText full_env pay)) = [''line'']"
    by (simp add: full_env_def)
  moreover have "0 < MaxPersistedTranscriptBytesPerOperation"
    by (simp add: MaxPersistedTranscriptBytesPerOperation_def)
  ultimately show ?thesis using assms
    by (simp add: persistRecords_def full_env_parses charge_transcript_def try_insert_def Let_def
        MaxOperationRecordBytes_def budget_used_def)
qed

text \<open>The service before, in and after a stream of the operation.\<close>

definition op_idle :: "nat \<Rightarrow> operation_service \<Rightarrow> bool" where
  "op_idle n s \<longleftrightarrow> js_get (operationSessions s) (operation_session_key ''rs'' ''sbi'') = None \<and>
     budget_used ''sbi'' ''op'' s = 0 \<and> insertFailures s = [] \<and> transcript_total ''sbi'' ''op'' (eventRows s) = n"

definition op_open :: "bool \<Rightarrow> nat \<Rightarrow> operation_service \<Rightarrow> bool" where
  "op_open unused n s \<longleftrightarrow> (\<exists>x st. js_get (operationSessions s) (operation_session_key ''rs'' ''sbi'') = Some x \<and>
     operationStreams x = [(OperationStreamId, st)] \<and> streamNumber st = OperationStreamId \<and> operationId st = ''op'' \<and>
     (unused \<longrightarrow> remainingWindowBytes st = DefaultStreamWindowBytes \<and> consumedSinceLastWindowGrantBytes st = 0 \<and>
        operationGrantBatch x = OperationWindowGrantBatchBytes \<and> budget_used ''sbi'' ''op'' s = 0)) \<and>
     insertFailures s = [] \<and> transcript_total ''sbi'' ''op'' (eventRows s) = n"

lemma idle_opens:
  "op_idle n s \<Longrightarrow> op_open True n (snd (processDelivery env ''rs'' ''sbi''
     (OperationOpenMessage OperationStreamFormat ''op'' StartOperation OperationStreamId) s))"
  by (simp add: op_idle_def op_open_def processDelivery_def operation_handleOpen_def Let_def operation_openStream_def
      new_operation_session_def store_session_def store_simps js_has_def budget_used_def)

lemma open_persists:
  assumes "op_open True n s"
  shows "op_open False (n + MaxPersistedTranscriptBytesPerOperation)
    (snd (processDelivery full_env ''rs'' ''sbi'' (OperationDataMessage record_frame OperationStreamId) s))"
proof -
  obtain x st where x: "js_get (operationSessions s) (operation_session_key ''rs'' ''sbi'') = Some x"
      "operationStreams x = [(OperationStreamId, st)]" "streamNumber st = OperationStreamId" "operationId st = ''op''"
      "remainingWindowBytes st = DefaultStreamWindowBytes" "consumedSinceLastWindowGrantBytes st = 0"
      "operationGrantBatch x = OperationWindowGrantBatchBytes" "budget_used ''sbi'' ''op'' s = 0" "insertFailures s = []"
      "transcript_total ''sbi'' ''op'' (eventRows s) = n"
    using assms by (auto simp: op_open_def)
  let ?st = "st\<lparr>remainingWindowBytes := DefaultStreamWindowBytes - 1, consumedSinceLastWindowGrantBytes := 1\<rparr>"
  let ?x = "x\<lparr>operationStreams := [(OperationStreamId, ?st)]\<rparr>"
  have c: "operation_consumeWindow 1 OperationStreamId x = (WindowOk ?st, ?x)"
    using x by (simp add: operation_consumeWindow_def take_window_def DefaultStreamWindowBytes_def)
  have g: "operation_grantWindowIfNeeded OperationStreamId ?x = (None, ?x)"
    using x by (simp add: operation_grantWindowIfNeeded_def grant_window_def OperationWindowGrantBatchBytes_def)
  have p: "budget_used ''sbi'' (operationId ?st) s = 0" using x by simp
  show ?thesis
    using x persist_full [OF p x(9), of "[65]"]
    by (simp add: processDelivery_def operation_handleData_def record_frame_decodes c g op_open_def store_session_def
        store_simps transcript_total_insert event_of_record_bytes)
qed

lemma open_closes:
  assumes "op_open False n s"
  shows "op_idle n (snd (processDelivery env ''rs'' ''sbi'' (OperationCloseMessage OperationStreamId) s))"
proof -
  obtain x st where x: "js_get (operationSessions s) (operation_session_key ''rs'' ''sbi'') = Some x"
      "operationStreams x = [(OperationStreamId, st)]" "operationId st = ''op''" "insertFailures s = []"
      "transcript_total ''sbi'' ''op'' (eventRows s) = n"
    using assms by (auto simp: op_open_def)
  then show ?thesis
    by (simp add: processDelivery_def operation_close_and_clear_def operation_closeStream_def op_idle_def
        deleteOperationSessionIfEmpty_def operation_streamCount_def clear_closed_def clearTranscriptBudget_def
        store_session_def store_simps budget_used_def Let_def)
qed

text \<open>
  The budget is forgotten when the stream closes: a sandbox that closes and reopens the stream
  of the same operation has the whole budget again, and the event table ends up with twice
  \<open>MaxPersistedTranscriptBytesPerOperation\<close> transcript bytes of that operation.
\<close>

theorem reopening_renews_budget:
  "transcript_total ''sbi'' ''op'' (eventRows (run_deliveries full_env ''rs'' ''sbi''
     [OperationOpenMessage OperationStreamFormat ''op'' StartOperation OperationStreamId,
      OperationDataMessage record_frame OperationStreamId,
      OperationCloseMessage OperationStreamId,
      OperationOpenMessage OperationStreamFormat ''op'' StartOperation OperationStreamId,
      OperationDataMessage record_frame OperationStreamId] (new_operation_service []))) =
   2 * MaxPersistedTranscriptBytesPerOperation"
proof -
  have "op_idle 0 (new_operation_service [])"
    by (simp add: op_idle_def new_operation_service_def budget_used_def transcript_total_def)
  then have "op_open False (0 + MaxPersistedTranscriptBytesPerOperation + MaxPersistedTranscriptBytesPerOperation)
      (run_deliveries full_env ''rs'' ''sbi''
        [OperationOpenMessage OperationStreamFormat ''op'' StartOperation OperationStreamId,
         OperationDataMessage record_frame OperationStreamId, OperationCloseMessage OperationStreamId,
         OperationOpenMessage OperationStreamFormat ''op'' StartOperation OperationStreamId,
         OperationDataMessage record_frame OperationStreamId] (new_operation_service []))"
    unfolding run_deliveries_def fold.simps comp_def id_def by (intro open_persists idle_opens open_closes)
  then show ?thesis by (simp add: op_open_def)
qed

section \<open>The numbering of the events\<close>

lemma fold_max_upt: "fold max [Suc 0..<Suc n] (0 :: nat) = n"
  by (induction n) simp_all

definition numbered :: "event_table \<Rightarrow> bool" where
  "numbered rows \<longleftrightarrow> (\<forall>sandbox opId. let own = filter (\<lambda>(_, e). of_operation sandbox opId e) rows
     in map fst own = [1..<Suc (length own)])"

lemma numbered_insert: "numbered rows \<Longrightarrow> numbered (insertSandboxOperationEvent e rows)"
  unfolding numbered_def Let_def insertSandboxOperationEvent_def readNextSandboxOperationSequence_def
  by (auto simp: of_operation_def fold_max_upt simp del: upt_Suc simp: upt_Suc_append)

lemma numbered_persist: "numbered (eventRows s) \<Longrightarrow> numbered (eventRows (snd (persist_lines env sandbox st lines s)))"
proof (induction env sandbox st lines s rule: persist_lines.induct)
  case (2 env sandbox st line lines s)
  have ins: "numbered (eventRows (snd (try_insert e s1)))" if "numbered (eventRows s1)" for e s1
    using that numbered_insert by (auto simp: try_insert_def split: list.splits bool.splits)
  show ?case
  proof (cases "length line > MaxOperationRecordBytes")
    case long: False
    show ?thesis
    proof (cases "parseOperationRecord env line")
      case (Inr rec)
      let ?c = "charge_transcript (operation_budget_key sandbox (operationId st)) (transcript_bytes rec) s"
      show ?thesis
      proof (cases ?c)
        case None
        then show ?thesis using 2(2) [OF long Inr None] 2(4) Inr long by simp
      next
        case (Some s1)
        obtain q s2 where q: "try_insert (event_of_record sandbox st rec) s1 = (q, s2)" by fastforce
        have "numbered (eventRows s2)"
          using ins [of s1 "event_of_record sandbox st rec"] q 2(4) charge_transcript_used(2) [OF Some] by simp
        then show ?thesis using 2(3) [OF long Inr Some q [symmetric]] Inr long Some q by (cases q) auto
      qed
    qed (use 2 long in simp)
  qed (use 2 in simp)
qed simp

lemma numbered_step:
  assumes "numbered (eventRows s)"
  shows "numbered (eventRows (snd (processDelivery env relay sandbox d s)))"
proof -
  have plain: "eventRows (deleteOperationSessionIfEmpty k x t) = eventRows t" "eventRows (store_session k x t) = eventRows t"
    for k x t by (simp_all add: deleteOperationSessionIfEmpty_def store_session_def)
  have data: "numbered (eventRows (snd (operation_handleData env sandbox encoded sid k x s)))" for encoded sid k x
    using assms numbered_persist [OF assms, of env sandbox]
    by (auto simp: operation_handleData_def persistRecords_def plain clear_closed_keeps
        split: sum.splits consume_result.splits prod.splits) (metis snd_conv)+
  show ?thesis using assms data
    by (cases d) (auto simp: processDelivery_def Let_def operation_handleOpen_def plain operation_close_and_clear_def
        clear_closed_keeps split: option.splits prod.splits)
qed

definition run_sessions :: "ingress_env \<Rightarrow> (string \<times> string \<times> operation_delivery) list \<Rightarrow> operation_service \<Rightarrow> operation_service" where
  "run_sessions env ds s = fold (\<lambda>(relay, sandbox, d) s. snd (processDelivery env relay sandbox d s)) ds s"

text \<open>
  However the deliveries of any number of sandboxes and relay sessions are interleaved, and
  whatever fails, the events of every operation are numbered 1, 2, 3, ... in the order in which they
  were written: no number is used twice and none is left out.
\<close>

theorem events_numbered:
  "let own = filter (\<lambda>(_, e). of_operation sandbox opId e) (eventRows (run_sessions env ds (new_operation_service failures)))
   in map fst own = [1..<Suc (length own)]"
proof -
  have "numbered (eventRows (run_sessions env ds (new_operation_service failures)))"
  proof (induction ds rule: rev_induct)
    case (snoc d ds)
    then show ?case by (cases d) (simp add: run_sessions_def numbered_step)
  qed (simp add: run_sessions_def numbered_def new_operation_service_def)
  then show ?thesis unfolding numbered_def by blast
qed

end
