(* ===== verification/RuntimePlan.thy ===== *)
theory RuntimePlan
  imports EgressRoutes JsonValues
begin

text \<open>
  The runtime plan of a sandbox profile, \<open>packages/integrations-core/src\<close>: the data of
  \<open>types/index.ts\<close> a plan is made of and the checks of the compiled fragments (\<open>validation/index.ts\<close>).
  \<open>PlanAssembly\<close> has their assembly into one plan.

  A thrown \<open>IntegrationCompilerError\<close> is its code with its message. The maps the validation keeps per
  client id are one map to a record, since they are created together. Ports, statuses and
  timeouts are integers; \<open>new URL(...).protocol\<close> and \<open>localeCompare\<close> are parameters. The image, the event
  routing and the capabilities of an agent runtime are passed through unread.
\<close>

section \<open>Data\<close>

record exec_command =
  commandArgs :: "string list"
  commandEnv :: "(string, string) js_map option"
  commandCwd :: "string option"
  commandTimeoutMs :: "int option"

datatype release_selector = LatestRelease | ExactTag string | LatestMatchingPrefix string

datatype asset_shape =
    BinaryAsset (assetFileName: string) (assetSha256: "string option")
  | TarGzAsset (assetFileName: string) (tarExtractedPath: "string option") (assetSha256: "string option")

datatype release_asset = ExactAsset asset_shape | ByArch asset_shape asset_shape

datatype install_step =
    ExecStep exec_command
  | MiseInstall "string list" "bool option" "int option"
  | GithubReleaseInstall string release_selector release_asset string "int option"

record artifact_spec =
  artifactKey :: string
  artifactName :: string
  artifactDescription :: "string option"
  artifactEnv :: "(string, string) js_map option"
  artifactInstall :: "install_step list"

datatype file_write_mode = Overwrite | IfAbsent | MergeContent

record setup_file =
  fileId :: string
  filePath :: string
  fileMode :: int
  fileContent :: string
  fileWriteMode :: "file_write_mode option"

datatype process_readiness =
    ReadyNone
  | ReadyTcp string int int
  | ReadyWs string int
  | ReadyHttp string int int

datatype stop_signal = Sigterm | Sigkill

record stop_policy =
  stopSignal :: stop_signal
  stopTimeoutMs :: int
  stopGracePeriodMs :: "int option"

record process_spec =
  processKey :: string
  processCommand :: exec_command
  processReadiness :: process_readiness
  processStop :: stop_policy

datatype connection_mode = DedicatedConnection | SharedConnection

record endpoint_spec =
  endpointKey :: string
  endpointUrl :: string
  endpointProcessKey :: "string option"
  endpointConnectionMode :: connection_mode

record runtime_client =
  clientId :: string
  setupEnv :: "(string, string) js_map"
  setupFiles :: "setup_file list"
  setupLaunchArgs :: "string list option"
  clientProcesses :: "process_spec list"
  clientEndpoints :: "endpoint_spec list"

datatype pty_argument = LiteralArgument string | ThreadIdArgument

record launch_template =
  ptySessionId :: string
  ptyCols :: int
  ptyRows :: int
  ptyCwd :: "string option"
  ptyCommand :: string
  ptyArgs :: "pty_argument list"

record pty_launch =
  launchRuntimeId :: string
  launchDisplayName :: string
  newLaunch :: launch_template
  resumeLaunch :: launch_template

record agent_runtime =
  runtimeId :: string
  runtimeKey :: string
  agentClientId :: string
  agentEndpointKey :: string
  ptyLaunch :: pty_launch

record workspace_source =
  sourcePath :: string
  sourceOriginUrl :: string

record plan_fragment =
  fragmentRoutes :: "egress_route list"
  fragmentArtifacts :: "artifact_spec list"
  fragmentClients :: "runtime_client list"
  fragmentSources :: "workspace_source list"
  fragmentAgentRuntimes :: "agent_runtime list"

datatype plan_error =
    RouteError compile_error
  | ArtifactConflict string
  | ClientSetupConflict string
  | AgentRuntimeConflict string
  | McpConflict string
  | McpTargetMissing string
  | ConnectionMismatch string
  | TargetDisabled string
  | ConnectionNotActive string
  | KindMismatch string
  | InvalidTargetConfig string
  | InvalidTargetSecrets string
  | InvalidBindingConfig string
  | AgentRuntimeNotFound string
  | InvalidAgentRuntimeConfig string
  | ThrownByDefinition string

type_synonym 'a checked = "plan_error + 'a"

definition ensure :: "bool \<Rightarrow> plan_error \<Rightarrow> unit checked" where
  "ensure ok e = (if ok then Inr () else Inl e)"

text \<open>A loop whose body throws or goes on.\<close>

fun for_each :: "('a \<Rightarrow> 's \<Rightarrow> 's checked) \<Rightarrow> 'a list \<Rightarrow> 's \<Rightarrow> 's checked" where
  "for_each body [] s = Inr s"
| "for_each body (x # xs) s = and_then (body x s) (for_each body xs)"

definition blank :: "string \<Rightarrow> bool" where
  "blank s \<longleftrightarrow> js_trim s = []"

section \<open>Equality of specifications\<close>

definition stringArrayEquals :: "string list \<Rightarrow> string list \<Rightarrow> bool" where
  "stringArrayEquals left right \<longleftrightarrow>
     length left = length right \<and> list_all (\<lambda>i. left ! i = right ! i) [0..<length left]"

definition stringRecordEquals :: "(string, string) js_map option \<Rightarrow> (string, string) js_map option \<Rightarrow> bool" where
  "stringRecordEquals left right \<longleftrightarrow> (case (left, right) of
     (Some l, Some r) \<Rightarrow> length l = length r \<and> list_all (\<lambda>(key, value). js_get r key = Some value) l
   | (None, None) \<Rightarrow> True
   | _ \<Rightarrow> False)"

definition runtimeExecCommandEquals :: "exec_command \<Rightarrow> exec_command \<Rightarrow> bool" where
  "runtimeExecCommandEquals left right \<longleftrightarrow>
     stringArrayEquals (commandArgs left) (commandArgs right) \<and>
     stringRecordEquals (commandEnv left) (commandEnv right) \<and>
     commandCwd left = commandCwd right \<and> commandTimeoutMs left = commandTimeoutMs right"

fun runtimeArtifactGitHubReleaseSelectorEquals :: "release_selector \<Rightarrow> release_selector \<Rightarrow> bool" where
  "runtimeArtifactGitHubReleaseSelectorEquals LatestRelease right \<longleftrightarrow> right = LatestRelease"
| "runtimeArtifactGitHubReleaseSelectorEquals (ExactTag l) (ExactTag r) \<longleftrightarrow> l = r"
| "runtimeArtifactGitHubReleaseSelectorEquals (LatestMatchingPrefix l) (LatestMatchingPrefix r) \<longleftrightarrow> l = r"
| "runtimeArtifactGitHubReleaseSelectorEquals _ _ \<longleftrightarrow> False"

fun asset_is_tar :: "asset_shape \<Rightarrow> bool" where
  "asset_is_tar (TarGzAsset _ _ _) \<longleftrightarrow> True"
| "asset_is_tar (BinaryAsset _ _) \<longleftrightarrow> False"

fun asset_extractedPath :: "asset_shape \<Rightarrow> string option" where
  "asset_extractedPath (TarGzAsset _ p _) = p"
| "asset_extractedPath (BinaryAsset _ _) = None"

definition runtimeArtifactGitHubReleaseAssetShapeEquals :: "asset_shape \<Rightarrow> asset_shape \<Rightarrow> bool" where
  "runtimeArtifactGitHubReleaseAssetShapeEquals left right \<longleftrightarrow>
     assetFileName left = assetFileName right \<and> asset_is_tar left = asset_is_tar right \<and>
     asset_extractedPath left = asset_extractedPath right"

fun release_asset_equals :: "release_asset \<Rightarrow> release_asset \<Rightarrow> bool" where
  "release_asset_equals (ExactAsset l) (ExactAsset r) \<longleftrightarrow> runtimeArtifactGitHubReleaseAssetShapeEquals l r"
| "release_asset_equals (ByArch lx la) (ByArch rx ra) \<longleftrightarrow>
     runtimeArtifactGitHubReleaseAssetShapeEquals lx rx \<and> runtimeArtifactGitHubReleaseAssetShapeEquals la ra"
| "release_asset_equals _ _ \<longleftrightarrow> False"

fun runtimeArtifactInstallEntryEquals :: "install_step \<Rightarrow> install_step \<Rightarrow> bool" where
  "runtimeArtifactInstallEntryEquals (ExecStep l) (ExecStep r) \<longleftrightarrow> runtimeExecCommandEquals l r"
| "runtimeArtifactInstallEntryEquals (MiseInstall lt lf lms) (MiseInstall rt rf rms) \<longleftrightarrow>
     stringArrayEquals lt rt \<and> lf = rf \<and> lms = rms"
| "runtimeArtifactInstallEntryEquals (GithubReleaseInstall lrepo lrel la lpath lms) (GithubReleaseInstall rrepo rrel ra rpath rms) \<longleftrightarrow>
     runtimeArtifactGitHubReleaseSelectorEquals lrel rrel \<and>
     lrepo = rrepo \<and> lpath = rpath \<and> lms = rms \<and> release_asset_equals la ra"
| "runtimeArtifactInstallEntryEquals _ _ \<longleftrightarrow> False"

definition artifactCommandsEqual :: "install_step list \<Rightarrow> install_step list \<Rightarrow> bool" where
  "artifactCommandsEqual left right \<longleftrightarrow>
     length left = length right \<and>
     list_all (\<lambda>i. runtimeArtifactInstallEntryEquals (left ! i) (right ! i)) [0..<length left]"

definition artifactLifecycleEquals :: "artifact_spec \<Rightarrow> artifact_spec \<Rightarrow> bool" where
  "artifactLifecycleEquals left right \<longleftrightarrow> artifactCommandsEqual (artifactInstall left) (artifactInstall right)"

fun runtimeClientProcessReadinessEquals :: "process_readiness \<Rightarrow> process_readiness \<Rightarrow> bool" where
  "runtimeClientProcessReadinessEquals ReadyNone ReadyNone \<longleftrightarrow> True"
| "runtimeClientProcessReadinessEquals (ReadyTcp lh lp lt) (ReadyTcp rh rp rt) \<longleftrightarrow> lh = rh \<and> lp = rp \<and> lt = rt"
| "runtimeClientProcessReadinessEquals (ReadyWs lu lt) (ReadyWs ru rt) \<longleftrightarrow> lu = ru \<and> lt = rt"
| "runtimeClientProcessReadinessEquals (ReadyHttp lu ls lt) (ReadyHttp ru rs rt) \<longleftrightarrow> lu = ru \<and> ls = rs \<and> lt = rt"
| "runtimeClientProcessReadinessEquals _ _ \<longleftrightarrow> False"

definition runtimeClientProcessStopPolicyEquals :: "stop_policy \<Rightarrow> stop_policy \<Rightarrow> bool" where
  "runtimeClientProcessStopPolicyEquals left right \<longleftrightarrow>
     stopSignal left = stopSignal right \<and> stopTimeoutMs left = stopTimeoutMs right \<and>
     stopGracePeriodMs left = stopGracePeriodMs right"

definition runtimeClientProcessSpecEquals :: "process_spec \<Rightarrow> process_spec \<Rightarrow> bool" where
  "runtimeClientProcessSpecEquals left right \<longleftrightarrow>
     runtimeExecCommandEquals (processCommand left) (processCommand right) \<and>
     runtimeClientProcessReadinessEquals (processReadiness left) (processReadiness right) \<and>
     runtimeClientProcessStopPolicyEquals (processStop left) (processStop right)"

definition runtimeClientEndpointSpecEquals :: "endpoint_spec \<Rightarrow> endpoint_spec \<Rightarrow> bool" where
  "runtimeClientEndpointSpecEquals left right \<longleftrightarrow>
     endpointConnectionMode left = endpointConnectionMode right \<and>
     endpointProcessKey left = endpointProcessKey right \<and> endpointUrl left = endpointUrl right"

section \<open>Validation\<close>

definition ReservedArtifactEnvKeys :: "string list" where
  "ReservedArtifactEnvKeys = [''HTTP_PROXY'', ''HTTPS_PROXY'', ''ALL_PROXY'', ''NO_PROXY'',
     ''http_proxy'', ''https_proxy'', ''all_proxy'', ''no_proxy'', ''SSL_CERT_FILE'', ''CURL_CA_BUNDLE'',
     ''GIT_SSL_CAINFO'', ''REQUESTS_CA_BUNDLE'', ''NODE_EXTRA_CA_CERTS'', ''NIX_SSL_CERT_FILE'',
     ''SSL_CERT_DIR'', ''GIT_SSL_CAPATH'']"

definition flattenCompiledRuntimePlanFragments :: "plan_fragment list \<Rightarrow> plan_fragment" where
  "flattenCompiledRuntimePlanFragments fs =
     \<lparr> fragmentRoutes = concat (map fragmentRoutes fs), fragmentArtifacts = concat (map fragmentArtifacts fs),
       fragmentClients = concat (map fragmentClients fs), fragmentSources = concat (map fragmentSources fs),
       fragmentAgentRuntimes = concat (map fragmentAgentRuntimes fs) \<rparr>"

subsection \<open>Artifacts\<close>

definition artifact_conflict :: "string \<Rightarrow> string \<Rightarrow> plan_error" where
  "artifact_conflict key rest = ArtifactConflict (''Artifact '' @ quote key @ '' '' @ rest)"

definition check_env_key :: "string \<Rightarrow> string \<Rightarrow> unit checked" where
  "check_env_key aKey key =
     (if blank key then Inl (artifact_conflict aKey ''contains an empty env key.'')
      else if CHR ''='' \<in> set key then Inl (artifact_conflict aKey (''contains an invalid env key '' @ quote key @ ''.''))
      else if key \<in> set ReservedArtifactEnvKeys
        then Inl (artifact_conflict aKey (''may not define reserved env key '' @ quote key @ ''.''))
      else Inr ())"

definition release_conflict :: "string \<Rightarrow> string \<Rightarrow> plan_error" where
  "release_conflict aKey rest = artifact_conflict aKey (''contains a github release install step with '' @ rest)"

definition check_asset :: "string \<Rightarrow> plan_error \<Rightarrow> (string \<Rightarrow> plan_error) \<Rightarrow> asset_shape \<Rightarrow> unit checked" where
  "check_asset aKey emptyName missingPath shape =
     (if blank (assetFileName shape) then Inl emptyName
      else if asset_is_tar shape \<and> asset_extractedPath shape = None then Inl (missingPath (assetFileName shape))
      else Inr ())"

definition check_release_selector :: "string \<Rightarrow> release_selector \<Rightarrow> unit checked" where
  "check_release_selector aKey sel = (case sel of
     LatestRelease \<Rightarrow> Inr ()
   | ExactTag t \<Rightarrow> ensure (\<not> blank t) (release_conflict aKey ''an empty exact tag selector.'')
   | LatestMatchingPrefix p \<Rightarrow> ensure (\<not> blank p) (release_conflict aKey ''an empty tag prefix selector.''))"

fun check_release_asset :: "string \<Rightarrow> release_asset \<Rightarrow> unit checked" where
  "check_release_asset aKey (ExactAsset shape) =
     check_asset aKey (release_conflict aKey ''an empty asset fileName.'')
       (\<lambda>f. release_conflict aKey (''tar.gz asset '' @ quote f @ '' missing extractedPath.'')) shape"
| "check_release_asset aKey (ByArch x86 aarch) = and_then
     (check_asset aKey (release_conflict aKey ''empty x86_64 asset fileName.'')
       (\<lambda>f. release_conflict aKey (''tar.gz x86_64 asset '' @ quote f @ '' missing extractedPath.'')) x86) (\<lambda>_.
      check_asset aKey (release_conflict aKey ''empty aarch64 asset fileName.'')
       (\<lambda>f. release_conflict aKey (''tar.gz aarch64 asset '' @ quote f @ '' missing extractedPath.'')) aarch)"

fun validateArtifactInstallEntry :: "string \<Rightarrow> install_step \<Rightarrow> unit checked" where
  "validateArtifactInstallEntry aKey (ExecStep command) = (case commandArgs command of
     [] \<Rightarrow> Inl (artifact_conflict aKey ''contains an exec install step with no args.'')
   | commandName # _ \<Rightarrow> ensure (\<not> blank commandName)
       (artifact_conflict aKey ''contains an exec install step with an empty command.''))"
| "validateArtifactInstallEntry aKey (MiseInstall tools _ _) =
     (if tools = [] then Inl (artifact_conflict aKey ''contains a mise install step with no tools.'')
      else ensure (\<forall>tool\<in>set tools. \<not> blank tool)
        (artifact_conflict aKey ''contains a mise install step with an empty tool entry.''))"
| "validateArtifactInstallEntry aKey (GithubReleaseInstall repository release asset installPath _) =
     (if blank repository then Inl (release_conflict aKey ''an empty repository.'')
      else if blank installPath then Inl (release_conflict aKey ''an empty installPath.'')
      else and_then (check_release_selector aKey release) (\<lambda>_. check_release_asset aKey asset))"

definition validate_artifact ::
  "artifact_spec \<Rightarrow> (string, artifact_spec) js_map \<Rightarrow> (string, artifact_spec) js_map checked" where
  "validate_artifact artifact artifactByKey =
     (let key = artifactKey artifact in
      and_then (for_each (\<lambda>(k, _) _. check_env_key key k) (case artifactEnv artifact of None \<Rightarrow> [] | Some env \<Rightarrow> env) ()) (\<lambda>_.
      and_then (ensure (artifactInstall artifact \<noteq> []) (artifact_conflict key ''must include at least one install command.'')) (\<lambda>_.
      and_then (for_each (\<lambda>installEntry _. validateArtifactInstallEntry key installEntry) (artifactInstall artifact) ()) (\<lambda>_.
      (case js_get artifactByKey key of
         None \<Rightarrow> Inr (js_set key artifact artifactByKey)
       | Some existing \<Rightarrow>
           if artifactName existing = artifactName artifact \<and> artifactDescription existing = artifactDescription artifact \<and>
              artifactLifecycleEquals existing artifact
           then Inr artifactByKey
           else Inl (ArtifactConflict (''Artifact key conflict detected for '' @ quote key @ ''.'')))))))"

definition validateArtifacts :: "artifact_spec list \<Rightarrow> unit checked" where
  "validateArtifacts artifacts = and_then (for_each validate_artifact artifacts []) (\<lambda>_. Inr ())"

subsection \<open>Workspace sources\<close>

definition validate_source ::
  "workspace_source \<Rightarrow> (string, workspace_source) js_map \<Rightarrow> (string, workspace_source) js_map checked" where
  "validate_source source sourceByPath =
     (if blank (sourcePath source) then Inl (ClientSetupConflict ''Workspace source path must be non-empty.'')
      else if blank (sourceOriginUrl source) then Inl (ClientSetupConflict
        (''Workspace source '' @ quote (sourcePath source) @ '' must define a non-empty originUrl.''))
      else if js_has sourceByPath (sourcePath source) then Inl (ClientSetupConflict
        (''Workspace source path conflict detected for '' @ quote (sourcePath source) @ ''.''))
      else Inr (js_set (sourcePath source) source sourceByPath))"

definition validateWorkspaceSources :: "workspace_source list \<Rightarrow> unit checked" where
  "validateWorkspaceSources sources = and_then (for_each validate_source sources []) (\<lambda>_. Inr ())"

subsection \<open>Processes and endpoints\<close>

definition process_conflict :: "string \<Rightarrow> string \<Rightarrow> string \<Rightarrow> plan_error" where
  "process_conflict cid key rest = ClientSetupConflict
     (''Runtime client process '' @ quote key @ '' for client '' @ quote cid @ '' '' @ rest)"

fun check_readiness :: "(string \<Rightarrow> string option) \<Rightarrow> string \<Rightarrow> string \<Rightarrow> process_readiness \<Rightarrow> unit checked" where
  "check_readiness url_protocol cid key ReadyNone = Inr ()"
| "check_readiness url_protocol cid key (ReadyTcp host port timeoutMs) =
     (if blank host then Inl (process_conflict cid key ''tcp readiness host must be non-empty.'')
      else if port < 1 \<or> port > 65535
        then Inl (process_conflict cid key ''tcp readiness port must be an integer between 1 and 65535.'')
      else ensure (0 < timeoutMs) (process_conflict cid key ''tcp readiness timeoutMs must be greater than zero.''))"
| "check_readiness url_protocol cid key (ReadyHttp url expectedStatus timeoutMs) =
     (if url_protocol url = None then Inl (process_conflict cid key ''http readiness url must be a valid URL.'')
      else if expectedStatus < 100 \<or> expectedStatus > 599
        then Inl (process_conflict cid key ''http readiness expectedStatus must be an integer between 100 and 599.'')
      else ensure (0 < timeoutMs) (process_conflict cid key ''http readiness timeoutMs must be greater than zero.''))"
| "check_readiness url_protocol cid key (ReadyWs url timeoutMs) = (case url_protocol url of
     None \<Rightarrow> Inl (process_conflict cid key ''ws readiness url must be a valid URL.'')
   | Some protocol \<Rightarrow>
       if protocol \<noteq> ''ws:'' \<and> protocol \<noteq> ''wss:''
       then Inl (process_conflict cid key ''ws readiness url must use ws or wss scheme.'')
       else ensure (0 < timeoutMs) (process_conflict cid key ''ws readiness timeoutMs must be greater than zero.''))"

definition validateRuntimeClientProcess :: "(string \<Rightarrow> string option) \<Rightarrow> string \<Rightarrow> process_spec \<Rightarrow> unit checked" where
  "validateRuntimeClientProcess url_protocol cid p =
     (let key = processKey p in
      if blank key then Inl (ClientSetupConflict
        (''Runtime client process for client '' @ quote cid @ '' must define a non-empty processKey.''))
      else case commandArgs (processCommand p) of
        [] \<Rightarrow> Inl (process_conflict cid key ''must define at least one command arg.'')
      | commandName # _ \<Rightarrow>
          and_then (ensure (\<not> blank commandName) (process_conflict cid key ''has an empty command name.'')) (\<lambda>_.
          and_then (ensure (case commandTimeoutMs (processCommand p) of None \<Rightarrow> True | Some t \<Rightarrow> 0 < t)
            (process_conflict cid key ''command timeoutMs must be greater than zero when provided.'')) (\<lambda>_.
          and_then (check_readiness url_protocol cid key (processReadiness p)) (\<lambda>_.
          and_then (ensure (0 < stopTimeoutMs (processStop p))
            (process_conflict cid key ''stop timeoutMs must be greater than zero.'')) (\<lambda>_.
          ensure (case stopGracePeriodMs (processStop p) of None \<Rightarrow> True | Some g \<Rightarrow> 0 \<le> g)
            (process_conflict cid key ''stop gracePeriodMs must be greater than or equal to zero when provided.''))))))"

definition endpoint_conflict :: "string \<Rightarrow> string \<Rightarrow> string \<Rightarrow> plan_error" where
  "endpoint_conflict cid key rest = ClientSetupConflict
     (''Runtime client endpoint '' @ quote key @ '' for client '' @ quote cid @ '' '' @ rest)"

definition validateRuntimeClientEndpoint :: "(string \<Rightarrow> string option) \<Rightarrow> string \<Rightarrow> endpoint_spec \<Rightarrow> unit checked" where
  "validateRuntimeClientEndpoint url_protocol cid ep =
     (let key = endpointKey ep in
      if blank key then Inl (ClientSetupConflict
        (''Runtime client endpoint for client '' @ quote cid @ '' must define a non-empty endpointKey.''))
      else if (case endpointProcessKey ep of None \<Rightarrow> False | Some k \<Rightarrow> blank k)
        then Inl (endpoint_conflict cid key ''must define a non-empty processKey when provided.'')
      else (case url_protocol (endpointUrl ep) of
        None \<Rightarrow> Inl (endpoint_conflict cid key ''ws transport url must be a valid URL.'')
      | Some protocol \<Rightarrow> ensure (protocol = ''ws:'' \<or> protocol = ''wss:'')
          (endpoint_conflict cid key ''ws transport url must use ws or wss scheme.'')))"

subsection \<open>Clients\<close>

text \<open>What is known of one client id: the maps the validation and the assembly both keep.\<close>

record client_maps =
  mapEnv :: "(string, string) js_map"
  mapFilesByPath :: "(string, setup_file) js_map"
  mapFilesById :: "(string, setup_file) js_map"
  mapLaunchArgs :: "string list"
  mapProcesses :: "(string, process_spec) js_map"
  mapEndpoints :: "(string, endpoint_spec) js_map"

definition empty_client :: client_maps where
  "empty_client = \<lparr> mapEnv = [], mapFilesByPath = [], mapFilesById = [], mapLaunchArgs = [],
     mapProcesses = [], mapEndpoints = [] \<rparr>"

definition merge_env_entry :: "string \<Rightarrow> string \<times> string \<Rightarrow> (string, string) js_map \<Rightarrow> (string, string) js_map checked" where
  "merge_env_entry cid kv env = (case kv of (envKey, envValue) \<Rightarrow>
     (case js_get env envKey of
        Some existing \<Rightarrow> if existing \<noteq> envValue then Inl (ClientSetupConflict
            (''Runtime client env conflict for client '' @ quote cid @ '' and key '' @ quote envKey @ ''.''))
          else Inr (js_set envKey envValue env)
      | None \<Rightarrow> Inr (js_set envKey envValue env)))"

text \<open>The file stored under its path and under its id; the two maps of the code leave out the key.\<close>

definition merge_file ::
  "string \<Rightarrow> setup_file \<Rightarrow> (string, setup_file) js_map \<times> (string, setup_file) js_map \<Rightarrow>
   ((string, setup_file) js_map \<times> (string, setup_file) js_map) checked" where
  "merge_file cid f maps = (case maps of (byPath, byId) \<Rightarrow>
     let differs = (\<lambda>x. fileMode x \<noteq> fileMode f \<or> fileContent x \<noteq> fileContent f \<or> fileWriteMode x \<noteq> fileWriteMode f) in
     if (case js_get byPath (filePath f) of None \<Rightarrow> False | Some x \<Rightarrow> fileId x \<noteq> fileId f \<or> differs x)
     then Inl (ClientSetupConflict (''Runtime client file conflict for client '' @ quote cid @ '' and path '' @
       quote (filePath f) @ ''.''))
     else if (case js_get byId (fileId f) of None \<Rightarrow> False | Some x \<Rightarrow> filePath x \<noteq> filePath f \<or> differs x)
     then Inl (ClientSetupConflict (''Runtime client file conflict for client '' @ quote cid @ '' and fileId '' @
       quote (fileId f) @ ''.''))
     else Inr (js_set (filePath f) f byPath, js_set (fileId f) f byId))"

definition merge_keyed ::
  "('a \<Rightarrow> unit checked) \<Rightarrow> ('a \<Rightarrow> string) \<Rightarrow> ('a \<Rightarrow> 'a \<Rightarrow> bool) \<Rightarrow> ('a \<Rightarrow> plan_error) \<Rightarrow>
   'a \<Rightarrow> (string, 'a) js_map \<Rightarrow> (string, 'a) js_map checked" where
  "merge_keyed check key equal conflict x m = and_then (check x) (\<lambda>_. case js_get m (key x) of
     None \<Rightarrow> Inr (js_set (key x) x m)
   | Some existing \<Rightarrow> if equal existing x then Inr m else Inl (conflict x))"

definition client_maps_of :: "(string, client_maps) js_map \<Rightarrow> string \<Rightarrow> client_maps" where
  "client_maps_of clients cid = (case js_get clients cid of None \<Rightarrow> empty_client | Some c \<Rightarrow> c)"

definition validate_client ::
  "(string \<Rightarrow> string option) \<Rightarrow> runtime_client \<Rightarrow> (string, client_maps) js_map \<Rightarrow> (string, client_maps) js_map checked" where
  "validate_client url_protocol client clients =
     (let cid = clientId client; c = client_maps_of clients cid in
      and_then (ensure (\<not> blank cid) (ClientSetupConflict ''Runtime client must define a non-empty clientId.'')) (\<lambda>_.
      and_then (for_each (merge_env_entry cid) (setupEnv client) (mapEnv c)) (\<lambda>env.
      and_then (for_each (merge_file cid) (setupFiles client) (mapFilesByPath c, mapFilesById c)) (\<lambda>(byPath, byId).
      and_then (for_each (merge_keyed (validateRuntimeClientProcess url_protocol cid) processKey runtimeClientProcessSpecEquals
          (\<lambda>p. ClientSetupConflict (''Runtime client process key conflict for client '' @ quote cid @ '' and process '' @
             quote (processKey p) @ ''.''))) (clientProcesses client) (mapProcesses c)) (\<lambda>procs.
      and_then (for_each (merge_keyed (validateRuntimeClientEndpoint url_protocol cid) endpointKey runtimeClientEndpointSpecEquals
          (\<lambda>ep. ClientSetupConflict (''Runtime client endpoint key conflict for client '' @ quote cid @ '' and endpoint '' @
             quote (endpointKey ep) @ ''.''))) (clientEndpoints client) (mapEndpoints c)) (\<lambda>endpoints.
      Inr (js_set cid (c\<lparr>mapEnv := env, mapFilesByPath := byPath, mapFilesById := byId, mapProcesses := procs,
        mapEndpoints := endpoints\<rparr>) clients)))))))"

definition check_process_reference :: "string \<Rightarrow> (string, process_spec) js_map \<Rightarrow> endpoint_spec \<Rightarrow> unit \<Rightarrow> unit checked" where
  "check_process_reference cid procs ep _ = (case endpointProcessKey ep of
     None \<Rightarrow> Inr ()
   | Some key \<Rightarrow> ensure (js_has procs key) (ClientSetupConflict
       (''Runtime client endpoint '' @ quote (endpointKey ep) @ '' references missing process '' @ quote key @
        '' for client '' @ quote cid @ ''.'')))"

definition validateRuntimeClients :: "(string \<Rightarrow> string option) \<Rightarrow> runtime_client list \<Rightarrow> unit checked" where
  "validateRuntimeClients url_protocol clients =
     and_then (for_each (validate_client url_protocol) clients []) (\<lambda>maps.
       for_each (\<lambda>(cid, c) _. for_each (check_process_reference cid (mapProcesses c)) (js_values (mapEndpoints c)) ()) maps ())"

subsection \<open>Agent runtimes\<close>

definition agent_conflict :: "string \<Rightarrow> string \<Rightarrow> plan_error" where
  "agent_conflict key rest = AgentRuntimeConflict (''Agent runtime '' @ quote key @ '' '' @ rest)"

definition launch_conflict :: "string \<Rightarrow> string \<Rightarrow> plan_error" where
  "launch_conflict key rest = agent_conflict key (''for source '' @ quote key @ '' '' @ rest)"

fun check_literals :: "string \<Rightarrow> string \<Rightarrow> nat \<Rightarrow> pty_argument list \<Rightarrow> unit checked" where
  "check_literals key templateName index [] = Inr ()"
| "check_literals key templateName index (arg # args) =
     (if (case arg of LiteralArgument v \<Rightarrow> blank v | ThreadIdArgument \<Rightarrow> False)
      then Inl (launch_conflict key (''contains an empty literal ptyLaunch.'' @ templateName @ '' arg at index '' @
        string_of_nat index @ ''.''))
      else check_literals key templateName (index + 1) args)"

definition threadIdArgumentCount :: "pty_argument list \<Rightarrow> nat" where
  "threadIdArgumentCount args = length (filter (\<lambda>a. a = ThreadIdArgument) args)"

definition validateLaunchTemplate :: "string \<Rightarrow> string \<Rightarrow> launch_template \<Rightarrow> unit checked" where
  "validateLaunchTemplate key templateName t =
     (if blank (ptySessionId t)
      then Inl (launch_conflict key (''must define a non-empty ptyLaunch.'' @ templateName @ ''.ptySessionId.''))
      else if ptyCols t \<le> 0 \<or> ptyRows t \<le> 0
      then Inl (launch_conflict key (''must define positive ptyLaunch.'' @ templateName @ '' dimensions.''))
      else if (case ptyCwd t of None \<Rightarrow> False | Some cwd \<Rightarrow> blank cwd)
      then Inl (launch_conflict key (''must not define an empty ptyLaunch.'' @ templateName @ ''.cwd.''))
      else if blank (ptyCommand t)
      then Inl (launch_conflict key (''must define a non-empty ptyLaunch.'' @ templateName @ ''.command.''))
      else and_then (check_literals key templateName 0 (ptyArgs t)) (\<lambda>_.
        if templateName = ''newLaunch'' \<and> threadIdArgumentCount (ptyArgs t) \<noteq> 0
        then Inl (launch_conflict key ''must not define threadId placeholders in ptyLaunch.newLaunch.'')
        else if templateName = ''resumeLaunch'' \<and> threadIdArgumentCount (ptyArgs t) = 0
        then Inl (launch_conflict key ''must define at least one threadId placeholder in ptyLaunch.resumeLaunch.'')
        else Inr ()))"

definition validateAgentPtyLaunch :: "string \<Rightarrow> string \<Rightarrow> pty_launch \<Rightarrow> unit checked" where
  "validateAgentPtyLaunch key rid launch =
     (if launchRuntimeId launch \<noteq> rid
      then Inl (launch_conflict key (''must declare a ptyLaunch.runtimeId matching '' @ quote rid @ ''.''))
      else if blank (launchDisplayName launch)
      then Inl (launch_conflict key ''must define a non-empty ptyLaunch.displayName.'')
      else and_then (validateLaunchTemplate key ''newLaunch'' (newLaunch launch)) (\<lambda>_.
        validateLaunchTemplate key ''resumeLaunch'' (resumeLaunch launch)))"

definition endpointKeysByClientId :: "runtime_client list \<Rightarrow> (string, string list) js_map" where
  "endpointKeysByClientId clients = fold (\<lambda>c m. js_set (clientId c)
     (fold js_add (map endpointKey (clientEndpoints c)) (case js_get m (clientId c) of None \<Rightarrow> [] | Some ks \<Rightarrow> ks)) m) clients []"

definition validate_agent_runtime ::
  "(string, string list) js_map \<Rightarrow> agent_runtime \<Rightarrow> string list \<Rightarrow> string list checked" where
  "validate_agent_runtime endpointKeys r runtimeKeys =
     (let key = runtimeKey r in
      if blank key then Inl (AgentRuntimeConflict ''Agent runtime must define a non-empty runtimeKey.'')
      else if key \<in> set runtimeKeys
      then Inl (AgentRuntimeConflict (''Duplicate agent runtime key '' @ quote key @ '' detected.''))
      else if blank (runtimeId r) then Inl (agent_conflict key ''must define a non-empty runtimeId.'')
      else if blank (agentClientId r) then Inl (agent_conflict key ''must define a non-empty clientId.'')
      else (case js_get endpointKeys (agentClientId r) of
        None \<Rightarrow> Inl (agent_conflict key (''references missing runtime client '' @ quote (agentClientId r) @ ''.''))
      | Some keys \<Rightarrow>
          if blank (agentEndpointKey r) then Inl (agent_conflict key ''must define a non-empty endpointKey.'')
          else if agentEndpointKey r \<notin> set keys
          then Inl (agent_conflict key (''references missing endpoint '' @ quote (agentEndpointKey r) @ '' on client '' @
            quote (agentClientId r) @ ''.''))
          else and_then (validateAgentPtyLaunch key (runtimeId r) (ptyLaunch r)) (\<lambda>_. Inr (js_add key runtimeKeys))))"

definition validateAgentRuntimes :: "runtime_client list \<Rightarrow> agent_runtime list \<Rightarrow> unit checked" where
  "validateAgentRuntimes clients runtimes =
     and_then (for_each (validate_agent_runtime (endpointKeysByClientId clients)) runtimes []) (\<lambda>_. Inr ())"

definition lift_route_error :: "compile_error + unit \<Rightarrow> unit checked" where
  "lift_route_error r = (case r of Inl e \<Rightarrow> Inl (RouteError e) | Inr u \<Rightarrow> Inr u)"

definition validateCompiledRuntimePlanFragments :: "(string \<Rightarrow> string option) \<Rightarrow> plan_fragment list \<Rightarrow> unit checked" where
  "validateCompiledRuntimePlanFragments url_protocol fragments =
     (let flat = flattenCompiledRuntimePlanFragments fragments in
      and_then (lift_route_error (validateRoutes (fragmentRoutes flat))) (\<lambda>_.
      and_then (validateArtifacts (fragmentArtifacts flat)) (\<lambda>_.
      and_then (validateWorkspaceSources (fragmentSources flat)) (\<lambda>_.
      and_then (validateRuntimeClients url_protocol (fragmentClients flat)) (\<lambda>_.
      validateAgentRuntimes (fragmentClients flat) (fragmentAgentRuntimes flat))))))"

end
