(* ===== verification/PlanAssembly.thy ===== *)
theory PlanAssembly
  imports RuntimePlan
begin

text \<open>
  The assembly of checked fragments into one runtime plan (\<open>runtime-plan/index.ts\<close> of
  \<open>packages/integrations-core/src\<close>), and what the checks give it: the assembly does not throw, the plan
  it makes refers only to its own parts, and every client of every fragment is in it.

  An object is the list of its own properties; that integer-like property names come first when
  it is enumerated is not modelled.
\<close>

section \<open>Assembly\<close>

definition resolveRuntimeClients :: "runtime_client list \<Rightarrow> runtime_client list" where
  "resolveRuntimeClients clients = map (\<lambda>c. c\<lparr>setupEnv :=
     fold (\<lambda>(key, value). set_own_property key value) (setupEnv c) []\<rparr>) clients"

definition by_key :: "(string \<Rightarrow> string \<Rightarrow> int) \<Rightarrow> ('a \<Rightarrow> string) \<Rightarrow> 'a \<Rightarrow> 'a \<Rightarrow> int" where
  "by_key localeCompare key left right = localeCompare (key left) (key right)"

definition sortRecord :: "(string \<Rightarrow> string \<Rightarrow> int) \<Rightarrow> (string, string) js_map \<Rightarrow> (string, string) js_map" where
  "sortRecord localeCompare entries = js_sort (by_key localeCompare fst) entries"

definition merge_client :: "runtime_client \<Rightarrow> (string, client_maps) js_map \<Rightarrow> (string, client_maps) js_map checked" where
  "merge_client client clients =
     (let cid = clientId client; c = client_maps_of clients cid in
      and_then (for_each (merge_env_entry cid) (setupEnv client) (mapEnv c)) (\<lambda>env.
      and_then (for_each (merge_file cid) (setupFiles client) (mapFilesByPath c, mapFilesById c)) (\<lambda>(byPath, byId).
      let launchArgs = mapLaunchArgs c @ (case setupLaunchArgs client of None \<Rightarrow> [] | Some args \<Rightarrow> args) in
      and_then (for_each (merge_keyed (\<lambda>_. Inr ()) processKey runtimeClientProcessSpecEquals
          (\<lambda>p. ClientSetupConflict (''Runtime client process conflict for client '' @ quote cid @ '' and processKey '' @
             quote (processKey p) @ ''.''))) (clientProcesses client) (mapProcesses c)) (\<lambda>procs.
      and_then (for_each (merge_keyed (\<lambda>_. Inr ()) endpointKey runtimeClientEndpointSpecEquals
          (\<lambda>ep. ClientSetupConflict (''Runtime client endpoint conflict for client '' @ quote cid @ '' and endpointKey '' @
             quote (endpointKey ep) @ ''.''))) (clientEndpoints client) (mapEndpoints c)) (\<lambda>endpoints.
      Inr (js_set cid \<lparr> mapEnv = env, mapFilesByPath = byPath, mapFilesById = byId, mapLaunchArgs = launchArgs,
        mapProcesses = procs, mapEndpoints = endpoints \<rparr> clients))))))"

definition finished_client :: "(string \<Rightarrow> string \<Rightarrow> int) \<Rightarrow> string \<Rightarrow> client_maps \<Rightarrow> runtime_client" where
  "finished_client localeCompare cid c = \<lparr> clientId = cid, setupEnv = sortRecord localeCompare (mapEnv c),
     setupFiles = map snd (js_sort (by_key localeCompare fst) (mapFilesByPath c)),
     setupLaunchArgs = (if mapLaunchArgs c = [] then None else Some (mapLaunchArgs c)),
     clientProcesses = js_sort (by_key localeCompare processKey) (js_values (mapProcesses c)),
     clientEndpoints = js_sort (by_key localeCompare endpointKey) (js_values (mapEndpoints c)) \<rparr>"

definition finish_client ::
  "(string \<Rightarrow> string \<Rightarrow> int) \<Rightarrow> string \<times> client_maps \<Rightarrow> runtime_client list \<Rightarrow> runtime_client list checked" where
  "finish_client localeCompare entry finished = (case entry of (cid, c) \<Rightarrow>
     and_then (for_each (check_process_reference cid (mapProcesses c))
       (js_sort (by_key localeCompare endpointKey) (js_values (mapEndpoints c))) ()) (\<lambda>_.
       Inr (finished @ [finished_client localeCompare cid c])))"

definition mergeRuntimeClients :: "(string \<Rightarrow> string \<Rightarrow> int) \<Rightarrow> runtime_client list \<Rightarrow> runtime_client list checked" where
  "mergeRuntimeClients localeCompare clients =
     and_then (for_each merge_client clients []) (\<lambda>merged.
       for_each (finish_client localeCompare) (js_sort (by_key localeCompare fst) merged) [])"

definition sortArtifacts :: "(string \<Rightarrow> string \<Rightarrow> int) \<Rightarrow> artifact_spec list \<Rightarrow> artifact_spec list" where
  "sortArtifacts localeCompare artifacts = js_sort (by_key localeCompare artifactKey)
     (map (\<lambda>a. a\<lparr>artifactEnv := map_option (sortRecord localeCompare) (artifactEnv a)\<rparr>) artifacts)"

definition dedupeArtifacts :: "artifact_spec list \<Rightarrow> artifact_spec list" where
  "dedupeArtifacts artifacts = js_values (fold (\<lambda>a m. if js_has m (artifactKey a) then m else js_set (artifactKey a) a m) artifacts [])"

text \<open>\<open>or_compare c d\<close> is \<open>c || d\<close> of two comparisons.\<close>

definition or_compare :: "int \<Rightarrow> int \<Rightarrow> int" where
  "or_compare c d = (if c \<noteq> 0 then c else d)"

record ('i, 'r) compiled_plan =
  planSandboxProfileId :: string
  planVersion :: int
  planImage :: 'i
  planEgressRoutes :: "egress_route list"
  planArtifacts :: "artifact_spec list"
  planWorkspaceSources :: "workspace_source list"
  planRuntimeClients :: "runtime_client list"
  planAgentRuntimes :: "agent_runtime list"
  planEventRouting :: 'r

definition assembleCompiledRuntimePlan ::
  "(string \<Rightarrow> string \<Rightarrow> int) \<Rightarrow> string \<Rightarrow> int \<Rightarrow> 'i \<Rightarrow> 'r \<Rightarrow> plan_fragment list \<Rightarrow> ('i, 'r) compiled_plan checked" where
  "assembleCompiledRuntimePlan localeCompare profileId planVer img routing fragments =
     and_then (mergeRuntimeClients localeCompare (resolveRuntimeClients (concat (map fragmentClients fragments)))) (\<lambda>clients.
       Inr \<lparr> planSandboxProfileId = profileId, planVersion = planVer, planImage = img,
         planEgressRoutes = orderRoutesForMatching localeCompare (concat (map fragmentRoutes fragments)),
         planArtifacts = sortArtifacts localeCompare (dedupeArtifacts (concat (map fragmentArtifacts fragments))),
         planWorkspaceSources = js_sort (\<lambda>l r. or_compare (by_key localeCompare sourcePath l r)
           (by_key localeCompare sourceOriginUrl l r)) (concat (map fragmentSources fragments)),
         planRuntimeClients = clients,
         planAgentRuntimes = js_sort (\<lambda>l r. or_compare (by_key localeCompare runtimeKey l r)
           (or_compare (by_key localeCompare agentClientId l r) (by_key localeCompare agentEndpointKey l r)))
           (concat (map fragmentAgentRuntimes fragments)),
         planEventRouting = routing \<rparr>)"

section \<open>Loops over checks\<close>

lemma for_each_unit: "for_each body xs () = Inr () \<longleftrightarrow> (\<forall>x\<in>set xs. body x () = Inr ())"
  by (induction xs) (auto simp: and_then_Inr)

lemma ensure_Inr [simp]: "ensure b e = Inr u \<longleftrightarrow> b"
  by (simp add: ensure_def)

lemma for_each_invariant:
  assumes "for_each body xs s = Inr t" "I s" "\<And>x s t. x \<in> set xs \<Longrightarrow> I s \<Longrightarrow> body x s = Inr t \<Longrightarrow> I t"
  shows "I t"
  using assms
proof (induction xs arbitrary: s)
  case (Cons x xs)
  obtain s' where s': "body x s = Inr s'" "for_each body xs s' = Inr t"
    using Cons.prems(1) by (auto simp: and_then_Inr)
  have "I s'" using Cons.prems(3) [OF _ Cons.prems(2) s'(1)] by simp
  then show ?case by (rule Cons.IH [OF s'(2)]) (rule Cons.prems(3); simp)
qed simp

text \<open>What one turn of the loop establishes and the later turns keep holds at its end.\<close>

lemma for_each_establishes:
  assumes run: "for_each body xs s = Inr t" and start: "I s" and x: "x \<in> set xs"
    and keep: "\<And>y s t. y \<in> set xs \<Longrightarrow> I s \<Longrightarrow> body y s = Inr t \<Longrightarrow> I t"
    and make: "\<And>s t. I s \<Longrightarrow> body x s = Inr t \<Longrightarrow> Q t"
    and stay: "\<And>y s t. y \<in> set xs \<Longrightarrow> I s \<Longrightarrow> Q s \<Longrightarrow> body y s = Inr t \<Longrightarrow> Q t"
  shows "Q t"
  using run start x keep stay
proof (induction xs arbitrary: s)
  case (Cons y ys)
  obtain s' where s': "body y s = Inr s'" "for_each body ys s' = Inr t"
    using Cons.prems(1) by (auto simp: and_then_Inr)
  have I': "I s'" using Cons.prems(4) [OF _ Cons.prems(2) s'(1)] by simp
  show ?case
  proof (cases "x \<in> set ys")
    case True
    show ?thesis
    proof (rule Cons.IH [OF s'(2) I' True])
      fix z s t
      assume z: "z \<in> set ys" "I s" "body z s = Inr t"
      then show "I t" using Cons.prems(4) [of z s t] by simp
      show "Q t" if "Q s" using Cons.prems(5) [of z s t] z that by simp
    qed
  next
    case False
    with Cons.prems(3) have "x = y" by simp
    then have "Q s'" using make [OF Cons.prems(2)] s'(1) by simp
    with I' have "I s' \<and> Q s'" ..
    then have "I t \<and> Q t"
    proof (rule for_each_invariant [where I = "\<lambda>s. I s \<and> Q s", OF s'(2)])
      fix z s t
      assume "z \<in> set ys" "I s \<and> Q s" "body z s = Inr t"
      then show "I t \<and> Q t" using Cons.prems(4) [of z s t] Cons.prems(5) [of z s t] by simp
    qed
    then show ?thesis ..
  qed
qed simp

section \<open>Merging the setup of one client\<close>

definition sub_map :: "('k, 'v) js_map \<Rightarrow> ('k, 'v) js_map \<Rightarrow> bool" where
  "sub_map m m' \<longleftrightarrow> (\<forall>k v. js_get m k = Some v \<longrightarrow> js_get m' k = Some v)"

lemma env_merged:
  "for_each (merge_env_entry cid) kvs m = Inr m' \<Longrightarrow>
   js_get m' k = Some v \<longleftrightarrow> js_get m k = Some v \<or> (k, v) \<in> set kvs"
proof (induction kvs arbitrary: m)
  case (Cons kv kvs)
  obtain k0 v0 where kv: "kv = (k0, v0)" by (cases kv)
  with Cons.prems obtain m1 where m1: "merge_env_entry cid (k0, v0) m = Inr m1"
      "for_each (merge_env_entry cid) kvs m1 = Inr m'"
    by (auto simp: and_then_Inr)
  then have "m1 = js_set k0 v0 m \<and> (js_get m k0 = None \<or> js_get m k0 = Some v0)"
    by (auto simp: merge_env_entry_def split: option.splits if_splits)
  then show ?case using Cons.IH [OF m1(2)] kv by (auto simp: store_simps)
qed simp

lemma env_succeeds:
  "sub_map m f \<Longrightarrow> \<forall>(k, v)\<in>set kvs. js_get f k = Some v \<Longrightarrow> \<exists>m'. for_each (merge_env_entry cid) kvs m = Inr m' \<and> sub_map m' f"
proof (induction kvs arbitrary: m)
  case (Cons kv kvs)
  obtain k v where kv: "kv = (k, v)" by (cases kv)
  have "merge_env_entry cid kv m = Inr (js_set k v m)"
    using Cons.prems by (auto simp: merge_env_entry_def kv sub_map_def split: option.splits)
  moreover have "sub_map (js_set k v m) f" using Cons.prems by (auto simp: sub_map_def kv store_simps)
  ultimately show ?case using Cons.IH [of "js_set k v m"] Cons.prems(2) by auto
qed simp

lemma env_wf: "for_each (merge_env_entry cid) kvs m = Inr m' \<Longrightarrow> wf_map m \<Longrightarrow> wf_map m'"
  by (erule for_each_invariant) (auto simp: merge_env_entry_def wf_intros split: option.splits if_splits)

subsection \<open>Files\<close>

definition files_wf :: "(string, setup_file) js_map \<times> (string, setup_file) js_map \<Rightarrow> bool" where
  "files_wf maps \<longleftrightarrow> wf_map (fst maps) \<and>
     (\<forall>k f. js_get (fst maps) k = Some f \<longrightarrow> filePath f = k \<and> js_get (snd maps) (fileId f) = Some f)"

lemma setup_file_eq:
  "f = g \<longleftrightarrow> fileId f = fileId g \<and> filePath f = filePath g \<and> fileMode f = fileMode g \<and>
     fileContent f = fileContent g \<and> fileWriteMode f = fileWriteMode (g :: setup_file)"
  by (cases f; cases g) simp

lemma merge_file_Inr:
  assumes "merge_file cid f maps = Inr maps'" "files_wf maps"
  shows "files_wf maps' \<and> js_get (fst maps') (filePath f) = Some f \<and>
    (\<forall>k g. js_get (fst maps) k = Some g \<longrightarrow> js_get (fst maps') k = Some g)"
proof -
  obtain p i where maps: "maps = (p, i)" by (cases maps)
  have m': "maps' = (js_set (filePath f) f p, js_set (fileId f) f i)"
    using assms(1) by (auto simp: merge_file_def maps Let_def split: if_splits)
  have same_path: "g = f" if "js_get p (filePath f) = Some g" for g
    using assms that by (auto simp: merge_file_def maps Let_def files_wf_def setup_file_eq split: if_splits)
  have same_id: "f = g" if "js_get p k = Some g" "fileId g = fileId f" for k g
  proof -
    have "js_get i (fileId g) = Some g" using assms(2) that(1) by (simp add: files_wf_def maps)
    then show ?thesis
      using assms(1) that(2) by (auto simp: merge_file_def maps Let_def setup_file_eq split: if_splits)
  qed
  have "files_wf maps'"
    using assms(2) same_id by (auto simp: files_wf_def maps m' store_simps wf_intros)
  then show ?thesis using same_path by (auto simp: maps m' store_simps)
qed

lemma merge_files_wf: "for_each (merge_file cid) fs maps = Inr maps' \<Longrightarrow> files_wf maps \<Longrightarrow> files_wf maps'"
  by (erule for_each_invariant) (use merge_file_Inr in auto)

lemma merge_files_keep:
  assumes "for_each (merge_file cid) fs maps = Inr maps'" "files_wf maps" "js_get (fst maps) k = Some g"
  shows "js_get (fst maps') k = Some g"
  using for_each_invariant [OF assms(1), of "\<lambda>m. files_wf m \<and> js_get (fst m) k = Some g"] assms merge_file_Inr by metis

lemma merge_files_have:
  assumes "for_each (merge_file cid) fs maps = Inr maps'" "files_wf maps" "f \<in> set fs"
  shows "js_get (fst maps') (filePath f) = Some f"
  by (rule for_each_establishes [where I = files_wf, OF assms]) (use merge_file_Inr in blast)+

subsection \<open>Processes and endpoints\<close>

definition keyed :: "('a \<Rightarrow> string) \<Rightarrow> (string, 'a) js_map \<Rightarrow> bool" where
  "keyed key m \<longleftrightarrow> wf_map m \<and> (\<forall>k x. js_get m k = Some x \<longrightarrow> key x = k)"

lemma keyed_unchecked:
  "for_each (merge_keyed check key equal conflict) xs m = Inr m' \<Longrightarrow>
   for_each (merge_keyed (\<lambda>_. Inr ()) key equal conflict') xs m = Inr m'"
  by (induction xs arbitrary: m) (fastforce simp: and_then_Inr merge_keyed_def split: option.splits if_splits)+

lemma merge_keyed_Inr:
  assumes "merge_keyed check key equal conflict x m = Inr m'" "keyed key m"
  shows "keyed key m' \<and> (\<exists>y. js_get m' (key x) = Some y \<and> (y = x \<or> equal y x)) \<and>
    (\<forall>k y. js_get m k = Some y \<longrightarrow> js_get m' k = Some y)"
  using assms by (auto simp: merge_keyed_def and_then_Inr keyed_def store_simps wf_intros split: option.splits if_splits)

lemmas merge_keyed_step =
  merge_keyed_Inr [THEN conjunct1] merge_keyed_Inr [THEN conjunct2, THEN conjunct1]
  merge_keyed_Inr [THEN conjunct2, THEN conjunct2, rule_format]

lemma merge_all_keyed:
  "for_each (merge_keyed check key equal conflict) xs m = Inr m' \<Longrightarrow> keyed key m \<Longrightarrow> keyed key m'"
  by (erule for_each_invariant) (auto dest: merge_keyed_step(1))

lemma merge_all_keep:
  assumes "for_each (merge_keyed check key equal conflict) xs m = Inr m'" "keyed key m" "js_get m k = Some y"
  shows "js_get m' k = Some y"
  using for_each_invariant [OF assms(1), of "\<lambda>m. keyed key m \<and> js_get m k = Some y"] assms(2,3)
    merge_keyed_step(1,3) by (metis (no_types, lifting))

lemma merge_all_have:
  assumes "for_each (merge_keyed check key equal conflict) xs m = Inr m'" "keyed key m" "x \<in> set xs"
  shows "\<exists>y. js_get m' (key x) = Some y \<and> (y = x \<or> equal y x)"
  by (rule for_each_establishes [where I = "keyed key", OF assms])
    (auto dest: merge_keyed_step(1) merge_keyed_step(2) merge_keyed_step(3))

section \<open>Merging the clients\<close>

definition maps_wf :: "client_maps \<Rightarrow> bool" where
  "maps_wf m \<longleftrightarrow> wf_map (mapEnv m) \<and> files_wf (mapFilesByPath m, mapFilesById m) \<and>
     keyed processKey (mapProcesses m) \<and> keyed endpointKey (mapEndpoints m)"

definition maps_le :: "client_maps \<Rightarrow> client_maps \<Rightarrow> bool" where
  "maps_le m m' \<longleftrightarrow> sub_map (mapEnv m) (mapEnv m') \<and> sub_map (mapFilesByPath m) (mapFilesByPath m') \<and>
     sub_map (mapProcesses m) (mapProcesses m') \<and> sub_map (mapEndpoints m) (mapEndpoints m')"

text \<open>The setup, processes and endpoints of a client are among what is known of its id.\<close>

definition has_client :: "runtime_client \<Rightarrow> client_maps \<Rightarrow> bool" where
  "has_client c m \<longleftrightarrow>
     (\<forall>(k, v)\<in>set (setupEnv c). js_get (mapEnv m) k = Some v) \<and>
     (\<forall>f\<in>set (setupFiles c). js_get (mapFilesByPath m) (filePath f) = Some f) \<and>
     (\<forall>p\<in>set (clientProcesses c). \<exists>q. js_get (mapProcesses m) (processKey p) = Some q \<and>
        (q = p \<or> runtimeClientProcessSpecEquals q p)) \<and>
     (\<forall>p\<in>set (clientEndpoints c). \<exists>q. js_get (mapEndpoints m) (endpointKey p) = Some q \<and>
        (q = p \<or> runtimeClientEndpointSpecEquals q p))"

lemma sub_map_trans: "sub_map m m' \<Longrightarrow> sub_map m' m'' \<Longrightarrow> sub_map m m''"
  by (simp add: sub_map_def)

lemma maps_wf_empty [simp]: "maps_wf empty_client"
  by (simp add: maps_wf_def empty_client_def files_wf_def keyed_def)

lemma has_client_mono: "has_client c m \<Longrightarrow> maps_le m m' \<Longrightarrow> has_client c m'"
  by (force simp: has_client_def maps_le_def sub_map_def)

lemma client_maps_of_set [store_simps]:
  "client_maps_of (js_set cid m M) cid' = (if cid' = cid then m else client_maps_of M cid')"
  by (simp add: client_maps_of_def store_simps)

text \<open>What both loops over the clients do at one client.\<close>

definition client_step ::
  "runtime_client \<Rightarrow> (string, client_maps) js_map \<Rightarrow> (string, client_maps) js_map \<Rightarrow> bool" where
  "client_step c M M' \<longleftrightarrow> (\<exists>m. M' = js_set (clientId c) m M \<and> maps_wf m \<and>
     maps_le (client_maps_of M (clientId c)) m \<and> has_client c m)"

definition clients_wf :: "(string, client_maps) js_map \<Rightarrow> bool" where
  "clients_wf M \<longleftrightarrow> wf_map M \<and> (\<forall>cid. maps_wf (client_maps_of M cid))"

lemma merged_parts:
  assumes "maps_wf m0"
    and env: "for_each (merge_env_entry cid) (setupEnv c) (mapEnv m0) = Inr (mapEnv m)"
    and files: "for_each (merge_file cid) (setupFiles c) (mapFilesByPath m0, mapFilesById m0)
      = Inr (mapFilesByPath m, mapFilesById m)"
    and procs: "for_each (merge_keyed check1 processKey runtimeClientProcessSpecEquals conflict1)
      (clientProcesses c) (mapProcesses m0) = Inr (mapProcesses m)"
    and ends: "for_each (merge_keyed check2 endpointKey runtimeClientEndpointSpecEquals conflict2)
      (clientEndpoints c) (mapEndpoints m0) = Inr (mapEndpoints m)"
  shows "maps_wf m \<and> maps_le m0 m \<and> has_client c m"
proof -
  have wf: "wf_map (mapEnv m0)" "files_wf (mapFilesByPath m0, mapFilesById m0)"
      "keyed processKey (mapProcesses m0)" "keyed endpointKey (mapEndpoints m0)"
    using assms(1) by (simp_all add: maps_wf_def)
  have "maps_wf m"
    unfolding maps_wf_def
    using env_wf [OF env wf(1)] merge_files_wf [OF files wf(2)] merge_all_keyed [OF procs wf(3)]
      merge_all_keyed [OF ends wf(4)] by blast
  moreover have "maps_le m0 m"
    unfolding maps_le_def sub_map_def
    using env_merged [OF env] merge_files_keep [OF files wf(2)] merge_all_keep [OF procs wf(3)]
      merge_all_keep [OF ends wf(4)] by simp
  moreover have "has_client c m"
    unfolding has_client_def
    using env_merged [OF env] merge_files_have [OF files wf(2)] merge_all_have [OF procs wf(3)]
      merge_all_have [OF ends wf(4)] by auto
  ultimately show ?thesis by blast
qed

lemma merge_client_step:
  assumes "merge_client c M = Inr M'" "clients_wf M"
  shows "client_step c M M'"
proof -
  let ?m0 = "client_maps_of M (clientId c)"
  from assms(1) obtain m where M': "M' = js_set (clientId c) m M" and
      loops: "for_each (merge_env_entry (clientId c)) (setupEnv c) (mapEnv ?m0) = Inr (mapEnv m)"
        "for_each (merge_file (clientId c)) (setupFiles c) (mapFilesByPath ?m0, mapFilesById ?m0)
          = Inr (mapFilesByPath m, mapFilesById m)"
        "\<exists>conflict. for_each (merge_keyed (\<lambda>_. Inr ()) processKey runtimeClientProcessSpecEquals conflict)
          (clientProcesses c) (mapProcesses ?m0) = Inr (mapProcesses m)"
        "\<exists>conflict. for_each (merge_keyed (\<lambda>_. Inr ()) endpointKey runtimeClientEndpointSpecEquals conflict)
          (clientEndpoints c) (mapEndpoints ?m0) = Inr (mapEndpoints m)"
    by (force simp: merge_client_def Let_def and_then_Inr)
  then show ?thesis
    using merged_parts [of ?m0 "clientId c" c m] assms(2) unfolding client_step_def clients_wf_def by blast
qed

lemma validate_client_step:
  assumes "validate_client url_protocol c M = Inr M'" "clients_wf M"
  shows "client_step c M M'"
proof -
  let ?m0 = "client_maps_of M (clientId c)"
  from assms(1) obtain m where M': "M' = js_set (clientId c) m M" and
      loops: "for_each (merge_env_entry (clientId c)) (setupEnv c) (mapEnv ?m0) = Inr (mapEnv m)"
        "for_each (merge_file (clientId c)) (setupFiles c) (mapFilesByPath ?m0, mapFilesById ?m0)
          = Inr (mapFilesByPath m, mapFilesById m)"
        "\<exists>check conflict. for_each (merge_keyed check processKey runtimeClientProcessSpecEquals conflict)
          (clientProcesses c) (mapProcesses ?m0) = Inr (mapProcesses m)"
        "\<exists>check conflict. for_each (merge_keyed check endpointKey runtimeClientEndpointSpecEquals conflict)
          (clientEndpoints c) (mapEndpoints ?m0) = Inr (mapEndpoints m)"
    by (force simp: validate_client_def Let_def and_then_Inr)
  then show ?thesis
    using merged_parts [of ?m0 "clientId c" c m] assms(2) unfolding client_step_def clients_wf_def by blast
qed

lemma client_step_wf: "client_step c M M' \<Longrightarrow> clients_wf M \<Longrightarrow> clients_wf M'"
  by (auto simp: client_step_def clients_wf_def store_simps wf_intros)

lemma client_step_le: "client_step c M M' \<Longrightarrow> maps_le (client_maps_of M cid) (client_maps_of M' cid)"
  by (auto simp: client_step_def store_simps) (simp add: maps_le_def sub_map_def)

lemma clients_merged:
  assumes run: "for_each body cs M = Inr M'" and wf: "clients_wf M"
    and step: "\<And>c M M'. body c M = Inr M' \<Longrightarrow> clients_wf M \<Longrightarrow> client_step c M M'"
  shows "clients_wf M'"
    and "c \<in> set cs \<Longrightarrow> js_get M' (clientId c) \<noteq> None \<and> has_client c (client_maps_of M' (clientId c))"
proof -
  show "clients_wf M'"
    by (rule for_each_invariant [where I = clients_wf, OF run wf]) (rule client_step_wf [OF step])
  assume c: "c \<in> set cs"
  show "js_get M' (clientId c) \<noteq> None \<and> has_client c (client_maps_of M' (clientId c))"
  proof (rule for_each_establishes [where I = clients_wf, OF run wf c])
    show "clients_wf t" if "clients_wf s" "body y s = Inr t" for y s t
      using client_step_wf step that by blast
    show "js_get t (clientId c) \<noteq> None \<and> has_client c (client_maps_of t (clientId c))"
      if "clients_wf s" "body c s = Inr t" for s t
      using step [OF that(2,1)] by (auto simp: client_step_def store_simps)
    show "js_get t (clientId c) \<noteq> None \<and> has_client c (client_maps_of t (clientId c))"
      if "clients_wf s" "js_get s (clientId c) \<noteq> None \<and> has_client c (client_maps_of s (clientId c))"
        "body y s = Inr t" for y s t
    proof -
      have y: "client_step y s t" using step that(1,3) by blast
      then have "js_get t (clientId c) \<noteq> None" using that(2) by (auto simp: client_step_def store_simps)
      then show ?thesis using that(2) has_client_mono client_step_le [OF y] by blast
    qed
  qed
qed

section \<open>Checked clients can be merged\<close>

text \<open>What the assembly knows of a client id is what the validation knew, up to names an object cannot have.\<close>

definition agrees_with_validation :: "(string, client_maps) js_map \<Rightarrow> (string, client_maps) js_map \<Rightarrow> bool" where
  "agrees_with_validation V M \<longleftrightarrow> (\<forall>cid.
     (js_get V cid = None \<longleftrightarrow> js_get M cid = None) \<and>
     sub_map (mapEnv (client_maps_of M cid)) (mapEnv (client_maps_of V cid)) \<and>
     mapFilesByPath (client_maps_of M cid) = mapFilesByPath (client_maps_of V cid) \<and>
     mapFilesById (client_maps_of M cid) = mapFilesById (client_maps_of V cid) \<and>
     mapProcesses (client_maps_of M cid) = mapProcesses (client_maps_of V cid) \<and>
     mapEndpoints (client_maps_of M cid) = mapEndpoints (client_maps_of V cid))"

lemma merge_follows_validation:
  assumes "agrees_with_validation V M" "validate_client url_protocol c V = Inr V'" "set env \<subseteq> set (setupEnv c)"
  shows "\<exists>M'. merge_client (c\<lparr>setupEnv := env\<rparr>) M = Inr M' \<and> agrees_with_validation V' M'"
proof -
  let ?cid = "clientId c"
  let ?v = "client_maps_of V ?cid" and ?m = "client_maps_of M ?cid"
  have same: "sub_map (mapEnv ?m) (mapEnv ?v)" "mapFilesByPath ?m = mapFilesByPath ?v"
      "mapFilesById ?m = mapFilesById ?v" "mapProcesses ?m = mapProcesses ?v" "mapEndpoints ?m = mapEndpoints ?v"
    using assms(1) by (simp_all add: agrees_with_validation_def)
  from assms(2) obtain m where V': "V' = js_set ?cid m V" and
      env: "for_each (merge_env_entry ?cid) (setupEnv c) (mapEnv ?v) = Inr (mapEnv m)" and
      files: "for_each (merge_file ?cid) (setupFiles c) (mapFilesByPath ?v, mapFilesById ?v)
        = Inr (mapFilesByPath m, mapFilesById m)" and
      procs: "\<exists>check conflict. for_each (merge_keyed check processKey runtimeClientProcessSpecEquals conflict)
        (clientProcesses c) (mapProcesses ?v) = Inr (mapProcesses m)" and
      ends: "\<exists>check conflict. for_each (merge_keyed check endpointKey runtimeClientEndpointSpecEquals conflict)
        (clientEndpoints c) (mapEndpoints ?v) = Inr (mapEndpoints m)"
    by (force simp: validate_client_def Let_def and_then_Inr)
  have "sub_map (mapEnv ?m) (mapEnv m)"
    using same(1) env_merged [OF env] by (simp add: sub_map_def)
  moreover have "\<forall>(k, v)\<in>set env. js_get (mapEnv m) k = Some v"
    using assms(3) env_merged [OF env] by auto
  ultimately obtain env' where env': "for_each (merge_env_entry ?cid) env (mapEnv ?m) = Inr env'"
      "sub_map env' (mapEnv m)"
    using env_succeeds by blast
  have procs': "for_each (merge_keyed (\<lambda>_. Inr ()) processKey runtimeClientProcessSpecEquals conflict)
      (clientProcesses c) (mapProcesses ?v) = Inr (mapProcesses m)" for conflict
    using procs keyed_unchecked by blast
  have ends': "for_each (merge_keyed (\<lambda>_. Inr ()) endpointKey runtimeClientEndpointSpecEquals conflict)
      (clientEndpoints c) (mapEndpoints ?v) = Inr (mapEndpoints m)" for conflict
    using ends keyed_unchecked by blast
  have "merge_client (c\<lparr>setupEnv := env\<rparr>) M = Inr (js_set ?cid \<lparr> mapEnv = env', mapFilesByPath = mapFilesByPath m,
      mapFilesById = mapFilesById m,
      mapLaunchArgs = mapLaunchArgs ?m @ (case setupLaunchArgs c of None \<Rightarrow> [] | Some args \<Rightarrow> args),
      mapProcesses = mapProcesses m, mapEndpoints = mapEndpoints m \<rparr> M)"
    by (simp add: merge_client_def Let_def env' same files procs' ends')
  then show ?thesis
    using assms(1) env'(2) V' by (auto simp: agrees_with_validation_def store_simps)
qed

lemma merges_follow_validation:
  assumes "list_all2 (\<lambda>c c'. \<exists>env. c' = c\<lparr>setupEnv := env\<rparr> \<and> set env \<subseteq> set (setupEnv c)) cs cs'"
    "agrees_with_validation V M" "for_each (validate_client url_protocol) cs V = Inr V'"
  shows "\<exists>M'. for_each merge_client cs' M = Inr M' \<and> agrees_with_validation V' M'"
  using assms
proof (induction cs cs' arbitrary: V M rule: list_all2_induct)
  case (Cons c cs c' cs')
  obtain V1 where V1: "validate_client url_protocol c V = Inr V1" "for_each (validate_client url_protocol) cs V1 = Inr V'"
    using Cons.prems(2) by (auto simp: and_then_Inr)
  obtain M1 where "merge_client c' M = Inr M1" "agrees_with_validation V1 M1"
    using merge_follows_validation [OF Cons.prems(1) V1(1)] Cons.hyps(1) by blast
  then show ?case using Cons.IH [OF _ V1(2)] by simp
qed simp

lemma set_own_properties_subset:
  "set (fold (\<lambda>(key, value). set_own_property key value) kvs m) \<subseteq> set m \<union> set kvs"
proof (induction kvs arbitrary: m)
  case (Cons kv kvs)
  obtain k v where kv: "kv = (k, v)" by (cases kv)
  have "set (js_set k v m) \<subseteq> insert (k, v) (set m)" by (induction m) auto
  then show ?case using Cons [of "set_own_property k v m"] kv by (auto simp: set_own_property_def split: if_splits)
qed simp

lemma resolved_clients:
  "list_all2 (\<lambda>c c'. \<exists>env. c' = c\<lparr>setupEnv := env\<rparr> \<and> set env \<subseteq> set (setupEnv c)) cs (resolveRuntimeClients cs)"
  unfolding resolveRuntimeClients_def
  by (induction cs) (use set_own_properties_subset [of _ "[]"] in auto)

lemma set_js_sort [simp]: "set (js_sort cmp xs) = set xs"
  by (metis mset_js_sort set_mset_mset)

lemma distinct_js_sort: "distinct (map key (js_sort cmp xs)) \<longleftrightarrow> distinct (map key xs)"
  by (metis mset_eq_imp_distinct_iff mset_js_sort mset_map)

lemma finish_clients:
  "for_each (finish_client localeCompare) entries acc = Inr cs \<longleftrightarrow>
   (\<forall>(cid, c)\<in>set entries. \<forall>p\<in>set (js_values (mapEndpoints c)). check_process_reference cid (mapProcesses c) p () = Inr ()) \<and>
   cs = acc @ map (\<lambda>(cid, c). finished_client localeCompare cid c) entries"
  by (induction entries arbitrary: acc) (force simp: finish_client_def and_then_Inr for_each_unit)+

lemma clients_wf_Nil [simp]: "clients_wf []"
  by (simp add: clients_wf_def client_maps_of_def)

lemma checked_clients_merge:
  assumes "validateRuntimeClients url_protocol cs = Inr ()"
  shows "\<exists>V M. for_each (validate_client url_protocol) cs [] = Inr V \<and> agrees_with_validation V M \<and>
     for_each merge_client (resolveRuntimeClients cs) [] = Inr M \<and>
     mergeRuntimeClients localeCompare (resolveRuntimeClients cs) =
       Inr (map (\<lambda>(cid, c). finished_client localeCompare cid c) (js_sort (by_key localeCompare fst) M))"
proof -
  from assms obtain V where V: "for_each (validate_client url_protocol) cs [] = Inr V"
      "for_each (\<lambda>(cid, c) _. for_each (check_process_reference cid (mapProcesses c)) (js_values (mapEndpoints c)) ()) V () = Inr ()"
    by (auto simp: validateRuntimeClients_def and_then_Inr)
  have "agrees_with_validation [] []" by (simp add: agrees_with_validation_def sub_map_def)
  then obtain M where M: "for_each merge_client (resolveRuntimeClients cs) [] = Inr M" "agrees_with_validation V M"
    using merges_follow_validation [OF resolved_clients _ V(1)] by blast
  have wf: "clients_wf M" using clients_merged(1) [OF M(1) clients_wf_Nil merge_client_step] by blast
  have "check_process_reference cid (mapProcesses c) p () = Inr ()"
    if "(cid, c) \<in> set M" "p \<in> set (js_values (mapEndpoints c))" for cid c p
  proof -
    have c: "js_get M cid = Some c" using wf that(1) by (simp add: clients_wf_def js_entry_iff)
    then obtain v where v: "js_get V cid = Some v" using M(2) by (fastforce simp: agrees_with_validation_def)
    then have "mapEndpoints c = mapEndpoints v" "mapProcesses c = mapProcesses v"
      using M(2) c by (simp_all add: agrees_with_validation_def client_maps_of_def) (metis option.simps(5))+
    then show ?thesis using V(2) that(2) map_of_SomeD [OF v] by (fastforce simp: for_each_unit)
  qed
  then have "mergeRuntimeClients localeCompare (resolveRuntimeClients cs) =
      Inr (map (\<lambda>(cid, c). finished_client localeCompare cid c) (js_sort (by_key localeCompare fst) M))"
    using M(1) by (auto simp: mergeRuntimeClients_def finish_clients)
  then show ?thesis using V(1) M by blast
qed

section \<open>The assembled plan\<close>

definition client_closed :: "runtime_client \<Rightarrow> bool" where
  "client_closed c \<longleftrightarrow> distinct (map fst (setupEnv c)) \<and>
     distinct (map filePath (setupFiles c)) \<and> distinct (map fileId (setupFiles c)) \<and>
     distinct (map processKey (clientProcesses c)) \<and> distinct (map endpointKey (clientEndpoints c)) \<and>
     (\<forall>p\<in>set (clientEndpoints c). \<forall>key. endpointProcessKey p = Some key \<longrightarrow> key \<in> processKey ` set (clientProcesses c))"

definition plan_closed :: "('i, 'r) compiled_plan \<Rightarrow> bool" where
  "plan_closed plan \<longleftrightarrow>
     distinct (map egressRuleId (planEgressRoutes plan)) \<and> distinct (map artifactKey (planArtifacts plan)) \<and>
     distinct (map sourcePath (planWorkspaceSources plan)) \<and> distinct (map clientId (planRuntimeClients plan)) \<and>
     distinct (map runtimeKey (planAgentRuntimes plan)) \<and> (\<forall>c\<in>set (planRuntimeClients plan). client_closed c) \<and>
     (\<forall>r\<in>set (planAgentRuntimes plan). \<exists>c\<in>set (planRuntimeClients plan).
        clientId c = agentClientId r \<and> agentEndpointKey r \<in> endpointKey ` set (clientEndpoints c))"

lemma keyed_set: "keyed key m \<Longrightarrow> keyed key (js_set (key x) x m)"
  by (auto simp: keyed_def store_simps wf_intros)

lemma keyed_values: "keyed key m \<Longrightarrow> map key (js_values m) = map fst m"
  by (auto simp: keyed_def js_entry_iff [symmetric])

lemma keyed_distinct: "keyed key m \<Longrightarrow> distinct (map key (js_values m))"
  by (simp only: keyed_values) (simp add: keyed_def wf_map_def)

lemma keyed_value: "keyed key m \<Longrightarrow> js_get m k = Some x \<Longrightarrow> x \<in> set (js_values m) \<and> key x = k"
  by (force simp: keyed_def dest: map_of_SomeD)

lemma finished_files:
  assumes "files_wf (byPath, byId)"
  shows "distinct (map filePath (js_values byPath))" "distinct (map fileId (js_values byPath))"
proof -
  have "keyed filePath byPath" using assms by (simp add: files_wf_def keyed_def)
  then show d: "distinct (map filePath (js_values byPath))" by (rule keyed_distinct)
  have "inj_on fileId (set (js_values byPath))"
    using assms by (auto simp: inj_on_def files_wf_def js_entry_iff) (metis option.sel)
  moreover have "distinct (js_values byPath)" using d by (metis distinct_map)
  ultimately show "distinct (map fileId (js_values byPath))" by (metis distinct_map)
qed

lemma finished_closed:
  assumes "maps_wf c" "\<forall>p\<in>set (js_values (mapEndpoints c)). check_process_reference cid (mapProcesses c) p () = Inr ()"
  shows "client_closed (finished_client localeCompare cid c)"
proof -
  have k: "keyed processKey (mapProcesses c)" "keyed endpointKey (mapEndpoints c)" "wf_map (mapEnv c)"
      "files_wf (mapFilesByPath c, mapFilesById c)"
    using assms(1) by (simp_all add: maps_wf_def)
  have files: "mset (map snd (js_sort (by_key localeCompare fst) (mapFilesByPath c))) = mset (js_values (mapFilesByPath c))"
    by (metis mset_js_sort mset_map)
  have "key \<in> processKey ` set (js_values (mapProcesses c))"
    if "p \<in> set (js_values (mapEndpoints c))" "endpointProcessKey p = Some key" for p key
    using assms(2) that k(1) by (force simp: check_process_reference_def js_has_def dest: keyed_value)
  moreover have "distinct (map filePath (map snd (js_sort (by_key localeCompare fst) (mapFilesByPath c))))"
      "distinct (map fileId (map snd (js_sort (by_key localeCompare fst) (mapFilesByPath c))))"
    using finished_files [OF k(4)] by (metis files mset_eq_imp_distinct_iff mset_map)+
  ultimately show ?thesis
    using k(3) keyed_distinct [OF k(1)] keyed_distinct [OF k(2)]
    by (simp add: client_closed_def finished_client_def sortRecord_def distinct_js_sort wf_map_def)
qed

subsection \<open>The lists of the plan\<close>

lemma checked_ids_distinct:
  "validate_ids seen routes = Inr () \<Longrightarrow>
   distinct (map egressRuleId routes) \<and> (\<forall>r\<in>set routes. js_get seen (egressRuleId r) = None)"
proof (induction routes arbitrary: seen)
  case (Cons r routes)
  then show ?case
    using Cons.IH [of "js_set (egressRuleId r) r seen"] by (auto simp: store_simps split: option.splits if_splits)
qed simp

lemma checked_sources_distinct:
  "for_each validate_source sources seen = Inr seen' \<Longrightarrow>
   distinct (map sourcePath sources) \<and> (\<forall>x\<in>set sources. js_get seen (sourcePath x) = None)"
proof (induction sources arbitrary: seen)
  case (Cons x sources)
  then show ?case
    using Cons.IH [of "js_set (sourcePath x) x seen"]
    by (auto simp: and_then_Inr validate_source_def js_has_def store_simps split: if_splits)
qed simp

lemma checked_runtime:
  assumes "validate_agent_runtime endpointKeys r keys = Inr keys'"
  shows "runtimeKey r \<notin> set keys \<and> set keys' = insert (runtimeKey r) (set keys) \<and>
    (\<exists>ks. js_get endpointKeys (agentClientId r) = Some ks \<and> agentEndpointKey r \<in> set ks)"
  using assms by (auto simp: validate_agent_runtime_def Let_def and_then_Inr split: if_splits option.splits)

lemma checked_runtimes:
  "for_each (validate_agent_runtime endpointKeys) rs keys = Inr keys' \<Longrightarrow>
   distinct (map runtimeKey rs) \<and> (\<forall>r\<in>set rs. runtimeKey r \<notin> set keys \<and>
     (\<exists>ks. js_get endpointKeys (agentClientId r) = Some ks \<and> agentEndpointKey r \<in> set ks))"
proof (induction rs arbitrary: keys)
  case (Cons r rs)
  then obtain k1 where k1: "validate_agent_runtime endpointKeys r keys = Inr k1"
      "for_each (validate_agent_runtime endpointKeys) rs k1 = Inr keys'"
    by (auto simp: and_then_Inr)
  show ?case using Cons.IH [OF k1(2)] checked_runtime [OF k1(1)] by auto
qed simp

lemma set_fold_js_add: "set (fold js_add xs acc) = set acc \<union> set xs"
  by (induction xs arbitrary: acc) auto

lemma endpoint_keys_declared:
  assumes "js_get (endpointKeysByClientId cs) cid = Some ks" "k \<in> set ks"
  shows "\<exists>c\<in>set cs. clientId c = cid \<and> k \<in> endpointKey ` set (clientEndpoints c)"
proof -
  let ?add = "\<lambda>c m. js_set (clientId c)
    (fold js_add (map endpointKey (clientEndpoints c)) (case js_get m (clientId c) of None \<Rightarrow> [] | Some ks \<Rightarrow> ks)) m"
  have "(\<exists>ks0. js_get m cid = Some ks0 \<and> k \<in> set ks0) \<or>
      (\<exists>c\<in>set cs. clientId c = cid \<and> k \<in> endpointKey ` set (clientEndpoints c))"
    if "js_get (fold ?add cs m) cid = Some ks" for m
    using that
  proof (induction cs arbitrary: m)
    case (Cons c cs)
    show ?case using Cons.IH [of "?add c m"] Cons.prems
      by (auto simp: store_simps set_fold_js_add split: if_splits option.splits)
  qed (use assms(2) in auto)
  from this [of "[]"] show ?thesis using assms(1) by (simp add: endpointKeysByClientId_def)
qed

lemma fold_keyed:
  assumes "\<And>x m. keyed key m \<Longrightarrow> keyed key (f x m)"
  shows "keyed key m \<Longrightarrow> keyed key (fold f xs m)"
  by (induction xs arbitrary: m) (simp_all add: assms)

lemma deduped_keyed: "distinct (map artifactKey (dedupeArtifacts artifacts))"
  unfolding dedupeArtifacts_def
proof (rule keyed_distinct, rule fold_keyed)
  show "keyed artifactKey (if js_has m (artifactKey a) then m else js_set (artifactKey a) a m)"
    if "keyed artifactKey m" for a m
    using that by (cases "js_has m (artifactKey a)") (simp_all only: if_True if_False keyed_set)
qed (simp add: keyed_def)

subsection \<open>The clients of the plan\<close>

lemma merged_references:
  assumes "mergeRuntimeClients localeCompare cs = Inr cs'"
  shows "\<exists>M. for_each merge_client cs [] = Inr M \<and> clients_wf M \<and>
    cs' = map (\<lambda>(cid, c). finished_client localeCompare cid c) (js_sort (by_key localeCompare fst) M) \<and>
    (\<forall>(cid, c)\<in>set M. maps_wf c \<and>
      (\<forall>p\<in>set (js_values (mapEndpoints c)). check_process_reference cid (mapProcesses c) p () = Inr ()))"
proof -
  from assms obtain M where M: "for_each merge_client cs [] = Inr M"
      "for_each (finish_client localeCompare) (js_sort (by_key localeCompare fst) M) [] = Inr cs'"
    by (auto simp: mergeRuntimeClients_def and_then_Inr)
  have wf: "clients_wf M" using clients_merged(1) [OF M(1) clients_wf_Nil merge_client_step] by blast
  have "maps_wf c" if "(cid, c) \<in> set M" for cid c
  proof -
    have "js_get M cid = Some c" using wf that by (simp add: clients_wf_def js_entry_iff)
    then show ?thesis using wf unfolding clients_wf_def client_maps_of_def by (metis option.simps(5))
  qed
  then show ?thesis using M wf finish_clients [of localeCompare _ "[]" cs'] by fastforce
qed

lemma finished_client_of:
  assumes "clients_wf M" "js_get M cid = Some m"
  shows "finished_client localeCompare cid m \<in>
    set (map (\<lambda>(cid, c). finished_client localeCompare cid c) (js_sort (by_key localeCompare fst) M))"
  using map_of_SomeD [OF assms(2)] by force

text \<open>Every client that was merged is in the plan, under its id and with all it has.\<close>

definition client_kept :: "runtime_client \<Rightarrow> runtime_client \<Rightarrow> bool" where
  "client_kept c p \<longleftrightarrow> clientId p = clientId c \<and>
     (\<forall>(k, v)\<in>set (setupEnv c). k \<noteq> ''__proto__'' \<longrightarrow> (k, v) \<in> set (setupEnv p)) \<and>
     set (setupFiles c) \<subseteq> set (setupFiles p) \<and>
     (\<forall>x\<in>set (clientProcesses c). \<exists>y\<in>set (clientProcesses p). processKey y = processKey x \<and>
        (y = x \<or> runtimeClientProcessSpecEquals y x)) \<and>
     (\<forall>x\<in>set (clientEndpoints c). \<exists>y\<in>set (clientEndpoints p). endpointKey y = endpointKey x \<and>
        (y = x \<or> runtimeClientEndpointSpecEquals y x))"

lemma keyed_kept:
  assumes "keyed key m" "\<exists>y. js_get m (key x) = Some y \<and> P y"
  shows "\<exists>y\<in>set (js_values m). key y = key x \<and> P y"
proof -
  obtain y where "js_get m (key x) = Some y" "P y" using assms(2) by auto
  then show ?thesis using keyed_value [OF assms(1), of "key x" y] by auto
qed

lemma has_clientD:
  assumes "has_client c m"
  shows "f \<in> set (setupFiles c) \<Longrightarrow> js_get (mapFilesByPath m) (filePath f) = Some f"
    and "p \<in> set (clientProcesses c) \<Longrightarrow>
      \<exists>q. js_get (mapProcesses m) (processKey p) = Some q \<and> (q = p \<or> runtimeClientProcessSpecEquals q p)"
    and "e \<in> set (clientEndpoints c) \<Longrightarrow>
      \<exists>q. js_get (mapEndpoints m) (endpointKey e) = Some q \<and> (q = e \<or> runtimeClientEndpointSpecEquals q e)"
  using assms unfolding has_client_def by blast+

lemma finished_keeps:
  assumes "has_client (c\<lparr>setupEnv := env\<rparr>) m" "maps_wf m"
    "\<And>k v. (k, v) \<in> set (setupEnv c) \<Longrightarrow> k \<noteq> ''__proto__'' \<Longrightarrow> js_get (mapEnv m) k = Some v"
  shows "client_kept c (finished_client localeCompare (clientId c) m)"
proof -
  have keyed: "keyed processKey (mapProcesses m)" "keyed endpointKey (mapEndpoints m)"
    using assms(2) by (simp_all add: maps_wf_def)
  have "f \<in> set (js_values (mapFilesByPath m))" if "f \<in> set (setupFiles c)" for f
    using has_clientD(1) [OF assms(1), of f] that by (force dest: map_of_SomeD)
  moreover have "\<exists>y\<in>set (js_values (mapProcesses m)). processKey y = processKey x \<and> (y = x \<or> runtimeClientProcessSpecEquals y x)"
    if "x \<in> set (clientProcesses c)" for x
    by (rule keyed_kept [OF keyed(1)]) (use has_clientD(2) [OF assms(1), of x] that in simp)
  moreover have "\<exists>y\<in>set (js_values (mapEndpoints m)). endpointKey y = endpointKey x \<and> (y = x \<or> runtimeClientEndpointSpecEquals y x)"
    if "x \<in> set (clientEndpoints c)" for x
    by (rule keyed_kept [OF keyed(2)]) (use has_clientD(3) [OF assms(1), of x] that in simp)
  moreover have "(k, v) \<in> set (mapEnv m)" if "(k, v) \<in> set (setupEnv c)" "k \<noteq> ''__proto__''" for k v
    using assms(3) [OF that] by (rule map_of_SomeD)
  ultimately show ?thesis
    unfolding client_kept_def finished_client_def sortRecord_def runtime_client.simps set_js_sort set_map
    by (intro conjI ballI) (blast | simp split: prod.split)+
qed

lemma set_own_properties_has:
  "js_get (fold (\<lambda>(key, value). set_own_property key value) kvs m) k \<noteq> None \<longleftrightarrow>
   js_get m k \<noteq> None \<or> k \<noteq> ''__proto__'' \<and> k \<in> fst ` set kvs"
proof (induction kvs arbitrary: m)
  case (Cons kv kvs)
  obtain k0 v where kv: "kv = (k0, v)" by (cases kv)
  show ?case
    unfolding kv using Cons.IH [of "set_own_property k0 v m"] set_own_property_get [of k0 v m k] by auto
qed simp

lemma checked_client_kept:
  assumes "validateRuntimeClients url_protocol cs = Inr ()"
    "mergeRuntimeClients localeCompare (resolveRuntimeClients cs) = Inr cs'" "c \<in> set cs"
  shows "\<exists>p\<in>set cs'. client_kept c p"
proof -
  obtain V M where VM: "for_each (validate_client url_protocol) cs [] = Inr V" "agrees_with_validation V M"
      "for_each merge_client (resolveRuntimeClients cs) [] = Inr M"
      "cs' = map (\<lambda>(cid, c). finished_client localeCompare cid c) (js_sort (by_key localeCompare fst) M)"
    using checked_clients_merge [OF assms(1), of localeCompare] assms(2) by auto
  define env where "env = fold (\<lambda>(key, value). set_own_property key value) (setupEnv c) []"
  let ?r = "c\<lparr>setupEnv := env\<rparr>"
  have r: "?r \<in> set (resolveRuntimeClients cs)" using assms(3) by (auto simp: resolveRuntimeClients_def env_def)
  have wf: "clients_wf M" using clients_merged(1) [OF VM(3) clients_wf_Nil merge_client_step] by blast
  have has: "js_get M (clientId c) \<noteq> None" "has_client ?r (client_maps_of M (clientId c))"
    using clients_merged(2) [OF VM(3) clients_wf_Nil merge_client_step r] by simp_all
  have "has_client c (client_maps_of V (clientId c))"
    using clients_merged(2) [OF VM(1) clients_wf_Nil validate_client_step assms(3)] by simp
  then have V: "js_get (mapEnv (client_maps_of V (clientId c))) k = Some v" if "(k, v) \<in> set (setupEnv c)" for k v
    using that by (auto simp: has_client_def)
  obtain m where m: "js_get M (clientId c) = Some m" using has(1) by auto
  then have of_m: "client_maps_of M (clientId c) = m" by (simp add: client_maps_of_def)
  have "js_get (mapEnv m) k = Some v" if kv: "(k, v) \<in> set (setupEnv c)" "k \<noteq> ''__proto__''" for k v
  proof -
    have "js_get env k \<noteq> None" using kv unfolding env_def set_own_properties_has by force
    then obtain v' where "(k, v') \<in> set env" by (auto dest: map_of_SomeD)
    then have "js_get (mapEnv m) k = Some v'" using has(2) of_m by (auto simp: has_client_def)
    moreover from this have "js_get (mapEnv (client_maps_of V (clientId c))) k = Some v'"
      using VM(2) of_m by (metis agrees_with_validation_def sub_map_def)
    ultimately show ?thesis using V [OF kv(1)] by simp
  qed
  moreover have "maps_wf m" using wf of_m by (metis clients_wf_def)
  ultimately have "client_kept c (finished_client localeCompare (clientId c) m)"
    using finished_keeps [of env c m] has(2) of_m by simp
  then show ?thesis using finished_client_of [OF wf m] VM(4) by blast
qed

subsection \<open>Checked fragments give a plan\<close>

lemma checked_parts:
  assumes "validateCompiledRuntimePlanFragments url_protocol fragments = Inr ()"
  shows "validateRoutes (concat (map fragmentRoutes fragments)) = Inr ()"
    and "validateWorkspaceSources (concat (map fragmentSources fragments)) = Inr ()"
    and "validateRuntimeClients url_protocol (concat (map fragmentClients fragments)) = Inr ()"
    and "validateAgentRuntimes (concat (map fragmentClients fragments)) (concat (map fragmentAgentRuntimes fragments)) = Inr ()"
  using assms by (auto simp: validateCompiledRuntimePlanFragments_def flattenCompiledRuntimePlanFragments_def
      Let_def and_then_Inr lift_route_error_def split: sum.splits)

lemma finished_ids: "map clientId (map (\<lambda>(cid, c). finished_client localeCompare cid c) M) = map fst M"
  by (simp add: finished_client_def split_def)

lemma merged_clients_closed:
  assumes "mergeRuntimeClients localeCompare cs = Inr cs'"
  shows "distinct (map clientId cs')" "c \<in> set cs' \<Longrightarrow> client_closed c"
proof -
  obtain M where M: "clients_wf M" "cs' = map (\<lambda>(cid, c). finished_client localeCompare cid c) (js_sort (by_key localeCompare fst) M)"
      "\<forall>(cid, c)\<in>set M. maps_wf c \<and>
        (\<forall>p\<in>set (js_values (mapEndpoints c)). check_process_reference cid (mapProcesses c) p () = Inr ())"
    using merged_references [OF assms] by blast
  show "distinct (map clientId cs')"
    using M(1) unfolding M(2) finished_ids by (simp add: distinct_js_sort clients_wf_def wf_map_def)
  show "client_closed c" if c: "c \<in> set cs'"
  proof -
    obtain cid m where "(cid, m) \<in> set M" "c = finished_client localeCompare cid m" using c M(2) by auto
    then show ?thesis using finished_closed [of m cid localeCompare] M(3) by blast
  qed
qed

lemma checked_routes_distinct: "validateRoutes routes = Inr () \<Longrightarrow> distinct (map egressRuleId routes)"
  using checked_ids_distinct [of "[]" routes] by (simp add: validateRoutes_def split: sum.splits)

lemma checked_source_paths: "validateWorkspaceSources sources = Inr () \<Longrightarrow> distinct (map sourcePath sources)"
  unfolding validateWorkspaceSources_def and_then_Inr using checked_sources_distinct by blast

lemma sorted_artifact_keys: "distinct (map artifactKey (sortArtifacts localeCompare (dedupeArtifacts artifacts)))"
  by (simp add: sortArtifacts_def distinct_js_sort comp_def deduped_keyed)

lemma checked_runtimes_refer:
  assumes "validateRuntimeClients url_protocol clients = Inr ()" "validateAgentRuntimes clients runtimes = Inr ()"
    and merged: "mergeRuntimeClients localeCompare (resolveRuntimeClients clients) = Inr cs"
  shows "distinct (map runtimeKey runtimes)"
    and "r \<in> set runtimes \<Longrightarrow> \<exists>c\<in>set cs. clientId c = agentClientId r \<and> agentEndpointKey r \<in> endpointKey ` set (clientEndpoints c)"
proof -
  obtain keys where keys: "for_each (validate_agent_runtime (endpointKeysByClientId clients)) runtimes [] = Inr keys"
    using assms(2) by (auto simp: validateAgentRuntimes_def and_then_Inr)
  show "distinct (map runtimeKey runtimes)" using checked_runtimes [OF keys] by (rule conjunct1)
  assume r: "r \<in> set runtimes"
  obtain ks where ks: "js_get (endpointKeysByClientId clients) (agentClientId r) = Some ks" "agentEndpointKey r \<in> set ks"
    using checked_runtimes [OF keys] r by blast
  obtain c where c: "c \<in> set clients" "clientId c = agentClientId r" "agentEndpointKey r \<in> endpointKey ` set (clientEndpoints c)"
    using endpoint_keys_declared [OF ks] by blast
  obtain p where p: "p \<in> set cs" "client_kept c p" using checked_client_kept [OF assms(1) merged c(1)] by blast
  obtain e where e: "e \<in> set (clientEndpoints c)" "agentEndpointKey r = endpointKey e" using c(3) by blast
  obtain e' where "e' \<in> set (clientEndpoints p)" "endpointKey e' = endpointKey e"
    using p(2) e(1) unfolding client_kept_def by blast
  moreover have "clientId p = agentClientId r" using p(2) c(2) by (simp add: client_kept_def)
  ultimately show "\<exists>c\<in>set cs. clientId c = agentClientId r \<and> agentEndpointKey r \<in> endpointKey ` set (clientEndpoints c)"
    using p(1) e(2) by (metis imageI)
qed

lemma checked_fragments_closed:
  assumes "validateCompiledRuntimePlanFragments url_protocol fragments = Inr ()"
  shows "\<exists>plan. assembleCompiledRuntimePlan localeCompare profileId planVer img routing fragments = Inr plan \<and> plan_closed plan"
proof -
  note parts = checked_parts [OF assms]
  obtain cs where cs: "mergeRuntimeClients localeCompare (resolveRuntimeClients (concat (map fragmentClients fragments))) = Inr cs"
    using checked_clients_merge [OF parts(3)] by blast
  note runtimes = checked_runtimes_refer [OF parts(3,4) cs]
  show ?thesis
    unfolding assembleCompiledRuntimePlan_def cs and_then_simps
    by (rule exI, rule conjI, rule refl)
      (simp only: plan_closed_def compiled_plan.simps distinct_js_sort orderRoutesForMatching_def set_js_sort
        checked_routes_distinct [OF parts(1)] checked_source_paths [OF parts(2)] sorted_artifact_keys runtimes(1)
        merged_clients_closed(1) [OF cs] simp_thms, use runtimes(2) merged_clients_closed(2) [OF cs] in blast)
qed

text \<open>C31: Fragments that pass the validation of the compiler assemble without an error, and the plan
they give is closed: the ids and keys of its routes, artifacts, workspace sources, clients, agent runtimes,
processes, endpoints and files occur once, every endpoint that names a process names one of its
own client, and every agent runtime names a client of the plan and an endpoint that this client has.\<close>

theorem assembled_plan_closed:
  assumes "validateCompiledRuntimePlanFragments url_protocol fragments = Inr ()"
  shows "\<exists>plan. assembleCompiledRuntimePlan localeCompare profileId planVer img routing fragments = Inr plan \<and> plan_closed plan"
  by (rule checked_fragments_closed [OF assms])

definition sample_process :: process_spec where
  "sample_process = \<lparr> processKey = ''server'', processCommand = \<lparr> commandArgs = [''codex'', ''serve''], commandEnv = None,
     commandCwd = None, commandTimeoutMs = None \<rparr>, processReadiness = ReadyTcp ''127.0.0.1'' 4500 60000,
     processStop = \<lparr> stopSignal = Sigterm, stopTimeoutMs = 10000, stopGracePeriodMs = Some 2000 \<rparr> \<rparr>"

definition sample_launch :: "pty_argument list \<Rightarrow> launch_template" where
  "sample_launch args = \<lparr> ptySessionId = ''pty'', ptyCols = 80, ptyRows = 24, ptyCwd = None, ptyCommand = ''codex'', ptyArgs = args \<rparr>"

definition sample_fragment :: "string \<Rightarrow> (string, string) js_map \<Rightarrow> agent_runtime list \<Rightarrow> plan_fragment" where
  "sample_fragment ruleId env runtimes = \<lparr> fragmentRoutes = [github_route ruleId (''/'' @ ruleId)], fragmentArtifacts = [],
     fragmentClients = [\<lparr> clientId = ''codex'', setupEnv = env, setupFiles = [\<lparr> fileId = ''config'', filePath = ''/etc/codex.toml'',
         fileMode = 420, fileContent = ''model'', fileWriteMode = None \<rparr>], setupLaunchArgs = None,
       clientProcesses = [sample_process], clientEndpoints = [\<lparr> endpointKey = ''ws'', endpointUrl = ''ws://127.0.0.1:4500'',
         endpointProcessKey = Some ''server'', endpointConnectionMode = DedicatedConnection \<rparr>] \<rparr>],
     fragmentSources = [], fragmentAgentRuntimes = runtimes \<rparr>"

definition sample_fragments :: "plan_fragment list" where
  "sample_fragments = [sample_fragment ''r1'' [(''HOME'', ''/root'')] [],
     sample_fragment ''r2'' [(''HOME'', ''/root''), (''MODE'', ''fast'')] [\<lparr> runtimeId = ''codex'', runtimeKey = ''codex'',
       agentClientId = ''codex'', agentEndpointKey = ''ws'', ptyLaunch = \<lparr> launchRuntimeId = ''codex'',
       launchDisplayName = ''Codex'', newLaunch = sample_launch [], resumeLaunch = sample_launch [ThreadIdArgument] \<rparr> \<rparr>]]"

lemma sample_fragments_checked: "validateCompiledRuntimePlanFragments (\<lambda>_. Some ''ws:'') sample_fragments = Inr ()"
  by code_simp

lemma assembled_plan_closed_witness:
  "\<exists>plan. assembleCompiledRuntimePlan (\<lambda>_ _. 0) ''sbp_1'' 1 () () sample_fragments = Inr plan \<and> plan_closed plan"
  by (rule assembled_plan_closed [OF sample_fragments_checked])

text \<open>Assembling checked fragments loses nothing of a client: the plan has a client of the same id
that has its files, its environment (but for a variable named \<open>__proto__\<close>) and, up to the equality the
merge uses, its processes and endpoints.\<close>

theorem assembly_keeps_clients:
  assumes "validateCompiledRuntimePlanFragments url_protocol fragments = Inr ()"
    and "assembleCompiledRuntimePlan localeCompare profileId planVer img routing fragments = Inr plan"
    and "fragment \<in> set fragments" "c \<in> set (fragmentClients fragment)"
  shows "\<exists>p\<in>set (planRuntimeClients plan). client_kept c p"
proof -
  obtain cs where cs: "mergeRuntimeClients localeCompare (resolveRuntimeClients (concat (map fragmentClients fragments))) = Inr cs"
      "planRuntimeClients plan = cs"
    using assms(2) by (auto simp: assembleCompiledRuntimePlan_def and_then_Inr)
  show ?thesis
    unfolding cs(2) by (rule checked_client_kept [OF checked_parts(3) [OF assms(1)] cs(1)]) (use assms(3,4) in auto)
qed

definition sample_plan :: "(unit, unit) compiled_plan" where
  "sample_plan = (case assembleCompiledRuntimePlan (\<lambda>_ _. 0) ''sbp_1'' 1 () () sample_fragments of Inr plan \<Rightarrow> plan)"

lemma assembly_keeps_clients_witness:
  "\<exists>p\<in>set (planRuntimeClients sample_plan). client_kept (hd (fragmentClients (hd sample_fragments))) p"
proof (rule assembly_keeps_clients [OF sample_fragments_checked])
  have "case assembleCompiledRuntimePlan (\<lambda>_ _. 0) ''sbp_1'' 1 () () sample_fragments of Inl _ \<Rightarrow> False | Inr _ \<Rightarrow> True"
    by code_simp
  then show "assembleCompiledRuntimePlan (\<lambda>_ _. 0) ''sbp_1'' 1 () () sample_fragments = Inr sample_plan"
    by (simp add: sample_plan_def split: sum.splits)
  show "hd sample_fragments \<in> set sample_fragments" by (simp add: sample_fragments_def)
  show "hd (fragmentClients (hd sample_fragments)) \<in> set (fragmentClients (hd sample_fragments))"
    by (simp add: sample_fragments_def sample_fragment_def)
qed

section \<open>Two artifacts of one key\<close>

definition artifact_objects_wf :: "artifact_spec \<Rightarrow> bool" where
  "artifact_objects_wf a \<longleftrightarrow> (\<forall>step\<in>set (artifactInstall a). case step of
     ExecStep c \<Rightarrow> case_option True wf_map (commandEnv c) | _ \<Rightarrow> True)"

lemma install_entry_refl:
  "(case step of ExecStep c \<Rightarrow> case_option True wf_map (commandEnv c) | _ \<Rightarrow> True) \<Longrightarrow> runtimeArtifactInstallEntryEquals step step"
proof (induction step)
  case (ExecStep c)
  then show ?case
    by (auto simp: runtimeExecCommandEquals_def stringArrayEquals_def stringRecordEquals_def list_all_iff js_entry_iff
        split: option.splits)
next
  case (GithubReleaseInstall repository release asset path ms)
  then show ?case
    by (cases release; cases asset) (simp_all add: runtimeArtifactGitHubReleaseAssetShapeEquals_def)
qed (simp add: stringArrayEquals_def list_all_iff)

text \<open>The check for conflicting artifacts does not compare their environments: two artifacts of one
key that differ only there are both accepted, and the plan keeps the first and drops the second with
its environment.\<close>

theorem artifact_env_dropped:
  assumes "validateArtifacts [a] = Inr ()" "validateArtifacts [a\<lparr>artifactEnv := env\<rparr>] = Inr ()" "artifact_objects_wf a"
  shows "validateArtifacts [a, a\<lparr>artifactEnv := env\<rparr>] = Inr () \<and> dedupeArtifacts [a, a\<lparr>artifactEnv := env\<rparr>] = [a]"
proof -
  have "artifactLifecycleEquals a (a\<lparr>artifactEnv := env\<rparr>)"
    using assms(3) by (auto simp: artifactLifecycleEquals_def artifactCommandsEqual_def artifact_objects_wf_def list_all_iff
        intro!: install_entry_refl)
  then show ?thesis
    using assms(1,2) by (simp add: validateArtifacts_def and_then_Inr validate_artifact_def Let_def store_simps
        dedupeArtifacts_def js_has_def)
qed

definition sample_artifact :: artifact_spec where
  "sample_artifact = \<lparr> artifactKey = ''gh'', artifactName = ''gh'', artifactDescription = None,
     artifactEnv = Some [(''MODE'', ''a'')], artifactInstall = [ExecStep (processCommand sample_process)] \<rparr>"

lemma artifact_env_dropped_witness:
  "validateArtifacts [sample_artifact, sample_artifact\<lparr>artifactEnv := Some [(''MODE'', ''b'')]\<rparr>] = Inr () \<and>
   dedupeArtifacts [sample_artifact, sample_artifact\<lparr>artifactEnv := Some [(''MODE'', ''b'')]\<rparr>] = [sample_artifact]"
proof (rule artifact_env_dropped)
  show "validateArtifacts [sample_artifact] = Inr ()" by code_simp
  show "validateArtifacts [sample_artifact\<lparr>artifactEnv := Some [(''MODE'', ''b'')]\<rparr>] = Inr ()" by code_simp
  show "artifact_objects_wf sample_artifact" by code_simp
qed

end
