(* ===== verification/McpConfig.thy ===== *)
theory McpConfig
  imports RuntimePlan "HOL-Library.Sublist"
begin

text \<open>
  The MCP servers written into the setup files of runtime clients:
  \<open>packages/integrations-core/src/mcp-config/index.ts\<close> and \<open>object-path.ts\<close>.

  A document is a JSON value, the root of a tree nothing else refers to, so the assignments in
  place are an update. Readers and writers of the two formats are parameters. A TOML date, which
  no JSON value is, is outside the model.
\<close>

section \<open>Data\<close>

datatype mcp_transport = StreamableHttp | Stdio

record mcp_server =
  serverId :: string
  serverName :: string
  serverTransport :: mcp_transport
  serverDescription :: "string option"
  serverUrl :: "string option"
  serverCommand :: "string option"
  serverArgs :: "string list option"
  serverEnv :: "(string, string) js_map option"
  serverHttpHeaders :: "(string, string) js_map option"

datatype mcp_source =
    IntegrationSource (sourceBindingId: string) string string string string
  | MistleSource

record resolved_server =
  mcpSource :: mcp_source
  mcpServer :: mcp_server

datatype mcp_format = TomlFormat | JsonFormat

record mcp_config =
  mcpClientId :: string
  mcpFileId :: string
  mcpFormat :: mcp_format
  mcpPath :: "string list"

text \<open>The readers and writers of documents.\<close>

record document_formats =
  JSON_parse :: "string \<Rightarrow> json option"
  JSON_stringify :: "json \<Rightarrow> string"
  parseToml :: "string \<Rightarrow> json option"
  stringifyToml :: "json \<Rightarrow> string"

section \<open>Assignment at a path\<close>

definition ForbiddenObjectPathKeys :: "string list" where
  "ForbiddenObjectPathKeys = [''__proto__'', ''constructor'', ''prototype'']"

definition assertSafeObjectPath :: "string list \<Rightarrow> string \<Rightarrow> string + unit" where
  "assertSafeObjectPath path invalidPathMessage =
     (if list_ex (\<lambda>key. key \<in> set ForbiddenObjectPathKeys) path then Inl invalidPathMessage else Inr ())"

text \<open>The names every object inherits a function under; reading one gives neither \<open>undefined\<close> nor a record.\<close>

definition ObjectPrototypeMethods :: "string list" where
  "ObjectPrototypeMethods = [''constructor'', ''__defineGetter__'', ''__defineSetter__'', ''hasOwnProperty'',
     ''__lookupGetter__'', ''__lookupSetter__'', ''isPrototypeOf'', ''propertyIsEnumerable'', ''toString'',
     ''valueOf'', ''toLocaleString'']"

fun setObjectValueAtPath ::
  "(string, json) js_map \<Rightarrow> string list \<Rightarrow> json \<Rightarrow> string \<Rightarrow> (string, json) js_map checked" where
  "setObjectValueAtPath root [] v invalidPathMessage = Inl (McpConflict invalidPathMessage)"
| "setObjectValueAtPath root (firstKey # remainingPath) v invalidPathMessage =
     (if assertSafeObjectPath [firstKey] invalidPathMessage \<noteq> Inr () then Inl (McpConflict invalidPathMessage)
      else if remainingPath = [] then Inr (js_set firstKey v root)
      else case js_get root firstKey of
        None \<Rightarrow>
          if firstKey \<in> set ObjectPrototypeMethods then Inl (McpConflict invalidPathMessage)
          else and_then (setObjectValueAtPath [] remainingPath v invalidPathMessage)
            (\<lambda>nextValue. Inr (js_set firstKey (JObject nextValue) root))
      | Some (JObject existingValue) \<Rightarrow>
          and_then (setObjectValueAtPath existingValue remainingPath v invalidPathMessage)
            (\<lambda>nextValue. Inr (js_set firstKey (JObject nextValue) root))
      | Some _ \<Rightarrow> Inl (McpConflict invalidPathMessage))"

section \<open>The value that is written\<close>

definition string_object :: "(string, string) js_map \<Rightarrow> json" where
  "string_object env = JObject (map (\<lambda>(k, v). (k, JString v)) env)"

definition optional_property :: "string \<Rightarrow> ('a \<Rightarrow> json) \<Rightarrow> 'a option \<Rightarrow> (string, json) js_map" where
  "optional_property name f x = (case x of None \<Rightarrow> [] | Some v \<Rightarrow> [(name, f v)])"

definition createMcpServerConfig :: "mcp_format \<Rightarrow> mcp_server \<Rightarrow> (string, json) js_map" where
  "createMcpServerConfig format server = (if serverTransport server = Stdio
     then optional_property ''command'' JString (serverCommand server) @
       optional_property ''args'' (\<lambda>as. JArray (map JString as)) (serverArgs server) @
       optional_property ''env'' string_object (serverEnv server)
     else optional_property ''url'' JString (serverUrl server) @
       optional_property (if format = TomlFormat then ''http_headers'' else ''httpHeaders'')
         string_object (serverHttpHeaders server))"

definition createMcpConfigValue :: "mcp_format \<Rightarrow> resolved_server list \<Rightarrow> (string, json) js_map" where
  "createMcpConfigValue format mcpServers =
     fold (\<lambda>s. set_own_property (serverName (mcpServer s)) (JObject (createMcpServerConfig format (mcpServer s)))) mcpServers []"

section \<open>Files and clients\<close>

definition replace_document ::
  "string \<Rightarrow> string \<Rightarrow> (string \<Rightarrow> json option) \<Rightarrow> (json \<Rightarrow> string) \<Rightarrow> mcp_config \<Rightarrow> resolved_server list \<Rightarrow> string \<Rightarrow> string checked" where
  "replace_document formatName rootName read write cfg mcpServers content =
     (let invalidPathMessage = ''MCP config path '' @ quote (js_join ''.'' (mcpPath cfg)) @ '' is not writable in '' @
            quote (mcpFileId cfg) @ ''.'' in
      case read content of
        None \<Rightarrow> Inl (McpConflict (''MCP config target '' @ quote (mcpFileId cfg) @ '' contains invalid '' @ formatName @ ''.''))
      | Some (JObject root) \<Rightarrow> and_then
          (setObjectValueAtPath root (mcpPath cfg) (JObject (createMcpConfigValue (mcpFormat cfg) mcpServers)) invalidPathMessage)
          (\<lambda>root'. Inr (write (JObject root')))
      | Some _ \<Rightarrow> Inl (McpConflict (''MCP config target '' @ quote (mcpFileId cfg) @ '' must contain a '' @ rootName @ ''.'')))"

definition replaceJsonMcpConfig :: "document_formats \<Rightarrow> mcp_config \<Rightarrow> resolved_server list \<Rightarrow> string \<Rightarrow> string checked" where
  "replaceJsonMcpConfig formats =
     replace_document ''JSON'' ''JSON object'' (JSON_parse formats) (\<lambda>root. JSON_stringify formats root @ [CHR 0x0A])"

definition replaceTomlMcpConfig :: "document_formats \<Rightarrow> mcp_config \<Rightarrow> resolved_server list \<Rightarrow> string \<Rightarrow> string checked" where
  "replaceTomlMcpConfig formats = replace_document ''TOML'' ''TOML table'' (parseToml formats) (stringifyToml formats)"

definition replaceMcpConfigContent :: "document_formats \<Rightarrow> mcp_config \<Rightarrow> resolved_server list \<Rightarrow> string \<Rightarrow> string checked" where
  "replaceMcpConfigContent formats cfg mcpServers content =
     (if mcpPath cfg = [] then Inl (McpConflict (''MCP config for file '' @ quote (mcpFileId cfg) @ '' must define a non-empty path.''))
      else if mcpFormat cfg = JsonFormat then replaceJsonMcpConfig formats cfg mcpServers content
      else replaceTomlMcpConfig formats cfg mcpServers content)"

definition configure_file ::
  "document_formats \<Rightarrow> mcp_config \<Rightarrow> resolved_server list \<Rightarrow> setup_file \<Rightarrow> setup_file checked" where
  "configure_file formats cfg mcpServers f =
     (if fileId f \<noteq> mcpFileId cfg then Inr f
      else and_then (replaceMcpConfigContent formats cfg mcpServers (fileContent f)) (\<lambda>content. Inr (f\<lparr>fileContent := content\<rparr>)))"

definition configure_client ::
  "document_formats \<Rightarrow> mcp_config \<Rightarrow> resolved_server list \<Rightarrow> runtime_client \<Rightarrow> runtime_client checked" where
  "configure_client formats cfg mcpServers c =
     (if clientId c \<noteq> mcpClientId cfg then Inr c
      else and_then (map_checked (configure_file formats cfg mcpServers) (setupFiles c)) (\<lambda>files. Inr (c\<lparr>setupFiles := files\<rparr>)))"

definition applyMcpConfigToRuntimeClients ::
  "document_formats \<Rightarrow> runtime_client list \<Rightarrow> mcp_config \<Rightarrow> resolved_server list \<Rightarrow> runtime_client list checked" where
  "applyMcpConfigToRuntimeClients formats clients cfg mcpServers =
     (if mcpServers = [] then Inr clients
      else and_then (map_checked (configure_client formats cfg mcpServers) clients) (\<lambda>configured.
        if \<not> list_ex (\<lambda>c. clientId c = mcpClientId cfg) clients
        then Inl (McpConflict (''MCP config target client '' @ quote (mcpClientId cfg) @ '' was not found.''))
        else if \<not> list_ex (\<lambda>c. clientId c = mcpClientId cfg \<and> list_ex (\<lambda>f. fileId f = mcpFileId cfg) (setupFiles c)) clients
        then Inl (McpConflict (''MCP config target file '' @ quote (mcpFileId cfg) @ '' was not found on client '' @
          quote (mcpClientId cfg) @ ''.''))
        else Inr configured))"

section \<open>Reading at a path\<close>

text \<open>The own property of a document at a path.\<close>

fun json_at :: "json \<Rightarrow> string list \<Rightarrow> json option" where
  "json_at v [] = Some v"
| "json_at (JObject props) (k # ks) = (case js_get props k of None \<Rightarrow> None | Some v \<Rightarrow> json_at v ks)"
| "json_at _ (k # ks) = None"

lemma json_at_set:
  "json_at (JObject (js_set k v props)) (k' # ks) =
     (if k' = k then json_at v ks else json_at (JObject props) (k' # ks))"
  by (simp add: store_simps)

lemma json_at_append: "json_at v (p @ q) = (case json_at v p of None \<Rightarrow> None | Some w \<Rightarrow> json_at w q)"
  by (induction v p rule: json_at.induct) (auto split: option.splits)

lemma set_at_path: "setObjectValueAtPath root path v msg = Inr root' \<Longrightarrow> json_at (JObject root') path = Some v"
  by (induction root path v msg arbitrary: root' rule: setObjectValueAtPath.induct)
    (auto simp: and_then_Inr store_simps split: if_splits option.splits json.splits)

lemma empty_object_has_none: "ks \<noteq> [] \<Longrightarrow> json_at (JObject []) ks = None"
  by (cases ks) simp_all

lemma set_elsewhere:
  "setObjectValueAtPath root path v msg = Inr root' \<Longrightarrow> \<not> prefix path q \<Longrightarrow> \<not> prefix q path \<Longrightarrow>
   json_at (JObject root') q = json_at (JObject root) q"
proof (induction root path v msg arbitrary: root' q rule: setObjectValueAtPath.induct)
  case (2 root k ks v msg)
  obtain q1 qs where q: "q = q1 # qs" using "2.prems"(3) by (cases q) auto
  show ?case
  proof (cases "q1 = k")
    case True
    then have apart: "\<not> prefix ks qs" "\<not> prefix qs ks" using "2.prems"(2,3) q by auto
    then have "ks \<noteq> []" "qs \<noteq> []" by auto
    with "2.prems"(1) show ?thesis
      using apart True q "2.IH"
      by (auto simp: and_then_Inr store_simps empty_object_has_none split: if_splits option.splits json.splits)
  next
    case False
    then show ?thesis using "2.prems"(1) q
      by (auto simp: and_then_Inr store_simps split: if_splits option.splits json.splits)
  qed
qed simp

section \<open>What is written\<close>

lemma fold_set_own_other:
  "k \<notin> name ` set xs \<Longrightarrow> js_get (fold (\<lambda>x. set_own_property (name x) (f x)) xs m) k = js_get m k"
  by (induction xs arbitrary: m) (auto simp: set_own_property_get)

lemma config_value_has:
  assumes "distinct (map (\<lambda>s. serverName (mcpServer s)) servers)" "s \<in> set servers"
    "serverName (mcpServer s) \<noteq> ''__proto__''"
  shows "js_get (createMcpConfigValue format servers) (serverName (mcpServer s)) =
    Some (JObject (createMcpServerConfig format (mcpServer s)))"
proof -
  let ?f = "\<lambda>s. set_own_property (serverName (mcpServer s)) (JObject (createMcpServerConfig format (mcpServer s)))"
  have "js_get (fold ?f servers m) (serverName (mcpServer s)) = Some (JObject (createMcpServerConfig format (mcpServer s)))" for m
    using assms(1,2)
  proof (induction servers arbitrary: m)
    case (Cons t ts)
    show ?case
    proof (cases "s \<in> set ts")
      case True
      then show ?thesis using Cons by simp
    next
      case False
      then have "t = s" "serverName (mcpServer s) \<notin> (\<lambda>s. serverName (mcpServer s)) ` set ts" using Cons.prems by auto
      then show ?thesis
        using fold_set_own_other [of "serverName (mcpServer s)" "\<lambda>s. serverName (mcpServer s)" ts
            "\<lambda>s. JObject (createMcpServerConfig format (mcpServer s))"] assms(3)
        by (simp add: set_own_property_get)
    qed
  qed simp
  then show ?thesis by (simp add: createMcpConfigValue_def)
qed

definition read_document :: "document_formats \<Rightarrow> mcp_format \<Rightarrow> string \<Rightarrow> json option" where
  "read_document formats format = (if format = JsonFormat then JSON_parse formats else parseToml formats)"

definition write_document :: "document_formats \<Rightarrow> mcp_format \<Rightarrow> json \<Rightarrow> string" where
  "write_document formats format v =
     (if format = JsonFormat then JSON_stringify formats v @ [CHR 0x0A] else stringifyToml formats v)"

text \<open>The file has the servers under the path of the configuration and is as before everywhere else.\<close>

definition file_configured :: "document_formats \<Rightarrow> mcp_config \<Rightarrow> resolved_server list \<Rightarrow> setup_file \<Rightarrow> setup_file \<Rightarrow> bool" where
  "file_configured formats cfg servers f f' \<longleftrightarrow> (\<exists>before after.
     read_document formats (mcpFormat cfg) (fileContent f) = Some before \<and>
     f' = f\<lparr>fileContent := write_document formats (mcpFormat cfg) after\<rparr> \<and>
     (\<forall>s\<in>set servers. json_at after (mcpPath cfg @ [serverName (mcpServer s)]) =
        Some (JObject (createMcpServerConfig (mcpFormat cfg) (mcpServer s)))) \<and>
     (\<forall>path. \<not> prefix (mcpPath cfg) path \<and> \<not> prefix path (mcpPath cfg) \<longrightarrow> json_at after path = json_at before path))"

definition client_configured ::
  "document_formats \<Rightarrow> mcp_config \<Rightarrow> resolved_server list \<Rightarrow> runtime_client \<Rightarrow> runtime_client \<Rightarrow> bool" where
  "client_configured formats cfg servers c c' \<longleftrightarrow> (if clientId c \<noteq> mcpClientId cfg then c' = c
     else \<exists>files. c' = c\<lparr>setupFiles := files\<rparr> \<and> list_all2 (\<lambda>f f'. if fileId f = mcpFileId cfg
       then file_configured formats cfg servers f f' else f' = f) (setupFiles c) files)"

lemma replaced_document:
  assumes "replaceMcpConfigContent formats cfg servers content = Inr content'"
  shows "\<exists>root root'. read_document formats (mcpFormat cfg) content = Some (JObject root) \<and>
    content' = write_document formats (mcpFormat cfg) (JObject root') \<and>
    (\<exists>msg. setObjectValueAtPath root (mcpPath cfg) (JObject (createMcpConfigValue (mcpFormat cfg) servers)) msg = Inr root')"
  using assms
  by (auto simp: replaceMcpConfigContent_def replaceJsonMcpConfig_def replaceTomlMcpConfig_def replace_document_def Let_def
      read_document_def write_document_def and_then_Inr split: if_splits option.splits json.splits)

lemma configured_file:
  assumes "replaceMcpConfigContent formats cfg servers (fileContent f) = Inr content"
    "distinct (map (\<lambda>s. serverName (mcpServer s)) servers)" "\<forall>s\<in>set servers. serverName (mcpServer s) \<noteq> ''__proto__''"
  shows "file_configured formats cfg servers f (f\<lparr>fileContent := content\<rparr>)"
proof -
  obtain root root' msg where r: "read_document formats (mcpFormat cfg) (fileContent f) = Some (JObject root)"
      "content = write_document formats (mcpFormat cfg) (JObject root')"
      "setObjectValueAtPath root (mcpPath cfg) (JObject (createMcpConfigValue (mcpFormat cfg) servers)) msg = Inr root'"
    using replaced_document [OF assms(1)] by blast
  have "json_at (JObject root') (mcpPath cfg @ [serverName (mcpServer s)]) =
      Some (JObject (createMcpServerConfig (mcpFormat cfg) (mcpServer s)))" if "s \<in> set servers" for s
    using that assms(2,3) config_value_has [of servers s] set_at_path [OF r(3)] by (simp add: json_at_append)
  then show ?thesis
    unfolding file_configured_def using r(1,2) set_elsewhere [OF r(3)] by blast
qed

lemma configured_client:
  assumes "configure_client formats cfg servers c = Inr c'"
    "distinct (map (\<lambda>s. serverName (mcpServer s)) servers)" "\<forall>s\<in>set servers. serverName (mcpServer s) \<noteq> ''__proto__''"
  shows "client_configured formats cfg servers c c'"
proof (cases "clientId c = mcpClientId cfg")
  case True
  then obtain files where files: "c' = c\<lparr>setupFiles := files\<rparr>"
      "list_all2 (\<lambda>f f'. configure_file formats cfg servers f = Inr f') (setupFiles c) files"
    using assms(1) by (auto simp: configure_client_def and_then_Inr map_checked_Inr)
  have "list_all2 (\<lambda>f f'. if fileId f = mcpFileId cfg then file_configured formats cfg servers f f' else f' = f)
      (setupFiles c) files"
    using files(2) by (rule list_all2_mono)
      (auto simp: configure_file_def and_then_Inr configured_file assms(2,3) split: if_splits)
  with files(1) have "\<exists>files. c' = c\<lparr>setupFiles := files\<rparr> \<and> list_all2 (\<lambda>f f'. if fileId f = mcpFileId cfg
       then file_configured formats cfg servers f f' else f' = f) (setupFiles c) files"
    by (intro exI [of _ files] conjI)
  then show ?thesis using True by (simp only: client_configured_def not_True_eq_False simp_thms if_False)
qed (use assms(1) in \<open>simp add: configure_client_def client_configured_def\<close>)

text \<open>When the MCP servers of a profile are applied to the clients, the target file of the target
client is the document it was with each server under the configured path and nothing changed at any
other path, every other file and client is unchanged, and that file exists. This needs server
names that are distinct and not \<open>__proto__\<close>.\<close>

theorem mcp_servers_written:
  assumes "applyMcpConfigToRuntimeClients formats clients cfg servers = Inr clients'" "servers \<noteq> []"
    "distinct (map (\<lambda>s. serverName (mcpServer s)) servers)" "\<forall>s\<in>set servers. serverName (mcpServer s) \<noteq> ''__proto__''"
  shows "list_all2 (client_configured formats cfg servers) clients clients' \<and>
    (\<exists>c\<in>set clients. clientId c = mcpClientId cfg \<and> (\<exists>f\<in>set (setupFiles c). fileId f = mcpFileId cfg))"
proof -
  have "list_all2 (\<lambda>c c'. configure_client formats cfg servers c = Inr c') clients clients'"
    using assms(1,2) by (auto simp: applyMcpConfigToRuntimeClients_def and_then_Inr map_checked_Inr split: if_splits)
  then have "list_all2 (client_configured formats cfg servers) clients clients'"
    by (rule list_all2_mono) (rule configured_client [OF _ assms(3,4)])
  then show ?thesis
    using assms(1,2) by (auto simp: applyMcpConfigToRuntimeClients_def and_then_Inr list_ex_iff split: if_splits)
qed

text \<open>Formats for the example: a document is read as one string property and written as the url of a server.\<close>

definition sample_formats :: document_formats where
  "sample_formats = \<lparr> JSON_parse = (\<lambda>s. Some (JObject [(''model'', JString s)])),
     JSON_stringify = (\<lambda>v. case json_at v [''mcp'', ''servers'', ''gh'', ''url''] of Some (JString s) \<Rightarrow> s | _ \<Rightarrow> []),
     parseToml = (\<lambda>_. None), stringifyToml = (\<lambda>_. []) \<rparr>"

definition sample_server :: "string \<Rightarrow> resolved_server" where
  "sample_server name = \<lparr> mcpSource = MistleSource, mcpServer = \<lparr> serverId = name, serverName = name,
     serverTransport = StreamableHttp, serverDescription = None, serverUrl = Some ''https://x'', serverCommand = None,
     serverArgs = None, serverEnv = None, serverHttpHeaders = None \<rparr> \<rparr>"

definition sample_config :: mcp_config where
  "sample_config = \<lparr> mcpClientId = ''codex'', mcpFileId = ''settings'', mcpFormat = JsonFormat, mcpPath = [''mcp'', ''servers''] \<rparr>"

definition sample_client :: "string \<Rightarrow> runtime_client" where
  "sample_client content = \<lparr> clientId = ''codex'', setupEnv = [], setupFiles = [\<lparr> fileId = ''settings'', filePath = ''/s'',
     fileMode = 420, fileContent = content, fileWriteMode = None \<rparr>], setupLaunchArgs = None, clientProcesses = [], clientEndpoints = [] \<rparr>"

lemma mcp_servers_written_witness:
  "list_all2 (client_configured sample_formats sample_config [sample_server ''gh'', sample_server ''x''])
     [sample_client ''m''] [sample_client (''https://x'' @ [CHR 0x0A])]"
proof -
  have "applyMcpConfigToRuntimeClients sample_formats [sample_client ''m''] sample_config [sample_server ''gh'', sample_server ''x''] =
      Inr [sample_client (''https://x'' @ [CHR 0x0A])]" by code_simp
  from mcp_servers_written [OF this] show ?thesis by (simp add: sample_server_def)
qed

text \<open>A server of the name \<open>__proto__\<close> is written to no file.\<close>

lemma proto_server_lost: "createMcpConfigValue format [sample_server ''__proto__''] = []"
  by (simp add: createMcpConfigValue_def sample_server_def set_own_property_def)

end
