(* ===== verification/Triggers.thy ===== *)
theory Triggers
  imports JsonValues "HOL-Library.Word"
begin

text \<open>
  Trigger rules and the capabilities a webhook trigger needs, \<open>packages/integrations-core/src\<close>:
  \<open>triggers/operators.ts\<close>, \<open>path.ts\<close>, \<open>evaluate.ts\<close> and \<open>index.ts\<close>, and \<open>webhook-trigger-capabilities/index.ts\<close>.

  The token search works on UTF-16 code units, so its strings are lists of 16-bit words; the test for
  letters, digits and marks of the Unicode tables is a parameter on the code point it is asked about. Its loop is a
  partial function, so that returning is a theorem.
\<close>

section \<open>Tokens (operators.ts)\<close>

type_synonym utf16 = "16 word list"

definition code_units :: "string \<Rightarrow> utf16" where
  "code_units s = map of_char s"

definition leading_surrogate :: "16 word \<Rightarrow> bool" where
  "leading_surrogate u \<longleftrightarrow> 0xd800 \<le> u \<and> u \<le> 0xdbff"

definition trailing_surrogate :: "16 word \<Rightarrow> bool" where
  "trailing_surrogate u \<longleftrightarrow> 0xdc00 \<le> u \<and> u \<le> 0xdfff"

definition getCodePointBefore :: "utf16 \<Rightarrow> nat \<Rightarrow> utf16 option" where
  "getCodePointBefore value index =
     (if index = 0 then None
      else if trailing_surrogate (value ! (index - 1)) \<and> index \<ge> 2 \<and> leading_surrogate (value ! (index - 2))
      then Some (take 2 (drop (index - 2) value))
      else Some (take 1 (drop (index - 1) value)))"

definition getCodePointAfter :: "utf16 \<Rightarrow> nat \<Rightarrow> utf16 option" where
  "getCodePointAfter value index =
     (if index \<ge> length value then None
      else if leading_surrogate (value ! index) \<and> index + 1 < length value \<and> trailing_surrogate (value ! (index + 1))
      then Some (take 2 (drop index value))
      else Some (take 1 (drop index value)))"

definition isTokenBoundaryCharacter :: "(utf16 \<Rightarrow> bool) \<Rightarrow> utf16 \<Rightarrow> bool" where
  "isTokenBoundaryCharacter word_character codePoint \<longleftrightarrow> \<not> word_character codePoint"

text \<open>\<open>value.indexOf(token, start)\<close>, \<open>None\<close> for -1.\<close>

definition js_index_of :: "'a list \<Rightarrow> 'a list \<Rightarrow> nat \<Rightarrow> nat option" where
  "js_index_of s t start = find (\<lambda>i. js_starts_with (drop i s) t) [start..<Suc (length s)]"

definition boundary :: "(utf16 \<Rightarrow> bool) \<Rightarrow> utf16 option \<Rightarrow> bool" where
  "boundary word_character codePoint \<longleftrightarrow> (case codePoint of None \<Rightarrow> True | Some c \<Rightarrow> isTokenBoundaryCharacter word_character c)"

partial_function (option) contains_from :: "(utf16 \<Rightarrow> bool) \<Rightarrow> utf16 \<Rightarrow> utf16 \<Rightarrow> nat \<Rightarrow> bool option" where
  "contains_from word_character value token searchStartIndex =
     (case js_index_of value token searchStartIndex of
        None \<Rightarrow> Some False
      | Some matchedIndex \<Rightarrow>
          if boundary word_character (getCodePointBefore value matchedIndex) \<and>
             boundary word_character (getCodePointAfter value (matchedIndex + length token))
          then Some True
          else contains_from word_character value token (matchedIndex + 1))"

definition containsToken :: "(utf16 \<Rightarrow> bool) \<Rightarrow> utf16 \<Rightarrow> utf16 \<Rightarrow> bool option" where
  "containsToken word_character value token =
     (if token = [] then Some False else contains_from word_character value token 0)"

section \<open>Paths (path.ts)\<close>

datatype property_access = OwnAccess | PlainAccess

record path_options =
  allowArrayTraversal :: bool
  propertyAccess :: property_access

text \<open>Both ways of access read own properties; those of a JSON value have no getters.\<close>

definition readObjectProperty :: "(string, json) js_map \<Rightarrow> string \<Rightarrow> property_access \<Rightarrow> json option" where
  "readObjectProperty target key propAccess = (case propAccess of
     OwnAccess \<Rightarrow> js_get target key | PlainAccess \<Rightarrow> js_get target key)"

text \<open>\<open>integer_of\<close> is \<open>Number(segment)\<close> where that is an integer. \<open>None\<close> is \<open>undefined\<close>.\<close>

fun getValueAtPath :: "(string \<Rightarrow> int option) \<Rightarrow> path_options \<Rightarrow> json option \<Rightarrow> string list \<Rightarrow> json option" where
  "getValueAtPath integer_of opts cursor [] = cursor"
| "getValueAtPath integer_of opts cursor (segment # segments) = (case cursor of
     Some (JArray items) \<Rightarrow>
       if \<not> allowArrayTraversal opts then None
       else (case integer_of segment of
         None \<Rightarrow> None
       | Some i \<Rightarrow> if i < 0 then None
           else getValueAtPath integer_of opts (if nat i < length items then Some (items ! nat i) else None) segments)
   | Some (JObject target) \<Rightarrow> getValueAtPath integer_of opts (readObjectProperty target segment (propertyAccess opts)) segments
   | _ \<Rightarrow> None)"

definition splitDotPath :: "string \<Rightarrow> string list" where
  "splitDotPath path = js_split CHR ''.'' path"

section \<open>Filters (evaluate.ts)\<close>

datatype filter_scalar = ScalarString string | ScalarNumber js_number | ScalarBool bool

text \<open>The filters of a rule have a path of one string, those that are evaluated a split one.\<close>

datatype 'path filter_node =
    FilterAll "'path filter_node list"
  | FilterAny "'path filter_node list"
  | FilterNot "'path filter_node"
  | FilterEq 'path filter_scalar
  | FilterIn 'path "filter_scalar list"
  | FilterContains 'path string
  | FilterContainsToken 'path string
  | FilterStartsWith 'path string
  | FilterExists 'path

type_synonym shared_filter = "string list filter_node"
type_synonym trigger_filter = "string filter_node"

fun scalar_of_json :: "json option \<Rightarrow> filter_scalar option" where
  "scalar_of_json (Some (JString s)) = Some (ScalarString s)"
| "scalar_of_json (Some (JNumber n)) = Some (ScalarNumber n)"
| "scalar_of_json (Some (JBool b)) = Some (ScalarBool b)"
| "scalar_of_json _ = None"

definition string_test :: "(string \<Rightarrow> bool) \<Rightarrow> json option \<Rightarrow> bool" where
  "string_test test resolvedValue = (case resolvedValue of Some (JString s) \<Rightarrow> test s | _ \<Rightarrow> False)"

fun evaluateFilterNode :: "(utf16 \<Rightarrow> bool) \<Rightarrow> (string list \<Rightarrow> json option) \<Rightarrow> shared_filter \<Rightarrow> bool" where
  "evaluateFilterNode wc resolveValueAtPath (FilterAll filters) = list_all (evaluateFilterNode wc resolveValueAtPath) filters"
| "evaluateFilterNode wc resolveValueAtPath (FilterAny filters) = list_ex (evaluateFilterNode wc resolveValueAtPath) filters"
| "evaluateFilterNode wc resolveValueAtPath (FilterNot f) = (\<not> evaluateFilterNode wc resolveValueAtPath f)"
| "evaluateFilterNode wc resolveValueAtPath (FilterExists path) = (resolveValueAtPath path \<noteq> None)"
| "evaluateFilterNode wc resolveValueAtPath (FilterEq path v) = (scalar_of_json (resolveValueAtPath path) = Some v)"
| "evaluateFilterNode wc resolveValueAtPath (FilterIn path vs) =
     (case scalar_of_json (resolveValueAtPath path) of None \<Rightarrow> False | Some v \<Rightarrow> v \<in> set vs)"
| "evaluateFilterNode wc resolveValueAtPath (FilterContains path v) = string_test (\<lambda>s. js_includes s v) (resolveValueAtPath path)"
| "evaluateFilterNode wc resolveValueAtPath (FilterContainsToken path v) =
     string_test (\<lambda>s. containsToken wc (code_units s) (code_units v) = Some True) (resolveValueAtPath path)"
| "evaluateFilterNode wc resolveValueAtPath (FilterStartsWith path v) = string_test (\<lambda>s. js_starts_with s v) (resolveValueAtPath path)"

section \<open>Rules (index.ts)\<close>

fun normalizeTriggerFilter :: "trigger_filter \<Rightarrow> shared_filter" where
  "normalizeTriggerFilter (FilterAll filters) = FilterAll (map normalizeTriggerFilter filters)"
| "normalizeTriggerFilter (FilterAny filters) = FilterAny (map normalizeTriggerFilter filters)"
| "normalizeTriggerFilter (FilterNot f) = FilterNot (normalizeTriggerFilter f)"
| "normalizeTriggerFilter (FilterExists path) = FilterExists (splitDotPath path)"
| "normalizeTriggerFilter (FilterEq path v) = FilterEq (splitDotPath path) v"
| "normalizeTriggerFilter (FilterIn path vs) = FilterIn (splitDotPath path) vs"
| "normalizeTriggerFilter (FilterContains path v) = FilterContains (splitDotPath path) v"
| "normalizeTriggerFilter (FilterContainsToken path v) = FilterContainsToken (splitDotPath path) v"
| "normalizeTriggerFilter (FilterStartsWith path v) = FilterStartsWith (splitDotPath path) v"

definition evaluateTriggerFilter :: "(utf16 \<Rightarrow> bool) \<Rightarrow> (string \<Rightarrow> int option) \<Rightarrow> trigger_filter \<Rightarrow> json \<Rightarrow> bool" where
  "evaluateTriggerFilter wc integer_of f payload = evaluateFilterNode wc
     (getValueAtPath integer_of \<lparr> allowArrayTraversal = False, propertyAccess = PlainAccess \<rparr> (Some payload))
     (normalizeTriggerFilter f)"

subsection \<open>The schema of the rules\<close>

fun traverse_option :: "('a \<Rightarrow> 'b option) \<Rightarrow> 'a list \<Rightarrow> 'b list option" where
  "traverse_option f [] = Some []"
| "traverse_option f (x # xs) = (case f x of None \<Rightarrow> None | Some y \<Rightarrow>
     (case traverse_option f xs of None \<Rightarrow> None | Some ys \<Rightarrow> Some (y # ys)))"

lemma traverse_option_cong [fundef_cong]:
  "xs = ys \<Longrightarrow> (\<And>x. x \<in> set ys \<Longrightarrow> f x = g x) \<Longrightarrow> traverse_option f xs = traverse_option g ys"
  by (induction ys arbitrary: xs) (auto split: option.splits)

lemma traverse_option_Some: "traverse_option f xs = Some ys \<longleftrightarrow> list_all2 (\<lambda>x y. f x = Some y) xs ys"
proof (induction xs arbitrary: ys)
  case (Cons x xs)
  show ?case
    by (cases "f x"; cases "traverse_option f xs") (auto simp: list_all2_Cons1 simp flip: Cons.IH)
qed auto

text \<open>A strict object has exactly the properties its schema names.\<close>

definition exact_keys :: "string list \<Rightarrow> (string, json) js_map \<Rightarrow> bool" where
  "exact_keys keys props \<longleftrightarrow> list_all (\<lambda>k. js_has props k) keys \<and> list_all (\<lambda>(k, _). k \<in> set keys) props"

definition string_property :: "(string, json) js_map \<Rightarrow> string \<Rightarrow> string option" where
  "string_property props k = (case js_get props k of Some (JString s) \<Rightarrow> Some s | _ \<Rightarrow> None)"

definition nonempty_property :: "(string, json) js_map \<Rightarrow> string \<Rightarrow> string option" where
  "nonempty_property props k = (case string_property props k of Some s \<Rightarrow> if s = [] then None else Some s | None \<Rightarrow> None)"

definition array_property :: "(string, json) js_map \<Rightarrow> string \<Rightarrow> json list" where
  "array_property props k = (case js_get props k of Some (JArray js) \<Rightarrow> js | _ \<Rightarrow> [])"

definition in_scalar :: "json \<Rightarrow> filter_scalar option" where
  "in_scalar j = (case j of JString s \<Rightarrow> Some (ScalarString s) | JNumber n \<Rightarrow> Some (ScalarNumber n) | _ \<Rightarrow> None)"

definition on_path :: "(string, json) js_map \<Rightarrow> (string \<Rightarrow> trigger_filter option) \<Rightarrow> trigger_filter option" where
  "on_path props f = (case nonempty_property props ''path'' of None \<Rightarrow> None | Some path \<Rightarrow> f path)"

definition value_filter ::
  "(string, json) js_map \<Rightarrow> (string \<Rightarrow> string \<Rightarrow> trigger_filter) \<Rightarrow> trigger_filter option" where
  "value_filter props f = (if exact_keys [''op'', ''path'', ''value''] props
     then on_path props (\<lambda>path. map_option (f path) (string_property props ''value'')) else None)"

text \<open>The value of a property is smaller than the object.\<close>

lemma property_size: "js_get props k = Some v \<Longrightarrow> size v < size_list (size_prod (\<lambda>_. 0) size) props"
  by (induction props) (auto split: if_splits)

lemma array_property_size:
  "j \<in> set (array_property props k) \<Longrightarrow> size j < Suc (size_list (size_prod (\<lambda>_. 0) size) props)"
proof -
  assume j: "j \<in> set (array_property props k)"
  then obtain js where js: "js_get props k = Some (JArray js)" "j \<in> set js"
    by (cases "js_get props k") (auto simp: array_property_def split: json.splits)
  have "size j < size (JArray js)" using js(2) by (induction js) auto
  with property_size [OF js(1)] show ?thesis by simp
qed

function parseTriggerFilter :: "json \<Rightarrow> trigger_filter option" where
  "parseTriggerFilter (JObject props) = (case string_property props ''op'' of
     None \<Rightarrow> None
   | Some op \<Rightarrow>
     if op = ''all'' \<or> op = ''any'' then
       (if exact_keys [''op'', ''filters''] props \<and> array_property props ''filters'' \<noteq> []
        then map_option (if op = ''all'' then FilterAll else FilterAny)
          (traverse_option parseTriggerFilter (array_property props ''filters'')) else None)
     else if op = ''not'' then
       (if exact_keys [''op'', ''filter''] props
        then (case js_get props ''filter'' of None \<Rightarrow> None | Some j \<Rightarrow> map_option FilterNot (parseTriggerFilter j)) else None)
     else if op = ''eq'' then
       (if exact_keys [''op'', ''path'', ''value''] props
        then on_path props (\<lambda>path. map_option (FilterEq path) (scalar_of_json (js_get props ''value''))) else None)
     else if op = ''in'' then
       (if exact_keys [''op'', ''path'', ''values''] props \<and> array_property props ''values'' \<noteq> []
        then on_path props (\<lambda>path. map_option (FilterIn path) (traverse_option in_scalar (array_property props ''values''))) else None)
     else if op = ''contains'' then value_filter props FilterContains
     else if op = ''containsToken'' then value_filter props FilterContainsToken
     else if op = ''startsWith'' then value_filter props FilterStartsWith
     else if op = ''exists'' then
       (if exact_keys [''op'', ''path''] props then on_path props (\<lambda>path. Some (FilterExists path)) else None)
     else None)"
| "parseTriggerFilter JNull = None"
| "parseTriggerFilter (JBool _) = None"
| "parseTriggerFilter (JNumber _) = None"
| "parseTriggerFilter (JString _) = None"
| "parseTriggerFilter (JArray _) = None"
  by pat_completeness auto
termination
  by (relation "measure size") (auto dest: array_property_size property_size)

record trigger_action =
  inputTemplate :: string
  conversationKeyTemplate :: string
  idempotencyKeyTemplate :: "string option"

record trigger_rule =
  ruleId :: string
  sourceBindingRef :: string
  ruleEventType :: string
  ruleFilter :: trigger_filter
  ruleAction :: trigger_action
  ruleEnabled :: bool

definition lower_or_digit :: "char \<Rightarrow> bool" where
  "lower_or_digit c \<longleftrightarrow> (of_char c :: nat) \<in> set [97..<123] \<or> (of_char c :: nat) \<in> set [48..<58] \<or> c = CHR ''_'' \<or> c = CHR ''-''"

text \<open>The regular expression of an event type: two plain segments, and a rest that may have more dots.\<close>

definition event_type_matches :: "string \<Rightarrow> bool" where
  "event_type_matches s \<longleftrightarrow> (case js_split CHR ''.'' s of
     a # b # c # rest \<Rightarrow> a \<noteq> [] \<and> list_all lower_or_digit a \<and> b \<noteq> [] \<and> list_all lower_or_digit b \<and>
       js_join ''.'' (c # rest) \<noteq> [] \<and> list_all (list_all lower_or_digit) (c # rest)
   | _ \<Rightarrow> False)"

text \<open>Strict with one optional property.\<close>

definition parseTriggerAction :: "json \<Rightarrow> trigger_action option" where
  "parseTriggerAction j = (case j of
     JObject props \<Rightarrow>
       if (exact_keys [''type'', ''inputTemplate'', ''conversationKeyTemplate''] props \<or>
           exact_keys [''type'', ''inputTemplate'', ''conversationKeyTemplate'', ''idempotencyKeyTemplate''] props \<and>
           nonempty_property props ''idempotencyKeyTemplate'' \<noteq> None) \<and>
          string_property props ''type'' = Some ''deliver-input''
       then (case (nonempty_property props ''inputTemplate'', nonempty_property props ''conversationKeyTemplate'') of
           (Some i, Some c) \<Rightarrow> Some \<lparr> inputTemplate = i, conversationKeyTemplate = c,
             idempotencyKeyTemplate = nonempty_property props ''idempotencyKeyTemplate'' \<rparr>
         | _ \<Rightarrow> None)
       else None
   | _ \<Rightarrow> None)"

definition bool_property :: "(string, json) js_map \<Rightarrow> string \<Rightarrow> bool option" where
  "bool_property props k = (case js_get props k of Some (JBool b) \<Rightarrow> Some b | _ \<Rightarrow> None)"

definition parseTriggerRule :: "json \<Rightarrow> trigger_rule option" where
  "parseTriggerRule j = (case j of
     JObject props \<Rightarrow>
       if \<not> exact_keys [''id'', ''sourceBindingId'', ''eventType'', ''filter'', ''action'', ''enabled''] props then None
       else (case (nonempty_property props ''id'', nonempty_property props ''sourceBindingId'',
           nonempty_property props ''eventType'', Option.bind (js_get props ''filter'') parseTriggerFilter,
           Option.bind (js_get props ''action'') parseTriggerAction, bool_property props ''enabled'') of
         (Some i, Some b, Some e, Some f, Some a, Some en) \<Rightarrow>
           if event_type_matches e then Some \<lparr> ruleId = i, sourceBindingRef = b, ruleEventType = e, ruleFilter = f,
             ruleAction = a, ruleEnabled = en \<rparr> else None
       | _ \<Rightarrow> None)
   | _ \<Rightarrow> None)"

text \<open>The message with the issues of the schema library is left out.\<close>

datatype trigger_rules_error = InvalidTriggerRules

definition parseTriggerRules :: "json \<Rightarrow> trigger_rules_error + trigger_rule list" where
  "parseTriggerRules j = (case j of
     JArray items \<Rightarrow> (case traverse_option parseTriggerRule items of None \<Rightarrow> Inl InvalidTriggerRules | Some rules \<Rightarrow> Inr rules)
   | _ \<Rightarrow> Inl InvalidTriggerRules)"

section \<open>The token search\<close>

text \<open>The token occurs at \<open>i\<close> with no word character on either side.\<close>

definition token_at :: "(utf16 \<Rightarrow> bool) \<Rightarrow> utf16 \<Rightarrow> utf16 \<Rightarrow> nat \<Rightarrow> bool" where
  "token_at wc value token i \<longleftrightarrow> take (length token) (drop i value) = token \<and> i + length token \<le> length value \<and>
     boundary wc (getCodePointBefore value i) \<and> boundary wc (getCodePointAfter value (i + length token))"

lemma starts_with_take: "js_starts_with s t \<longleftrightarrow> take (length t) s = t"
  by (auto simp: js_starts_with_iff) (metis append_take_drop_id)

lemma find_upt_Some:
  "find P [a..<b] = Some i \<longleftrightarrow> a \<le> i \<and> i < b \<and> P i \<and> (\<forall>j. a \<le> j \<and> j < i \<longrightarrow> \<not> P j)"
proof (induction "b - a" arbitrary: a)
  case (Suc n)
  then have "[a..<b] = a # [Suc a..<b]" by (simp add: upt_conv_Cons)
  moreover have "find P [Suc a..<b] = Some i \<longleftrightarrow> Suc a \<le> i \<and> i < b \<and> P i \<and> (\<forall>j. Suc a \<le> j \<and> j < i \<longrightarrow> \<not> P j)"
    using Suc by auto
  ultimately show ?case using Suc.hyps(2) by (auto simp: Suc_le_eq) (metis le_neq_implies_less less_SucI)+
qed auto

lemma find_upt_None: "find P [a..<b] = None \<longleftrightarrow> (\<forall>i. a \<le> i \<and> i < b \<longrightarrow> \<not> P i)"
  by (auto simp: find_None_iff)

lemma occurrence_fits: "take (length token) (drop i value) = token \<Longrightarrow> token \<noteq> [] \<Longrightarrow> i + length token \<le> length value"
proof -
  assume t: "take (length token) (drop i value) = token" "token \<noteq> []"
  then have "min (length value - i) (length token) = length token" by (metis length_drop length_take)
  moreover have "0 < length token" using t(2) by simp
  ultimately show ?thesis by arith
qed

lemma contains_from_returns:
  assumes "token \<noteq> []"
  shows "contains_from wc value token start = Some (\<exists>i\<ge>start. token_at wc value token i)"
proof (induction "Suc (length value) - start" arbitrary: start rule: less_induct)
  case less
  show ?case
  proof (cases "js_index_of value token start")
    case None
    then have "take (length token) (drop i value) \<noteq> token" if "start \<le> i" "i \<le> length value" for i
      using that by (auto simp: js_index_of_def find_upt_None starts_with_take simp del: upt_Suc)
    then have "\<not> token_at wc value token i" if "start \<le> i" for i using that by (auto simp: token_at_def)
    with None show ?thesis by (subst contains_from.simps) auto
  next
    case (Some m)
    then have m: "start \<le> m" "m \<le> length value" "take (length token) (drop m value) = token"
        "\<And>j. start \<le> j \<Longrightarrow> j < m \<Longrightarrow> take (length token) (drop j value) \<noteq> token"
      by (auto simp: js_index_of_def find_upt_Some starts_with_take simp del: upt_Suc)
    have fits: "m + length token \<le> length value" using occurrence_fits [OF m(3) assms] .
    have skip: "(\<exists>i\<ge>start. token_at wc value token i) \<longleftrightarrow>
        token_at wc value token m \<or> (\<exists>i\<ge>m + 1. token_at wc value token i)"
    proof -
      have "m \<le> i" if "start \<le> i" "token_at wc value token i" for i
        using m(4) [OF that(1)] that(2) by (fastforce simp: token_at_def)
      then show ?thesis using m(1) by (metis Suc_eq_plus1 le_antisym le_trans not_less_eq_eq le_SucI)
    qed
    have "contains_from wc value token (m + 1) = Some (\<exists>i\<ge>m + 1. token_at wc value token i)"
      by (rule less.hyps) (use m(1,2) in simp)
    moreover have "token_at wc value token m \<longleftrightarrow> boundary wc (getCodePointBefore value m) \<and>
        boundary wc (getCodePointAfter value (m + length token))"
      using m(3) fits by (simp add: token_at_def)
    ultimately show ?thesis
      unfolding skip using Some by (subst contains_from.simps) auto
  qed
qed


section \<open>Capabilities (webhook-trigger-capabilities/index.ts)\<close>

record permission_requirement =
  permissionName :: string
  permissionAccess :: "string option"

record requirement_set =
  requirementLabel :: "string option"
  requirementEvent :: "string option"
  requirementPermissions :: "permission_requirement list option"

record trigger_capabilities =
  capabilityEvents :: "string list option"
  capabilityPermissions :: "permission_requirement list option"

text \<open>Of an event definition, its type and its requirements (\<open>anyOf\<close>) are read.\<close>

record event_definition =
  definitionEventType :: string
  definitionRequirements :: "requirement_set list option"

datatype capability_status = Enabled | NotEnabled

record capability_event =
  capabilityEventDefinition :: event_definition
  satisfiedRequirementSet :: "requirement_set option"
  capabilityStatus :: capability_status
  unsatisfiedRequirementSets :: "requirement_set list"

definition hasEventCapability :: "trigger_capabilities \<Rightarrow> string \<Rightarrow> bool" where
  "hasEventCapability capabilities event = (case capabilityEvents capabilities of None \<Rightarrow> False | Some es \<Rightarrow> event \<in> set es)"

definition hasPermissionCapability :: "trigger_capabilities \<Rightarrow> permission_requirement \<Rightarrow> bool" where
  "hasPermissionCapability capabilities permission = (case capabilityPermissions capabilities of
     None \<Rightarrow> False
   | Some ps \<Rightarrow> list_ex (\<lambda>candidate. permissionName candidate = permissionName permission \<and>
       (permissionAccess permission = None \<or> permissionAccess candidate = permissionAccess permission)) ps)"

definition hasWebhookTriggerEventCapability :: "trigger_capabilities option \<Rightarrow> string \<Rightarrow> bool" where
  "hasWebhookTriggerEventCapability capabilities event =
     (case capabilities of None \<Rightarrow> False | Some c \<Rightarrow> hasEventCapability c event)"

definition hasWebhookTriggerPermissionCapability :: "trigger_capabilities option \<Rightarrow> permission_requirement \<Rightarrow> bool" where
  "hasWebhookTriggerPermissionCapability capabilities permission =
     (case capabilities of None \<Rightarrow> False | Some c \<Rightarrow> hasPermissionCapability c permission)"

definition isRequirementSetSatisfied :: "trigger_capabilities \<Rightarrow> requirement_set \<Rightarrow> bool" where
  "isRequirementSetSatisfied capabilities rs \<longleftrightarrow>
     (case requirementEvent rs of None \<Rightarrow> True | Some e \<Rightarrow> hasEventCapability capabilities e) \<and>
     list_all (hasPermissionCapability capabilities) (case requirementPermissions rs of None \<Rightarrow> [] | Some ps \<Rightarrow> ps)"

definition findSatisfiedRequirementSet :: "trigger_capabilities \<Rightarrow> requirement_set list \<Rightarrow> requirement_set option" where
  "findSatisfiedRequirementSet capabilities anyOf = find (isRequirementSetSatisfied capabilities) anyOf"

definition isWebhookTriggerSupportedByCapabilities ::
  "trigger_capabilities option \<Rightarrow> requirement_set list option \<Rightarrow> bool" where
  "isWebhookTriggerSupportedByCapabilities capabilities requirements = (case requirements of
     None \<Rightarrow> True
   | Some anyOf \<Rightarrow> (case capabilities of None \<Rightarrow> False | Some c \<Rightarrow> findSatisfiedRequirementSet c anyOf \<noteq> None))"

definition resolve_capability_event :: "trigger_capabilities option \<Rightarrow> event_definition \<Rightarrow> capability_event" where
  "resolve_capability_event capabilities def =
     (let enabled = (\<lambda>s. \<lparr> capabilityEventDefinition = def, satisfiedRequirementSet = s, capabilityStatus = Enabled,
            unsatisfiedRequirementSets = [] \<rparr>);
          disabled = (\<lambda>anyOf. \<lparr> capabilityEventDefinition = def, satisfiedRequirementSet = None,
            capabilityStatus = NotEnabled, unsatisfiedRequirementSets = anyOf \<rparr>)
      in case definitionRequirements def of
        None \<Rightarrow> enabled None
      | Some anyOf \<Rightarrow> (case capabilities of
          None \<Rightarrow> disabled anyOf
        | Some c \<Rightarrow> (case findSatisfiedRequirementSet c anyOf of None \<Rightarrow> disabled anyOf | Some s \<Rightarrow> enabled (Some s))))"

definition resolveWebhookTriggerCapabilityEvents ::
  "trigger_capabilities option \<Rightarrow> event_definition list \<Rightarrow> capability_event list" where
  "resolveWebhookTriggerCapabilityEvents capabilities = map (resolve_capability_event capabilities)"

subsection \<open>Reading the provider metadata\<close>

definition blank_string :: "string \<Rightarrow> bool" where
  "blank_string s \<longleftrightarrow> js_trim s = []"

definition parseStringArray :: "json option \<Rightarrow> string \<Rightarrow> string + string list option" where
  "parseStringArray v fieldName = (case v of
     None \<Rightarrow> Inr None
   | Some (JArray entries) \<Rightarrow>
       (case traverse_option (\<lambda>e. case e of JString s \<Rightarrow> if blank_string s then None else Some s | _ \<Rightarrow> None) entries of
          None \<Rightarrow> Inl (''Webhook trigger capabilities field '' @ [CHR 0x27] @ fieldName @ [CHR 0x27] @ '' must contain strings.'')
        | Some ss \<Rightarrow> Inr (Some ss))
   | Some _ \<Rightarrow> Inl (''Webhook trigger capabilities field '' @ [CHR 0x27] @ fieldName @ [CHR 0x27] @ '' must be an array.''))"

definition parsePermission :: "json \<Rightarrow> string + permission_requirement" where
  "parsePermission v = (case v of
     JObject record \<Rightarrow>
       (case js_get record ''permission'' of
          Some (JString p) \<Rightarrow>
            if blank_string p then Inl ''Webhook trigger capability permissions must include permission.''
            else (case js_get record ''access'' of
              None \<Rightarrow> Inr \<lparr> permissionName = p, permissionAccess = None \<rparr>
            | Some (JString a) \<Rightarrow>
                if blank_string a then Inl ''Webhook trigger capability permission access must be a string.''
                else Inr \<lparr> permissionName = p, permissionAccess = Some a \<rparr>
            | Some _ \<Rightarrow> Inl ''Webhook trigger capability permission access must be a string.'')
        | _ \<Rightarrow> Inl ''Webhook trigger capability permissions must include permission.'')
   | _ \<Rightarrow> Inl ''Webhook trigger capability permissions must contain objects.'')"

definition parsePermissions :: "json option \<Rightarrow> string + permission_requirement list option" where
  "parsePermissions v = (case v of
     None \<Rightarrow> Inr None
   | Some (JArray entries) \<Rightarrow> and_then (map_checked parsePermission entries) (\<lambda>ps. Inr (Some ps))
   | Some _ \<Rightarrow> Inl (''Webhook trigger capabilities field '' @ [CHR 0x27] @ ''permissions'' @ [CHR 0x27] @ '' must be an array.''))"

definition parseWebhookTriggerCapabilitiesProviderMetadata ::
  "(string, json) js_map \<Rightarrow> string + trigger_capabilities option" where
  "parseWebhookTriggerCapabilitiesProviderMetadata providerMetadata =
     (case js_get providerMetadata ''webhookTriggerCapabilities'' of
        None \<Rightarrow> Inr None
      | Some (JObject capabilities) \<Rightarrow>
          and_then (parseStringArray (js_get capabilities ''events'') ''events'') (\<lambda>events.
          and_then (parsePermissions (js_get capabilities ''permissions'')) (\<lambda>permissions.
          Inr (Some \<lparr> capabilityEvents = events, capabilityPermissions = permissions \<rparr>)))
      | Some _ \<Rightarrow> Inl ''Webhook trigger capabilities provider metadata must be an object.'')"

subsection \<open>More capabilities enable more\<close>

definition capabilities_le :: "trigger_capabilities option \<Rightarrow> trigger_capabilities option \<Rightarrow> bool" where
  "capabilities_le c d \<longleftrightarrow> (\<forall>e. hasWebhookTriggerEventCapability c e \<longrightarrow> hasWebhookTriggerEventCapability d e) \<and>
     (\<forall>p. hasWebhookTriggerPermissionCapability c p \<longrightarrow> hasWebhookTriggerPermissionCapability d p) \<and> (d = None \<longrightarrow> c = None)"

lemma requirement_set_mono:
  "capabilities_le (Some c) (Some d) \<Longrightarrow> isRequirementSetSatisfied c rs \<Longrightarrow> isRequirementSetSatisfied d rs"
  by (auto simp: capabilities_le_def hasWebhookTriggerEventCapability_def hasWebhookTriggerPermissionCapability_def
      isRequirementSetSatisfied_def list_all_iff split: option.splits)

lemma supported_mono:
  assumes "capabilities_le c d" "isWebhookTriggerSupportedByCapabilities c reqs"
  shows "isWebhookTriggerSupportedByCapabilities d reqs"
proof (cases reqs)
  case (Some anyOf)
  then obtain c' where c': "c = Some c'" "find (isRequirementSetSatisfied c') anyOf \<noteq> None"
    using assms(2) by (auto simp: isWebhookTriggerSupportedByCapabilities_def findSatisfiedRequirementSet_def split: option.splits)
  moreover obtain d' where d': "d = Some d'" using assms(1) c' by (cases d) (auto simp: capabilities_le_def)
  ultimately have "find (isRequirementSetSatisfied d') anyOf \<noteq> None"
    using requirement_set_mono [of c' d'] assms(1) by (auto simp: find_None_iff)
  then show ?thesis using Some d' by (simp add: isWebhookTriggerSupportedByCapabilities_def findSatisfiedRequirementSet_def)
qed (simp add: isWebhookTriggerSupportedByCapabilities_def)

lemma enabled_iff_supported:
  "capabilityStatus (resolve_capability_event c def) = Enabled \<longleftrightarrow> isWebhookTriggerSupportedByCapabilities c (definitionRequirements def)"
  by (auto simp: resolve_capability_event_def isWebhookTriggerSupportedByCapabilities_def Let_def split: option.splits)

text \<open>The list of trigger events marks an event enabled exactly if a trigger on it is supported, and
gaining capabilities disables none: an event enabled under some capabilities is enabled under more.\<close>

theorem capabilities_monotone:
  assumes "capabilities_le c d" "i < length defs"
  shows "(capabilityStatus (resolveWebhookTriggerCapabilityEvents c defs ! i) = Enabled \<longleftrightarrow>
      isWebhookTriggerSupportedByCapabilities c (definitionRequirements (defs ! i))) \<and>
    (capabilityStatus (resolveWebhookTriggerCapabilityEvents c defs ! i) = Enabled \<longrightarrow>
      capabilityStatus (resolveWebhookTriggerCapabilityEvents d defs ! i) = Enabled)"
  using assms by (simp add: resolveWebhookTriggerCapabilityEvents_def enabled_iff_supported supported_mono)

definition push_event :: event_definition where
  "push_event = \<lparr> definitionEventType = ''github.push'', definitionRequirements =
     Some [\<lparr> requirementLabel = None, requirementEvent = Some ''push'', requirementPermissions =
       Some [\<lparr> permissionName = ''contents'', permissionAccess = None \<rparr>] \<rparr>] \<rparr>"

lemma capabilities_monotone_witness:
  "capabilityStatus (resolveWebhookTriggerCapabilityEvents None [push_event] ! 0) = Enabled \<longleftrightarrow>
   isWebhookTriggerSupportedByCapabilities None (definitionRequirements ([push_event] ! 0))"
  using capabilities_monotone [of None None 0 "[push_event]"] by (simp add: capabilities_le_def)

end
