(* ===== verification/Webhooks.thy ===== *)
theory Webhooks
  imports Triggers
begin

text \<open>
  Incoming webhooks, \<open>packages/integrations-core/src\<close>: header normalisation, verification and
  resolution of a request (\<open>webhooks/index.ts\<close>), and the middleware around it (\<open>middleware/index.ts\<close>,
  \<open>webhooks/middleware.ts\<close>).

  The handler of an integration is a record of functions that may throw; the target and its key, which
  every call hands on unchanged, are part of those functions. A middleware is what it does, in order:
  it awaits \<open>next()\<close>, sets a response or throws, and may catch what \<open>next()\<close> or \<open>respond\<close> throws.
\<close>

section \<open>Headers\<close>

definition normalizeHeaderName :: "string \<Rightarrow> string" where
  "normalizeHeaderName s = to_lower (js_trim s)"

datatype header_value = OneValue string | ManyValues "string list"

definition normalizeHeaderValue :: "header_value \<Rightarrow> string" where
  "normalizeHeaderValue v = (case v of OneValue s \<Rightarrow> js_trim s | ManyValues ss \<Rightarrow> js_join '','' (map js_trim ss))"

text \<open>What an object reads under a name in lower case it has no property of, as text.\<close>

definition inherited_text :: "string \<Rightarrow> string option" where
  "inherited_text name =
     (if name = ''constructor'' then Some ''function Object() { [native code] }''
      else if name = ''__proto__'' then Some ''[object Object]'' else None)"

definition existing_text :: "(string, string) js_map \<Rightarrow> string \<Rightarrow> string option" where
  "existing_text headers name = (case js_get headers name of Some v \<Rightarrow> Some v | None \<Rightarrow> inherited_text name)"

definition add_header ::
  "string \<times> header_value option \<Rightarrow> (string, string) js_map \<Rightarrow> (string, string) js_map" where
  "add_header header normalizedHeaders = (case header of
     (_, None) \<Rightarrow> normalizedHeaders
   | (headerName, Some headerValue) \<Rightarrow>
       let normalizedName = normalizeHeaderName headerName; normalizedValue = normalizeHeaderValue headerValue in
       if normalizedName = [] then normalizedHeaders
       else (case existing_text normalizedHeaders normalizedName of
           None \<Rightarrow> set_own_property normalizedName normalizedValue normalizedHeaders
         | Some existingValue \<Rightarrow>
             set_own_property normalizedName (existingValue @ '','' @ normalizedValue) normalizedHeaders))"

definition normalizeWebhookHeaders :: "(string, header_value option) js_map \<Rightarrow> (string, string) js_map" where
  "normalizeWebhookHeaders input = fold add_header input []"

section \<open>Requests\<close>

datatype webhook_error =
    HandlerNotConfigured string
  | VerifyFailed string
  | ConnectionNotFound string
  | ConnectionAmbiguous string
  | ConnectionResolutionFailed string
  | SourceOrderKeyMissing string
  | ThrownByHandler string

type_synonym 'a webhook_result = "webhook_error + 'a"

record webhook_event =
  externalEventId :: string
  externalDeliveryId :: "string option"
  providerEventType :: string
  webhookEventType :: string
  eventPayload :: json
  occurredAt :: "string option"
  sourceOrderKey :: "string option"

record 'config webhook_connection =
  webhookConnectionId :: string
  webhookConnectionConfig :: 'config

datatype 'response request_resolution =
    EventRequest webhook_event
  | SkipResponse 'response
  | VerifiedResponse webhook_event 'response

datatype connection_failure = NotFound | Ambiguous | OtherFailure string

datatype connection_resolution = ResolvedConnection string | FailedResolution connection_failure string

datatype verify_result = Verified | NotVerified string string

datatype 'response resolved_request = ResolvedEvent webhook_event string | ResolvedResponse 'response

type_synonym headers = "(string, string) js_map"
type_synonym secrets = "(string, string) js_map"

text \<open>What \<open>verify\<close> and \<open>enrichEvent\<close> are handed.\<close>

type_synonym ('config, 'a) event_check =
  "webhook_event \<Rightarrow> 'config webhook_connection \<Rightarrow> secrets \<Rightarrow> secrets \<Rightarrow> headers \<Rightarrow> nat list \<Rightarrow> 'a webhook_result"

record ('config, 'response) webhook_handler =
  resolveWebhookRequest :: "headers \<Rightarrow> nat list \<Rightarrow> 'response request_resolution webhook_result"
  resolveConnection :: "webhook_event \<Rightarrow> 'config webhook_connection list \<Rightarrow> connection_resolution webhook_result"
  verify :: "('config, verify_result) event_check"
  enrichEvent :: "('config, webhook_event) event_check option"

record ('config, 'response) webhook_definition =
  webhookFamilyId :: string
  webhookVariantId :: string
  supportedEventTypes :: "string list option"
  webhookHandler :: "('config, 'response) webhook_handler option"

definition in_quotes :: "string \<Rightarrow> string" where
  "in_quotes s = CHR 0x27 # s @ [CHR 0x27]"

definition getWebhookHandlerOrThrow ::
  "('config, 'response) webhook_definition \<Rightarrow> ('config, 'response) webhook_handler webhook_result" where
  "getWebhookHandlerOrThrow def = (case webhookHandler def of
     Some h \<Rightarrow> Inr h
   | None \<Rightarrow> Inl (HandlerNotConfigured (''Integration '' @ in_quotes (webhookFamilyId def @ ''/'' @ webhookVariantId def) @
       '' does not define a webhook handler.'')))"

definition createIntegrationWebhookSourceOrderKey :: "string \<Rightarrow> string \<Rightarrow> string webhook_result" where
  "createIntegrationWebhookSourceOrderKey occurred orderingIdentifier =
     (let o1 = js_trim occurred; o2 = js_trim orderingIdentifier in
      if o1 = [] then Inl (SourceOrderKeyMissing ''Webhook source order key requires a non-empty occurrence timestamp.'')
      else if o2 = [] then Inl (SourceOrderKeyMissing ''Webhook source order key requires a non-empty ordering identifier.'')
      else Inr (o1 @ ''#'' @ o2))"

definition has_order_key :: "webhook_event \<Rightarrow> bool" where
  "has_order_key event \<longleftrightarrow> (case sourceOrderKey event of None \<Rightarrow> False | Some k \<Rightarrow> js_trim k \<noteq> [])"

definition advertised :: "('config, 'response) webhook_definition \<Rightarrow> webhook_event \<Rightarrow> bool" where
  "advertised def event \<longleftrightarrow> (case supportedEventTypes def of None \<Rightarrow> False | Some ts \<Rightarrow> list_ex (\<lambda>t. t = webhookEventType event) ts)"

definition assertSupportedWebhookEventHasSourceOrderKey ::
  "('config, 'response) webhook_definition \<Rightarrow> webhook_event \<Rightarrow> unit webhook_result" where
  "assertSupportedWebhookEventHasSourceOrderKey def event =
     (if \<not> advertised def event then Inr ()
      else if has_order_key event then Inr ()
      else Inl (SourceOrderKeyMissing (''Webhook event '' @ in_quotes (webhookEventType event) @ '' from integration '' @
        in_quotes (webhookFamilyId def @ ''/'' @ webhookVariantId def) @
        '' is advertised for triggers but is missing sourceOrderKey.'')))"

fun failure_code :: "connection_failure \<Rightarrow> string" where
  "failure_code NotFound = ''connection-not-found''"
| "failure_code Ambiguous = ''connection-ambiguous''"
| "failure_code (OtherFailure code) = code"

fun getWebhookConnectionResolutionErrorCode :: "connection_failure \<Rightarrow> string \<Rightarrow> webhook_error" where
  "getWebhookConnectionResolutionErrorCode NotFound = ConnectionNotFound"
| "getWebhookConnectionResolutionErrorCode Ambiguous = ConnectionAmbiguous"
| "getWebhookConnectionResolutionErrorCode (OtherFailure _) = ConnectionResolutionFailed"

record ('config, 'response) webhook_input =
  inputDefinition :: "('config, 'response) webhook_definition"
  inputConnections :: "'config webhook_connection list"
  resolveConnectionSecrets :: "string \<Rightarrow> secrets webhook_result"
  webhookSourceSecrets :: "secrets option"
  webhookRequest :: "'response request_resolution option"
  inputHeaders :: headers
  inputRawBody :: "nat list"

definition resolved_connection ::
  "('config, 'response) webhook_handler \<Rightarrow> ('config, 'response) webhook_input \<Rightarrow> webhook_event \<Rightarrow> 'config webhook_connection webhook_result" where
  "resolved_connection h i event = and_then (resolveConnection h event (inputConnections i)) (\<lambda>r. case r of
     FailedResolution code message \<Rightarrow> Inl (getWebhookConnectionResolutionErrorCode code
       (''Webhook connection resolution failed ('' @ failure_code code @ ''): '' @ message))
   | ResolvedConnection cid \<Rightarrow> (case find (\<lambda>c. webhookConnectionId c = cid) (inputConnections i) of
       None \<Rightarrow> Inl (ConnectionResolutionFailed (''Webhook connection resolution returned unknown connectionId '' @ in_quotes cid @ ''.''))
     | Some c \<Rightarrow> Inr c))"

definition verified_event ::
  "('config, 'response) webhook_handler \<Rightarrow> ('config, 'response) webhook_input \<Rightarrow> webhook_event \<Rightarrow>
   (webhook_event \<times> 'config webhook_connection) webhook_result" where
  "verified_event h i event =
     (let sourceSecrets = (case webhookSourceSecrets i of None \<Rightarrow> [] | Some s \<Rightarrow> s) in
      and_then (resolved_connection h i event) (\<lambda>connection.
      and_then (resolveConnectionSecrets i (webhookConnectionId connection)) (\<lambda>connectionSecrets.
      and_then (verify h event connection connectionSecrets sourceSecrets (inputHeaders i) (inputRawBody i)) (\<lambda>r.
      case r of
        NotVerified code message \<Rightarrow> Inl (VerifyFailed (''Webhook verification failed ('' @ code @ ''): '' @ message))
      | Verified \<Rightarrow>
          and_then (case enrichEvent h of None \<Rightarrow> Inr event | Some enrich \<Rightarrow>
            enrich event connection connectionSecrets sourceSecrets (inputHeaders i) (inputRawBody i)) (\<lambda>enriched.
          and_then (assertSupportedWebhookEventHasSourceOrderKey (inputDefinition i) enriched) (\<lambda>_.
          Inr (enriched, connection)))))))"

definition verifyAndResolveWebhookRequestOrThrow ::
  "('config, 'response) webhook_input \<Rightarrow> 'response resolved_request webhook_result" where
  "verifyAndResolveWebhookRequestOrThrow i =
     and_then (getWebhookHandlerOrThrow (inputDefinition i)) (\<lambda>h.
     and_then (case webhookRequest i of Some r \<Rightarrow> Inr r | None \<Rightarrow> resolveWebhookRequest h (inputHeaders i) (inputRawBody i)) (\<lambda>request.
     case request of
       SkipResponse response \<Rightarrow> Inr (ResolvedResponse response)
     | EventRequest event \<Rightarrow> and_then (verified_event h i event) (\<lambda>(enriched, connection).
         Inr (ResolvedEvent enriched (webhookConnectionId connection)))
     | VerifiedResponse event response \<Rightarrow> and_then (verified_event h i event) (\<lambda>_. Inr (ResolvedResponse response))))"

section \<open>Only verified events\<close>

text \<open>The event was verified with the secrets of one of the candidate connections, and what was made of it
carries an order key if a trigger can listen to it.\<close>

definition passed_checks ::
  "('config, 'response) webhook_handler \<Rightarrow> ('config, 'response) webhook_input \<Rightarrow> webhook_event \<Rightarrow> webhook_event \<Rightarrow>
   'config webhook_connection \<Rightarrow> bool" where
  "passed_checks h i event enriched connection \<longleftrightarrow> connection \<in> set (inputConnections i) \<and>
     (\<exists>connectionSecrets. resolveConnectionSecrets i (webhookConnectionId connection) = Inr connectionSecrets \<and>
        verify h event connection connectionSecrets (case webhookSourceSecrets i of None \<Rightarrow> [] | Some s \<Rightarrow> s)
          (inputHeaders i) (inputRawBody i) = Inr Verified) \<and>
     (advertised (inputDefinition i) enriched \<longrightarrow> has_order_key enriched)"

lemma find_in_set: "find P xs = Some x \<Longrightarrow> x \<in> set xs"
  by (induction xs) (auto split: if_splits)

lemma resolved_is_candidate:
  assumes "resolved_connection h i event = Inr c"
  shows "c \<in> set (inputConnections i)"
proof -
  obtain r where r: "(case r of
       FailedResolution code message \<Rightarrow> Inl (getWebhookConnectionResolutionErrorCode code
         (''Webhook connection resolution failed ('' @ failure_code code @ ''): '' @ message))
     | ResolvedConnection cid \<Rightarrow> (case find (\<lambda>c. webhookConnectionId c = cid) (inputConnections i) of
         None \<Rightarrow> Inl (ConnectionResolutionFailed (''Webhook connection resolution returned unknown connectionId '' @ in_quotes cid @ ''.''))
       | Some c \<Rightarrow> Inr c)) = Inr c"
    using assms unfolding resolved_connection_def and_then_Inr by blast
  then show ?thesis by (cases r) (auto dest: find_in_set split: option.splits)
qed

lemma verified_event_passed:
  assumes "verified_event h i event = Inr (enriched, c)"
  shows "passed_checks h i event enriched c"
proof -
  let ?source = "case webhookSourceSecrets i of None \<Rightarrow> [] | Some s \<Rightarrow> s"
  obtain connectionSecrets r where r: "resolved_connection h i event = Inr c"
      "resolveConnectionSecrets i (webhookConnectionId c) = Inr connectionSecrets"
      "verify h event c connectionSecrets ?source (inputHeaders i) (inputRawBody i) = Inr r"
    and rest: "r = Verified" "assertSupportedWebhookEventHasSourceOrderKey (inputDefinition i) enriched = Inr ()"
  proof -
    from assms obtain c' cs r where *: "resolved_connection h i event = Inr c'"
        "resolveConnectionSecrets i (webhookConnectionId c') = Inr cs"
        "verify h event c' cs ?source (inputHeaders i) (inputRawBody i) = Inr r"
      and "(case r of
          NotVerified code message \<Rightarrow> Inl (VerifyFailed (''Webhook verification failed ('' @ code @ ''): '' @ message))
        | Verified \<Rightarrow>
            and_then (case enrichEvent h of None \<Rightarrow> Inr event | Some enrich \<Rightarrow>
              enrich event c' cs ?source (inputHeaders i) (inputRawBody i)) (\<lambda>enriched.
            and_then (assertSupportedWebhookEventHasSourceOrderKey (inputDefinition i) enriched) (\<lambda>_.
            Inr (enriched, c')))) = Inr (enriched, c)"
      unfolding verified_event_def Let_def and_then_Inr by blast
    then have "r = Verified" "c' = c" "assertSupportedWebhookEventHasSourceOrderKey (inputDefinition i) enriched = Inr ()"
      by (cases r; auto simp: and_then_Inr)+
    with * that show ?thesis by blast
  qed
  then show ?thesis
    using resolved_is_candidate [OF r(1)]
    by (auto simp: passed_checks_def assertSupportedWebhookEventHasSourceOrderKey_def split: if_splits)
qed


definition sample_event :: webhook_event where
  "sample_event = \<lparr> externalEventId = ''e1'', externalDeliveryId = None, providerEventType = ''push'',
     webhookEventType = ''github.push.created'', eventPayload = JNull, occurredAt = None, sourceOrderKey = Some ''2026#1'' \<rparr>"

definition sample_handler :: "(unit, unit) webhook_handler" where
  "sample_handler = \<lparr> resolveWebhookRequest = (\<lambda>_ _. Inr (EventRequest sample_event)),
     resolveConnection = (\<lambda>_ cs. Inr (ResolvedConnection ''icn_1'')),
     verify = (\<lambda>_ _ s _ _ _. Inr (if js_get s ''secret'' = Some ''k'' then Verified else NotVerified ''bad'' ''bad signature'')),
     enrichEvent = None \<rparr>"

definition sample_input :: "(unit, unit) webhook_input" where
  "sample_input = \<lparr> inputDefinition = \<lparr> webhookFamilyId = ''github'', webhookVariantId = ''cloud'',
       supportedEventTypes = Some [''github.push.created''], webhookHandler = Some sample_handler \<rparr>,
     inputConnections = [\<lparr> webhookConnectionId = ''icn_1'', webhookConnectionConfig = () \<rparr>],
     resolveConnectionSecrets = (\<lambda>_. Inr [(''secret'', ''k'')]), webhookSourceSecrets = None, webhookRequest = None,
     inputHeaders = [], inputRawBody = [] \<rparr>"


section \<open>A header called constructor\<close>

text \<open>The one header \<open>constructor\<close> a request has is normalised to the text of a function of the
language before its own value, and one called \<open>__proto__\<close> is lost.\<close>

theorem inherited_header_names:
  "normalizeWebhookHeaders [(''constructor'', Some (OneValue v))] =
     [(''constructor'', ''function Object() { [native code] },'' @ js_trim v)] \<and>
   normalizeWebhookHeaders [(''__proto__'', Some (OneValue v))] = []"
proof -
  have n: "normalizeHeaderName ''constructor'' = ''constructor''" "normalizeHeaderName ''__proto__'' = ''__proto__''"
    by code_simp+
  then show ?thesis
    by (simp add: normalizeWebhookHeaders_def add_header_def existing_text_def inherited_text_def
        normalizeHeaderValue_def set_own_property_def)
qed

section \<open>Middleware\<close>

datatype 'response action =
    AwaitNext
  | TryNext
  | Respond 'response
  | TryRespond 'response
  | Fail string

type_synonym 'response middleware = "'response action list"

datatype middleware_error =
    NextCalledTwice
  | ContinueAfterResponse
  | RespondAfterContinue
  | ResponseSetTwice
  | NoResponse
  | TerminalDidNotRun
  | MiddlewareThrew string

record ('response, 'result) run_state =
  dispatchedIndex :: int
  selectedResponse :: "'response option"
  continued :: bool
  terminalPromise :: "(middleware_error + 'result) option"
  terminalRuns :: nat

definition initial_run :: "('response, 'result) run_state" where
  "initial_run = \<lparr> dispatchedIndex = - 1, selectedResponse = None, continued = False, terminalPromise = None, terminalRuns = 0 \<rparr>"

type_synonym ('response, 'result) run_step =
  "('response, 'result) run_state \<Rightarrow> (middleware_error + unit) \<times> ('response, 'result) run_state"

text \<open>\<open>respond\<close> and the \<open>next\<close> behind the last middleware; \<open>terminal\<close> is the outcome of the handler.\<close>

definition webhook_respond :: "'response \<Rightarrow> ('response, 'result) run_step" where
  "webhook_respond response s =
     (if continued s then (Inl RespondAfterContinue, s)
      else if selectedResponse s \<noteq> None then (Inl ResponseSetTwice, s)
      else (Inr (), s\<lparr>selectedResponse := Some response\<rparr>))"

definition webhook_next :: "middleware_error + 'result \<Rightarrow> ('response, 'result) run_step" where
  "webhook_next terminal s =
     (if selectedResponse s \<noteq> None then (Inl ContinueAfterResponse, s)
      else (case terminal of Inl e \<Rightarrow> Inl e | Inr _ \<Rightarrow> Inr (),
        s\<lparr>continued := True, terminalPromise := Some terminal, terminalRuns := terminalRuns s + 1\<rparr>))"

fun run_actions :: "('response, 'result) run_step \<Rightarrow> 'response middleware \<Rightarrow> ('response, 'result) run_step" where
  "run_actions nxt [] s = (Inr (), s)"
| "run_actions nxt (AwaitNext # as) s = (case nxt s of (Inl e, s') \<Rightarrow> (Inl e, s') | (Inr _, s') \<Rightarrow> run_actions nxt as s')"
| "run_actions nxt (TryNext # as) s = run_actions nxt as (snd (nxt s))"
| "run_actions nxt (Respond r # as) s = (case webhook_respond r s of (Inl e, s') \<Rightarrow> (Inl e, s') | (Inr _, s') \<Rightarrow> run_actions nxt as s')"
| "run_actions nxt (TryRespond r # as) s = run_actions nxt as (snd (webhook_respond r s))"
| "run_actions nxt (Fail e # as) s = (Inl (MiddlewareThrew e), s)"

text \<open>\<open>dispatch index\<close> with the middlewares from \<open>index\<close> on, and the \<open>next\<close> a middleware is given.\<close>

definition runNext :: "int \<Rightarrow> ('response, 'result) run_step \<Rightarrow> ('response, 'result) run_step" where
  "runNext nextIndex dispatch_next s = (if nextIndex \<le> dispatchedIndex s then (Inl NextCalledTwice, s) else dispatch_next s)"

fun dispatch :: "middleware_error + 'result \<Rightarrow> int \<Rightarrow> 'response middleware list \<Rightarrow> ('response, 'result) run_step" where
  "dispatch terminal index [] s =
     (if index \<le> dispatchedIndex s then (Inl NextCalledTwice, s) else webhook_next terminal (s\<lparr>dispatchedIndex := index\<rparr>))"
| "dispatch terminal index (current # rest) s =
     (if index \<le> dispatchedIndex s then (Inl NextCalledTwice, s)
      else run_actions (runNext (index + 1) (dispatch terminal (index + 1) rest)) current (s\<lparr>dispatchedIndex := index\<rparr>))"

definition composeIntegrationMiddleware :: "middleware_error + 'result \<Rightarrow> 'response middleware list \<Rightarrow> ('response, 'result) run_step" where
  "composeIntegrationMiddleware terminal middleware = dispatch terminal 0 middleware"

datatype ('response, 'result) middleware_result = Continued 'result | ShortCircuited 'response

definition runIntegrationWebhookMiddleware ::
  "middleware_error + 'result \<Rightarrow> 'response middleware list \<Rightarrow> (middleware_error + ('response, 'result) middleware_result) \<times> nat" where
  "runIntegrationWebhookMiddleware terminal middleware =
     (case composeIntegrationMiddleware terminal middleware initial_run of
        (Inl e, s) \<Rightarrow> (Inl e, terminalRuns s)
      | (Inr _, s) \<Rightarrow>
          (if \<not> continued s then
             (case selectedResponse s of None \<Rightarrow> Inl NoResponse | Some r \<Rightarrow> Inr (ShortCircuited r))
           else (case terminalPromise s of
             None \<Rightarrow> Inl TerminalDidNotRun
           | Some (Inl e) \<Rightarrow> Inl e
           | Some (Inr result) \<Rightarrow> Inr (Continued result)), terminalRuns s))"

text \<open>The handler ran as often as the middleware continued, at most once and not beside a response.\<close>

definition run_ok :: "middleware_error + 'result \<Rightarrow> int \<Rightarrow> ('response, 'result) run_state \<Rightarrow> bool" where
  "run_ok terminal lastIndex s \<longleftrightarrow> terminalRuns s = (if continued s then 1 else 0) \<and>
     (continued s \<longrightarrow> selectedResponse s = None \<and> terminalPromise s = Some terminal \<and> dispatchedIndex s \<ge> lastIndex)"

lemma respond_ok: "run_ok terminal n s \<Longrightarrow> run_ok terminal n (snd (webhook_respond r s))"
  by (auto simp: webhook_respond_def run_ok_def)

lemma run_actions_ok:
  "(\<And>s. run_ok terminal n s \<Longrightarrow> run_ok terminal n (snd (nxt s))) \<Longrightarrow> run_ok terminal n s \<Longrightarrow>
   run_ok terminal n (snd (run_actions nxt as s))"
proof (induction nxt as s rule: run_actions.induct)
  case (2 nxt as s)
  obtain r s' where n: "nxt s = (r, s')" by fastforce
  have "run_ok terminal n s'" using "2.prems"(1) [OF "2.prems"(2)] n by simp
  then show ?case using "2.IH" [OF n [symmetric]] "2.prems"(1) n by (cases r) auto
next
  case (4 nxt r as s)
  then show ?case using respond_ok [of terminal n s r] by (auto split: prod.splits sum.splits)
qed (auto intro: respond_ok)

lemma dispatch_ok:
  "run_ok terminal (index + int (length ms)) s \<Longrightarrow> run_ok terminal (index + int (length ms)) (snd (dispatch terminal index ms s))"
proof (induction ms arbitrary: index s)
  case Nil
  then show ?case by (auto simp: webhook_next_def run_ok_def)
next
  case (Cons m ms)
  have nxt: "run_ok terminal (index + int (length (m # ms))) (snd (runNext (index + 1) (dispatch terminal (index + 1) ms) s))"
    if "run_ok terminal (index + int (length (m # ms))) s" for s
    using Cons.IH [of "index + 1" s] that by (simp add: runNext_def add.assoc)
  show ?case
  proof (cases "index \<le> dispatchedIndex s")
    case False
    then have "run_ok terminal (index + int (length (m # ms))) (s\<lparr>dispatchedIndex := index\<rparr>)"
      using Cons.prems by (auto simp: run_ok_def)
    then show ?thesis using False run_actions_ok [OF nxt] by simp
  qed (use Cons.prems in simp)
qed

text \<open>Whatever the middlewares of a webhook do with \<open>next()\<close> and \<open>respond\<close>, awaiting it several times and
catching what it throws included, the handler runs at most once; a short-circuiting response means it
did not run, and a continued result is the result it gave.\<close>

theorem middleware_runs_handler_once:
  "case runIntegrationWebhookMiddleware terminal middleware of (result, runs) \<Rightarrow>
     runs \<le> 1 \<and> (case result of
       Inl _ \<Rightarrow> True
     | Inr (ShortCircuited _) \<Rightarrow> runs = 0
     | Inr (Continued r) \<Rightarrow> runs = 1 \<and> terminal = Inr r)"
proof -
  have "run_ok terminal (0 + int (length middleware)) initial_run" by (simp add: run_ok_def initial_run_def)
  from dispatch_ok [OF this] show ?thesis
    by (auto simp: runIntegrationWebhookMiddleware_def composeIntegrationMiddleware_def run_ok_def
        split: prod.splits sum.splits option.splits if_splits)
qed

end
