(* ===== verification/Compiler.thy ===== *)
theory Compiler
  imports PlanAssembly McpConfig
begin

text \<open>
  The compiler of runtime plans, \<open>packages/integrations-core/src/compiler/index.ts\<close>, with the validation of a
  binding it calls (\<open>binding-validation/index.ts\<close>).

  An integration definition and an agent runtime are records of functions; a schema is the function
  its \<open>parse\<close> is, \<open>None\<close> where it throws. Ids and flags that are only handed on to those functions (organisation,
  profile, version, sandbox paths, runtime capabilities) are part of them, and so is what they throw: a
  \<open>plan_error\<close>.
\<close>

section \<open>Data\<close>

type_synonym json_object = "(string, json) js_map"

record integration_target =
  targetFamilyId :: string
  targetVariantId :: string
  targetEnabled :: bool
  targetConfig :: json_object
  targetSecrets :: "(string, string) js_map"

datatype connection_status = ActiveStatus | ErrorStatus | RevokedStatus

record integration_connection =
  connectionId :: string
  connectionStatus :: connection_status
  connectionConfig :: json_object

record integration_binding =
  bindingId :: string
  bindingKind :: string
  bindingConnectionId :: string
  bindingConfig :: json_object

record binding_input =
  inputTargetKey :: string
  inputTarget :: integration_target
  inputConnection :: integration_connection
  inputBinding :: integration_binding

text \<open>What the functions of a definition are handed: the target with its parsed configuration and secrets,
the connection and the binding with its parsed configuration.\<close>

record compile_binding_input =
  compileTargetKey :: string
  compileTarget :: integration_target
  parsedTargetConfig :: json
  parsedTargetSecrets :: json
  compileConnection :: integration_connection
  compileBindingId :: string
  compileBindingKind :: string
  parsedBindingConfig :: json

datatype install_hook = HookSteps "install_step list" | HookFunction "string \<Rightarrow> string \<Rightarrow> install_step list option"

text \<open>The hook is a function of the helpers, of which the target key and the binding id differ between bindings.\<close>

record artifact_source =
  sourceArtifactKey :: string
  sourceArtifactName :: string
  sourceArtifactDescription :: "string option"
  sourceArtifactEnv :: "(string, string) js_map option"
  sourceArtifactInstall :: "install_hook option"

record compile_binding_result =
  resultRoutes :: "egress_route list"
  resultArtifacts :: "artifact_source list"
  resultClients :: "runtime_client list"
  resultSources :: "workspace_source list option"
  resultAgentRuntimes :: "agent_runtime list option"

record validation_issue =
  issueCode :: string
  issueField :: string
  safeMessage :: string

datatype write_validation = WriteOk | WriteIssues "validation_issue list"

record write_context =
  contextTargetKey :: string
  contextBinding :: string
  contextFamilyId :: string
  contextVariantId :: string
  contextTargetConfig :: json_object
  contextConnectionId :: string
  contextConnectionConfig :: json_object
  contextBindingKind :: string
  contextBindingConfig :: json_object

record connection_method =
  methodId :: string
  methodConfigSchema :: "(json_object \<Rightarrow> json option) option"

datatype mcp_definition_value = OneServer mcp_server | Servers "mcp_server list"

datatype mcp_definition = McpValue mcp_definition_value | McpFunction "compile_binding_input \<Rightarrow> mcp_definition_value checked"

record integration_definition =
  definitionFamilyId :: string
  definitionVariantId :: string
  definitionKind :: string
  targetConfigSchema :: "json_object \<Rightarrow> json option"
  targetSecretSchema :: "(string, string) js_map \<Rightarrow> json option"
  bindingConfigSchema :: "json_object \<Rightarrow> json option"
  connectionMethods :: "connection_method list"
  validateBindingWriteContext :: "(write_context \<Rightarrow> write_validation option) option"
  compileBinding :: "compile_binding_input \<Rightarrow> compile_binding_result checked"
  definitionMcp :: "mcp_definition option"
  definitionMcpConfig :: "mcp_config option"

record compile_runtime_result =
  runtimeArtifacts :: "artifact_source list option"
  runtimeSources :: "workspace_source list option"
  runtimeAgentRuntimes :: "agent_runtime list"
  compiledClients :: "runtime_client list option"
  renderRuntimeClients :: "(egress_route list \<Rightarrow> string option + runtime_client list) option"

text \<open>\<open>renderRuntimeClients\<close> throws an error with a message or something that is no error.\<close>

record runtime_definition =
  runtimeConfigSchema :: "json_object \<Rightarrow> json option"
  compileRuntime :: "json \<Rightarrow> resolved_server list \<Rightarrow> compile_runtime_result checked"
  materializeMcpConfig :: "mcp_config list option"

record definitions_bundle =
  getDefinitionOrThrow :: "string \<Rightarrow> string \<Rightarrow> integration_definition checked"
  getRuntime :: "string \<Rightarrow> runtime_definition option"

section \<open>Validation of a binding\<close>

definition toUnknownRecord :: "json \<Rightarrow> json_object option" where
  "toUnknownRecord v = (case v of
     JObject props \<Rightarrow> Some (fold (\<lambda>(key, entryValue). set_own_property key entryValue) props [])
   | _ \<Rightarrow> None)"

definition sanitizeSchemaFailureMessage :: "string \<Rightarrow> string \<Rightarrow> string \<Rightarrow> string" where
  "sanitizeSchemaFailureMessage familyId variantId bindingRef = ''Binding '' @ quote bindingRef @
     '' has invalid config reference: Binding config is invalid for integration '' @ quote (familyId @ ''/'' @ variantId) @ ''.''"

definition readConnectionMethodId :: "json_object \<Rightarrow> string option" where
  "readConnectionMethodId config = (case js_get config ''connection_method'' of Some (JString s) \<Rightarrow> Some s | _ \<Rightarrow> None)"

definition resolveConnectionMethodDefinition :: "connection_method list \<Rightarrow> json_object \<Rightarrow> connection_method option" where
  "resolveConnectionMethodDefinition methods config = (case readConnectionMethodId config of
     None \<Rightarrow> None | Some i \<Rightarrow> find (\<lambda>m. methodId m = i) methods)"

record parsed_configs =
  writeTargetConfig :: json_object
  writeBindingConfig :: json_object
  writeConnectionConfig :: json_object

definition schema_issue :: "string \<Rightarrow> string \<Rightarrow> integration_target \<Rightarrow> string \<Rightarrow> validation_issue list" where
  "schema_issue code field target bindingRef = [\<lparr> issueCode = code, issueField = field,
     safeMessage = sanitizeSchemaFailureMessage (targetFamilyId target) (targetVariantId target) bindingRef \<rparr>]"

definition record_or_issue :: "json option \<Rightarrow> validation_issue list \<Rightarrow> validation_issue list + json_object" where
  "record_or_issue parsed issues = (case Option.bind parsed toUnknownRecord of None \<Rightarrow> Inl issues | Some r \<Rightarrow> Inr r)"

definition parse_configs ::
  "integration_definition \<Rightarrow> integration_target \<Rightarrow> json_object \<Rightarrow> json_object \<Rightarrow> string \<Rightarrow> validation_issue list + parsed_configs" where
  "parse_configs def target connConfig bindConfig bindingRef =
     and_then (record_or_issue (targetConfigSchema def (targetConfig target))
       (schema_issue ''system.invalid_target_config_shape'' ''config'' target bindingRef)) (\<lambda>t.
     and_then (record_or_issue (bindingConfigSchema def bindConfig)
       (schema_issue ''system.invalid_binding_config_shape'' ''config'' target bindingRef)) (\<lambda>b.
     and_then (record_or_issue
         (case Option.bind (resolveConnectionMethodDefinition (connectionMethods def) connConfig) methodConfigSchema of
            None \<Rightarrow> Some (JObject connConfig) | Some schema \<Rightarrow> schema connConfig)
       (schema_issue ''system.invalid_connection_config_shape'' ''connection.config'' target bindingRef)) (\<lambda>c.
     Inr \<lparr> writeTargetConfig = t, writeBindingConfig = b, writeConnectionConfig = c \<rparr>)))"

definition runDefinitionBindingWriteValidation ::
  "integration_definition \<Rightarrow> binding_input \<Rightarrow> (validation_issue list + parsed_configs) checked" where
  "runDefinitionBindingWriteValidation def b =
     (let target = inputTarget b; connection = inputConnection b; binding = inputBinding b; bindingRef = bindingId binding in
      case parse_configs def target (connectionConfig connection) (bindingConfig binding) bindingRef of
        Inl issues \<Rightarrow> Inr (Inl issues)
      | Inr parsed \<Rightarrow> (case validateBindingWriteContext def of
          None \<Rightarrow> Inr (Inr parsed)
        | Some validate \<Rightarrow> (case validate \<lparr> contextTargetKey = inputTargetKey b, contextBinding = bindingRef,
              contextFamilyId = targetFamilyId target, contextVariantId = targetVariantId target,
              contextTargetConfig = writeTargetConfig parsed, contextConnectionId = connectionId connection,
              contextConnectionConfig = writeConnectionConfig parsed, contextBindingKind = bindingKind binding,
              contextBindingConfig = writeBindingConfig parsed \<rparr> of
            None \<Rightarrow> Inl (InvalidBindingConfig (''Binding '' @ quote bindingRef @ '' contextual validation failed unexpectedly.''))
          | Some (WriteIssues issues) \<Rightarrow> Inr (Inl issues)
          | Some WriteOk \<Rightarrow> Inr (Inr parsed))))"

section \<open>Artifacts\<close>

definition resolveEgressRuleId :: "string \<Rightarrow> nat \<Rightarrow> string" where
  "resolveEgressRuleId bid routeIndex =
     (if routeIndex = 0 then ''egress_rule_'' @ bid else ''egress_rule_'' @ bid @ ''_'' @ string_of_nat (routeIndex + 1))"

definition resolveLifecycleHook :: "string \<Rightarrow> string \<Rightarrow> string \<Rightarrow> install_hook option \<Rightarrow> install_step list option checked" where
  "resolveLifecycleHook aKey targetKey bid hook = (case hook of
     None \<Rightarrow> Inr None
   | Some (HookSteps steps) \<Rightarrow> Inr (Some steps)
   | Some (HookFunction f) \<Rightarrow> (case f targetKey bid of
       Some steps \<Rightarrow> Inr (Some steps)
     | None \<Rightarrow> Inl (ArtifactConflict (''Failed resolving artifact lifecycle hook '' @ quote ''install'' @ '' for '' @ quote aKey @ ''.''))))"

definition resolve_artifact :: "string \<Rightarrow> string \<Rightarrow> artifact_source \<Rightarrow> artifact_spec checked" where
  "resolve_artifact targetKey bid a =
     and_then (resolveLifecycleHook (sourceArtifactKey a) targetKey bid (sourceArtifactInstall a)) (\<lambda>install. case install of
       None \<Rightarrow> Inl (ArtifactConflict (''Artifact '' @ quote (sourceArtifactKey a) @ '' must define install commands.''))
     | Some steps \<Rightarrow> Inr \<lparr> artifactKey = sourceArtifactKey a, artifactName = sourceArtifactName a,
         artifactDescription = sourceArtifactDescription a, artifactEnv = sourceArtifactEnv a, artifactInstall = steps \<rparr>)"

definition resolveRuntimeArtifacts :: "string \<Rightarrow> string \<Rightarrow> artifact_source list \<Rightarrow> artifact_spec list checked" where
  "resolveRuntimeArtifacts targetKey bid = map_checked (resolve_artifact targetKey bid)"

section \<open>MCP servers\<close>

definition normalizeMcpDefinitionValue :: "mcp_definition_value \<Rightarrow> mcp_server list" where
  "normalizeMcpDefinitionValue v = (case v of OneServer s \<Rightarrow> [s] | Servers ss \<Rightarrow> ss)"

definition validateMcpServerShape :: "string \<Rightarrow> mcp_server \<Rightarrow> unit checked" where
  "validateMcpServerShape bid server =
     (if blank (serverId server) then Inl (McpConflict (''Binding '' @ quote bid @ '' declared an MCP server with an empty serverId.''))
      else if blank (serverName server)
      then Inl (McpConflict (''Binding '' @ quote bid @ '' declared an MCP server with an empty serverName.''))
      else if serverTransport server = Stdio then
        ensure (case serverCommand server of None \<Rightarrow> False | Some c \<Rightarrow> \<not> blank c) (McpConflict (''MCP server '' @
          quote (serverName server) @ '' on binding '' @ quote bid @ '' must define a command for stdio transport.''))
      else ensure (case serverUrl server of None \<Rightarrow> False | Some u \<Rightarrow> \<not> blank u) (McpConflict (''MCP server '' @
          quote (serverName server) @ '' on binding '' @ quote bid @ '' must define a url for '' @
          quote ''streamable-http'' @ '' transport.'')))"

definition resolveMcpRecord :: "(string, string) js_map option \<Rightarrow> (string, string) js_map option" where
  "resolveMcpRecord v = map_option (\<lambda>r. fold (\<lambda>(key, value). set_own_property key value) r []) v"

record prepared_binding =
  preparedDefinition :: integration_definition
  preparedInput :: compile_binding_input
  preparedFragment :: plan_fragment

record mcp_collection =
  serverIds :: "string list"
  serverNames :: "string list"
  resolvedServers :: "resolved_server list"

definition collect_server :: "compile_binding_input \<Rightarrow> mcp_server \<Rightarrow> mcp_collection \<Rightarrow> mcp_collection checked" where
  "collect_server i server coll =
     (let bid = compileBindingId i; serverKey = bid @ '':'' @ serverId server in
      if serverKey \<in> set (serverIds coll)
      then Inl (McpConflict (''Binding '' @ quote bid @ '' declared duplicate MCP server id '' @ quote (serverId server) @ ''.''))
      else if serverName server \<in> set (serverNames coll)
      then Inl (McpConflict (''Duplicate MCP server name '' @ quote (serverName server) @ '' detected across sandbox profile bindings.''))
      else and_then (validateMcpServerShape bid server) (\<lambda>_.
        Inr \<lparr> serverIds = js_add serverKey (serverIds coll), serverNames = js_add (serverName server) (serverNames coll),
          resolvedServers = resolvedServers coll @ [\<lparr> mcpSource = IntegrationSource bid (connectionId (compileConnection i))
              (compileTargetKey i) (targetFamilyId (compileTarget i)) (targetVariantId (compileTarget i)),
            mcpServer = server\<lparr>serverEnv := resolveMcpRecord (serverEnv server),
              serverHttpHeaders := resolveMcpRecord (serverHttpHeaders server)\<rparr> \<rparr>] \<rparr>))"

definition collect_binding :: "prepared_binding \<Rightarrow> mcp_collection \<Rightarrow> mcp_collection checked" where
  "collect_binding p coll = (case definitionMcp (preparedDefinition p) of
     None \<Rightarrow> Inr coll
   | Some d \<Rightarrow>
       and_then (case d of McpValue v \<Rightarrow> Inr v | McpFunction f \<Rightarrow> f (preparedInput p)) (\<lambda>v.
         for_each (collect_server (preparedInput p)) (normalizeMcpDefinitionValue v) coll))"

definition sort_key :: "resolved_server \<Rightarrow> string" where
  "sort_key s = (case mcpSource s of IntegrationSource bid _ _ _ _ \<Rightarrow> bid | MistleSource \<Rightarrow> ''mistle'')"

definition compare_servers :: "(string \<Rightarrow> string \<Rightarrow> int) \<Rightarrow> resolved_server \<Rightarrow> resolved_server \<Rightarrow> int" where
  "compare_servers localeCompare l r =
     (if sort_key l \<noteq> sort_key r then localeCompare (sort_key l) (sort_key r)
      else localeCompare (serverId (mcpServer l)) (serverId (mcpServer r)))"

definition collectResolvedMcpServers :: "(string \<Rightarrow> string \<Rightarrow> int) \<Rightarrow> prepared_binding list \<Rightarrow> resolved_server list checked" where
  "collectResolvedMcpServers localeCompare prepared =
     and_then (for_each collect_binding prepared \<lparr> serverIds = [], serverNames = [], resolvedServers = [] \<rparr>) (\<lambda>coll.
       Inr (js_sort (compare_servers localeCompare) (resolvedServers coll)))"

definition apply_mapping :: "document_formats \<Rightarrow> resolved_server list \<Rightarrow> prepared_binding \<Rightarrow> plan_fragment checked" where
  "apply_mapping formats mcpServers p =
     (let def = preparedDefinition p; fragment = preparedFragment p in
      case (if definitionKind def = ''agent'' then None else definitionMcpConfig def) of
        None \<Rightarrow> Inr fragment
      | Some cfg \<Rightarrow> and_then (applyMcpConfigToRuntimeClients formats (fragmentClients fragment) cfg mcpServers)
          (\<lambda>clients. Inr (fragment\<lparr>fragmentClients := clients\<rparr>)))"

definition applyMcpMappings :: "document_formats \<Rightarrow> prepared_binding list \<Rightarrow> resolved_server list \<Rightarrow> plan_fragment list checked" where
  "applyMcpMappings formats prepared mcpServers = map_checked (apply_mapping formats mcpServers) prepared"

section \<open>Bindings\<close>

definition compiled_routes :: "string \<Rightarrow> egress_route list \<Rightarrow> egress_route list" where
  "compiled_routes bid routes = map (\<lambda>(i, route). route\<lparr>egressRuleId := resolveEgressRuleId bid i, routeBindingId := bid\<rparr>)
     (zip [0..<length routes] routes)"

definition compileBindingResultToCompiledRuntimePlanFragment ::
  "string \<Rightarrow> string \<Rightarrow> compile_binding_result \<Rightarrow> plan_fragment checked" where
  "compileBindingResultToCompiledRuntimePlanFragment targetKey bid r =
     and_then (resolveRuntimeArtifacts targetKey bid (resultArtifacts r)) (\<lambda>artifacts.
       Inr \<lparr> fragmentRoutes = compiled_routes bid (resultRoutes r), fragmentArtifacts = artifacts,
         fragmentClients = resultClients r, fragmentSources = (case resultSources r of None \<Rightarrow> [] | Some s \<Rightarrow> s),
         fragmentAgentRuntimes = (case resultAgentRuntimes r of None \<Rightarrow> [] | Some rs \<Rightarrow> rs) \<rparr>)"

definition some_or :: "'a option \<Rightarrow> plan_error \<Rightarrow> 'a checked" where
  "some_or x e = (case x of None \<Rightarrow> Inl e | Some v \<Rightarrow> Inr v)"

definition definition_name :: "integration_definition \<Rightarrow> string" where
  "definition_name def = quote (definitionFamilyId def @ ''::'' @ definitionVariantId def)"

definition compile_validated_binding ::
  "integration_definition \<Rightarrow> compile_binding_input \<Rightarrow> validation_issue list + parsed_configs \<Rightarrow> prepared_binding checked" where
  "compile_validated_binding def i validation = (case validation of
     Inl issues \<Rightarrow> Inl (InvalidBindingConfig (case issues of [] \<Rightarrow> ''Binding contextual validation failed.''
       | issue # _ \<Rightarrow> safeMessage issue))
   | Inr _ \<Rightarrow> and_then (compileBinding def i) (\<lambda>r.
       and_then (compileBindingResultToCompiledRuntimePlanFragment (compileTargetKey i) (compileBindingId i) r) (\<lambda>fragment.
       Inr \<lparr> preparedDefinition = def, preparedInput = i, preparedFragment = fragment \<rparr>)))"

definition prepare_binding :: "definitions_bundle \<Rightarrow> bool \<Rightarrow> binding_input \<Rightarrow> prepared_binding checked" where
  "prepare_binding definitions enforce b =
     (let target = inputTarget b; connection = inputConnection b; binding = inputBinding b; bid = bindingId binding in
      and_then (ensure (connectionId connection = bindingConnectionId binding) (ConnectionMismatch (''Binding '' @ quote bid @
        '' references connection '' @ quote (bindingConnectionId binding) @ '' but resolved connection was '' @
        quote (connectionId connection) @ ''.''))) (\<lambda>_.
      and_then (ensure (\<not> enforce \<or> targetEnabled target)
        (TargetDisabled (''Target '' @ quote (inputTargetKey b) @ '' is disabled.''))) (\<lambda>_.
      and_then (ensure (\<not> enforce \<or> connectionStatus connection = ActiveStatus)
        (ConnectionNotActive (''Connection '' @ quote (connectionId connection) @ '' is not active.''))) (\<lambda>_.
      and_then (getDefinitionOrThrow definitions (targetFamilyId target) (targetVariantId target)) (\<lambda>def.
      and_then (ensure (definitionKind def = bindingKind binding) (KindMismatch (''Binding '' @ quote bid @ '' has kind '' @
        quote (bindingKind binding) @ '' but definition '' @ definition_name def @ '' has kind '' @ quote (definitionKind def) @ ''.''))) (\<lambda>_.
      and_then (some_or (targetConfigSchema def (targetConfig target)) (InvalidTargetConfig (''Target config for '' @
        quote (inputTargetKey b) @ '' did not satisfy '' @ definition_name def @ '' schema.''))) (\<lambda>tc.
      and_then (some_or (targetSecretSchema def (targetSecrets target)) (InvalidTargetSecrets (''Target secrets for '' @
        quote (inputTargetKey b) @ '' did not satisfy '' @ definition_name def @ '' schema.''))) (\<lambda>ts.
      and_then (some_or (bindingConfigSchema def (bindingConfig binding)) (InvalidBindingConfig (''Binding config for '' @
        quote bid @ '' did not satisfy '' @ definition_name def @ '' schema.''))) (\<lambda>bc.
      and_then (runDefinitionBindingWriteValidation def b) (\<lambda>validation.
        compile_validated_binding def \<lparr> compileTargetKey = inputTargetKey b, compileTarget = target, parsedTargetConfig = tc,
          parsedTargetSecrets = ts, compileConnection = connection, compileBindingId = bid,
          compileBindingKind = bindingKind binding, parsedBindingConfig = bc \<rparr> validation))))))))))"

definition compileBindings ::
  "(string \<Rightarrow> string \<Rightarrow> int) \<Rightarrow> document_formats \<Rightarrow> definitions_bundle \<Rightarrow> bool \<Rightarrow> binding_input list \<Rightarrow>
   (plan_fragment list \<times> resolved_server list) checked" where
  "compileBindings localeCompare formats definitions enforce bindings =
     and_then (map_checked (prepare_binding definitions enforce) bindings) (\<lambda>prepared.
     and_then (collectResolvedMcpServers localeCompare prepared) (\<lambda>servers.
     and_then (applyMcpMappings formats prepared servers) (\<lambda>fragments. Inr (fragments, servers))))"

section \<open>The agent runtime\<close>

definition apply_runtime_mapping ::
  "document_formats \<Rightarrow> string \<Rightarrow> resolved_server list \<Rightarrow> mcp_config \<Rightarrow> runtime_client list \<Rightarrow> runtime_client list checked" where
  "apply_runtime_mapping formats runtime mcpServers cfg clients =
     (case find (\<lambda>c. clientId c = mcpClientId cfg) clients of
        Some c \<Rightarrow> if find (\<lambda>f. fileId f = mcpFileId cfg) (setupFiles c) \<noteq> None
          then applyMcpConfigToRuntimeClients formats clients cfg mcpServers
          else Inl (McpTargetMissing (''Agent runtime '' @ quote runtime @ '' MCP config target '' @
            quote (mcpClientId cfg @ ''::'' @ mcpFileId cfg) @ '' was not found.''))
      | None \<Rightarrow> Inl (McpTargetMissing (''Agent runtime '' @ quote runtime @ '' MCP config target '' @
            quote (mcpClientId cfg @ ''::'' @ mcpFileId cfg) @ '' was not found.'')))"

definition applyAgentRuntimeMcpMappings ::
  "document_formats \<Rightarrow> string \<Rightarrow> runtime_client list \<Rightarrow> runtime_definition \<Rightarrow> resolved_server list \<Rightarrow> runtime_client list checked" where
  "applyAgentRuntimeMcpMappings formats runtime clients def mcpServers =
     (if mcpServers = [] then Inr clients
      else for_each (apply_runtime_mapping formats runtime mcpServers)
        (case materializeMcpConfig def of None \<Rightarrow> [] | Some cfgs \<Rightarrow> cfgs) clients)"

definition compileProfileAgentRuntimeFragment ::
  "document_formats \<Rightarrow> definitions_bundle \<Rightarrow> string \<Rightarrow> egress_route list \<Rightarrow> resolved_server list \<Rightarrow> plan_fragment checked" where
  "compileProfileAgentRuntimeFragment formats definitions runtime routes mcpServers =
     and_then (some_or (getRuntime definitions runtime) (AgentRuntimeNotFound
       (''Sandbox profile references unknown agent runtime '' @ quote runtime @ ''.''))) (\<lambda>def.
     and_then (some_or (runtimeConfigSchema def []) (InvalidAgentRuntimeConfig
       (''Sandbox profile has invalid config for agent runtime '' @ quote runtime @ ''.''))) (\<lambda>config.
     and_then (compileRuntime def config mcpServers) (\<lambda>r.
     and_then (case renderRuntimeClients r of
         None \<Rightarrow> Inr (case compiledClients r of None \<Rightarrow> [] | Some cs \<Rightarrow> cs)
       | Some render \<Rightarrow> (case render routes of
           Inr cs \<Rightarrow> Inr cs
         | Inl message \<Rightarrow> Inl (InvalidAgentRuntimeConfig (''Agent runtime '' @ quote runtime @
             '' failed to render runtime clients.'' @ (case message of None \<Rightarrow> [] | Some m \<Rightarrow> '' '' @ m))))) (\<lambda>clients.
     and_then (resolveRuntimeArtifacts ''agent-runtime'' (''agent-runtime-'' @ runtime)
       (case runtimeArtifacts r of None \<Rightarrow> [] | Some as \<Rightarrow> as)) (\<lambda>artifacts.
     and_then (applyAgentRuntimeMcpMappings formats runtime clients def mcpServers) (\<lambda>clients'.
     Inr \<lparr> fragmentRoutes = [], fragmentArtifacts = artifacts, fragmentClients = clients',
       fragmentSources = (case runtimeSources r of None \<Rightarrow> [] | Some s \<Rightarrow> s),
       fragmentAgentRuntimes = runtimeAgentRuntimes r \<rparr>))))))"

section \<open>The plan\<close>

record ('i, 'r) compile_input =
  profileIdInput :: string
  versionInput :: int
  imageInput :: 'i
  routingInput :: 'r
  agentRuntimeId :: string
  bindingsInput :: "binding_input list"
  platformRoutes :: "egress_route list option"
  platformServers :: "resolved_server list option"

definition compileRuntimePlan ::
  "(string \<Rightarrow> string \<Rightarrow> int) \<Rightarrow> (string \<Rightarrow> string option) \<Rightarrow> document_formats \<Rightarrow> definitions_bundle \<Rightarrow>
   ('i, 'r) compile_input \<Rightarrow> ('i, 'r) compiled_plan checked" where
  "compileRuntimePlan localeCompare url_protocol formats definitions i =
     and_then (compileBindings localeCompare formats definitions True (bindingsInput i)) (\<lambda>(bindingFragments, servers).
     let resolvedMcpServers = js_sort (by_key localeCompare (\<lambda>s. serverName (mcpServer s)))
           (servers @ (case platformServers i of None \<Rightarrow> [] | Some ss \<Rightarrow> ss));
         fragments = bindingFragments @ [\<lparr> fragmentRoutes = (case platformRoutes i of None \<Rightarrow> [] | Some rs \<Rightarrow> rs),
           fragmentArtifacts = [], fragmentClients = [], fragmentSources = [], fragmentAgentRuntimes = [] \<rparr>] in
     and_then (compileProfileAgentRuntimeFragment formats definitions (agentRuntimeId i)
       (concat (map fragmentRoutes fragments)) resolvedMcpServers) (\<lambda>runtimeFragment.
     and_then (validateCompiledRuntimePlanFragments url_protocol (fragments @ [runtimeFragment])) (\<lambda>_.
     assembleCompiledRuntimePlan localeCompare (profileIdInput i) (versionInput i) (imageInput i) (routingInput i)
       (fragments @ [runtimeFragment]))))"

section \<open>What a compiled plan rests on\<close>

definition binding_admitted :: "definitions_bundle \<Rightarrow> binding_input \<Rightarrow> bool" where
  "binding_admitted definitions b \<longleftrightarrow>
     connectionId (inputConnection b) = bindingConnectionId (inputBinding b) \<and> targetEnabled (inputTarget b) \<and>
     connectionStatus (inputConnection b) = ActiveStatus \<and>
     (\<exists>def parsed. getDefinitionOrThrow definitions (targetFamilyId (inputTarget b)) (targetVariantId (inputTarget b)) = Inr def \<and>
        definitionKind def = bindingKind (inputBinding b) \<and> targetConfigSchema def (targetConfig (inputTarget b)) \<noteq> None \<and>
        targetSecretSchema def (targetSecrets (inputTarget b)) \<noteq> None \<and>
        bindingConfigSchema def (bindingConfig (inputBinding b)) \<noteq> None \<and>
        runDefinitionBindingWriteValidation def b = Inr (Inr parsed))"

text \<open>The route is one the definition of the binding gave for it, under the id and the name of the binding.\<close>

definition route_of_binding :: "definitions_bundle \<Rightarrow> binding_input \<Rightarrow> egress_route \<Rightarrow> bool" where
  "route_of_binding definitions b route \<longleftrightarrow> routeBindingId route = bindingId (inputBinding b) \<and>
     (\<exists>def i r. getDefinitionOrThrow definitions (targetFamilyId (inputTarget b)) (targetVariantId (inputTarget b)) = Inr def \<and>
        compileBinding def i = Inr r \<and> compileConnection i = inputConnection b \<and> compileTarget i = inputTarget b \<and>
        compileBindingId i = bindingId (inputBinding b) \<and>
        (\<exists>n given. n < length (resultRoutes r) \<and> given = resultRoutes r ! n \<and>
           route = given\<lparr>egressRuleId := resolveEgressRuleId (bindingId (inputBinding b)) n,
             routeBindingId := bindingId (inputBinding b)\<rparr>))"

lemma some_or_Inr [simp]: "some_or x e = Inr v \<longleftrightarrow> x = Some v"
  by (simp add: some_or_def split: option.splits)

lemma validated_binding:
  "compile_validated_binding def i validation = Inr p \<Longrightarrow> (\<exists>parsed. validation = Inr parsed) \<and> preparedDefinition p = def \<and>
     preparedInput p = i \<and>
     (\<exists>r. compileBinding def i = Inr r \<and> fragmentRoutes (preparedFragment p) = compiled_routes (compileBindingId i) (resultRoutes r))"
  by (cases validation)
    (auto simp: compile_validated_binding_def compileBindingResultToCompiledRuntimePlanFragment_def and_then_Inr)

lemma prepared_binding:
  assumes "prepare_binding definitions True b = Inr p"
  shows "binding_admitted definitions b \<and> (\<exists>r.
    getDefinitionOrThrow definitions (targetFamilyId (inputTarget b)) (targetVariantId (inputTarget b)) = Inr (preparedDefinition p) \<and>
    compileBinding (preparedDefinition p) (preparedInput p) = Inr r \<and>
    compileConnection (preparedInput p) = inputConnection b \<and> compileTarget (preparedInput p) = inputTarget b \<and>
    compileBindingId (preparedInput p) = bindingId (inputBinding b) \<and>
    fragmentRoutes (preparedFragment p) = compiled_routes (bindingId (inputBinding b)) (resultRoutes r))"
proof -
  obtain def tc ts bc validation where c:
      "connectionId (inputConnection b) = bindingConnectionId (inputBinding b)" "targetEnabled (inputTarget b)"
      "connectionStatus (inputConnection b) = ActiveStatus"
      "getDefinitionOrThrow definitions (targetFamilyId (inputTarget b)) (targetVariantId (inputTarget b)) = Inr def"
      "definitionKind def = bindingKind (inputBinding b)" "targetConfigSchema def (targetConfig (inputTarget b)) = Some tc"
      "targetSecretSchema def (targetSecrets (inputTarget b)) = Some ts"
      "bindingConfigSchema def (bindingConfig (inputBinding b)) = Some bc"
      "runDefinitionBindingWriteValidation def b = Inr validation" and
    f: "compile_validated_binding def \<lparr> compileTargetKey = inputTargetKey b, compileTarget = inputTarget b,
          parsedTargetConfig = tc, parsedTargetSecrets = ts, compileConnection = inputConnection b,
          compileBindingId = bindingId (inputBinding b), compileBindingKind = bindingKind (inputBinding b),
          parsedBindingConfig = bc \<rparr> validation = Inr p"
    using assms unfolding prepare_binding_def Let_def and_then_Inr ensure_Inr some_or_Inr simp_thms
    by (elim exE conjE) (rule that; assumption)
  obtain r parsed where "validation = Inr parsed" "preparedDefinition p = def" "compileBinding def (preparedInput p) = Inr r"
      "compileConnection (preparedInput p) = inputConnection b" "compileTarget (preparedInput p) = inputTarget b"
      "compileBindingId (preparedInput p) = bindingId (inputBinding b)"
      "fragmentRoutes (preparedFragment p) = compiled_routes (bindingId (inputBinding b)) (resultRoutes r)"
    using validated_binding [OF f] by auto
  then show ?thesis unfolding binding_admitted_def using c by simp
qed

lemma compiled_routes_nth:
  "route \<in> set (compiled_routes bid routes) \<longleftrightarrow> (\<exists>n<length routes.
     route = (routes ! n)\<lparr>egressRuleId := resolveEgressRuleId bid n, routeBindingId := bid\<rparr>)"
proof -
  have "map (\<lambda>(i, route). route\<lparr>egressRuleId := resolveEgressRuleId bid i, routeBindingId := bid\<rparr>) (zip [0..<length routes] routes) =
      map (\<lambda>n. (routes ! n)\<lparr>egressRuleId := resolveEgressRuleId bid n, routeBindingId := bid\<rparr>) [0..<length routes]"
    by (rule nth_equalityI) simp_all
  then show ?thesis unfolding compiled_routes_def by (simp only: set_map set_upt atLeast0LessThan) blast
qed

lemma prepared_route:
  assumes "prepare_binding definitions True b = Inr p" "route \<in> set (fragmentRoutes (preparedFragment p))"
  shows "route_of_binding definitions b route"
proof -
  obtain r where "getDefinitionOrThrow definitions (targetFamilyId (inputTarget b)) (targetVariantId (inputTarget b)) = Inr (preparedDefinition p)"
      "compileBinding (preparedDefinition p) (preparedInput p) = Inr r"
      "compileConnection (preparedInput p) = inputConnection b" "compileTarget (preparedInput p) = inputTarget b"
      "compileBindingId (preparedInput p) = bindingId (inputBinding b)"
      "route \<in> set (compiled_routes (bindingId (inputBinding b)) (resultRoutes r))"
    using prepared_binding [OF assms(1)] assms(2) by auto
  then show ?thesis unfolding route_of_binding_def compiled_routes_nth by auto
qed

lemma apply_mapping_routes: "apply_mapping formats servers p = Inr f \<Longrightarrow> fragmentRoutes f = fragmentRoutes (preparedFragment p)"
  by (auto simp: apply_mapping_def Let_def and_then_Inr split: option.splits if_splits)

lemma compiled_bindings:
  assumes "compileBindings localeCompare formats definitions True bindings = Inr (fragments, servers)"
  shows "list_all (binding_admitted definitions) bindings"
    and "f \<in> set fragments \<Longrightarrow> route \<in> set (fragmentRoutes f) \<Longrightarrow> \<exists>b\<in>set bindings. route_of_binding definitions b route"
proof -
  from assms obtain prepared where p: "list_all2 (\<lambda>b p. prepare_binding definitions True b = Inr p) bindings prepared"
      "list_all2 (\<lambda>p f. apply_mapping formats servers p = Inr f) prepared fragments"
    by (auto simp: compileBindings_def applyMcpMappings_def and_then_Inr map_checked_Inr)
  show "list_all (binding_admitted definitions) bindings"
    using p(1) prepared_binding by (fastforce simp: list_all_iff in_set_conv_nth list_all2_conv_all_nth)
  assume f: "f \<in> set fragments" "route \<in> set (fragmentRoutes f)"
  then obtain n where n: "n < length fragments" "f = fragments ! n" by (auto simp: in_set_conv_nth)
  have m: "apply_mapping formats servers (prepared ! n) = Inr f"
      "prepare_binding definitions True (bindings ! n) = Inr (prepared ! n)" "n < length bindings"
    using p n by (auto simp: list_all2_conv_all_nth)
  then show "\<exists>b\<in>set bindings. route_of_binding definitions b route"
    using prepared_route [OF m(2)] apply_mapping_routes [OF m(1)] f(2) by (metis nth_mem)
qed

lemma compiled_parts:
  assumes "compileRuntimePlan localeCompare url_protocol formats definitions i = Inr plan"
  obtains fragments servers parts where
    "compileBindings localeCompare formats definitions True (bindingsInput i) = Inr (fragments, servers)"
    "set (concat (map fragmentRoutes parts)) =
       set (concat (map fragmentRoutes fragments)) \<union> set (case platformRoutes i of None \<Rightarrow> [] | Some rs \<Rightarrow> rs)"
    "validateCompiledRuntimePlanFragments url_protocol parts = Inr ()"
    "assembleCompiledRuntimePlan localeCompare (profileIdInput i) (versionInput i) (imageInput i) (routingInput i) parts = Inr plan"
proof -
  note unfolded = assms [unfolded compileRuntimePlan_def and_then_Inr Let_def split_def]
  obtain x where x: "compileBindings localeCompare formats definitions True (bindingsInput i) = Inr x"
    and rest: "\<exists>rf. (\<exists>routes ss. compileProfileAgentRuntimeFragment formats definitions (agentRuntimeId i) routes ss = Inr rf) \<and>
      (\<exists>u. validateCompiledRuntimePlanFragments url_protocol ((fst x @ [\<lparr> fragmentRoutes =
          (case platformRoutes i of None \<Rightarrow> [] | Some rs \<Rightarrow> rs), fragmentArtifacts = [], fragmentClients = [],
          fragmentSources = [], fragmentAgentRuntimes = [] \<rparr>]) @ [rf]) = Inr u \<and>
        assembleCompiledRuntimePlan localeCompare (profileIdInput i) (versionInput i) (imageInput i) (routingInput i)
          ((fst x @ [\<lparr> fragmentRoutes = (case platformRoutes i of None \<Rightarrow> [] | Some rs \<Rightarrow> rs), fragmentArtifacts = [],
            fragmentClients = [], fragmentSources = [], fragmentAgentRuntimes = [] \<rparr>]) @ [rf]) = Inr plan)"
    using unfolded by blast
  from rest obtain rf routes ss u where r: "compileProfileAgentRuntimeFragment formats definitions (agentRuntimeId i) routes ss = Inr rf"
    and v: "validateCompiledRuntimePlanFragments url_protocol ((fst x @ [\<lparr> fragmentRoutes =
          (case platformRoutes i of None \<Rightarrow> [] | Some rs \<Rightarrow> rs), fragmentArtifacts = [], fragmentClients = [],
          fragmentSources = [], fragmentAgentRuntimes = [] \<rparr>]) @ [rf]) = Inr u"
    and p: "assembleCompiledRuntimePlan localeCompare (profileIdInput i) (versionInput i) (imageInput i) (routingInput i)
          ((fst x @ [\<lparr> fragmentRoutes = (case platformRoutes i of None \<Rightarrow> [] | Some rs \<Rightarrow> rs), fragmentArtifacts = [],
            fragmentClients = [], fragmentSources = [], fragmentAgentRuntimes = [] \<rparr>]) @ [rf]) = Inr plan"
    by blast
  have "fragmentRoutes rf = []"
    using r by (auto simp: compileProfileAgentRuntimeFragment_def and_then_Inr)
  then show ?thesis using that [OF _ _ _ p] x v by (cases x) simp
qed

text \<open>C12: A plan the compiler returns is closed, and it was compiled from admissible bindings only: each has the
connection it names, an enabled target, an active connection, a definition of its kind, and configurations and
secrets that the schemas of the definition and its own validation accept.\<close>

theorem compiled_plan_admissible:
  assumes "compileRuntimePlan localeCompare url_protocol formats definitions i = Inr plan"
  shows "plan_closed plan \<and> list_all (binding_admitted definitions) (bindingsInput i)"
proof -
  obtain fragments servers parts where c:
    "compileBindings localeCompare formats definitions True (bindingsInput i) = Inr (fragments, servers)"
    "validateCompiledRuntimePlanFragments url_protocol parts = Inr ()"
    "assembleCompiledRuntimePlan localeCompare (profileIdInput i) (versionInput i) (imageInput i) (routingInput i) parts = Inr plan"
    using compiled_parts [OF assms] by metis
  have "\<exists>p. assembleCompiledRuntimePlan localeCompare (profileIdInput i) (versionInput i) (imageInput i) (routingInput i) parts = Inr p \<and>
      plan_closed p"
    using checked_fragments_closed [OF c(2)] .
  then show ?thesis using c(3) compiled_bindings(1) [OF c(1)] by simp
qed

text \<open>A route of a compiled plan, which decides whose credential is put on a request, is a route of the
platform or one that the definition of a binding gave when it compiled this binding with its own connection, and then it names
this binding: no definition can give a route in the name of another binding.\<close>

theorem compiled_routes_keep_binding:
  assumes "compileRuntimePlan localeCompare url_protocol formats definitions i = Inr plan"
    and "route \<in> set (planEgressRoutes plan)"
  shows "route \<in> set (case platformRoutes i of None \<Rightarrow> [] | Some rs \<Rightarrow> rs) \<or>
    (\<exists>b\<in>set (bindingsInput i). route_of_binding definitions b route)"
proof -
  obtain fragments servers parts where c:
    "compileBindings localeCompare formats definitions True (bindingsInput i) = Inr (fragments, servers)"
    "set (concat (map fragmentRoutes parts)) =
       set (concat (map fragmentRoutes fragments)) \<union> set (case platformRoutes i of None \<Rightarrow> [] | Some rs \<Rightarrow> rs)"
    "assembleCompiledRuntimePlan localeCompare (profileIdInput i) (versionInput i) (imageInput i) (routingInput i) parts = Inr plan"
    using compiled_parts [OF assms(1)] by metis
  have "planEgressRoutes plan = orderRoutesForMatching localeCompare (concat (map fragmentRoutes parts))"
    using c(3) by (auto simp: assembleCompiledRuntimePlan_def and_then_Inr)
  then have "route \<in> set (concat (map fragmentRoutes parts))"
    using assms(2) by (simp add: orderRoutesForMatching_def)
  then consider "route \<in> set (concat (map fragmentRoutes fragments))" | "route \<in> set (case platformRoutes i of None \<Rightarrow> [] | Some rs \<Rightarrow> rs)"
    unfolding c(2) by blast
  then show ?thesis
  proof cases
    case 1
    then obtain f where "f \<in> set fragments" "route \<in> set (fragmentRoutes f)" by auto
    then show ?thesis using compiled_bindings(2) [OF c(1)] by blast
  qed simp
qed


text \<open>A definition whose routes name another binding: the compiled ones name the binding they were compiled for.\<close>

definition sample_definition :: integration_definition where
  "sample_definition = \<lparr> definitionFamilyId = ''github'', definitionVariantId = ''cloud'', definitionKind = ''git'',
     targetConfigSchema = (\<lambda>c. Some (JObject c)), targetSecretSchema = (\<lambda>_. Some (JObject [])),
     bindingConfigSchema = (\<lambda>c. Some (JObject c)), connectionMethods = [], validateBindingWriteContext = None,
     compileBinding = (\<lambda>_. Inr \<lparr> resultRoutes = [github_route ''x'' ''/repos/'', github_route ''y'' ''/users''],
       resultArtifacts = [], resultClients = [], resultSources = None, resultAgentRuntimes = None \<rparr>),
     definitionMcp = Some (McpFunction (\<lambda>_. Inr (OneServer (mcpServer (sample_server ''github''))))), definitionMcpConfig = None \<rparr>"

definition sample_bundle :: definitions_bundle where
  "sample_bundle = \<lparr> getDefinitionOrThrow = (\<lambda>_ _. Inr sample_definition),
     getRuntime = (\<lambda>_. Some \<lparr> runtimeConfigSchema = (\<lambda>c. Some (JObject c)),
       compileRuntime = (\<lambda>_ _. Inr \<lparr> runtimeArtifacts = None, runtimeSources = None, runtimeAgentRuntimes = [],
         compiledClients = Some [sample_client ''m''], renderRuntimeClients = None \<rparr>),
       materializeMcpConfig = Some [sample_config] \<rparr>) \<rparr>"

definition sample_binding :: binding_input where
  "sample_binding = \<lparr> inputTargetKey = ''github-cloud'', inputTarget = \<lparr> targetFamilyId = ''github'',
       targetVariantId = ''cloud'', targetEnabled = True, targetConfig = [], targetSecrets = [] \<rparr>,
     inputConnection = \<lparr> connectionId = ''icn_1'', connectionStatus = ActiveStatus, connectionConfig = [] \<rparr>,
     inputBinding = \<lparr> bindingId = ''ibd_2'', bindingKind = ''git'', bindingConnectionId = ''icn_1'', bindingConfig = [] \<rparr> \<rparr>"

definition sample_input :: "(unit, unit) compile_input" where
  "sample_input = \<lparr> profileIdInput = ''sbp_1'', versionInput = 1, imageInput = (), routingInput = (), agentRuntimeId = ''codex'',
     bindingsInput = [sample_binding], platformRoutes = None, platformServers = None \<rparr>"

definition sample_compiled :: "(unit, unit) compiled_plan checked" where
  "sample_compiled = compileRuntimePlan (\<lambda>_ _. 0) (\<lambda>_. Some ''https:'') sample_formats sample_bundle sample_input"

lemma sample_compiles:
  "(case sample_compiled of Inl _ \<Rightarrow> [] | Inr plan \<Rightarrow> map (\<lambda>r. (egressRuleId r, routeBindingId r)) (planEgressRoutes plan)) =
     [(''egress_rule_ibd_2'', ''ibd_2''), (''egress_rule_ibd_2_2'', ''ibd_2'')]"
  by code_simp

lemma sample_compiled_plan:
  obtains plan where "compileRuntimePlan (\<lambda>_ _. 0) (\<lambda>_. Some ''https:'') sample_formats sample_bundle sample_input = Inr plan"
    "planEgressRoutes plan \<noteq> []"
  using sample_compiles unfolding sample_compiled_def by (auto split: sum.splits)


lemma compiled_plan_admissible_witness:
  "\<exists>plan. compileRuntimePlan (\<lambda>_ _. 0) (\<lambda>_. Some ''https:'') sample_formats sample_bundle sample_input = Inr plan \<and>
     plan_closed plan \<and> list_all (binding_admitted sample_bundle) [sample_binding]"
proof -
  obtain plan where p: "compileRuntimePlan (\<lambda>_ _. 0) (\<lambda>_. Some ''https:'') sample_formats sample_bundle sample_input = Inr plan"
    by (rule sample_compiled_plan)
  show ?thesis using p compiled_plan_admissible [OF p] by (simp add: sample_input_def)
qed

lemma compiled_routes_keep_binding_witness:
  "\<exists>plan route. compileRuntimePlan (\<lambda>_ _. 0) (\<lambda>_. Some ''https:'') sample_formats sample_bundle sample_input = Inr plan \<and>
     route \<in> set (planEgressRoutes plan) \<and> route_of_binding sample_bundle sample_binding route"
proof -
  obtain plan where p: "compileRuntimePlan (\<lambda>_ _. 0) (\<lambda>_. Some ''https:'') sample_formats sample_bundle sample_input = Inr plan"
      "planEgressRoutes plan \<noteq> []"
    by (rule sample_compiled_plan)
  have r: "hd (planEgressRoutes plan) \<in> set (planEgressRoutes plan)" using p(2) by simp
  show ?thesis using p(1) r compiled_routes_keep_binding [OF p(1) r] by (auto simp: sample_input_def)
qed

end
