(* ===== verification/LeaseRenewal.thy ===== *)
theory LeaseRenewal
  imports RuntimeStores ForwardingRecovery
begin

text \<open>
  The two loops of \<open>apps/data-plane-gateway/src/tunnel/session/tunnel-session-service.ts\<close> that keep leases alive:
  \<open>startRuntimeAttachmentRenewal\<close> refreshes the attachment of a bootstrap socket and
  \<open>startPresenceLeaseRenewal\<close> the presence of a connection socket.

  An asynchronous renewal is cut at its awaits. A renewal that waits is an entry of a list: first a request to the store, then
  its answer, on which the code after the await runs. The store executes a request at a step of its own, so
  that anything can happen between the request, its execution and the continuation. The pending timer is its due time.
\<close>

section \<open>Renewal of the attachment\<close>

datatype renewal_await =
    GetRequested int
  | GetAnswered "active_bootstrap_session option"
  | UpsertRequested active_bootstrap_session int
  | UpsertAnswered
  | RequestFailed

datatype renewal_report = LeaseLost | RefreshFailed

record renewal_input =
  renewal_gatewayNodeId :: string
  renewal_attachedAtMs :: int
  renewal_leaseId :: string
  renewal_relaySessionId :: string
  renewal_sandboxInstanceId :: string

text \<open>The variables of the closure, then what it reads and writes: the readiness of the gateway, the socket, the
store, and the calls of \<open>onLeaseLost\<close> and \<open>onRefreshFailed\<close>, latest first.\<close>

record renewal_world =
  renewalStopped :: bool
  renewalInFlight :: bool
  renewalTimer :: "int option"
  readinessSubscribed :: bool
  renewalAwaits :: "renewal_await list"
  gatewayReadiness :: forwarding_state
  renewalSocketOpen :: bool
  attachmentStore :: attachment_store
  renewalReports :: "renewal_report list"

definition own_attachment :: "renewal_input \<Rightarrow> active_bootstrap_session" where
  "own_attachment i = \<lparr> active_sandboxInstanceId = renewal_sandboxInstanceId i, active_nodeId = renewal_gatewayNodeId i,
     active_sessionId = renewal_relaySessionId i, active_ownerLeaseId = renewal_leaseId i,
     active_attachedAtMs = renewal_attachedAtMs i \<rparr>"

definition cancelScheduledRenewal :: "renewal_world \<Rightarrow> renewal_world" where
  "cancelScheduledRenewal w = w\<lparr>renewalTimer := None\<rparr>"

definition stopRenewal :: "renewal_world \<Rightarrow> renewal_world" where
  "stopRenewal w = (if renewalStopped w then w
     else cancelScheduledRenewal (w\<lparr>renewalStopped := True, readinessSubscribed := False\<rparr>))"

definition scheduleNextRenewal :: "int \<Rightarrow> renewal_world \<Rightarrow> renewal_world" where
  "scheduleNextRenewal now w =
     (if renewalStopped w \<or> \<not> isReady (gatewayReadiness w) then cancelScheduledRenewal w
      else if renewalTimer w \<noteq> None then w
      else w\<lparr>renewalTimer := Some (now + OWNER_LEASE_RENEW_INTERVAL_MS)\<rparr>)"

text \<open>\<open>renewRuntimeAttachment\<close> up to its first await.\<close>

definition renewRuntimeAttachment :: "int \<Rightarrow> renewal_world \<Rightarrow> renewal_world" where
  "renewRuntimeAttachment now w =
     (let w1 = w\<lparr>renewalTimer := None\<rparr> in
      if renewalStopped w1 \<or> \<not> isReady (gatewayReadiness w1) then w1
      else if \<not> renewalSocketOpen w1 then stopRenewal w1
      else w1\<lparr>renewalInFlight := True, renewalAwaits := GetRequested now # renewalAwaits w1\<rparr>)"

text \<open>The \<open>catch\<close> and \<open>finally\<close> blocks, and the return in \<open>onLeaseLost\<close>'s branches.\<close>

definition renewal_failed :: "renewal_world \<Rightarrow> renewal_world" where
  "renewal_failed w =
     (if renewalStopped w then w\<lparr>renewalInFlight := False\<rparr>
      else (stopRenewal w)\<lparr>renewalReports := RefreshFailed # renewalReports w, renewalInFlight := False\<rparr>)"

definition lease_lost :: "renewal_world \<Rightarrow> renewal_world" where
  "lease_lost w = (stopRenewal w)\<lparr>renewalReports := LeaseLost # renewalReports w, renewalInFlight := False\<rparr>"

text \<open>\<open>refreshRuntimeAttachment\<close> up to its await, \<open>None\<close> where it throws.\<close>

definition refreshRuntimeAttachment :: "renewal_input \<Rightarrow> int \<Rightarrow> forwarding_state \<Rightarrow> renewal_await option" where
  "refreshRuntimeAttachment i now st =
     (if isReady st then Some (UpsertRequested (own_attachment i) now) else None)"

definition renewal_after_get :: "renewal_input \<Rightarrow> int \<Rightarrow> active_bootstrap_session option \<Rightarrow> renewal_world \<Rightarrow> renewal_world" where
  "renewal_after_get i now currentAttachment w = (case currentAttachment of
     None \<Rightarrow> lease_lost w
   | Some current \<Rightarrow>
       if active_ownerLeaseId current \<noteq> renewal_leaseId i \<or> active_sessionId current \<noteq> renewal_relaySessionId i then lease_lost w
       else if \<not> isReady (gatewayReadiness w) then w\<lparr>renewalInFlight := False\<rparr>
       else (case refreshRuntimeAttachment i now (gatewayReadiness w) of
           None \<Rightarrow> renewal_failed w
         | Some request \<Rightarrow> w\<lparr>renewalAwaits := request # renewalAwaits w\<rparr>))"

definition renewal_after_upsert :: "int \<Rightarrow> renewal_world \<Rightarrow> renewal_world" where
  "renewal_after_upsert now w = scheduleNextRenewal now (w\<lparr>renewalInFlight := False\<rparr>)"

text \<open>The store executes the request, and the renewal goes on with an answer.\<close>

definition execute_request :: "renewal_input \<Rightarrow> renewal_await \<Rightarrow> attachment_store \<Rightarrow> renewal_await \<times> attachment_store" where
  "execute_request i a store = (case a of
     GetRequested now \<Rightarrow> (let (r, store') = getAttachment (renewal_sandboxInstanceId i) now store in (GetAnswered r, store'))
   | UpsertRequested session now \<Rightarrow> (UpsertAnswered, upsertAttachment session ATTACHMENT_TTL_MS now store)
   | _ \<Rightarrow> (a, store))"

definition continue_renewal :: "renewal_input \<Rightarrow> int \<Rightarrow> renewal_await \<Rightarrow> renewal_world \<Rightarrow> renewal_world" where
  "continue_renewal i now a w = (case a of
     GetAnswered r \<Rightarrow> renewal_after_get i now r w
   | UpsertAnswered \<Rightarrow> renewal_after_upsert now w
   | RequestFailed \<Rightarrow> renewal_failed w
   | _ \<Rightarrow> w)"

fun is_request :: "renewal_await \<Rightarrow> bool" where
  "is_request (GetRequested _) = True"
| "is_request (UpsertRequested _ _) = True"
| "is_request _ = False"

definition readiness_changed :: "int \<Rightarrow> renewal_world \<Rightarrow> renewal_world" where
  "readiness_changed now w =
     (if \<not> readinessSubscribed w \<or> renewalStopped w then w
      else if fwStatus (gatewayReadiness w) \<noteq> Ready then cancelScheduledRenewal w
      else if renewalTimer w = None \<and> \<not> renewalInFlight w then renewRuntimeAttachment now w
      else w)"

definition startRuntimeAttachmentRenewal :: "int \<Rightarrow> forwarding_state \<Rightarrow> bool \<Rightarrow> attachment_store \<Rightarrow> renewal_world" where
  "startRuntimeAttachmentRenewal now st isOpen store = scheduleNextRenewal now
     \<lparr> renewalStopped = False, renewalInFlight = False, renewalTimer = None, readinessSubscribed = True, renewalAwaits = [],
       gatewayReadiness = st, renewalSocketOpen = isOpen, attachmentStore = store, renewalReports = [] \<rparr>"

section \<open>Histories of a renewal\<close>

text \<open>\<open>others\<close> is any change others make to the store.\<close>

datatype renewal_event = RenewalTimerFires | StoreExecutes nat | StoreFails nat | RenewalContinues nat
  | ReadinessChanges forwarding_state | RenewalStops | RenewalSocketCloses | OthersWrite attachment_store

definition without_nth :: "nat \<Rightarrow> 'a list \<Rightarrow> 'a list" where
  "without_nth n xs = take n xs @ drop (Suc n) xs"

inductive renewal_step :: "renewal_input \<Rightarrow> int \<times> renewal_world \<Rightarrow> renewal_event \<Rightarrow> int \<times> renewal_world \<Rightarrow> bool"
  for i :: renewal_input where
  timer_fires: "renewalTimer w = Some due \<Longrightarrow> now \<le> t \<Longrightarrow> due \<le> t \<Longrightarrow>
    renewal_step i (now, w) RenewalTimerFires (t, renewRuntimeAttachment t w)"
| store_executes: "n < length (renewalAwaits w) \<Longrightarrow> now \<le> t \<Longrightarrow> is_request (renewalAwaits w ! n) \<Longrightarrow>
    execute_request i (renewalAwaits w ! n) (attachmentStore w) = (a, store) \<Longrightarrow>
    renewal_step i (now, w) (StoreExecutes n) (t, w\<lparr>renewalAwaits := (renewalAwaits w)[n := a], attachmentStore := store\<rparr>)"
| store_fails: "n < length (renewalAwaits w) \<Longrightarrow> now \<le> t \<Longrightarrow> is_request (renewalAwaits w ! n) \<Longrightarrow>
    renewal_step i (now, w) (StoreFails n) (t, w\<lparr>renewalAwaits := (renewalAwaits w)[n := RequestFailed]\<rparr>)"
| continues: "n < length (renewalAwaits w) \<Longrightarrow> now \<le> t \<Longrightarrow> \<not> is_request (renewalAwaits w ! n) \<Longrightarrow>
    renewal_step i (now, w) (RenewalContinues n)
      (t, continue_renewal i t (renewalAwaits w ! n) (w\<lparr>renewalAwaits := without_nth n (renewalAwaits w)\<rparr>))"
| readiness_changes: "now \<le> t \<Longrightarrow>
    renewal_step i (now, w) (ReadinessChanges st) (t, readiness_changed t (w\<lparr>gatewayReadiness := st\<rparr>))"
| stops: "now \<le> t \<Longrightarrow> renewal_step i (now, w) RenewalStops (t, stopRenewal w)"
| socket_closes: "now \<le> t \<Longrightarrow> renewal_step i (now, w) RenewalSocketCloses (t, w\<lparr>renewalSocketOpen := False\<rparr>)"
| others: "now \<le> t \<Longrightarrow> renewal_step i (now, w) (OthersWrite store) (t, w\<lparr>attachmentStore := store\<rparr>)"

inductive renewal_run :: "renewal_input \<Rightarrow> int \<times> renewal_world \<Rightarrow> renewal_event list \<Rightarrow> int \<times> renewal_world \<Rightarrow> bool"
  for i :: renewal_input and s0 :: "int \<times> renewal_world" where
  renewal_started: "renewal_run i s0 [] s0"
| renewal_goes_on: "renewal_run i s0 es s \<Longrightarrow> renewal_step i s e s' \<Longrightarrow> renewal_run i s0 (e # es) s'"

inductive_cases renewal_stepE: "renewal_step i s e s'"

definition renewal_ok :: "renewal_world \<Rightarrow> bool" where
  "renewal_ok w \<longleftrightarrow>
     length (renewalAwaits w) \<le> 1 \<and> (renewalInFlight w \<longleftrightarrow> renewalAwaits w \<noteq> []) \<and>
     (renewalTimer w \<noteq> None \<longrightarrow> \<not> renewalStopped w \<and> isReady (gatewayReadiness w) \<and> renewalAwaits w = []) \<and>
     (\<not> renewalStopped w \<longrightarrow> readinessSubscribed w) \<and>
     (\<not> renewalStopped w \<and> isReady (gatewayReadiness w) \<longrightarrow> renewalTimer w \<noteq> None \<or> renewalAwaits w \<noteq> []) \<and>
     length (renewalReports w) \<le> 1 \<and> (renewalReports w \<noteq> [] \<longrightarrow> renewalStopped w \<and> renewalAwaits w = [])"

named_theorems renewal_defs

lemmas renewal_operations [renewal_defs] =
  cancelScheduledRenewal_def stopRenewal_def scheduleNextRenewal_def renewRuntimeAttachment_def renewal_failed_def
  lease_lost_def refreshRuntimeAttachment_def renewal_after_get_def renewal_after_upsert_def continue_renewal_def
  readiness_changed_def isReady_def

lemma renewal_ok_start: "renewal_ok (startRuntimeAttachmentRenewal now st isOpen store)"
  by (simp add: renewal_ok_def startRuntimeAttachmentRenewal_def renewal_defs)

lemma single_await:
  assumes "renewal_ok w" "n < length (renewalAwaits w)"
  shows "n = 0" "renewalAwaits w = [renewalAwaits w ! n]"
proof -
  from assms have "length (renewalAwaits w) = 1" by (simp add: renewal_ok_def)
  then obtain a where "renewalAwaits w = [a]" by (cases "renewalAwaits w") auto
  then show "n = 0" "renewalAwaits w = [renewalAwaits w ! n]" using assms(2) by auto
qed

lemma renewal_ok_step:
  assumes "renewal_step i (now, w) e (t, w')" "renewal_ok w"
  shows "renewal_ok w'"
  using assms(1)
proof cases
  case (timer_fires due)
  then show ?thesis using assms(2) by (auto simp: renewal_ok_def renewal_defs Let_def)
next
  case (store_executes n a store)
  note s = single_await [OF assms(2) store_executes(3)]
  show ?thesis using assms(2) s store_executes by (auto simp: renewal_ok_def)
next
  case (store_fails n)
  then show ?thesis using assms(2) by (auto simp: renewal_ok_def)
next
  case (continues n)
  note s = single_await [OF assms(2) continues(3)]
  have "without_nth n (renewalAwaits w) = []" using s by (simp add: without_nth_def) (metis One_nat_def length_Cons list.size(3) order_refl)
  then show ?thesis using assms(2) s continues
    by (cases "renewalAwaits w ! n") (auto simp: renewal_ok_def renewal_defs split: option.splits)
next
  case (readiness_changes st)
  then show ?thesis using assms(2) by (auto simp: renewal_ok_def renewal_defs Let_def)
next
  case stops
  then show ?thesis using assms(2) by (auto simp: renewal_ok_def renewal_defs)
next
  case socket_closes
  then show ?thesis using assms(2) by (simp add: renewal_ok_def)
next
  case (others store)
  then show ?thesis using assms(2) by (simp add: renewal_ok_def)
qed

lemma renewal_ok_run: "renewal_run i s0 es s \<Longrightarrow> renewal_ok (snd s0) \<Longrightarrow> renewal_ok (snd s)"
  by (induction rule: renewal_run.induct) (metis renewal_ok_step prod.collapse)+

text \<open>C11: While the gateway is ready and nobody has stopped it, the renewal of an attachment always has either a pending timer or
exactly one renewal in flight, never both and never neither, however the store's answers, its failures, changes of the readiness and the
calls of \<open>stop\<close> interleave; otherwise it has no timer. It reports a lost lease or a failure once at most.\<close>

theorem renewal_never_stalls:
  assumes "renewal_run i (t0, startRuntimeAttachmentRenewal t0 st isOpen store) es (now, w)"
  shows "length (renewalAwaits w) \<le> 1 \<and> length (renewalReports w) \<le> 1 \<and>
    (if renewalStopped w \<or> \<not> isReady (gatewayReadiness w) then renewalTimer w = None
     else (renewalTimer w \<noteq> None) \<noteq> (renewalAwaits w \<noteq> []))"
proof -
  have "renewal_ok w" using renewal_ok_run [OF assms] by (simp add: renewal_ok_start)
  then show ?thesis unfolding renewal_ok_def by auto
qed

text \<open>Nobody else writes, the socket stays open and the gateway ready; the scheduler, the store and the event loop
take at most \<open>d\<close> ms for each step.\<close>

fun timely :: "int \<Rightarrow> int \<times> renewal_world \<Rightarrow> renewal_event \<Rightarrow> int \<Rightarrow> bool" where
  "timely d (now, w) RenewalTimerFires t = (case renewalTimer w of None \<Rightarrow> False | Some due \<Rightarrow> t \<le> due + d)"
| "timely d (now, w) (StoreExecutes n) t = (t \<le> now + d)"
| "timely d (now, w) (RenewalContinues n) t = (t \<le> now + d)"
| "timely d (now, w) _ t = False"

inductive timely_run :: "int \<Rightarrow> renewal_input \<Rightarrow> int \<times> renewal_world \<Rightarrow> renewal_event list \<Rightarrow> int \<times> renewal_world \<Rightarrow> bool"
  for d :: int and i :: renewal_input and s0 :: "int \<times> renewal_world" where
  timely_start: "timely_run d i s0 [] s0"
| timely_step: "timely_run d i s0 es s \<Longrightarrow> renewal_step i s e s' \<Longrightarrow> timely d s e (fst s') \<Longrightarrow> timely_run d i s0 (e # es) s'"

definition holds_attachment :: "renewal_input \<Rightarrow> int \<Rightarrow> attachment_store \<Rightarrow> bool" where
  "holds_attachment i expiry store \<longleftrightarrow> js_get store (renewal_sandboxInstanceId i) =
     Some \<lparr> attachment = own_attachment i, attachment_expiresAtMs = expiry \<rparr>"

definition alive :: "int \<Rightarrow> renewal_input \<Rightarrow> int \<Rightarrow> renewal_world \<Rightarrow> bool" where
  "alive d i now w \<longleftrightarrow> renewal_ok w \<and> \<not> renewalStopped w \<and> isReady (gatewayReadiness w) \<and> renewalSocketOpen w \<and>
     renewalReports w = [] \<and>
     (\<exists>expiry. holds_attachment i expiry (attachmentStore w) \<and>
       (case renewalAwaits w of
          [] \<Rightarrow> (\<exists>due. renewalTimer w = Some due \<and> due + d < expiry)
        | GetRequested n # _ \<Rightarrow> n < expiry
        | GetAnswered r # _ \<Rightarrow> r = Some (own_attachment i)
        | UpsertRequested a n # _ \<Rightarrow> a = own_attachment i \<and> n = now
        | UpsertAnswered # _ \<Rightarrow> now + ATTACHMENT_TTL_MS \<le> expiry + d
        | RequestFailed # _ \<Rightarrow> False))"

lemma alive_step:
  assumes "renewal_step i (now, w) e (t, w')" "timely d (now, w) e t" "alive d i now w" "0 \<le> d" "3 * d < 20000"
  shows "alive d i t w'"
proof -
  have ok: "renewal_ok w" using assms(3) by (simp add: alive_def)
  have ok': "renewal_ok w'" by (rule renewal_ok_step [OF assms(1) ok])
  obtain expiry where held: "holds_attachment i expiry (attachmentStore w)" using assms(3) by (auto simp: alive_def)
  from assms(1) show ?thesis
  proof cases
    case (timer_fires due)
    then show ?thesis using assms(2,3) ok' by (auto simp: alive_def renewal_ok_def renewRuntimeAttachment_def Let_def)
  next
    case (store_executes n a store)
    note s = single_await [OF ok store_executes(3)]
    obtain aw where aw: "renewalAwaits w = [aw]" "renewalAwaits w ! n = aw" using s by auto
    show ?thesis using store_executes assms(2,3) ok' aw s(1)
      by (cases aw) (auto simp: alive_def execute_request_def getAttachment_def upsertAttachment_def holds_attachment_def
          own_attachment_def store_simps split: prod.splits)
  next
    case (store_fails n)
    then show ?thesis using assms(2) by simp
  next
    case (continues n)
    note s = single_await [OF ok continues(3)]
    obtain aw where aw: "renewalAwaits w = [aw]" "renewalAwaits w ! n = aw" using s by auto
    show ?thesis using continues assms(2,3) ok' aw s(1) assms(4,5)
      by (cases aw) (auto simp: alive_def continue_renewal_def renewal_after_get_def refreshRuntimeAttachment_def
          own_attachment_def without_nth_def renewal_after_upsert_def scheduleNextRenewal_def ATTACHMENT_TTL_MS_def
          OWNER_LEASE_RENEW_INTERVAL_MS_def renewal_ok_def)
  qed (use assms(2) in auto)
qed

lemma alive_run: "timely_run d i s0 es s \<Longrightarrow> alive d i (fst s0) (snd s0) \<Longrightarrow> 0 \<le> d \<Longrightarrow> 3 * d < 20000 \<Longrightarrow> alive d i (fst s) (snd s)"
  by (induction rule: timely_run.induct) (simp, metis alive_step prod.collapse)

text \<open>C29: The interval and the lifetime of a lease leave room for delays: if nobody else writes the attachment, the socket stays open, the
gateway ready, and each step of the timer, the store and the event loop is at most \<open>d\<close> ms late, with \<open>3 d\<close> below 20 seconds,
then the renewal, however long it runs, reports nothing and the store keeps holding the attachment of this socket.\<close>

theorem attachment_survives:
  assumes "timely_run d i (t0, startRuntimeAttachmentRenewal t0 st True store) es (now, w)" "isReady st" "0 \<le> d" "3 * d < 20000"
    and "holds_attachment i expiry store" "t0 + OWNER_LEASE_RENEW_INTERVAL_MS + d < expiry"
  shows "\<not> renewalStopped w \<and> renewalReports w = [] \<and> (\<exists>e. holds_attachment i e (attachmentStore w))"
proof -
  have "alive d i t0 (startRuntimeAttachmentRenewal t0 st True store)"
    using assms(2,5,6) renewal_ok_start [of t0 st True store]
    by (auto simp: alive_def startRuntimeAttachmentRenewal_def scheduleNextRenewal_def)
  then have "alive d i now w" using alive_run [OF assms(1)] assms(3,4) by simp
  then show ?thesis by (auto simp: alive_def)
qed

definition sample_renewal :: "string \<Rightarrow> renewal_input" where
  "sample_renewal lease = \<lparr> renewal_gatewayNodeId = ''dpg_1'', renewal_attachedAtMs = 0, renewal_leaseId = lease,
     renewal_relaySessionId = lease, renewal_sandboxInstanceId = ''sbi_1'' \<rparr>"

definition sample_attached :: "string \<Rightarrow> int \<Rightarrow> attachment_store" where
  "sample_attached lease now = upsertAttachment (own_attachment (sample_renewal lease)) ATTACHMENT_TTL_MS now []"

definition renewal_between :: "renewal_await list \<Rightarrow> attachment_store \<Rightarrow> renewal_world" where
  "renewal_between awaits store = \<lparr> renewalStopped = False, renewalInFlight = awaits \<noteq> [],
     renewalTimer = (if awaits = [] then Some 10000 else None), readinessSubscribed = True, renewalAwaits = awaits,
     gatewayReadiness = ready_state 0 SelfCheckSucceeded (initial_readiness 0), renewalSocketOpen = True,
     attachmentStore = store, renewalReports = [] \<rparr>"

lemma sample_start: "startRuntimeAttachmentRenewal 0 (ready_state 0 SelfCheckSucceeded (initial_readiness 0)) True store =
    renewal_between [] store"
  by (simp add: startRuntimeAttachmentRenewal_def scheduleNextRenewal_def renewal_between_def isReady_def ready_state_def
      transition_state_def initial_readiness_def OWNER_LEASE_RENEW_INTERVAL_MS_def)

lemma sample_steps:
  assumes "now \<le> t"
  shows "10000 \<le> t \<Longrightarrow> renewal_step i (now, renewal_between [] store) RenewalTimerFires (t, renewal_between [GetRequested t] store)"
    and "getAttachment (renewal_sandboxInstanceId i) n store = (r, store') \<Longrightarrow>
      renewal_step i (now, renewal_between [GetRequested n] store) (StoreExecutes 0) (t, renewal_between [GetAnswered r] store')"
    and "renewal_step i (now, renewal_between awaits store) (OthersWrite store') (t, renewal_between awaits store')"
    and "renewal_step i (now, renewal_between [GetAnswered (Some (own_attachment i))] store) (RenewalContinues 0)
      (t, renewal_between [UpsertRequested (own_attachment i) t] store)"
    and "renewal_step i (now, renewal_between [UpsertRequested a n] store) (StoreExecutes 0)
      (t, renewal_between [UpsertAnswered] (upsertAttachment a ATTACHMENT_TTL_MS n store))"
proof -
  show "10000 \<le> t \<Longrightarrow> renewal_step i (now, renewal_between [] store) RenewalTimerFires (t, renewal_between [GetRequested t] store)"
    using timer_fires [of "renewal_between [] store" 10000 now t i] assms
    by (simp add: renewal_between_def renewRuntimeAttachment_def isReady_def ready_state_def transition_state_def
        initial_readiness_def)
  show "getAttachment (renewal_sandboxInstanceId i) n store = (r, store') \<Longrightarrow>
      renewal_step i (now, renewal_between [GetRequested n] store) (StoreExecutes 0) (t, renewal_between [GetAnswered r] store')"
    using store_executes [of 0 "renewal_between [GetRequested n] store" now t i] assms
    by (simp add: renewal_between_def execute_request_def)
  show "renewal_step i (now, renewal_between awaits store) (OthersWrite store') (t, renewal_between awaits store')"
    using others [of now t i "renewal_between awaits store" store'] assms by (simp add: renewal_between_def)
  show "renewal_step i (now, renewal_between [GetAnswered (Some (own_attachment i))] store) (RenewalContinues 0)
      (t, renewal_between [UpsertRequested (own_attachment i) t] store)"
    using continues [of 0 "renewal_between [GetAnswered (Some (own_attachment i))] store" now t i] assms
    by (simp add: renewal_between_def continue_renewal_def renewal_after_get_def refreshRuntimeAttachment_def without_nth_def
        own_attachment_def isReady_def ready_state_def transition_state_def initial_readiness_def)
  show "renewal_step i (now, renewal_between [UpsertRequested a n] store) (StoreExecutes 0)
      (t, renewal_between [UpsertAnswered] (upsertAttachment a ATTACHMENT_TTL_MS n store))"
    using store_executes [of 0 "renewal_between [UpsertRequested a n] store" now t i] assms
    by (simp add: renewal_between_def execute_request_def)
qed

lemma sample_get:
  "getAttachment ''sbi_1'' 10000 (sample_attached ''a'' 0) = (Some (own_attachment (sample_renewal ''a'')), sample_attached ''a'' 0)"
  by (simp add: sample_attached_def getAttachment_def upsertAttachment_def own_attachment_def sample_renewal_def
      ATTACHMENT_TTL_MS_def store_simps)

text \<open>A renewal is not fenced against another owner: the attachment may be taken over between its read and its write, and
then the renewal puts the old attachment back. In this history the store holds the attachment of session \<open>b\<close>, and two steps of the
renewal of session \<open>a\<close> later it holds that of \<open>a\<close> again.\<close>

theorem stale_renewal_overwrites_owner:
  "\<exists>es w es' w'. renewal_run (sample_renewal ''a'')
       (0, startRuntimeAttachmentRenewal 0 (ready_state 0 SelfCheckSucceeded (initial_readiness 0)) True (sample_attached ''a'' 0)) es (10000, w) \<and>
     fst (getAttachment ''sbi_1'' 10000 (attachmentStore w)) = Some (own_attachment (sample_renewal ''b'')) \<and>
     renewal_run (sample_renewal ''a'') (10000, w) es' (10001, w') \<and> es' = [StoreExecutes 0, RenewalContinues 0] \<and>
     fst (getAttachment ''sbi_1'' 10001 (attachmentStore w')) = Some (own_attachment (sample_renewal ''a''))"
proof -
  let ?i = "sample_renewal ''a''" and ?w = "\<lambda>awaits lease. renewal_between awaits (sample_attached lease 0)"
  have i: "renewal_sandboxInstanceId ?i = ''sbi_1''" by (simp add: sample_renewal_def)
  have read: "renewal_step ?i (10000, ?w [GetRequested 10000] ''a'') (StoreExecutes 0) (10000, ?w [GetAnswered (Some (own_attachment ?i))] ''a'')"
    by (rule sample_steps(2)) (simp_all add: i sample_get)
  have taken: "renewal_run ?i (0, ?w [] ''a'') [OthersWrite (sample_attached ''b'' 0), StoreExecutes 0, RenewalTimerFires]
      (10000, ?w [GetAnswered (Some (own_attachment ?i))] ''b'')"
    by (rule renewal_goes_on [OF renewal_goes_on [OF renewal_goes_on [OF renewal_started sample_steps(1)] read] sample_steps(3)])
      simp_all
  have restored: "renewal_run ?i (10000, ?w [GetAnswered (Some (own_attachment ?i))] ''b'') [StoreExecutes 0, RenewalContinues 0]
      (10001, renewal_between [UpsertAnswered] (upsertAttachment (own_attachment ?i) ATTACHMENT_TTL_MS 10000 (sample_attached ''b'' 0)))"
    by (rule renewal_goes_on [OF renewal_goes_on [OF renewal_started sample_steps(4)] sample_steps(5)]) simp_all
  show ?thesis unfolding sample_start
    by (rule exI, rule exI, rule exI, rule exI, intro conjI, rule taken, rule_tac [2] restored)
      (simp_all add: renewal_between_def sample_attached_def getAttachment_def upsertAttachment_def own_attachment_def
        sample_renewal_def ATTACHMENT_TTL_MS_def store_simps)
qed


lemma attachment_survives_witness:
  "\<exists>es now w. es \<noteq> [] \<and> timely_run 100 (sample_renewal ''a'')
       (0, startRuntimeAttachmentRenewal 0 (ready_state 0 SelfCheckSucceeded (initial_readiness 0)) True (sample_attached ''a'' 0)) es (now, w) \<and>
     \<not> renewalStopped w \<and> renewalReports w = []"
proof -
  let ?i = "sample_renewal ''a''" and ?w = "\<lambda>awaits. renewal_between awaits (sample_attached ''a'' 0)"
  let ?s0 = "startRuntimeAttachmentRenewal 0 (ready_state 0 SelfCheckSucceeded (initial_readiness 0)) True (sample_attached ''a'' 0)"
  have i: "renewal_sandboxInstanceId ?i = ''sbi_1''" by (simp add: sample_renewal_def)
  have read: "renewal_step ?i (10000, ?w [GetRequested 10000]) (StoreExecutes 0) (10050, ?w [GetAnswered (Some (own_attachment ?i))])"
    by (rule sample_steps(2)) (simp_all add: i sample_get)
  have one: "timely_run 100 ?i (0, ?w []) [RenewalTimerFires] (10000, ?w [GetRequested 10000])"
    by (rule timely_step [OF timely_start sample_steps(1)]) (simp_all add: renewal_between_def)
  have run: "timely_run 100 ?i (0, ?s0) [RenewalContinues 0, StoreExecutes 0, RenewalTimerFires]
      (10100, ?w [UpsertRequested (own_attachment ?i) 10100])"
    unfolding sample_start by (rule timely_step [OF timely_step [OF one read] sample_steps(4)]) simp_all
  have h: "holds_attachment ?i 30000 (sample_attached ''a'' 0)"
    by (simp add: holds_attachment_def sample_attached_def upsertAttachment_def own_attachment_def sample_renewal_def
        ATTACHMENT_TTL_MS_def store_simps)
  have "\<not> renewalStopped (?w [UpsertRequested (own_attachment ?i) 10100]) \<and>
      renewalReports (?w [UpsertRequested (own_attachment ?i) 10100]) = []"
    using attachment_survives [OF run _ _ _ h]
    by (simp add: isReady_def ready_state_def transition_state_def initial_readiness_def OWNER_LEASE_RENEW_INTERVAL_MS_def)
  then show ?thesis using run by blast
qed

lemma renewal_never_stalls_witness:
  "\<exists>es now w. renewal_run (sample_renewal ''a'')
       (0, startRuntimeAttachmentRenewal 0 (ready_state 0 SelfCheckSucceeded (initial_readiness 0)) True (sample_attached ''a'' 0)) es (now, w) \<and>
     renewalTimer w = None \<and> length (renewalAwaits w) = 1 \<and> length (renewalReports w) \<le> 1"
proof -
  let ?i = "sample_renewal ''a''" and ?w = "\<lambda>awaits. renewal_between awaits (sample_attached ''a'' 0)"
  have run: "renewal_run ?i (0, startRuntimeAttachmentRenewal 0 (ready_state 0 SelfCheckSucceeded (initial_readiness 0)) True
      (sample_attached ''a'' 0)) [RenewalTimerFires] (10000, ?w [GetRequested 10000])"
    unfolding sample_start by (rule renewal_goes_on [OF renewal_started sample_steps(1)]) simp_all
  show ?thesis using run renewal_never_stalls [OF run] by (intro exI conjI) (auto simp: renewal_between_def)
qed


section \<open>Renewal of the presence of a connection\<close>

text \<open>\<open>onLeaseTouched\<close> waits for the deadline service; the timer's handle stays set once it has fired, which matters to nobody.\<close>

datatype presence_await = TouchRequested int | TouchAnswered | LeaseTouchedWaits | LeaseTouchedReturned | TouchFailed

record presence_input =
  presence_ownLeaseId :: string
  presence_relaySessionId :: string
  presence_sandbox :: string

record presence_world =
  presenceStopped :: bool
  presenceTimer :: "int option"
  presenceAwaits :: "presence_await list"
  presenceSocketOpen :: bool
  presenceStore :: presence_store
  touchFailures :: nat

definition schedulePresenceRenewal :: "int \<Rightarrow> presence_world \<Rightarrow> presence_world" where
  "schedulePresenceRenewal now w =
     (if presenceStopped w then w else w\<lparr>presenceTimer := Some (now + PRESENCE_LEASE_RENEW_INTERVAL_MS)\<rparr>)"

definition renewPresenceLease :: "int \<Rightarrow> presence_world \<Rightarrow> presence_world" where
  "renewPresenceLease now w =
     (if presenceStopped w then w
      else if \<not> presenceSocketOpen w then w\<lparr>presenceStopped := True, presenceTimer := None\<rparr>
      else w\<lparr>presenceAwaits := TouchRequested now # presenceAwaits w\<rparr>)"

definition touch_failed :: "presence_world \<Rightarrow> presence_world" where
  "touch_failed w = (if presenceStopped w then w
     else w\<lparr>presenceStopped := True, presenceTimer := None, touchFailures := touchFailures w + 1\<rparr>)"

definition continue_presence :: "int \<Rightarrow> presence_await \<Rightarrow> presence_world \<Rightarrow> presence_world" where
  "continue_presence now a w = (case a of
     TouchAnswered \<Rightarrow> w\<lparr>presenceAwaits := LeaseTouchedWaits # presenceAwaits w\<rparr>
   | LeaseTouchedReturned \<Rightarrow> schedulePresenceRenewal now w
   | TouchFailed \<Rightarrow> touch_failed w
   | _ \<Rightarrow> w)"

fun waits :: "presence_await \<Rightarrow> bool" where
  "waits (TouchRequested _) = True"
| "waits LeaseTouchedWaits = True"
| "waits _ = False"

definition execute_touch :: "presence_input \<Rightarrow> presence_await \<Rightarrow> presence_store \<Rightarrow> presence_await \<times> presence_store" where
  "execute_touch i a store = (case a of
     TouchRequested now \<Rightarrow> (TouchAnswered, touchLease (presence_sandbox i) (presence_ownLeaseId i) DashboardPresence
       (presence_relaySessionId i) PRESENCE_LEASE_TTL_MS now store)
   | LeaseTouchedWaits \<Rightarrow> (LeaseTouchedReturned, store)
   | _ \<Rightarrow> (a, store))"

definition presence_stop :: "presence_world \<Rightarrow> presence_world" where
  "presence_stop w = (if presenceStopped w then w else w\<lparr>presenceStopped := True, presenceTimer := None\<rparr>)"

definition startPresenceLeaseRenewal :: "int \<Rightarrow> bool \<Rightarrow> presence_store \<Rightarrow> presence_world" where
  "startPresenceLeaseRenewal now isOpen store = renewPresenceLease now \<lparr> presenceStopped = False, presenceTimer = None,
     presenceAwaits = [], presenceSocketOpen = isOpen, presenceStore = store, touchFailures = 0 \<rparr>"

datatype presence_event = PresenceTimerFires | PresenceExecutes nat | PresenceFails nat | PresenceContinues nat
  | PresenceStops | PresenceSocketCloses | PresenceStoreChanges presence_store

inductive presence_step :: "presence_input \<Rightarrow> int \<times> presence_world \<Rightarrow> presence_event \<Rightarrow> int \<times> presence_world \<Rightarrow> bool"
  for i :: presence_input where
  presence_timer_fires: "presenceTimer w = Some due \<Longrightarrow> now \<le> t \<Longrightarrow> due \<le> t \<Longrightarrow>
    presence_step i (now, w) PresenceTimerFires (t, renewPresenceLease t (w\<lparr>presenceTimer := None\<rparr>))"
| presence_executes: "n < length (presenceAwaits w) \<Longrightarrow> now \<le> t \<Longrightarrow> waits (presenceAwaits w ! n) \<Longrightarrow>
    execute_touch i (presenceAwaits w ! n) (presenceStore w) = (a, store) \<Longrightarrow>
    presence_step i (now, w) (PresenceExecutes n) (t, w\<lparr>presenceAwaits := (presenceAwaits w)[n := a], presenceStore := store\<rparr>)"
| presence_fails: "n < length (presenceAwaits w) \<Longrightarrow> now \<le> t \<Longrightarrow> waits (presenceAwaits w ! n) \<Longrightarrow>
    presence_step i (now, w) (PresenceFails n) (t, w\<lparr>presenceAwaits := (presenceAwaits w)[n := TouchFailed]\<rparr>)"
| presence_continues: "n < length (presenceAwaits w) \<Longrightarrow> now \<le> t \<Longrightarrow> \<not> waits (presenceAwaits w ! n) \<Longrightarrow>
    presence_step i (now, w) (PresenceContinues n)
      (t, continue_presence t (presenceAwaits w ! n) (w\<lparr>presenceAwaits := without_nth n (presenceAwaits w)\<rparr>))"
| presence_stops: "now \<le> t \<Longrightarrow> presence_step i (now, w) PresenceStops (t, presence_stop w)"
| presence_socket_closes: "now \<le> t \<Longrightarrow> presence_step i (now, w) PresenceSocketCloses (t, w\<lparr>presenceSocketOpen := False\<rparr>)"
| presence_store_changes: "now \<le> t \<Longrightarrow> presence_step i (now, w) (PresenceStoreChanges store) (t, w\<lparr>presenceStore := store\<rparr>)"

inductive presence_run :: "presence_input \<Rightarrow> int \<times> presence_world \<Rightarrow> presence_event list \<Rightarrow> int \<times> presence_world \<Rightarrow> bool"
  for i :: presence_input and s0 :: "int \<times> presence_world" where
  presence_started: "presence_run i s0 [] s0"
| presence_goes_on: "presence_run i s0 es s \<Longrightarrow> presence_step i s e s' \<Longrightarrow> presence_run i s0 (e # es) s'"

definition presence_ok :: "presence_world \<Rightarrow> bool" where
  "presence_ok w \<longleftrightarrow>
     length (presenceAwaits w) \<le> 1 \<and> (presenceTimer w \<noteq> None \<longrightarrow> \<not> presenceStopped w \<and> presenceAwaits w = []) \<and>
     (\<not> presenceStopped w \<longrightarrow> presenceTimer w \<noteq> None \<or> presenceAwaits w \<noteq> []) \<and>
     touchFailures w \<le> 1 \<and> (touchFailures w \<noteq> 0 \<longrightarrow> presenceStopped w)"

lemma presence_ok_step:
  assumes "presence_step i (now, w) e (t, w')" "presence_ok w"
  shows "presence_ok w'"
  using assms(1)
proof cases
  case (presence_timer_fires due)
  then show ?thesis using assms(2) by (auto simp: presence_ok_def renewPresenceLease_def)
next
  case (presence_executes n a store)
  then show ?thesis using assms(2) by (auto simp: presence_ok_def)
next
  case (presence_fails n)
  then show ?thesis using assms(2) by (auto simp: presence_ok_def)
next
  case (presence_continues n)
  have "length (presenceAwaits w) = 1" using assms(2) presence_continues(3) by (simp add: presence_ok_def)
  then obtain a where a: "presenceAwaits w = [a]" by (cases "presenceAwaits w") auto
  then show ?thesis using assms(2) presence_continues
    by (cases a) (auto simp: presence_ok_def continue_presence_def schedulePresenceRenewal_def touch_failed_def without_nth_def)
next
  case presence_stops
  then show ?thesis using assms(2) by (auto simp: presence_ok_def presence_stop_def)
qed (use assms(2) in \<open>auto simp: presence_ok_def\<close>)

lemma presence_never_stalls:
  assumes "presence_run i (t0, startPresenceLeaseRenewal t0 isOpen store) es (now, w)"
  shows "length (presenceAwaits w) \<le> 1 \<and> touchFailures w \<le> 1 \<and>
    (if presenceStopped w then presenceTimer w = None else (presenceTimer w \<noteq> None) \<noteq> (presenceAwaits w \<noteq> []))"
proof -
  have "presence_run i s0 es s \<Longrightarrow> presence_ok (snd s0) \<Longrightarrow> presence_ok (snd s)" for s0 es s
    by (induction rule: presence_run.induct) (metis presence_ok_step prod.collapse)+
  from this [OF assms] have "presence_ok w"
    by (auto simp: presence_ok_def startPresenceLeaseRenewal_def renewPresenceLease_def)
  then show ?thesis unfolding presence_ok_def by auto
qed

end
