(* ===== verification/TunnelService.thy ===== *)
theory TunnelService
  imports RelayCoordinator SessionRegistry LeaseRenewal Deadlines HealthMonitor
begin

text \<open>
  \<open>TunnelSessionService\<close> of \<open>apps/data-plane-gateway/src/tunnel/session/tunnel-session-service.ts\<close>, which attaches and detaches
  the two ends of a tunnel at every registry and store that knows them, with \<open>tunnel-peer-notifier.ts\<close>.

  An asynchronous method is cut at its awaits: \<open>activation_\<dots>\<close> and \<open>detach_\<dots>\<close> are the pieces, in the order they run. An
  \<open>AttachedTunnelPeer\<close> is handed through; the calls of the callbacks the service is given, and the start and stop of the
  renewals of theory LeaseRenewal, are logged. \<open>ready\<close> gives the state of a socket.
\<close>

section \<open>Data\<close>

datatype close_cause =
    GatewayAttachFatalError
  | GatewayForwardingNotReady
  | GatewayHealthMissedPongs
  | GatewayMessageHandlerError
  | GatewayOwnerLeaseLost
  | GatewayPresenceDeadlineFailed
  | GatewayProtocolError
  | GatewayUnsupportedMessageType
  | PeerCloseFrame
  | TransportAbnormalClose
  | TransportError

record close_context =
  contextCause :: close_cause
  contextGatewayInitiated :: bool
  contextInitiatedAtMs :: "int option"
  contextReason :: string

record close_diagnostics =
  closeCause :: close_cause
  gatewayInitiatedClose :: bool
  closeInitiatedAtMs :: "int option"
  closeCauseReason :: string
  socketAgeMs :: int
  diagnosticsHealth :: "health_snapshot option"

record attached_peer =
  peer_relayTarget :: relay_target
  peer_openedAtMs :: "int option"
  peer_closeContext :: "close_context option"
  peer_health :: "monitor option"

datatype service_event = FatalErrorReported string | LeaseLostReported string | TransportUnhealthyReported string
  | RenewalStarted relay_target | RenewalStopped relay_target
  | PresenceStarted relay_target | PresenceStopped relay_target

record 'd tunnel_world =
  relayState :: relay_state
  sessionRegistry :: tunnel_session_registry
  closeContexts :: "(string, close_context) js_map"
  runtimeAttachments :: attachment_store
  presenceLeases :: presence_store
  forwardingNow :: forwarding_state
  deadlineState :: 'd
  serviceEvents :: "service_event list"

record 'd tunnel_service =
  serviceNodeId :: string
  pingInterval :: int
  pongTimeout :: int
  serviceDurations :: lifecycle_durations
  deadlineClient :: "(string, 'd) deadline_client"
  releasedPayload :: "client_stream_binding \<Rightarrow> string"
  disconnectedPayload :: "client_stream_binding \<Rightarrow> string"
  closePayload :: "client_stream_binding \<Rightarrow> string"

definition log_event :: "service_event \<Rightarrow> 'd tunnel_world \<Rightarrow> 'd tunnel_world" where
  "log_event e w = w\<lparr>serviceEvents := serviceEvents w @ [e]\<rparr>"

definition session_id :: "attached_peer \<Rightarrow> string" where
  "session_id p = target_sessionId (peer_relayTarget p)"

definition sandbox_id :: "attached_peer \<Rightarrow> string" where
  "sandbox_id p = target_sandboxInstanceId (peer_relayTarget p)"

section \<open>Why a socket was closed\<close>

definition known_context :: "attached_peer \<Rightarrow> 'd tunnel_world \<Rightarrow> close_context option" where
  "known_context p w = (case js_get (closeContexts w) (session_id p) of Some c \<Rightarrow> Some c | None \<Rightarrow> peer_closeContext p)"

definition recordBootstrapCloseContext ::
  "int \<Rightarrow> attached_peer \<Rightarrow> close_cause \<Rightarrow> bool \<Rightarrow> string \<Rightarrow> 'd tunnel_world \<Rightarrow> attached_peer \<times> 'd tunnel_world" where
  "recordBootstrapCloseContext now p cause gateway why w =
     (let c = (case known_context p w of Some existing \<Rightarrow> existing
        | None \<Rightarrow> \<lparr> contextCause = cause, contextGatewayInitiated = gateway, contextInitiatedAtMs = Some now, contextReason = why \<rparr>) in
      (p\<lparr>peer_closeContext := Some c\<rparr>, w\<lparr>closeContexts := js_set (session_id p) c (closeContexts w)\<rparr>))"

definition markBootstrapCloseInitiated ::
  "int \<Rightarrow> attached_peer \<Rightarrow> close_cause \<Rightarrow> string \<Rightarrow> 'd tunnel_world \<Rightarrow> attached_peer \<times> 'd tunnel_world" where
  "markBootstrapCloseInitiated now p cause why = recordBootstrapCloseContext now p cause True why"

text \<open>\<open>closeEvent\<close> is the code and the reason of the close, where the method is handed one.\<close>

definition bootstrapCloseDiagnostics ::
  "int \<Rightarrow> attached_peer \<Rightarrow> (int option \<times> string option) option \<Rightarrow> 'd tunnel_world \<Rightarrow> close_diagnostics" where
  "bootstrapCloseDiagnostics now p closeEvent w =
     (let context = known_context p w; health = map_option (HealthMonitor.getSnapshot now) (peer_health p);
          closeCode = Option.bind closeEvent fst;
          hasPeerCloseFrame = (context = None \<and> closeCode \<noteq> None \<and> closeCode \<noteq> Some 1005 \<and> closeCode \<noteq> Some 1006);
          peerCloseReason = (case Option.bind closeEvent snd of None \<Rightarrow> [] | Some why \<Rightarrow> js_trim why) in
      \<lparr> closeCause = (case context of Some c \<Rightarrow> contextCause c
          | None \<Rightarrow> if hasPeerCloseFrame then PeerCloseFrame
              else case health of Some h \<Rightarrow> if snapHealthy h then TransportAbnormalClose else GatewayHealthMissedPongs
                | None \<Rightarrow> TransportAbnormalClose),
        gatewayInitiatedClose = (case context of Some c \<Rightarrow> contextGatewayInitiated c | None \<Rightarrow> False),
        closeInitiatedAtMs = (case context of Some c \<Rightarrow> contextInitiatedAtMs c | None \<Rightarrow> None),
        closeCauseReason = (case context of Some c \<Rightarrow> contextReason c
          | None \<Rightarrow> if hasPeerCloseFrame
              then (if peerCloseReason = [] then ''Bootstrap websocket peer sent close frame.'' else peerCloseReason)
              else ''Bootstrap websocket closed without gateway cause.''),
        socketAgeMs = (case peer_openedAtMs p of None \<Rightarrow> 0 | Some opened \<Rightarrow> max 0 (now - opened)),
        diagnosticsHealth = health \<rparr>)"

section \<open>Notices to the peers\<close>

text \<open>\<open>Promise.all\<close> over the bindings: every message is sent, and one that fails makes the whole fail.\<close>

fun forward_all ::
  "(client_stream_binding \<Rightarrow> (gateway_error, relay_state, unit) comp) \<Rightarrow> client_stream_binding list \<Rightarrow> (gateway_error, relay_state, unit) comp" where
  "forward_all send [] s = (Inr (), s)"
| "forward_all send (b # bs) s = (case send b s of
     (Inr _, s1) \<Rightarrow> forward_all send bs s1
   | (Inl e, s1) \<Rightarrow> (Inl e, snd (forward_all send bs s1)))"

definition notifyConnectionPeerOfReleasedInteractiveStreams ::
  "string \<Rightarrow> (nat \<Rightarrow> int) \<Rightarrow> string \<Rightarrow> (client_stream_binding \<Rightarrow> string) \<Rightarrow> client_stream_binding list
     \<Rightarrow> (gateway_error, relay_state, unit) comp" where
  "notifyConnectionPeerOfReleasedInteractiveStreams nodeId ready i toPayload bs =
     forward_all (\<lambda>b. forwardPeerMessage nodeId ready i BootstrapSide (Text (toPayload b)) (Some (clientSessionId b))) bs"

definition notifyBootstrapPeerOfReleasedInteractiveStreams ::
  "string \<Rightarrow> (nat \<Rightarrow> int) \<Rightarrow> string \<Rightarrow> (client_stream_binding \<Rightarrow> string) \<Rightarrow> string option \<Rightarrow> client_stream_binding list
     \<Rightarrow> (gateway_error, relay_state, unit) comp" where
  "notifyBootstrapPeerOfReleasedInteractiveStreams nodeId ready i toPayload targetSession bs =
     forward_all (\<lambda>b. forwardPeerMessage nodeId ready i ConnectionSide (Text (toPayload b)) targetSession) bs"

definition on_relay :: "(gateway_error, relay_state, 'a) comp \<Rightarrow> 'd tunnel_world \<Rightarrow> (gateway_error + 'a) \<times> 'd tunnel_world" where
  "on_relay f w = (let (r, s) = f (relayState w) in (r, w\<lparr>relayState := s\<rparr>))"

definition on_deadlines :: "(string, 'd, unit) comp \<Rightarrow> 'd tunnel_world \<Rightarrow> (string + unit) \<times> 'd tunnel_world" where
  "on_deadlines f w = (let (r, d) = f (deadlineState w) in (r, w\<lparr>deadlineState := d\<rparr>))"

section \<open>Attaching a bootstrap socket\<close>

text \<open>\<open>recordBootstrapCloseContext\<close> followed by \<open>onFatalError\<close>.\<close>

definition report_fatal ::
  "int \<Rightarrow> attached_peer \<Rightarrow> close_cause \<Rightarrow> string \<Rightarrow> 'd tunnel_world \<Rightarrow> attached_peer \<times> 'd tunnel_world" where
  "report_fatal now p cause why w = (let (p1, w1) = recordBootstrapCloseContext now p cause True why w
     in (p1, log_event (FatalErrorReported why) w1))"

definition lease_input :: "'d tunnel_service \<Rightarrow> int \<Rightarrow> string \<Rightarrow> attached_peer \<Rightarrow> renewal_input" where
  "lease_input s attachedAt lease p = \<lparr> renewal_gatewayNodeId = serviceNodeId s, renewal_attachedAtMs = attachedAt,
     renewal_leaseId = lease, renewal_relaySessionId = session_id p, renewal_sandboxInstanceId = sandbox_id p \<rparr>"

text \<open>\<open>activateBootstrapAttachment\<close> up to the write of the attachment, which it waits for.\<close>

definition activation_begin ::
  "'d tunnel_service \<Rightarrow> int \<Rightarrow> int \<Rightarrow> string \<Rightarrow> bool \<Rightarrow> attached_peer \<Rightarrow> 'd tunnel_world \<Rightarrow> renewal_await option \<times> attached_peer \<times> 'd tunnel_world" where
  "activation_begin s now attachedAt lease isOpen p w =
     (if \<not> isOpen \<or> \<not> isCurrentPeer (peer_relayTarget p) (relayState w) then (None, p, w)
      else case refreshRuntimeAttachment (lease_input s attachedAt lease p) now (forwardingNow w) of
        None \<Rightarrow> (None, report_fatal now p GatewayForwardingNotReady
          ''Gateway forwarding is not ready for sandbox runtime attachment.'' w)
      | Some request \<Rightarrow> (Some request, p, w))"

definition activation_failed :: "int \<Rightarrow> attached_peer \<Rightarrow> 'd tunnel_world \<Rightarrow> attached_peer \<times> 'd tunnel_world" where
  "activation_failed now p w = report_fatal now p GatewayAttachFatalError
     ''Failed to activate sandbox runtime attachment for attached bootstrap tunnel.'' w"

definition deadline_for :: "string \<Rightarrow> attached_peer \<Rightarrow> string option \<Rightarrow> deadline_input" where
  "deadline_for lease p env = \<lparr> inputSandboxInstanceId = sandbox_id p, inputOwnerLeaseId = lease, inputTestEnvironmentId = env \<rparr>"

text \<open>The operations it and the health monitor enqueue at the deadline coordinator.\<close>

definition if_current ::
  "attached_peer \<Rightarrow> (string, 'd, unit) comp \<Rightarrow> 'd tunnel_world \<Rightarrow> (string + unit) \<times> 'd tunnel_world" where
  "if_current p f w = (if isCurrentPeer (peer_relayTarget p) (relayState w) then on_deadlines f w else (Inr (), w))"

definition activation_deadlines ::
  "'d tunnel_service \<Rightarrow> int \<Rightarrow> string \<Rightarrow> string option \<Rightarrow> attached_peer \<Rightarrow> 'd tunnel_world \<Rightarrow> (string + unit) \<times> 'd tunnel_world" where
  "activation_deadlines s now lease env p =
     if_current p (handleBootstrapAttach (deadlineClient s) (serviceDurations s) now (deadline_for lease p env))"

definition pong_missed ::
  "'d tunnel_service \<Rightarrow> string \<Rightarrow> string option \<Rightarrow> attached_peer \<Rightarrow> 'd tunnel_world \<Rightarrow> (string + unit) \<times> 'd tunnel_world" where
  "pong_missed s lease env p = if_current p (handleBootstrapDegraded (deadlineClient s) (deadline_for lease p env))"

definition pong_recovered ::
  "'d tunnel_service \<Rightarrow> string \<Rightarrow> string option \<Rightarrow> attached_peer \<Rightarrow> 'd tunnel_world \<Rightarrow> (string + unit) \<times> 'd tunnel_world" where
  "pong_recovered s lease env p = if_current p (handleBootstrapRecovered (deadlineClient s) (deadline_for lease p env))"

definition activation_end :: "attached_peer \<Rightarrow> 'd tunnel_world \<Rightarrow> 'd tunnel_world" where
  "activation_end p = log_event (RenewalStarted (peer_relayTarget p))"

definition renewal_lost :: "int \<Rightarrow> attached_peer \<Rightarrow> 'd tunnel_world \<Rightarrow> attached_peer \<times> 'd tunnel_world" where
  "renewal_lost now p w = (let (p1, w1) = recordBootstrapCloseContext now p GatewayOwnerLeaseLost True
       ''Sandbox active attachment was replaced.'' w
     in (p1, log_event (LeaseLostReported ''Sandbox active attachment was replaced.'') w1))"

definition renewal_refresh_failed :: "int \<Rightarrow> attached_peer \<Rightarrow> 'd tunnel_world \<Rightarrow> attached_peer \<times> 'd tunnel_world" where
  "renewal_refresh_failed now p w = report_fatal now p GatewayAttachFatalError ''Failed to refresh sandbox runtime attachment.'' w"

definition bootstrap_unhealthy :: "int \<Rightarrow> attached_peer \<Rightarrow> 'd tunnel_world \<Rightarrow> attached_peer \<times> 'd tunnel_world" where
  "bootstrap_unhealthy now p w = (let (p1, w1) = recordBootstrapCloseContext now p GatewayHealthMissedPongs True
       ''Sandbox bootstrap websocket stopped responding to ping.'' w
     in (p1, log_event (TransportUnhealthyReported ''Sandbox bootstrap websocket stopped responding to ping.'') w1))"

definition monitor_config :: "'d tunnel_service \<Rightarrow> int option \<Rightarrow> monitor_input" where
  "monitor_config s missed = \<lparr> pingIntervalMs = pingInterval s, pongTimeoutMs = pongTimeout s,
     inputMaxConsecutiveMissedPongs = missed \<rparr>"

text \<open>The two steps of \<open>attachBootstrapPeer\<close> that report what they fail with; \<open>has_raw\<close> says whether the socket can be watched.\<close>

definition start_health ::
  "'d tunnel_service \<Rightarrow> bool \<Rightarrow> int \<Rightarrow> attached_peer \<Rightarrow> 'd tunnel_world \<Rightarrow> attached_peer \<times> 'd tunnel_world" where
  "start_health s has_raw now p w =
     (case startWebSocketHealthMonitor has_raw (monitor_config s (Some BOOTSTRAP_WEBSOCKET_MAX_CONSECUTIVE_MISSED_PONGS)) now of
        Inl _ \<Rightarrow> report_fatal now p GatewayAttachFatalError ''Failed to initialize bootstrap websocket health checks.'' w
      | Inr m \<Rightarrow> (p\<lparr>peer_health := Some m\<rparr>, w))"

definition notify_released ::
  "'d tunnel_service \<Rightarrow> (nat \<Rightarrow> int) \<Rightarrow> int \<Rightarrow> client_stream_binding list \<Rightarrow> attached_peer \<Rightarrow> 'd tunnel_world \<Rightarrow> attached_peer \<times> 'd tunnel_world" where
  "notify_released s ready now bs p w =
     (case on_relay (notifyConnectionPeerOfReleasedInteractiveStreams (serviceNodeId s) ready (sandbox_id p) (releasedPayload s) bs) w of
        (Inr _, w1) \<Rightarrow> (p, w1)
      | (Inl _, w1) \<Rightarrow> report_fatal now p GatewayAttachFatalError
          ''Failed notifying connection peer about released interactive streams.'' w1)"

text \<open>\<open>probe\<close> stands for the function \<open>isAvailable\<close> that is stored.\<close>

definition attachBootstrapPeer ::
  "'d tunnel_service \<Rightarrow> (nat \<Rightarrow> int) \<Rightarrow> bool \<Rightarrow> int \<Rightarrow> string \<Rightarrow> nat \<Rightarrow> string \<Rightarrow> string \<Rightarrow> int option \<Rightarrow> nat \<Rightarrow> 'd tunnel_world
     \<Rightarrow> (gateway_error + (attached_peer \<times> renewal_await option)) \<times> 'd tunnel_world" where
  "attachBootstrapPeer s ready has_raw now i socket relaySessionId lease openedAt probe w =
     (case on_relay (attachPeer (serviceNodeId s) ready i BootstrapSide socket relaySessionId) w of
        (Inl e, w1) \<Rightarrow> (Inl e, w1)
      | (Inr t, w1) \<Rightarrow>
        (let (attached, g) = attachBootstrapSession t (sessionRegistry w1);
             p0 = \<lparr> peer_relayTarget = t, peer_openedAtMs = Some (case openedAt of None \<Rightarrow> now | Some a \<Rightarrow> a),
               peer_closeContext = None, peer_health = None \<rparr>;
             (p1, w2) = start_health s has_raw now p0 (w1\<lparr>sessionRegistry := g\<rparr>);
             (activation, p2, w3) = activation_begin s now now lease (ready socket = WebSocketOpen) p1 w2;
             (p3, w4) = notify_released s ready now (attach_releasedBindings attached) p2 w3 in
         (Inr (p3, activation), w4\<lparr>sessionRegistry :=
           setBootstrapSessionAvailability i (target_sessionId t) probe (sessionRegistry w4)\<rparr>)))"

section \<open>Detaching a bootstrap socket\<close>

definition forget_context :: "attached_peer \<Rightarrow> 'd tunnel_world \<Rightarrow> 'd tunnel_world" where
  "forget_context p w = w\<lparr>closeContexts := js_delete (session_id p) (closeContexts w)\<rparr>"

definition drop_relay_peer :: "'d tunnel_service \<Rightarrow> (nat \<Rightarrow> int) \<Rightarrow> attached_peer \<Rightarrow> 'd tunnel_world \<Rightarrow> 'd tunnel_world" where
  "drop_relay_peer s ready p w = w\<lparr>relayState := detachPeerWithOptions (serviceNodeId s) ready (peer_relayTarget p) False (relayState w)\<rparr>"

text \<open>The part before the first await; \<open>never\<close> is the probe that answers false. The result says whether the method goes on.\<close>

definition detach_begin ::
  "'d tunnel_service \<Rightarrow> (nat \<Rightarrow> int) \<Rightarrow> nat \<Rightarrow> attached_peer \<Rightarrow> 'd tunnel_world \<Rightarrow> bool \<times> attached_peer \<times> 'd tunnel_world" where
  "detach_begin s ready never p w =
     (let p1 = p\<lparr>peer_health := map_option handle_stop (peer_health p)\<rparr>;
          w1 = log_event (RenewalStopped (peer_relayTarget p)) w;
          w2 = w1\<lparr>sessionRegistry := setBootstrapSessionAvailability (sandbox_id p) (session_id p) never (sessionRegistry w1)\<rparr> in
      if isCurrentPeer (peer_relayTarget p) (relayState w2) then (True, p1, w2)
      else let w3 = drop_relay_peer s ready p w2 in
        (False, p1, forget_context p
          (w3\<lparr>sessionRegistry := clearBootstrapSessionAvailability (sandbox_id p) (session_id p) (sessionRegistry w3)\<rparr>)))"

text \<open>The operation it enqueues at the deadline coordinator. Where it throws, \<open>detachBootstrapPeer\<close> throws, and
\<open>detach_end\<close> is not reached.\<close>

definition detach_operation ::
  "'d tunnel_service \<Rightarrow> int \<Rightarrow> string \<Rightarrow> string option \<Rightarrow> attached_peer \<Rightarrow> 'd tunnel_world \<Rightarrow> (string + unit) \<times> 'd tunnel_world" where
  "detach_operation s now lease env p w =
     (if \<not> isCurrentPeer (peer_relayTarget p) (relayState w) then (Inr (), w)
      else let (previousAttachment, a1) = getAttachment (sandbox_id p) now (runtimeAttachments w);
               (cleared, a2) = clearAttachment now (sandbox_id p) lease a1;
               w1 = w\<lparr>runtimeAttachments := a2\<rparr> in
        case on_deadlines (handleBootstrapDisconnect (deadlineClient s) (serviceDurations s) now (deadline_for lease p env)) w1 of
          (Inl e, w2) \<Rightarrow> (Inl e, w2)
        | (Inr _, w2) \<Rightarrow> (Inr (), w2\<lparr>runtimeAttachments := snd (getAttachment (sandbox_id p) now (runtimeAttachments w2))\<rparr>))"

definition detach_end :: "'d tunnel_service \<Rightarrow> (nat \<Rightarrow> int) \<Rightarrow> attached_peer \<Rightarrow> 'd tunnel_world \<Rightarrow> 'd tunnel_world" where
  "detach_end s ready p w =
     (let (detached, g) = detachBootstrapSession (peer_relayTarget p) (sessionRegistry w);
          w1 = drop_relay_peer s ready p (w\<lparr>sessionRegistry := g\<rparr>);
          w2 = (case detached of None \<Rightarrow> w1
            | Some d \<Rightarrow> snd (on_relay (notifyConnectionPeerOfReleasedInteractiveStreams (serviceNodeId s) ready (sandbox_id p)
                (disconnectedPayload s) (detach_releasedBindings d)) w1)) in
      forget_context p w2)"

text \<open>The whole method, where nothing runs between its parts.\<close>

definition detachBootstrapPeer ::
  "'d tunnel_service \<Rightarrow> (nat \<Rightarrow> int) \<Rightarrow> nat \<Rightarrow> int \<Rightarrow> string \<Rightarrow> string option \<Rightarrow> attached_peer \<Rightarrow> 'd tunnel_world
     \<Rightarrow> (string + unit) \<times> 'd tunnel_world" where
  "detachBootstrapPeer s ready never now lease env p w =
     (case detach_begin s ready never p w of
        (False, _, w1) \<Rightarrow> (Inr (), w1)
      | (True, p1, w1) \<Rightarrow> (case detach_operation s now lease env p1 w1 of
          (Inl e, w2) \<Rightarrow> (Inl e, w2)
        | (Inr _, w2) \<Rightarrow> (Inr (), detach_end s ready p1 w2)))"


section \<open>Connections\<close>

definition closeCurrentBootstrapPeer ::
  "'d tunnel_service \<Rightarrow> (nat \<Rightarrow> int) \<Rightarrow> int \<Rightarrow> string \<Rightarrow> close_cause \<Rightarrow> string \<Rightarrow> 'd tunnel_world \<Rightarrow> (gateway_error + unit) \<times> 'd tunnel_world" where
  "closeCurrentBootstrapPeer s ready now i cause why w =
     (case coordinator_getBootstrapPeer i (relayState w) of
        None \<Rightarrow> (Inl (PlainError (''Expected current bootstrap peer for sandbox '' @ in_quotes i @ '' while closing the session.'')), w)
      | Some t \<Rightarrow>
          let w1 = (if js_has (closeContexts w) (target_sessionId t) then w
                else w\<lparr>closeContexts := js_set (target_sessionId t) \<lparr> contextCause = cause, contextGatewayInitiated = True,
                  contextInitiatedAtMs = Some now, contextReason = why \<rparr> (closeContexts w)\<rparr>) in
          on_relay (closePeer (serviceNodeId s) ready t 1011 why) w1)"

text \<open>\<open>onLeaseTouched\<close> and \<open>onTouchFailed\<close> of the presence renewal.\<close>

definition presence_touched ::
  "'d tunnel_service \<Rightarrow> int \<Rightarrow> string \<Rightarrow> string option \<Rightarrow> 'd tunnel_world \<Rightarrow> (string + unit) \<times> 'd tunnel_world" where
  "presence_touched s now i env w =
     (let (active, a) = getAttachment i now (runtimeAttachments w); w1 = w\<lparr>runtimeAttachments := a\<rparr> in
      case active of
        None \<Rightarrow> (Inr (), w1)
      | Some session \<Rightarrow> on_deadlines (touchIdleDeadline (deadlineClient s) (serviceDurations s) now
          \<lparr> inputSandboxInstanceId = i, inputOwnerLeaseId = active_ownerLeaseId session, inputTestEnvironmentId = env \<rparr>) w1)"

definition presence_failed ::
  "'d tunnel_service \<Rightarrow> (nat \<Rightarrow> int) \<Rightarrow> int \<Rightarrow> string \<Rightarrow> 'd tunnel_world \<Rightarrow> 'd tunnel_world" where
  "presence_failed s ready now i w =
     snd (closeCurrentBootstrapPeer s ready now i GatewayPresenceDeadlineFailed ''Failed to persist sandbox presence lease.'' w)"

definition connection_unhealthy :: "attached_peer \<Rightarrow> 'd tunnel_world \<Rightarrow> 'd tunnel_world" where
  "connection_unhealthy p w =
     log_event (TransportUnhealthyReported ''Sandbox connection websocket stopped responding to ping.'')
       (log_event (PresenceStopped (peer_relayTarget p)) w)"

definition attachConnectionPeer ::
  "'d tunnel_service \<Rightarrow> (nat \<Rightarrow> int) \<Rightarrow> bool \<Rightarrow> int \<Rightarrow> string \<Rightarrow> nat \<Rightarrow> string \<Rightarrow> 'd tunnel_world
     \<Rightarrow> (gateway_error + attached_peer) \<times> 'd tunnel_world" where
  "attachConnectionPeer s ready has_raw now i socket relaySessionId w =
     (case on_relay (attachPeer (serviceNodeId s) ready i ConnectionSide socket relaySessionId) w of
        (Inl e, w1) \<Rightarrow> (Inl e, w1)
      | (Inr t, w1) \<Rightarrow>
          let p = \<lparr> peer_relayTarget = t, peer_openedAtMs = None, peer_closeContext = None, peer_health = None \<rparr>;
              (p1, w2) = (case startWebSocketHealthMonitor has_raw (monitor_config s None) now of
                Inl _ \<Rightarrow> (p, log_event (FatalErrorReported ''Failed to initialize connection websocket health checks.'') w1)
              | Inr m \<Rightarrow> (p\<lparr>peer_health := Some m\<rparr>, w1)) in
          (Inr p1, log_event (PresenceStarted t) w2))"

text \<open>\<open>release\<close> is \<open>interactiveStreamRouter.releaseClientSessionStreams\<close> for the session of the connection. Errors of
the stores and of the router are logged.\<close>

definition detachConnectionPeer ::
  "'d tunnel_service \<Rightarrow> (nat \<Rightarrow> int) \<Rightarrow> int \<Rightarrow> (gateway_error, tunnel_session_registry, release_result) comp \<Rightarrow> attached_peer
     \<Rightarrow> 'd tunnel_world \<Rightarrow> 'd tunnel_world" where
  "detachConnectionPeer s ready now release p w =
     (let w1 = log_event (PresenceStopped (peer_relayTarget p)) w;
          w2 = w1\<lparr>presenceLeases := snd (releaseLease now (sandbox_id p) (session_id p) (presenceLeases w1))\<rparr>;
          (released, g) = release (sessionRegistry w2);
          w3 = w2\<lparr>sessionRegistry := g\<rparr>;
          w4 = (case released of Inl _ \<Rightarrow> w3
            | Inr r \<Rightarrow> snd (on_relay (notifyBootstrapPeerOfReleasedInteractiveStreams (serviceNodeId s) ready (sandbox_id p)
                (closePayload s) (map_option target_sessionId (releaseBootstrapTarget r)) (releasedBindings r)) w3)) in
      w4\<lparr>relayState := detachPeer (serviceNodeId s) ready (peer_relayTarget p) (relayState w4)\<rparr>)"

section \<open>The relay and the sessions agree\<close>

definition coherent :: "'d tunnel_world \<Rightarrow> bool" where
  "coherent w \<longleftrightarrow> wf_peers (peers (relayState w)) \<and> wf_registry (sessionRegistry w) \<and>
     (\<forall>i. getBootstrapPeer i (peers (relayState w)) = getBootstrapTarget i (sessionRegistry w))"

lemma forward_all_peers:
  "(\<And>b s. peers (snd (send b s)) = peers s) \<Longrightarrow> peers (snd (forward_all send bs s)) = peers s"
  by (induction bs arbitrary: s) (simp_all split: prod.split sum.split, metis snd_conv)

lemma forwardPeerMessage_peers [simp]: "peers (snd (forwardPeerMessage nodeId ready i side p x s)) = peers s"
  by (auto simp: forwardPeerMessage_def deliver_to_def comp_return_def split: option.split)

lemma notify_peers [simp]:
  "peers (snd (notifyConnectionPeerOfReleasedInteractiveStreams nodeId ready i toPayload bs s)) = peers s"
  "peers (snd (notifyBootstrapPeerOfReleasedInteractiveStreams nodeId ready i toPayload x bs s)) = peers s"
  by (simp_all add: notifyConnectionPeerOfReleasedInteractiveStreams_def notifyBootstrapPeerOfReleasedInteractiveStreams_def
      forward_all_peers)

lemma on_relay_simps [simp]:
  "relayState (snd (on_relay f w)) = snd (f (relayState w))" "sessionRegistry (snd (on_relay f w)) = sessionRegistry w"
  "runtimeAttachments (snd (on_relay f w)) = runtimeAttachments w" "deadlineState (snd (on_relay f w)) = deadlineState w"
  "closeContexts (snd (on_relay f w)) = closeContexts w" "fst (on_relay f w) = fst (f (relayState w))"
  "presenceLeases (snd (on_relay f w)) = presenceLeases w" "forwardingNow (snd (on_relay f w)) = forwardingNow w"
  by (simp_all add: on_relay_def split: prod.split)

lemma on_deadlines_simps [simp]:
  "relayState (snd (on_deadlines f w)) = relayState w" "sessionRegistry (snd (on_deadlines f w)) = sessionRegistry w"
  "runtimeAttachments (snd (on_deadlines f w)) = runtimeAttachments w" "closeContexts (snd (on_deadlines f w)) = closeContexts w"
  by (simp_all add: on_deadlines_def split: prod.split)

lemma availability_registry [simp]:
  "registry_state (setBootstrapSessionAvailability i x probe g) = registry_state g"
  "registry_state (clearBootstrapSessionAvailability i x g) = registry_state g"
  by (simp_all add: setBootstrapSessionAvailability_def clearBootstrapSessionAvailability_def)

lemma availability_target [simp]:
  "getBootstrapTarget j (setBootstrapSessionAvailability i x probe g) = getBootstrapTarget j g"
  "getBootstrapTarget j (clearBootstrapSessionAvailability i x g) = getBootstrapTarget j g"
  "wf_registry (setBootstrapSessionAvailability i x probe g) = wf_registry g"
  "wf_registry (clearBootstrapSessionAvailability i x g) = wf_registry g"
  by (simp_all add: getBootstrapTarget_def wf_registry_def)

definition same_routes :: "'d tunnel_world \<Rightarrow> 'd tunnel_world \<Rightarrow> bool" where
  "same_routes w w' \<longleftrightarrow> peers (relayState w') = peers (relayState w) \<and>
     registry_state (sessionRegistry w') = registry_state (sessionRegistry w)"

lemma same_routes_coherent: "same_routes w w' \<Longrightarrow> coherent w \<Longrightarrow> coherent w'"
  by (simp add: same_routes_def coherent_def getBootstrapTarget_def wf_registry_def)

lemma same_routes_trans: "same_routes w w' \<Longrightarrow> same_routes w' w'' \<Longrightarrow> same_routes w w''"
  by (simp add: same_routes_def)

lemma log_routes [simp]: "same_routes w (log_event e w)" "same_routes w (forget_context p w)"
  by (simp_all add: same_routes_def log_event_def forget_context_def)


lemma record_routes [simp]:
  "same_routes w (snd (recordBootstrapCloseContext now p cause gateway why w))"
  "same_routes w (snd (report_fatal now p cause why w))"
  by (simp_all add: recordBootstrapCloseContext_def report_fatal_def same_routes_def log_event_def Let_def split: prod.split)

lemma record_target [simp]:
  "peer_relayTarget (fst (recordBootstrapCloseContext now p cause gateway why w)) = peer_relayTarget p"
  "peer_relayTarget (fst (report_fatal now p cause why w)) = peer_relayTarget p"
  by (simp_all add: recordBootstrapCloseContext_def report_fatal_def Let_def split: prod.split)

lemma deadline_routes [simp]:
  "same_routes w (snd (if_current p f w))" "same_routes w (snd (on_deadlines f w))"
  by (simp_all add: if_current_def same_routes_def)

lemma registry_attach:
  "getBootstrapTarget i (snd (attachBootstrapSession t g)) = (if i = target_sandboxInstanceId t then Some t else getBootstrapTarget i g)"
  by (simp add: attachBootstrapSession_def on_adapter_def getBootstrapTarget_def adapter.get_attach split: prod.split)
    (metis adapter.get_attach snd_conv)

lemma registry_detach:
  "getBootstrapTarget i (snd (detachBootstrapSession t g)) =
     (if getBootstrapTarget (target_sandboxInstanceId t) g = Some t \<and> i = target_sandboxInstanceId t then None
      else getBootstrapTarget i g)"
  using adapter.get_detach [of i t "registry_state g"]
  by (auto simp: detachBootstrapSession_def on_adapter_def getBootstrapTarget_def case_prod_beta Let_def
      clearBootstrapSessionAvailability_def)

lemma relay_attach_bootstrap:
  assumes "attachPeer nodeId ready i BootstrapSide socket x s = (r, s')"
  shows "r = Inr \<lparr> target_sandboxInstanceId = i, target_side = BootstrapSide, target_nodeId = nodeId, target_sessionId = x \<rparr>"
    and "peers s' = snd (setBootstrapPeer \<lparr> target_sandboxInstanceId = i, target_side = BootstrapSide, target_nodeId = nodeId,
      target_sessionId = x \<rparr> (peers s))"
  using assms by (auto simp: attachPeer_def comp_bind_def registerLocalPeer_def Let_def ignore_errors_def
      split: prod.splits option.splits)

lemma relay_attach_connection:
  assumes "attachPeer nodeId ready i ConnectionSide socket x s = (r, s')"
  shows "r = Inr \<lparr> target_sandboxInstanceId = i, target_side = ConnectionSide, target_nodeId = nodeId, target_sessionId = x \<rparr>"
    and "peers s' = snd (setSessionPeer \<lparr> target_sandboxInstanceId = i, target_side = ConnectionSide, target_nodeId = nodeId,
      target_sessionId = x \<rparr> (peers s))"
  using assms by (auto simp: attachPeer_def comp_bind_def registerLocalPeer_def Let_def ignore_errors_def
      split: prod.splits option.splits)

lemma detach_peers: "peers (detachPeerWithOptions nodeId ready t notify s) = snd (removePeer t (peers s))"
  by (auto simp: detachPeerWithOptions_def unregisterLocalPeer_def Let_def split: prod.splits)

lemma remove_bootstrap:
  assumes "wf_peers p" "plain_id (target_sandboxInstanceId t)" "target_side t = BootstrapSide"
  shows "getBootstrapPeer i (snd (removePeer t p)) =
    (if getBootstrapPeer (target_sandboxInstanceId t) p = Some t \<and> i = target_sandboxInstanceId t then None else getBootstrapPeer i p)"
proof (cases "fst (removePeer t p)")
  case True
  then show ?thesis using removePeer_current [OF assms(1,2)] assms(3)
    by (auto simp: removePeer_def Let_def getBootstrapPeer_def js_get_delete split: option.splits if_splits)
next
  case False
  moreover have "snd (removePeer t p) = p" using False by (auto simp: removePeer_def Let_def split: option.splits if_splits)
  ultimately show ?thesis using removePeer_current [OF assms(1,2)] assms(3) by auto
qed

lemma remove_session: "target_side t \<noteq> BootstrapSide \<Longrightarrow> getBootstrapPeer i (snd (removePeer t p)) = getBootstrapPeer i p"
  by (auto simp: removePeer_def Let_def getBootstrapPeer_def split: option.splits)

definition bootstrap_peer :: "attached_peer \<Rightarrow> bool" where
  "bootstrap_peer p \<longleftrightarrow> target_side (peer_relayTarget p) = BootstrapSide \<and> plain_id (sandbox_id p)"

lemma not_current_remove:
  assumes "coherent w" "bootstrap_peer p" "\<not> isCurrentPeer (peer_relayTarget p) (relayState w)"
  shows "snd (removePeer (peer_relayTarget p) (peers (relayState w))) = peers (relayState w)"
proof -
  have "\<not> fst (removePeer (peer_relayTarget p) (peers (relayState w)))"
    using removePeer_current [of "peers (relayState w)" "peer_relayTarget p"] assms
    by (auto simp: coherent_def bootstrap_peer_def sandbox_id_def isCurrentPeer_def split: option.splits)
  then show ?thesis by (auto simp: removePeer_def Let_def split: option.splits if_splits)
qed

lemma detach_begin_routes:
  assumes "coherent w" "bootstrap_peer p"
  shows "same_routes w (snd (snd (detach_begin s ready never p w)))"
  using not_current_remove [OF assms]
  by (simp add: detach_begin_def Let_def same_routes_def log_event_def drop_relay_peer_def forget_context_def detach_peers)

lemma detach_operation_routes: "same_routes w (snd (detach_operation s now lease env p w))"
  by (auto simp: detach_operation_def Let_def same_routes_def case_prod_beta on_deadlines_def split: sum.splits)

lemma detach_end_coherent:
  assumes "coherent w" "bootstrap_peer p"
  shows "coherent (detach_end s ready p w)"
proof -
  let ?t = "peer_relayTarget p"
  have p: "peers (relayState (detach_end s ready p w)) = snd (removePeer ?t (peers (relayState w)))"
    by (simp add: detach_end_def Let_def case_prod_beta forget_context_def drop_relay_peer_def detach_peers split: option.splits)
  have g: "sessionRegistry (detach_end s ready p w) = snd (detachBootstrapSession ?t (sessionRegistry w))"
    by (simp add: detach_end_def Let_def case_prod_beta forget_context_def drop_relay_peer_def split: option.splits)
  have wf: "wf_peers (peers (relayState w))" "wf_registry (sessionRegistry w)" using assms(1) by (simp_all add: coherent_def)
  show ?thesis
    using assms wf wf_removePeer [OF wf(1)] wf_registry_ops(2) [OF wf(2)]
    by (simp add: coherent_def p g remove_bootstrap [OF wf(1)] registry_detach bootstrap_peer_def sandbox_id_def)
qed


lemma activation_begin_routes: "same_routes w (snd (snd (activation_begin s now attachedAt lease isOpen p w)))"
  by (auto simp: activation_begin_def same_routes_def record_routes [unfolded same_routes_def] split: option.split)

lemma start_health_routes: "same_routes w (snd (start_health s has_raw now p w))"
  by (simp add: start_health_def split: sum.split) (simp add: same_routes_def)

lemma notify_released_routes: "same_routes w (snd (notify_released s ready now bs p w))"
proof -
  let ?n = "on_relay (notifyConnectionPeerOfReleasedInteractiveStreams (serviceNodeId s) ready (sandbox_id p) (releasedPayload s) bs) w"
  have told: "same_routes w (snd ?n)" by (simp add: same_routes_def)
  show ?thesis
  proof (cases "fst ?n")
    case (Inl e)
    then show ?thesis using same_routes_trans [OF told record_routes(2)]
      by (cases ?n) (simp add: notify_released_def)
  next
    case (Inr u)
    then show ?thesis using told by (cases ?n) (simp add: notify_released_def)
  qed
qed

lemma attach_routes:
  assumes "attachBootstrapPeer s ready has_raw now i socket x lease opened probe w = (r, w')"
  defines "t \<equiv> \<lparr> target_sandboxInstanceId = i, target_side = BootstrapSide, target_nodeId = serviceNodeId s, target_sessionId = x \<rparr>"
  shows "peers (relayState w') = snd (setBootstrapPeer t (peers (relayState w)))"
    and "registry_state (sessionRegistry w') = registry_state (snd (attachBootstrapSession t (sessionRegistry w)))"
proof -
  obtain r1 rel where a: "attachPeer (serviceNodeId s) ready i BootstrapSide socket x (relayState w) = (r1, rel)" by fastforce
  note relay = relay_attach_bootstrap [OF a, folded t_def]
  obtain attached g where g: "attachBootstrapSession t (sessionRegistry w) = (attached, g)" by fastforce
  define w1 where "w1 = w\<lparr>relayState := rel, sessionRegistry := g\<rparr>"
  define p0 where "p0 = \<lparr> peer_relayTarget = t, peer_openedAtMs = Some (case opened of None \<Rightarrow> now | Some a \<Rightarrow> a),
    peer_closeContext = None, peer_health = None \<rparr>"
  obtain p1 w2 where 1: "start_health s has_raw now p0 w1 = (p1, w2)" by fastforce
  obtain activation p2 w3 where 2: "activation_begin s now now lease (ready socket = WebSocketOpen) p1 w2 = (activation, p2, w3)"
    using prod_cases3 by blast
  obtain p3 w4 where 3: "notify_released s ready now (attach_releasedBindings attached) p2 w3 = (p3, w4)" by fastforce
  have "same_routes w1 w4"
    using same_routes_trans [OF same_routes_trans [OF start_health_routes activation_begin_routes] notify_released_routes]
      1 2 3 by (metis snd_conv)
  moreover have "w' = w4\<lparr>sessionRegistry := setBootstrapSessionAvailability i (target_sessionId t) probe (sessionRegistry w4)\<rparr>"
    using assms(1) relay(1) a g 1 2 3
    by (simp add: attachBootstrapPeer_def on_relay_def p0_def w1_def)
  ultimately show "peers (relayState w') = snd (setBootstrapPeer t (peers (relayState w)))"
    and "registry_state (sessionRegistry w') = registry_state (snd (attachBootstrapSession t (sessionRegistry w)))"
    by (simp_all add: same_routes_def w1_def relay(2) g)
qed

lemma attach_coherent:
  assumes "coherent w" "attachBootstrapPeer s ready has_raw now i socket x lease opened probe w = (r, w')"
  shows "coherent w'"
proof -
  let ?t = "\<lparr> target_sandboxInstanceId = i, target_side = BootstrapSide, target_nodeId = serviceNodeId s, target_sessionId = x \<rparr>"
  note routes = attach_routes [OF assms(2)]
  have wf: "wf_peers (peers (relayState w))" "wf_registry (sessionRegistry w)" using assms(1) by (simp_all add: coherent_def)
  have "getBootstrapTarget j (sessionRegistry w') = getBootstrapTarget j (snd (attachBootstrapSession ?t (sessionRegistry w)))" for j
    by (simp add: getBootstrapTarget_def routes(2))
  moreover have "wf_registry (sessionRegistry w')"
    using wf_registry_ops(1) [OF wf(2), of ?t] by (simp add: wf_registry_def routes(2))
  moreover have "wf_peers (peers (relayState w'))" unfolding routes(1) using wf(1) by (rule wf_setBootstrapPeer) simp
  moreover have "getBootstrapPeer j (peers (relayState w')) = (if j = i then Some ?t else getBootstrapPeer j (peers (relayState w)))" for j
    unfolding routes(1) by (simp add: getBootstrapPeer_def setBootstrapPeer_def Let_def js_get_set)
  ultimately show ?thesis using assms(1) by (simp add: coherent_def registry_attach)
qed


lemma attach_connection_coherent:
  assumes "coherent w" "plain_id i"
  shows "coherent (snd (attachConnectionPeer s ready has_raw now i socket x w))"
proof -
  obtain r1 rel where a: "attachPeer (serviceNodeId s) ready i ConnectionSide socket x (relayState w) = (r1, rel)" by fastforce
  note relay = relay_attach_connection [OF a]
  let ?t = "\<lparr> target_sandboxInstanceId = i, target_side = ConnectionSide, target_nodeId = serviceNodeId s, target_sessionId = x \<rparr>"
  have "peers (relayState (snd (attachConnectionPeer s ready has_raw now i socket x w))) = snd (setSessionPeer ?t (peers (relayState w)))"
    "sessionRegistry (snd (attachConnectionPeer s ready has_raw now i socket x w)) = sessionRegistry w"
    using relay a by (simp_all add: attachConnectionPeer_def on_relay_def Let_def log_event_def split: sum.split)
  moreover have "wf_peers (snd (setSessionPeer ?t (peers (relayState w))))"
    using assms wf_setSessionPeer [of "peers (relayState w)" ?t] by (simp add: coherent_def)
  ultimately show ?thesis using assms(1)
    by (simp add: coherent_def getBootstrapPeer_def setSessionPeer_def Let_def)
qed

lemma detach_connection_coherent:
  assumes "coherent w" "target_side (peer_relayTarget p) = ConnectionSide"
    and "wf_registry (snd (release (sessionRegistry w)))"
    and "\<And>i. getBootstrapTarget i (snd (release (sessionRegistry w))) = getBootstrapTarget i (sessionRegistry w)"
  shows "coherent (detachConnectionPeer s ready now release p w)"
proof -
  have "peers (relayState (detachConnectionPeer s ready now release p w)) = snd (removePeer (peer_relayTarget p) (peers (relayState w)))"
    "sessionRegistry (detachConnectionPeer s ready now release p w) = snd (release (sessionRegistry w))"
    by (auto simp: detachConnectionPeer_def Let_def case_prod_beta detachPeer_def detach_peers log_event_def split: sum.split)
  moreover have "wf_peers (snd (removePeer (peer_relayTarget p) (peers (relayState w))))"
    using assms(1) by (simp add: coherent_def wf_removePeer)
  ultimately show ?thesis using assms by (simp add: coherent_def remove_session)
qed

text \<open>The calls of the service and the parts of its methods, in any order and for any peers; \<open>streams\<close> stands for what
others do to the stores, the deadlines and the streams of the sessions.\<close>

inductive service_step :: "'d tunnel_service \<Rightarrow> 'd tunnel_world \<Rightarrow> 'd tunnel_world \<Rightarrow> bool" for s :: "'d tunnel_service" where
  attaches_bootstrap: "attachBootstrapPeer s ready has_raw now i socket x lease opened probe w = (r, w') \<Longrightarrow> service_step s w w'"
| begins_detach: "bootstrap_peer p \<Longrightarrow> detach_begin s ready never p w = (going, p', w') \<Longrightarrow> service_step s w w'"
| runs_operation: "detach_operation s now lease env p w = (r, w') \<Longrightarrow> service_step s w w'"
| ends_detach: "bootstrap_peer p \<Longrightarrow> service_step s w (detach_end s ready p w)"
| attaches_connection: "plain_id i \<Longrightarrow> attachConnectionPeer s ready has_raw now i socket x w = (r', w') \<Longrightarrow> service_step s w w'"
| detaches_connection: "target_side (peer_relayTarget p) = ConnectionSide \<Longrightarrow>
    release = (\<lambda>g. let (bs, g') = releaseClientSessionBindings (sandbox_id p) (session_id p) g in
      (Inr \<lparr> releaseBootstrapTarget = getBootstrapTarget (sandbox_id p) g, releasedBindings = bs \<rparr>, g')) \<Longrightarrow>
    service_step s w (detachConnectionPeer s ready now release p w)"
| closes_bootstrap: "service_step s w (presence_failed s ready now i w)"
| streams: "peers (relayState w') = peers (relayState w) \<Longrightarrow> wf_registry (sessionRegistry w') \<Longrightarrow>
    (\<And>i. getBootstrapTarget i (sessionRegistry w') = getBootstrapTarget i (sessionRegistry w)) \<Longrightarrow> service_step s w w'"

inductive service_run :: "'d tunnel_service \<Rightarrow> 'd tunnel_world \<Rightarrow> 'd tunnel_world \<Rightarrow> bool" for s :: "'d tunnel_service" and w0 where
  service_started: "service_run s w0 w0"
| service_goes_on: "service_run s w0 w \<Longrightarrow> service_step s w w' \<Longrightarrow> service_run s w0 w'"

lemma release_target:
  "getBootstrapTarget i (snd (releaseClientSessionBindings j x g)) = getBootstrapTarget i g"
  using session_op_target(5)
  by (auto simp: releaseClientSessionBindings_def on_adapter_def adapter_releaseClientSessionBindings_def case_prod_beta Let_def
      getBootstrapTarget_def adapter_getBootstrapTarget_def put_session_def js_get_set split: option.split)

lemma presence_failed_routes: "same_routes w (presence_failed s ready now i w)"
  by (auto simp: presence_failed_def closeCurrentBootstrapPeer_def Let_def same_routes_def closePeer_def split: option.split)

lemma service_step_coherent: "service_step s w w' \<Longrightarrow> coherent w \<Longrightarrow> coherent w'"
proof (induction rule: service_step.induct)
  case (attaches_bootstrap ready has_raw now i socket x lease opened probe w r w')
  then show ?case using attach_coherent by blast
next
  case (begins_detach p ready never w going p' w')
  then show ?case using detach_begin_routes [of w p s ready never] same_routes_coherent [of w w'] by simp
next
  case (runs_operation now lease env p w r w')
  then show ?case using detach_operation_routes [of w s now lease env p] same_routes_coherent [of w w'] by simp
next
  case (ends_detach p w ready)
  then show ?case by (simp add: detach_end_coherent)
next
  case (attaches_connection i ready has_raw now socket x w r' w')
  then show ?case using attach_connection_coherent [of w i s ready has_raw now socket x] by simp
next
  case (detaches_connection p release w ready now)
  then show ?case using wf_registry_ops(7) [of "sessionRegistry w"]
    by (intro detach_connection_coherent) (simp_all add: release_target coherent_def case_prod_beta Let_def)
next
  case (closes_bootstrap w ready now i)
  then show ?case using presence_failed_routes same_routes_coherent by blast
next
  case (streams w' w)
  then show ?case by (simp add: coherent_def)
qed

text \<open>C8: However attaching and detaching sockets interleave, with the awaits of their methods anywhere between, the relay's
peers and the registry's sessions name the same bootstrap peer for every sandbox.\<close>

theorem relay_and_sessions_agree:
  assumes "service_run s w0 w" "coherent w0"
  shows "coordinator_getBootstrapPeer i (relayState w) = getBootstrapTarget i (sessionRegistry w)"
proof -
  have "coherent w" using assms by (induction rule: service_run.induct) (simp_all add: service_step_coherent)
  then show ?thesis by (simp add: coherent_def coordinator_getBootstrapPeer_def)
qed


lemma detach_quiet:
  "detachPeerWithOptions nodeId ready t False s = (unregisterLocalPeer nodeId t s)\<lparr>peers := snd (removePeer t (peers s))\<rparr>"
  by (simp add: detachPeerWithOptions_def Let_def unregisterLocalPeer_def split: prod.split)

text \<open>The cause that is recorded first is the one that is diagnosed.\<close>

lemma first_cause_wins:
  assumes "js_get (closeContexts w) (session_id p) = Some c"
  shows "js_get (closeContexts (snd (recordBootstrapCloseContext now q cause gateway why w))) (session_id p) = Some c"
    and "closeCause (bootstrapCloseDiagnostics later p closeEvent w) = contextCause c"
  using assms by (auto simp: recordBootstrapCloseContext_def known_context_def Let_def js_get_set bootstrapCloseDiagnostics_def
      split: option.split)

text \<open>C28: A bootstrap socket that another one has replaced leaves its successor alone when it is detached at last: the peers,
the sessions with their streams, the attachment and the deadlines stay as they are, nobody is sent anything, and of
what is kept per socket only its own entries go.\<close>

theorem stale_detach_leaves_successor:
  assumes "coherent w" "bootstrap_peer p" "\<not> isCurrentPeer (peer_relayTarget p) (relayState w)"
    and "detachBootstrapPeer s ready never now lease env p w = (r, w')"
  shows "r = Inr () \<and> peers (relayState w') = peers (relayState w) \<and> socketLog (relayState w') = socketLog (relayState w) \<and>
    registry_state (sessionRegistry w') = registry_state (sessionRegistry w) \<and> runtimeAttachments w' = runtimeAttachments w \<and>
    deadlineState w' = deadlineState w \<and> closeContexts w' = js_delete (session_id p) (closeContexts w) \<and>
    (createPeerKey u \<noteq> createPeerKey (peer_relayTarget p) \<longrightarrow>
      js_get (socketsByPeerKey (relayState w')) (createPeerKey u) = js_get (socketsByPeerKey (relayState w)) (createPeerKey u))"
proof -
  show ?thesis using assms(3,4) not_current_remove [OF assms(1-3)]
    by (simp add: detachBootstrapPeer_def detach_begin_def Let_def log_event_def drop_relay_peer_def forget_context_def detach_quiet)
      (auto simp: unregisterLocalPeer_def js_get_delete)
qed

lemma cleared_attachment:
  "fst (getAttachment i now (snd (getAttachment i now (snd (clearAttachment now i lease store))))) = Some a \<Longrightarrow> active_ownerLeaseId a \<noteq> lease"
  by (auto simp: clearAttachment_def getAttachment_def js_get_delete split: option.splits if_splits)

lemma operation_of_current:
  assumes "isCurrentPeer (peer_relayTarget p) (relayState w)" "detach_operation s now lease env p w = (r, w')"
  shows "isl r \<longleftrightarrow> isl (fst (handleBootstrapDisconnect (deadlineClient s) (serviceDurations s) now (deadline_for lease p env) (deadlineState w)))"
    and "relayState w' = relayState w" "sessionRegistry w' = sessionRegistry w"
    and "\<not> isl r \<Longrightarrow> fst (getAttachment (sandbox_id p) now (runtimeAttachments w')) = Some a \<Longrightarrow> active_ownerLeaseId a \<noteq> lease"
proof -
  define store where "store = snd (clearAttachment now (sandbox_id p) lease (snd (getAttachment (sandbox_id p) now (runtimeAttachments w))))"
  define told where "told = on_deadlines (handleBootstrapDisconnect (deadlineClient s) (serviceDurations s) now (deadline_for lease p env))
    (w\<lparr>runtimeAttachments := store\<rparr>)"
  have told: "fst told = fst (handleBootstrapDisconnect (deadlineClient s) (serviceDurations s) now (deadline_for lease p env) (deadlineState w))"
      "relayState (snd told) = relayState w" "sessionRegistry (snd told) = sessionRegistry w" "runtimeAttachments (snd told) = store"
    by (simp_all add: told_def) (simp add: on_deadlines_def split: prod.split)
  have op: "detach_operation s now lease env p w = (case fst told of Inl e \<Rightarrow> (Inl e, snd told)
      | Inr _ \<Rightarrow> (Inr (), (snd told)\<lparr>runtimeAttachments := snd (getAttachment (sandbox_id p) now store)\<rparr>))"
    using assms(1) told(4) by (cases told)
      (simp add: detach_operation_def Let_def case_prod_beta store_def [symmetric] told_def [symmetric] split: sum.split)
  show "isl r \<longleftrightarrow> isl (fst (handleBootstrapDisconnect (deadlineClient s) (serviceDurations s) now (deadline_for lease p env) (deadlineState w)))"
    and "relayState w' = relayState w" "sessionRegistry w' = sessionRegistry w"
    using assms(2) op told by (auto split: sum.splits)
  show "\<not> isl r \<Longrightarrow> fst (getAttachment (sandbox_id p) now (runtimeAttachments w')) = Some a \<Longrightarrow> active_ownerLeaseId a \<noteq> lease"
  proof (cases "fst told")
    case (Inl e)
    assume r: "\<not> isl r"
    have "r = Inl e" using assms(2) op Inl by simp
    then show ?thesis using r by simp
  next
    case (Inr u)
    assume a: "fst (getAttachment (sandbox_id p) now (runtimeAttachments w')) = Some a"
    have "runtimeAttachments w' = snd (getAttachment (sandbox_id p) now store)" using assms(2) op Inr by auto
    then show ?thesis using cleared_attachment [of "sandbox_id p" now lease] a unfolding store_def by simp
  qed
qed

text \<open>Detaching the current bootstrap socket takes it off everywhere, the relay, the sessions and the attachment store, if
the deadline service takes the disconnect. If it does not, the method throws before it takes anything off but the
attachment: the peer stays current, its session keeps its streams, and no client is told.\<close>

theorem detach_depends_on_deadlines:
  assumes "coherent w" "bootstrap_peer p" "isCurrentPeer (peer_relayTarget p) (relayState w)"
    and "detachBootstrapPeer s ready never now lease env p w = (r, w')"
  shows "(case r of
      Inr _ \<Rightarrow> getBootstrapTarget (sandbox_id p) (sessionRegistry w') = None \<and>
        coordinator_getBootstrapPeer (sandbox_id p) (relayState w') = None \<and>
        (case fst (getAttachment (sandbox_id p) now (runtimeAttachments w')) of None \<Rightarrow> True | Some a \<Rightarrow> active_ownerLeaseId a \<noteq> lease)
    | Inl _ \<Rightarrow> isCurrentPeer (peer_relayTarget p) (relayState w') \<and> socketLog (relayState w') = socketLog (relayState w) \<and>
        registry_state (sessionRegistry w') = registry_state (sessionRegistry w)) \<and>
    (isl r \<longleftrightarrow> isl (fst (handleBootstrapDisconnect (deadlineClient s) (serviceDurations s) now (deadline_for lease p env) (deadlineState w))))"
proof -
  let ?t = "peer_relayTarget p" and ?i = "sandbox_id p"
  define p1 where "p1 = p\<lparr>peer_health := map_option handle_stop (peer_health p)\<rparr>"
  obtain w1 where b: "detach_begin s ready never p w = (True, p1, w1)" "same_routes w w1" "deadlineState w1 = deadlineState w"
      "socketLog (relayState w1) = socketLog (relayState w)" "isCurrentPeer ?t (relayState w1)" "coherent w1"
    using assms(3) same_routes_coherent [OF detach_begin_routes [OF assms(1,2)] assms(1), of s ready never]
      detach_begin_routes [OF assms(1,2), of s ready never]
    by (auto simp: detach_begin_def Let_def p1_def log_event_def)
  have p1: "peer_relayTarget p1 = ?t" "sandbox_id p1 = ?i" "deadline_for l p1 env = deadline_for l p env" for l
    by (simp_all add: p1_def sandbox_id_def deadline_for_def)
  obtain r2 w2 where o: "detach_operation s now lease env p1 w1 = (r2, w2)" by fastforce
  note op = operation_of_current [of p1 w1, OF _ o, unfolded p1, OF b(5)]
  have same: "peers (relayState w2) = peers (relayState w)" "registry_state (sessionRegistry w2) = registry_state (sessionRegistry w)"
    using b(2) op(2,3) by (simp_all add: same_routes_def)
  have whole: "(r, w') = (case r2 of Inl e \<Rightarrow> (Inl e, w2) | Inr _ \<Rightarrow> (Inr (), detach_end s ready p1 w2))"
    using assms(4) b(1) o by (simp add: detachBootstrapPeer_def split: sum.splits)
  show ?thesis
  proof (cases r2)
    case (Inl e)
    then have "r = Inl e" "w' = w2" using whole by simp_all
    moreover have "isCurrentPeer ?t (relayState w2)" using b(5) op(2) by simp
    ultimately show ?thesis using op(1,2) Inl b(3,4) same by simp
  next
    case (Inr u)
    then have r: "r = Inr ()" "w' = detach_end s ready p1 w2" using whole by simp_all
    have coh: "coherent w2" using b(6) op(2,3) by (simp add: coherent_def)
    have current: "getBootstrapTarget ?i (sessionRegistry w2) = Some ?t"
      using coh assms(2,3) same(1)
      by (auto simp: coherent_def isCurrentPeer_def bootstrap_peer_def sandbox_id_def split: option.splits)
    have g: "sessionRegistry w' = snd (detachBootstrapSession ?t (sessionRegistry w2))"
      by (simp add: r(2) detach_end_def Let_def case_prod_beta forget_context_def drop_relay_peer_def p1 split: option.splits)
    have att: "runtimeAttachments w' = runtimeAttachments w2"
      by (simp add: r(2) detach_end_def Let_def case_prod_beta forget_context_def drop_relay_peer_def split: option.splits)
    have none: "getBootstrapTarget ?i (sessionRegistry w') = None"
      using current by (simp add: g registry_detach sandbox_id_def)
    have "coherent w'" unfolding r(2)
      using detach_end_coherent [OF coh, of p1] assms(2) by (simp add: bootstrap_peer_def p1)
    then have "coordinator_getBootstrapPeer ?i (relayState w') = None"
      using none by (simp add: coherent_def coordinator_getBootstrapPeer_def)
    then show ?thesis using r(1) none op(1,4) Inr b(3) att by (auto split: option.split)
  qed
qed


section \<open>Examples\<close>

text \<open>A deadline service that fails once it has taken two requests, and a bootstrap socket that another one replaces.\<close>

definition sample_service :: "deadline_request list tunnel_service" where
  "sample_service = \<lparr> serviceNodeId = ''node'', pingInterval = 10000, pongTimeout = 10000,
     serviceDurations = \<lparr> idleTimeoutMs = 300000, bootstrapDisconnectGraceMs = 60000 \<rparr>, deadlineClient = logging_client 2,
     releasedPayload = (\<lambda>_. ''reset''), disconnectedPayload = (\<lambda>_. ''gone''), closePayload = (\<lambda>_. ''close'') \<rparr>"

definition sample_tunnel_world :: "deadline_request list tunnel_world" where
  "sample_tunnel_world = \<lparr> relayState = no_peers, sessionRegistry = new_registry None, closeContexts = [], runtimeAttachments = [],
     presenceLeases = [], forwardingNow = initial_readiness 0, deadlineState = [], serviceEvents = [] \<rparr>"

definition sample_attach :: "string \<Rightarrow> deadline_request list tunnel_world \<Rightarrow> deadline_request list tunnel_world" where
  "sample_attach x w = snd (attachBootstrapPeer sample_service (\<lambda>_. 1) True 0 ''sbi'' 1 x x None 7 w)"

definition sample_tunnel_peer :: "string \<Rightarrow> attached_peer" where
  "sample_tunnel_peer x = \<lparr> peer_relayTarget = sample_peer BootstrapSide x, peer_openedAtMs = None, peer_closeContext = None,
     peer_health = None \<rparr>"

lemma coherent_sample: "coherent sample_tunnel_world"
proof -
  have "getBootstrapPeer i (peers no_peers) = getBootstrapTarget i (new_registry None)" for i
    by (simp add: getBootstrapTarget_def new_registry_def adapter_getBootstrapTarget_def getBootstrapPeer_def no_peers_def)
  then show ?thesis by (simp add: coherent_def sample_tunnel_world_def wf_no_peers wf_new_registry)
qed

lemma coherent_sample_attach: "coherent w \<Longrightarrow> coherent (sample_attach x w)"
  unfolding sample_attach_def using attach_coherent prod.collapse by metis

lemma sample_tunnel_peer_bootstrap: "bootstrap_peer (sample_tunnel_peer x)"
  by (simp add: bootstrap_peer_def sandbox_id_def sample_tunnel_peer_def sample_peer_def plain_id_def)

lemma sample_current:
  "isCurrentPeer (peer_relayTarget (sample_tunnel_peer ''a'')) (relayState (sample_attach ''a'' sample_tunnel_world))"
  "\<not> isCurrentPeer (peer_relayTarget (sample_tunnel_peer ''a'')) (relayState (sample_attach ''b'' (sample_attach ''a'' sample_tunnel_world)))"
  by code_simp+

lemma relay_and_sessions_agree_witness:
  "coordinator_getBootstrapPeer ''sbi'' (relayState (sample_attach ''b'' (sample_attach ''a'' sample_tunnel_world))) =
     getBootstrapTarget ''sbi'' (sessionRegistry (sample_attach ''b'' (sample_attach ''a'' sample_tunnel_world)))"
proof -
  have step: "service_step sample_service w (sample_attach x w)" for x w
    unfolding sample_attach_def by (rule attaches_bootstrap) (rule prod.collapse [symmetric])
  have "service_run sample_service sample_tunnel_world (sample_attach ''b'' (sample_attach ''a'' sample_tunnel_world))"
    by (rule service_goes_on [OF service_goes_on [OF service_started step] step])
  then show ?thesis by (rule relay_and_sessions_agree [OF _ coherent_sample])
qed

lemma stale_detach_leaves_successor_witness:
  "deadlineState (snd (detachBootstrapPeer sample_service (\<lambda>_. 1) 0 5 ''a'' None (sample_tunnel_peer ''a'')
     (sample_attach ''b'' (sample_attach ''a'' sample_tunnel_world)))) = deadlineState (sample_attach ''b'' (sample_attach ''a'' sample_tunnel_world))"
  using stale_detach_leaves_successor [OF coherent_sample_attach [OF coherent_sample_attach [OF coherent_sample]]
      sample_tunnel_peer_bootstrap sample_current(2) prod.collapse [symmetric]]
  by blast

lemma detach_depends_on_deadlines_witness:
  "isl (fst (detachBootstrapPeer sample_service (\<lambda>_. 1) 0 5 ''a'' None (sample_tunnel_peer ''a'') (sample_attach ''a'' sample_tunnel_world))) \<and>
   isCurrentPeer (peer_relayTarget (sample_tunnel_peer ''a''))
     (relayState (snd (detachBootstrapPeer sample_service (\<lambda>_. 1) 0 5 ''a'' None (sample_tunnel_peer ''a'') (sample_attach ''a'' sample_tunnel_world))))"
proof -
  have failed: "isl (fst (detachBootstrapPeer sample_service (\<lambda>_. 1) 0 5 ''a'' None (sample_tunnel_peer ''a'') (sample_attach ''a'' sample_tunnel_world)))"
    by code_simp
  then show ?thesis
    using detach_depends_on_deadlines [OF coherent_sample_attach [OF coherent_sample] sample_tunnel_peer_bootstrap sample_current(1)
        prod.collapse [symmetric], of sample_service "\<lambda>_. 1" 0 5 "''a''" None]
    by (auto simp: isl_def)
qed

end
