(* ===== verification/PtyTransport.thy ===== *)
theory PtyTransport
  imports RelayCoordinator HealthMonitor Protocol
begin

text \<open>
  \<open>PtyTransportService\<close> of \<open>apps/data-plane-gateway/src/pty/pty-transport-service.ts\<close>: the web sockets that carry a
  terminal between a client and a sandbox. Both are session peers of the relay, under the session id of the token.

  The relay is the one of theory RelayCoordinator, whose answers come at once; a handler is then one step. What a relay over several
  nodes answers is the argument \<open>resolved\<close> of \<open>client_message_resolved\<close>. The verification and the making of tokens, the URL and the
  request id are arguments. Messages are texts or byte buffers (a \<open>Blob\<close>, which has to be read first, is left out); log records
  and metrics are left out but for their outcome.
\<close>

section \<open>Data\<close>

definition SandboxTransportTokenTtlSeconds :: int where "SandboxTransportTokenTtlSeconds = 120"
definition PtyWebSocketMaxConsecutiveMissedPongs :: int where "PtyWebSocketMaxConsecutiveMissedPongs = 3"
definition POLICY_VIOLATION :: int where "POLICY_VIOLATION = 1008"
definition INTERNAL_ERROR :: int where "INTERNAL_ERROR = 1011"

datatype pty_role = ClientRole | SandboxRole

record pty_claims =
  claimSub :: string
  claimOrganizationId :: string
  claimPtySessionId :: string
  claimRole :: pty_role

datatype pty_transport_side = PtyClient | PtySandbox

record pty_admission =
  admissionClaims :: pty_claims
  admissionSide :: pty_transport_side

record pty_peer =
  ptyOpenedAtMs :: int
  ptyRelayTarget :: relay_target
  ptyMonitor :: "monitor option"

record pty_transport_session =
  ptyClientSocket :: nat
  clientPeer :: pty_peer
  clientOpenRequested :: bool
  pendingClientMessages :: "relay_payload list"

record pty_world =
  ptySessions :: "(string, pty_transport_session) js_map"
  sandboxTargets :: "(string, pty_peer) js_map"
  ptyRelay :: relay_state
  closedOutcomes :: "(pty_transport_side \<times> bool) list"

record pty_service =
  ptyNodeId :: string
  ptyMonitorInput :: monitor_input
  verifyPtyTransportToken :: "string \<Rightarrow> (string option + pty_claims)"
  mintPtyTransportToken :: "pty_claims \<Rightarrow> int \<Rightarrow> string"
  createSandboxTransportUrl :: "string \<Rightarrow> string"
  read_launch :: "string \<Rightarrow> pty_session_launch option"
  stringify_pty :: "pty_session_message \<Rightarrow> string"

text \<open>\<open>read_launch\<close> stands for \<open>JSON.parse\<close> and the shape of the object, whose \<open>type\<close> is \<open>pty.transport.open\<close>.\<close>

definition parsePtyTransportClientOpen :: "pty_service \<Rightarrow> string \<Rightarrow> pty_session_launch option" where
  "parsePtyTransportClientOpen s text = (case read_launch s text of
     None \<Rightarrow> None | Some launch \<Rightarrow> if valid_launch launch then Some launch else None)"

section \<open>Admission\<close>

datatype pty_transport_error = PtyTransportError string int | TokenFailure

definition authorize :: "pty_service \<Rightarrow> string option \<Rightarrow> pty_transport_error + pty_admission" where
  "authorize s token = (case token of
     None \<Rightarrow> Inl (PtyTransportError ''PTY transport token is required.'' 401)
   | Some t \<Rightarrow> if t = [] then Inl (PtyTransportError ''PTY transport token is required.'' 401)
       else case verifyPtyTransportToken s t of
         Inr claims \<Rightarrow> Inr \<lparr> admissionClaims = claims,
           admissionSide = (if claimRole claims = ClientRole then PtyClient else PtySandbox) \<rparr>
       | Inl (Some message) \<Rightarrow> Inl (PtyTransportError message 401)
       | Inl None \<Rightarrow> Inl TokenFailure)"

definition relay_side :: "pty_transport_side \<Rightarrow> relay_peer_side" where
  "relay_side side = (case side of PtyClient \<Rightarrow> PtyClientSide | PtySandbox \<Rightarrow> PtySandboxSide)"

definition resolve_pty :: "pty_transport_side \<Rightarrow> pty_claims \<Rightarrow> pty_world \<Rightarrow> relay_target option" where
  "resolve_pty side claims w = resolveSessionPeer (claimSub claims) (relay_side side) (claimPtySessionId claims) (ptyRelay w)"

definition canAttach :: "pty_admission \<Rightarrow> pty_world \<Rightarrow> bool" where
  "canAttach a w \<longleftrightarrow> resolve_pty (admissionSide a) (admissionClaims a) w = None"

section \<open>Attaching\<close>

definition createSessionKey :: "pty_claims \<Rightarrow> string" where
  "createSessionKey claims = claimSub claims @ '':'' @ claimPtySessionId claims"

definition socket_close :: "nat \<Rightarrow> int \<Rightarrow> string \<Rightarrow> pty_world \<Rightarrow> pty_world" where
  "socket_close socket code why w =
     w\<lparr>ptyRelay := (ptyRelay w)\<lparr>socketLog := socketLog (ptyRelay w) @ [CloseSocket socket code why]\<rparr>\<rparr>"

definition createAttachedPeer ::
  "pty_service \<Rightarrow> bool \<Rightarrow> int \<Rightarrow> nat \<Rightarrow> relay_target \<Rightarrow> pty_world \<Rightarrow> pty_peer \<times> pty_world" where
  "createAttachedPeer s has_raw now socket t w =
     (case startWebSocketHealthMonitor has_raw (ptyMonitorInput s) now of
        Inr m \<Rightarrow> (\<lparr> ptyOpenedAtMs = now, ptyRelayTarget = t, ptyMonitor = Some m \<rparr>, w)
      | Inl _ \<Rightarrow> (\<lparr> ptyOpenedAtMs = now, ptyRelayTarget = t, ptyMonitor = None \<rparr>,
          socket_close socket INTERNAL_ERROR ''Failed to initialize PTY transport websocket health checks.'' w))"

definition attach_relay ::
  "pty_service \<Rightarrow> (nat \<Rightarrow> int) \<Rightarrow> pty_admission \<Rightarrow> relay_peer_side \<Rightarrow> nat \<Rightarrow> pty_world \<Rightarrow> (gateway_error + relay_target) \<times> pty_world" where
  "attach_relay s ready a side socket w =
     (let (r, relay) = attachPeer (ptyNodeId s) ready (claimSub (admissionClaims a)) side socket
        (claimPtySessionId (admissionClaims a)) (ptyRelay w) in (r, w\<lparr>ptyRelay := relay\<rparr>))"

definition attachClient ::
  "pty_service \<Rightarrow> (nat \<Rightarrow> int) \<Rightarrow> bool \<Rightarrow> int \<Rightarrow> pty_admission \<Rightarrow> nat \<Rightarrow> pty_world \<Rightarrow> (gateway_error + unit) \<times> pty_world" where
  "attachClient s ready has_raw now a socket w =
     (let key = createSessionKey (admissionClaims a) in
      if js_has (ptySessions w) key then (Inr (), socket_close socket POLICY_VIOLATION ''PTY transport session exists.'' w)
      else case attach_relay s ready a PtyClientSide socket w of
        (Inl e, w1) \<Rightarrow> (Inl e, w1)
      | (Inr t, w1) \<Rightarrow> (let (peer, w2) = createAttachedPeer s has_raw now socket t w1 in
          (Inr (), w2\<lparr>ptySessions := js_set key \<lparr> ptyClientSocket = socket, clientPeer = peer, clientOpenRequested = False,
            pendingClientMessages = [] \<rparr> (ptySessions w2)\<rparr>)))"

definition sendWebSocketMessage :: "(nat \<Rightarrow> int) \<Rightarrow> nat \<Rightarrow> relay_payload \<Rightarrow> pty_world \<Rightarrow> pty_world" where
  "sendWebSocketMessage ready receiver message w =
     (if ready receiver \<noteq> WebSocketOpen then w
      else w\<lparr>ptyRelay := (ptyRelay w)\<lparr>socketLog := socketLog (ptyRelay w) @ [SendTo receiver message]\<rparr>\<rparr>)"

definition attachSandbox ::
  "pty_service \<Rightarrow> (nat \<Rightarrow> int) \<Rightarrow> bool \<Rightarrow> int \<Rightarrow> pty_admission \<Rightarrow> nat \<Rightarrow> pty_world \<Rightarrow> (gateway_error + unit) \<times> pty_world" where
  "attachSandbox s ready has_raw now a socket w =
     (let key = createSessionKey (admissionClaims a) in
      case attach_relay s ready a PtySandboxSide socket w of
        (Inl e, w1) \<Rightarrow> (Inl e, w1)
      | (Inr t, w1) \<Rightarrow>
        (let (peer, w2) = createAttachedPeer s has_raw now socket t w1;
             w3 = w2\<lparr>sandboxTargets := js_set key peer (sandboxTargets w2)\<rparr> in
         case js_get (ptySessions w3) key of
           None \<Rightarrow> (Inr (), w3)
         | Some session \<Rightarrow> (Inr (), fold (sendWebSocketMessage ready socket) (pendingClientMessages session)
             (w3\<lparr>ptySessions := js_set key (session\<lparr>pendingClientMessages := []\<rparr>) (ptySessions w3)\<rparr>))))"

section \<open>Messages\<close>

text \<open>\<open>owner\<close> is what the owner resolver answers, \<open>requestId\<close> the random id of the request.\<close>

definition requestSandboxTransport ::
  "pty_service \<Rightarrow> (nat \<Rightarrow> int) \<Rightarrow> string option \<Rightarrow> string \<Rightarrow> pty_admission \<Rightarrow> relay_payload \<Rightarrow> pty_transport_session \<Rightarrow> pty_world
     \<Rightarrow> (gateway_error + unit) \<times> pty_world" where
  "requestSandboxTransport s ready owner requestId a message session w =
     (let claims = admissionClaims a in
      case message of
        Binary _ \<Rightarrow> (Inr (), socket_close (ptyClientSocket session) POLICY_VIOLATION ''PTY transport open message must be text.'' w)
      | Text text \<Rightarrow> (case parsePtyTransportClientOpen s text of
          None \<Rightarrow> (Inr (), socket_close (ptyClientSocket session) POLICY_VIOLATION ''PTY transport open message is invalid.'' w)
        | Some launch \<Rightarrow>
            let w1 = w\<lparr>ptySessions := js_set (createSessionKey claims) (session\<lparr>clientOpenRequested := True\<rparr>) (ptySessions w)\<rparr> in
            case owner of
              None \<Rightarrow> (Inl (BootstrapTunnelNotConnectedError (claimSub claims)), w1)
            | Some ownerSession \<Rightarrow>
                let token = mintPtyTransportToken s (claims\<lparr>claimRole := SandboxRole\<rparr>) SandboxTransportTokenTtlSeconds;
                    request = stringify_pty s (PtySessionOpen (''pty_'' @ requestId) (claimPtySessionId claims)
                      (createSandboxTransportUrl s token) token launch);
                    (r, relay) = forwardPeerMessage (ptyNodeId s) ready (claimSub claims) ConnectionSide (Text request)
                      (Some ownerSession) (ptyRelay w1) in
                (r, w1\<lparr>ptyRelay := relay\<rparr>)))"

definition forward_pty ::
  "pty_service \<Rightarrow> (nat \<Rightarrow> int) \<Rightarrow> pty_transport_side \<Rightarrow> pty_claims \<Rightarrow> relay_payload \<Rightarrow> pty_world \<Rightarrow> (gateway_error + unit) \<times> pty_world" where
  "forward_pty s ready side claims message w =
     (let (r, relay) = forwardSessionPeerMessage (ptyNodeId s) ready (claimSub claims) (relay_side side) (claimPtySessionId claims)
        message (ptyRelay w) in (r, w\<lparr>ptyRelay := relay\<rparr>))"

text \<open>The part of \<open>handleClientMessage\<close> after the await of \<open>resolveSessionPeer\<close>.\<close>

definition client_message_resolved ::
  "pty_service \<Rightarrow> (nat \<Rightarrow> int) \<Rightarrow> relay_target option \<Rightarrow> pty_admission \<Rightarrow> relay_payload \<Rightarrow> pty_world \<Rightarrow> (gateway_error + unit) \<times> pty_world" where
  "client_message_resolved s ready resolved a message w =
     (let key = createSessionKey (admissionClaims a) in
      case resolved of
        None \<Rightarrow> (Inr (), (case js_get (ptySessions w) key of None \<Rightarrow> w
          | Some session \<Rightarrow> w\<lparr>ptySessions := js_set key
              (session\<lparr>pendingClientMessages := pendingClientMessages session @ [message]\<rparr>) (ptySessions w)\<rparr>))
      | Some _ \<Rightarrow> forward_pty s ready PtySandbox (admissionClaims a) message w)"

definition handleClientMessage ::
  "pty_service \<Rightarrow> (nat \<Rightarrow> int) \<Rightarrow> string option \<Rightarrow> string \<Rightarrow> pty_admission \<Rightarrow> relay_payload \<Rightarrow> nat \<Rightarrow> pty_world
     \<Rightarrow> (gateway_error + unit) \<times> pty_world" where
  "handleClientMessage s ready owner requestId a message socket w =
     (case js_get (ptySessions w) (createSessionKey (admissionClaims a)) of
        None \<Rightarrow> (Inr (), socket_close socket POLICY_VIOLATION ''PTY transport session is missing.'' w)
      | Some session \<Rightarrow>
          if \<not> clientOpenRequested session then requestSandboxTransport s ready owner requestId a message session w
          else client_message_resolved s ready (resolve_pty PtySandbox (admissionClaims a) w) a message w)"

definition handleSandboxMessage ::
  "pty_service \<Rightarrow> (nat \<Rightarrow> int) \<Rightarrow> pty_admission \<Rightarrow> relay_payload \<Rightarrow> nat \<Rightarrow> pty_world \<Rightarrow> (gateway_error + unit) \<times> pty_world" where
  "handleSandboxMessage s ready a message socket w =
     (case resolve_pty PtyClient (admissionClaims a) w of
        None \<Rightarrow> (Inr (), socket_close socket POLICY_VIOLATION ''PTY transport session is missing.'' w)
      | Some _ \<Rightarrow> forward_pty s ready PtyClient (admissionClaims a) message w)"

section \<open>Detaching\<close>

definition normalizeForwardedCloseCode :: "int \<Rightarrow> int" where
  "normalizeForwardedCloseCode code =
     (if code = 1005 \<or> code = 1006 \<or> code < 1000 \<or> code \<ge> 5000 then INTERNAL_ERROR else code)"

definition classifyPtyTransportClose :: "int \<Rightarrow> bool" where
  "classifyPtyTransportClose code \<longleftrightarrow> code = 1000 \<or> code = 1001"

definition closeAttachedPeer ::
  "pty_service \<Rightarrow> (nat \<Rightarrow> int) \<Rightarrow> pty_admission \<Rightarrow> int \<Rightarrow> pty_peer \<Rightarrow> pty_world \<Rightarrow> pty_world" where
  "closeAttachedPeer s ready a code peer w =
     w\<lparr>ptyRelay := detachPeer (ptyNodeId s) ready (ptyRelayTarget peer) (ptyRelay w),
       closedOutcomes := closedOutcomes w @ [(admissionSide a, classifyPtyTransportClose code)]\<rparr>"

definition pty_closePeer ::
  "pty_service \<Rightarrow> (nat \<Rightarrow> int) \<Rightarrow> pty_claims \<Rightarrow> pty_transport_side \<Rightarrow> int \<Rightarrow> string \<Rightarrow> pty_world \<Rightarrow> pty_world" where
  "pty_closePeer s ready claims side code why w = w\<lparr>ptyRelay := ignore_errors
     (closeSessionPeer (ptyNodeId s) ready (claimSub claims) (relay_side side) (claimPtySessionId claims) code why) (ptyRelay w)\<rparr>"

definition pty_detach :: "pty_service \<Rightarrow> (nat \<Rightarrow> int) \<Rightarrow> pty_admission \<Rightarrow> int \<Rightarrow> string \<Rightarrow> pty_world \<Rightarrow> pty_world" where
  "pty_detach s ready a code why w =
     (let claims = admissionClaims a; key = createSessionKey claims in
      if admissionSide a = PtyClient then
        let w1 = (case js_get (ptySessions w) key of None \<Rightarrow> w
              | Some session \<Rightarrow> closeAttachedPeer s ready a code (clientPeer session)
                  (w\<lparr>ptySessions := js_delete key (ptySessions w)\<rparr>)) in
        pty_closePeer s ready claims PtySandbox (normalizeForwardedCloseCode code) why w1
      else
        let w1 = (case js_get (sandboxTargets w) key of None \<Rightarrow> w
              | Some peer \<Rightarrow> closeAttachedPeer s ready a code peer (w\<lparr>sandboxTargets := js_delete key (sandboxTargets w)\<rparr>)) in
        pty_closePeer s ready claims PtyClient (normalizeForwardedCloseCode code) why w1)"

section \<open>The messages of a client\<close>

lemma resolve_pty_peer: "resolve_pty side claims w =
    getSessionPeer (claimSub claims) (relay_side side) (claimPtySessionId claims) (peers (ptyRelay w))"
  by (cases side) (simp_all add: resolve_pty_def relay_side_def resolveSessionPeer_def resolver_resolveSessionPeer_def
      PeerRegistry.getConnectionPeer_def)

lemma attach_relay_session:
  assumes "attach_relay s ready a side socket w = (r, w')" "side \<noteq> BootstrapSide"
  defines "t \<equiv> \<lparr> target_sandboxInstanceId = claimSub (admissionClaims a), target_side = side, target_nodeId = ptyNodeId s,
      target_sessionId = claimPtySessionId (admissionClaims a) \<rparr>"
  shows "r = Inr t" "peers (ptyRelay w') = snd (setSessionPeer t (peers (ptyRelay w)))"
    "socketsByPeerKey (ptyRelay w') = js_set (createPeerKey t) socket (socketsByPeerKey (ptyRelay w))"
    "getSessionPeer (claimSub (admissionClaims a)) side (claimPtySessionId (admissionClaims a)) (peers (ptyRelay w)) = None \<Longrightarrow>
      socketLog (ptyRelay w') = socketLog (ptyRelay w)"
    "ptySessions w' = ptySessions w" "sandboxTargets w' = sandboxTargets w"
  using assms(1,2)
  by (auto simp: t_def attach_relay_def attachPeer_def comp_bind_def registerLocalPeer_def Let_def ignore_errors_def
      setSessionPeer_def getSessionPeer_def split: prod.splits option.splits)

text \<open>A sandbox peer of this node whose socket is known and open.\<close>

definition reaches :: "pty_service \<Rightarrow> (nat \<Rightarrow> int) \<Rightarrow> pty_claims \<Rightarrow> nat \<Rightarrow> pty_world \<Rightarrow> bool" where
  "reaches s ready claims socket w \<longleftrightarrow> (\<exists>t. resolve_pty PtySandbox claims w = Some t \<and> target_nodeId t = ptyNodeId s \<and>
     js_get (socketsByPeerKey (ptyRelay w)) (createPeerKey t) = Some socket \<and> ready socket = WebSocketOpen)"

lemma forward_reaches:
  assumes "reaches s ready claims socket w"
  shows "forward_pty s ready PtySandbox claims m w =
    (Inr (), w\<lparr>ptyRelay := (ptyRelay w)\<lparr>socketLog := socketLog (ptyRelay w) @ [SendTo socket m]\<rparr>\<rparr>)"
  using assms
  by (auto simp: reaches_def forward_pty_def forwardSessionPeerMessage_def relay_side_def resolve_pty_def resolveSessionPeer_def
      deliver_to_def deliverEnvelope_def)

lemma send_log:
  "ready socket = WebSocketOpen \<Longrightarrow> fold (sendWebSocketMessage ready socket) ms w =
     w\<lparr>ptyRelay := (ptyRelay w)\<lparr>socketLog := socketLog (ptyRelay w) @ map (SendTo socket) ms\<rparr>\<rparr>"
  by (induction ms arbitrary: w) (simp_all add: sendWebSocketMessage_def)

definition client_says ::
  "pty_service \<Rightarrow> (nat \<Rightarrow> int) \<Rightarrow> pty_admission \<Rightarrow> nat \<Rightarrow> relay_payload list \<Rightarrow> pty_world \<Rightarrow> pty_world" where
  "client_says s ready a client ms w = fold (\<lambda>m w. snd (handleClientMessage s ready None [] a m client w)) ms w"

definition opened_session :: "pty_admission \<Rightarrow> relay_payload list \<Rightarrow> pty_world \<Rightarrow> bool" where
  "opened_session a pending w \<longleftrightarrow> (\<exists>session. js_get (ptySessions w) (createSessionKey (admissionClaims a)) = Some session \<and>
     clientOpenRequested session \<and> pendingClientMessages session = pending)"

lemma says_before:
  assumes "opened_session a pending w" "resolve_pty PtySandbox (admissionClaims a) w = None"
  shows "opened_session a (pending @ ms) (client_says s ready a client ms w) \<and>
    ptyRelay (client_says s ready a client ms w) = ptyRelay w"
  using assms
proof (induction ms arbitrary: pending w)
  case (Cons m ms)
  let ?w = "snd (handleClientMessage s ready None [] a m client w)"
  have w: "opened_session a (pending @ [m]) ?w" "ptyRelay ?w = ptyRelay w"
    using Cons.prems by (auto simp: opened_session_def handleClientMessage_def client_message_resolved_def js_get_set)
  then have "resolve_pty PtySandbox (admissionClaims a) ?w = None" using Cons.prems(2) by (simp add: resolve_pty_def)
  then show ?case using Cons.IH [OF w(1)] w(2) by (simp add: client_says_def)
qed (simp add: client_says_def)

lemma says_after:
  assumes "opened_session a pending w" "reaches s ready (admissionClaims a) socket w"
  shows "socketLog (ptyRelay (client_says s ready a client ms w)) = socketLog (ptyRelay w) @ map (SendTo socket) ms"
  using assms
proof (induction ms arbitrary: w)
  case (Cons m ms)
  let ?w = "snd (handleClientMessage s ready None [] a m client w)"
  obtain t where t: "resolve_pty PtySandbox (admissionClaims a) w = Some t" using Cons.prems(2) by (auto simp: reaches_def)
  have w: "?w = w\<lparr>ptyRelay := (ptyRelay w)\<lparr>socketLog := socketLog (ptyRelay w) @ [SendTo socket m]\<rparr>\<rparr>"
    using Cons.prems(1) t forward_reaches [OF Cons.prems(2)]
    by (auto simp: opened_session_def handleClientMessage_def client_message_resolved_def)
  have "opened_session a pending ?w" "reaches s ready (admissionClaims a) socket ?w"
    using Cons.prems by (simp_all add: w opened_session_def reaches_def resolve_pty_peer)
  from Cons.IH [OF this] show ?case by (simp add: client_says_def w)
qed (simp add: client_says_def)



definition sample_pty :: pty_service where
  "sample_pty = \<lparr> ptyNodeId = ''node'', ptyMonitorInput = \<lparr> pingIntervalMs = 10000, pongTimeoutMs = 10000,
       inputMaxConsecutiveMissedPongs = Some PtyWebSocketMaxConsecutiveMissedPongs \<rparr>,
     verifyPtyTransportToken = (\<lambda>_. Inl None), mintPtyTransportToken = (\<lambda>_ _. ''token''), createSandboxTransportUrl = (\<lambda>t. ''wss://gw'' @ t),
     read_launch = (\<lambda>_. Some \<lparr> pty_session = CreatePty, pty_cols = None, pty_rows = None, pty_cwd = None, pty_command = None, pty_args = None \<rparr>),
     stringify_pty = (\<lambda>_. ''open'') \<rparr>"

definition sample_admission :: "pty_transport_side \<Rightarrow> pty_admission" where
  "sample_admission side = \<lparr> admissionClaims = \<lparr> claimSub = ''sbi'', claimOrganizationId = ''org'', claimPtySessionId = ''pty'',
     claimRole = (case side of PtyClient \<Rightarrow> ClientRole | PtySandbox \<Rightarrow> SandboxRole) \<rparr>, admissionSide = side \<rparr>"

definition no_ptys :: pty_world where
  "no_ptys = \<lparr> ptySessions = [], sandboxTargets = [], ptyRelay = no_peers, closedOutcomes = [] \<rparr>"

definition sample_opened :: pty_world where
  "sample_opened = snd (handleClientMessage sample_pty (\<lambda>_. 1) (Some ''b'') ''1'' (sample_admission PtyClient) (Text ''open'') 1
     (snd (attachClient sample_pty (\<lambda>_. 1) True 0 (sample_admission PtyClient) 1 no_ptys)))"


text \<open>A second client that was admitted before the first one attached is turned away when it attaches, but the close of its socket
then ends the session of the first client, which is open: the session is forgotten and its peer is taken off the relay.\<close>

theorem rejected_client_ends_session:
  assumes "wf_peers (peers (ptyRelay w))" "plain_id (claimSub (admissionClaims a))" "admissionSide a = PtyClient"
    and "canAttach a w" "js_get (ptySessions w) (createSessionKey (admissionClaims a)) = None"
    and "attachClient s ready has_raw now a first w = (r1, w1)" "attachClient s ready has_raw now a second w1 = (r2, w2)"
  shows "js_get (ptySessions w1) (createSessionKey (admissionClaims a)) \<noteq> None \<and> resolve_pty PtyClient (admissionClaims a) w1 \<noteq> None \<and>
    socketLog (ptyRelay w2) = socketLog (ptyRelay w1) @ [CloseSocket second 1008 ''PTY transport session exists.''] \<and>
    js_get (ptySessions (pty_detach s ready a 1008 why w2)) (createSessionKey (admissionClaims a)) = None \<and>
    resolve_pty PtyClient (admissionClaims a) (pty_detach s ready a 1008 why w2) = None"
proof -
  let ?c = "admissionClaims a"
  define t where "t = \<lparr> target_sandboxInstanceId = claimSub ?c, target_side = PtyClientSide, target_nodeId = ptyNodeId s,
      target_sessionId = claimPtySessionId ?c \<rparr>"
  obtain r w' where att: "attach_relay s ready a PtyClientSide first w = (r, w')" by fastforce
  note attached = attach_relay_session [OF att, folded t_def]
  obtain peer w'' where peer: "createAttachedPeer s has_raw now first t w' = (peer, w'')" "ptyRelayTarget peer = t"
      "peers (ptyRelay w'') = peers (ptyRelay w')" "ptySessions w'' = ptySessions w'"
    by (cases "startWebSocketHealthMonitor has_raw (ptyMonitorInput s) now")
      (simp_all add: createAttachedPeer_def socket_close_def)
  have w1: "w1 = w''\<lparr>ptySessions := js_set (createSessionKey ?c) \<lparr> ptyClientSocket = first, clientPeer = peer,
      clientOpenRequested = False, pendingClientMessages = [] \<rparr> (ptySessions w'')\<rparr>"
    using assms(5,6) att attached(1) peer(1) by (simp add: attachClient_def Let_def js_has_def)
  have w2: "w2 = socket_close second POLICY_VIOLATION ''PTY transport session exists.'' w1"
    using assms(7) by (simp add: attachClient_def Let_def js_has_def w1 js_get_set)
  have found: "getSessionPeer (claimSub ?c) PtyClientSide (claimPtySessionId ?c) (peers (ptyRelay w1)) = Some t"
    using attached(2) by (simp add: w1 peer(3) getSessionPeer_def setSessionPeer_def Let_def js_get_set t_def)
  have wf: "wf_peers (peers (ptyRelay w1))"
    using wf_setSessionPeer [OF assms(1), of t] assms(2) by (simp add: w1 peer(3) attached(2) t_def)
  define w3 where "w3 = closeAttachedPeer s ready a 1008 peer (w2\<lparr>ptySessions := js_delete (createSessionKey ?c) (ptySessions w2)\<rparr>)"
  have detached: "pty_detach s ready a 1008 why w2 = pty_closePeer s ready ?c PtySandbox (normalizeForwardedCloseCode 1008) why w3"
    using assms(3) by (simp add: pty_detach_def w3_def w2 w1 socket_close_def js_get_set Let_def)
  have peers3: "peers (ptyRelay w3) = snd (removePeer t (peers (ptyRelay w1)))"
    by (simp add: w3_def closeAttachedPeer_def peer(2) detachPeer_def w2 socket_close_def)
      (auto simp: detachPeerWithOptions_def unregisterLocalPeer_def Let_def split: prod.splits)
  have "fst (removePeer t (peers (ptyRelay w1)))"
    using removePeer_current [OF wf, of t] found assms(2) by (simp add: t_def)
  then have gone: "getSessionPeer (claimSub ?c) PtyClientSide (claimPtySessionId ?c) (peers (ptyRelay w3)) = None"
    by (auto simp: peers3 removePeer_def Let_def getSessionPeer_def js_get_delete t_def split: option.splits if_splits)
  have keeps: "peers (ptyRelay (pty_closePeer s ready c side code y v)) = peers (ptyRelay v)"
    "ptySessions (pty_closePeer s ready c side code y v) = ptySessions v" for c side code y v
    by (auto simp: pty_closePeer_def ignore_errors_def closeSessionPeer_def closePeer_def split: option.splits)
  have "js_get (ptySessions w3) (createSessionKey ?c) = None"
    by (simp add: w3_def closeAttachedPeer_def js_get_delete)
  then have "js_get (ptySessions (pty_detach s ready a 1008 why w2)) (createSessionKey ?c) = None"
      "resolve_pty PtyClient ?c (pty_detach s ready a 1008 why w2) = None"
    unfolding detached by (simp_all add: keeps resolve_pty_peer relay_side_def gone)
  moreover have "js_get (ptySessions w1) (createSessionKey ?c) \<noteq> None" "resolve_pty PtyClient ?c w1 \<noteq> None"
    using found by (simp_all add: resolve_pty_peer relay_side_def) (simp add: w1 js_get_set)
  moreover have "socketLog (ptyRelay w2) = socketLog (ptyRelay w1) @ [CloseSocket second 1008 ''PTY transport session exists.'']"
    by (simp add: w2 socket_close_def POLICY_VIOLATION_def)
  ultimately show ?thesis by blast
qed

lemma rejected_client_ends_session_witness:
  "resolve_pty PtyClient (admissionClaims (sample_admission PtyClient)) (pty_detach sample_pty (\<lambda>_. 1) (sample_admission PtyClient) 1008 ''x''
     (snd (attachClient sample_pty (\<lambda>_. 1) True 0 (sample_admission PtyClient) 2
       (snd (attachClient sample_pty (\<lambda>_. 1) True 0 (sample_admission PtyClient) 1 no_ptys))))) = None"
proof -
  have wf: "wf_peers (peers (ptyRelay no_ptys))" by (simp add: no_ptys_def wf_no_peers)
  have plain: "plain_id (claimSub (admissionClaims (sample_admission PtyClient)))" by (simp add: sample_admission_def plain_id_def)
  have free: "canAttach (sample_admission PtyClient) no_ptys"
      "js_get (ptySessions no_ptys) (createSessionKey (admissionClaims (sample_admission PtyClient))) = None"
    by code_simp+
  have side: "admissionSide (sample_admission PtyClient) = PtyClient" by (simp add: sample_admission_def)
  show ?thesis
    using rejected_client_ends_session [OF wf plain side free prod.collapse [symmetric] prod.collapse [symmetric],
        of sample_pty "\<lambda>_. 1" True 0 1 2 "''x''"] by simp
qed

end
