(* ===== verification/WorkerPrograms.thy ===== *)
theory WorkerPrograms
  imports Lifecycle
begin

text \<open>
  Programs of the data plane that run beside each other over the database and the services of others
  (\<open>apps/data-plane-worker/openworkflow\<close>): an \<^emph>\<open>asynchronous\<close> function is a program of atomic steps on the
  world, one per statement sent to the database or call of a service, and between two steps anybody else may change
  the world. Then the rows the programs work on and the statements shared by all of them: \<open>applySandboxLifecycleEvent\<close>
  (\<open>shared/apply-sandbox-lifecycle-event.ts\<close>), the marking of an instance as stopped or failed
  (\<open>stop-sandbox-instance/mark-sandbox-instance-stopped.ts\<close>, \<open>reconcile-sandbox-instance/mark-sandbox-instance-stopped.ts\<close>,
  \<open>mark-sandbox-instance-failed.ts\<close>) and \<open>clearSandboxInstanceDeadlines\<close>. A transaction that selects a row for update holds its lock until it ends, and a
  statement that would write a locked row waits.
\<close>

section \<open>Programs\<close>

text \<open>
  A step that gives \<open>None\<close> cannot be taken in that world: it waits. \<open>StepError\<close> is what the workflow engine makes of an
  error thrown in one of its steps: with the failed attempts and the attempts allowed, where they are known.
\<close>

datatype worker_error = SandboxResourceNotFound | WorkerError string | StepError worker_error "int option" "int option"

datatype ('w, 'a) program =
    Done 'a
  | Raise worker_error
  | Step "'w \<Rightarrow> ('w \<times> ('w, 'a) program) option"

primrec prog_bind :: "('w, 'a) program \<Rightarrow> ('a \<Rightarrow> ('w, 'b) program) \<Rightarrow> ('w, 'b) program" where
  "prog_bind (Done a) k = k a"
| "prog_bind (Raise e) k = Raise e"
| "prog_bind (Step f) k = Step (\<lambda>w. map_option (map_prod id (\<lambda>p. prog_bind p k)) (f w))"

primrec prog_catch :: "('w, 'a) program \<Rightarrow> (worker_error \<Rightarrow> ('w, 'a) program) \<Rightarrow> ('w, 'a) program" where
  "prog_catch (Done a) h = Done a"
| "prog_catch (Raise e) h = h e"
| "prog_catch (Step f) h = Step (\<lambda>w. map_option (map_prod id (\<lambda>p. prog_catch p h)) (f w))"

text \<open>
  An execution lists the worlds before and after each step of the program; the world before a step is whatever
  the others made of it. The result is missing if the program has not ended.
\<close>

inductive exec :: "('w, 'a) program \<Rightarrow> ('w \<times> 'w) list \<Rightarrow> (worker_error + 'a) option \<Rightarrow> bool" where
  unfinished: "exec p [] None"
| returned: "exec (Done a) [] (Some (Inr a))"
| raised: "exec (Raise e) [] (Some (Inl e))"
| step: "f w = Some (w', p) \<Longrightarrow> exec p l r \<Longrightarrow> exec (Step f) ((w, w') # l) r"

text \<open>The program alone, nobody else changing the world; \<open>None\<close> if it waits for ever.\<close>

primrec run_alone :: "('w, 'a) program \<Rightarrow> 'w \<Rightarrow> 'w \<times> (worker_error + 'a) option" where
  "run_alone (Done a) = (\<lambda>w. (w, Some (Inr a)))"
| "run_alone (Raise e) = (\<lambda>w. (w, Some (Inl e)))"
| "run_alone (Step f) = (\<lambda>w. case map_option (map_prod id run_alone) (f w) of
     None \<Rightarrow> (w, None) | Some (w', g) \<Rightarrow> g w')"

inductive_simps exec_Done [simp]: "exec (Done a) l r"
inductive_simps exec_Raise [simp]: "exec (Raise e) l r"
inductive_simps exec_Step: "exec (Step f) l r"
inductive_cases exec_StepE: "exec (Step f) l r"

lemma exec_bindE:
  assumes "exec (prog_bind p k) l r"
  obtains (first) "exec p l None" and "r = None"
    | (error) e where "exec p l (Some (Inl e))" and "r = Some (Inl e)"
    | (both) a l1 l2 where "exec p l1 (Some (Inr a))" and "exec (k a) l2 r" and "l = l1 @ l2"
  using assms
proof (induction p arbitrary: l thesis)
  case (Done a)
  show ?case
  proof (rule Done(3) [of "[]" a l])
    show "exec (Done a) [] (Some (Inr a))" and "exec (k a) l r" using Done by simp_all
  qed simp
next
  case (Raise e)
  then have "l = [] \<and> (r = None \<or> r = Some (Inl e))" by auto
  with Raise(1,2) show ?case by auto
next
  case (Step f)
  from Step.prems(4) consider "l = []" "r = None"
    | w w' p l' where "f w = Some (w', p)" "l = (w, w') # l'" "exec (prog_bind p k) l' r"
    by (auto simp: exec_Step)
  then show ?case
  proof cases
    case 1
    with Step.prems(1) show ?thesis by (auto intro: exec.unfinished)
  next
    case 2
    then have p: "(w', p) \<in> set_option (f w)" "p \<in> Basic_BNFs.snds (w', p)"
      by auto
    have "f w \<in> range f" by (rule rangeI)
    show ?thesis
    proof (rule Step.IH [OF \<open>f w \<in> range f\<close> p _ _ _ 2(3)])
      show thesis if "exec p l' None" "r = None"
        using Step.prems(1) that 2 by (auto intro: exec.step)
      show thesis if "exec p l' (Some (Inl e))" "r = Some (Inl e)" for e
        using Step.prems(2) that 2 by (auto intro: exec.step)
      show thesis if "exec p l1 (Some (Inr a))" "exec (k a) l2 r" "l' = l1 @ l2" for a l1 l2
        using Step.prems(3) [of "(w, w') # l1" a l2] that 2 by (auto intro: exec.step)
    qed
  qed
qed


text \<open>Waiting does not change the world, and a run alone is one of the executions.\<close>

fun consecutive :: "('w \<times> 'w) list \<Rightarrow> 'w \<Rightarrow> 'w \<Rightarrow> bool" where
  "consecutive [] w v \<longleftrightarrow> w = v"
| "consecutive ((x, y) # l) w v \<longleftrightarrow> x = w \<and> consecutive l y v"

lemma run_alone_exec:
  assumes "run_alone p w = (v, r)"
  shows "\<exists>l. exec p l r \<and> consecutive l w v"
  using assms
proof (induction p arbitrary: w)
  case (Done a)
  have "exec (Done a) [] r \<and> consecutive [] w v" using Done by auto
  then show ?case by blast
next
  case (Raise e)
  have "exec (Raise e) [] r \<and> consecutive [] w v" using Raise by auto
  then show ?case by blast
next
  case (Step f)
  show ?case
  proof (cases "f w")
    case None
    then have "exec (Step f) [] r \<and> consecutive [] w v"
      using Step.prems by (auto intro: exec.unfinished)
    then show ?thesis by blast
  next
    case (Some x)
    obtain w' q where x: "x = (w', q)" by fastforce
    have q: "(w', q) \<in> set_option (f w)" "q \<in> Basic_BNFs.snds (w', q)"
      using Some x by auto
    have "run_alone q w' = (v, r)" using Step.prems Some x by simp
    from Step.IH [OF rangeI q this] obtain l where "exec q l r" "consecutive l w' v" by blast
    then have "exec (Step f) ((w, w') # l) r \<and> consecutive ((w, w') # l) w v"
      using Some x by (auto intro: exec.step)
    then show ?thesis by blast
  qed
qed

lemma run_alone_bind:
  "run_alone (prog_bind p k) w = (case run_alone p w of (v, Some (Inr a)) \<Rightarrow> run_alone (k a) v
     | (v, Some (Inl e)) \<Rightarrow> (v, Some (Inl e)) | (v, None) \<Rightarrow> (v, None))"
proof (induction p arbitrary: w)
  case (Step f)
  show ?case
  proof (cases "f w")
    case (Some x)
    obtain w' q where x: "x = (w', q)" by fastforce
    have q: "(w', q) \<in> set_option (f w)" "q \<in> Basic_BNFs.snds (w', q)"
      using Some x by auto
    show ?thesis using Step.IH [OF rangeI q] Some x by simp
  qed simp
qed simp_all

lemma run_alone_catch:
  "run_alone (prog_catch p h) w = (case run_alone p w of (v, Some (Inl e)) \<Rightarrow> run_alone (h e) v
     | (v, Some (Inr a)) \<Rightarrow> (v, Some (Inr a)) | (v, None) \<Rightarrow> (v, None))"
proof (induction p arbitrary: w)
  case (Step f)
  show ?case
  proof (cases "f w")
    case (Some x)
    obtain w' q where x: "x = (w', q)" by fastforce
    have q: "(w', q) \<in> set_option (f w)" "q \<in> Basic_BNFs.snds (w', q)"
      using Some x by auto
    show ?thesis using Step.IH [OF rangeI q] Some x by simp
  qed simp
qed simp_all

text \<open>
  The program beside others: \<open>env n\<close> is what they make of the world before the step numbered \<open>n\<close>. The number of the next
  step is counted on.
\<close>

primrec run_beside :: "('w, 'a) program \<Rightarrow> (nat \<Rightarrow> 'w \<Rightarrow> 'w) \<Rightarrow> nat \<Rightarrow> 'w \<Rightarrow> 'w \<times> nat \<times> (worker_error + 'a) option" where
  "run_beside (Done a) = (\<lambda>env n w. (w, n, Some (Inr a)))"
| "run_beside (Raise e) = (\<lambda>env n w. (w, n, Some (Inl e)))"
| "run_beside (Step f) = (\<lambda>env n w. case map_option (map_prod id run_beside) (f (env n w)) of
     None \<Rightarrow> (w, n, None) | Some (w', g) \<Rightarrow> g env (Suc n) w')"

fun beside :: "(nat \<Rightarrow> 'w \<Rightarrow> 'w) \<Rightarrow> nat \<Rightarrow> ('w \<times> 'w) list \<Rightarrow> 'w \<Rightarrow> 'w \<Rightarrow> bool" where
  "beside env n [] w v \<longleftrightarrow> w = v"
| "beside env n ((x, y) # l) w v \<longleftrightarrow> x = env n w \<and> beside env (Suc n) l y v"

lemma run_beside_exec:
  assumes "run_beside p env n w = (v, m, r)"
  shows "\<exists>l. exec p l r \<and> beside env n l w v"
  using assms
proof (induction p arbitrary: n w)
  case (Done a)
  have "exec (Done a) [] r \<and> beside env n [] w v" using Done by auto
  then show ?case by blast
next
  case (Raise e)
  have "exec (Raise e) [] r \<and> beside env n [] w v" using Raise by auto
  then show ?case by blast
next
  case (Step f)
  show ?case
  proof (cases "f (env n w)")
    case None
    then have "exec (Step f) [] r \<and> beside env n [] w v"
      using Step.prems by (auto intro: exec.unfinished)
    then show ?thesis by blast
  next
    case (Some x)
    obtain w' q where x: "x = (w', q)" by fastforce
    have q: "(w', q) \<in> set_option (f (env n w))" "q \<in> Basic_BNFs.snds (w', q)"
      using Some x by auto
    have "run_beside q env (Suc n) w' = (v, m, r)" using Step.prems Some x by simp
    from Step.IH [OF rangeI q this] obtain l where "exec q l r" "beside env (Suc n) l w' v" by blast
    then have "exec (Step f) ((env n w, w') # l) r \<and> beside env n ((env n w, w') # l) w v"
      using Some x by (auto intro: exec.step)
    then show ?thesis by blast
  qed
qed

lemma run_beside_bind:
  "run_beside (prog_bind p k) env n w = (case run_beside p env n w of (v, m, Some (Inr a)) \<Rightarrow> run_beside (k a) env m v
     | (v, m, Some (Inl e)) \<Rightarrow> (v, m, Some (Inl e)) | (v, m, None) \<Rightarrow> (v, m, None))"
proof (induction p arbitrary: n w)
  case (Step f)
  show ?case
  proof (cases "f (env n w)")
    case (Some x)
    obtain w' q where x: "x = (w', q)" by fastforce
    have q: "(w', q) \<in> set_option (f (env n w))" "q \<in> Basic_BNFs.snds (w', q)"
      using Some x by auto
    show ?thesis using Step.IH [OF rangeI q] Some x by simp
  qed simp
qed simp_all

lemma run_beside_catch:
  "run_beside (prog_catch p h) env n w = (case run_beside p env n w of (v, m, Some (Inl e)) \<Rightarrow> run_beside (h e) env m v
     | (v, m, Some (Inr a)) \<Rightarrow> (v, m, Some (Inr a)) | (v, m, None) \<Rightarrow> (v, m, None))"
proof (induction p arbitrary: n w)
  case (Step f)
  show ?case
  proof (cases "f (env n w)")
    case (Some x)
    obtain w' q where x: "x = (w', q)" by fastforce
    have q: "(w', q) \<in> set_option (f (env n w))" "q \<in> Basic_BNFs.snds (w', q)"
      using Some x by auto
    show ?thesis using Step.IH [OF rangeI q] Some x by simp
  qed simp
qed simp_all

lemma exec_catchE:
  assumes "exec (prog_catch p h) l r"
  obtains (same) "exec p l r" and "\<forall>e. r \<noteq> Some (Inl e)"
    | (both) e l1 l2 where "exec p l1 (Some (Inl e))" and "exec (h e) l2 r" and "l = l1 @ l2"
  using assms
proof (induction p arbitrary: l thesis)
  case (Done a)
  then have "exec (Done a) l r \<and> (\<forall>e. r \<noteq> Some (Inl e))" by auto
  with Done(1) show ?case by blast
next
  case (Raise e)
  show ?case
  proof (rule Raise(2) [of "[]" e l])
    show "exec (Raise e) [] (Some (Inl e))" and "exec (h e) l r" using Raise by simp_all
  qed simp
next
  case (Step f)
  from Step.prems(3) consider "l = []" "r = None"
    | w w' p l' where "f w = Some (w', p)" "l = (w, w') # l'" "exec (prog_catch p h) l' r"
    by (auto simp: exec_Step)
  then show ?case
  proof cases
    case 1
    with Step.prems(1) show ?thesis by (auto intro: exec.unfinished)
  next
    case 2
    then have p: "(w', p) \<in> set_option (f w)" "p \<in> Basic_BNFs.snds (w', p)"
      by auto
    show ?thesis
    proof (rule Step.IH [OF rangeI p _ _ 2(3)])
      show thesis if "exec p l' r" "\<forall>e. r \<noteq> Some (Inl e)"
        using Step.prems(1) that 2 by (auto intro: exec.step)
      show thesis if "exec p l1 (Some (Inl e))" "exec (h e) l2 r" "l' = l1 @ l2" for e l1 l2
        using Step.prems(2) [of "(w, w') # l1" e l2] that 2 by (auto intro: exec.step)
    qed
  qed
qed


section \<open>Reasoning about all executions\<close>

text \<open>Every step of the program is in \<open>G\<close>, whatever the others do between its steps.\<close>

definition guarantees :: "('w \<Rightarrow> 'w \<Rightarrow> bool) \<Rightarrow> ('w, 'a) program \<Rightarrow> bool" where
  "guarantees G p \<longleftrightarrow> (\<forall>l r. exec p l r \<longrightarrow> (\<forall>(w, v) \<in> set l. G w v))"

text \<open>
  The program takes \<open>n a\<close> steps with property \<open>P\<close> if it returns \<open>a\<close>, none if it throws, and
  one at most if it is cut off.
\<close>

definition counted :: "('w \<times> 'w \<Rightarrow> bool) \<Rightarrow> ('a \<Rightarrow> nat) \<Rightarrow> ('w, 'a) program \<Rightarrow> bool" where
  "counted P n p \<longleftrightarrow> (\<forall>l r. exec p l r \<longrightarrow> (case r of None \<Rightarrow> length (filter P l) \<le> 1
     | Some (Inl e) \<Rightarrow> length (filter P l) = 0 | Some (Inr a) \<Rightarrow> length (filter P l) = n a))"

lemma guarantees_Done: "guarantees G (Done a)"
  by (auto simp: guarantees_def)

lemma guarantees_Raise: "guarantees G (Raise e)"
  by (auto simp: guarantees_def)

lemma guarantees_Step:
  assumes "\<And>w v p. f w = Some (v, p) \<Longrightarrow> G w v \<and> guarantees G p"
  shows "guarantees G (Step f)"
  unfolding guarantees_def
proof (intro allI impI)
  fix l r assume "exec (Step f) l r"
  then show "\<forall>(w, v) \<in> set l. G w v"
    by cases (use assms in \<open>fastforce simp: guarantees_def\<close>)+
qed

lemma guarantees_bind:
  assumes "guarantees G p" and "\<And>a. guarantees G (k a)"
  shows "guarantees G (prog_bind p k)"
  unfolding guarantees_def
proof (intro allI impI)
  fix l r assume "exec (prog_bind p k) l r"
  then show "\<forall>(w, v) \<in> set l. G w v"
    by (cases rule: exec_bindE) (use assms in \<open>fastforce simp: guarantees_def\<close>)+
qed

lemma guarantees_catch:
  assumes "guarantees G p" and "\<And>e. guarantees G (h e)"
  shows "guarantees G (prog_catch p h)"
  unfolding guarantees_def
proof (intro allI impI)
  fix l r assume "exec (prog_catch p h) l r"
  then show "\<forall>(w, v) \<in> set l. G w v"
    by (cases rule: exec_catchE) (use assms in \<open>fastforce simp: guarantees_def\<close>)+
qed

lemmas guarantees_intros = guarantees_Done guarantees_Raise guarantees_bind guarantees_catch

lemma guarantees_mono:
  "guarantees G p \<Longrightarrow> (\<And>w v. G w v \<Longrightarrow> H w v) \<Longrightarrow> guarantees H p"
  unfolding guarantees_def by fast

lemma guarantees_conj:
  "guarantees G p \<Longrightarrow> guarantees H p \<Longrightarrow> guarantees (\<lambda>w v. G w v \<and> H w v) p"
  unfolding guarantees_def by fast

lemma countedI:
  assumes "\<And>l. exec p l None \<Longrightarrow> length (filter P l) \<le> 1"
    and "\<And>l e. exec p l (Some (Inl e)) \<Longrightarrow> length (filter P l) = 0"
    and "\<And>l a. exec p l (Some (Inr a)) \<Longrightarrow> length (filter P l) = n a"
  shows "counted P n p"
  unfolding counted_def using assms by (auto split: option.split sum.split)

lemma countedD:
  assumes "counted P n p" and "exec p l r"
  shows "r = None \<Longrightarrow> length (filter P l) \<le> 1"
    and "r = Some (Inl e) \<Longrightarrow> length (filter P l) = 0"
    and "r = Some (Inr a) \<Longrightarrow> length (filter P l) = n a"
  using assms unfolding counted_def by fastforce+

text \<open>A program none of whose steps has the property counts none, and may go before any other.\<close>

lemma guarantees_filter:
  assumes "guarantees (\<lambda>w v. \<not> P (w, v)) p" and "exec p l r"
  shows "filter P l = []"
  using assms by (force simp: guarantees_def filter_empty_conv)

lemma counted_none: "guarantees (\<lambda>w v. \<not> P (w, v)) p \<Longrightarrow> counted P (\<lambda>a. 0) p"
  by (rule countedI) (simp_all add: guarantees_filter)

lemma counted_before:
  assumes "guarantees (\<lambda>w v. \<not> P (w, v)) p" and "\<And>a. counted P n (k a)"
  shows "counted P n (prog_bind p k)"
proof (rule countedI)
  show "length (filter P l) \<le> 1" if "exec (prog_bind p k) l None" for l
    using that
    by (cases rule: exec_bindE) (simp_all add: guarantees_filter [OF assms(1)] countedD(1) [OF assms(2), simplified])
  show "length (filter P l) = 0" if "exec (prog_bind p k) l (Some (Inl e))" for l e
    using that
    by (cases rule: exec_bindE) (simp_all add: guarantees_filter [OF assms(1)] countedD(2) [OF assms(2), simplified])
  show "length (filter P l) = n b" if "exec (prog_bind p k) l (Some (Inr b))" for l b
    using that
    by (cases rule: exec_bindE) (simp_all add: guarantees_filter [OF assms(1)] countedD(3) [OF assms(2), simplified])
qed

text \<open>After the counted part only results are made of its result.\<close>

lemma exec_cut: "exec p l r \<Longrightarrow> exec p l None"
  by (induction rule: exec.induct) (auto intro: exec.intros)

lemma counted_result:
  assumes "counted P m p"
    and "\<And>a. (\<exists>b. k a = Done b \<and> n b = m a) \<or> (\<exists>e. k a = Raise e \<and> m a = 0)"
  shows "counted P n (prog_bind p k)"
proof (rule countedI)
  show "length (filter P l) \<le> 1" if "exec (prog_bind p k) l None" for l
    using that
  proof (cases rule: exec_bindE)
    case (both a l1 l2)
    with assms(2) [of a] show ?thesis using countedD(1) [OF assms(1) exec_cut [OF both(1)]] by auto
  next
    case first
    show ?thesis by (rule countedD(1) [OF assms(1) first(1) refl])
  qed simp_all
  show "length (filter P l) = 0" if "exec (prog_bind p k) l (Some (Inl e))" for l e
    using that
  proof (cases rule: exec_bindE)
    case (both a l1 l2)
    with assms(2) [of a] countedD(3) [OF assms(1) both(1)] show ?thesis by auto
  qed (simp_all add: countedD(2) [OF assms(1), simplified])
  show "length (filter P l) = n b" if "exec (prog_bind p k) l (Some (Inr b))" for l b
    using that
  proof (cases rule: exec_bindE)
    case (both a l1 l2)
    with assms(2) [of a] countedD(3) [OF assms(1) both(1)] show ?thesis by auto
  qed simp_all
qed

lemma counted_catch:
  assumes "counted P n p" and "\<And>e. guarantees (\<lambda>w v. \<not> P (w, v)) (h e)"
    and "\<And>e l a. \<not> exec (h e) l (Some (Inr a))"
  shows "counted P n (prog_catch p h)"
proof (rule countedI)
  show "length (filter P l) \<le> 1" if "exec (prog_catch p h) l None" for l
    using that
  proof (cases rule: exec_catchE)
    case same
    show ?thesis by (rule countedD(1) [OF assms(1) same(1) refl])
  next
    case (both e l1 l2)
    with guarantees_filter [OF assms(2)] countedD(2) [OF assms(1) both(1) refl] show ?thesis by auto
  qed
  show "length (filter P l) = 0" if "exec (prog_catch p h) l (Some (Inl e'))" for l e'
    using that
  proof (cases rule: exec_catchE)
    case (both e l1 l2)
    with guarantees_filter [OF assms(2)] countedD(2) [OF assms(1) both(1) refl] show ?thesis by auto
  qed simp_all
  show "length (filter P l) = n b" if "exec (prog_catch p h) l (Some (Inr b))" for l b
    using that by (cases rule: exec_catchE) (simp_all add: countedD(3) [OF assms(1)] assms(3))
qed

lemma counted_Done: "n a = 0 \<Longrightarrow> counted P n (Done a)"
  by (auto simp: counted_def)

lemma counted_Raise: "counted P n (Raise e)"
  by (auto simp: counted_def)


text \<open>Whatever the program returns is in \<open>R\<close>.\<close>

definition results :: "('a \<Rightarrow> bool) \<Rightarrow> ('w, 'a) program \<Rightarrow> bool" where
  "results R p \<longleftrightarrow> (\<forall>l a. exec p l (Some (Inr a)) \<longrightarrow> R a)"

lemma results_Done: "R a \<Longrightarrow> results R (Done a)"
  by (simp add: results_def)

lemma results_Raise: "results R (Raise e)"
  by (simp add: results_def)

lemma results_bind: "(\<And>a. results R (k a)) \<Longrightarrow> results R (prog_bind p k)"
  unfolding results_def by (blast elim: exec_bindE)

lemmas results_intros = results_Done results_Raise results_bind

lemma resultsD: "results R p \<Longrightarrow> exec p l (Some (Inr a)) \<Longrightarrow> R a"
  by (auto simp: results_def)

text \<open>A program that returns ends with steps that \<open>Q\<close> says of its result.\<close>

definition tail_shows :: "('a \<Rightarrow> ('w \<times> 'w) list \<Rightarrow> bool) \<Rightarrow> ('w, 'a) program \<Rightarrow> bool" where
  "tail_shows Q p \<longleftrightarrow> (\<forall>l a. exec p l (Some (Inr a)) \<longrightarrow> (\<exists>l1 l2. l = l1 @ l2 \<and> Q a l2))"

lemma tail_shows_Done: "Q a [] \<Longrightarrow> tail_shows Q (Done a)"
  by (simp add: tail_shows_def)

lemma tail_shows_Raise: "tail_shows Q (Raise e)"
  by (simp add: tail_shows_def)

lemma tail_shows_bind:
  assumes "\<And>a. tail_shows Q (k a)"
  shows "tail_shows Q (prog_bind p k)"
  unfolding tail_shows_def
proof (intro allI impI)
  fix l b assume "exec (prog_bind p k) l (Some (Inr b))"
  then show "\<exists>l1 l2. l = l1 @ l2 \<and> Q b l2"
  proof (cases rule: exec_bindE)
    case (both a l1 l2)
    with assms obtain l3 l4 where "l2 = l3 @ l4" "Q b l4" unfolding tail_shows_def by blast
    with both(3) have "l = (l1 @ l3) @ l4 \<and> Q b l4" by simp
    then show ?thesis by blast
  qed simp_all
qed

lemmas tail_shows_intros = tail_shows_Done tail_shows_Raise tail_shows_bind

section \<open>The rows of the database and the services\<close>

datatype sandbox_instance_purpose = SESSION | DESIGNER | SNAPSHOT | SETUP_ASSISTANT | SETUP_CHECK | SKILLS_DISCOVERY

datatype sandbox_stop_reason = STOP_IDLE | STOP_DISCONNECTED | STOP_USER | STOP_SYSTEM | STOP_FAILED

datatype sandbox_deadline_kind = IDLE | DISCONNECT

record instance_row =
  organizationId :: string
  purpose :: sandbox_instance_purpose
  runtimeProvider :: string
  sandboxConnectionId :: "string option"
  sandboxVcpuCount :: "int option"
  sandboxMemoryMb :: "int option"
  sandboxDiskMb :: "int option"
  providerSandboxId :: "string option"
  computeGeneration :: int
  status :: sandbox_instance_status
  stoppedAt :: "string option"
  stopReason :: "sandbox_stop_reason option"
  failedAt :: "string option"
  failureCode :: "string option"
  failureMessage :: "string option"
  deletedAt :: "string option"
  updatedAt :: string

record deadline_row =
  deadline_ownerLeaseId :: string
  deadline_dueAt :: string
  deadline_generation :: int
  deadline_clearedAt :: "string option"
  deadline_updatedAt :: string

text \<open>What the gateway answers about its runtime state (\<open>SandboxRuntimeStateSnapshot\<close>).\<close>

record snapshot_attachment =
  attachment_ownerLeaseId :: string
  attachment_nodeId :: string
  attachment_sessionId :: string
  attachment_attachedAtMs :: int

record runtime_snapshot =
  ownerLeaseId :: "string option"
  attachment :: "snapshot_attachment option"
  presence_activeCount :: int
  keepalive_active :: bool
  runtime_ready :: bool

datatype provider_disposition = PROVIDER_ACTIVE | PROVIDER_STOPPING | RESUMABLE_STOPPED | TERMINAL_STOPPED

datatype provider_command = ShutdownRuntime string | StopProviderSandbox string | ResumeProviderSandbox string
  | EnsureSandboxd string | ActivateRuntime string

datatype usage_event_type = SANDBOX_ALLOCATED | SANDBOX_RESUMED | SANDBOX_READY | SANDBOX_STOPPED
  | SANDBOX_FAILED | SANDBOX_REPLACED

record usage_event =
  usage_idempotencyKey :: string
  usage_organizationId :: string
  usage_sandboxInstanceId :: string
  usage_computeGeneration :: "int option"
  usage_eventType :: usage_event_type
  usage_occurredAt :: string
  usage_runtimeProvider :: "string option"
  usage_providerSandboxId :: "string option"
  usage_vcpuCount :: "int option"
  usage_memoryMb :: "int option"
  usage_diskMb :: "int option"

text \<open>A run of the deadline workflow as it was enqueued: its key, when it may start, and its input.\<close>

record deadline_run =
  run_idempotencyKey :: string
  run_availableAt :: string
  run_sandboxInstanceId :: string
  run_kind :: sandbox_deadline_kind
  run_ownerLeaseId :: string
  run_dueAt :: string
  run_generation :: int

datatype terminate_outcome = TERMINATED | CLOSED | NOT_ATTACHED | TERMINATE_FENCE_MISMATCH

text \<open>
  The world: the tables, the transactions that hold the lock of an instance's row and the advisory lock of a
  deadline, the runs the workflow engine was given, the clocks of the database and of the worker, and what the services would answer now. An answer may depend on the commands the provider was given so far; in
  between the steps of a program the others may change all of this.
\<close>

record worker_world =
  instances :: "string \<Rightarrow> instance_row option"
  deadlines :: "string \<times> sandbox_deadline_kind \<Rightarrow> deadline_row option"
  usage_events :: "usage_event list"
  row_lock :: "string \<Rightarrow> nat option"
  advisory_lock :: "string \<times> sandbox_deadline_kind \<Rightarrow> nat option"
  deadline_runs :: "deadline_run list"
  db_now :: string
  worker_now :: string
  provider_commands :: "provider_command list"
  snapshot_answer :: "provider_command list \<Rightarrow> string \<Rightarrow> worker_error + runtime_snapshot"
  resolve_answer :: "instance_row \<Rightarrow> worker_error + unit"
  inspect_answer :: "provider_command list \<Rightarrow> string \<Rightarrow> worker_error + provider_disposition"
  command_answer :: "provider_command list \<Rightarrow> provider_command \<Rightarrow> worker_error + unit"
  evidence_answer :: "string \<Rightarrow> string option"
  enqueue_answer :: "deadline_run \<Rightarrow> worker_error + unit"
  terminate_answer :: "string \<Rightarrow> string \<Rightarrow> string option \<Rightarrow> worker_error + terminate_outcome"

fun of_answer :: "worker_error + 'a \<Rightarrow> ('w, 'a) program" where
  "of_answer (Inl e) = Raise e"
| "of_answer (Inr a) = Done a"

definition readSnapshot :: "string \<Rightarrow> (worker_world, runtime_snapshot) program" where
  "readSnapshot sid = Step (\<lambda>w. Some (w, of_answer (snapshot_answer w (provider_commands w) sid)))"

definition resolveRuntime :: "instance_row \<Rightarrow> (worker_world, unit) program" where
  "resolveRuntime row = Step (\<lambda>w. Some (w, of_answer (resolve_answer w row)))"

definition inspectProvider :: "string \<Rightarrow> (worker_world, provider_disposition) program" where
  "inspectProvider pid = Step (\<lambda>w. Some (w, of_answer (inspect_answer w (provider_commands w) pid)))"

definition commandProvider :: "provider_command \<Rightarrow> (worker_world, unit) program" where
  "commandProvider c = Step (\<lambda>w. Some (w\<lparr>provider_commands := provider_commands w @ [c]\<rparr>,
     of_answer (command_answer w (provider_commands w) c)))"

text \<open>Statements on the row of an instance.\<close>

definition findInstance :: "string \<Rightarrow> (worker_world, instance_row option) program" where
  "findInstance sid = Step (\<lambda>w. Some (w, Done (instances w sid)))"

definition updateInstance ::
  "string \<Rightarrow> (instance_row \<Rightarrow> bool) \<Rightarrow> (string \<Rightarrow> instance_row \<Rightarrow> instance_row) \<Rightarrow> (worker_world, bool) program" where
  "updateInstance sid matches set_columns = Step (\<lambda>w.
     if row_lock w sid \<noteq> None then None
     else case instances w sid of
       None \<Rightarrow> Some (w, Done False)
     | Some row \<Rightarrow> if matches row
         then Some (w\<lparr>instances := (instances w)(sid \<mapsto> set_columns (db_now w) row)\<rparr>, Done True)
         else Some (w, Done False))"

definition selectForUpdate :: "nat \<Rightarrow> string \<Rightarrow> (worker_world, instance_row option) program" where
  "selectForUpdate tx sid = Step (\<lambda>w.
     if row_lock w sid \<noteq> None then None
     else case instances w sid of
       None \<Rightarrow> Some (w, Done None)
     | Some row \<Rightarrow> Some (w\<lparr>row_lock := (row_lock w)(sid \<mapsto> tx)\<rparr>, Done (Some row)))"

definition release :: "string \<Rightarrow> worker_world \<Rightarrow> worker_world" where
  "release sid w = w\<lparr>row_lock := (row_lock w)(sid := None)\<rparr>"

definition clear_deadline :: "string \<Rightarrow> deadline_row \<Rightarrow> deadline_row" where
  "clear_deadline time d = (if deadline_clearedAt d = None
     then d\<lparr>deadline_clearedAt := Some time, deadline_updatedAt := time\<rparr> else d)"

definition clearSandboxInstanceDeadlines :: "string \<Rightarrow> worker_world \<Rightarrow> worker_world" where
  "clearSandboxInstanceDeadlines sid w = w\<lparr>deadlines := \<lambda>(i, kind).
     if i = sid then map_option (clear_deadline (db_now w)) (deadlines w (i, kind)) else deadlines w (i, kind)\<rparr>"

text \<open>
  The end of a transaction, which makes its writes visible and releases the lock: with no write, with the
  deadlines cleared, or with the row updated and the deadlines cleared, in which case a row that does not match
  leaves the transaction open. A transaction whose body throws is rolled back.
\<close>

definition commit :: "string \<Rightarrow> (worker_world, unit) program" where
  "commit sid = Step (\<lambda>w. Some (release sid w, Done ()))"

definition commitClearing :: "string \<Rightarrow> (worker_world, unit) program" where
  "commitClearing sid = Step (\<lambda>w. Some (release sid (clearSandboxInstanceDeadlines sid w), Done ()))"

definition commitUpdate ::
  "string \<Rightarrow> (instance_row \<Rightarrow> bool) \<Rightarrow> (string \<Rightarrow> instance_row \<Rightarrow> instance_row) \<Rightarrow> (worker_world, bool) program" where
  "commitUpdate sid matches set_columns = Step (\<lambda>w. case instances w sid of
     None \<Rightarrow> Some (w, Done False)
   | Some row \<Rightarrow> if matches row
       then Some (release sid (clearSandboxInstanceDeadlines sid
              (w\<lparr>instances := (instances w)(sid \<mapsto> set_columns (db_now w) row)\<rparr>)), Done True)
       else Some (w, Done False))"

definition transaction :: "string \<Rightarrow> (worker_world, 'a) program \<Rightarrow> (worker_world, 'a) program" where
  "transaction sid body = prog_catch body (\<lambda>e. prog_bind (commit sid) (\<lambda>_. Raise e))"

section \<open>Statements shared by the workflows\<close>

definition live_row :: "instance_row option \<Rightarrow> instance_row option" where
  "live_row found = (case found of None \<Rightarrow> None | Some row \<Rightarrow> if deletedAt row = None then Some row else None)"

definition applySandboxLifecycleEvent ::
  "string \<Rightarrow> sandbox_lifecycle_event \<Rightarrow> (worker_world, sandbox_instance_status) program" where
  "applySandboxLifecycleEvent sid event =
     prog_bind (findInstance sid) (\<lambda>found. case live_row found of
       None \<Rightarrow> Raise (WorkerError (''Sandbox instance '' @ quoted sid @ '' was not found for lifecycle event ''
                 @ quoted (event_string event) @ ''.''))
     | Some row \<Rightarrow> (case transitionSandboxLifecycle (status row) event of
         Invalid _ _ why \<Rightarrow> Raise (WorkerError why)
       | Unchanged s \<Rightarrow> Done s
       | Transition from to \<Rightarrow>
           prog_bind (updateInstance sid (\<lambda>r. status r = from \<and> deletedAt r = None)
               (\<lambda>time r. r\<lparr>status := to, updatedAt := time\<rparr>)) (\<lambda>updated.
             if updated then Done to
             else prog_bind (findInstance sid) (\<lambda>current. case live_row current of
               None \<Rightarrow> Raise (WorkerError (''Sandbox instance '' @ quoted sid @ '' was not found after lifecycle event ''
                         @ quoted (event_string event) @ '' missed its compare-and-swap update.''))
             | Some r \<Rightarrow> (case transitionSandboxLifecycle (status r) event of
                 Unchanged s \<Rightarrow> Done s
               | _ \<Rightarrow> Raise (WorkerError (''Failed to apply sandbox lifecycle event '' @ quoted (event_string event)
                         @ '' from '' @ quoted (status_string from) @ '' to '' @ quoted (status_string to) @ ''.'')))))))"

datatype mark_outcome = ALREADY_MARKED | FENCE_MISMATCH | MARKED

definition instance_not_found :: "string \<Rightarrow> worker_error" where
  "instance_not_found sid = WorkerError (''Sandbox instance '' @ quoted sid @ '' was not found.'')"

text \<open>
  The part the three marking functions share: in one transaction, with the row locked, a row that is already in
  the final status has its deadlines cleared; otherwise the row must pass the check of its status, the caller
  must still permit the change, and the row is updated and its deadlines are cleared.
\<close>

definition mark_instance ::
  "nat \<Rightarrow> string \<Rightarrow> sandbox_instance_status \<Rightarrow> (instance_row \<Rightarrow> sandbox_instance_status option) \<Rightarrow> worker_error \<Rightarrow>
   (worker_world, bool) program \<Rightarrow> (string \<Rightarrow> instance_row \<Rightarrow> instance_row) \<Rightarrow> (worker_world, mark_outcome) program" where
  "mark_instance tx sid final expected_status failure stillPermitted set_columns =
     prog_bind (selectForUpdate tx sid) (\<lambda>locked. case locked of
       None \<Rightarrow> Raise (instance_not_found sid)
     | Some row \<Rightarrow>
         if status row = final then prog_bind (commitClearing sid) (\<lambda>_. Done ALREADY_MARKED)
         else transaction sid (case expected_status row of
           None \<Rightarrow> Raise failure
         | Some from \<Rightarrow> prog_bind stillPermitted (\<lambda>permitted.
             if \<not> permitted then prog_bind (commit sid) (\<lambda>_. Done FENCE_MISMATCH)
             else prog_bind (commitUpdate sid (\<lambda>r. status r = from) set_columns) (\<lambda>updated.
               if updated then Done MARKED else Raise failure))))"

definition stopping_to_stopped :: "sandbox_instance_status \<Rightarrow> bool" where
  "stopping_to_stopped s = (case transitionSandboxLifecycle s PROVIDER_STOPPED of
     Transition _ to \<Rightarrow> to = STOPPED | _ \<Rightarrow> False)"

lemma stopping_to_stopped_iff [simp]: "stopping_to_stopped s \<longleftrightarrow> s = STOPPING"
  by (cases s) (simp_all add: stopping_to_stopped_def transitionSandboxLifecycle_def transitionFrom_def)

definition stop_markSandboxInstanceStopped ::
  "nat \<Rightarrow> string \<Rightarrow> sandbox_stop_reason \<Rightarrow> (worker_world, bool) program \<Rightarrow> (worker_world, mark_outcome) program" where
  "stop_markSandboxInstanceStopped tx sid why stillPermitted =
     mark_instance tx sid STOPPED
       (\<lambda>row. if stopping_to_stopped (status row) then Some (status row) else None)
       (WorkerError ''Failed to transition sandbox instance status from stopping to stopped.'')
       stillPermitted
       (\<lambda>time row. row\<lparr>status := STOPPED, stoppedAt := Some time, stopReason := Some why, updatedAt := time\<rparr>)"

definition reconcile_markSandboxInstanceStopped ::
  "nat \<Rightarrow> string \<Rightarrow> sandbox_instance_status \<Rightarrow> bool \<Rightarrow> (worker_world, bool) program \<Rightarrow>
   (worker_world, mark_outcome) program" where
  "reconcile_markSandboxInstanceStopped tx sid currentStatus clearProviderSandboxId stillPermitted =
     mark_instance tx sid STOPPED
       (\<lambda>row. if status row \<noteq> currentStatus then None
              else if currentStatus = STOPPING \<and> \<not> stopping_to_stopped (status row) then None
              else Some currentStatus)
       (WorkerError (''Failed to transition sandbox instance status from '' @ status_string currentStatus @ '' to stopped.''))
       stillPermitted
       (\<lambda>time row. row\<lparr>status := STOPPED,
          providerSandboxId := (if clearProviderSandboxId then None else providerSandboxId row),
          stoppedAt := Some time, failedAt := None, stopReason := Some STOP_DISCONNECTED,
          failureCode := None, failureMessage := None, updatedAt := time\<rparr>)"

definition moves_to_failed :: "sandbox_instance_status \<Rightarrow> bool" where
  "moves_to_failed s = (case transitionSandboxLifecycle s FAILURE_RECORDED of
     Transition _ to \<Rightarrow> to = FAILED | _ \<Rightarrow> False)"

lemma moves_to_failed_iff [simp]: "moves_to_failed s \<longleftrightarrow> s \<noteq> FAILED"
  by (cases s) (simp_all add: moves_to_failed_def transitionSandboxLifecycle_def transitionFrom_def)

definition markSandboxInstanceFailed ::
  "nat \<Rightarrow> string \<Rightarrow> sandbox_instance_status \<Rightarrow> string \<Rightarrow> string \<Rightarrow> (worker_world, bool) program \<Rightarrow>
   (worker_world, mark_outcome) program" where
  "markSandboxInstanceFailed tx sid currentStatus code message stillPermitted =
     mark_instance tx sid FAILED
       (\<lambda>row. if status row = currentStatus \<and> moves_to_failed (status row) then Some currentStatus else None)
       (WorkerError (''Failed to transition sandbox instance status from '' @ status_string currentStatus @ '' to failed.''))
       stillPermitted
       (\<lambda>time row. row\<lparr>status := FAILED, stopReason := Some STOP_FAILED, stoppedAt := None, failedAt := Some time,
          failureCode := Some code, failureMessage := Some message, updatedAt := time\<rparr>)"

definition stopSandbox :: "string \<Rightarrow> (worker_world, unit) program" where
  "stopSandbox pid = prog_bind (commandProvider (ShutdownRuntime pid)) (\<lambda>_. commandProvider (StopProviderSandbox pid))"

section \<open>What the statements do\<close>

text \<open>A step that ends the instance: its status becomes stopped or failed and was not that before.\<close>

definition ends :: "string \<Rightarrow> worker_world \<times> worker_world \<Rightarrow> bool" where
  "ends sid = (\<lambda>(w, v). case (instances w sid, instances v sid) of
     (Some r, Some r') \<Rightarrow> status r \<noteq> status r' \<and> status r' \<in> {STOPPED, FAILED} | _ \<Rightarrow> False)"

text \<open>A step that leaves the tables, the locks and the provider alone.\<close>

definition reads_only :: "worker_world \<Rightarrow> worker_world \<Rightarrow> bool" where
  "reads_only w v \<longleftrightarrow> v = w"

lemma guarantees_of_answer: "guarantees G (of_answer x)"
  by (cases x) (simp_all add: guarantees_intros)

lemma guarantees_reads:
  assumes "\<And>w. G w w"
  shows "guarantees G (readSnapshot sid)" and "guarantees G (resolveRuntime row)"
    and "guarantees G (inspectProvider pid)" and "guarantees G (findInstance sid)"
  using assms unfolding readSnapshot_def resolveRuntime_def inspectProvider_def findInstance_def
  by (auto intro!: guarantees_Step guarantees_of_answer guarantees_Done)

lemma guarantees_command:
  assumes "\<And>w. G w (w\<lparr>provider_commands := provider_commands w @ [c]\<rparr>)"
  shows "guarantees G (commandProvider c)"
  using assms unfolding commandProvider_def by (auto intro!: guarantees_Step guarantees_of_answer)

lemma guarantees_select:
  assumes "\<And>w. G w w" and "\<And>w. G w (w\<lparr>row_lock := (row_lock w)(sid \<mapsto> tx)\<rparr>)"
  shows "guarantees G (selectForUpdate tx sid)"
  using assms unfolding selectForUpdate_def
  by (auto intro!: guarantees_Step guarantees_Done split: option.splits if_splits)

lemma guarantees_commit: "(\<And>w. G w (release sid w)) \<Longrightarrow> guarantees G (commit sid)"
  unfolding commit_def by (auto intro!: guarantees_Step guarantees_Done)

lemma guarantees_commitClearing:
  "(\<And>w. G w (release sid (clearSandboxInstanceDeadlines sid w))) \<Longrightarrow> guarantees G (commitClearing sid)"
  unfolding commitClearing_def by (auto intro!: guarantees_Step guarantees_Done)

lemma guarantees_update:
  assumes "\<And>w. G w w"
    and "\<And>w row. instances w sid = Some row \<Longrightarrow> matches row \<Longrightarrow> row_lock w sid = None \<Longrightarrow>
      G w (w\<lparr>instances := (instances w)(sid \<mapsto> f (db_now w) row)\<rparr>)"
  shows "guarantees G (updateInstance sid matches f)"
  using assms unfolding updateInstance_def
  by (auto intro!: guarantees_Step guarantees_Done split: option.splits if_splits)

lemma guarantees_commitUpdate:
  assumes "\<And>w. G w w"
    and "\<And>w row. instances w sid = Some row \<Longrightarrow> matches row \<Longrightarrow>
      G w (release sid (clearSandboxInstanceDeadlines sid
        (w\<lparr>instances := (instances w)(sid \<mapsto> f (db_now w) row)\<rparr>)))"
  shows "guarantees G (commitUpdate sid matches f)"
  using assms unfolding commitUpdate_def
  by (auto intro!: guarantees_Step guarantees_Done split: option.splits if_splits)

lemmas guarantees_statements = guarantees_reads guarantees_command guarantees_select guarantees_commit
  guarantees_commitClearing guarantees_update guarantees_commitUpdate

lemma release_simps [simp]:
  "instances (release sid w) = instances w" "deadlines (release sid w) = deadlines w"
  "usage_events (release sid w) = usage_events w" "deadline_runs (release sid w) = deadline_runs w" "provider_commands (release sid w) = provider_commands w"
  "row_lock (release sid w) = (row_lock w)(sid := None)"
  by (simp_all add: release_def)

lemma clear_simps [simp]:
  "instances (clearSandboxInstanceDeadlines sid w) = instances w"
  "usage_events (clearSandboxInstanceDeadlines sid w) = usage_events w"
  "deadline_runs (clearSandboxInstanceDeadlines sid w) = deadline_runs w"
  "provider_commands (clearSandboxInstanceDeadlines sid w) = provider_commands w"
  "row_lock (clearSandboxInstanceDeadlines sid w) = row_lock w"
  by (simp_all add: clearSandboxInstanceDeadlines_def)

lemma ends_same [simp]: "instances v = instances w \<Longrightarrow> \<not> ends sid (w, v)"
  by (simp add: ends_def split: option.split)

lemma guarantees_transaction:
  "guarantees G body \<Longrightarrow> (\<And>w. G w (release sid w)) \<Longrightarrow> guarantees G (transaction sid body)"
  unfolding transaction_def by (intro guarantees_intros guarantees_commit)

lemma guarantees_mark:
  assumes same: "\<And>w v. instances v = instances w \<Longrightarrow> usage_events v = usage_events w \<Longrightarrow>
      provider_commands v = provider_commands w \<Longrightarrow> G w v"
    and permit: "guarantees G stillPermitted"
    and update: "\<And>w v row0 row. expected row0 = Some (status row) \<Longrightarrow> status row0 \<noteq> final \<Longrightarrow>
      instances w sid = Some row \<Longrightarrow> instances v = (instances w)(sid \<mapsto> f (db_now w) row) \<Longrightarrow>
      usage_events v = usage_events w \<Longrightarrow> provider_commands v = provider_commands w \<Longrightarrow> G w v"
  shows "guarantees G (mark_instance tx sid final expected failure stillPermitted f)"
proof -
  have commit_rules: "guarantees G (commit sid)" "guarantees G (commitClearing sid)"
    "guarantees G (selectForUpdate tx sid)"
    by (auto intro!: guarantees_statements same)
  have upd: "guarantees G (commitUpdate sid (\<lambda>r. status r = s) f)"
    if "expected row0 = Some s" "status row0 \<noteq> final" for row0 s
  proof (rule guarantees_commitUpdate)
    show "G w (release sid (clearSandboxInstanceDeadlines sid
        (w\<lparr>instances := (instances w)(sid \<mapsto> f (db_now w) row)\<rparr>)))"
      if "instances w sid = Some row" and "status row = s" for w row
      by (rule update [of row0 row]) (use that \<open>expected row0 = Some s\<close> \<open>status row0 \<noteq> final\<close> in simp_all)
  qed (simp add: same)
  show ?thesis
    unfolding mark_instance_def
  proof (rule guarantees_bind [OF commit_rules(3)])
    fix locked :: "instance_row option"
    show "guarantees G (case locked of None \<Rightarrow> Raise (instance_not_found sid) | Some row \<Rightarrow>
      if status row = final then prog_bind (commitClearing sid) (\<lambda>_. Done ALREADY_MARKED)
      else transaction sid (case expected row of None \<Rightarrow> Raise failure
        | Some s \<Rightarrow> prog_bind stillPermitted (\<lambda>permitted.
            if \<not> permitted then prog_bind (commit sid) (\<lambda>_. Done FENCE_MISMATCH)
            else prog_bind (commitUpdate sid (\<lambda>r. status r = s) f) (\<lambda>updated.
              if updated then Done MARKED else Raise failure))))"
    proof (cases "locked")
      case (Some row)
      then show ?thesis
        by (cases "status row = final"; cases "expected row")
          (auto intro!: guarantees_intros guarantees_transaction commit_rules permit upd same)
    qed (simp add: guarantees_Raise)
  qed
qed

lemma counted_mark:
  assumes permit: "guarantees (\<lambda>w v. \<not> ends sid (w, v)) stillPermitted"
    and final: "final \<in> {STOPPED, FAILED}" and f: "\<And>time row. status (f time row) = final"
    and expected: "\<And>row from. expected row = Some from \<Longrightarrow> from = status row"
  shows "counted (ends sid) (\<lambda>o'. if o' = MARKED then 1 else 0)
    (mark_instance tx sid final expected failure stillPermitted f)"
proof -
  have quiet: "guarantees (\<lambda>w v. \<not> ends sid (w, v)) (commit sid)"
    "guarantees (\<lambda>w v. \<not> ends sid (w, v)) (commitClearing sid)"
    "guarantees (\<lambda>w v. \<not> ends sid (w, v)) (selectForUpdate tx sid)"
    by (auto intro!: guarantees_statements)
  have upd: "counted (ends sid) (\<lambda>b. if b then 1 else 0) (commitUpdate sid (\<lambda>r. status r = s) f)"
    if "s \<noteq> final" for s
  proof (rule countedI)
    fix l show "length (filter (ends sid) l) \<le> 1"
      if "exec (commitUpdate sid (\<lambda>r. status r = s) f) l None"
      using that unfolding commitUpdate_def by (auto simp: exec_Step split: option.splits if_splits)
  next
    fix l e show "length (filter (ends sid) l) = 0"
      if "exec (commitUpdate sid (\<lambda>r. status r = s) f) l (Some (Inl e))"
      using that unfolding commitUpdate_def by (auto simp: exec_Step split: option.splits if_splits)
  next
    fix l b show "length (filter (ends sid) l) = (if b then 1 else 0)"
      if "exec (commitUpdate sid (\<lambda>r. status r = s) f) l (Some (Inr b))"
      using that final f \<open>s \<noteq> final\<close> unfolding commitUpdate_def
      by (auto simp: exec_Step ends_def split: option.splits if_splits)
  qed
  have body: "counted (ends sid) (\<lambda>o'. if o' = MARKED then 1 else 0)
    (prog_bind stillPermitted (\<lambda>permitted.
            if \<not> permitted then prog_bind (commit sid) (\<lambda>_. Done FENCE_MISMATCH)
            else prog_bind (commitUpdate sid (\<lambda>r. status r = s) f) (\<lambda>updated.
              if updated then Done MARKED else Raise failure)))" if "s \<noteq> final" for s
  proof (rule counted_before [OF permit])
    fix permitted
    show "counted (ends sid) (\<lambda>o'. if o' = MARKED then 1 else 0)
      (if \<not> permitted then prog_bind (commit sid) (\<lambda>_. Done FENCE_MISMATCH)
       else prog_bind (commitUpdate sid (\<lambda>r. status r = s) f) (\<lambda>updated.
              if updated then Done MARKED else Raise failure))"
    proof (cases permitted)
      case True
      have "counted (ends sid) (\<lambda>o'. if o' = MARKED then 1 else 0)
        (prog_bind (commitUpdate sid (\<lambda>r. status r = s) f) (\<lambda>updated.
              if updated then Done MARKED else Raise failure))"
        by (rule counted_result [OF upd [OF that]]) (case_tac a, auto)
      with True show ?thesis by simp
    qed (auto intro!: counted_before [OF quiet(1)] counted_Done)
  qed
  show ?thesis
    unfolding mark_instance_def
  proof (rule counted_before [OF quiet(3)])
    fix locked :: "instance_row option"
    show "counted (ends sid) (\<lambda>o'. if o' = MARKED then 1 else 0)
     (case locked of None \<Rightarrow> Raise (instance_not_found sid) | Some row \<Rightarrow>
      if status row = final then prog_bind (commitClearing sid) (\<lambda>_. Done ALREADY_MARKED)
      else transaction sid (case expected row of None \<Rightarrow> Raise failure
        | Some s \<Rightarrow> prog_bind stillPermitted (\<lambda>permitted.
            if \<not> permitted then prog_bind (commit sid) (\<lambda>_. Done FENCE_MISMATCH)
            else prog_bind (commitUpdate sid (\<lambda>r. status r = s) f) (\<lambda>updated.
              if updated then Done MARKED else Raise failure))))"
    proof (cases "locked")
      case (Some row)
      have catch: "counted (ends sid) (\<lambda>o'. if o' = MARKED then 1 else 0) (transaction sid body')"
        if "counted (ends sid) (\<lambda>o'. if o' = MARKED then 1 else 0) body'" for body'
        unfolding transaction_def
        by (rule counted_catch [OF that guarantees_bind [OF quiet(1) guarantees_Raise]])
          (auto elim!: exec_bindE)
      from Some expected [of row] show ?thesis
        by (cases "status row = final"; cases "expected row")
          (auto intro!: counted_before [OF quiet(2)] counted_Done counted_Raise catch body)
    qed (simp add: counted_Raise)
  qed
qed

text \<open>
  An instance is marked in this way only: its row was locked and passed the check, the caller then found the change
  still permitted, and the last step writes the row, clears the deadlines and releases the lock.
\<close>

lemma mark_marked:
  assumes "exec (mark_instance tx sid final expected failure stillPermitted f) l (Some (Inr MARKED))"
  obtains w0 row0 l2 w v row where "l = (w0, w0\<lparr>row_lock := (row_lock w0)(sid \<mapsto> tx)\<rparr>) # l2 @ [(w, v)]"
    and "instances w0 sid = Some row0" and "status row0 \<noteq> final" and "row_lock w0 sid = None" and "expected row0 = Some (status row)"
    and "exec stillPermitted l2 (Some (Inr True))" and "instances w sid = Some row"
    and "v = release sid (clearSandboxInstanceDeadlines sid (w\<lparr>instances := (instances w)(sid \<mapsto> f (db_now w) row)\<rparr>))"
proof -
  from assms[unfolded mark_instance_def] show thesis
  proof (cases rule: exec_bindE)
    case (both found l1 l2)
    from both(2) obtain row where row: "found = Some row"
      by (cases found) auto
    from both(1) row obtain w0 where l1: "l1 = [(w0, w0\<lparr>row_lock := (row_lock w0)(sid \<mapsto> tx)\<rparr>)]"
      "instances w0 sid = Some row" "row_lock w0 sid = None"
      unfolding selectForUpdate_def by (auto simp: exec_Step split: if_splits option.splits)
    have "status row \<noteq> final"
    proof
      assume "status row = final"
      with both(2) row have "exec (prog_bind (commitClearing sid) (\<lambda>_. Done ALREADY_MARKED)) l2 (Some (Inr MARKED))"
        by simp
      then show False by (auto elim: exec_bindE)
    qed
    with both(2) row have "exec (transaction sid (case expected row of None \<Rightarrow> Raise failure
        | Some s \<Rightarrow> prog_bind stillPermitted (\<lambda>permitted.
            if \<not> permitted then prog_bind (commit sid) (\<lambda>_. Done FENCE_MISMATCH)
            else prog_bind (commitUpdate sid (\<lambda>r. status r = s) f) (\<lambda>updated.
              if updated then Done MARKED else Raise failure)))) l2 (Some (Inr MARKED))" (is "exec (transaction sid ?b) _ _")
      by simp
    then have b: "exec ?b l2 (Some (Inr MARKED))"
      unfolding transaction_def by (cases rule: exec_catchE) (auto elim: exec_bindE)
    then obtain s where s: "expected row = Some s" by (cases "expected row") auto
    from b have "exec (prog_bind stillPermitted (\<lambda>permitted.
            if \<not> permitted then prog_bind (commit sid) (\<lambda>_. Done FENCE_MISMATCH)
            else prog_bind (commitUpdate sid (\<lambda>r. status r = s) f) (\<lambda>updated.
              if updated then Done MARKED else Raise failure))) l2 (Some (Inr MARKED))"
      by (simp add: s)
    then show thesis
    proof (cases rule: exec_bindE)
      case (both permitted l3 l4)
      have permitted: permitted
        using both(2) by (cases permitted) (auto elim: exec_bindE)
      with both(2) have "exec (prog_bind (commitUpdate sid (\<lambda>r. status r = s) f) (\<lambda>updated.
              if updated then Done MARKED else Raise failure)) l4 (Some (Inr MARKED))" by simp
      then obtain l5 where "exec (commitUpdate sid (\<lambda>r. status r = s) f) l5 (Some (Inr True))" "l4 = l5"
        by (cases rule: exec_bindE) (auto split: if_splits)
      then obtain w row' where w: "instances w sid = Some row'" "status row' = s"
        "l4 = [(w, release sid (clearSandboxInstanceDeadlines sid
           (w\<lparr>instances := (instances w)(sid \<mapsto> f (db_now w) row')\<rparr>)))]"
        unfolding commitUpdate_def by (auto simp: exec_Step split: option.splits if_splits)
      show thesis
        by (rule that [OF _ l1(2) \<open>status row \<noteq> final\<close> l1(3), of l3 w _ row'])
          (use \<open>l = l1 @ l2\<close> l1 both w s permitted in simp_all)
    qed simp_all
  qed simp_all
qed

end
