(* ===== verification/SandboxStop.thy ===== *)
theory SandboxStop
  imports WorkerPrograms
begin

text \<open>
  Stopping a sandbox (\<open>apps/data-plane-worker/openworkflow/stop-sandbox-instance\<close>): the policy on what the provider
  reports (\<open>stop-provider-policy.ts\<close>) and \<open>stopSandboxInstance\<close> (\<open>stop-sandbox-instance.ts\<close>), which is
  \<^emph>\<open>fenced\<close>: before it loads the instance, before it asks the provider, before it requests the stop and in the
  transaction that marks the instance, it reads the runtime state of the gateway and goes on only if an idle
  stop still finds the sandbox attached by the owner it was meant for. Records of operation events are left out:
  their failures are swallowed.
\<close>

section \<open>The provider\<close>

datatype stop_provider_state = PROVIDER (disposition: provider_disposition) | MISSING

datatype stop_provider_action =
    StopFail (fail_code: string) (fail_message: string)
  | StopMarkStopped
  | StopRetryInProgress string
  | ShutdownStopThenInspect

fun determineStopProviderAction :: "stop_provider_state \<Rightarrow> stop_provider_action" where
  "determineStopProviderAction MISSING = StopFail ''provider_runtime_missing''
     ''Sandbox runtime was not found at the provider during stop execution.''"
| "determineStopProviderAction (PROVIDER TERMINAL_STOPPED) = StopFail ''provider_runtime_terminal''
     ''Sandbox runtime was terminal at the provider during stop execution.''"
| "determineStopProviderAction (PROVIDER RESUMABLE_STOPPED) = StopMarkStopped"
| "determineStopProviderAction (PROVIDER PROVIDER_STOPPING) =
     StopRetryInProgress ''Sandbox runtime stop is still in progress at the provider.''"
| "determineStopProviderAction (PROVIDER PROVIDER_ACTIVE) = ShutdownStopThenInspect"

definition inspectStopProviderStateOrMissing :: "string \<Rightarrow> (worker_world, stop_provider_state) program" where
  "inspectStopProviderStateOrMissing pid =
     prog_catch (prog_bind (inspectProvider pid) (\<lambda>d. Done (PROVIDER d)))
       (\<lambda>e. if e \<noteq> SandboxResourceNotFound then Raise e else Done MISSING)"

section \<open>The fence\<close>

text \<open>\<open>?.\<close> gives \<open>undefined\<close> for a sandbox without an attachment, which equals no lease.\<close>

definition shouldExecuteSandboxStop ::
  "sandbox_stop_reason \<Rightarrow> string option \<Rightarrow> runtime_snapshot \<Rightarrow> bool" where
  "shouldExecuteSandboxStop why expectedOwnerLeaseId snapshot =
     (if why = STOP_USER then True
      else case expectedOwnerLeaseId of
        None \<Rightarrow> False
      | Some expected \<Rightarrow> why = STOP_IDLE \<and> ownerLeaseId snapshot = Some expected
          \<and> map_option attachment_ownerLeaseId (attachment snapshot) = Some expected)"

record stop_permission =
  permitted :: bool
  permission_snapshot :: runtime_snapshot

record stop_input =
  stop_sandboxInstanceId :: string
  stop_stopReason :: sandbox_stop_reason
  stop_expectedOwnerLeaseId :: "string option"

definition readSandboxStopPermission :: "stop_input \<Rightarrow> (worker_world, stop_permission) program" where
  "readSandboxStopPermission i = prog_bind (readSnapshot (stop_sandboxInstanceId i)) (\<lambda>s.
     Done \<lparr>permitted = shouldExecuteSandboxStop (stop_stopReason i) (stop_expectedOwnerLeaseId i) s,
           permission_snapshot = s\<rparr>)"

definition stopStillPermitted :: "stop_input \<Rightarrow> (worker_world, bool) program" where
  "stopStillPermitted i = prog_bind (readSandboxStopPermission i) (\<lambda>p. Done (permitted p))"

section \<open>The stop\<close>

record termination_target =
  target_expectedOwnerLeaseId :: string
  target_expectedSessionId :: "string option"

definition resolveBootstrapAttachmentTerminationTarget :: "runtime_snapshot \<Rightarrow> termination_target option" where
  "resolveBootstrapAttachmentTerminationTarget snapshot = (case attachment snapshot of
     None \<Rightarrow> None
   | Some a \<Rightarrow> Some \<lparr>target_expectedOwnerLeaseId = attachment_ownerLeaseId a,
       target_expectedSessionId = Some (attachment_sessionId a)\<rparr>)"

record usage_event_state =
  state_organizationId :: string
  state_runtimeProvider :: string
  state_providerSandboxId :: string
  state_computeGeneration :: int
  state_vcpuCount :: "int option"
  state_memoryMb :: "int option"
  state_diskMb :: "int option"

datatype stop_outcome = OUTCOME_STOPPED | OUTCOME_FAILED | OUTCOME_ALREADY_STOPPED
  | FENCE_BEFORE_LOAD | FENCE_BEFORE_STOP | FENCE_BEFORE_MARK

record stop_result =
  executed :: bool
  stop_result_outcome :: stop_outcome
  terminationTarget :: "termination_target option"
  terminalFailure :: "(string \<times> string) option"
  usageEventState :: "usage_event_state option"

definition stop_skipped :: "stop_outcome \<Rightarrow> termination_target option \<Rightarrow> stop_result" where
  "stop_skipped outcome target = \<lparr>executed = False, stop_result_outcome = outcome, terminationTarget = target,
     terminalFailure = None, usageEventState = None\<rparr>"

text \<open>The row together with its provider sandbox id, which is not null.\<close>

definition createStopSandboxUsageEventState :: "instance_row \<Rightarrow> string \<Rightarrow> usage_event_state" where
  "createStopSandboxUsageEventState row pid = \<lparr>state_organizationId = organizationId row,
     state_runtimeProvider = runtimeProvider row, state_providerSandboxId = pid,
     state_computeGeneration = computeGeneration row, state_vcpuCount = sandboxVcpuCount row,
     state_memoryMb = sandboxMemoryMb row, state_diskMb = sandboxDiskMb row\<rparr>"

definition resolveStoppableSandboxInstanceStopState ::
  "string \<Rightarrow> (worker_world, (instance_row \<times> string) option) program" where
  "resolveStoppableSandboxInstanceStopState sid =
     prog_bind (findInstance sid) (\<lambda>found. case found of
       None \<Rightarrow> Raise (instance_not_found sid)
     | Some row \<Rightarrow>
         if status row = STOPPED then Done None
         else if status row \<noteq> RUNNING \<and> status row \<noteq> RECONNECTING \<and> status row \<noteq> STOPPING
         then Raise (WorkerError (''Expected sandbox instance '' @ quoted sid
                @ '' to be running, reconnecting, stopping, or stopped before stop execution.''))
         else (case providerSandboxId row of
           None \<Rightarrow> Raise (WorkerError (''Expected '' @ status_string (status row) @ '' sandbox instance ''
                     @ quoted sid @ '' to have a providerSandboxId.''))
         | Some pid \<Rightarrow> Done (Some (row, pid))))"

fun purpose_string :: "sandbox_instance_purpose \<Rightarrow> string" where
  "purpose_string SESSION = ''session''"
| "purpose_string DESIGNER = ''designer''"
| "purpose_string SNAPSHOT = ''snapshot''"
| "purpose_string SETUP_ASSISTANT = ''setup_assistant''"
| "purpose_string SETUP_CHECK = ''setup_check''"
| "purpose_string SKILLS_DISCOVERY = ''skills_discovery''"

definition isWorkflowUserStopReasonSupportedPurpose :: "sandbox_instance_purpose \<Rightarrow> bool" where
  "isWorkflowUserStopReasonSupportedPurpose p \<longleftrightarrow>
     p \<in> {SESSION, DESIGNER, SETUP_ASSISTANT, SETUP_CHECK, SKILLS_DISCOVERY}"

definition assertWorkflowUserStopReason ::
  "stop_input \<Rightarrow> sandbox_instance_purpose \<Rightarrow> (worker_world, unit) program" where
  "assertWorkflowUserStopReason i p =
     (if stop_stopReason i \<noteq> STOP_USER \<or> isWorkflowUserStopReasonSupportedPurpose p then Done ()
      else Raise (WorkerError (''Workflow stop reason 'user' is only supported for session, setup-check, and setup-assistant sandbox instances; sandbox instance ''
             @ quoted (stop_sandboxInstanceId i) @ '' has purpose '' @ quoted (purpose_string p) @ ''.'')))"

definition markStopProviderFailureOrThrow ::
  "nat \<Rightarrow> stop_input \<Rightarrow> sandbox_instance_status \<Rightarrow> string \<Rightarrow> string \<Rightarrow> usage_event_state \<Rightarrow>
   (worker_world, stop_result) program" where
  "markStopProviderFailureOrThrow tx i currentStatus code message usage =
     prog_bind (markSandboxInstanceFailed tx (stop_sandboxInstanceId i) currentStatus code message
         (stopStillPermitted i)) (\<lambda>outcome.
       if outcome = FENCE_MISMATCH then Done (stop_skipped FENCE_BEFORE_MARK None)
       else Done \<lparr>executed = (outcome = MARKED), stop_result_outcome = OUTCOME_FAILED, terminationTarget = None,
         terminalFailure = Some (code, message),
         usageEventState = (if outcome = MARKED then Some usage else None)\<rparr>)"

text \<open>
  \<open>stopSandboxInstance\<close> in the order of its stages: the final mark, the provider's stop with the inspection after it,
  the marking of the request, and the loading with its fences.
\<close>

definition stop_mark_stopped ::
  "nat \<Rightarrow> stop_input \<Rightarrow> termination_target option \<Rightarrow> usage_event_state \<Rightarrow> (worker_world, stop_result) program" where
  "stop_mark_stopped tx i target usage =
     prog_bind (stop_markSandboxInstanceStopped tx (stop_sandboxInstanceId i) (stop_stopReason i)
         (stopStillPermitted i)) (\<lambda>outcome. case outcome of
       FENCE_MISMATCH \<Rightarrow> Done (stop_skipped FENCE_BEFORE_MARK None)
     | ALREADY_MARKED \<Rightarrow> Done (stop_skipped OUTCOME_ALREADY_STOPPED target)
     | MARKED \<Rightarrow> Done \<lparr>executed = True, stop_result_outcome = OUTCOME_STOPPED, terminationTarget = target,
         terminalFailure = None, usageEventState = Some usage\<rparr>)"

definition stop_inspect_again ::
  "nat \<Rightarrow> stop_input \<Rightarrow> sandbox_instance_status \<Rightarrow> string \<Rightarrow> termination_target option \<Rightarrow> usage_event_state \<Rightarrow>
   (worker_world, stop_result) program" where
  "stop_inspect_again tx i stopRequestedStatus pid target usage =
     prog_bind (inspectStopProviderStateOrMissing pid) (\<lambda>after. case determineStopProviderAction after of
       StopFail code message \<Rightarrow> markStopProviderFailureOrThrow tx i stopRequestedStatus code message usage
     | StopRetryInProgress why \<Rightarrow> Raise (WorkerError why)
     | ShutdownStopThenInspect \<Rightarrow>
         Raise (WorkerError ''Sandbox runtime remained active at the provider after provider stop.'')
     | StopMarkStopped \<Rightarrow> stop_mark_stopped tx i target usage)"

text \<open>The exception of the provider's stop is told from those of the steps after it by returning it.\<close>

definition try_stopSandbox :: "string \<Rightarrow> (worker_world, worker_error option) program" where
  "try_stopSandbox pid = prog_catch (prog_bind (stopSandbox pid) (\<lambda>_. Done None)) (\<lambda>e. Done (Some e))"

definition stop_provider ::
  "nat \<Rightarrow> stop_input \<Rightarrow> sandbox_instance_status \<Rightarrow> string \<Rightarrow> termination_target option \<Rightarrow> usage_event_state \<Rightarrow>
   (worker_world, stop_result) program" where
  "stop_provider tx i stopRequestedStatus pid target usage =
     prog_bind (try_stopSandbox pid) (\<lambda>failed. case failed of
       None \<Rightarrow> stop_inspect_again tx i stopRequestedStatus pid target usage
     | Some e \<Rightarrow>
         if e \<noteq> SandboxResourceNotFound then Raise e
         else markStopProviderFailureOrThrow tx i stopRequestedStatus ''provider_runtime_missing''
                ''Sandbox runtime was not found at the provider during sandbox stop.'' usage)"

definition stop_requested ::
  "nat \<Rightarrow> stop_input \<Rightarrow> stop_provider_action \<Rightarrow> string \<Rightarrow> termination_target option \<Rightarrow> usage_event_state \<Rightarrow>
   (worker_world, stop_result) program" where
  "stop_requested tx i initialAction pid target usage =
     prog_bind (readSandboxStopPermission i) (\<lambda>beforeMark.
       if \<not> permitted beforeMark then Done (stop_skipped FENCE_BEFORE_MARK None)
       else prog_bind (applySandboxLifecycleEvent (stop_sandboxInstanceId i) STOP_REQUESTED)
         (\<lambda>stopRequestedStatus.
           if initialAction = ShutdownStopThenInspect
           then stop_provider tx i stopRequestedStatus pid target usage
           else stop_mark_stopped tx i target usage))"

definition stop_loaded ::
  "nat \<Rightarrow> stop_input \<Rightarrow> instance_row \<Rightarrow> string \<Rightarrow> (worker_world, stop_result) program" where
  "stop_loaded tx i row pid =
     prog_bind (assertWorkflowUserStopReason i (purpose row)) (\<lambda>_.
     prog_bind (readSandboxStopPermission i) (\<lambda>beforeStop.
       if \<not> permitted beforeStop then Done (stop_skipped FENCE_BEFORE_STOP None)
       else prog_bind (resolveRuntime row) (\<lambda>_.
         prog_bind (inspectStopProviderStateOrMissing pid) (\<lambda>initialState.
           case determineStopProviderAction initialState of
             StopFail code message \<Rightarrow> markStopProviderFailureOrThrow tx i (status row) code message
                 (createStopSandboxUsageEventState row pid)
           | StopRetryInProgress why \<Rightarrow> Raise (WorkerError why)
           | action \<Rightarrow> stop_requested tx i action pid
               (resolveBootstrapAttachmentTerminationTarget (permission_snapshot beforeStop))
               (createStopSandboxUsageEventState row pid)))))"

definition stopSandboxInstance :: "nat \<Rightarrow> stop_input \<Rightarrow> (worker_world, stop_result) program" where
  "stopSandboxInstance tx i =
     prog_bind (readSandboxStopPermission i) (\<lambda>initial.
       if \<not> permitted initial then Done (stop_skipped FENCE_BEFORE_LOAD None)
       else prog_bind (resolveStoppableSandboxInstanceStopState (stop_sandboxInstanceId i)) (\<lambda>state.
         case state of
           None \<Rightarrow> Done (stop_skipped OUTCOME_ALREADY_STOPPED
               (resolveBootstrapAttachmentTerminationTarget (permission_snapshot initial)))
         | Some (row, pid) \<Rightarrow> stop_loaded tx i row pid))"

section \<open>Every step of a stop\<close>

lemma guarantees_try_stop:
  assumes "\<And>w c. G w (w\<lparr>provider_commands := provider_commands w @ [c]\<rparr>)"
  shows "guarantees G (try_stopSandbox pid)"
  using assms unfolding try_stopSandbox_def stopSandbox_def
  by (intro guarantees_intros guarantees_command)

lemma guarantees_inspect:
  assumes "\<And>w. G w w"
  shows "guarantees G (inspectStopProviderStateOrMissing pid)"
  using assms unfolding inspectStopProviderStateOrMissing_def
  by (auto intro!: guarantees_intros guarantees_statements)

lemma guarantees_permission:
  assumes "\<And>w. G w w"
  shows "guarantees G (readSandboxStopPermission i)" "guarantees G (stopStillPermitted i)"
  using assms unfolding stopStillPermitted_def readSandboxStopPermission_def
  by (auto intro!: guarantees_intros guarantees_statements)

lemma guarantees_resolve:
  assumes "\<And>w. G w w"
  shows "guarantees G (resolveStoppableSandboxInstanceStopState sid)"
  using assms unfolding resolveStoppableSandboxInstanceStopState_def
  by (auto intro!: guarantees_intros guarantees_statements split: option.split if_split)

lemma guarantees_assert: "guarantees G (assertWorkflowUserStopReason i p)"
  unfolding assertWorkflowUserStopReason_def by (simp add: guarantees_intros)

lemmas guarantees_stop_reads = guarantees_inspect guarantees_permission guarantees_resolve guarantees_assert
  guarantees_statements guarantees_try_stop

text \<open>Steps of a stop that do not end the instance.\<close>

lemma apply_not_ending:
  assumes "event \<noteq> PROVIDER_STOPPED" and "event \<noteq> FAILURE_RECORDED"
  shows "guarantees (\<lambda>w v. \<not> ends sid (w, v)) (applySandboxLifecycleEvent sid event)"
proof -
  have "to \<notin> {STOPPED, FAILED}" if "transitionSandboxLifecycle s event = Transition from to" for s "from" to
    using that assms unfolding transitionSandboxLifecycle_def transitionFrom_def
    by (cases event) (auto split: if_splits)
  then show ?thesis
    unfolding applySandboxLifecycleEvent_def
    by (auto intro!: guarantees_intros guarantees_statements simp: ends_def
        split: option.split transition_result.split if_split)
qed

lemma counted_stop_mark:
  "counted (ends (stop_sandboxInstanceId i)) (\<lambda>o'. if o' = MARKED then 1 else 0)
     (stop_markSandboxInstanceStopped tx (stop_sandboxInstanceId i) why (stopStillPermitted i))"
  unfolding stop_markSandboxInstanceStopped_def
  by (rule counted_mark) (auto intro!: guarantees_stop_reads split: if_splits)

lemma counted_fail_mark:
  assumes "guarantees (\<lambda>w v. \<not> ends sid (w, v)) stillPermitted"
  shows "counted (ends sid) (\<lambda>o'. if o' = MARKED then 1 else 0)
     (markSandboxInstanceFailed tx sid s code message stillPermitted)"
  unfolding markSandboxInstanceFailed_def
  by (rule counted_mark [OF assms]) (auto split: if_splits)

abbreviation stop_count :: "stop_result \<Rightarrow> nat" where
  "stop_count r \<equiv> (if executed r then 1 else 0)"

lemma counted_stop_mark_stopped:
  "counted (ends (stop_sandboxInstanceId i)) stop_count (stop_mark_stopped tx i target usage)"
  unfolding stop_mark_stopped_def
  by (rule counted_result [OF counted_stop_mark]) (case_tac a, simp_all add: stop_skipped_def)

lemma counted_stop_failure:
  "counted (ends (stop_sandboxInstanceId i)) stop_count
     (markStopProviderFailureOrThrow tx i s code message usage)"
  unfolding markStopProviderFailureOrThrow_def
  by (rule counted_result [OF counted_fail_mark]) (auto intro!: guarantees_stop_reads simp: stop_skipped_def)

lemma counted_stop_provider:
  "counted (ends (stop_sandboxInstanceId i)) stop_count (stop_provider tx i s pid target usage)"
proof -
  have again: "counted (ends (stop_sandboxInstanceId i)) stop_count (stop_inspect_again tx i s pid target usage)"
    unfolding stop_inspect_again_def
    by (rule counted_before)
      (auto intro!: guarantees_stop_reads counted_stop_failure counted_stop_mark_stopped counted_Raise
        split: stop_provider_action.split)
  show ?thesis
    unfolding stop_provider_def
    by (rule counted_before)
      (auto intro!: guarantees_stop_reads again counted_stop_failure counted_Raise split: option.split)
qed

lemma counted_stop_loaded:
  "counted (ends (stop_sandboxInstanceId i)) stop_count (stop_loaded tx i row pid)"
proof -
  have requested: "counted (ends (stop_sandboxInstanceId i)) stop_count (stop_requested tx i action pid target usage)"
    for action target usage
    unfolding stop_requested_def
    by (auto intro!: counted_before guarantees_stop_reads apply_not_ending counted_stop_provider
        counted_stop_mark_stopped counted_Done simp: stop_skipped_def)
  show ?thesis
    unfolding stop_loaded_def
    by (auto intro!: counted_before guarantees_stop_reads requested counted_stop_failure counted_Raise counted_Done
        simp: stop_skipped_def split: stop_provider_action.split)
qed

lemma counted_stop:
  "counted (ends (stop_sandboxInstanceId i)) stop_count (stopSandboxInstance tx i)"
  unfolding stopSandboxInstance_def
  by (auto intro!: counted_before guarantees_stop_reads counted_stop_loaded counted_Done
      simp: stop_skipped_def split: option.split)

text \<open>What a result says agrees with itself.\<close>

definition consistent_result :: "stop_result \<Rightarrow> bool" where
  "consistent_result r \<longleftrightarrow> (executed r \<longleftrightarrow> usageEventState r \<noteq> None)
     \<and> (executed r \<longrightarrow> stop_result_outcome r \<in> {OUTCOME_STOPPED, OUTCOME_FAILED})
     \<and> (terminalFailure r \<noteq> None \<longleftrightarrow> stop_result_outcome r = OUTCOME_FAILED)"

lemma stop_results: "results consistent_result (stopSandboxInstance tx i)"
  unfolding stopSandboxInstance_def stop_loaded_def stop_requested_def stop_provider_def stop_inspect_again_def
    stop_mark_stopped_def markStopProviderFailureOrThrow_def
  by (auto intro!: results_intros simp: consistent_result_def stop_skipped_def
      split: option.split stop_provider_action.split mark_outcome.split)

section \<open>The fence holds at the end\<close>

text \<open>
  The last three steps of a stop that ended the instance: the row was locked, the runtime state read was one in
  which the stop is permitted, and the row was written.
\<close>

definition locks_row :: "nat \<Rightarrow> string \<Rightarrow> worker_world \<times> worker_world \<Rightarrow> bool" where
  "locks_row tx sid = (\<lambda>(w, v). row_lock w sid = None \<and> v = w\<lparr>row_lock := (row_lock w)(sid \<mapsto> tx)\<rparr>)"

definition reads_permission :: "stop_input \<Rightarrow> worker_world \<times> worker_world \<Rightarrow> bool" where
  "reads_permission i = (\<lambda>(w, v). v = w \<and>
     (case snapshot_answer w (provider_commands w) (stop_sandboxInstanceId i) of
        Inl e \<Rightarrow> False
      | Inr s \<Rightarrow> shouldExecuteSandboxStop (stop_stopReason i) (stop_expectedOwnerLeaseId i) s))"

definition clears_deadlines :: "string \<Rightarrow> worker_world \<times> worker_world \<Rightarrow> bool" where
  "clears_deadlines sid = (\<lambda>(w, v). \<forall>kind. case deadlines v (sid, kind) of
     None \<Rightarrow> True | Some d \<Rightarrow> deadline_clearedAt d \<noteq> None)"

definition fenced_end :: "nat \<Rightarrow> stop_input \<Rightarrow> stop_result \<Rightarrow> (worker_world \<times> worker_world) list \<Rightarrow> bool" where
  "fenced_end tx i res l \<longleftrightarrow> (executed res \<longrightarrow> (\<exists>x y z. l = [x, y, z] \<and>
     locks_row tx (stop_sandboxInstanceId i) x \<and> reads_permission i y \<and>
     ends (stop_sandboxInstanceId i) z \<and> clears_deadlines (stop_sandboxInstanceId i) z))"

lemma stillPermitted_read:
  assumes "exec (stopStillPermitted i) l (Some (Inr True))"
  shows "\<exists>x. l = [x] \<and> reads_permission i x"
proof -
  from assms obtain w s where "l = [(w, w)]"
    and "snapshot_answer w (provider_commands w) (stop_sandboxInstanceId i) = Inr s"
    and "shouldExecuteSandboxStop (stop_stopReason i) (stop_expectedOwnerLeaseId i) s"
    unfolding stopStillPermitted_def readSandboxStopPermission_def readSnapshot_def
    by (auto simp: exec_Step) (case_tac "snapshot_answer w (provider_commands w) (stop_sandboxInstanceId i)"; auto)
  then show ?thesis by (auto simp: reads_permission_def)
qed

lemma cleared_after_update: "clears_deadlines sid (w, release sid (clearSandboxInstanceDeadlines sid v))"
  by (auto simp: clears_deadlines_def clearSandboxInstanceDeadlines_def clear_deadline_def
      split: option.split)

lemma mark_fenced:
  assumes "exec (mark_instance tx sid final expected failure stillPermitted f) l (Some (Inr MARKED))"
    and "\<And>l. exec stillPermitted l (Some (Inr True)) \<Longrightarrow> \<exists>y. l = [y] \<and> R y" and "final \<in> {STOPPED, FAILED}"
    and "\<And>time row. status (f time row) = final"
    and "\<And>row s. expected row = Some s \<Longrightarrow> s = status row"
  shows "\<exists>x y z. l = [x, y, z] \<and> locks_row tx sid x \<and> R y \<and> ends sid z \<and> clears_deadlines sid z"
proof -
  from mark_marked [OF assms(1)] obtain w0 row0 l2 w v row where
    l: "l = (w0, w0\<lparr>row_lock := (row_lock w0)(sid \<mapsto> tx)\<rparr>) # l2 @ [(w, v)]" "row_lock w0 sid = None"
      "expected row0 = Some (status row)" "status row0 \<noteq> final" "exec stillPermitted l2 (Some (Inr True))"
      "instances w sid = Some row"
      "v = release sid (clearSandboxInstanceDeadlines sid (w\<lparr>instances := (instances w)(sid \<mapsto> f (db_now w) row)\<rparr>))"
    by metis
  from assms(2) [OF l(5)] obtain y where "l2 = [y]" "R y" by blast
  moreover have "ends sid (w, v)"
    using l(4,6,7) assms(3,4) assms(5) [OF l(3)] by (auto simp: ends_def)
  moreover have "clears_deadlines sid (w, v)" by (simp add: l(7) cleared_after_update)
  ultimately show ?thesis using l(1,2) by (auto simp: locks_row_def)
qed

lemma tail_stop_mark: "tail_shows (fenced_end tx i) (stop_mark_stopped tx i target usage)"
  unfolding tail_shows_def
proof (intro allI impI)
  fix l res assume "exec (stop_mark_stopped tx i target usage) l (Some (Inr res))"
  then show "\<exists>l1 l2. l = l1 @ l2 \<and> fenced_end tx i res l2"
    unfolding stop_mark_stopped_def
  proof (cases rule: exec_bindE)
    case (both outcome l1 l2)
    then have l2: "l2 = []" by (cases outcome) auto
    show ?thesis
    proof (cases "executed res")
      case True
      with both(2) have "outcome = MARKED" by (cases outcome) (auto simp: stop_skipped_def)
      with both(1) have "exec (stop_markSandboxInstanceStopped tx (stop_sandboxInstanceId i) (stop_stopReason i)
         (stopStillPermitted i)) l1 (Some (Inr MARKED))" by simp
      then have "fenced_end tx i res l1"
        unfolding fenced_end_def stop_markSandboxInstanceStopped_def
        by (intro impI) (rule mark_fenced, assumption, erule stillPermitted_read, auto split: if_splits)
      with both(3) l2 show ?thesis by auto
    next
      case False
      then have "fenced_end tx i res []" by (simp add: fenced_end_def)
      then show ?thesis by (metis append_Nil2)
    qed
  qed simp_all
qed

lemma tail_stop_failure: "tail_shows (fenced_end tx i) (markStopProviderFailureOrThrow tx i s code message usage)"
  unfolding tail_shows_def
proof (intro allI impI)
  fix l res assume "exec (markStopProviderFailureOrThrow tx i s code message usage) l (Some (Inr res))"
  then show "\<exists>l1 l2. l = l1 @ l2 \<and> fenced_end tx i res l2"
    unfolding markStopProviderFailureOrThrow_def
  proof (cases rule: exec_bindE)
    case (both outcome l1 l2)
    then have l2: "l2 = []" by (cases outcome) auto
    show ?thesis
    proof (cases "executed res")
      case True
      with both(2) have "outcome = MARKED" by (cases outcome) (auto simp: stop_skipped_def)
      with both(1) have "exec (markSandboxInstanceFailed tx (stop_sandboxInstanceId i) s code message
         (stopStillPermitted i)) l1 (Some (Inr MARKED))" by simp
      then have "fenced_end tx i res l1"
        unfolding fenced_end_def markSandboxInstanceFailed_def
        by (intro impI) (rule mark_fenced, assumption, erule stillPermitted_read, auto split: if_splits)
      with both(3) l2 show ?thesis by auto
    next
      case False
      then have "fenced_end tx i res []" by (simp add: fenced_end_def)
      then show ?thesis by (metis append_Nil2)
    qed
  qed simp_all
qed

lemma stop_fenced_end: "tail_shows (fenced_end tx i) (stopSandboxInstance tx i)"
proof -
  have skip: "fenced_end tx i (stop_skipped o' t) []" for o' t
    by (simp add: fenced_end_def stop_skipped_def)
  have again: "tail_shows (fenced_end tx i) (stop_inspect_again tx i s pid target usage)" for s pid target usage
    unfolding stop_inspect_again_def
    by (auto intro!: tail_shows_intros tail_stop_mark tail_stop_failure split: stop_provider_action.split)
  have provider: "tail_shows (fenced_end tx i) (stop_provider tx i s pid target usage)" for s pid target usage
    unfolding stop_provider_def
    by (auto intro!: tail_shows_intros again tail_stop_failure split: option.split)
  have requested: "tail_shows (fenced_end tx i) (stop_requested tx i action pid target usage)"
    for action pid target usage
    unfolding stop_requested_def
    by (auto intro!: tail_shows_intros provider tail_stop_mark skip)
  have loaded: "tail_shows (fenced_end tx i) (stop_loaded tx i row pid)" for row pid
    unfolding stop_loaded_def
    by (auto intro!: tail_shows_intros requested tail_stop_failure skip split: stop_provider_action.split)
  show ?thesis
    unfolding stopSandboxInstance_def
    by (auto intro!: tail_shows_intros loaded skip split: option.split)
qed

section \<open>Properties\<close>

text \<open>
  C25: A stop reports an end of the sandbox exactly when it made it: however its steps interleave with anything else,
  a run that throws has ended nothing, a run that returns has ended the instance, by one step that moves it to stopped
  or failed, exactly if it says it was executed, and then, and only then, it hands out the state from which the usage
  event is recorded; a run cut off in the middle has ended it once at most.
\<close>

theorem stop_reports_its_end:
  assumes "exec (stopSandboxInstance tx i) l r"
  shows "case r of
      None \<Rightarrow> length (filter (ends (stop_sandboxInstanceId i)) l) \<le> 1
    | Some (Inl e) \<Rightarrow> length (filter (ends (stop_sandboxInstanceId i)) l) = 0
    | Some (Inr res) \<Rightarrow> length (filter (ends (stop_sandboxInstanceId i)) l) = (if executed res then 1 else 0)
        \<and> (executed res \<longleftrightarrow> usageEventState res \<noteq> None)"
  using countedD [OF counted_stop assms] resultsD [OF stop_results] assms
  by (auto simp: consistent_result_def split: option.split sum.split)

text \<open>
  C2: No sandbox is taken from a new owner: when a stop ended the instance, its last three steps locked the row, read
  a runtime state in which the stop is permitted, which for an idle stop is one in which the sandbox is attached by
  the very owner whose idleness was measured, and wrote the row; and with the row all deadlines of the instance
  were cleared.
\<close>

theorem stop_fenced:
  assumes "exec (stopSandboxInstance tx i) l (Some (Inr res))" and "executed res"
  shows "\<exists>l' x y z. l = l' @ [x, y, z] \<and> locks_row tx (stop_sandboxInstanceId i) x \<and> reads_permission i y
    \<and> ends (stop_sandboxInstanceId i) z \<and> clears_deadlines (stop_sandboxInstanceId i) z"
  using assms stop_fenced_end [of tx i] unfolding tail_shows_def fenced_end_def by blast

text \<open>A world in which sandbox \<open>s\<close> runs at the provider as \<open>p\<close>, attached by owner \<open>o\<close>.\<close>

definition sample_row :: instance_row where
  "sample_row = \<lparr>organizationId = ''org'', purpose = SESSION, runtimeProvider = ''docker'', sandboxConnectionId = None,
     sandboxVcpuCount = Some 2, sandboxMemoryMb = Some 4096, sandboxDiskMb = None, providerSandboxId = Some ''p'',
     computeGeneration = 1, status = RUNNING, stoppedAt = None, stopReason = None, failedAt = None,
     failureCode = None, failureMessage = None, deletedAt = None, updatedAt = ''t0''\<rparr>"

definition sample_snapshot :: "string option \<Rightarrow> runtime_snapshot" where
  "sample_snapshot owner = \<lparr>ownerLeaseId = owner,
     attachment = map_option (\<lambda>e. \<lparr>attachment_ownerLeaseId = e, attachment_nodeId = ''n'',
       attachment_sessionId = ''session'', attachment_attachedAtMs = 0\<rparr>) owner,
     presence_activeCount = 0, keepalive_active = False, runtime_ready = True\<rparr>"

definition sample_world ::
  "instance_row \<Rightarrow> (provider_command list \<Rightarrow> runtime_snapshot) \<Rightarrow> (provider_command list \<Rightarrow> provider_disposition) \<Rightarrow>
   worker_world" where
  "sample_world row snapshot_of inspect = \<lparr>instances = [''s'' \<mapsto> row], deadlines = Map.empty, usage_events = [],
     row_lock = Map.empty, advisory_lock = Map.empty, deadline_runs = [], db_now = ''t1'', worker_now = ''t2'', provider_commands = [],
     snapshot_answer = \<lambda>cs _. Inr (snapshot_of cs), resolve_answer = \<lambda>_. Inr (),
     inspect_answer = \<lambda>cs _. Inr (inspect cs), command_answer = \<lambda>_ _. Inr (),
     evidence_answer = Map.empty, enqueue_answer = \<lambda>_. Inr (), terminate_answer = \<lambda>_ _ _. Inr TERMINATED\<rparr>"

definition stops_when_told :: "provider_command list \<Rightarrow> provider_disposition" where
  "stops_when_told cs = (if StopProviderSandbox ''p'' \<in> set cs then RESUMABLE_STOPPED else PROVIDER_ACTIVE)"

definition sample_stop :: stop_input where
  "sample_stop = \<lparr>stop_sandboxInstanceId = ''s'', stop_stopReason = STOP_IDLE, stop_expectedOwnerLeaseId = Some ''o''\<rparr>"

lemmas run_stop = stopSandboxInstance_def stop_loaded_def stop_requested_def stop_provider_def try_stopSandbox_def
  stop_inspect_again_def stop_mark_stopped_def stopStillPermitted_def readSandboxStopPermission_def readSnapshot_def
  resolveStoppableSandboxInstanceStopState_def findInstance_def inspectStopProviderStateOrMissing_def
  inspectProvider_def commandProvider_def stopSandbox_def resolveRuntime_def applySandboxLifecycleEvent_def
  updateInstance_def stop_markSandboxInstanceStopped_def mark_instance_def selectForUpdate_def commitClearing_def
  commit_def commitUpdate_def transaction_def assertWorkflowUserStopReason_def live_row_def
  shouldExecuteSandboxStop_def transitionSandboxLifecycle_def transitionFrom_def run_alone_bind run_alone_catch
  stop_skipped_def

lemmas samples = sample_row_def sample_snapshot_def sample_world_def stops_when_told_def sample_stop_def

lemma sample_run:
  "\<exists>v res. run_alone (stopSandboxInstance 1 sample_stop)
     (sample_world sample_row (\<lambda>_. sample_snapshot (Some ''o'')) stops_when_told) = (v, Some (Inr res)) \<and>
     executed res \<and> stop_result_outcome res = OUTCOME_STOPPED \<and>
     map_option status (instances v ''s'') = Some STOPPED"
  by (simp add: run_stop samples release_def clearSandboxInstanceDeadlines_def)

theorem stop_reports_its_end_witness:
  "\<exists>l res. exec (stopSandboxInstance 1 sample_stop) l (Some (Inr res)) \<and> executed res
     \<and> length (filter (ends ''s'') l) = 1 \<and> usageEventState res \<noteq> None"
proof -
  from sample_run obtain v res where run: "run_alone (stopSandboxInstance 1 sample_stop)
     (sample_world sample_row (\<lambda>_. sample_snapshot (Some ''o'')) stops_when_told) = (v, Some (Inr res))"
    and "executed res" by blast
  from run_alone_exec [OF run] obtain l where "exec (stopSandboxInstance 1 sample_stop) l (Some (Inr res))" by blast
  with stop_reports_its_end [OF this] \<open>executed res\<close> show ?thesis
    by (auto simp: sample_stop_def)
qed

theorem stop_fenced_witness:
  "\<exists>l x y z res. exec (stopSandboxInstance 1 sample_stop) (l @ [x, y, z]) (Some (Inr res)) \<and> executed res
     \<and> locks_row 1 ''s'' x \<and> reads_permission sample_stop y \<and> ends ''s'' z"
proof -
  from sample_run obtain v res where run: "run_alone (stopSandboxInstance 1 sample_stop)
     (sample_world sample_row (\<lambda>_. sample_snapshot (Some ''o'')) stops_when_told) = (v, Some (Inr res))"
    and res: "executed res" by blast
  from run_alone_exec [OF run] obtain l where l: "exec (stopSandboxInstance 1 sample_stop) l (Some (Inr res))" by blast
  have sid: "stop_sandboxInstanceId sample_stop = ''s''" by (simp add: sample_stop_def)
  from stop_fenced [OF l res] l res show ?thesis
    unfolding sid by blast
qed

lemma degraded_not_loaded:
  assumes "exec (resolveStoppableSandboxInstanceStopState sid) l r"
    and "\<forall>(w, v) \<in> set l. map_option status (instances w sid) = Some DEGRADED"
  shows "(\<forall>(w, v) \<in> set l. v = w) \<and> (\<forall>a. r \<noteq> Some (Inr a))"
proof (cases l)
  case Nil
  with assms(1) show ?thesis
    unfolding resolveStoppableSandboxInstanceStopState_def findInstance_def by (auto simp: exec_Step)
next
  case (Cons x l')
  obtain w v where x: "x = (w, v)" by fastforce
  from assms(2) Cons x obtain row where "instances w sid = Some row" "status row = DEGRADED" by auto
  with assms(1) Cons x show ?thesis
    unfolding resolveStoppableSandboxInstanceStopState_def findInstance_def by (auto simp: exec_Step)
qed

text \<open>
  A sandbox whose bootstrap is degraded is not stopped for being idle: \<open>stop_requested\<close> is accepted in that status,
  but the stop refuses to load such an instance; as long as the instance is degraded every run throws, or finds the
  fence closed before, or is cut off, and none of its steps changes anything.
\<close>

theorem degraded_not_stopped:
  assumes "exec (stopSandboxInstance tx i) l r"
    and "\<forall>(w, v) \<in> set l. map_option status (instances w (stop_sandboxInstanceId i)) = Some DEGRADED"
  shows "(\<forall>(w, v) \<in> set l. v = w) \<and> (case r of None \<Rightarrow> True | Some (Inl e) \<Rightarrow> True
     | Some (Inr res) \<Rightarrow> res = stop_skipped FENCE_BEFORE_LOAD None)"
  using assms(1)
  unfolding stopSandboxInstance_def
proof (cases rule: exec_bindE)
  case (both initial l1 l2)
  have reads: "\<forall>(w, v) \<in> set l1. v = w"
    using guarantees_permission(1) [of "\<lambda>w v. v = w" i] both(1) by (auto simp: guarantees_def)
  show ?thesis
  proof (cases "permitted initial")
    case True
    with both(2) have "exec (prog_bind (resolveStoppableSandboxInstanceStopState (stop_sandboxInstanceId i)) (\<lambda>state.
         case state of
           None \<Rightarrow> Done (stop_skipped OUTCOME_ALREADY_STOPPED
               (resolveBootstrapAttachmentTerminationTarget (permission_snapshot initial)))
         | Some (row, pid) \<Rightarrow> stop_loaded tx i row pid)) l2 r" by simp
    then have "(\<forall>(w, v) \<in> set l2. v = w) \<and> (\<forall>a. r \<noteq> Some (Inr a))"
    proof (cases rule: exec_bindE)
      case first
      with degraded_not_loaded [OF first(1)] assms(2) both(3) show ?thesis by auto
    next
      case (error e)
      with degraded_not_loaded [OF error(1)] assms(2) both(3) show ?thesis by auto
    next
      case (both state l3 l4)
      with degraded_not_loaded [OF both(1)] assms(2) \<open>l = l1 @ l2\<close> show ?thesis by auto
    qed
    with reads both(3) show ?thesis by (auto split: option.split sum.split)
  next
    case False
    with both reads show ?thesis by auto
  qed
qed (use guarantees_permission(1) [of "\<lambda>w v. v = w" i] in \<open>auto simp: guarantees_def\<close>)

definition degraded_world :: worker_world where
  "degraded_world = sample_world (sample_row\<lparr>status := DEGRADED\<rparr>) (\<lambda>_. sample_snapshot (Some ''o'')) stops_when_told"

theorem degraded_not_stopped_witness:
  "\<exists>e. exec (stopSandboxInstance 1 sample_stop) [(degraded_world, degraded_world), (degraded_world, degraded_world)]
     (Some (Inl e)) \<and> map_option status (instances degraded_world ''s'') = Some DEGRADED \<and>
   (\<forall>(w, v) \<in> set [(degraded_world, degraded_world), (degraded_world, degraded_world)]. v = w)"
proof -
  have "\<exists>e. exec (stopSandboxInstance 1 sample_stop) [(degraded_world, degraded_world), (degraded_world, degraded_world)]
     (Some (Inl e))"
    by (simp add: run_stop samples degraded_world_def exec_Step)
  then obtain e where e: "exec (stopSandboxInstance 1 sample_stop)
     [(degraded_world, degraded_world), (degraded_world, degraded_world)] (Some (Inl e))" by blast
  have "map_option status (instances degraded_world ''s'') = Some DEGRADED"
    by (simp add: samples degraded_world_def)
  with e degraded_not_stopped [OF e] show ?thesis by (auto simp: sample_stop_def)
qed

end
