(* ===== verification/SandboxReconcile.thy ===== *)
theory SandboxReconcile
  imports SandboxStop
begin

text \<open>
  Reconciling a sandbox whose bootstrap stayed away for its grace period
  (\<open>apps/data-plane-worker/openworkflow/reconcile-sandbox-instance\<close>): the policy matrix of status and provider
  (\<open>disconnect-reconciliation-policy.ts\<close>) and \<open>reconcileSandboxInstance\<close> (\<open>reconcile-sandbox-instance.ts\<close>), fenced like
  the stop, but the other way round: it goes on only while the sandbox is attached by nobody. The evidence of a
  failed startup (\<open>startup-failure-evidence.ts\<close>) is an answer of the table of operation events: nothing, or the
  text that it adds to the failure message. The diagnostics for the log are left out.
\<close>

section \<open>The policy\<close>

datatype reconciliation_action =
    ReconcileFail string string
  | ReconcileMarkStopped
  | StopThenMarkStopped
  | ReconcileRetry string
  | FailIfEvidenceElseStop string string

definition provider_missing :: reconciliation_action where
  "provider_missing = ReconcileFail ''provider_runtime_missing''
     ''Sandbox runtime was not found at the provider during disconnect reconciliation.''"

definition provider_terminal :: reconciliation_action where
  "provider_terminal = ReconcileFail ''provider_runtime_terminal''
     ''Sandbox runtime was terminal at the provider during disconnect reconciliation.''"

definition provider_in_progress :: reconciliation_action where
  "provider_in_progress = ReconcileRetry
     ''Sandbox runtime stop is still in progress at the provider during disconnect reconciliation.''"

fun startup_action :: "stop_provider_state \<Rightarrow> reconciliation_action" where
  "startup_action MISSING = provider_missing"
| "startup_action (PROVIDER RESUMABLE_STOPPED) = ReconcileMarkStopped"
| "startup_action (PROVIDER TERMINAL_STOPPED) = provider_terminal"
| "startup_action (PROVIDER PROVIDER_STOPPING) = provider_in_progress"
| "startup_action (PROVIDER PROVIDER_ACTIVE) = FailIfEvidenceElseStop ''bootstrap_disconnected_during_startup''
     ''Sandbox bootstrap tunnel did not recover before disconnect grace expired during startup.''"

fun runtime_action :: "stop_provider_state \<Rightarrow> reconciliation_action" where
  "runtime_action MISSING = provider_missing"
| "runtime_action (PROVIDER RESUMABLE_STOPPED) = ReconcileMarkStopped"
| "runtime_action (PROVIDER TERMINAL_STOPPED) = provider_terminal"
| "runtime_action (PROVIDER PROVIDER_STOPPING) = provider_in_progress"
| "runtime_action (PROVIDER PROVIDER_ACTIVE) = StopThenMarkStopped"

definition determineDisconnectReconciliationAction ::
  "sandbox_instance_status \<Rightarrow> stop_provider_state \<Rightarrow> worker_error + reconciliation_action" where
  "determineDisconnectReconciliationAction s provider = (case getSandboxDisconnectReconciliationPhase s of
     None \<Rightarrow> Inl (WorkerError (''Disconnect reconciliation does not support sandbox status ''
               @ quoted (status_string s) @ ''.''))
   | Some PHASE_STARTUP \<Rightarrow> Inr (startup_action provider)
   | Some PHASE_RUNTIME \<Rightarrow> Inr (runtime_action provider)
   | Some PHASE_STOPPING \<Rightarrow> Inr (runtime_action provider))"

section \<open>The fence\<close>

definition shouldExecuteSandboxDisconnectReconciliation :: "string \<Rightarrow> runtime_snapshot \<Rightarrow> bool" where
  "shouldExecuteSandboxDisconnectReconciliation expected snapshot =
     (if attachment snapshot \<noteq> None \<and> map_option attachment_ownerLeaseId (attachment snapshot) \<noteq> Some expected
      then False
      else if ownerLeaseId snapshot \<noteq> None \<and> ownerLeaseId snapshot \<noteq> Some expected then False
      else attachment snapshot = None
        \<and> (ownerLeaseId snapshot = None \<or> ownerLeaseId snapshot = Some expected))"

definition isTerminalCleanupFenceMatched :: "string \<Rightarrow> runtime_snapshot \<Rightarrow> bool" where
  "isTerminalCleanupFenceMatched expected snapshot =
     (if ownerLeaseId snapshot \<noteq> None \<and> ownerLeaseId snapshot \<noteq> Some expected then False
      else attachment snapshot = None
        \<or> map_option attachment_ownerLeaseId (attachment snapshot) = Some expected)"

record reconcile_input =
  reconcile_sandboxInstanceId :: string
  reconcile_expectedOwnerLeaseId :: string

definition isDisconnectReconciliationStillPermitted :: "reconcile_input \<Rightarrow> (worker_world, bool) program" where
  "isDisconnectReconciliationStillPermitted i = prog_bind (readSnapshot (reconcile_sandboxInstanceId i)) (\<lambda>s.
     Done (shouldExecuteSandboxDisconnectReconciliation (reconcile_expectedOwnerLeaseId i) s))"

section \<open>The reconciliation\<close>

datatype reconcile_outcome = RECONCILE_FAILED | RECONCILE_STOPPED | RECONCILE_ALREADY_FAILED
  | RECONCILE_ALREADY_STOPPED | RECONCILE_ALREADY_TERMINAL | RECONCILE_FENCE_BEFORE_LOAD
  | RECONCILE_FENCE_BEFORE_INSPECT | RECONCILE_FENCE_BEFORE_STOP | RECONCILE_FENCE_BEFORE_MARK

record reconcile_result =
  reconcile_executed :: bool
  reconcile_result_outcome :: reconcile_outcome
  reconcile_target :: "termination_target option"
  reconcile_usage :: "usage_event_state option"

definition reconcile_skipped :: "reconcile_outcome \<Rightarrow> termination_target option \<Rightarrow> reconcile_result" where
  "reconcile_skipped outcome target = \<lparr>reconcile_executed = False, reconcile_result_outcome = outcome,
     reconcile_target = target, reconcile_usage = None\<rparr>"

definition owner_target :: "reconcile_input \<Rightarrow> termination_target" where
  "owner_target i = \<lparr>target_expectedOwnerLeaseId = reconcile_expectedOwnerLeaseId i, target_expectedSessionId = None\<rparr>"

definition reconcile_ended :: "reconcile_input \<Rightarrow> reconcile_outcome \<Rightarrow> instance_row \<Rightarrow> string \<Rightarrow> reconcile_result" where
  "reconcile_ended i outcome row pid = \<lparr>reconcile_executed = True, reconcile_result_outcome = outcome,
     reconcile_target = Some (owner_target i), reconcile_usage = Some (createStopSandboxUsageEventState row pid)\<rparr>"

definition resolveTerminalBootstrapAttachmentTerminationTarget ::
  "reconcile_input \<Rightarrow> runtime_snapshot \<Rightarrow> termination_target" where
  "resolveTerminalBootstrapAttachmentTerminationTarget i snapshot =
     \<lparr>target_expectedOwnerLeaseId = reconcile_expectedOwnerLeaseId i,
      target_expectedSessionId = map_option attachment_sessionId (attachment snapshot)\<rparr>"

definition resolveActiveSandboxInstance :: "string \<Rightarrow> (worker_world, (instance_row \<times> string) option) program" where
  "resolveActiveSandboxInstance sid =
     prog_bind (findInstance sid) (\<lambda>found. case found of
       None \<Rightarrow> Raise (instance_not_found sid)
     | Some row \<Rightarrow>
         if status row = FAILED \<or> status row = STOPPED then Done None
         else if status row = PENDING
         then Raise (WorkerError (''Disconnect reconciliation does not support pending sandbox instance ''
                @ quoted sid @ ''.''))
         else if \<not> isSandboxDisconnectReconciliationCandidate (status row)
         then Raise (WorkerError ''Unsupported sandbox instance status.'')
         else (case providerSandboxId row of
           None \<Rightarrow> Raise (WorkerError (''Expected '' @ status_string (status row) @ '' sandbox instance ''
                     @ quoted sid @ '' to have a providerSandboxId.''))
         | Some pid \<Rightarrow> Done (Some (row, pid))))"

text \<open>
  The two places that mark an instance failed differ in the target they hand out when another worker failed it
  before.
\<close>

definition reconcile_mark_failed ::
  "nat \<Rightarrow> reconcile_input \<Rightarrow> instance_row \<Rightarrow> string \<Rightarrow> string \<Rightarrow> string \<Rightarrow> termination_target option \<Rightarrow>
   (worker_world, reconcile_result) program" where
  "reconcile_mark_failed tx i row pid code message target_if_already =
     prog_bind (markSandboxInstanceFailed tx (reconcile_sandboxInstanceId i) (status row) code message
         (isDisconnectReconciliationStillPermitted i)) (\<lambda>outcome. case outcome of
       FENCE_MISMATCH \<Rightarrow> Done (reconcile_skipped RECONCILE_FENCE_BEFORE_MARK None)
     | ALREADY_MARKED \<Rightarrow> Done (reconcile_skipped RECONCILE_ALREADY_FAILED target_if_already)
     | MARKED \<Rightarrow> Done (reconcile_ended i RECONCILE_FAILED row pid))"

definition reconcile_mark_stopped ::
  "nat \<Rightarrow> reconcile_input \<Rightarrow> instance_row \<Rightarrow> string \<Rightarrow> (worker_world, reconcile_result) program" where
  "reconcile_mark_stopped tx i row pid =
     prog_bind (reconcile_markSandboxInstanceStopped tx (reconcile_sandboxInstanceId i) (status row) False
         (isDisconnectReconciliationStillPermitted i)) (\<lambda>outcome. case outcome of
       FENCE_MISMATCH \<Rightarrow> Done (reconcile_skipped RECONCILE_FENCE_BEFORE_MARK None)
     | ALREADY_MARKED \<Rightarrow> Done (reconcile_skipped RECONCILE_ALREADY_STOPPED (Some (owner_target i)))
     | MARKED \<Rightarrow> Done (reconcile_ended i RECONCILE_STOPPED row pid))"

definition stopProviderSandboxOrMarkMissing ::
  "nat \<Rightarrow> reconcile_input \<Rightarrow> instance_row \<Rightarrow> string \<Rightarrow> (worker_world, reconcile_result) program" where
  "stopProviderSandboxOrMarkMissing tx i row pid =
     prog_bind (try_stopSandbox pid) (\<lambda>failed. case failed of
       Some e \<Rightarrow>
         if e \<noteq> SandboxResourceNotFound then Raise e
         else reconcile_mark_failed tx i row pid ''provider_runtime_missing''
                ''Sandbox runtime was not found at the provider during disconnect reconciliation.'' None
     | None \<Rightarrow> reconcile_mark_stopped tx i row pid)"

definition stopActiveProviderSandboxDuringDisconnect ::
  "nat \<Rightarrow> reconcile_input \<Rightarrow> instance_row \<Rightarrow> string \<Rightarrow> (worker_world, reconcile_result) program" where
  "stopActiveProviderSandboxDuringDisconnect tx i row pid =
     prog_bind (isDisconnectReconciliationStillPermitted i) (\<lambda>beforeStop.
       if \<not> beforeStop then Done (reconcile_skipped RECONCILE_FENCE_BEFORE_STOP None)
       else prog_bind (isDisconnectReconciliationStillPermitted i) (\<lambda>beforeMark.
         if \<not> beforeMark then Done (reconcile_skipped RECONCILE_FENCE_BEFORE_MARK None)
         else prog_bind (applySandboxLifecycleEvent (reconcile_sandboxInstanceId i) STOP_REQUESTED) (\<lambda>_.
           stopProviderSandboxOrMarkMissing tx i (row\<lparr>status := STOPPING\<rparr>) pid)))"

text \<open>The evidence is looked up for one failure code only.\<close>

definition shouldEnrichStartupDisconnectFailure :: "string \<Rightarrow> bool" where
  "shouldEnrichStartupDisconnectFailure code \<longleftrightarrow> code = ''bootstrap_disconnected_during_startup''"

definition resolveReconciliationFailureContext ::
  "string \<Rightarrow> string \<Rightarrow> string \<Rightarrow> (worker_world, string \<times> string option) program" where
  "resolveReconciliationFailureContext sid code message =
     (if \<not> shouldEnrichStartupDisconnectFailure code then Done (message, None)
      else Step (\<lambda>w. Some (w, Done (case evidence_answer w sid of
        None \<Rightarrow> (message, None) | Some evidence \<Rightarrow> (message @ evidence, Some evidence)))))"

definition reconcile_action ::
  "nat \<Rightarrow> reconcile_input \<Rightarrow> instance_row \<Rightarrow> string \<Rightarrow> reconciliation_action \<Rightarrow> (worker_world, reconcile_result) program" where
  "reconcile_action tx i row pid action = (case action of
     ReconcileFail code message \<Rightarrow>
       prog_bind (resolveReconciliationFailureContext (reconcile_sandboxInstanceId i) code message)
         (\<lambda>(text', evidence). reconcile_mark_failed tx i row pid code text' (Some (owner_target i)))
   | FailIfEvidenceElseStop code message \<Rightarrow>
       prog_bind (resolveReconciliationFailureContext (reconcile_sandboxInstanceId i) code message)
         (\<lambda>(text', evidence). if evidence = None then stopActiveProviderSandboxDuringDisconnect tx i row pid
            else reconcile_mark_failed tx i row pid code text' (Some (owner_target i)))
   | ReconcileMarkStopped \<Rightarrow> reconcile_mark_stopped tx i row pid
   | StopThenMarkStopped \<Rightarrow> stopActiveProviderSandboxDuringDisconnect tx i row pid
   | ReconcileRetry why \<Rightarrow> Raise (WorkerError why))"

definition reconcileSandboxInstance :: "nat \<Rightarrow> reconcile_input \<Rightarrow> (worker_world, reconcile_result) program" where
  "reconcileSandboxInstance tx i =
     prog_bind (readSnapshot (reconcile_sandboxInstanceId i)) (\<lambda>initial.
     prog_bind (resolveActiveSandboxInstance (reconcile_sandboxInstanceId i)) (\<lambda>found. case found of
       None \<Rightarrow>
         if \<not> isTerminalCleanupFenceMatched (reconcile_expectedOwnerLeaseId i) initial
         then Done (reconcile_skipped RECONCILE_FENCE_BEFORE_LOAD None)
         else Done (reconcile_skipped RECONCILE_ALREADY_TERMINAL
                (Some (resolveTerminalBootstrapAttachmentTerminationTarget i initial)))
     | Some (row, pid) \<Rightarrow>
         if \<not> shouldExecuteSandboxDisconnectReconciliation (reconcile_expectedOwnerLeaseId i) initial
         then Done (reconcile_skipped RECONCILE_FENCE_BEFORE_LOAD None)
         else prog_bind (isDisconnectReconciliationStillPermitted i) (\<lambda>beforeInspect.
           if \<not> beforeInspect then Done (reconcile_skipped RECONCILE_FENCE_BEFORE_INSPECT None)
           else prog_bind (resolveRuntime row) (\<lambda>_.
             prog_bind (inspectStopProviderStateOrMissing pid) (\<lambda>provider.
             prog_bind (of_answer (determineDisconnectReconciliationAction (status row) provider))
               (\<lambda>action. reconcile_action tx i row pid action))))))"

section \<open>Every step of a reconciliation\<close>

lemma guarantees_still_permitted:
  assumes "\<And>w. G w w"
  shows "guarantees G (isDisconnectReconciliationStillPermitted i)"
  using assms unfolding isDisconnectReconciliationStillPermitted_def
  by (auto intro!: guarantees_intros guarantees_statements)

lemma guarantees_active:
  assumes "\<And>w. G w w"
  shows "guarantees G (resolveActiveSandboxInstance sid)"
  using assms unfolding resolveActiveSandboxInstance_def
  by (auto intro!: guarantees_intros guarantees_statements split: option.split if_split)

lemma guarantees_context:
  assumes "\<And>w. G w w"
  shows "guarantees G (resolveReconciliationFailureContext sid code message)"
  using assms unfolding resolveReconciliationFailureContext_def
  by (auto intro!: guarantees_Done guarantees_Step split: if_split)

lemmas guarantees_reconcile_reads = guarantees_still_permitted guarantees_active guarantees_context guarantees_stop_reads
  guarantees_of_answer

abbreviation reconcile_count :: "reconcile_result \<Rightarrow> nat" where
  "reconcile_count r \<equiv> (if reconcile_executed r then 1 else 0)"

lemma counted_reconcile_failed:
  "counted (ends (reconcile_sandboxInstanceId i)) reconcile_count (reconcile_mark_failed tx i row pid code message t)"
  unfolding reconcile_mark_failed_def
proof (rule counted_result [OF counted_fail_mark])
  show "guarantees (\<lambda>w v. \<not> ends (reconcile_sandboxInstanceId i) (w, v)) (isDisconnectReconciliationStillPermitted i)"
    by (rule guarantees_still_permitted) simp
qed (case_tac a, simp_all add: reconcile_skipped_def reconcile_ended_def)

lemma counted_reconcile_stopped:
  "counted (ends (reconcile_sandboxInstanceId i)) reconcile_count (reconcile_mark_stopped tx i row pid)"
proof -
  have "counted (ends (reconcile_sandboxInstanceId i)) (\<lambda>o'. if o' = MARKED then 1 else 0)
    (reconcile_markSandboxInstanceStopped tx (reconcile_sandboxInstanceId i) (status row) False
       (isDisconnectReconciliationStillPermitted i))"
    unfolding reconcile_markSandboxInstanceStopped_def
    by (rule counted_mark) (auto intro!: guarantees_reconcile_reads split: if_splits)
  then show ?thesis
    unfolding reconcile_mark_stopped_def
    by (rule counted_result) (case_tac a, simp_all add: reconcile_skipped_def reconcile_ended_def)
qed

lemma counted_reconcile_action:
  "counted (ends (reconcile_sandboxInstanceId i)) reconcile_count (reconcile_action tx i row pid action)"
proof -
  have provider: "counted (ends (reconcile_sandboxInstanceId i)) reconcile_count
      (stopProviderSandboxOrMarkMissing tx i r pid)" for r
    unfolding stopProviderSandboxOrMarkMissing_def
    by (auto intro!: counted_before guarantees_reconcile_reads counted_reconcile_failed counted_reconcile_stopped
        counted_Raise split: option.split)
  have active: "counted (ends (reconcile_sandboxInstanceId i)) reconcile_count
      (stopActiveProviderSandboxDuringDisconnect tx i row pid)"
    unfolding stopActiveProviderSandboxDuringDisconnect_def
    by (auto intro!: counted_before guarantees_reconcile_reads apply_not_ending provider counted_Done
        simp: reconcile_skipped_def)
  show ?thesis
    unfolding reconcile_action_def
    by (auto intro!: counted_before guarantees_reconcile_reads active counted_reconcile_failed
        counted_reconcile_stopped counted_Raise split: reconciliation_action.split)
qed

lemma counted_reconcile:
  "counted (ends (reconcile_sandboxInstanceId i)) reconcile_count (reconcileSandboxInstance tx i)"
  unfolding reconcileSandboxInstance_def
  by (auto intro!: counted_before guarantees_reconcile_reads counted_reconcile_action counted_Done
      simp: reconcile_skipped_def split: option.split)

lemma reconcile_results:
  "results (\<lambda>r. (reconcile_executed r \<longleftrightarrow> reconcile_usage r \<noteq> None) \<and>
     (reconcile_executed r \<longrightarrow> reconcile_result_outcome r \<in> {RECONCILE_FAILED, RECONCILE_STOPPED}))
     (reconcileSandboxInstance tx i)"
  unfolding reconcileSandboxInstance_def reconcile_action_def stopActiveProviderSandboxDuringDisconnect_def
    stopProviderSandboxOrMarkMissing_def reconcile_mark_failed_def reconcile_mark_stopped_def
  by (auto intro!: results_intros simp: reconcile_skipped_def reconcile_ended_def
      split: option.split reconciliation_action.split mark_outcome.split)

text \<open>The fence at the end.\<close>

definition reads_unattached :: "reconcile_input \<Rightarrow> worker_world \<times> worker_world \<Rightarrow> bool" where
  "reads_unattached i = (\<lambda>(w, v). v = w \<and>
     (case snapshot_answer w (provider_commands w) (reconcile_sandboxInstanceId i) of
        Inl e \<Rightarrow> False
      | Inr s \<Rightarrow> attachment s = None \<and> ownerLeaseId s \<in> {None, Some (reconcile_expectedOwnerLeaseId i)}))"

lemma still_permitted_read:
  assumes "exec (isDisconnectReconciliationStillPermitted i) l (Some (Inr True))"
  shows "\<exists>x. l = [x] \<and> reads_unattached i x"
proof -
  from assms obtain w s where "l = [(w, w)]"
    and "snapshot_answer w (provider_commands w) (reconcile_sandboxInstanceId i) = Inr s"
    and "shouldExecuteSandboxDisconnectReconciliation (reconcile_expectedOwnerLeaseId i) s"
    unfolding isDisconnectReconciliationStillPermitted_def readSnapshot_def
    by (auto simp: exec_Step)
      (case_tac "snapshot_answer w (provider_commands w) (reconcile_sandboxInstanceId i)"; auto)
  then show ?thesis
    by (auto simp: reads_unattached_def shouldExecuteSandboxDisconnectReconciliation_def split: if_splits)
qed

definition reconcile_fenced_end ::
  "nat \<Rightarrow> reconcile_input \<Rightarrow> reconcile_result \<Rightarrow> (worker_world \<times> worker_world) list \<Rightarrow> bool" where
  "reconcile_fenced_end tx i res l \<longleftrightarrow> (reconcile_executed res \<longrightarrow> (\<exists>x y z. l = [x, y, z] \<and>
     locks_row tx (reconcile_sandboxInstanceId i) x \<and> reads_unattached i y \<and>
     ends (reconcile_sandboxInstanceId i) z \<and> clears_deadlines (reconcile_sandboxInstanceId i) z))"

text \<open>After the mark the outcome is all that is made of it.\<close>

lemma tail_of_mark:
  assumes "\<And>l. exec p l (Some (Inr MARKED)) \<Longrightarrow> \<exists>x y z. l = [x, y, z] \<and>
     locks_row tx (reconcile_sandboxInstanceId i) x \<and> reads_unattached i y \<and>
     ends (reconcile_sandboxInstanceId i) z \<and> clears_deadlines (reconcile_sandboxInstanceId i) z"
    and "\<And>o'. \<exists>res. k o' = Done res \<and> (reconcile_executed res \<longrightarrow> o' = MARKED)"
  shows "tail_shows (reconcile_fenced_end tx i) (prog_bind p k)"
  unfolding tail_shows_def
proof (intro allI impI)
  fix l res assume "exec (prog_bind p k) l (Some (Inr res))"
  then show "\<exists>l1 l2. l = l1 @ l2 \<and> reconcile_fenced_end tx i res l2"
  proof (cases rule: exec_bindE)
    case (both o' l1 l2)
    obtain r where r: "k o' = Done r" "reconcile_executed r \<longrightarrow> o' = MARKED" using assms(2) by blast
    with both have l: "l = [] @ l1" "r = res" by auto
    show ?thesis
    proof (cases "reconcile_executed res")
      case True
      with r l have "o' = MARKED" by simp
      with assms(1) both(1) have "reconcile_fenced_end tx i res l1" by (auto simp: reconcile_fenced_end_def)
      with l(1) show ?thesis by blast
    next
      case False
      then have "reconcile_fenced_end tx i res []" by (simp add: reconcile_fenced_end_def)
      then show ?thesis by (metis append_Nil2)
    qed
  qed simp_all
qed

lemma tail_reconcile_failed:
  "tail_shows (reconcile_fenced_end tx i) (reconcile_mark_failed tx i row pid code message t)"
  unfolding reconcile_mark_failed_def markSandboxInstanceFailed_def
  by (rule tail_of_mark, rule mark_fenced, assumption, erule still_permitted_read)
    (auto simp: reconcile_skipped_def split: if_splits mark_outcome.splits)

lemma tail_reconcile_stopped:
  "tail_shows (reconcile_fenced_end tx i) (reconcile_mark_stopped tx i row pid)"
  unfolding reconcile_mark_stopped_def reconcile_markSandboxInstanceStopped_def
  by (rule tail_of_mark, rule mark_fenced, assumption, erule still_permitted_read)
    (auto simp: reconcile_skipped_def split: if_splits mark_outcome.splits)

lemma reconcile_fenced_tail: "tail_shows (reconcile_fenced_end tx i) (reconcileSandboxInstance tx i)"
proof -
  have skip: "reconcile_fenced_end tx i (reconcile_skipped o' t) []" for o' t
    by (simp add: reconcile_fenced_end_def reconcile_skipped_def)
  have active: "tail_shows (reconcile_fenced_end tx i) (stopActiveProviderSandboxDuringDisconnect tx i row pid)"
    for row pid
    unfolding stopActiveProviderSandboxDuringDisconnect_def stopProviderSandboxOrMarkMissing_def
    by (auto intro!: tail_shows_intros tail_reconcile_failed tail_reconcile_stopped skip split: option.split)
  show ?thesis
    unfolding reconcileSandboxInstance_def reconcile_action_def
    by (auto intro!: tail_shows_intros tail_reconcile_failed tail_reconcile_stopped active skip
        split: option.split reconciliation_action.split)
qed

section \<open>Status changes\<close>

definition follows_lifecycle :: "string \<Rightarrow> worker_world \<Rightarrow> worker_world \<Rightarrow> bool" where
  "follows_lifecycle sid w v \<longleftrightarrow> (case (instances w sid, instances v sid) of
     (Some r, Some r') \<Rightarrow> status r = status r' \<or> (\<exists>e. lifecycle_step (status r) e (status r'))
   | (None, None) \<Rightarrow> True | _ \<Rightarrow> False)"

lemma follows_same [simp]: "instances v = instances w \<Longrightarrow> follows_lifecycle sid w v"
  by (simp add: follows_lifecycle_def split: option.split)

lemma apply_follows: "guarantees (follows_lifecycle sid) (applySandboxLifecycleEvent sid event)"
proof -
  have "lifecycle_step s event to \<and> s = s'" if "transitionSandboxLifecycle s event = Transition s' to" for s s' to
    using that lifecycle_step.move [of s event to]
    unfolding transitionSandboxLifecycle_def transitionFrom_def by (auto split: if_splits)
  then show ?thesis
    unfolding applySandboxLifecycleEvent_def
    by (fastforce intro!: guarantees_intros guarantees_statements simp: follows_lifecycle_def
        split: option.split transition_result.split if_split)
qed

lemma mark_follows:
  assumes "guarantees (follows_lifecycle sid) stillPermitted"
    and "\<And>row s. expected row = Some s \<Longrightarrow> \<exists>e. lifecycle_step s e final"
    and "\<And>time row. status (f time row) = final"
  shows "guarantees (follows_lifecycle sid) (mark_instance tx sid final expected failure stillPermitted f)"
proof (rule guarantees_mark)
  show "follows_lifecycle sid w v" if "instances v = instances w" for w v
    using that by (rule follows_same)
  show "follows_lifecycle sid w v" if "expected row0 = Some (status row)" and "instances w sid = Some row"
    and "instances v = (instances w)(sid \<mapsto> f (db_now w) row)" for w v row0 row
    using that assms(2) [OF that(1)] assms(3) by (simp add: follows_lifecycle_def)
qed (rule assms(1))

lemma fail_follows:
  assumes "guarantees (follows_lifecycle sid) stillPermitted"
  shows "guarantees (follows_lifecycle sid) (markSandboxInstanceFailed tx sid s code message stillPermitted)"
proof -
  have "lifecycle_step s' FAILURE_RECORDED FAILED" for s'
    by (cases s') (simp_all add: lifecycle_step_rule)
  then show ?thesis
    unfolding markSandboxInstanceFailed_def
    by (intro mark_follows assms) (auto split: if_splits)
qed

lemma stop_follows: "guarantees (follows_lifecycle (stop_sandboxInstanceId i)) (stopSandboxInstance tx i)"
proof -
  have "lifecycle_step STOPPING PROVIDER_STOPPED STOPPED" by (simp add: lifecycle_step_rule)
  then have mark: "guarantees (follows_lifecycle (stop_sandboxInstanceId i))
     (stop_markSandboxInstanceStopped tx (stop_sandboxInstanceId i) why (stopStillPermitted i))" for why
    unfolding stop_markSandboxInstanceStopped_def
    by (intro mark_follows) (auto intro!: guarantees_stop_reads split: if_splits)
  have fail: "guarantees (follows_lifecycle (stop_sandboxInstanceId i))
     (markStopProviderFailureOrThrow tx i s code message usage)" for s code message usage
    unfolding markStopProviderFailureOrThrow_def
    by (auto intro!: guarantees_intros fail_follows guarantees_stop_reads)
  show ?thesis
    unfolding stopSandboxInstance_def stop_loaded_def stop_requested_def stop_provider_def stop_inspect_again_def
      stop_mark_stopped_def
    by (auto intro!: guarantees_intros guarantees_stop_reads mark fail apply_follows
        split: option.split stop_provider_action.split mark_outcome.split)
qed

section \<open>Properties\<close>

text \<open>
  C15: A reconciliation ends a sandbox only while nobody is attached to it: a run that throws has ended nothing; one that
  returns has ended the instance, by one step, exactly if it says it was executed and hands out the state of the
  usage event; and then its last three steps locked the row, read a runtime state without an attachment and with no
  owner but the expected one, and wrote the row with all deadlines cleared.
\<close>

theorem reconcile_reports_and_is_fenced:
  assumes "exec (reconcileSandboxInstance tx i) l r"
  shows "case r of
      None \<Rightarrow> length (filter (ends (reconcile_sandboxInstanceId i)) l) \<le> 1
    | Some (Inl e) \<Rightarrow> length (filter (ends (reconcile_sandboxInstanceId i)) l) = 0
    | Some (Inr res) \<Rightarrow>
        length (filter (ends (reconcile_sandboxInstanceId i)) l) = (if reconcile_executed res then 1 else 0) \<and>
        (reconcile_executed res \<longleftrightarrow> reconcile_usage res \<noteq> None) \<and>
        (reconcile_executed res \<longrightarrow> (\<exists>l' x y z. l = l' @ [x, y, z] \<and> locks_row tx (reconcile_sandboxInstanceId i) x \<and>
           reads_unattached i y \<and> ends (reconcile_sandboxInstanceId i) z \<and>
           clears_deadlines (reconcile_sandboxInstanceId i) z))"
proof (cases r)
  case None
  with countedD(1) [OF counted_reconcile assms] show ?thesis by simp
next
  case (Some x)
  show ?thesis
  proof (cases x)
    case (Inl e)
    with Some countedD(2) [OF counted_reconcile assms] show ?thesis by simp
  next
    case (Inr res)
    have e: "exec (reconcileSandboxInstance tx i) l (Some (Inr res))" using assms Some Inr by simp
    have "reconcile_executed res \<longrightarrow> (\<exists>l' x y z. l = l' @ [x, y, z] \<and> locks_row tx (reconcile_sandboxInstanceId i) x \<and>
           reads_unattached i y \<and> ends (reconcile_sandboxInstanceId i) z \<and>
           clears_deadlines (reconcile_sandboxInstanceId i) z)"
      using e reconcile_fenced_tail [of tx i] unfolding tail_shows_def reconcile_fenced_end_def by blast
    moreover have "length (filter (ends (reconcile_sandboxInstanceId i)) l) = (if reconcile_executed res then 1 else 0)"
      using countedD(3) [OF counted_reconcile e refl] .
    moreover have "reconcile_executed res \<longleftrightarrow> reconcile_usage res \<noteq> None"
      using resultsD [OF reconcile_results e] by blast
    ultimately show ?thesis using Some Inr by simp
  qed
qed

lemma reconcile_follows:
  "guarantees (\<lambda>w v. follows_lifecycle (reconcile_sandboxInstanceId i) w v \<or>
     map_option status (instances v (reconcile_sandboxInstanceId i)) = Some STOPPED) (reconcileSandboxInstance tx i)"
  (is "guarantees ?G _")
proof -
  have G: "?G w v" if "instances v = instances w" for w v using that by simp
  have mark: "guarantees ?G (reconcile_mark_stopped tx i row pid)" for row pid
    unfolding reconcile_mark_stopped_def reconcile_markSandboxInstanceStopped_def
    by (auto intro!: guarantees_intros guarantees_mark guarantees_reconcile_reads split: mark_outcome.split)
  have fail: "guarantees ?G (reconcile_mark_failed tx i row pid code message t)" for row pid code message t
  proof -
    have "guarantees ?G (markSandboxInstanceFailed tx (reconcile_sandboxInstanceId i) (status row) code message
         (isDisconnectReconciliationStillPermitted i))"
      by (rule guarantees_mono [OF fail_follows]) (auto intro!: guarantees_reconcile_reads)
    then show ?thesis
      unfolding reconcile_mark_failed_def
      by (auto intro!: guarantees_intros split: mark_outcome.split)
  qed
  have request: "guarantees ?G (applySandboxLifecycleEvent (reconcile_sandboxInstanceId i) STOP_REQUESTED)"
    by (rule guarantees_mono [OF apply_follows]) simp
  have active: "guarantees ?G (stopActiveProviderSandboxDuringDisconnect tx i row pid)" for row pid
    unfolding stopActiveProviderSandboxDuringDisconnect_def stopProviderSandboxOrMarkMissing_def
    by (auto intro!: guarantees_intros guarantees_reconcile_reads request mark fail simp del: map_option_eq_Some
        split: option.split)
  show ?thesis
    unfolding reconcileSandboxInstance_def reconcile_action_def
    by (auto intro!: guarantees_intros guarantees_reconcile_reads active mark fail simp del: map_option_eq_Some
        split: option.split reconciliation_action.split)
qed

definition sample_reconcile :: reconcile_input where
  "sample_reconcile = \<lparr>reconcile_sandboxInstanceId = ''s'', reconcile_expectedOwnerLeaseId = ''o''\<rparr>"

definition gone_world :: worker_world where
  "gone_world = sample_world sample_row (\<lambda>_. sample_snapshot None) (\<lambda>_. RESUMABLE_STOPPED)"

lemmas run_reconcile = run_stop reconcileSandboxInstance_def resolveActiveSandboxInstance_def
  isDisconnectReconciliationStillPermitted_def reconcile_action_def reconcile_mark_stopped_def
  reconcile_markSandboxInstanceStopped_def stopActiveProviderSandboxDuringDisconnect_def
  stopProviderSandboxOrMarkMissing_def determineDisconnectReconciliationAction_def
  isSandboxDisconnectReconciliationCandidate_def shouldExecuteSandboxDisconnectReconciliation_def
  reconcile_skipped_def reconcile_ended_def

text \<open>The three last worlds of a reconciliation of a sandbox that the provider has stopped by itself.\<close>

lemma gone_run:
  "\<exists>w v res. exec (reconcileSandboxInstance 1 sample_reconcile)
     [(gone_world, gone_world), (gone_world, gone_world), (gone_world, gone_world), (gone_world, gone_world),
      (gone_world, gone_world), (gone_world, w), (w, w), (w, v)] (Some (Inr res)) \<and>
     map_option status (instances w ''s'') = Some RUNNING \<and> map_option status (instances v ''s'') = Some STOPPED"
  by (simp add: run_reconcile samples sample_reconcile_def gone_world_def exec_Step release_def
      clearSandboxInstanceDeadlines_def)


theorem reconcile_reports_and_is_fenced_witness:
  "\<exists>l res. exec (reconcileSandboxInstance 1 sample_reconcile) l (Some (Inr res)) \<and> reconcile_executed res
     \<and> length (filter (ends ''s'') l) = 1"
proof -
  from gone_run obtain w v res where e: "exec (reconcileSandboxInstance 1 sample_reconcile)
     [(gone_world, gone_world), (gone_world, gone_world), (gone_world, gone_world), (gone_world, gone_world),
      (gone_world, gone_world), (gone_world, w), (w, w), (w, v)] (Some (Inr res))" (is "exec _ ?l _")
    and s: "map_option status (instances w ''s'') = Some RUNNING" "map_option status (instances v ''s'') = Some STOPPED"
    by blast
  from s have "ends ''s'' (w, v)" by (auto simp: ends_def)
  then have "length (filter (ends ''s'') ?l) > 0" by simp
  with reconcile_reports_and_is_fenced [OF e] have "reconcile_executed res" "length (filter (ends ''s'') ?l) = 1"
    by (auto simp: sample_reconcile_def split: if_splits)
  with e show ?thesis by blast
qed

text \<open>
  C24: An idle stop cuts its own branch: the provider's stop takes the bootstrap attachment away, so when the runtime
  state no longer shows it at the final check, the stop, which has stopped the sandbox at the provider, does not mark
  it and reports nothing; the instance stays in stopping. The reconciliation of the disconnect that follows finishes the work: it finds
  the sandbox stopped at the provider, marks the instance and reports the end, but as a disconnect, not as idle.
\<close>

theorem idle_stop_left_to_reconciliation:
  assumes "instances w sid = Some row" and "status row \<in> {RUNNING, RECONNECTING, STOPPING}"
    and "providerSandboxId row = Some pid" and "deletedAt row = None" and "row_lock w sid = None"
    and "resolve_answer w = (\<lambda>_. Inr ())" and "command_answer w = (\<lambda>_ _. Inr ())" and "provider_commands w = []"
    and "inspect_answer w [] pid = Inr PROVIDER_ACTIVE"
    and "inspect_answer w [ShutdownRuntime pid, StopProviderSandbox pid] pid = Inr RESUMABLE_STOPPED"
    and "snapshot_answer w [] sid = Inr before" and "ownerLeaseId before = Some owner"
    and "map_option attachment_ownerLeaseId (attachment before) = Some owner"
    and "snapshot_answer w [ShutdownRuntime pid, StopProviderSandbox pid] sid = Inr after'"
    and "attachment after' = None" and "ownerLeaseId after' \<in> {None, Some owner}"
  shows "\<exists>v u row' res. run_alone (stopSandboxInstance tx
       \<lparr>stop_sandboxInstanceId = sid, stop_stopReason = STOP_IDLE, stop_expectedOwnerLeaseId = Some owner\<rparr>) w
     = (v, Some (Inr (stop_skipped FENCE_BEFORE_MARK None))) \<and>
     map_option status (instances v sid) = Some STOPPING \<and>
     run_alone (reconcileSandboxInstance tx
       \<lparr>reconcile_sandboxInstanceId = sid, reconcile_expectedOwnerLeaseId = owner\<rparr>) v = (u, Some (Inr res)) \<and>
     reconcile_executed res \<and> reconcile_usage res \<noteq> None \<and>
     instances u sid = Some row' \<and> status row' = STOPPED \<and> stopReason row' = Some STOP_DISCONNECTED"
  using assms(2)
proof (elim insertE emptyE)
  assume "status row = RUNNING"
  with assms show ?thesis by (auto simp: run_reconcile release_def clearSandboxInstanceDeadlines_def)
next
  assume "status row = RECONNECTING"
  with assms show ?thesis by (auto simp: run_reconcile release_def clearSandboxInstanceDeadlines_def)
next
  assume "status row = STOPPING"
  with assms show ?thesis by (auto simp: run_reconcile release_def clearSandboxInstanceDeadlines_def)
qed

definition leaving_world :: worker_world where
  "leaving_world = sample_world sample_row
     (\<lambda>cs. sample_snapshot (if StopProviderSandbox ''p'' \<in> set cs then None else Some ''o'')) stops_when_told"

theorem idle_stop_left_to_reconciliation_witness:
  "\<exists>v u row' res. run_alone (stopSandboxInstance 1 sample_stop) leaving_world
     = (v, Some (Inr (stop_skipped FENCE_BEFORE_MARK None))) \<and>
     map_option status (instances v ''s'') = Some STOPPING \<and>
     run_alone (reconcileSandboxInstance 1 sample_reconcile) v = (u, Some (Inr res)) \<and> reconcile_executed res \<and>
     instances u ''s'' = Some row' \<and> status row' = STOPPED \<and> stopReason row' = Some STOP_DISCONNECTED"
proof -
  have "\<exists>v u row' res. run_alone (stopSandboxInstance 1
       \<lparr>stop_sandboxInstanceId = ''s'', stop_stopReason = STOP_IDLE, stop_expectedOwnerLeaseId = Some ''o''\<rparr>) leaving_world
     = (v, Some (Inr (stop_skipped FENCE_BEFORE_MARK None))) \<and>
     map_option status (instances v ''s'') = Some STOPPING \<and>
     run_alone (reconcileSandboxInstance 1
       \<lparr>reconcile_sandboxInstanceId = ''s'', reconcile_expectedOwnerLeaseId = ''o''\<rparr>) v = (u, Some (Inr res)) \<and>
     reconcile_executed res \<and> reconcile_usage res \<noteq> None \<and>
     instances u ''s'' = Some row' \<and> status row' = STOPPED \<and> stopReason row' = Some STOP_DISCONNECTED"
    by (rule idle_stop_left_to_reconciliation [where row = sample_row and pid = "''p''" and
          before = "sample_snapshot (Some ''o'')" and after' = "sample_snapshot None"])
      (simp_all add: leaving_world_def samples)
  then show ?thesis unfolding sample_stop_def sample_reconcile_def by blast
qed

end
