(* ===== verification/DeadlineRuns.thy ===== *)
theory DeadlineRuns
  imports SandboxReconcile
begin

text \<open>
  The deadlines of sandbox instances on the data plane: writing and deleting one
  (\<open>apps/data-plane-api/src/internal/sandbox-instances/services/put-sandbox-instance-deadline.ts\<close>,
  \<open>delete-sandbox-instance-deadline.ts\<close>), the run that is enqueued for each write and starts when the deadline is due
  (\<open>apps/data-plane-worker/openworkflow/sandbox-instance-deadlines\<close>), and the usage events the workflows record when
  they ended a sandbox (\<open>shared/sandbox-usage-events.ts\<close>, \<open>stop-sandbox-instance/workflow.ts\<close>,
  \<open>reconcile-sandbox-instance/workflow.ts\<close>). A workflow is taken in its first attempt: \<open>step.run\<close> is the function it
  is given. A time is text; the database may write it in its own way (\<open>stored\<close>), and \<open>canonical\<close> is what
  \<open>new Date(dueAt).toISOString()\<close> makes of a text.
\<close>

section \<open>Writing a deadline\<close>

fun kind_string :: "sandbox_deadline_kind \<Rightarrow> string" where
  "kind_string IDLE = ''idle''"
| "kind_string DISCONNECT = ''disconnect''"

record put_deadline_input =
  put_sandboxInstanceId :: string
  put_kind :: sandbox_deadline_kind
  put_ownerLeaseId :: string
  put_dueAt :: string

abbreviation put_key :: "put_deadline_input \<Rightarrow> string \<times> sandbox_deadline_kind" where
  "put_key i \<equiv> (put_sandboxInstanceId i, put_kind i)"


definition createDeadlineWorkflowIdempotencyKey :: "put_deadline_input \<Rightarrow> int \<Rightarrow> string" where
  "createDeadlineWorkflowIdempotencyKey i generation = ''deadline:'' @ put_sandboxInstanceId i @ '':''
     @ kind_string (put_kind i) @ '':'' @ put_ownerLeaseId i @ '':'' @ put_dueAt i @ '':'' @ string_of_int generation"

definition computeNextGeneration ::
  "(string \<Rightarrow> string) \<Rightarrow> deadline_row option \<Rightarrow> put_deadline_input \<Rightarrow> int" where
  "computeNextGeneration canonical current i = (case current of
     None \<Rightarrow> 1
   | Some d \<Rightarrow>
       if deadline_clearedAt d \<noteq> None \<or> deadline_ownerLeaseId d \<noteq> put_ownerLeaseId i
          \<or> canonical (deadline_dueAt d) \<noteq> put_dueAt i
       then deadline_generation d + 1
       else deadline_generation d)"

definition acquireSandboxInstanceDeadlineWriteLock ::
  "nat \<Rightarrow> put_deadline_input \<Rightarrow> (worker_world, unit) program" where
  "acquireSandboxInstanceDeadlineWriteLock tx i = Step (\<lambda>w.
     if advisory_lock w (put_key i) \<noteq> None then None
     else Some (w\<lparr>advisory_lock := (advisory_lock w)(put_key i \<mapsto> tx)\<rparr>, Done ()))"

definition readDeadline :: "string \<times> sandbox_deadline_kind \<Rightarrow> (worker_world, deadline_row option) program" where
  "readDeadline key = Step (\<lambda>w. Some (w, Done (deadlines w key)))"

text \<open>The insert with its conflict clause, visible from the commit on, which also releases the advisory lock.\<close>

definition persistSandboxInstanceDeadline ::
  "(string \<Rightarrow> string) \<Rightarrow> put_deadline_input \<Rightarrow> int \<Rightarrow> (worker_world, unit) program" where
  "persistSandboxInstanceDeadline stored i generation = Step (\<lambda>w. Some
     (w\<lparr>deadlines := (deadlines w)(put_key i \<mapsto>
          \<lparr>deadline_ownerLeaseId = put_ownerLeaseId i, deadline_dueAt = stored (put_dueAt i),
           deadline_generation = generation, deadline_clearedAt = None, deadline_updatedAt = db_now w\<rparr>),
        advisory_lock := (advisory_lock w)(put_key i := None)\<rparr>, Done ()))"

definition deadline_run_of :: "put_deadline_input \<Rightarrow> int \<Rightarrow> deadline_run" where
  "deadline_run_of i generation =
     \<lparr>run_idempotencyKey = createDeadlineWorkflowIdempotencyKey i generation, run_availableAt = put_dueAt i,
      run_sandboxInstanceId = put_sandboxInstanceId i, run_kind = put_kind i, run_ownerLeaseId = put_ownerLeaseId i,
      run_dueAt = put_dueAt i, run_generation = generation\<rparr>"

text \<open>The engine keeps one run per idempotency key.\<close>

definition runWorkflow :: "deadline_run \<Rightarrow> (worker_world, unit) program" where
  "runWorkflow run = Step (\<lambda>w. case enqueue_answer w run of
     Inl e \<Rightarrow> Some (w, Raise e)
   | Inr _ \<Rightarrow> Some (if \<exists>r \<in> set (deadline_runs w). run_idempotencyKey r = run_idempotencyKey run then w
       else w\<lparr>deadline_runs := deadline_runs w @ [run]\<rparr>, Done ()))"

definition putSandboxInstanceDeadline ::
  "(string \<Rightarrow> string) \<Rightarrow> (string \<Rightarrow> string) \<Rightarrow> nat \<Rightarrow> put_deadline_input \<Rightarrow> (worker_world, int) program" where
  "putSandboxInstanceDeadline stored canonical tx i =
     prog_bind (acquireSandboxInstanceDeadlineWriteLock tx i) (\<lambda>_.
     prog_bind (readDeadline (put_key i)) (\<lambda>current.
     prog_bind (persistSandboxInstanceDeadline stored i (computeNextGeneration canonical current i)) (\<lambda>_.
     prog_bind (runWorkflow (deadline_run_of i (computeNextGeneration canonical current i))) (\<lambda>_.
       Done (computeNextGeneration canonical current i)))))"

definition deleteSandboxInstanceDeadline ::
  "string \<Rightarrow> sandbox_deadline_kind \<Rightarrow> string \<Rightarrow> (worker_world, unit) program" where
  "deleteSandboxInstanceDeadline sid kind owner = Step (\<lambda>w. Some
     (w\<lparr>deadlines := \<lambda>key. case deadlines w key of
          None \<Rightarrow> None
        | Some d \<Rightarrow> Some (if key = (sid, kind) \<and> deadline_ownerLeaseId d = owner then clear_deadline (db_now w) d else d)\<rparr>,
      Done ()))"

section \<open>The run of a deadline\<close>

definition findSandboxInstanceDeadline ::
  "(string \<Rightarrow> string) \<Rightarrow> string \<times> sandbox_deadline_kind \<Rightarrow> (worker_world, deadline_row option) program" where
  "findSandboxInstanceDeadline canonical key = prog_bind (readDeadline key) (\<lambda>found.
     Done (map_option (\<lambda>d. d\<lparr>deadline_dueAt := canonical (deadline_dueAt d)\<rparr>) found))"

datatype deadline_outcome = DEADLINE_EXECUTED | DEADLINE_MISSING | DEADLINE_CLEARED | DEADLINE_GENERATION_MISMATCH
  | DEADLINE_OWNER_LEASE_MISMATCH | DEADLINE_DUE_AT_MISMATCH | SNAPSHOT_SKIPPED
  | STOP_ACTION stop_outcome | RECONCILE_ACTION reconcile_outcome

text \<open>Whether the action was executed, and the outcome.\<close>

definition deadline_action :: "nat \<Rightarrow> deadline_run \<Rightarrow> string \<Rightarrow> (worker_world, bool \<times> deadline_outcome) program" where
  "deadline_action tx run owner = (case run_kind run of
     IDLE \<Rightarrow> prog_bind (stopSandboxInstance tx
         \<lparr>stop_sandboxInstanceId = run_sandboxInstanceId run, stop_stopReason = STOP_IDLE,
          stop_expectedOwnerLeaseId = Some owner\<rparr>)
       (\<lambda>res. Done (executed res, STOP_ACTION (stop_result_outcome res)))
   | DISCONNECT \<Rightarrow> prog_bind (reconcileSandboxInstance tx
         \<lparr>reconcile_sandboxInstanceId = run_sandboxInstanceId run, reconcile_expectedOwnerLeaseId = owner\<rparr>)
       (\<lambda>res. Done (reconcile_executed res, RECONCILE_ACTION (reconcile_result_outcome res))))"

definition handleSandboxInstanceDeadline ::
  "(string \<Rightarrow> string) \<Rightarrow> nat \<Rightarrow> deadline_run \<Rightarrow> (worker_world, bool \<times> deadline_outcome) program" where
  "handleSandboxInstanceDeadline canonical tx run =
     prog_bind (findSandboxInstanceDeadline canonical (run_sandboxInstanceId run, run_kind run)) (\<lambda>deadline.
       case deadline of
         None \<Rightarrow> Done (False, DEADLINE_MISSING)
       | Some d \<Rightarrow>
           if deadline_clearedAt d \<noteq> None then Done (False, DEADLINE_CLEARED)
           else if deadline_generation d \<noteq> run_generation run then Done (False, DEADLINE_GENERATION_MISMATCH)
           else if deadline_ownerLeaseId d \<noteq> run_ownerLeaseId run then Done (False, DEADLINE_OWNER_LEASE_MISMATCH)
           else if deadline_dueAt d \<noteq> run_dueAt run then Done (False, DEADLINE_DUE_AT_MISMATCH)
           else prog_bind (findInstance (run_sandboxInstanceId run)) (\<lambda>row.
             if map_option purpose row = Some SNAPSHOT then Done (False, SNAPSHOT_SKIPPED)
             else prog_bind (deadline_action tx run (deadline_ownerLeaseId d)) (\<lambda>(done', outcome).
               Done (done', if done' then DEADLINE_EXECUTED else outcome))))"

section \<open>Usage events\<close>

fun usage_type_string :: "usage_event_type \<Rightarrow> string" where
  "usage_type_string SANDBOX_ALLOCATED = ''sandbox_allocated''"
| "usage_type_string SANDBOX_RESUMED = ''sandbox_resumed''"
| "usage_type_string SANDBOX_READY = ''sandbox_ready''"
| "usage_type_string SANDBOX_STOPPED = ''sandbox_stopped''"
| "usage_type_string SANDBOX_FAILED = ''sandbox_failed''"
| "usage_type_string SANDBOX_REPLACED = ''sandbox_replaced''"

definition createSandboxUsageEventIdempotencyKey ::
  "string \<Rightarrow> int \<Rightarrow> usage_event_type \<Rightarrow> string \<Rightarrow> string option \<Rightarrow> string" where
  "createSandboxUsageEventIdempotencyKey sid generation eventType operationId discriminator =
     ''usage:'' @ sid @ '':'' @ string_of_int generation @ '':'' @ usage_type_string eventType @ '':'' @ operationId
       @ (case discriminator of None \<Rightarrow> [] | Some d \<Rightarrow> '':'' @ d)"

definition positive_or_null :: "int option \<Rightarrow> bool" where
  "positive_or_null n \<longleftrightarrow> (case n of None \<Rightarrow> True | Some k \<Rightarrow> k > 0)"

definition nonempty_or_null :: "string option \<Rightarrow> bool" where
  "nonempty_or_null t \<longleftrightarrow> t \<noteq> Some []"

definition usage_providers :: "string list" where
  "usage_providers = [''docker'', ''e2b'', ''freestyle'', ''modal'', ''opencomputer'', ''tensorlake'']"

definition valid_usage_event :: "usage_event \<Rightarrow> bool" where
  "valid_usage_event e \<longleftrightarrow> usage_idempotencyKey e \<noteq> [] \<and> usage_organizationId e \<noteq> [] \<and> usage_sandboxInstanceId e \<noteq> []
     \<and> positive_or_null (usage_computeGeneration e)
     \<and> (case usage_runtimeProvider e of None \<Rightarrow> True | Some p \<Rightarrow> p \<in> set usage_providers)
     \<and> nonempty_or_null (usage_providerSandboxId e) \<and> positive_or_null (usage_vcpuCount e)
     \<and> positive_or_null (usage_memoryMb e) \<and> positive_or_null (usage_diskMb e)"

text \<open>The event is stamped with the worker's clock; one of the same key is not written again.\<close>

definition recordWorkerSandboxUsageEvent :: "usage_event \<Rightarrow> (worker_world, bool) program" where
  "recordWorkerSandboxUsageEvent event =
     (if \<not> valid_usage_event event then Raise (WorkerError ''Invalid usage event.'')
      else Step (\<lambda>w. Some (
        if \<exists>e \<in> set (usage_events w). usage_idempotencyKey e = usage_idempotencyKey event then (w, Done False)
        else (w\<lparr>usage_events := usage_events w @ [event\<lparr>usage_occurredAt := worker_now w\<rparr>]\<rparr>, Done True))))"

definition terminal_usage_event ::
  "string \<Rightarrow> usage_event_type \<Rightarrow> string \<Rightarrow> string option \<Rightarrow> usage_event_state \<Rightarrow> usage_event" where
  "terminal_usage_event sid eventType operationId discriminator s =
     \<lparr>usage_idempotencyKey = createSandboxUsageEventIdempotencyKey sid (state_computeGeneration s) eventType
        operationId discriminator,
      usage_organizationId = state_organizationId s, usage_sandboxInstanceId = sid,
      usage_computeGeneration = Some (state_computeGeneration s), usage_eventType = eventType, usage_occurredAt = [],
      usage_runtimeProvider = Some (state_runtimeProvider s),
      usage_providerSandboxId = Some (state_providerSandboxId s), usage_vcpuCount = state_vcpuCount s,
      usage_memoryMb = state_memoryMb s, usage_diskMb = state_diskMb s\<rparr>"

definition terminateBootstrapAttachment ::
  "string \<Rightarrow> termination_target option \<Rightarrow> (worker_world, terminate_outcome option) program" where
  "terminateBootstrapAttachment sid target = (case target of
     None \<Rightarrow> Done None
   | Some t \<Rightarrow> Step (\<lambda>w. Some (w, prog_bind
       (of_answer (terminate_answer w sid (target_expectedOwnerLeaseId t) (target_expectedSessionId t)))
       (\<lambda>o'. Done (Some o')))))"

text \<open>The workflows: \<open>run\<close> is the id of the workflow run.\<close>

definition StopSandboxInstanceWorkflow :: "nat \<Rightarrow> string \<Rightarrow> stop_input \<Rightarrow> (worker_world, stop_result) program" where
  "StopSandboxInstanceWorkflow tx run i =
     prog_bind (stopSandboxInstance tx i) (\<lambda>res.
     prog_bind (case (executed res, usageEventState res) of
         (True, Some s) \<Rightarrow> prog_bind (recordWorkerSandboxUsageEvent (terminal_usage_event (stop_sandboxInstanceId i)
             (if stop_result_outcome res = OUTCOME_FAILED then SANDBOX_FAILED else SANDBOX_STOPPED) run None s))
             (\<lambda>_. Done ())
       | _ \<Rightarrow> Done ()) (\<lambda>_.
     prog_bind (terminateBootstrapAttachment (stop_sandboxInstanceId i) (terminationTarget res)) (\<lambda>_.
       if stop_result_outcome res = OUTCOME_FAILED
       then Raise (WorkerError (case terminalFailure res of None \<Rightarrow> ''Sandbox stop failed.''
              | Some (code, message) \<Rightarrow> code @ '': '' @ message))
       else Done res)))"

definition ReconcileSandboxInstanceWorkflow ::
  "nat \<Rightarrow> string \<Rightarrow> reconcile_input \<Rightarrow> (worker_world, reconcile_result) program" where
  "ReconcileSandboxInstanceWorkflow tx run i =
     prog_bind (reconcileSandboxInstance tx i) (\<lambda>res.
     prog_bind (case reconcile_usage res of
         Some s \<Rightarrow> prog_bind (recordWorkerSandboxUsageEvent (terminal_usage_event (reconcile_sandboxInstanceId i)
             (if reconcile_result_outcome res = RECONCILE_FAILED then SANDBOX_FAILED else SANDBOX_STOPPED) run
             (Some ''disconnect_grace_elapsed'') s)) (\<lambda>_. Done ())
       | None \<Rightarrow> Done ()) (\<lambda>_.
     prog_bind (terminateBootstrapAttachment (reconcile_sandboxInstanceId i) (reconcile_target res)) (\<lambda>_.
       Done res)))"

definition HandleSandboxInstanceDeadlineWorkflow ::
  "(string \<Rightarrow> string) \<Rightarrow> nat \<Rightarrow> deadline_run \<Rightarrow> (worker_world, bool \<times> deadline_outcome) program" where
  "HandleSandboxInstanceDeadlineWorkflow canonical tx run = handleSandboxInstanceDeadline canonical tx run"

section \<open>Steps that record nothing\<close>

abbreviation same_usage :: "worker_world \<Rightarrow> worker_world \<Rightarrow> bool" where
  "same_usage w v \<equiv> usage_events v = usage_events w"

lemma usage_mark:
  "guarantees same_usage stillPermitted \<Longrightarrow>
   guarantees same_usage (mark_instance tx sid final expected failure stillPermitted f)"
  by (rule guarantees_mark) simp_all

lemma usage_apply: "guarantees same_usage (applySandboxLifecycleEvent sid event)"
  unfolding applySandboxLifecycleEvent_def
  by (auto intro!: guarantees_intros guarantees_statements split: option.split transition_result.split if_split)

lemmas usage_quiet = guarantees_intros guarantees_reconcile_reads usage_mark usage_apply

lemma stop_records_nothing: "guarantees same_usage (stopSandboxInstance tx i)"
  unfolding stopSandboxInstance_def stop_loaded_def stop_requested_def stop_provider_def stop_inspect_again_def
    stop_mark_stopped_def markStopProviderFailureOrThrow_def markSandboxInstanceFailed_def
    stop_markSandboxInstanceStopped_def
  by (auto intro!: usage_quiet split: option.split stop_provider_action.split mark_outcome.split)

lemma reconcile_records_nothing: "guarantees same_usage (reconcileSandboxInstance tx i)"
  unfolding reconcileSandboxInstance_def reconcile_action_def stopActiveProviderSandboxDuringDisconnect_def
    stopProviderSandboxOrMarkMissing_def reconcile_mark_failed_def reconcile_mark_stopped_def
    markSandboxInstanceFailed_def reconcile_markSandboxInstanceStopped_def
  by (auto intro!: usage_quiet split: option.split reconciliation_action.split mark_outcome.split)

lemma guarantees_readDeadline: "(\<And>w. G w w) \<Longrightarrow> guarantees G (readDeadline key)"
  unfolding readDeadline_def by (auto intro!: guarantees_Step guarantees_Done)

lemma handle_records_nothing: "guarantees same_usage (HandleSandboxInstanceDeadlineWorkflow canonical tx run)"
  unfolding HandleSandboxInstanceDeadlineWorkflow_def handleSandboxInstanceDeadline_def deadline_action_def
    findSandboxInstanceDeadline_def
  by (auto intro!: usage_quiet guarantees_readDeadline stop_records_nothing reconcile_records_nothing
      split: option.split sandbox_deadline_kind.split)

section \<open>Properties\<close>

text \<open>The deadline in the table is the one a run was enqueued for.\<close>

definition current_run :: "(string \<Rightarrow> string) \<Rightarrow> worker_world \<Rightarrow> deadline_run \<Rightarrow> bool" where
  "current_run canonical w run \<longleftrightarrow> (case deadlines w (run_sandboxInstanceId run, run_kind run) of
     None \<Rightarrow> False
   | Some d \<Rightarrow> deadline_clearedAt d = None \<and> deadline_generation d = run_generation run
       \<and> deadline_ownerLeaseId d = run_ownerLeaseId run \<and> canonical (deadline_dueAt d) = run_dueAt run)"

text \<open>
  A deadline that was deleted, cleared or replaced never acts: if the table, when the run reads it, does not hold the
  deadline the run was enqueued for, the run reads it and does nothing else, and says that it was not executed.
\<close>

theorem stale_deadline_does_nothing:
  assumes "exec (handleSandboxInstanceDeadline canonical tx run) ((w, v) # l) r"
    and "\<not> current_run canonical w run"
  shows "v = w \<and> l = [] \<and> (r = None \<or> (\<exists>outcome. r = Some (Inr (False, outcome))))"
  using assms
  unfolding handleSandboxInstanceDeadline_def findSandboxInstanceDeadline_def readDeadline_def current_run_def
  by (auto simp: exec_Step split: option.splits if_splits)

lemma runWorkflow_enqueues:
  assumes "exec (runWorkflow run) l (Some (Inr x))"
  shows "\<exists>v v'. l = [(v, v')] \<and> (\<exists>r \<in> set (deadline_runs v'). run_idempotencyKey r = run_idempotencyKey run)"
proof -
  from assms obtain w v p l' where l: "l = (w, v) # l'" "exec p l' (Some (Inr x))"
    and step: "(case enqueue_answer w run of Inl e \<Rightarrow> Some (w, Raise e)
      | Inr _ \<Rightarrow> Some (if \<exists>r \<in> set (deadline_runs w). run_idempotencyKey r = run_idempotencyKey run then w
          else w\<lparr>deadline_runs := deadline_runs w @ [run]\<rparr>, Done ())) = Some (v, p)"
    unfolding runWorkflow_def by (auto simp: exec_Step)
  then have "p = Done () \<and> (\<exists>r \<in> set (deadline_runs v). run_idempotencyKey r = run_idempotencyKey run)"
    by (cases "enqueue_answer w run") (auto split: if_splits)
  with l show ?thesis by auto
qed

text \<open>
  C3: A put makes its deadline the current one and supersedes the others: the deadline it wrote is current for the run it
  enqueued; the generation never goes back, and it goes up unless owner and time stay the same and the deadline was
  not cleared; so of the runs that were current when it read the table those and only those that have its owner and
  time are still current, and a run with its key is in the queue. (The database must give a time back as it was given.)
\<close>

theorem put_supersedes:
  assumes "canonical (stored (put_dueAt i)) = put_dueAt i"
    and "exec (putSandboxInstanceDeadline stored canonical tx i) l (Some (Inr g))"
  shows "\<exists>a w u u' v v'. l = [a, (w, w), (u, u'), (v, v')] \<and>
    current_run canonical u' (deadline_run_of i g) \<and>
    (\<exists>r \<in> set (deadline_runs v'). run_idempotencyKey r = run_idempotencyKey (deadline_run_of i g)) \<and>
    (\<forall>d. deadlines w (put_key i) = Some d \<longrightarrow> deadline_generation d \<le> g \<and>
       (deadline_generation d = g \<longleftrightarrow> deadline_clearedAt d = None \<and>
          deadline_ownerLeaseId d = put_ownerLeaseId i \<and> canonical (deadline_dueAt d) = put_dueAt i)) \<and>
    (\<forall>run. run_sandboxInstanceId run = put_sandboxInstanceId i \<longrightarrow> run_kind run = put_kind i \<longrightarrow>
       current_run canonical w run \<longrightarrow>
       (current_run canonical u' run \<longleftrightarrow> run_ownerLeaseId run = put_ownerLeaseId i \<and> run_dueAt run = put_dueAt i))"
proof -
  let ?n = "\<lambda>w. computeNextGeneration canonical (deadlines w (put_key i)) i"
  from assms(2) obtain w0 w u v v' where l: "l = [(w0, w0\<lparr>advisory_lock := (advisory_lock w0)(put_key i \<mapsto> tx)\<rparr>),
      (w, w), (u, u\<lparr>deadlines := (deadlines u)(put_key i \<mapsto>
          \<lparr>deadline_ownerLeaseId = put_ownerLeaseId i, deadline_dueAt = stored (put_dueAt i),
           deadline_generation = ?n w, deadline_clearedAt = None, deadline_updatedAt = db_now u\<rparr>),
        advisory_lock := (advisory_lock u)(put_key i := None)\<rparr>), (v, v')]"
    and g: "g = ?n w" and enqueued: "\<exists>r \<in> set (deadline_runs v'). run_idempotencyKey r = run_idempotencyKey (deadline_run_of i g)"
    unfolding putSandboxInstanceDeadline_def acquireSandboxInstanceDeadlineWriteLock_def readDeadline_def
      persistSandboxInstanceDeadline_def
    by (auto simp: exec_Step split: if_splits elim!: exec_bindE dest!: runWorkflow_enqueues) blast
  have "deadline_generation d \<le> g \<and>
       (deadline_generation d = g \<longleftrightarrow> deadline_clearedAt d = None \<and>
          deadline_ownerLeaseId d = put_ownerLeaseId i \<and> canonical (deadline_dueAt d) = put_dueAt i)"
    if "deadlines w (put_key i) = Some d" for d
    using that by (auto simp: g computeNextGeneration_def)
  moreover have "current_run canonical (u\<lparr>deadlines := (deadlines u)(put_key i \<mapsto>
          \<lparr>deadline_ownerLeaseId = put_ownerLeaseId i, deadline_dueAt = stored (put_dueAt i),
           deadline_generation = ?n w, deadline_clearedAt = None, deadline_updatedAt = db_now u\<rparr>),
        advisory_lock := (advisory_lock u)(put_key i := None)\<rparr>) run \<longleftrightarrow>
      run_ownerLeaseId run = put_ownerLeaseId i \<and> run_dueAt run = put_dueAt i"
    if "run_sandboxInstanceId run = put_sandboxInstanceId i" "run_kind run = put_kind i" "current_run canonical w run"
    for run
    using that assms(1) by (auto simp: current_run_def computeNextGeneration_def split: option.splits)
  moreover have "current_run canonical (u\<lparr>deadlines := (deadlines u)(put_key i \<mapsto>
          \<lparr>deadline_ownerLeaseId = put_ownerLeaseId i, deadline_dueAt = stored (put_dueAt i),
           deadline_generation = ?n w, deadline_clearedAt = None, deadline_updatedAt = db_now u\<rparr>),
        advisory_lock := (advisory_lock u)(put_key i := None)\<rparr>) (deadline_run_of i g)"
    using assms(1) by (simp add: current_run_def deadline_run_of_def g)
  ultimately show ?thesis using l enqueued by blast
qed

text \<open>Concrete runs.\<close>

definition sample_put :: put_deadline_input where
  "sample_put = \<lparr>put_sandboxInstanceId = ''s'', put_kind = IDLE, put_ownerLeaseId = ''o'', put_dueAt = ''t9''\<rparr>"

definition attached_world :: worker_world where
  "attached_world = sample_world sample_row (\<lambda>_. sample_snapshot (Some ''o'')) stops_when_told"

lemmas run_put = putSandboxInstanceDeadline_def acquireSandboxInstanceDeadlineWriteLock_def readDeadline_def
  persistSandboxInstanceDeadline_def runWorkflow_def deadline_run_of_def computeNextGeneration_def
  createDeadlineWorkflowIdempotencyKey_def run_alone_bind

lemmas run_handle = HandleSandboxInstanceDeadlineWorkflow_def handleSandboxInstanceDeadline_def
  findSandboxInstanceDeadline_def deadline_action_def

theorem stale_deadline_does_nothing_witness:
  "exec (handleSandboxInstanceDeadline id 1 (deadline_run_of sample_put 1)) [(attached_world, attached_world)]
     (Some (Inr (False, DEADLINE_MISSING))) \<and> \<not> current_run id attached_world (deadline_run_of sample_put 1) \<and>
   attached_world = attached_world"
proof -
  have e: "exec (handleSandboxInstanceDeadline id 1 (deadline_run_of sample_put 1)) [(attached_world, attached_world)]
     (Some (Inr (False, DEADLINE_MISSING)))"
    by (simp add: run_handle run_put attached_world_def samples sample_put_def exec_Step)
  have n: "\<not> current_run id attached_world (deadline_run_of sample_put 1)"
    by (simp add: current_run_def run_put attached_world_def samples sample_put_def)
  from stale_deadline_does_nothing [OF e n] e n show ?thesis by blast
qed

lemma sample_put_run:
  "\<exists>v. run_alone (putSandboxInstanceDeadline id id 1 sample_put) attached_world = (v, Some (Inr 1)) \<and>
     run_alone (HandleSandboxInstanceDeadlineWorkflow id 2 (deadline_run_of sample_put 1)) v
       = (fst (run_alone (HandleSandboxInstanceDeadlineWorkflow id 2 (deadline_run_of sample_put 1)) v),
          Some (Inr (True, DEADLINE_EXECUTED))) \<and>
     map_option status (instances (fst (run_alone (HandleSandboxInstanceDeadlineWorkflow id 2
       (deadline_run_of sample_put 1)) v)) ''s'') = Some STOPPED \<and>
     usage_events (fst (run_alone (HandleSandboxInstanceDeadlineWorkflow id 2
       (deadline_run_of sample_put 1)) v)) = []"
  by (simp add: run_put run_handle run_stop attached_world_def samples sample_put_def release_def
      clearSandboxInstanceDeadlines_def)

theorem put_supersedes_witness:
  "\<exists>l u' g. exec (putSandboxInstanceDeadline id id 1 sample_put) l (Some (Inr g)) \<and>
     (\<exists>a b c v. l = [a, b, (c, u'), v]) \<and> current_run id u' (deadline_run_of sample_put g)"
proof -
  from sample_put_run obtain v where
    "run_alone (putSandboxInstanceDeadline id id 1 sample_put) attached_world = (v, Some (Inr 1))" by blast
  from run_alone_exec [OF this] obtain l where
    e: "exec (putSandboxInstanceDeadline id id 1 sample_put) l (Some (Inr 1))" by blast
  from put_supersedes [OF _ e] have "\<exists>a w u u' v v'. l = [a, (w, w), (u, u'), (v, v')] \<and>
    current_run id u' (deadline_run_of sample_put 1)"
    by (simp add: sample_put_def) blast
  with e show ?thesis by blast
qed

lemma record_writes:
  assumes "exec (recordWorkerSandboxUsageEvent e) l (Some (Inr x))"
  shows "\<exists>(w, v) \<in> set l. \<exists>e' \<in> set (usage_events v). usage_idempotencyKey e' = usage_idempotencyKey e"
  using assms unfolding recordWorkerSandboxUsageEvent_def by (auto simp: exec_Step split: if_splits)

lemma exec_bind_Inr:
  assumes "exec (prog_bind p k) l (Some (Inr b))"
  obtains a l1 l2 where "exec p l1 (Some (Inr a))" and "exec (k a) l2 (Some (Inr b))" and "l = l1 @ l2"
  using assms by (cases rule: exec_bindE) auto

lemma reconcile_end_recorded:
  assumes "exec (ReconcileSandboxInstanceWorkflow tx run i) l (Some (Inr res))" and "reconcile_usage res = Some s"
  shows "\<exists>(w, v) \<in> set l. \<exists>e \<in> set (usage_events v). usage_idempotencyKey e =
    createSandboxUsageEventIdempotencyKey (reconcile_sandboxInstanceId i) (state_computeGeneration s)
      (if reconcile_result_outcome res = RECONCILE_FAILED then SANDBOX_FAILED else SANDBOX_STOPPED) run
      (Some ''disconnect_grace_elapsed'')"
proof -
  from assms(1) [unfolded ReconcileSandboxInstanceWorkflow_def] obtain r l1 l2 where
    r: "exec (prog_bind (case reconcile_usage r of
         Some s \<Rightarrow> prog_bind (recordWorkerSandboxUsageEvent (terminal_usage_event (reconcile_sandboxInstanceId i)
             (if reconcile_result_outcome r = RECONCILE_FAILED then SANDBOX_FAILED else SANDBOX_STOPPED) run
             (Some ''disconnect_grace_elapsed'') s)) (\<lambda>_. Done ())
       | None \<Rightarrow> Done ()) (\<lambda>_.
     prog_bind (terminateBootstrapAttachment (reconcile_sandboxInstanceId i) (reconcile_target r)) (\<lambda>_.
       Done r))) l2 (Some (Inr res))" and l: "l = l1 @ l2"
    by (rule exec_bind_Inr) blast
  from r obtain x l3 l4 where x: "exec (case reconcile_usage r of
         Some s \<Rightarrow> prog_bind (recordWorkerSandboxUsageEvent (terminal_usage_event (reconcile_sandboxInstanceId i)
             (if reconcile_result_outcome r = RECONCILE_FAILED then SANDBOX_FAILED else SANDBOX_STOPPED) run
             (Some ''disconnect_grace_elapsed'') s)) (\<lambda>_. Done ())
       | None \<Rightarrow> Done ()) l3 (Some (Inr x))"
    and y: "exec (prog_bind (terminateBootstrapAttachment (reconcile_sandboxInstanceId i) (reconcile_target r))
       (\<lambda>_. Done r)) l4 (Some (Inr res))" and l2: "l2 = l3 @ l4"
    by (rule exec_bind_Inr)
  from y have "r = res" by (rule exec_bind_Inr) simp
  with x assms(2) have "exec (prog_bind (recordWorkerSandboxUsageEvent (terminal_usage_event
       (reconcile_sandboxInstanceId i) (if reconcile_result_outcome res = RECONCILE_FAILED then SANDBOX_FAILED
         else SANDBOX_STOPPED) run (Some ''disconnect_grace_elapsed'') s)) (\<lambda>_. Done ())) l3 (Some (Inr x))" by simp
  then have "\<exists>(w, v) \<in> set l3. \<exists>e' \<in> set (usage_events v). usage_idempotencyKey e' = usage_idempotencyKey
       (terminal_usage_event (reconcile_sandboxInstanceId i) (if reconcile_result_outcome res = RECONCILE_FAILED
         then SANDBOX_FAILED else SANDBOX_STOPPED) run (Some ''disconnect_grace_elapsed'') s)"
    by (rule exec_bind_Inr) (use record_writes in fastforce)
  then obtain w v e' where "(w, v) \<in> set l3" "e' \<in> set (usage_events v)" "usage_idempotencyKey e' = usage_idempotencyKey
       (terminal_usage_event (reconcile_sandboxInstanceId i) (if reconcile_result_outcome res = RECONCILE_FAILED
         then SANDBOX_FAILED else SANDBOX_STOPPED) run (Some ''disconnect_grace_elapsed'') s)" by blast
  with l l2 show ?thesis
    by (intro bexI [of _ "(w, v)"]) (auto simp: terminal_usage_event_def)
qed

text \<open>
  C16: A stop that was executed is metered: a run of the stop workflow that returns after it ended the sandbox leaves an
  event in the usage table, under the key of the instance, its compute generation and the run, that says stopped. (A run
  that found the sandbox failed records that it failed, and throws.)
\<close>

theorem stop_end_recorded:
  assumes "exec (StopSandboxInstanceWorkflow tx run i) l (Some (Inr res))" and "usageEventState res = Some s"
    and "executed res"
  shows "\<exists>(w, v) \<in> set l. \<exists>e \<in> set (usage_events v). usage_idempotencyKey e =
    createSandboxUsageEventIdempotencyKey (stop_sandboxInstanceId i) (state_computeGeneration s) SANDBOX_STOPPED run None"
proof -
  let ?metered = "\<lambda>r. case (executed r, usageEventState r) of
         (True, Some s) \<Rightarrow> prog_bind (recordWorkerSandboxUsageEvent (terminal_usage_event (stop_sandboxInstanceId i)
             (if stop_result_outcome r = OUTCOME_FAILED then SANDBOX_FAILED else SANDBOX_STOPPED) run None s))
             (\<lambda>_. Done ())
       | _ \<Rightarrow> Done ()"
  let ?last = "\<lambda>r. prog_bind (terminateBootstrapAttachment (stop_sandboxInstanceId i) (terminationTarget r)) (\<lambda>_.
       if stop_result_outcome r = OUTCOME_FAILED
       then Raise (WorkerError (case terminalFailure r of None \<Rightarrow> ''Sandbox stop failed.''
              | Some (code, message) \<Rightarrow> code @ '': '' @ message))
       else Done r)"
  from assms(1) [unfolded StopSandboxInstanceWorkflow_def] obtain r l1 l2 where
    r: "exec (prog_bind (?metered r) (\<lambda>_. ?last r)) l2 (Some (Inr res))" and l: "l = l1 @ l2"
    by (rule exec_bind_Inr) blast
  from r obtain x l3 l4 where x: "exec (?metered r) l3 (Some (Inr x))"
    and y: "exec (?last r) l4 (Some (Inr res))" and l2: "l2 = l3 @ l4"
    by (rule exec_bind_Inr)
  from y have "r = res \<and> stop_result_outcome res \<noteq> OUTCOME_FAILED" by (rule exec_bind_Inr) (auto split: if_splits)
  with x assms(2,3) have "exec (prog_bind (recordWorkerSandboxUsageEvent (terminal_usage_event
       (stop_sandboxInstanceId i) SANDBOX_STOPPED run None s)) (\<lambda>_. Done ())) l3 (Some (Inr x))" by simp
  then have "\<exists>(w, v) \<in> set l3. \<exists>e' \<in> set (usage_events v). usage_idempotencyKey e' = usage_idempotencyKey
       (terminal_usage_event (stop_sandboxInstanceId i) SANDBOX_STOPPED run None s)"
    by (rule exec_bind_Inr) (use record_writes in fastforce)
  then obtain w v e' where "(w, v) \<in> set l3" "e' \<in> set (usage_events v)" "usage_idempotencyKey e' =
      usage_idempotencyKey (terminal_usage_event (stop_sandboxInstanceId i) SANDBOX_STOPPED run None s)" by blast
  with l l2 show ?thesis
    by (intro bexI [of _ "(w, v)"]) (auto simp: terminal_usage_event_def)
qed

lemma sample_stop_run:
  "\<exists>v. run_alone (stopSandboxInstance 1 sample_stop) attached_world = (v, Some (Inr
     \<lparr>executed = True, stop_result_outcome = OUTCOME_STOPPED,
      terminationTarget = Some \<lparr>target_expectedOwnerLeaseId = ''o'', target_expectedSessionId = Some ''session''\<rparr>,
      terminalFailure = None, usageEventState = Some (createStopSandboxUsageEventState sample_row ''p'')\<rparr>)) \<and>
     usage_events v = [] \<and> terminate_answer v = (\<lambda>_ _ _. Inr TERMINATED)"
  by (simp add: run_stop attached_world_def samples release_def clearSandboxInstanceDeadlines_def
      resolveBootstrapAttachmentTerminationTarget_def)

lemma sample_event_valid:
  "valid_usage_event (terminal_usage_event ''s'' SANDBOX_STOPPED ''run'' None
     (createStopSandboxUsageEventState sample_row ''p''))"
  by (simp add: valid_usage_event_def terminal_usage_event_def createStopSandboxUsageEventState_def sample_row_def
      positive_or_null_def nonempty_or_null_def usage_providers_def createSandboxUsageEventIdempotencyKey_def)

lemma sample_workflow_run:
  "\<exists>v res. run_alone (StopSandboxInstanceWorkflow 1 ''run'' sample_stop) attached_world = (v, Some (Inr res)) \<and>
     executed res \<and> usageEventState res = Some (createStopSandboxUsageEventState sample_row ''p'')"
proof -
  have sid: "stop_sandboxInstanceId sample_stop = ''s''" by (simp add: sample_stop_def)
  from sample_stop_run obtain v where "run_alone (stopSandboxInstance 1 sample_stop) attached_world = (v, Some (Inr
     \<lparr>executed = True, stop_result_outcome = OUTCOME_STOPPED,
      terminationTarget = Some \<lparr>target_expectedOwnerLeaseId = ''o'', target_expectedSessionId = Some ''session''\<rparr>,
      terminalFailure = None, usageEventState = Some (createStopSandboxUsageEventState sample_row ''p'')\<rparr>))"
     "usage_events v = []" "terminate_answer v = (\<lambda>_ _ _. Inr TERMINATED)" by blast
  then show ?thesis
    unfolding StopSandboxInstanceWorkflow_def sid recordWorkerSandboxUsageEvent_def terminateBootstrapAttachment_def
    by (simp add: run_alone_bind sample_event_valid)
qed

theorem stop_end_recorded_witness:
  "\<exists>l res. exec (StopSandboxInstanceWorkflow 1 ''run'' sample_stop) l (Some (Inr res)) \<and> executed res \<and>
     (\<exists>(w, v) \<in> set l. \<exists>e \<in> set (usage_events v).
        usage_idempotencyKey e = createSandboxUsageEventIdempotencyKey ''s'' 1 SANDBOX_STOPPED ''run'' None)"
proof -
  let ?s = "createStopSandboxUsageEventState sample_row ''p''"
  from sample_workflow_run obtain v res where
    run: "run_alone (StopSandboxInstanceWorkflow 1 ''run'' sample_stop) attached_world = (v, Some (Inr res))"
    and res: "usageEventState res = Some ?s" "executed res" by blast
  have s: "state_computeGeneration ?s = 1" by (simp add: createStopSandboxUsageEventState_def sample_row_def)
  from run_alone_exec [OF run] obtain l where
    e: "exec (StopSandboxInstanceWorkflow 1 ''run'' sample_stop) l (Some (Inr res))" by blast
  have sid: "stop_sandboxInstanceId sample_stop = ''s''" by (simp add: sample_stop_def)
  from stop_end_recorded [OF e res, unfolded sid s] e res(2) show ?thesis by blast
qed

text \<open>
  C17: An end through the deadline workflow is not metered: no step of the run of a deadline, whatever happens beside it,
  writes a usage event, and yet such a run stops sandboxes: here it returns as executed, the instance is stopped, and
  the usage table is as empty as before.
\<close>

theorem deadline_end_unrecorded:
  "guarantees same_usage (HandleSandboxInstanceDeadlineWorkflow canonical tx run) \<and>
   (\<exists>w v. run_alone (HandleSandboxInstanceDeadlineWorkflow id 2 (deadline_run_of sample_put 1)) w
       = (v, Some (Inr (True, DEADLINE_EXECUTED))) \<and>
     map_option status (instances w ''s'') = Some RUNNING \<and> map_option status (instances v ''s'') = Some STOPPED \<and>
     usage_events v = [])"
proof -
  from sample_put_run obtain w where w: "run_alone (putSandboxInstanceDeadline id id 1 sample_put) attached_world
      = (w, Some (Inr 1))"
    and h: "run_alone (HandleSandboxInstanceDeadlineWorkflow id 2 (deadline_run_of sample_put 1)) w
       = (fst (run_alone (HandleSandboxInstanceDeadlineWorkflow id 2 (deadline_run_of sample_put 1)) w),
          Some (Inr (True, DEADLINE_EXECUTED)))"
    and "map_option status (instances (fst (run_alone (HandleSandboxInstanceDeadlineWorkflow id 2
       (deadline_run_of sample_put 1)) w)) ''s'') = Some STOPPED"
    and "usage_events (fst (run_alone (HandleSandboxInstanceDeadlineWorkflow id 2
       (deadline_run_of sample_put 1)) w)) = []" by blast
  moreover have "map_option status (instances w ''s'') = Some RUNNING"
    using w by (auto simp: run_put attached_world_def samples sample_put_def)
  ultimately show ?thesis using handle_records_nothing by blast
qed

end
