(* ===== verification/StopRequests.thy ===== *)
theory StopRequests
  imports DeadlineRuns
begin

text \<open>
  What the data plane API does to the status of an instance
  (\<open>apps/data-plane-api/src/internal/sandbox-instances/services\<close>): the claim of a stop request
  (\<open>stop-sandbox-instance.ts\<close>), which moves the instance to stopping before the stop workflow is enqueued, and the
  reports of the gateway on the runtime (\<open>apply-sandbox-runtime-lifecycle-event.ts\<close>). Each statement is a step; the
  row locks these short transactions hold between two of their statements are left out, so that the model has more
  interleavings than the database allows. Errors of the HTTP layer are told by their message.
\<close>

section \<open>Stop requests\<close>

datatype stop_request =
    IdleStop (request_sid: string) (request_expectedOwnerLeaseId: string)
  | UserStop (request_sid: string) (request_organizationId: string)

datatype stop_claim = ENQUEUE | RESPOND_ALREADY_STOPPED | RESPOND_ALREADY_TERMINAL

definition supportsUserRequestedStop :: "sandbox_instance_purpose \<Rightarrow> bool" where
  "supportsUserRequestedStop p \<longleftrightarrow> p \<in> {SESSION, DESIGNER, SETUP_ASSISTANT, SETUP_CHECK, SKILLS_DISCOVERY}"

definition assertIdleStopDeadlineStillCurrent :: "stop_request \<Rightarrow> (worker_world, unit) program" where
  "assertIdleStopDeadlineStillCurrent q = (case q of
     UserStop _ _ \<Rightarrow> Done ()
   | IdleStop sid expected \<Rightarrow> prog_bind (readDeadline (sid, IDLE)) (\<lambda>found.
       if (case found of None \<Rightarrow> False
           | Some d \<Rightarrow> deadline_ownerLeaseId d = expected \<and> deadline_clearedAt d = None)
       then Done ()
       else Raise (WorkerError (''Idle stop request for sandbox instance '' @ quoted sid @ '' is stale.''))))"

definition claimStopRequestFromStatus ::
  "stop_request \<Rightarrow> sandbox_instance_status \<Rightarrow> (worker_world, stop_claim option) program" where
  "claimStopRequestFromStatus q s = (case transitionSandboxLifecycle s STOP_REQUESTED of
     Invalid _ _ why \<Rightarrow> Raise (WorkerError why)
   | Unchanged _ \<Rightarrow> prog_bind (assertIdleStopDeadlineStillCurrent q) (\<lambda>_. Done (Some ENQUEUE))
   | Transition from to \<Rightarrow> prog_bind (assertIdleStopDeadlineStillCurrent q) (\<lambda>_.
       prog_bind (updateInstance (request_sid q) (\<lambda>r. status r = from \<and> deletedAt r = None)
           (\<lambda>time r. r\<lparr>status := to, updatedAt := time\<rparr>)) (\<lambda>updated.
         Done (if updated then Some ENQUEUE else None))))"

definition claim_terminal :: "sandbox_instance_status \<Rightarrow> stop_claim option" where
  "claim_terminal s = (if s = STOPPED then Some RESPOND_ALREADY_STOPPED
     else if s = FAILED then Some RESPOND_ALREADY_TERMINAL else None)"

text \<open>The loop of at most three attempts, by the number of attempts left.\<close>

fun resolveStopRequestAfterMissedStatusUpdate ::
  "nat \<Rightarrow> stop_request \<Rightarrow> (worker_world, stop_claim) program" where
  "resolveStopRequestAfterMissedStatusUpdate 0 q = Raise (WorkerError (''Failed to transition sandbox instance ''
     @ quoted (request_sid q) @ '' to stopping after concurrent status updates.''))"
| "resolveStopRequestAfterMissedStatusUpdate (Suc n) q =
     prog_bind (findInstance (request_sid q)) (\<lambda>found. case live_row found of
       None \<Rightarrow> Raise (instance_not_found (request_sid q))
     | Some row \<Rightarrow> (case claim_terminal (status row) of
         Some c \<Rightarrow> Done c
       | None \<Rightarrow> prog_bind (claimStopRequestFromStatus q (status row)) (\<lambda>claimed. case claimed of
           Some c \<Rightarrow> Done c
         | None \<Rightarrow> resolveStopRequestAfterMissedStatusUpdate n q)))"

definition requested_row :: "stop_request \<Rightarrow> instance_row option \<Rightarrow> instance_row option" where
  "requested_row q found = (case live_row found of
     None \<Rightarrow> None
   | Some row \<Rightarrow> (case q of IdleStop _ _ \<Rightarrow> Some row
       | UserStop _ org \<Rightarrow> if organizationId row = org then Some row else None))"

definition is_user_stop :: "stop_request \<Rightarrow> bool" where
  "is_user_stop q = (case q of UserStop _ _ \<Rightarrow> True | IdleStop _ _ \<Rightarrow> False)"

definition claim_loaded :: "stop_request \<Rightarrow> instance_row \<Rightarrow> (worker_world, stop_claim) program" where
  "claim_loaded q row =
     (if is_user_stop q \<and> \<not> supportsUserRequestedStop (purpose row)
      then Raise (WorkerError (''User-requested stop is only supported for session, designer, setup-check, setup-assistant, and skills-discovery sandbox instances; sandbox instance ''
             @ quoted (request_sid q) @ '' has purpose '' @ quoted (purpose_string (purpose row)) @ ''.''))
      else case claim_terminal (status row) of
        Some c \<Rightarrow> Done c
      | None \<Rightarrow>
          if is_user_stop q \<and> \<not> isSandboxUserStopEligible (status row) \<and> status row \<noteq> STOPPING
          then Raise (WorkerError (''Sandbox instance '' @ quoted (request_sid q) @ '' is ''
                 @ quoted (status_string (status row)) @ '' and cannot be stopped yet.''))
          else prog_bind (claimStopRequestFromStatus q (status row)) (\<lambda>claimed. case claimed of
            Some c \<Rightarrow> Done c
          | None \<Rightarrow> resolveStopRequestAfterMissedStatusUpdate 3 q))"

definition claimSandboxInstanceStop :: "stop_request \<Rightarrow> (worker_world, stop_claim) program" where
  "claimSandboxInstanceStop q =
     prog_bind (findInstance (request_sid q)) (\<lambda>found. case requested_row q found of
       None \<Rightarrow> Raise (instance_not_found (request_sid q))
     | Some row \<Rightarrow> claim_loaded q row)"

section \<open>Reports of the gateway\<close>

datatype runtime_report =
    BootstrapDetachedReport (report_ownerLeaseId: string)
  | BootstrapDegradedReport (report_ownerLeaseId: string)
  | BootstrapRecoveredReport (report_ownerLeaseId: string)
  | RuntimeReadinessReport (report_ownerLeaseId: string) bool

definition isRuntimeLifecycleEventOwnerCurrent :: "string \<Rightarrow> runtime_report \<Rightarrow> (worker_world, bool) program" where
  "isRuntimeLifecycleEventOwnerCurrent sid report = (case report of
     BootstrapDetachedReport owner \<Rightarrow> prog_bind (readSnapshot sid) (\<lambda>s.
       Done (if ownerLeaseId s = None \<and> attachment s = None then True
             else ownerLeaseId s = Some owner
               \<or> map_option attachment_ownerLeaseId (attachment s) = Some owner))
   | _ \<Rightarrow> Done True)"

fun resolveLifecycleEvent :: "sandbox_instance_status \<Rightarrow> runtime_report \<Rightarrow> sandbox_lifecycle_event option" where
  "resolveLifecycleEvent s (BootstrapDetachedReport _) =
     (if s = RECONNECTING then None else if s \<noteq> RUNNING \<and> s \<noteq> DEGRADED then None else Some BOOTSTRAP_DETACHED)"
| "resolveLifecycleEvent s (BootstrapDegradedReport _) = (if s \<noteq> RUNNING then None else Some BOOTSTRAP_DEGRADED)"
| "resolveLifecycleEvent s (BootstrapRecoveredReport _) = (if s \<noteq> DEGRADED then None else Some BOOTSTRAP_RECOVERED)"
| "resolveLifecycleEvent s (RuntimeReadinessReport _ ready) =
     (if s = RECONNECTING then Some (if ready then BOOTSTRAP_REATTACHED_READY else BOOTSTRAP_REATTACHED_NOT_READY)
      else if ready \<and> (s = INITIALIZING \<or> s = RUNNING) then Some RUNTIME_READY
      else None)"

definition applySandboxRuntimeLifecycleEvent ::
  "string \<Rightarrow> runtime_report \<Rightarrow> (worker_world, sandbox_instance_status) program" where
  "applySandboxRuntimeLifecycleEvent sid report =
     prog_bind (isRuntimeLifecycleEventOwnerCurrent sid report) (\<lambda>current.
       prog_bind (findInstance sid) (\<lambda>found. case live_row found of
         None \<Rightarrow> Raise (instance_not_found sid)
       | Some row \<Rightarrow>
           if \<not> current then Done (status row)
           else (case resolveLifecycleEvent (status row) report of
             None \<Rightarrow> Done (status row)
           | Some event \<Rightarrow> (case transitionSandboxLifecycle (status row) event of
               Invalid _ _ why \<Rightarrow> Raise (WorkerError why)
             | Unchanged s \<Rightarrow> Done s
             | Transition from to \<Rightarrow> prog_bind (updateInstance sid (\<lambda>r. status r = from \<and> deletedAt r = None)
                   (\<lambda>time r. r\<lparr>status := to, updatedAt := time\<rparr>)) (\<lambda>updated.
                 if updated then Done to
                 else Raise (WorkerError (''Failed to apply sandbox lifecycle event '' @ quoted (event_string event)
                        @ '' from '' @ quoted (status_string from) @ '' to '' @ quoted (status_string to) @ ''.'')))))))"

section \<open>Steps\<close>

lemma claim_follows: "guarantees (follows_lifecycle sid) (claimSandboxInstanceStop q)"
proof -
  have to: "lifecycle_step s STOP_REQUESTED to \<and> s = s'"
    if "transitionSandboxLifecycle s STOP_REQUESTED = Transition s' to" for s s' to
    using that lifecycle_step.move [of s STOP_REQUESTED to]
    unfolding transitionSandboxLifecycle_def transitionFrom_def by (auto split: if_splits)
  have deadline: "guarantees (follows_lifecycle sid) (assertIdleStopDeadlineStillCurrent q)"
    unfolding assertIdleStopDeadlineStillCurrent_def
    by (auto intro!: guarantees_intros guarantees_readDeadline split: stop_request.split)
  have status: "guarantees (follows_lifecycle sid) (claimStopRequestFromStatus q s)" for s
    unfolding claimStopRequestFromStatus_def
    by (fastforce intro!: guarantees_intros guarantees_update deadline dest: to simp: follows_lifecycle_def
        split: transition_result.split option.split)
  have loop: "guarantees (follows_lifecycle sid) (resolveStopRequestAfterMissedStatusUpdate n q)" for n
    by (induction n) (auto intro!: guarantees_intros guarantees_reads status split: option.split)
  show ?thesis
    unfolding claimSandboxInstanceStop_def claim_loaded_def
    by (auto intro!: guarantees_intros guarantees_reads status loop split: option.split)
qed

text \<open>A step after which the instance is stopping, or that found it so.\<close>

definition finds_stopping :: "string \<Rightarrow> worker_world \<times> worker_world \<Rightarrow> bool" where
  "finds_stopping sid = (\<lambda>(w, v). map_option status (instances v sid) = Some STOPPING)"

definition finds_idle_deadline :: "stop_request \<Rightarrow> worker_world \<times> worker_world \<Rightarrow> bool" where
  "finds_idle_deadline q = (\<lambda>(w, v). case q of UserStop _ _ \<Rightarrow> True
     | IdleStop sid expected \<Rightarrow> (case deadlines w (sid, IDLE) of None \<Rightarrow> False
         | Some d \<Rightarrow> deadline_ownerLeaseId d = expected \<and> deadline_clearedAt d = None))"

abbreviation claimed :: "stop_request \<Rightarrow> (worker_world \<times> worker_world) list \<Rightarrow> bool" where
  "claimed q l \<equiv> (\<exists>x \<in> set l. finds_stopping (request_sid q) x) \<and> (\<exists>x \<in> set l. finds_idle_deadline q x)"

lemma deadline_checked:
  assumes "exec (assertIdleStopDeadlineStillCurrent q) l (Some (Inr x))"
  shows "is_user_stop q \<or> (\<exists>x \<in> set l. finds_idle_deadline q x)"
  using assms unfolding assertIdleStopDeadlineStillCurrent_def readDeadline_def is_user_stop_def finds_idle_deadline_def
  by (auto simp: exec_Step split: stop_request.splits option.splits if_splits)

lemma update_stopping:
  assumes "exec (updateInstance sid matches (\<lambda>time r. r\<lparr>status := STOPPING, updatedAt := time\<rparr>)) l (Some (Inr True))"
  shows "\<exists>x \<in> set l. finds_stopping sid x"
  using assms unfolding updateInstance_def finds_stopping_def
  by (auto simp: exec_Step split: if_splits option.splits)

lemma stop_requested_to: "transitionSandboxLifecycle s STOP_REQUESTED = Transition s' to \<Longrightarrow> to = STOPPING"
  by (cases s) (auto simp: transitionSandboxLifecycle_def transitionFrom_def)

lemma stop_requested_unchanged: "transitionSandboxLifecycle s STOP_REQUESTED = Unchanged s' \<Longrightarrow> s = STOPPING"
  by (cases s) (auto simp: transitionSandboxLifecycle_def transitionFrom_def)

lemma claim_from_status:
  assumes "exec (claimStopRequestFromStatus q s) l (Some (Inr (Some ENQUEUE)))"
    and "finds_stopping (request_sid q) x \<or> s \<noteq> STOPPING"
  shows "claimed q (x # l)"
proof -
  have user: "finds_idle_deadline q x" if "is_user_stop q"
    using that by (cases q) (auto simp: is_user_stop_def finds_idle_deadline_def)
  show ?thesis
  proof (cases "transitionSandboxLifecycle s STOP_REQUESTED")
    case (Transition s' to)
    with assms(1) stop_requested_to [OF Transition] have
      "exec (prog_bind (assertIdleStopDeadlineStillCurrent q) (\<lambda>_.
       prog_bind (updateInstance (request_sid q) (\<lambda>r. status r = s' \<and> deletedAt r = None)
           (\<lambda>time r. r\<lparr>status := STOPPING, updatedAt := time\<rparr>)) (\<lambda>updated.
         Done (if updated then Some ENQUEUE else None)))) l (Some (Inr (Some ENQUEUE)))"
      unfolding claimStopRequestFromStatus_def by simp
    then obtain y l1 l2 where d: "exec (assertIdleStopDeadlineStillCurrent q) l1 (Some (Inr y))" and l: "l = l1 @ l2"
      and "exec (prog_bind (updateInstance (request_sid q) (\<lambda>r. status r = s' \<and> deletedAt r = None)
           (\<lambda>time r. r\<lparr>status := STOPPING, updatedAt := time\<rparr>)) (\<lambda>updated.
         Done (if updated then Some ENQUEUE else None))) l2 (Some (Inr (Some ENQUEUE)))"
      by (rule exec_bind_Inr)
    then obtain l3 where u: "exec (updateInstance (request_sid q) (\<lambda>r. status r = s' \<and> deletedAt r = None)
           (\<lambda>time r. r\<lparr>status := STOPPING, updatedAt := time\<rparr>)) l3 (Some (Inr True))" "l2 = l3"
      by (auto elim!: exec_bind_Inr split: if_splits)
    from deadline_checked [OF d] update_stopping [OF u(1)] user l u(2) show ?thesis by auto
  next
    case (Unchanged s')
    with assms(1) have "exec (prog_bind (assertIdleStopDeadlineStillCurrent q) (\<lambda>_. Done (Some ENQUEUE))) l
        (Some (Inr (Some ENQUEUE)))"
      unfolding claimStopRequestFromStatus_def by simp
    then obtain y l1 where "exec (assertIdleStopDeadlineStillCurrent q) l1 (Some (Inr y))" "l = l1"
      by (auto elim!: exec_bind_Inr)
    with deadline_checked [OF this(1)] user stop_requested_unchanged [OF Unchanged] assms(2) show ?thesis by auto
  next
    case (Invalid s' e why)
    with assms(1) show ?thesis unfolding claimStopRequestFromStatus_def by simp
  qed
qed

lemma live_found: "live_row found = Some row \<Longrightarrow> found = Some row"
  by (simp add: live_row_def split: option.splits if_splits)

lemma claim_loop:
  "exec (resolveStopRequestAfterMissedStatusUpdate n q) l (Some (Inr ENQUEUE)) \<Longrightarrow> claimed q l"
proof (induction n arbitrary: l)
  case (Suc n)
  from Suc.prems [simplified] obtain found l1 l2 where f: "exec (findInstance (request_sid q)) l1 (Some (Inr found))"
    and k: "exec (case live_row found of
       None \<Rightarrow> Raise (instance_not_found (request_sid q))
     | Some row \<Rightarrow> (case claim_terminal (status row) of
         Some c \<Rightarrow> Done c
       | None \<Rightarrow> prog_bind (claimStopRequestFromStatus q (status row)) (\<lambda>claimed. case claimed of
           Some c \<Rightarrow> Done c
         | None \<Rightarrow> resolveStopRequestAfterMissedStatusUpdate n q))) l2 (Some (Inr ENQUEUE))" and l: "l = l1 @ l2"
    by (rule exec_bind_Inr)
  from f obtain w where w: "l1 = [(w, w)]" "found = instances w (request_sid q)"
    unfolding findInstance_def by (auto simp: exec_Step)
  from k obtain row where row: "live_row found = Some row" by (cases "live_row found") auto
  with k have "exec (prog_bind (claimStopRequestFromStatus q (status row)) (\<lambda>claimed. case claimed of
           Some c \<Rightarrow> Done c
         | None \<Rightarrow> resolveStopRequestAfterMissedStatusUpdate n q)) l2 (Some (Inr ENQUEUE))"
    by (auto simp: claim_terminal_def split: if_splits)
  then obtain c l3 l4 where c: "exec (claimStopRequestFromStatus q (status row)) l3 (Some (Inr c))"
    and r: "exec (case c of Some c \<Rightarrow> Done c | None \<Rightarrow> resolveStopRequestAfterMissedStatusUpdate n q) l4
      (Some (Inr ENQUEUE))" and l2: "l2 = l3 @ l4"
    by (rule exec_bind_Inr)
  show ?case
  proof (cases c)
    case None
    with r Suc.IH [of l4] l l2 show ?thesis by auto
  next
    case (Some c')
    with r c have "exec (claimStopRequestFromStatus q (status row)) l3 (Some (Inr (Some ENQUEUE)))" "l4 = []" by auto
    moreover have "finds_stopping (request_sid q) (w, w) \<or> status row \<noteq> STOPPING"
      using w live_found [OF row] by (auto simp: finds_stopping_def)
    ultimately show ?thesis using claim_from_status [of q "status row" l3 "(w, w)"] l l2 w by auto
  qed
qed simp

lemma requested_found: "requested_row q found = Some row \<Longrightarrow> found = Some row"
  by (cases q) (simp_all add: requested_row_def live_row_def split: option.splits if_splits)

lemma claim_terminal_not_enqueued: "claim_terminal s \<noteq> Some ENQUEUE"
  by (simp add: claim_terminal_def)

lemma claim_loaded_claimed:
  assumes "exec (claim_loaded q row) l (Some (Inr ENQUEUE))" and "finds_stopping (request_sid q) x \<or> status row \<noteq> STOPPING"
  shows "claimed q (x # l)"
proof -
  from assms(1) claim_terminal_not_enqueued [of "status row"]
  have "exec (prog_bind (claimStopRequestFromStatus q (status row)) (\<lambda>claimed. case claimed of
            Some c \<Rightarrow> Done c
          | None \<Rightarrow> resolveStopRequestAfterMissedStatusUpdate 3 q)) l (Some (Inr ENQUEUE))"
    unfolding claim_loaded_def
    by (simp del: resolveStopRequestAfterMissedStatusUpdate.simps split: if_splits option.splits)
  then obtain c l3 l4 where c: "exec (claimStopRequestFromStatus q (status row)) l3 (Some (Inr c))"
    and r: "exec (case c of Some c \<Rightarrow> Done c | None \<Rightarrow> resolveStopRequestAfterMissedStatusUpdate 3 q) l4
      (Some (Inr ENQUEUE))" and l: "l = l3 @ l4"
    by (rule exec_bind_Inr)
  show ?thesis
  proof (cases c)
    case None
    with r have "exec (resolveStopRequestAfterMissedStatusUpdate 3 q) l4 (Some (Inr ENQUEUE))"
      by (simp del: resolveStopRequestAfterMissedStatusUpdate.simps)
    from claim_loop [OF this] l show ?thesis by auto
  next
    case (Some c')
    with r c have "exec (claimStopRequestFromStatus q (status row)) l3 (Some (Inr (Some ENQUEUE)))" "l4 = []" by auto
    with claim_from_status [OF this(1) assms(2)] l show ?thesis by simp
  qed
qed

section \<open>Properties\<close>


definition deadline_world :: worker_world where
  "deadline_world = attached_world\<lparr>deadlines := [(''s'', IDLE) \<mapsto> \<lparr>deadline_ownerLeaseId = ''o'', deadline_dueAt = ''t9'',
     deadline_generation = 1, deadline_clearedAt = None, deadline_updatedAt = ''t0''\<rparr>]\<rparr>"

lemmas run_claim = claimSandboxInstanceStop_def claim_loaded_def claimStopRequestFromStatus_def assertIdleStopDeadlineStillCurrent_def
  requested_row_def live_row_def claim_terminal_def is_user_stop_def supportsUserRequestedStop_def findInstance_def
  updateInstance_def readDeadline_def transitionSandboxLifecycle_def transitionFrom_def run_alone_bind


text \<open>
  The eligibility of a user's stop is checked once only: if the status moves between the check and the claim, the next
  attempt accepts every status in which \<open>stop_requested\<close> is a transition. Here the request of a user finds the
  instance reconnecting and claims it when it is initializing, a status in which the same request, had it come a
  moment later, is refused.
\<close>

theorem user_stop_eligibility_lost:
  "\<exists>w v u l. exec (claimSandboxInstanceStop (UserStop ''s'' ''org'')) l (Some (Inr ENQUEUE)) \<and>
     l = [(w, w), (v, v), (v, v), (v, u)] \<and> map_option status (instances w ''s'') = Some RECONNECTING \<and>
     map_option status (instances v ''s'') = Some INITIALIZING \<and> map_option status (instances u ''s'') = Some STOPPING \<and>
     \<not> isSandboxUserStopEligible INITIALIZING \<and>
     exec (claimSandboxInstanceStop (UserStop ''s'' ''org'')) [(v, v)]
       (Some (Inl (WorkerError (''Sandbox instance '' @ quoted ''s'' @ '' is '' @ quoted ''initializing''
         @ '' and cannot be stopped yet.''))))"
proof -
  let ?w = "\<lambda>s. attached_world\<lparr>instances := [''s'' \<mapsto> sample_row\<lparr>status := s\<rparr>]\<rparr>"
  have "\<exists>u. exec (claimSandboxInstanceStop (UserStop ''s'' ''org''))
     [(?w RECONNECTING, ?w RECONNECTING), (?w INITIALIZING, ?w INITIALIZING), (?w INITIALIZING, ?w INITIALIZING),
      (?w INITIALIZING, u)] (Some (Inr ENQUEUE)) \<and> map_option status (instances u ''s'') = Some STOPPING"
    by (simp add: run_claim attached_world_def samples exec_Step numeral_3_eq_3)
  then obtain u where "exec (claimSandboxInstanceStop (UserStop ''s'' ''org''))
     [(?w RECONNECTING, ?w RECONNECTING), (?w INITIALIZING, ?w INITIALIZING), (?w INITIALIZING, ?w INITIALIZING),
      (?w INITIALIZING, u)] (Some (Inr ENQUEUE))" "map_option status (instances u ''s'') = Some STOPPING" by blast
  moreover have "exec (claimSandboxInstanceStop (UserStop ''s'' ''org'')) [(?w INITIALIZING, ?w INITIALIZING)]
       (Some (Inl (WorkerError (''Sandbox instance '' @ quoted ''s'' @ '' is '' @ quoted ''initializing''
         @ '' and cannot be stopped yet.''))))"
    by (simp add: run_claim attached_world_def samples exec_Step)
  ultimately show ?thesis
    by (intro exI [of _ "?w RECONNECTING"] exI [of _ "?w INITIALIZING"] exI [of _ u]
        exI [of _ "[(?w RECONNECTING, ?w RECONNECTING), (?w INITIALIZING, ?w INITIALIZING),
          (?w INITIALIZING, ?w INITIALIZING), (?w INITIALIZING, u)]"]) simp
qed

text \<open>
  The reports of a gateway move an instance only between the statuses of a started sandbox: every step of a report is
  a transition of the life cycle, and one that changes the row finds it initializing, running, degraded or reconnecting
  and not deleted, so that no report brings back a sandbox that is stopping, stopped or failed; but only the
  detachment is checked against the owner: a readiness report of a replaced owner is applied like one of the current.
\<close>

theorem reports_keep_to_started:
  "guarantees (\<lambda>w v. follows_lifecycle sid w v \<and> (instances v = instances w \<or>
       (\<exists>row. instances w sid = Some row \<and> deletedAt row = None
          \<and> status row \<in> {INITIALIZING, RUNNING, DEGRADED, RECONNECTING})))
     (applySandboxRuntimeLifecycleEvent sid report) \<and>
   (\<forall>stale current ready. applySandboxRuntimeLifecycleEvent sid (RuntimeReadinessReport stale ready)
     = applySandboxRuntimeLifecycleEvent sid (RuntimeReadinessReport current ready))"
proof
  have to: "lifecycle_step s' e to \<and> s' \<in> {INITIALIZING, RUNNING, DEGRADED, RECONNECTING}"
    if "resolveLifecycleEvent s report = Some e" "transitionSandboxLifecycle s e = Transition s' to" for s e s' to
    using that lifecycle_step.move [of s e to]
    by (cases report; cases e) (auto simp: transitionSandboxLifecycle_def transitionFrom_def split: if_splits)
  show "guarantees (\<lambda>w v. follows_lifecycle sid w v \<and> (instances v = instances w \<or>
       (\<exists>row. instances w sid = Some row \<and> deletedAt row = None
          \<and> status row \<in> {INITIALIZING, RUNNING, DEGRADED, RECONNECTING})))
     (applySandboxRuntimeLifecycleEvent sid report)"
    unfolding applySandboxRuntimeLifecycleEvent_def isRuntimeLifecycleEventOwnerCurrent_def
    by (fastforce intro!: guarantees_intros guarantees_reads guarantees_update dest: to simp: follows_lifecycle_def
        split: option.split transition_result.split runtime_report.split)
  show "\<forall>stale current ready. applySandboxRuntimeLifecycleEvent sid (RuntimeReadinessReport stale ready)
     = applySandboxRuntimeLifecycleEvent sid (RuntimeReadinessReport current ready)"
    unfolding applySandboxRuntimeLifecycleEvent_def isRuntimeLifecycleEventOwnerCurrent_def
      resolveLifecycleEvent.simps runtime_report.case by blast
qed

end
