(* ===== verification/SandboxUsage.thy ===== *)
theory SandboxUsage
  imports Complex_Main JsonValues EgressRoutes WorkerPrograms
begin

text \<open>
  The usage summary of an organization (\<open>apps/data-plane-api/src/internal/sandbox-usage/services\<close>,
  \<open>sandbox-usage-aggregation.ts\<close> and \<open>isUsageMeasurementComplete\<close> of \<open>read-sandbox-usage-summary.ts\<close>): the
  events of the usage table are grouped by instance and compute generation, paired to intervals, clipped to the period
  and added up, in all, by day, by profile and by activity. \<open>Date.parse\<close> is the parameter \<open>parse\<close>, with \<open>None\<close> for a
  value that is not finite, and \<open>localeCompare\<close> a parameter. Sums of hours are exact rationals where the code adds
  doubles. A UTC day is its number since the epoch, where the code has the first ten characters of the ISO string.
\<close>

section \<open>Data\<close>

datatype sandbox_instance_source = SOURCE_DASHBOARD | SOURCE_WEBHOOK | SOURCE_SCHEDULE | SOURCE_SYSTEM

datatype usage_activity = USER_SESSIONS | DESIGNER_SESSIONS | TRIGGER_RUNS | SETUP_ASSISTANTS | SETUP_SCRIPT_CHECKS
  | SNAPSHOT_MAINTENANCE

definition SandboxUsageActivities :: "usage_activity list" where
  "SandboxUsageActivities = [USER_SESSIONS, DESIGNER_SESSIONS, TRIGGER_RUNS, SETUP_ASSISTANTS, SETUP_SCRIPT_CHECKS,
     SNAPSHOT_MAINTENANCE]"

record usage_row =
  row_sandboxInstanceId :: string
  row_computeGeneration :: "int option"
  row_eventType :: usage_event_type
  row_occurredAt :: string
  row_vcpuCount :: "int option"
  row_memoryMb :: "int option"
  row_diskMb :: "int option"

record usage_metadata =
  metadata_sandboxProfileId :: string
  metadata_purpose :: sandbox_instance_purpose
  metadata_source :: sandbox_instance_source

record usage_run =
  started_sandboxInstanceId :: string
  started_startedAt :: string

record runtime_interval =
  interval_sandboxInstanceId :: string
  interval_startMs :: int
  interval_endMs :: "int option"
  interval_vcpuCount :: "int option"
  interval_memoryMb :: "int option"
  interval_diskMb :: "int option"

datatype usage_totals = UsageTotals (sandboxHours: rat) (sandboxRuns: int) (vcpuHours: rat) (memoryGbHours: rat)
  (storageGbHours: rat)

record daily_total =
  daily_sandboxHours :: rat
  daily_runCount :: int

definition createEmptyTotals :: usage_totals where
  "createEmptyTotals = UsageTotals 0 0 0 0 0"

definition addTotals :: "usage_totals \<Rightarrow> usage_totals \<Rightarrow> usage_totals" where
  "addTotals target source = UsageTotals (sandboxHours target + sandboxHours source)
     (sandboxRuns target + sandboxRuns source) (vcpuHours target + vcpuHours source)
     (memoryGbHours target + memoryGbHours source) (storageGbHours target + storageGbHours source)"

text \<open>Totals form a commutative monoid, so that the acc of the library apply to them.\<close>

instantiation usage_totals :: comm_monoid_add
begin

definition zero_usage_totals :: usage_totals where
  "zero_usage_totals = createEmptyTotals"

definition plus_usage_totals :: "usage_totals \<Rightarrow> usage_totals \<Rightarrow> usage_totals" where
  "plus_usage_totals = addTotals"

instance
  by standard (simp_all add: zero_usage_totals_def plus_usage_totals_def createEmptyTotals_def addTotals_def
      ac_simps usage_totals.expand)

end

section \<open>Time\<close>

definition MillisecondsPerHour :: int where
  "MillisecondsPerHour = 60 * 60 * 1000"

definition MillisecondsPerDay :: int where
  "MillisecondsPerDay = 24 * MillisecondsPerHour"

definition hours_of :: "int \<Rightarrow> rat" where
  "hours_of ms = of_int ms / of_int MillisecondsPerHour"

definition parseUsageTimestamp :: "(string \<Rightarrow> int option) \<Rightarrow> string \<Rightarrow> string + int" where
  "parseUsageTimestamp parse value = (case parse value of
     None \<Rightarrow> Inl (''Invalid timestamp: '' @ value) | Some t \<Rightarrow> Inr t)"

definition startOfUtcDay :: "int \<Rightarrow> int" where
  "startOfUtcDay t = (t div MillisecondsPerDay) * MillisecondsPerDay"

definition toUtcDay :: "int \<Rightarrow> int" where
  "toUtcDay t = t div MillisecondsPerDay"

lemma day_positive [simp]: "0 < MillisecondsPerDay"
  by (simp add: MillisecondsPerDay_def MillisecondsPerHour_def)

lemma start_of_day: "startOfUtcDay t \<le> t" "t < startOfUtcDay t + MillisecondsPerDay"
proof -
  have "t div MillisecondsPerDay * MillisecondsPerDay + t mod MillisecondsPerDay = t" by (rule div_mult_mod_eq)
  moreover have "0 \<le> t mod MillisecondsPerDay" "t mod MillisecondsPerDay < MillisecondsPerDay" by simp_all
  ultimately show "startOfUtcDay t \<le> t" "t < startOfUtcDay t + MillisecondsPerDay"
    unfolding startOfUtcDay_def by linarith+
qed

text \<open>The entries of the days of the period, one day per turn.\<close>

function create_days :: "int \<Rightarrow> int \<Rightarrow> (int, daily_total) js_map \<Rightarrow> (int, daily_total) js_map" where
  "create_days cursor periodEndMs totals =
     (if cursor < periodEndMs
      then create_days (cursor + MillisecondsPerDay) periodEndMs
             (js_set (toUtcDay cursor) \<lparr>daily_sandboxHours = 0, daily_runCount = 0\<rparr> totals)
      else totals)"
  by pat_completeness auto
termination
  by (relation "measure (\<lambda>(cursor, end', _). nat (end' - cursor))")
    (auto simp: MillisecondsPerDay_def MillisecondsPerHour_def)

declare create_days.simps [simp del]

definition createDailyTotals :: "int \<Rightarrow> int \<Rightarrow> (int, daily_total) js_map" where
  "createDailyTotals periodStartMs periodEndMs = create_days (startOfUtcDay periodStartMs) periodEndMs []"

text \<open>The hours of an interval, cut at the ends of the days.\<close>

function addDailyHours :: "(int, daily_total) js_map \<Rightarrow> int \<Rightarrow> int \<Rightarrow> (int, daily_total) js_map" where
  "addDailyHours totals cursor endMs =
     (if cursor < endMs
      then let segmentEnd = min endMs (startOfUtcDay cursor + MillisecondsPerDay)
        in addDailyHours
             (case js_get totals (toUtcDay cursor) of
                None \<Rightarrow> totals
              | Some d \<Rightarrow> js_set (toUtcDay cursor)
                  (d\<lparr>daily_sandboxHours := daily_sandboxHours d + hours_of (segmentEnd - cursor)\<rparr>) totals)
             segmentEnd endMs
      else totals)"
  by pat_completeness auto
termination
  by (relation "measure (\<lambda>(_, cursor, endMs). nat (endMs - cursor))") (use start_of_day(2) in auto)

declare addDailyHours.simps [simp del]

section \<open>Intervals\<close>

definition is_start_event :: "usage_event_type \<Rightarrow> bool" where
  "is_start_event t \<longleftrightarrow> t \<in> {SANDBOX_ALLOCATED, SANDBOX_RESUMED}"

definition is_terminal_event :: "usage_event_type \<Rightarrow> bool" where
  "is_terminal_event t \<longleftrightarrow> t \<in> {SANDBOX_STOPPED, SANDBOX_FAILED, SANDBOX_REPLACED}"

definition interval_key :: "usage_row \<Rightarrow> string option" where
  "interval_key event = map_option (\<lambda>g. row_sandboxInstanceId event @ '':'' @ string_of_int g) (row_computeGeneration event)"

definition group_event :: "usage_row \<Rightarrow> (string, usage_row list) js_map \<Rightarrow> (string, usage_row list) js_map" where
  "group_event event grouped = (case interval_key event of
     None \<Rightarrow> grouped
   | Some key \<Rightarrow> (case js_get grouped key of
       None \<Rightarrow> js_set key [event] grouped
     | Some existing \<Rightarrow> js_set key (existing @ [event]) grouped))"

definition time_of :: "(string \<Rightarrow> int option) \<Rightarrow> usage_row \<Rightarrow> int" where
  "time_of parse event = the (parse (row_occurredAt event))"

text \<open>
  A sort compares every element of an array of two or more, so that one whose time is not valid throws; which one is
  named is up to the engine, here the first.
\<close>

definition sort_events :: "(string \<Rightarrow> int option) \<Rightarrow> usage_row list \<Rightarrow> string + usage_row list" where
  "sort_events parse events =
     (case find (\<lambda>e. parse (row_occurredAt e) = None) (if length events \<ge> 2 then events else []) of
        Some e \<Rightarrow> Inl (''Invalid timestamp: '' @ row_occurredAt e)
      | None \<Rightarrow> Inr (js_sort (\<lambda>l r. time_of parse l - time_of parse r) events))"

fun sort_groups ::
  "(string \<Rightarrow> int option) \<Rightarrow> (string, usage_row list) js_map \<Rightarrow> string + (string, usage_row list) js_map" where
  "sort_groups parse [] = Inr []"
| "sort_groups parse ((key, events) # groups) =
     and_then (sort_events parse events) (\<lambda>sorted'. and_then (sort_groups parse groups) (\<lambda>rest.
       Inr ((key, sorted') # rest)))"

definition groupEventsByIntervalKey ::
  "(string \<Rightarrow> int option) \<Rightarrow> usage_row list \<Rightarrow> string + (string, usage_row list) js_map" where
  "groupEventsByIntervalKey parse events = sort_groups parse (fold group_event events [])"

definition createRuntimeInterval ::
  "(string \<Rightarrow> int option) \<Rightarrow> usage_row \<Rightarrow> usage_row option \<Rightarrow> string + runtime_interval" where
  "createRuntimeInterval parse start ending =
     and_then (parseUsageTimestamp parse (row_occurredAt start)) (\<lambda>startMs.
     and_then (case ending of None \<Rightarrow> Inr None
         | Some e \<Rightarrow> map_sum id Some (parseUsageTimestamp parse (row_occurredAt e))) (\<lambda>endMs.
       Inr \<lparr>interval_sandboxInstanceId = row_sandboxInstanceId start, interval_startMs = startMs,
         interval_endMs = endMs, interval_vcpuCount = row_vcpuCount start, interval_memoryMb = row_memoryMb start,
         interval_diskMb = row_diskMb start\<rparr>))"

text \<open>The loop over the events of a group, with the start that is open.\<close>

fun resolve_from ::
  "(string \<Rightarrow> int option) \<Rightarrow> usage_row option \<Rightarrow> usage_row list \<Rightarrow> string + runtime_interval list" where
  "resolve_from parse openStart [] = (case openStart of
     None \<Rightarrow> Inr []
   | Some start \<Rightarrow> and_then (createRuntimeInterval parse start None) (\<lambda>i. Inr [i]))"
| "resolve_from parse openStart (event # events) =
     (if is_start_event (row_eventType event) then resolve_from parse (Some event) events
      else case openStart of
        None \<Rightarrow> resolve_from parse openStart events
      | Some start \<Rightarrow>
          if \<not> is_terminal_event (row_eventType event) then resolve_from parse openStart events
          else and_then (createRuntimeInterval parse start (Some event)) (\<lambda>i.
            and_then (resolve_from parse None events) (\<lambda>rest. Inr (i # rest))))"

definition resolveRuntimeIntervals ::
  "(string \<Rightarrow> int option) \<Rightarrow> usage_row list \<Rightarrow> string + runtime_interval list" where
  "resolveRuntimeIntervals parse events = resolve_from parse None events"

section \<open>Totals\<close>

definition resolveSandboxUsageActivity :: "usage_metadata \<Rightarrow> usage_activity" where
  "resolveSandboxUsageActivity i =
     (if metadata_purpose i = DESIGNER then DESIGNER_SESSIONS
      else if metadata_purpose i = SETUP_ASSISTANT then SETUP_ASSISTANTS
      else if metadata_purpose i = SETUP_CHECK then SETUP_SCRIPT_CHECKS
      else if metadata_purpose i = SNAPSHOT \<or> metadata_purpose i = SKILLS_DISCOVERY then SNAPSHOT_MAINTENANCE
      else if metadata_purpose i = SESSION \<and> (metadata_source i = SOURCE_WEBHOOK \<or> metadata_source i = SOURCE_SCHEDULE)
      then TRIGGER_RUNS
      else USER_SESSIONS)"

definition or_zero :: "int option \<Rightarrow> int" where
  "or_zero n = (case n of None \<Rightarrow> 0 | Some k \<Rightarrow> k)"

definition createIntervalTotals :: "rat \<Rightarrow> runtime_interval \<Rightarrow> usage_totals" where
  "createIntervalTotals hours i = UsageTotals hours 0
     (hours * of_int (or_zero (interval_vcpuCount i)))
     (hours * (of_int (or_zero (interval_memoryMb i)) / 1024))
     (hours * (of_int (or_zero (interval_diskMb i)) / 1024))"

definition getOrCreateTotals :: "('k, usage_totals) js_map \<Rightarrow> 'k \<Rightarrow> usage_totals" where
  "getOrCreateTotals totals key = (case js_get totals key of None \<Rightarrow> createEmptyTotals | Some t \<Rightarrow> t)"

text \<open>\<open>addTotals(getOrCreateTotals(totals, key), source)\<close>, which changes the entry in place.\<close>

definition add_to :: "'k \<Rightarrow> usage_totals \<Rightarrow> ('k, usage_totals) js_map \<Rightarrow> ('k, usage_totals) js_map" where
  "add_to key source totals = js_set key (addTotals (getOrCreateTotals totals key) source) totals"

record usage_sums =
  sums_summary :: usage_totals
  sums_daily :: "(int, daily_total) js_map"
  sums_profile :: "(string, usage_totals) js_map"
  sums_activity :: "(usage_activity, usage_totals) js_map"

definition clipped :: "int \<Rightarrow> int \<Rightarrow> int \<Rightarrow> runtime_interval \<Rightarrow> int \<times> int" where
  "clipped periodStartMs periodEndMs openEndMs i =
     (max (interval_startMs i) periodStartMs,
      min (case interval_endMs i of None \<Rightarrow> openEndMs | Some e \<Rightarrow> e) periodEndMs)"

definition add_interval ::
  "(string \<Rightarrow> usage_metadata option) \<Rightarrow> int \<Rightarrow> int \<Rightarrow> int \<Rightarrow> runtime_interval \<Rightarrow> usage_sums \<Rightarrow> usage_sums" where
  "add_interval instancesById periodStartMs periodEndMs openEndMs i acc =
     (case instancesById (interval_sandboxInstanceId i) of
        None \<Rightarrow> acc
      | Some inst \<Rightarrow>
          let (startMs, endMs) = clipped periodStartMs periodEndMs openEndMs i
          in if endMs \<le> startMs then acc
            else let totals = createIntervalTotals (hours_of (endMs - startMs)) i in
              \<lparr>sums_summary = addTotals (sums_summary acc) totals,
               sums_daily = addDailyHours (sums_daily acc) startMs endMs,
               sums_profile = add_to (metadata_sandboxProfileId inst) totals (sums_profile acc),
               sums_activity = add_to (resolveSandboxUsageActivity inst) totals (sums_activity acc)\<rparr>)"

fun add_groups ::
  "(string \<Rightarrow> int option) \<Rightarrow> (runtime_interval \<Rightarrow> usage_sums \<Rightarrow> usage_sums) \<Rightarrow> usage_row list list \<Rightarrow> usage_sums \<Rightarrow>
   string + usage_sums" where
  "add_groups parse add [] acc = Inr acc"
| "add_groups parse add (events # groups) acc =
     and_then (resolveRuntimeIntervals parse events) (\<lambda>intervals. add_groups parse add groups (fold add intervals acc))"

definition one_run :: usage_totals where
  "one_run = UsageTotals 0 1 0 0 0"

fun add_runs ::
  "(string \<Rightarrow> int option) \<Rightarrow> (string \<Rightarrow> usage_metadata option) \<Rightarrow> usage_run list \<Rightarrow> usage_sums \<Rightarrow> string + usage_sums" where
  "add_runs parse instancesById [] acc = Inr acc"
| "add_runs parse instancesById (run # runs) acc = (case instancesById (started_sandboxInstanceId run) of
     None \<Rightarrow> add_runs parse instancesById runs acc
   | Some inst \<Rightarrow> and_then (parseUsageTimestamp parse (started_startedAt run)) (\<lambda>t.
       add_runs parse instancesById runs
         \<lparr>sums_summary = addTotals (sums_summary acc) one_run,
          sums_daily = (case js_get (sums_daily acc) (toUtcDay t) of
              None \<Rightarrow> sums_daily acc
            | Some d \<Rightarrow> js_set (toUtcDay t) (d\<lparr>daily_runCount := daily_runCount d + 1\<rparr>) (sums_daily acc)),
          sums_profile = add_to (metadata_sandboxProfileId inst) one_run (sums_profile acc),
          sums_activity = add_to (resolveSandboxUsageActivity inst) one_run (sums_activity acc)\<rparr>))"

record usage_result =
  result_summary :: usage_totals
  result_dailyUsage :: "(int \<times> daily_total) list"
  result_profileBreakdown :: "(string \<times> usage_totals) list"
  result_activityBreakdown :: "(usage_activity \<times> usage_totals) list"

text \<open>Of the number the comparison returns a sort uses the sign only.\<close>

definition compareBreakdownRows ::
  "(string \<Rightarrow> string \<Rightarrow> int) \<Rightarrow> string \<times> usage_totals \<Rightarrow> string \<times> usage_totals \<Rightarrow> int" where
  "compareBreakdownRows localeCompare left right =
     (if sandboxHours (snd right) \<noteq> sandboxHours (snd left)
      then (if sandboxHours (snd right) < sandboxHours (snd left) then -1 else 1)
      else localeCompare (fst left) (fst right))"

definition empty_sums :: "usage_activity list \<Rightarrow> int \<Rightarrow> int \<Rightarrow> usage_sums" where
  "empty_sums activityRows periodStartMs periodEndMs = \<lparr>sums_summary = createEmptyTotals,
     sums_daily = createDailyTotals periodStartMs periodEndMs, sums_profile = [],
     sums_activity = fold (\<lambda>a. js_set a createEmptyTotals) activityRows []\<rparr>"

definition usage_result_of :: "(string \<Rightarrow> string \<Rightarrow> int) \<Rightarrow> usage_activity list \<Rightarrow> usage_sums \<Rightarrow> usage_result" where
  "usage_result_of localeCompare activityRows acc = \<lparr>result_summary = sums_summary acc,
     result_dailyUsage = sums_daily acc,
     result_profileBreakdown = js_sort (compareBreakdownRows localeCompare) (sums_profile acc),
     result_activityBreakdown = map (\<lambda>a. (a, getOrCreateTotals (sums_activity acc) a)) activityRows\<rparr>"

record usage_input =
  activityRows :: "usage_activity list"
  input_events :: "usage_row list"
  instancesById :: "string \<Rightarrow> usage_metadata option"
  periodStart :: string
  periodEnd :: string
  requestedAt :: string
  input_runs :: "usage_run list"

definition aggregateSandboxUsage ::
  "(string \<Rightarrow> int option) \<Rightarrow> (string \<Rightarrow> string \<Rightarrow> int) \<Rightarrow> usage_input \<Rightarrow> string + usage_result" where
  "aggregateSandboxUsage parse localeCompare i =
     and_then (parseUsageTimestamp parse (periodStart i)) (\<lambda>periodStartMs.
     and_then (parseUsageTimestamp parse (periodEnd i)) (\<lambda>periodEndMs.
     and_then (parseUsageTimestamp parse (requestedAt i)) (\<lambda>requestedAtMs.
     and_then (groupEventsByIntervalKey parse (input_events i)) (\<lambda>grouped.
     and_then (add_groups parse
         (add_interval (instancesById i) periodStartMs periodEndMs (min periodEndMs requestedAtMs))
         (js_values grouped) (empty_sums (activityRows i) periodStartMs periodEndMs)) (\<lambda>acc.
     and_then (add_runs parse (instancesById i) (input_runs i) acc) (\<lambda>acc'.
       Inr (usage_result_of localeCompare (activityRows i) acc')))))))"

text \<open>A comparison with a time that is not valid is false.\<close>

definition isUsageMeasurementComplete ::
  "(string \<Rightarrow> int option) \<Rightarrow> string option \<Rightarrow> string \<Rightarrow> string \<Rightarrow> string \<Rightarrow> bool" where
  "isUsageMeasurementComplete parse measuredFrom endsAt startsAt askedAt =
     (case measuredFrom of
        None \<Rightarrow> False
      | Some since \<Rightarrow> (case (parse startsAt, parse since) of (Some s, Some m) \<Rightarrow> s \<ge> m | _ \<Rightarrow> False) \<and>
          (case (parse askedAt, parse endsAt) of (Some r, Some e) \<Rightarrow> r \<ge> e | _ \<Rightarrow> False))"

section \<open>Sums over a map\<close>

lemma js_set_split:
  assumes "wf_map m" and "js_get m k = Some v0"
  shows "\<exists>m1 m2. m = m1 @ (k, v0) # m2 \<and> js_set k v m = m1 @ (k, v) # m2"
  using assms
proof (induction m)
  case (Cons e m)
  obtain k' v' where e: "e = (k', v')" by (cases e)
  show ?case
  proof (cases "k' = k")
    case True
    with Cons.prems e have "e # m = [] @ (k, v0) # m" "js_set k v (e # m) = [] @ (k, v) # m" by auto
    then show ?thesis by blast
  next
    case False
    with Cons e obtain m1 m2 where "m = m1 @ (k, v0) # m2" "js_set k v m = m1 @ (k, v) # m2"
      by (auto simp: wf_map_def)
    with e False have "e # m = (e # m1) @ (k, v0) # m2" "js_set k v (e # m) = (e # m1) @ (k, v) # m2" by auto
    then show ?thesis by blast
  qed
qed simp

lemma keys_js_set: "fst ` set (js_set k v m) = insert k (fst ` set m)"
  by (simp add: dom_update)

lemma js_get_present: "k \<in> fst ` set m \<Longrightarrow> \<exists>v. js_get m k = Some v"
  by (metis dom_map_of_conv_image_fst domD)

lemma sum_js_set:
  fixes f :: "'v \<Rightarrow> 'a :: comm_monoid_add"
  assumes "wf_map m" and "js_get m k = Some v0" and "f v = f v0 + d"
  shows "sum_list (map (f \<circ> snd) (js_set k v m)) = sum_list (map (f \<circ> snd) m) + d"
proof -
  from js_set_split [OF assms(1,2)] obtain m1 m2 where "m = m1 @ (k, v0) # m2" "js_set k v m = m1 @ (k, v) # m2"
    by blast
  with assms(3) show ?thesis by (simp add: ac_simps)
qed

lemma add_to_sum:
  assumes "wf_map m"
  shows "sum_list (map snd (add_to k t m)) = sum_list (map snd m) + t"
proof (cases "js_get m k")
  case None
  have "createEmptyTotals = 0" by (simp add: zero_usage_totals_def)
  with None show ?thesis
    by (simp add: add_to_def getOrCreateTotals_def js_set_fresh flip: plus_usage_totals_def)
next
  case (Some v)
  with sum_js_set [OF assms Some, of id "addTotals v t" t] show ?thesis
    by (simp add: add_to_def getOrCreateTotals_def plus_usage_totals_def)
qed

lemma wf_add_to [wf_intros]: "wf_map m \<Longrightarrow> wf_map (add_to k t m)"
  by (simp add: add_to_def wf_map_set)

lemma keys_add_to: "fst ` set (add_to k t m) = insert k (fst ` set m)"
  by (simp add: add_to_def keys_js_set)

lemma hours_add: "sandboxHours (t + u) = sandboxHours t + sandboxHours u" "sandboxRuns (t + u) = sandboxRuns t + sandboxRuns u"
  by (simp_all add: plus_usage_totals_def addTotals_def)

section \<open>Days\<close>

lemma keys_create_days:
  "cursor = n * MillisecondsPerDay \<Longrightarrow>
   fst ` set (create_days cursor stop totals) = fst ` set totals \<union> {d. n \<le> d \<and> d * MillisecondsPerDay < stop}"
proof (induction cursor stop totals arbitrary: n rule: create_days.induct)
  case (1 cursor stop totals)
  have day: "toUtcDay cursor = n"
    using 1(2) day_positive unfolding toUtcDay_def by (metis less_irrefl nonzero_mult_div_cancel_right)
  show ?case
  proof (cases "cursor < stop")
    case True
    with 1(1) [OF True, of "n + 1"] 1(2) day have
      "fst ` set (create_days cursor stop totals) = insert n (fst ` set totals) \<union>
         {d. n + 1 \<le> d \<and> d * MillisecondsPerDay < stop}"
      unfolding create_days.simps [of cursor stop totals] by (simp add: keys_js_set algebra_simps)
    moreover have "n * MillisecondsPerDay < stop" using True 1(2) by simp
    moreover have "d = n \<or> n + 1 \<le> d" if "n \<le> d" for d using that by linarith
    ultimately show ?thesis by auto
  next
    case False
    have "\<not> d * MillisecondsPerDay < stop" if "n \<le> d" for d
      using False 1(2) mult_right_mono [OF that, of MillisecondsPerDay] day_positive by linarith
    with False show ?thesis by (auto simp: create_days.simps [of cursor])
  qed
qed

lemma wf_create_days: "wf_map totals \<Longrightarrow> wf_map (create_days cursor stop totals)"
  by (induction cursor stop totals rule: create_days.induct) (subst create_days.simps, simp add: wf_map_set)

definition daily_sum :: "(daily_total \<Rightarrow> 'a :: comm_monoid_add) \<Rightarrow> (int, daily_total) js_map \<Rightarrow> 'a" where
  "daily_sum f totals = sum_list (map (f \<circ> snd) totals)"

lemma values_js_set: "snd ` set (js_set k v m) \<subseteq> insert v (snd ` set m)"
  by (induction m) auto

lemma create_days_zero:
  "\<forall>d \<in> snd ` set totals. d = \<lparr>daily_sandboxHours = 0, daily_runCount = 0\<rparr> \<Longrightarrow>
   \<forall>d \<in> snd ` set (create_days cursor stop totals). d = \<lparr>daily_sandboxHours = 0, daily_runCount = 0\<rparr>"
proof (induction cursor stop totals rule: create_days.induct)
  case (1 cursor stop totals)
  show ?case
  proof (cases "cursor < stop")
    case True
    let ?set = "js_set (toUtcDay cursor) \<lparr>daily_sandboxHours = 0, daily_runCount = 0\<rparr> totals"
    from 1(2) values_js_set have "\<forall>d \<in> snd ` set ?set. d = \<lparr>daily_sandboxHours = 0, daily_runCount = 0\<rparr>"
      by (metis (no_types, lifting) insertE subsetD)
    from 1(1) [OF True this] True show ?thesis by (subst create_days.simps) (simp only: if_True)
  next
    case False
    with 1(2) show ?thesis by (subst create_days.simps) (simp only: if_False)
  qed
qed

lemma daily_sum_zero:
  assumes "\<forall>d \<in> snd ` set totals. f d = 0"
  shows "daily_sum f totals = 0"
  unfolding daily_sum_def using assms by (induction totals) auto

lemma createDailyTotals_keys:
  "fst ` set (createDailyTotals startMs stop) = {d. toUtcDay startMs \<le> d \<and> d * MillisecondsPerDay < stop}"
  unfolding createDailyTotals_def
  by (subst keys_create_days [of _ "toUtcDay startMs"]) (simp_all add: startOfUtcDay_def toUtcDay_def)

lemma createDailyTotals_zero:
  "daily_sum daily_sandboxHours (createDailyTotals startMs stop) = 0"
  "daily_sum daily_runCount (createDailyTotals startMs stop) = 0"
  using create_days_zero [of "[]" "startOfUtcDay startMs" stop]
  by (auto simp: createDailyTotals_def intro!: daily_sum_zero)

lemma wf_createDailyTotals: "wf_map (createDailyTotals startMs stop)"
  by (simp add: createDailyTotals_def wf_create_days)

lemma hours_of_add: "hours_of (a - b) + hours_of (b - c) = hours_of (a - c)"
  by (simp add: hours_of_def diff_divide_distrib)

text \<open>The days an interval touches get exactly its hours, if they all have an entry.\<close>

lemma addDailyHours_keys:
  "wf_map totals \<Longrightarrow> fst ` set (addDailyHours totals cursor stop) = fst ` set totals \<and>
     wf_map (addDailyHours totals cursor stop)"
proof (induction totals cursor stop rule: addDailyHours.induct)
  case (1 totals cursor stop)
  let ?next = "\<lambda>m. (case js_get totals (toUtcDay cursor) of None \<Rightarrow> totals
     | Some d \<Rightarrow> js_set (toUtcDay cursor) (d\<lparr>daily_sandboxHours := daily_sandboxHours d
          + hours_of (min stop (startOfUtcDay cursor + MillisecondsPerDay) - cursor)\<rparr>) totals)"
  have "toUtcDay cursor \<in> fst ` set totals" if "js_get totals (toUtcDay cursor) = Some d" for d
    using map_of_SomeD [OF that] by force
  then have "wf_map (?next totals) \<and> fst ` set (?next totals) = fst ` set totals"
    using 1(2) by (cases "js_get totals (toUtcDay cursor)") (simp_all add: wf_map_set keys_js_set insert_absorb)
  with 1 show ?case
    by (cases "cursor < stop") (simp_all add: addDailyHours.simps [of totals cursor] Let_def)
qed

lemma addDailyHours_sum:
  "wf_map totals \<Longrightarrow> \<forall>d. toUtcDay cursor \<le> d \<and> d * MillisecondsPerDay < stop \<longrightarrow> d \<in> fst ` set totals \<Longrightarrow>
   cursor \<le> stop \<Longrightarrow>
   daily_sum daily_sandboxHours (addDailyHours totals cursor stop)
     = daily_sum daily_sandboxHours totals + hours_of (stop - cursor)"
proof (induction totals cursor stop rule: addDailyHours.induct)
  case (1 totals cursor stop)
  show ?case
  proof (cases "cursor < stop")
    case True
    define cut where "cut = min stop (startOfUtcDay cursor + MillisecondsPerDay)"
    have cut: "cursor < cut" "cut \<le> stop" using start_of_day(2) [of cursor] True by (auto simp: cut_def)
    have "toUtcDay cursor * MillisecondsPerDay < stop"
      using start_of_day(1) [of cursor] True by (simp add: startOfUtcDay_def toUtcDay_def)
    then have day: "toUtcDay cursor \<in> fst ` set totals" using 1(3) [rule_format, of "toUtcDay cursor"] by simp
    from js_get_present [OF day] obtain d where d: "js_get totals (toUtcDay cursor) = Some d" by (elim exE)
    define next' where "next' = js_set (toUtcDay cursor)
      (d\<lparr>daily_sandboxHours := daily_sandboxHours d + hours_of (cut - cursor)\<rparr>) totals"
    have sum: "daily_sum daily_sandboxHours next' = daily_sum daily_sandboxHours totals + hours_of (cut - cursor)"
      unfolding daily_sum_def next'_def by (rule sum_js_set [OF 1(2) d]) simp
    have keys: "fst ` set next' = fst ` set totals"
      using day by (simp add: next'_def keys_js_set insert_absorb)
    have wf: "wf_map next'" unfolding next'_def by (rule wf_map_set [OF 1(2)])
    have "toUtcDay cursor \<le> toUtcDay cut" unfolding toUtcDay_def using cut(1) by (intro zdiv_mono1) auto
    then have rest: "\<forall>d. toUtcDay cut \<le> d \<and> d * MillisecondsPerDay < stop \<longrightarrow> d \<in> fst ` set next'"
      unfolding keys using 1(3) [rule_format] by (intro allI impI) simp
    have step: "addDailyHours totals cursor stop = addDailyHours next' cut stop"
      by (subst addDailyHours.simps) (simp only: True if_True Let_def d option.case cut_def next'_def)
    have "daily_sum daily_sandboxHours (addDailyHours next' cut stop)
        = daily_sum daily_sandboxHours next' + hours_of (stop - cut)"
      by (rule 1(1) [OF True refl, unfolded d option.case, folded cut_def, folded next'_def, OF wf rest cut(2)])
    then show ?thesis unfolding step sum add.assoc by (simp only: add.commute [of "hours_of (cut - cursor)"] hours_of_add)
  next
    case False
    with 1(4) have "cursor = stop" by simp
    with False show ?thesis by (subst addDailyHours.simps) (simp add: hours_of_def)
  qed
qed

section \<open>The books are balanced\<close>

definition balanced :: "int \<Rightarrow> int \<Rightarrow> usage_sums \<Rightarrow> bool" where
  "balanced startMs stop acc \<longleftrightarrow>
     wf_map (sums_profile acc) \<and> wf_map (sums_activity acc) \<and> wf_map (sums_daily acc) \<and>
     sum_list (map snd (sums_profile acc)) = sums_summary acc \<and>
     sum_list (map snd (sums_activity acc)) = sums_summary acc \<and>
     daily_sum daily_sandboxHours (sums_daily acc) = sandboxHours (sums_summary acc) \<and>
     fst ` set (sums_daily acc) = {d. toUtcDay startMs \<le> d \<and> d * MillisecondsPerDay < stop}"

lemma sum_empty_totals: "\<forall>v \<in> snd ` set m. v = createEmptyTotals \<Longrightarrow> sum_list (map snd m) = 0"
  by (induction m) (auto simp flip: zero_usage_totals_def)

lemma empty_activities:
  "wf_map m \<Longrightarrow> sum_list (map snd m) = 0 \<Longrightarrow> \<forall>v \<in> snd ` set m. v = createEmptyTotals \<Longrightarrow>
   wf_map (fold (\<lambda>a. js_set a createEmptyTotals) rows m) \<and>
   sum_list (map snd (fold (\<lambda>a. js_set a createEmptyTotals) rows m)) = 0"
proof (induction rows arbitrary: m)
  case (Cons a rows)
  have "\<forall>v \<in> snd ` set (js_set a createEmptyTotals m). v = createEmptyTotals"
    using values_js_set [of a createEmptyTotals m] Cons.prems(3) by (meson insertE subsetD)
  moreover from this have "sum_list (map snd (js_set a createEmptyTotals m)) = 0"
    by (rule sum_empty_totals)
  moreover have "wf_map (js_set a createEmptyTotals m)" using Cons.prems(1) by (rule wf_map_set)
  ultimately show ?case using Cons.IH [of "js_set a createEmptyTotals m"] by simp
qed simp

lemma balanced_empty: "balanced startMs stop (empty_sums rows startMs stop)"
proof -
  have "createEmptyTotals = 0" "sandboxHours (0 :: usage_totals) = 0"
    by (simp_all add: zero_usage_totals_def createEmptyTotals_def)
  then show ?thesis
    using empty_activities [of "[]" rows]
    by (simp add: balanced_def empty_sums_def wf_createDailyTotals createDailyTotals_zero createDailyTotals_keys)
qed

lemma balanced_add_interval:
  assumes "balanced startMs stop acc"
  shows "balanced startMs stop (add_interval lookup startMs stop openEnd i acc)"
proof (cases "lookup (interval_sandboxInstanceId i)")
  case (Some inst)
  obtain a b where ab: "clipped startMs stop openEnd i = (a, b)" by (cases "clipped startMs stop openEnd i")
  then have bounds: "startMs \<le> a" "b \<le> stop" by (auto simp: clipped_def)
  show ?thesis
  proof (cases "b \<le> a")
    case True
    with assms Some ab show ?thesis by (simp add: add_interval_def)
  next
    case False
    let ?t = "createIntervalTotals (hours_of (b - a)) i"
    have "toUtcDay startMs \<le> toUtcDay a" unfolding toUtcDay_def using bounds(1) by (intro zdiv_mono1) auto
    then have "\<forall>d. toUtcDay a \<le> d \<and> d * MillisecondsPerDay < b \<longrightarrow> d \<in> fst ` set (sums_daily acc)"
      using assms bounds(2) by (auto simp: balanced_def)
    with assms False have "daily_sum daily_sandboxHours (addDailyHours (sums_daily acc) a b)
        = sandboxHours (sums_summary acc) + hours_of (b - a)"
      by (subst addDailyHours_sum) (simp_all add: balanced_def)
    moreover have "sandboxHours ?t = hours_of (b - a)" by (simp add: createIntervalTotals_def)
    ultimately show ?thesis
      using assms Some ab False addDailyHours_keys [of "sums_daily acc" a b]
      by (simp add: add_interval_def balanced_def Let_def wf_add_to add_to_sum hours_add flip: plus_usage_totals_def)
  qed
qed (use assms in \<open>simp add: add_interval_def\<close>)

lemma balanced_add_groups:
  "add_groups parse (add_interval lookup startMs stop openEnd) groups acc = Inr acc' \<Longrightarrow> balanced startMs stop acc \<Longrightarrow>
   balanced startMs stop acc'"
proof (induction groups arbitrary: acc)
  case (Cons g groups)
  have "balanced startMs stop (fold (add_interval lookup startMs stop openEnd) is acc)" for "is"
    using Cons.prems(2) by (induction "is" arbitrary: acc) (simp_all add: balanced_add_interval)
  with Cons show ?case by (cases "resolveRuntimeIntervals parse g") auto
qed simp

lemma balanced_add_runs:
  "add_runs parse lookup runs acc = Inr acc' \<Longrightarrow> balanced startMs stop acc \<Longrightarrow> balanced startMs stop acc'"
proof (induction runs arbitrary: acc)
  case (Cons r runs)
  show ?case
  proof (cases "lookup (started_sandboxInstanceId r)")
    case None
    with Cons show ?thesis by simp
  next
    case (Some inst)
    with Cons.prems(1) obtain t where t: "parseUsageTimestamp parse (started_startedAt r) = Inr t"
      by (cases "parseUsageTimestamp parse (started_startedAt r)") auto
    define daily where "daily = (case js_get (sums_daily acc) (toUtcDay t) of None \<Rightarrow> sums_daily acc
      | Some d \<Rightarrow> js_set (toUtcDay t) (d\<lparr>daily_runCount := daily_runCount d + 1\<rparr>) (sums_daily acc))"
    have wf: "wf_map (sums_daily acc)" using Cons.prems(2) by (simp add: balanced_def)
    have "wf_map daily \<and> fst ` set daily = fst ` set (sums_daily acc) \<and>
        daily_sum daily_sandboxHours daily = daily_sum daily_sandboxHours (sums_daily acc)"
    proof (cases "js_get (sums_daily acc) (toUtcDay t)")
      case (Some d)
      from map_of_SomeD [OF Some] have "toUtcDay t \<in> fst ` set (sums_daily acc)" by force
      with Some wf show ?thesis
        using sum_js_set [OF wf Some, of daily_sandboxHours "d\<lparr>daily_runCount := daily_runCount d + 1\<rparr>" 0]
        by (simp add: daily_def wf_map_set keys_js_set insert_absorb daily_sum_def)
    qed (use wf in \<open>simp add: daily_def\<close>)
    moreover have "sandboxHours one_run = 0" by (simp add: one_run_def)
    ultimately have "balanced startMs stop \<lparr>sums_summary = addTotals (sums_summary acc) one_run, sums_daily = daily,
        sums_profile = add_to (metadata_sandboxProfileId inst) one_run (sums_profile acc),
        sums_activity = add_to (resolveSandboxUsageActivity inst) one_run (sums_activity acc)\<rparr>" (is "balanced _ _ ?next")
      using Cons.prems(2) by (simp add: balanced_def wf_add_to add_to_sum hours_add flip: plus_usage_totals_def)
    moreover have "add_runs parse lookup runs ?next = Inr acc'"
      using Cons.prems(1) Some t by (simp add: daily_def)
    ultimately show ?thesis by (rule Cons.IH [rotated])
  qed
qed simp

lemma sum_rows:
  assumes "wf_map m" and "distinct rows" and "fst ` set m \<subseteq> set rows"
  shows "sum_list (map (getOrCreateTotals m) rows) = sum_list (map snd m)"
proof -
  have "sum_list (map (getOrCreateTotals m) rows) = sum (getOrCreateTotals m) (set rows)"
    using assms(2) by (rule sum_list_distinct_conv_sum_set)
  also have "\<dots> = sum (getOrCreateTotals m) (fst ` set m)"
    using assms(3) by (intro sum.mono_neutral_right)
      (auto simp: getOrCreateTotals_def zero_usage_totals_def dest!: map_of_eq_None_iff [THEN iffD2])
  also have "\<dots> = sum_list (map (getOrCreateTotals m) (map fst m))"
    using assms(1) by (subst sum_list_distinct_conv_sum_set) (simp_all add: wf_map_def)
  also have "map (getOrCreateTotals m) (map fst m) = map snd m"
    using assms(1) by (auto simp: getOrCreateTotals_def wf_map_def)
  finally show ?thesis .
qed

lemma sum_list_mset_snd: "mset xs = mset ys \<Longrightarrow> sum_list (map f xs) = (sum_list (map f ys) :: 'a :: comm_monoid_add)"
  by (metis mset_map sum_mset_sum_list)

lemma addDailyHours_runs:
  "wf_map totals \<Longrightarrow> daily_sum daily_runCount (addDailyHours totals cursor stop) = daily_sum daily_runCount totals"
proof (induction totals cursor stop rule: addDailyHours.induct)
  case (1 totals cursor stop)
  show ?case
  proof (cases "cursor < stop")
    case True
    define next' where "next' = (case js_get totals (toUtcDay cursor) of None \<Rightarrow> totals
      | Some d \<Rightarrow> js_set (toUtcDay cursor) (d\<lparr>daily_sandboxHours := daily_sandboxHours d
          + hours_of (min stop (startOfUtcDay cursor + MillisecondsPerDay) - cursor)\<rparr>) totals)"
    have next': "wf_map next' \<and> daily_sum daily_runCount next' = daily_sum daily_runCount totals"
    proof (cases "js_get totals (toUtcDay cursor)")
      case (Some d)
      with 1(2) show ?thesis
        by (simp add: next'_def wf_map_set daily_sum_def sum_js_set [OF 1(2) Some, of daily_runCount _ 0])
    qed (use 1(2) in \<open>simp add: next'_def\<close>)
    from 1(1) [OF True refl, folded next'_def] next' True show ?thesis
      by (subst addDailyHours.simps) (simp add: Let_def flip: next'_def)
  next
    case False
    then show ?thesis by (subst addDailyHours.simps) simp
  qed
qed

text \<open>How often a run was counted: in all, and in the days.\<close>

definition runs_counted :: "int \<Rightarrow> int \<Rightarrow> usage_sums \<Rightarrow> bool" where
  "runs_counted n k acc \<longleftrightarrow> wf_map (sums_daily acc) \<and> sandboxRuns (sums_summary acc) = n \<and>
     daily_sum daily_runCount (sums_daily acc) = k"

lemma runs_add_groups:
  "add_groups parse (add_interval lookup startMs stop openEnd) groups acc = Inr acc' \<Longrightarrow> runs_counted n k acc \<Longrightarrow>
   runs_counted n k acc'"
proof (induction groups arbitrary: acc)
  case (Cons g groups)
  have one: "runs_counted n k (add_interval lookup startMs stop openEnd i a)" if "runs_counted n k a" for i a
    using that addDailyHours_keys [of "sums_daily a"] addDailyHours_runs [of "sums_daily a"]
    by (cases "lookup (interval_sandboxInstanceId i)")
      (simp_all add: add_interval_def runs_counted_def Let_def case_prod_beta' addTotals_def createIntervalTotals_def)
  have "runs_counted n k (fold (add_interval lookup startMs stop openEnd) is acc)" for "is"
    using Cons.prems(2) by (induction "is" arbitrary: acc) (simp_all add: one)
  with Cons show ?case by (cases "resolveRuntimeIntervals parse g") auto
qed simp

definition known_runs :: "(string \<Rightarrow> usage_metadata option) \<Rightarrow> usage_run list \<Rightarrow> usage_run list" where
  "known_runs lookup runs = filter (\<lambda>r. lookup (started_sandboxInstanceId r) \<noteq> None) runs"

definition runs_on :: "(string \<Rightarrow> int option) \<Rightarrow> int set \<Rightarrow> usage_run list \<Rightarrow> usage_run list" where
  "runs_on parse days runs = filter (\<lambda>r. map_option toUtcDay (parse (started_startedAt r)) \<in> Some ` days) runs"

lemma runs_add_runs:
  "add_runs parse lookup runs acc = Inr acc' \<Longrightarrow> runs_counted n k acc \<Longrightarrow> fst ` set (sums_daily acc) = days \<Longrightarrow>
   runs_counted (n + int (length (known_runs lookup runs))) (k + int (length (runs_on parse days (known_runs lookup runs)))) acc'"
proof (induction runs arbitrary: acc n k)
  case Nil
  then show ?case by (simp add: known_runs_def runs_on_def)
next
  case (Cons r runs)
  show ?case
  proof (cases "lookup (started_sandboxInstanceId r)")
    case None
    with Cons show ?thesis by (simp add: known_runs_def)
  next
    case (Some inst)
    with Cons.prems(1) obtain t where t: "parse (started_startedAt r) = Some t"
      by (cases "parse (started_startedAt r)") (auto simp: parseUsageTimestamp_def)
    define daily where "daily = (case js_get (sums_daily acc) (toUtcDay t) of None \<Rightarrow> sums_daily acc
      | Some d \<Rightarrow> js_set (toUtcDay t) (d\<lparr>daily_runCount := daily_runCount d + 1\<rparr>) (sums_daily acc))"
    have wf: "wf_map (sums_daily acc)" using Cons.prems(2) by (simp add: runs_counted_def)
    have daily: "wf_map daily \<and> fst ` set daily = days \<and> daily_sum daily_runCount daily
        = k + (if toUtcDay t \<in> days then 1 else 0)"
    proof (cases "js_get (sums_daily acc) (toUtcDay t)")
      case None
      then have "toUtcDay t \<notin> days" using Cons.prems(3) by (auto simp: map_of_eq_None_iff)
      with None Cons.prems wf show ?thesis by (simp add: daily_def runs_counted_def)
    next
      case (Some d)
      from map_of_SomeD [OF Some] have "toUtcDay t \<in> days" using Cons.prems(3) by force
      with Some wf Cons.prems show ?thesis
        using sum_js_set [OF wf Some, of daily_runCount "d\<lparr>daily_runCount := daily_runCount d + 1\<rparr>" 1]
        by (auto simp: daily_def wf_map_set keys_js_set insert_absorb daily_sum_def runs_counted_def)
    qed
    let ?next = "\<lparr>sums_summary = addTotals (sums_summary acc) one_run, sums_daily = daily,
        sums_profile = add_to (metadata_sandboxProfileId inst) one_run (sums_profile acc),
        sums_activity = add_to (resolveSandboxUsageActivity inst) one_run (sums_activity acc)\<rparr>"
    have "add_runs parse lookup runs ?next = Inr acc'"
      using Cons.prems(1) Some t by (simp add: daily_def parseUsageTimestamp_def)
    moreover have "runs_counted (n + 1) (k + (if toUtcDay t \<in> days then 1 else 0)) ?next"
      using Cons.prems(2) daily by (simp add: runs_counted_def one_run_def addTotals_def)
    ultimately have "runs_counted (n + 1 + int (length (known_runs lookup runs)))
        (k + (if toUtcDay t \<in> days then 1 else 0) + int (length (runs_on parse days (known_runs lookup runs)))) acc'"
      by (rule Cons.IH) (simp add: daily)
    moreover have "Some (toUtcDay t) \<in> Some ` days \<longleftrightarrow> toUtcDay t \<in> days" by auto
    ultimately show ?thesis using Some t
      by (simp add: known_runs_def runs_on_def ac_simps split: if_splits)
  qed
qed

lemma and_then_InrE:
  assumes "and_then r f = Inr x"
  obtains y where "r = Inr y" and "f y = Inr x"
  using assms by (cases r) auto

lemma parseUsageTimestamp_Inr [simp]: "parseUsageTimestamp parse value = Inr t \<longleftrightarrow> parse value = Some t"
  by (simp add: parseUsageTimestamp_def split: option.split)

lemma aggregateE:
  assumes "aggregateSandboxUsage parse localeCompare i = Inr res"
  obtains startMs stop asked grouped acc acc' where "parse (periodStart i) = Some startMs" and "parse (periodEnd i) = Some stop"
    and "parse (requestedAt i) = Some asked" and "groupEventsByIntervalKey parse (input_events i) = Inr grouped"
    and "add_groups parse (add_interval (instancesById i) startMs stop (min stop asked)) (js_values grouped)
      (empty_sums (activityRows i) startMs stop) = Inr acc"
    and "add_runs parse (instancesById i) (input_runs i) acc = Inr acc'"
    and "res = usage_result_of localeCompare (activityRows i) acc'"
  using assms unfolding aggregateSandboxUsage_def
  by (elim and_then_InrE) (simp add: that)

lemma mset_js_sort_sum: "sum_list (map f (js_sort cmp xs)) = (sum_list (map f xs) :: 'a :: comm_monoid_add)"
  by (rule sum_list_mset_snd) (rule mset_js_sort)

lemma runs_empty: "runs_counted 0 0 (empty_sums rows startMs stop)"
  by (simp add: runs_counted_def empty_sums_def createEmptyTotals_def wf_createDailyTotals createDailyTotals_zero)

section \<open>Properties\<close>


section \<open>The length of the intervals of a group\<close>

definition interval_ms :: "int \<Rightarrow> int \<Rightarrow> int \<Rightarrow> runtime_interval \<Rightarrow> int" where
  "interval_ms startMs stop openEnd i = max 0 (snd (clipped startMs stop openEnd i) - fst (clipped startMs stop openEnd i))"

lemma createRuntimeInterval_times:
  assumes "createRuntimeInterval parse start ending = Inr i"
  shows "interval_startMs i = time_of parse start" "interval_endMs i = map_option (time_of parse) ending"
proof -
  have "interval_startMs i = time_of parse start \<and> interval_endMs i = map_option (time_of parse) ending"
    using assms unfolding createRuntimeInterval_def time_of_def
    by (cases ending; cases "parse (row_occurredAt start)"; cases "parse (row_occurredAt (the ending))")
      (auto simp: parseUsageTimestamp_def and_then_def)
  then show "interval_startMs i = time_of parse start" "interval_endMs i = map_option (time_of parse) ending" by auto
qed

lemma clip_split:
  fixes x p q ts te lo :: int
  assumes "x \<le> max 0 (q - max p te)" and "lo \<le> ts" and "ts \<le> te"
  shows "max 0 (min te q - max ts p) + x \<le> max 0 (q - max p lo)"
  using assms unfolding max_def min_def by (auto split: if_splits)

text \<open>Intervals of events in order of time do not overlap.\<close>

lemma resolve_bound:
  "resolve_from parse opened events = Inr is \<Longrightarrow> sorted_wrt (\<lambda>a b. time_of parse a \<le> time_of parse b) events \<Longrightarrow>
   \<forall>s. opened = Some s \<longrightarrow> lo \<le> time_of parse s \<and> (\<forall>e \<in> set events. time_of parse s \<le> time_of parse e) \<Longrightarrow>
   \<forall>e \<in> set events. lo \<le> time_of parse e \<Longrightarrow>
   sum_list (map (interval_ms startMs stop openEnd) is) \<le> max 0 (stop - max startMs lo)"
proof (induction events arbitrary: opened lo "is")
  case Nil
  then show ?case
    by (cases opened) (auto simp: interval_ms_def clipped_def createRuntimeInterval_times elim!: and_then_InrE)
next
  case (Cons e events)
  show ?case
  proof (cases "is_start_event (row_eventType e)")
    case True
    with Cons.prems show ?thesis by (intro Cons.IH [of "Some e"]) auto
  next
    case not_start: False
    show ?thesis
    proof (cases opened)
      case None
      with not_start Cons.prems show ?thesis by (intro Cons.IH [of None]) auto
    next
      case (Some s)
      show ?thesis
      proof (cases "is_terminal_event (row_eventType e)")
        case False
        with Some not_start Cons.prems show ?thesis by (intro Cons.IH [of "Some s"]) auto
      next
        case True
        with Some not_start Cons.prems(1) obtain i js where i: "createRuntimeInterval parse s (Some e) = Inr i"
          and js: "resolve_from parse None events = Inr js" and "is": "is = i # js"
          by (auto elim!: and_then_InrE)
        have "sum_list (map (interval_ms startMs stop openEnd) js) \<le> max 0 (stop - max startMs (time_of parse e))"
          using Cons.prems(2) by (intro Cons.IH [OF js]) auto
        moreover have "interval_ms startMs stop openEnd i
            = max 0 (min (time_of parse e) stop - max (time_of parse s) startMs)"
          by (simp add: interval_ms_def clipped_def createRuntimeInterval_times [OF i])
        moreover have "lo \<le> time_of parse s" "time_of parse s \<le> time_of parse e" using Cons.prems(3) Some by auto
        ultimately show ?thesis unfolding "is" by (simp add: clip_split)
      qed
    qed
  qed
qed

definition ordered_group :: "(string \<Rightarrow> int option) \<Rightarrow> usage_row list \<Rightarrow> bool" where
  "ordered_group parse events \<longleftrightarrow> sorted_wrt (\<lambda>a b. time_of parse a \<le> time_of parse b) events"

lemma group_bound:
  assumes "ordered_group parse events" and "resolveRuntimeIntervals parse events = Inr is" and "startMs \<le> stop"
  shows "sum_list (map (interval_ms startMs stop openEnd) is) \<le> stop - startMs"
proof -
  obtain lo where "\<forall>e \<in> set events. lo \<le> time_of parse e"
    by (metis Min_le finite_imageI finite_set imageI)
  with resolve_bound [of parse None events "is" lo startMs stop openEnd] assms show ?thesis
    by (auto simp: resolveRuntimeIntervals_def ordered_group_def)
qed

lemma sort_events_ordered:
  assumes "sort_events parse events = Inr sorted'"
  shows "ordered_group parse sorted'"
proof -
  have "total_compare (\<lambda>l r. time_of parse l - time_of parse r) (set events)"
    by (auto simp: total_compare_def)
  then have "sorted_wrt (\<lambda>a b. time_of parse a - time_of parse b \<le> 0)
      (js_sort (\<lambda>l r. time_of parse l - time_of parse r) events)"
    by (rule sorted_js_sort)
  with assms show ?thesis by (simp add: sort_events_def ordered_group_def split: option.splits)
qed

lemma sort_groups_ordered:
  "sort_groups parse m = Inr m' \<Longrightarrow> (\<forall>g \<in> snd ` set m'. ordered_group parse g) \<and> map fst m' = map fst m"
proof (induction m arbitrary: m')
  case (Cons e m)
  obtain key events where e: "e = (key, events)" by (cases e)
  from Cons.prems [unfolded e sort_groups.simps] obtain es rest where "sort_events parse events = Inr es"
    and "sort_groups parse m = Inr rest" and "m' = (key, es) # rest"
    by (auto elim!: and_then_InrE)
  with Cons.IH [of rest] sort_events_ordered show ?case by (simp add: e)
qed simp

lemma hours_of_mono: "a \<le> b \<Longrightarrow> hours_of a \<le> hours_of b"
  by (simp add: hours_of_def MillisecondsPerHour_def divide_right_mono)

lemma hours_add_interval:
  "sandboxHours (sums_summary acc) \<le> sandboxHours (sums_summary (add_interval lookup startMs stop openEnd i acc)) \<and>
   sandboxHours (sums_summary (add_interval lookup startMs stop openEnd i acc))
     \<le> sandboxHours (sums_summary acc) + hours_of (interval_ms startMs stop openEnd i)"
proof -
  have "hours_of 0 = 0" by (simp add: hours_of_def)
  moreover have "0 \<le> hours_of (max 0 d)" for d using hours_of_mono [of 0 "max 0 d"] by (simp add: hours_of_def)
  moreover have "0 \<le> hours_of d" if "0 < d" for d using hours_of_mono [of 0 d] that by (simp add: hours_of_def)
  ultimately show ?thesis
    by (cases "lookup (interval_sandboxInstanceId i)")
      (auto simp: add_interval_def interval_ms_def Let_def case_prod_beta' addTotals_def createIntervalTotals_def)
qed

lemma hours_fold:
  "sandboxHours (sums_summary acc) \<le> sandboxHours (sums_summary (fold (add_interval lookup startMs stop openEnd) is acc)) \<and>
   sandboxHours (sums_summary (fold (add_interval lookup startMs stop openEnd) is acc))
     \<le> sandboxHours (sums_summary acc) + hours_of (sum_list (map (interval_ms startMs stop openEnd) is))"
proof (induction "is" arbitrary: acc)
  case (Cons i "is")
  have "hours_of (a + b) = hours_of a + hours_of b" for a b by (simp add: hours_of_def add_divide_distrib)
  with Cons [of "add_interval lookup startMs stop openEnd i acc"] hours_add_interval [of acc lookup startMs stop openEnd i]
  show ?case by simp
qed (simp add: hours_of_def)

lemma hours_add_groups:
  "add_groups parse (add_interval lookup startMs stop openEnd) groups acc = Inr acc' \<Longrightarrow>
   \<forall>g \<in> set groups. ordered_group parse g \<Longrightarrow> startMs \<le> stop \<Longrightarrow>
   sandboxHours (sums_summary acc) \<le> sandboxHours (sums_summary acc') \<and>
   sandboxHours (sums_summary acc') \<le> sandboxHours (sums_summary acc) + of_nat (length groups) * hours_of (stop - startMs)"
proof (induction groups arbitrary: acc)
  case (Cons g groups)
  from Cons.prems(1) obtain "is" where "is": "resolveRuntimeIntervals parse g = Inr is"
    and rest: "add_groups parse (add_interval lookup startMs stop openEnd) groups
      (fold (add_interval lookup startMs stop openEnd) is acc) = Inr acc'"
    by (auto elim!: and_then_InrE)
  have "hours_of (sum_list (map (interval_ms startMs stop openEnd) is)) \<le> hours_of (stop - startMs)"
    using Cons.prems "is" by (intro hours_of_mono group_bound) auto
  with Cons.IH [OF rest] Cons.prems(2,3) hours_fold [of acc lookup startMs stop openEnd "is"] show ?case
    by (simp add: algebra_simps)
qed simp

lemma group_event_keys:
  "wf_map m \<Longrightarrow> wf_map (fold group_event events m) \<and>
   fst ` set (fold group_event events m) = fst ` set m \<union> {k. \<exists>e \<in> set events. interval_key e = Some k}"
proof (induction events arbitrary: m)
  case (Cons e events)
  have "wf_map (group_event e m) \<and> fst ` set (group_event e m) = fst ` set m \<union> {k. interval_key e = Some k}"
    using Cons.prems by (cases "interval_key e") (auto simp: group_event_def wf_map_set keys_js_set split: option.split)
  with Cons.IH [of "group_event e m"] show ?case by auto
qed simp

lemma groups_ordered:
  assumes "groupEventsByIntervalKey parse events = Inr grouped"
  shows "\<forall>g \<in> set (js_values grouped). ordered_group parse g"
    and "length grouped = card {k. \<exists>e \<in> set events. interval_key e = Some k}"
proof -
  have s: "(\<forall>g \<in> snd ` set grouped. ordered_group parse g) \<and> map fst grouped = map fst (fold group_event events [])"
    using assms unfolding groupEventsByIntervalKey_def by (rule sort_groups_ordered)
  then show "\<forall>g \<in> set (js_values grouped). ordered_group parse g" by simp
  have "wf_map (fold group_event events []) \<and>
      fst ` set (fold group_event events []) = {k. \<exists>e \<in> set events. interval_key e = Some k}"
    using group_event_keys [of "[]" events] by simp
  then have "distinct (map fst grouped)" "set (map fst grouped) = {k. \<exists>e \<in> set events. interval_key e = Some k}"
    using s by (simp_all add: wf_map_def)
  then show "length grouped = card {k. \<exists>e \<in> set events. interval_key e = Some k}"
    by (metis distinct_card length_map)
qed

lemma hours_add_runs:
  "add_runs parse lookup runs acc = Inr acc' \<Longrightarrow> sandboxHours (sums_summary acc') = sandboxHours (sums_summary acc)"
proof (induction runs arbitrary: acc)
  case (Cons r runs)
  show ?case
  proof (cases "lookup (started_sandboxInstanceId r)")
    case None
    with Cons show ?thesis by simp
  next
    case (Some inst)
    with Cons.prems obtain t next' where "add_runs parse lookup runs next' = Inr acc'"
      and "sums_summary next' = addTotals (sums_summary acc) one_run"
      by (auto elim!: and_then_InrE)
    with Cons.IH [of next'] show ?thesis by (simp add: addTotals_def one_run_def)
  qed
qed simp

text \<open>
  C4: No instance is metered twice for the same time: the hours of a summary are at most the length of the period for
  each pair of an instance and a compute generation that has an event, whatever events the table holds, in whatever
  order, and they are not negative.
\<close>

theorem usage_hours_bounded:
  assumes "aggregateSandboxUsage parse localeCompare i = Inr res" and "parse (periodStart i) = Some startMs"
    and "parse (periodEnd i) = Some stop" and "startMs \<le> stop"
  shows "0 \<le> sandboxHours (result_summary res) \<and> sandboxHours (result_summary res)
    \<le> of_nat (card {k. \<exists>e \<in> set (input_events i). interval_key e = Some k}) * hours_of (stop - startMs)"
proof -
  from assms obtain asked grouped acc acc' where grouped: "groupEventsByIntervalKey parse (input_events i) = Inr grouped"
    and g: "add_groups parse (add_interval (instancesById i) startMs stop (min stop asked)) (js_values grouped)
      (empty_sums (activityRows i) startMs stop) = Inr acc"
    and r: "add_runs parse (instancesById i) (input_runs i) acc = Inr acc'"
    and res: "res = usage_result_of localeCompare (activityRows i) acc'"
    by (elim aggregateE) simp
  have "sandboxHours (sums_summary (empty_sums (activityRows i) startMs stop)) = 0"
    by (simp add: empty_sums_def createEmptyTotals_def)
  with hours_add_groups [OF g groups_ordered(1) [OF grouped] assms(4)] groups_ordered(2) [OF grouped]
    hours_add_runs [OF r]
  show ?thesis by (simp add: res usage_result_of_def)
qed

section \<open>Ends that are not recorded\<close>

definition relevant :: "usage_row \<Rightarrow> bool" where
  "relevant e \<longleftrightarrow> is_start_event (row_eventType e) \<or> is_terminal_event (row_eventType e)"

lemma resolve_relevant: "resolve_from parse opened events = resolve_from parse opened (filter relevant events)"
proof (induction events arbitrary: opened)
  case (Cons e events)
  from Cons.IH [symmetric] show ?case by (simp add: relevant_def split: option.split)
qed simp

lemma resolve_overwritten:
  "is_start_event (row_eventType s) \<Longrightarrow> is_start_event (row_eventType s') \<Longrightarrow>
   resolve_from parse opened (before @ s # s' # rest) = resolve_from parse opened (before @ s' # rest)"
  by (induction before arbitrary: opened) (auto split: option.split)

text \<open>
  C40: A run whose end was not recorded is lost when the sandbox is started again: of two starts of a group with no end
  in between, the first counts for nothing, whatever comes before and after. (The compute generation of an instance
  never changes, so that the events of a sandbox that is resumed are in the group of its first start.)
\<close>

theorem unrecorded_end_loses_run:
  assumes "filter relevant events = before @ s # s' # rest" and "is_start_event (row_eventType s)"
    and "is_start_event (row_eventType s')"
  shows "resolveRuntimeIntervals parse events = resolveRuntimeIntervals parse (before @ s' # rest)"
  unfolding resolveRuntimeIntervals_def
  by (subst resolve_relevant) (simp only: assms(1) resolve_overwritten [OF assms(2,3)])

lemma one_group:
  "\<forall>e \<in> set events. interval_key e = Some k \<Longrightarrow> fold group_event events [(k, before)] = [(k, before @ events)]"
  by (induction events arbitrary: before) (simp_all add: group_event_def)

lemma one_group_sorted:
  assumes "\<forall>e \<in> set events. interval_key e = Some k" and "events \<noteq> []"
    and "groupEventsByIntervalKey parse events = Inr grouped"
  shows "\<exists>es. grouped = [(k, es)] \<and> mset es = mset events"
proof -
  from assms(2) obtain e es where events: "events = e # es" by (cases events) auto
  have "fold group_event events [] = fold group_event es [(k, [e])]"
    using assms(1) by (simp add: events group_event_def)
  also have "\<dots> = [(k, events)]" using assms(1) one_group [of es k "[e]"] by (simp add: events)
  finally obtain es' where "sort_events parse events = Inr es'" "grouped = [(k, es')]"
    using assms(3) by (auto simp: groupEventsByIntervalKey_def elim!: and_then_InrE)
  then show ?thesis by (auto simp: sort_events_def mset_js_sort split: option.splits)
qed

text \<open>
  Until then it is metered on: when the events of one instance and generation hold one start and no end, the hours
  of the summary are the time from the start, or from the start of the period, to the time of the request, or to the
  end of the period.
\<close>

theorem unrecorded_end_metered_on:
  assumes "aggregateSandboxUsage parse localeCompare i = Inr res" and "parse (periodStart i) = Some startMs"
    and "parse (periodEnd i) = Some stop" and "parse (requestedAt i) = Some asked"
    and "\<forall>e \<in> set (input_events i). interval_key e = Some k" and "filter relevant (input_events i) = [s]"
    and "is_start_event (row_eventType s)" and "instancesById i (row_sandboxInstanceId s) = Some inst"
  shows "sandboxHours (result_summary res) = hours_of (max 0 (min stop asked - max (time_of parse s) startMs))"
proof -
  from assms(1-4) obtain grouped acc acc' where grouped: "groupEventsByIntervalKey parse (input_events i) = Inr grouped"
    and g: "add_groups parse (add_interval (instancesById i) startMs stop (min stop asked)) (js_values grouped)
      (empty_sums (activityRows i) startMs stop) = Inr acc"
    and r: "add_runs parse (instancesById i) (input_runs i) acc = Inr acc'"
    and res: "res = usage_result_of localeCompare (activityRows i) acc'"
    by (elim aggregateE) simp
  have "input_events i \<noteq> []" using assms(6) by auto
  from one_group_sorted [OF assms(5) this grouped] obtain es where es: "grouped = [(k, es)]"
    and perm: "mset es = mset (input_events i)" by blast
  have "mset (filter relevant es) = mset [s]" using perm assms(6) by (metis mset_filter)
  then have "filter relevant es = [s]"
    using mset_single_iff [of "filter relevant es" s] by simp
  then have "resolveRuntimeIntervals parse es = and_then (createRuntimeInterval parse s None) (\<lambda>i. Inr [i])"
    unfolding resolveRuntimeIntervals_def by (subst resolve_relevant) (simp add: assms(7))
  with g es obtain j where j: "createRuntimeInterval parse s None = Inr j"
    and acc: "acc = add_interval (instancesById i) startMs stop (min stop asked) j
      (empty_sums (activityRows i) startMs stop)"
    by (auto elim!: and_then_InrE)
  have "interval_sandboxInstanceId j = row_sandboxInstanceId s"
    using j by (auto simp: createRuntimeInterval_def elim!: and_then_InrE)
  moreover have "max 0 (b - a) = (if b \<le> a then 0 else b - a)" for a b :: int by simp
  ultimately have "sandboxHours (sums_summary acc) = hours_of (max 0 (min stop asked - max (time_of parse s) startMs))"
    unfolding acc using assms(8)
    by (simp del: min_le_iff_disj le_max_iff_disj min.bounded_iff max.bounded_iff
        add: add_interval_def clipped_def createRuntimeInterval_times [OF j] Let_def
        empty_sums_def createEmptyTotals_def addTotals_def createIntervalTotals_def hours_of_def)
  with hours_add_runs [OF r] show ?thesis by (simp add: res usage_result_of_def)
qed

text \<open>
  A summary that says it is complete is final as to the time it is asked: asked for again, at whatever time, by the
  same events and runs, it is the same.
\<close>

theorem complete_summary_final:
  assumes "isUsageMeasurementComplete parse since (periodEnd i) (periodStart i) (requestedAt i)"
    and "isUsageMeasurementComplete parse since (periodEnd i) (periodStart i) later"
  shows "aggregateSandboxUsage parse localeCompare (i\<lparr>requestedAt := later\<rparr>) = aggregateSandboxUsage parse localeCompare i"
proof -
  from assms obtain s e a b where t: "parse (periodStart i) = Some s" "parse (periodEnd i) = Some e"
      "parse (requestedAt i) = Some a" "parse later = Some b" "e \<le> a" "e \<le> b"
    by (auto simp: isUsageMeasurementComplete_def split: option.splits)
  then have "min e a = e" "min e b = e" by auto
  with t show ?thesis by (simp add: aggregateSandboxUsage_def parseUsageTimestamp_def)
qed

section \<open>Examples\<close>

text \<open>A clock with the times 0, 10, 30, 48 and 72 hours, and a period of two days.\<close>

definition sample_parse :: "string \<Rightarrow> int option" where
  "sample_parse value = map_of [(''a'', 0), (''b'', 36000000), (''c'', 108000000), (''z'', 172800000),
     (''later'', 259200000)] value"

definition sample_usage_event :: "usage_event_type \<Rightarrow> string \<Rightarrow> usage_row" where
  "sample_usage_event type time = \<lparr>row_sandboxInstanceId = ''s'', row_computeGeneration = Some 1, row_eventType = type,
     row_occurredAt = time, row_vcpuCount = Some 2, row_memoryMb = Some 4096, row_diskMb = None\<rparr>"

definition sample_usage_input :: "usage_row list \<Rightarrow> usage_input" where
  "sample_usage_input events = \<lparr>activityRows = SandboxUsageActivities, input_events = events,
     instancesById = [''s'' \<mapsto> \<lparr>metadata_sandboxProfileId = ''p'', metadata_purpose = SESSION,
       metadata_source = SOURCE_DASHBOARD\<rparr>],
     periodStart = ''a'', periodEnd = ''z'', requestedAt = ''z'',
     input_runs = [\<lparr>started_sandboxInstanceId = ''s'', started_startedAt = ''b''\<rparr>]\<rparr>"

lemmas run_usage = aggregateSandboxUsage_def sample_usage_input_def sample_usage_event_def parseUsageTimestamp_def sample_parse_def
  groupEventsByIntervalKey_def group_event_def interval_key_def sort_events_def resolveRuntimeIntervals_def
  is_start_event_def is_terminal_event_def createRuntimeInterval_def js_sort_def time_of_def

definition one_stop :: usage_input where
  "one_stop = sample_usage_input [sample_usage_event SANDBOX_ALLOCATED ''b'', sample_usage_event SANDBOX_STOPPED ''c'']"

definition no_end :: usage_input where
  "no_end = sample_usage_input [sample_usage_event SANDBOX_ALLOCATED ''b'', sample_usage_event SANDBOX_READY ''b'']"

lemma samples_aggregate:
  "\<exists>res. aggregateSandboxUsage sample_parse (\<lambda>_ _. 0) one_stop = Inr res"
  "\<exists>res. aggregateSandboxUsage sample_parse (\<lambda>_ _. 0) no_end = Inr res"
  by (simp_all add: one_stop_def no_end_def run_usage)

lemma sample_fields [simp]:
  "activityRows (sample_usage_input es) = SandboxUsageActivities" "input_events (sample_usage_input es) = es"
  "periodStart (sample_usage_input es) = ''a''" "periodEnd (sample_usage_input es) = ''z''" "requestedAt (sample_usage_input es) = ''z''"
  by (simp_all add: sample_usage_input_def)


theorem usage_hours_bounded_witness:
  "\<exists>res. aggregateSandboxUsage sample_parse (\<lambda>_ _. 0) one_stop = Inr res \<and> sandboxHours (result_summary res) \<le> 48"
proof -
  from samples_aggregate(1) obtain res where res: "aggregateSandboxUsage sample_parse (\<lambda>_ _. 0) one_stop = Inr res" by blast
  have "{k. \<exists>e \<in> set (input_events one_stop). interval_key e = Some k} = {''s'' @ '':'' @ string_of_int 1}"
    by (auto simp: one_stop_def interval_key_def sample_usage_event_def)
  then show ?thesis
    using usage_hours_bounded [OF res, of 0 172800000] res
    by (simp add: one_stop_def sample_parse_def hours_of_def MillisecondsPerHour_def)
qed

theorem unrecorded_end_loses_run_witness:
  "resolveRuntimeIntervals sample_parse
     [sample_usage_event SANDBOX_ALLOCATED ''a'', sample_usage_event SANDBOX_READY ''a'', sample_usage_event SANDBOX_RESUMED ''b'',
      sample_usage_event SANDBOX_STOPPED ''c'']
   = Inr [\<lparr>interval_sandboxInstanceId = ''s'', interval_startMs = 36000000, interval_endMs = Some 108000000,
       interval_vcpuCount = Some 2, interval_memoryMb = Some 4096, interval_diskMb = None\<rparr>]"
  by (subst unrecorded_end_loses_run [where before = "[]" and s = "sample_usage_event SANDBOX_ALLOCATED ''a''" and
        s' = "sample_usage_event SANDBOX_RESUMED ''b''" and rest = "[sample_usage_event SANDBOX_STOPPED ''c'']"])
    (simp_all add: relevant_def run_usage)

theorem unrecorded_end_metered_on_witness:
  "\<exists>res. aggregateSandboxUsage sample_parse (\<lambda>_ _. 0) no_end = Inr res \<and> sandboxHours (result_summary res) = 38"
proof -
  from samples_aggregate(2) obtain res where res: "aggregateSandboxUsage sample_parse (\<lambda>_ _. 0) no_end = Inr res" by blast
  have "\<exists>inst. instancesById no_end ''s'' = Some inst" by (simp add: no_end_def sample_usage_input_def)
  then obtain inst where inst: "instancesById no_end (row_sandboxInstanceId (sample_usage_event SANDBOX_ALLOCATED ''b'')) = Some inst"
    by (auto simp: sample_usage_event_def)
  have "sandboxHours (result_summary res) = hours_of (max 0 (min 172800000 172800000
      - max (time_of sample_parse (sample_usage_event SANDBOX_ALLOCATED ''b'')) 0))"
    by (rule unrecorded_end_metered_on [OF res _ _ _ _ _ _ inst])
      (simp_all add: no_end_def sample_parse_def interval_key_def relevant_def sample_usage_event_def is_start_event_def
        is_terminal_event_def)
  with res show ?thesis
    by (simp add: time_of_def sample_usage_event_def sample_parse_def hours_of_def MillisecondsPerHour_def)
qed

theorem complete_summary_final_witness:
  "aggregateSandboxUsage sample_parse (\<lambda>_ _. 0) (no_end\<lparr>requestedAt := ''later''\<rparr>)
   = aggregateSandboxUsage sample_parse (\<lambda>_ _. 0) no_end"
  by (rule complete_summary_final [where since = "Some ''a''"])
    (simp_all add: no_end_def isUsageMeasurementComplete_def sample_parse_def)

end
