(* ===== verification/SandboxResume.thy ===== *)
theory SandboxResume
  imports DeadlineRuns
begin

text \<open>
  The resumption of a stopped or failed sandbox by the worker: the workflow
  (\<open>apps/data-plane-worker/openworkflow/resume-sandbox-instance/workflow.ts\<close>) with the functions it calls, the wait for
  readiness (\<open>start-sandbox-instance/wait-for-sandbox-runtime-readiness.ts\<close>), the marks of a start, and what becomes
  of the error of a durable step (\<open>packages/workflow-registry/src/durable-step-retry.ts\<close>). A run is taken in its first
  attempt: an error to be retried leaves it. Operation events, diagnostics and log records are left out.
\<close>

section \<open>What the workflow asks others\<close>

text \<open>
  The active runtime plan of an instance and whether it parses; the provider and the id a resumed sandbox comes with;
  whether there is a daemon to install; the version of the daemon; whether the activation input can be made; the clock
  in milliseconds; the policy of the wait; which errors say that they are not to be retried; the attempts of a step;
  and the message made of an error. \<open>poll_fuel\<close> bounds the reads of the wait, which has no bound of its own.
\<close>

record resume_services =
  plan_answer :: "worker_world \<Rightarrow> string \<Rightarrow> (worker_error + unit) option"
  handle_answer :: "worker_world \<Rightarrow> string \<Rightarrow> string \<times> string"
  artifact_answer :: "worker_world \<Rightarrow> worker_error + bool"
  version_answer :: "worker_world \<Rightarrow> string \<Rightarrow> worker_error + unit"
  activation_answer :: "worker_world \<Rightarrow> string \<Rightarrow> worker_error + unit"
  clock_ms :: "worker_world \<Rightarrow> int"
  timeoutMs :: int
  pollIntervalMs :: int
  poll_fuel :: nat
  non_retryable :: "worker_error \<Rightarrow> bool"
  step_attempts :: "string \<Rightarrow> int option \<times> int option"
  failure_text :: "string \<Rightarrow> worker_error \<Rightarrow> string"

section \<open>Durable steps\<close>

definition step_run :: "resume_services \<Rightarrow> string \<Rightarrow> (worker_world, 'a) program \<Rightarrow> (worker_world, 'a) program" where
  "step_run S name p = prog_catch p (\<lambda>e. Raise (case step_attempts S name of (failed, allowed) \<Rightarrow> StepError e failed allowed))"

fun shouldRethrowDurableStepErrorForRetry :: "resume_services \<Rightarrow> worker_error \<Rightarrow> bool" where
  "shouldRethrowDurableStepErrorForRetry S (StepError original failed allowed) \<longleftrightarrow>
     \<not> non_retryable S original \<and>
     (case (failed, allowed) of (Some n, Some m) \<Rightarrow> n \<ge> 0 \<and> m > 0 \<and> n < m | _ \<Rightarrow> False)"
| "shouldRethrowDurableStepErrorForRetry S e \<longleftrightarrow> False"

fun resolveDurableStepFinalError :: "resume_services \<Rightarrow> worker_error \<Rightarrow> worker_error" where
  "resolveDurableStepFinalError S (StepError original failed allowed) =
     (if shouldRethrowDurableStepErrorForRetry S (StepError original failed allowed)
      then StepError original failed allowed else original)"
| "resolveDurableStepFinalError S e = e"

section \<open>Marks of a start\<close>

text \<open>
  A life cycle event and a second update in one transaction: nobody sees the row between the two, and a transaction
  that throws writes nothing.
\<close>

definition apply_and_set ::
  "string \<Rightarrow> sandbox_lifecycle_event \<Rightarrow> (instance_row \<Rightarrow> bool) \<Rightarrow> (string \<Rightarrow> instance_row \<Rightarrow> instance_row) \<Rightarrow>
   (worker_world, unit) program" where
  "apply_and_set sid event matches set_columns =
     prog_bind (findInstance sid) (\<lambda>found. case live_row found of
       None \<Rightarrow> Raise (WorkerError (''Sandbox instance '' @ quoted sid @ '' was not found for lifecycle event ''
                 @ quoted (event_string event) @ ''.''))
     | Some row \<Rightarrow> (case transitionSandboxLifecycle (status row) event of
         Invalid _ _ why \<Rightarrow> Raise (WorkerError why)
       | Unchanged s \<Rightarrow> prog_bind (updateInstance sid matches set_columns) (\<lambda>_. Done ())
       | Transition from to \<Rightarrow>
           prog_bind (updateInstance sid (\<lambda>r. status r = from \<and> deletedAt r = None)
               (\<lambda>time r. set_columns time (r\<lparr>status := to, updatedAt := time\<rparr>))) (\<lambda>updated.
             if updated then Done ()
             else prog_bind (findInstance sid) (\<lambda>current. case live_row current of
               None \<Rightarrow> Raise (WorkerError (''Sandbox instance '' @ quoted sid @ '' was not found after lifecycle event ''
                         @ quoted (event_string event) @ '' missed its compare-and-swap update.''))
             | Some r \<Rightarrow> (case transitionSandboxLifecycle (status r) event of
                 Unchanged s \<Rightarrow> prog_bind (updateInstance sid matches set_columns) (\<lambda>_. Done ())
               | _ \<Rightarrow> Raise (WorkerError (''Failed to apply sandbox lifecycle event '' @ quoted (event_string event)
                         @ '' from '' @ quoted (status_string from) @ '' to '' @ quoted (status_string to) @ ''.'')))))))"

text \<open>After the transaction the row is read once more.\<close>

definition expect_status :: "string \<Rightarrow> sandbox_instance_status \<Rightarrow> string \<Rightarrow> (worker_world, unit) program" where
  "expect_status sid s failure = prog_bind (findInstance sid) (\<lambda>found.
     if map_option status found = Some s then Done () else Raise (WorkerError failure))"

definition markSandboxInstanceStarting :: "string \<Rightarrow> (worker_world, unit) program" where
  "markSandboxInstanceStarting sid = prog_bind
     (apply_and_set sid PROVIDER_START_REQUESTED (\<lambda>row. deletedAt row = None)
       (\<lambda>time row. row\<lparr>stoppedAt := None, stopReason := None, failedAt := None, failureCode := None,
          failureMessage := None, updatedAt := time\<rparr>))
     (\<lambda>_. expect_status sid STARTING ''Failed to transition sandbox instance status to starting.'')"

definition markSandboxInstanceRunning :: "string \<Rightarrow> (worker_world, unit) program" where
  "markSandboxInstanceRunning sid = prog_bind
     (apply_and_set sid RUNTIME_READY (\<lambda>_. True)
       (\<lambda>time row. row\<lparr>stopReason := None, failedAt := None, failureCode := None, failureMessage := None, updatedAt := time\<rparr>))
     (\<lambda>_. expect_status sid RUNNING ''Failed to transition sandbox instance status to running.'')"

text \<open>Without the two options that allow a stopped or a running instance, which no resumption sets.\<close>

definition start_markSandboxInstanceFailed :: "string \<Rightarrow> string \<Rightarrow> string \<Rightarrow> (worker_world, unit) program" where
  "start_markSandboxInstanceFailed sid code message = Step (\<lambda>w.
     if row_lock w sid \<noteq> None then None
     else Some (case instances w sid of
       Some row \<Rightarrow> if status row \<in> {PENDING, STARTING, STARTED, INITIALIZING}
         then (clearSandboxInstanceDeadlines sid (w\<lparr>instances := (instances w)(sid \<mapsto> row\<lparr>status := FAILED,
             stopReason := Some STOP_FAILED, failedAt := Some (db_now w), failureCode := Some code,
             failureMessage := Some message, updatedAt := db_now w\<rparr>)\<rparr>), Done ())
         else (w, Raise (WorkerError ''Failed to transition sandbox instance status to failed.''))
     | None \<Rightarrow> (w, Raise (WorkerError ''Failed to transition sandbox instance status to failed.''))))"

section \<open>The provider\<close>

datatype resume_action = RESUME_PROVIDER | USE_ACTIVE_PROVIDER | RESUME_FAIL string string

fun determineExistingProviderResumeAction :: "provider_disposition option \<Rightarrow> resume_action" where
  "determineExistingProviderResumeAction (Some PROVIDER_ACTIVE) = USE_ACTIVE_PROVIDER"
| "determineExistingProviderResumeAction (Some RESUMABLE_STOPPED) = RESUME_PROVIDER"
| "determineExistingProviderResumeAction None = RESUME_FAIL ''provider_runtime_missing''
     ''Sandbox runtime was not found at the provider before resume.''"
| "determineExistingProviderResumeAction _ = RESUME_FAIL ''provider_runtime_not_resumable''
     ''Sandbox runtime was not resumable at the provider before resume.''"

definition inspectExistingProviderResumeAction :: "string \<Rightarrow> (worker_world, resume_action) program" where
  "inspectExistingProviderResumeAction pid =
     prog_catch (prog_bind (inspectProvider pid) (\<lambda>d. Done (determineExistingProviderResumeAction (Some d))))
       (\<lambda>e. if e = SandboxResourceNotFound then Done (determineExistingProviderResumeAction None) else Raise e)"

definition resumeSandbox :: "resume_services \<Rightarrow> instance_row \<Rightarrow> string \<Rightarrow> (worker_world, unit) program" where
  "resumeSandbox S row pid = Step (\<lambda>w. Some (w\<lparr>provider_commands := provider_commands w @ [ResumeProviderSandbox pid]\<rparr>,
     prog_bind (of_answer (command_answer w (provider_commands w) (ResumeProviderSandbox pid))) (\<lambda>_.
       if fst (handle_answer S w pid) \<noteq> runtimeProvider row
       then Raise (WorkerError ''Sandbox adapter returned sandbox handle with unexpected provider.'')
       else if snd (handle_answer S w pid) \<noteq> pid
       then Raise (WorkerError ''Sandbox adapter returned a different sandbox id during resume.'')
       else Done ())))"

definition resumeSandboxRuntime :: "resume_services \<Rightarrow> string \<Rightarrow> string \<Rightarrow> (worker_world, unit) program" where
  "resumeSandboxRuntime S sid pid =
     prog_bind (Step (\<lambda>w. Some (w, of_answer (artifact_answer S w)))) (\<lambda>artifact.
     prog_bind (if artifact then commandProvider (EnsureSandboxd pid) else Done ()) (\<lambda>_.
     prog_bind (Step (\<lambda>w. Some (w, of_answer (version_answer S w pid)))) (\<lambda>_.
     prog_bind (Step (\<lambda>w. Some (w, of_answer (activation_answer S w sid)))) (\<lambda>_.
       commandProvider (ActivateRuntime pid)))))"

definition isSandboxRuntimeReady :: "runtime_snapshot \<Rightarrow> bool" where
  "isSandboxRuntimeReady s \<longleftrightarrow> (if ownerLeaseId s = None then False
     else if map_option attachment_ownerLeaseId (attachment s) \<noteq> ownerLeaseId s then False else runtime_ready s)"

text \<open>One round of the wait reads the clock and then a snapshot; between two rounds it sleeps.\<close>

primrec poll_ready :: "resume_services \<Rightarrow> string \<Rightarrow> int \<Rightarrow> nat \<Rightarrow> (worker_world, bool) program" where
  "poll_ready S sid deadlineMs 0 = Step (\<lambda>_. None)"
| "poll_ready S sid deadlineMs (Suc n) = Step (\<lambda>w. Some (w,
     prog_bind (of_answer (snapshot_answer w (provider_commands w) sid)) (\<lambda>s.
       if isSandboxRuntimeReady s then Done True
       else if deadlineMs - clock_ms S w \<le> 0 then Done False
       else poll_ready S sid deadlineMs n)))"

definition waitForSandboxRuntimeReadiness ::
  "resume_services \<Rightarrow> string \<Rightarrow> (worker_world, bool) program" where
  "waitForSandboxRuntimeReadiness S sid =
     (if timeoutMs S \<le> 0 then Raise (WorkerError ''Expected sandbox runtime readiness timeout to be positive.'')
      else if pollIntervalMs S \<le> 0
      then Raise (WorkerError ''Expected sandbox runtime readiness poll interval to be positive.'')
      else if js_trim sid = []
      then Raise (WorkerError ''Expected sandbox instance id to be non-empty when waiting for readiness.'')
      else prog_bind (Step (\<lambda>w. Some (w, Done (clock_ms S w + timeoutMs S)))) (\<lambda>deadlineMs.
        poll_ready S sid deadlineMs (poll_fuel S)))"

section \<open>The workflow\<close>

definition resolveResumableSandboxInstanceState ::
  "resume_services \<Rightarrow> string \<Rightarrow> (worker_world, (instance_row \<times> string) option) program" where
  "resolveResumableSandboxInstanceState S sid = Step (\<lambda>w. Some (w, case instances w sid of
     None \<Rightarrow> Raise (WorkerError (''Sandbox instance '' @ quoted sid @ '' was not found.''))
   | Some row \<Rightarrow>
       if status row \<in> {RUNNING, STARTING, STARTED, INITIALIZING} then Done None
       else if status row \<noteq> STOPPED \<and> status row \<noteq> FAILED
       then Raise (WorkerError (''Expected sandbox instance '' @ quoted sid
              @ '' to be stopped, failed, or already active before resume execution.''))
       else (case providerSandboxId row of
         None \<Rightarrow> Raise (WorkerError (''Expected resumable sandbox instance '' @ quoted sid
              @ '' to have a provider sandbox id.''))
       | Some pid \<Rightarrow> (case plan_answer S w sid of
           None \<Rightarrow> Raise (WorkerError (''Expected resumable sandbox instance '' @ quoted sid
              @ '' to have an active compiled runtime plan.''))
         | Some parsed \<Rightarrow> prog_bind (of_answer parsed) (\<lambda>_. Done (Some (row, pid)))))))"

definition stopProviderAfterResumeFailure ::
  "resume_services \<Rightarrow> string \<Rightarrow> (worker_world, worker_error option) program" where
  "stopProviderAfterResumeFailure S pid =
     prog_catch (prog_bind (step_run S ''stop-sandbox-after-resume-failure'' (stopSandbox pid)) (\<lambda>_. Done None))
       (\<lambda>e. Done (if e = SandboxResourceNotFound then None else Some e))"

definition mark_after_failure ::
  "resume_services \<Rightarrow> string \<Rightarrow> string \<Rightarrow> string \<Rightarrow> (worker_world, unit) program" where
  "mark_after_failure S sid code message = step_run S ''mark-sandbox-instance-failed-after-resume-failure''
     (start_markSandboxInstanceFailed sid code message)"

definition handleResumeFailure ::
  "resume_services \<Rightarrow> string \<Rightarrow> string \<Rightarrow> string \<Rightarrow> string \<Rightarrow> worker_error \<Rightarrow> (worker_world, unit) program" where
  "handleResumeFailure S sid pid code summary e =
     prog_bind (stopProviderAfterResumeFailure S pid) (\<lambda>stopSandboxError.
     prog_bind (prog_catch (prog_bind (mark_after_failure S sid code (failure_text S summary e)) (\<lambda>_. Done None))
       (\<lambda>e'. Done (Some e'))) (\<lambda>markFailedError.
       if stopSandboxError \<noteq> None \<or> markFailedError \<noteq> None
       then Raise (WorkerError ''Resume failure handling failed.'') else Done ()))"

text \<open>The \<open>catch\<close> clause of the phases of the workflow: an error to be retried leaves the run as it is.\<close>

definition resume_phase ::
  "resume_services \<Rightarrow> string \<Rightarrow> string \<Rightarrow> string \<Rightarrow> string \<Rightarrow> (worker_world, 'a) program \<Rightarrow> (worker_world, 'a) program" where
  "resume_phase S sid pid code summary p = prog_catch p (\<lambda>e.
     if shouldRethrowDurableStepErrorForRetry S e then Raise e
     else prog_bind (handleResumeFailure S sid pid code summary e) (\<lambda>_. Raise (resolveDurableStepFinalError S e)))"

definition resume_usage_event ::
  "string \<Rightarrow> usage_event_type \<Rightarrow> string \<Rightarrow> string option \<Rightarrow> instance_row \<Rightarrow> string \<Rightarrow> usage_event" where
  "resume_usage_event sid eventType run discriminator row pid =
     \<lparr>usage_idempotencyKey = createSandboxUsageEventIdempotencyKey sid (computeGeneration row) eventType run discriminator,
      usage_organizationId = organizationId row, usage_sandboxInstanceId = sid,
      usage_computeGeneration = Some (computeGeneration row), usage_eventType = eventType, usage_occurredAt = [],
      usage_runtimeProvider = Some (runtimeProvider row), usage_providerSandboxId = Some pid,
      usage_vcpuCount = sandboxVcpuCount row, usage_memoryMb = sandboxMemoryMb row, usage_diskMb = sandboxDiskMb row\<rparr>"

definition recordResumeSandboxUsageEvent ::
  "resume_services \<Rightarrow> string \<Rightarrow> string \<Rightarrow> usage_event_type \<Rightarrow> string \<Rightarrow> string option \<Rightarrow> instance_row \<Rightarrow> string \<Rightarrow>
   (worker_world, unit) program" where
  "recordResumeSandboxUsageEvent S name sid eventType run discriminator row pid = step_run S name
     (prog_bind (recordWorkerSandboxUsageEvent (resume_usage_event sid eventType run discriminator row pid)) (\<lambda>_. Done ()))"

text \<open>
  The run from its end: once the runtime was activated, once the provider has resumed, once it is known what to do about
  the provider, and once the instance was found stopped or failed.
\<close>

definition resume_activated ::
  "resume_services \<Rightarrow> string \<Rightarrow> string \<Rightarrow> instance_row \<Rightarrow> string \<Rightarrow> (worker_world, unit) program" where
  "resume_activated S run sid row pid =
     prog_bind (resume_phase S sid pid ''tunnel_connect_ack_wait_failed''
         ''Failed while waiting for resumed sandbox runtime readiness.''
         (step_run S ''wait-for-resumed-sandbox-runtime-readiness'' (waitForSandboxRuntimeReadiness S sid))) (\<lambda>ready.
     if \<not> ready
     then prog_bind (handleResumeFailure S sid pid ''tunnel_connect_ack_timeout''
         ''Timed out waiting for resumed sandbox runtime readiness.''
         (WorkerError ''Timed out waiting for resumed sandbox runtime readiness.'')) (\<lambda>_.
       Raise (WorkerError ''Timed out waiting for resumed sandbox runtime readiness.''))
     else prog_bind (resume_phase S sid pid ''status_transition_to_running_failed''
         ''Failed to mark resumed sandbox instance as running.''
         (step_run S ''mark-resumed-sandbox-instance-running'' (markSandboxInstanceRunning sid))) (\<lambda>_.
       recordResumeSandboxUsageEvent S ''record-sandbox-ready-usage-event-after-resume'' sid SANDBOX_READY run
         (Some ''ready'') row pid))"

definition resume_resumed ::
  "resume_services \<Rightarrow> string \<Rightarrow> string \<Rightarrow> instance_row \<Rightarrow> string \<Rightarrow> (worker_world, unit) program" where
  "resume_resumed S run sid row pid =
     prog_bind (step_run S ''mark-resumed-sandbox-instance-started''
         (applySandboxLifecycleEvent sid PROVIDER_START_ACCEPTED)) (\<lambda>_.
     prog_bind (recordResumeSandboxUsageEvent S ''record-sandbox-resumed-usage-event'' sid SANDBOX_RESUMED run None
         row pid) (\<lambda>_.
     prog_bind (resume_phase S sid pid ''sandbox_init_failed'' ''Failed to initialize resumed sandbox runtime.''
         (prog_bind (step_run S ''mark-resumed-sandbox-instance-initializing''
             (applySandboxLifecycleEvent sid PROVIDER_RUNTIME_INITIALIZATION_STARTED)) (\<lambda>_.
           step_run S ''initialize-resumed-sandbox-runtime'' (resumeSandboxRuntime S sid pid)))) (\<lambda>_.
       resume_activated S run sid row pid)))"

definition resume_acted ::
  "resume_services \<Rightarrow> string \<Rightarrow> string \<Rightarrow> instance_row \<Rightarrow> string \<Rightarrow> resume_action \<Rightarrow> (worker_world, unit) program" where
  "resume_acted S run sid row pid action = (case action of
     RESUME_FAIL code message \<Rightarrow>
       prog_bind (mark_after_failure S sid code
         (failure_text S ''Failed to resume sandbox runtime.'' (WorkerError message))) (\<lambda>_.
       Raise (WorkerError message))
   | _ \<Rightarrow> prog_bind (resume_phase S sid pid ''resume_sandbox_failed''
         ''Failed to resume sandbox provider runtime.''
         (step_run S ''resume-existing-sandbox-compute''
           (if action = RESUME_PROVIDER then resumeSandbox S row pid else Done ()))) (\<lambda>_.
       resume_resumed S run sid row pid))"

definition resume_stopped ::
  "resume_services \<Rightarrow> string \<Rightarrow> string \<Rightarrow> instance_row \<Rightarrow> string \<Rightarrow> (worker_world, unit) program" where
  "resume_stopped S run sid row pid =
     prog_bind (resolveRuntime row) (\<lambda>_.
     prog_bind (step_run S ''mark-sandbox-instance-starting'' (markSandboxInstanceStarting sid)) (\<lambda>_.
     prog_bind (resume_phase S sid pid ''resume_sandbox_failed''
         ''Failed to inspect sandbox provider runtime before resume.''
         (step_run S ''inspect-existing-sandbox-compute-before-resume'' (inspectExistingProviderResumeAction pid)))
       (resume_acted S run sid row pid)))"

definition ResumeSandboxInstanceWorkflow ::
  "resume_services \<Rightarrow> string \<Rightarrow> string \<Rightarrow> (worker_world, unit) program" where
  "ResumeSandboxInstanceWorkflow S run sid =
     prog_bind (step_run S ''resolve-resumable-sandbox-instance-state'' (resolveResumableSandboxInstanceState S sid))
       (\<lambda>state. case state of None \<Rightarrow> Done () | Some (row, pid) \<Rightarrow> resume_stopped S run sid row pid)"

section \<open>What every step does\<close>

text \<open>The steps of a resumption keep to the life cycle, and the usage events they add are not ends.\<close>

definition no_end_recorded :: "worker_world \<Rightarrow> worker_world \<Rightarrow> bool" where
  "no_end_recorded w v \<longleftrightarrow> (\<exists>es. usage_events v = usage_events w @ es \<and>
     (\<forall>e \<in> set es. usage_eventType e \<in> {SANDBOX_RESUMED, SANDBOX_READY}))"

definition resume_step :: "string \<Rightarrow> worker_world \<Rightarrow> worker_world \<Rightarrow> bool" where
  "resume_step sid w v \<longleftrightarrow> follows_lifecycle sid w v \<and> no_end_recorded w v"

lemma no_end_same [simp]: "usage_events v = usage_events w \<Longrightarrow> no_end_recorded w v"
  by (simp add: no_end_recorded_def)

lemma resume_step_same [simp]:
  "instances v = instances w \<Longrightarrow> usage_events v = usage_events w \<Longrightarrow> resume_step sid w v"
  by (simp add: resume_step_def)

lemma guarantees_step_run: "guarantees G p \<Longrightarrow> guarantees G (step_run S name p)"
  unfolding step_run_def by (auto intro!: guarantees_intros split: prod.split)

lemma transition_follows:
  assumes "transitionSandboxLifecycle s event = Transition from to"
  shows "from = s \<and> lifecycle_step s event to"
  using assms lifecycle_step.move [of s event to]
  unfolding transitionSandboxLifecycle_def transitionFrom_def by (auto split: if_splits)

lemma update_step:
  assumes "\<And>time row. matches row \<Longrightarrow> status (f time row) = status row \<or> (\<exists>e. lifecycle_step (status row) e (status (f time row)))"
  shows "guarantees (resume_step sid) (updateInstance sid matches f)"
proof (rule guarantees_update)
  show "resume_step sid w (w\<lparr>instances := (instances w)(sid \<mapsto> f (db_now w) row)\<rparr>)"
    if "instances w sid = Some row" and "matches row" for w row
    using that assms [of row "db_now w"] by (auto simp: resume_step_def follows_lifecycle_def)
qed simp

lemma apply_and_set_step:
  assumes "\<And>time row. status (f time row) = status row"
  shows "guarantees (resume_step sid) (apply_and_set sid event matches f)"
proof -
  have unchanged: "guarantees (resume_step sid) (updateInstance sid matches f)"
    by (rule update_step) (simp add: assms)
  have moved: "guarantees (resume_step sid) (updateInstance sid (\<lambda>r. status r = a \<and> deletedAt r = None)
      (\<lambda>time r. f time (r\<lparr>status := b, updatedAt := time\<rparr>)))"
    if "transitionSandboxLifecycle s event = Transition a b" for s a b
    by (rule update_step) (use transition_follows [OF that] in \<open>auto simp: assms\<close>)
  have find: "guarantees (resume_step sid) (findInstance sid)" by (intro guarantees_reads) simp
  note intros = guarantees_intros unchanged moved find
  have again: "guarantees (resume_step sid) (prog_bind (findInstance sid) (\<lambda>current. case live_row current of
      None \<Rightarrow> Raise e | Some r \<Rightarrow> (case transitionSandboxLifecycle (status r) event of
        Unchanged s \<Rightarrow> prog_bind (updateInstance sid matches f) (\<lambda>_. Done ())
      | _ \<Rightarrow> Raise d)))" for e d
    by (rule guarantees_bind [OF find]) (auto intro!: intros split: option.split transition_result.split)
  show ?thesis
    unfolding apply_and_set_def
    by (rule guarantees_bind [OF find])
      (auto intro!: intros again split: option.split transition_result.split)
qed

lemma start_marks_step:
  "guarantees (resume_step sid) (markSandboxInstanceStarting sid)"
  "guarantees (resume_step sid) (markSandboxInstanceRunning sid)"
  "guarantees (resume_step sid) (start_markSandboxInstanceFailed sid code message)"
proof -
  have expect: "guarantees (resume_step sid) (expect_status sid s failure)" for s failure
    unfolding expect_status_def by (auto intro!: guarantees_intros guarantees_reads)
  show "guarantees (resume_step sid) (markSandboxInstanceStarting sid)"
    "guarantees (resume_step sid) (markSandboxInstanceRunning sid)"
    unfolding markSandboxInstanceStarting_def markSandboxInstanceRunning_def
    by (intro guarantees_bind apply_and_set_step expect; simp)+
  have failed: "lifecycle_step s FAILURE_RECORDED FAILED" for s
    by (cases s) (simp_all add: lifecycle_step_rule)
  show "guarantees (resume_step sid) (start_markSandboxInstanceFailed sid code message)"
    unfolding start_markSandboxInstanceFailed_def
    by (intro guarantees_Step)
      (auto simp: resume_step_def follows_lifecycle_def intro!: guarantees_intros exI [of _ FAILURE_RECORDED] failed
        split: option.splits if_splits)
qed

lemma apply_step: "guarantees (resume_step sid) (applySandboxLifecycleEvent sid event)"
proof -
  have "guarantees (\<lambda>w v. follows_lifecycle sid w v \<and> usage_events v = usage_events w) (applySandboxLifecycleEvent sid event)"
    using apply_follows [of sid event] usage_apply [of sid event] unfolding guarantees_def by blast
  then show ?thesis by (rule guarantees_mono) (simp add: resume_step_def)
qed


lemma record_step:
  assumes "usage_eventType event \<in> {SANDBOX_RESUMED, SANDBOX_READY}"
  shows "guarantees (resume_step sid) (recordWorkerSandboxUsageEvent event)"
  unfolding recordWorkerSandboxUsageEvent_def
  by (cases "valid_usage_event event")
    (use assms in \<open>auto intro!: guarantees_Step guarantees_intros
      simp: resume_step_def no_end_recorded_def split: if_splits\<close>)

lemma failure_step:
  "guarantees (resume_step sid) (mark_after_failure S sid code message)"
  "guarantees (resume_step sid) (handleResumeFailure S sid pid code summary e)"
proof -
  show mark: "guarantees (resume_step sid) (mark_after_failure S sid code message)" for message
    unfolding mark_after_failure_def by (intro guarantees_step_run start_marks_step)
  have "guarantees (resume_step sid) (stopProviderAfterResumeFailure S pid)"
    unfolding stopProviderAfterResumeFailure_def stopSandbox_def
    by (auto intro!: guarantees_intros guarantees_step_run guarantees_command)
  then show "guarantees (resume_step sid) (handleResumeFailure S sid pid code summary e)"
    unfolding handleResumeFailure_def by (auto intro!: guarantees_intros mark)
qed

lemma phase_step:
  assumes "guarantees (resume_step sid) p"
  shows "guarantees (resume_step sid) (resume_phase S sid pid code summary p)"
  unfolding resume_phase_def by (auto intro!: guarantees_intros failure_step assms)

lemma provider_step:
  "guarantees (resume_step sid) (inspectExistingProviderResumeAction pid)"
  "guarantees (resume_step sid) (resumeSandbox S row pid)"
  "guarantees (resume_step sid) (resumeSandboxRuntime S sid pid)"
  unfolding inspectExistingProviderResumeAction_def resumeSandbox_def resumeSandboxRuntime_def
  by (auto intro!: guarantees_intros guarantees_reads guarantees_command guarantees_Step guarantees_of_answer)

lemma wait_step: "guarantees (resume_step sid) (waitForSandboxRuntimeReadiness S sid)"
proof -
  have "guarantees (resume_step sid) (poll_ready S sid t n)" for t n
    by (induction n) (auto intro!: guarantees_Step guarantees_intros guarantees_of_answer)
  then show ?thesis
    unfolding waitForSandboxRuntimeReadiness_def by (auto intro!: guarantees_intros guarantees_Step)
qed

lemma resume_steps: "guarantees (resume_step sid) (ResumeSandboxInstanceWorkflow S run sid)"
proof -
  have usage: "guarantees (resume_step sid) (recordResumeSandboxUsageEvent S name sid t run d row pid)"
    if "t \<in> {SANDBOX_RESUMED, SANDBOX_READY}" for name t d row pid
    unfolding recordResumeSandboxUsageEvent_def
    by (intro guarantees_step_run guarantees_bind record_step guarantees_Done)
      (use that in \<open>simp add: resume_usage_event_def\<close>)
  note steps = guarantees_bind phase_step guarantees_step_run start_marks_step apply_step usage failure_step
    provider_step wait_step guarantees_Done guarantees_Raise
  have activated: "guarantees (resume_step sid) (resume_activated S run sid row pid)" for row pid
    unfolding resume_activated_def by (auto intro!: steps)
  have resumed: "guarantees (resume_step sid) (resume_resumed S run sid row pid)" for row pid
    unfolding resume_resumed_def by (auto intro!: steps activated)
  have resolve: "guarantees (resume_step sid) (resolveResumableSandboxInstanceState S sid)"
    unfolding resolveResumableSandboxInstanceState_def
    by (auto intro!: guarantees_Step steps guarantees_of_answer split: option.split)
  have resolve_runtime: "guarantees (resume_step sid) (resolveRuntime row)" for row
    by (intro guarantees_reads) simp
  have act: "guarantees (resume_step sid) (resume_phase S sid pid code summary (step_run S name
      (if b then resumeSandbox S row pid else Done ())))" for pid code summary name b row
    by (cases b) (simp_all add: steps)
  show ?thesis
    unfolding ResumeSandboxInstanceWorkflow_def resume_stopped_def resume_acted_def
    by (rule guarantees_bind, intro steps resolve)
      (auto intro!: guarantees_bind resolve_runtime phase_step guarantees_step_run start_marks_step provider_step
        act resumed failure_step guarantees_Done guarantees_Raise split: option.split resume_action.split)
qed


section \<open>A sample run\<close>

definition stopped_row :: instance_row where
  "stopped_row = sample_row\<lparr>status := STOPPED, stoppedAt := Some ''t0'', stopReason := Some STOP_SYSTEM\<rparr>"

definition resume_world :: worker_world where
  "resume_world = sample_world stopped_row (\<lambda>_. sample_snapshot (Some ''o''))
     (\<lambda>cs. if ResumeProviderSandbox ''p'' \<in> set cs then PROVIDER_ACTIVE else RESUMABLE_STOPPED)"

text \<open>The provider hands back the sandbox it was asked for; the activation is as the argument says, and nothing is tried again.\<close>

definition sample_services :: "worker_error + unit \<Rightarrow> resume_services" where
  "sample_services activation = \<lparr>plan_answer = \<lambda>_ _. Some (Inr ()), handle_answer = \<lambda>_ pid. (''docker'', pid),
     artifact_answer = \<lambda>_. Inr True, version_answer = \<lambda>_ _. Inr (), activation_answer = \<lambda>_ _. activation,
     clock_ms = \<lambda>_. 0, timeoutMs = 1000, pollIntervalMs = 250, poll_fuel = 6, non_retryable = \<lambda>_. True,
     step_attempts = \<lambda>_. (Some 1, Some 1), failure_text = \<lambda>summary _. summary\<rparr>"

lemmas run_resume = ResumeSandboxInstanceWorkflow_def resume_stopped_def resume_acted_def resolveResumableSandboxInstanceState_def step_run_def
  resume_phase_def resume_resumed_def resume_activated_def markSandboxInstanceStarting_def
  markSandboxInstanceRunning_def apply_and_set_def expect_status_def inspectExistingProviderResumeAction_def
  inspectProvider_def resumeSandbox_def recordResumeSandboxUsageEvent_def resumeSandboxRuntime_def commandProvider_def
  waitForSandboxRuntimeReadiness_def findInstance_def updateInstance_def live_row_def resolveRuntime_def
  applySandboxLifecycleEvent_def transitionSandboxLifecycle_def transitionFrom_def recordWorkerSandboxUsageEvent_def
  handleResumeFailure_def stopProviderAfterResumeFailure_def mark_after_failure_def start_markSandboxInstanceFailed_def
  stopSandbox_def valid_usage_event_def resume_usage_event_def isSandboxRuntimeReady_def
  positive_or_null_def nonempty_or_null_def usage_providers_def js_trim_def is_space_def

lemmas resume_samples = resume_world_def stopped_row_def sample_services_def samples

text \<open>What the sample resumption does, step by step; the keys of its two usage events.\<close>

definition resumed_key :: string where
  "resumed_key = createSandboxUsageEventIdempotencyKey ''s'' 1 SANDBOX_RESUMED ''run'' None"

definition ready_key :: string where
  "ready_key = createSandboxUsageEventIdempotencyKey ''s'' 1 SANDBOX_READY ''run'' (Some ''ready'')"

lemma sample_keys [simp]:
  "createSandboxUsageEventIdempotencyKey ''s'' 1 SANDBOX_RESUMED ''run'' None = resumed_key"
  "createSandboxUsageEventIdempotencyKey ''s'' 1 SANDBOX_READY ''run'' (Some ''ready'') = ready_key"
  "resumed_key \<noteq> []" "ready_key \<noteq> []" "resumed_key \<noteq> ready_key" "ready_key \<noteq> resumed_key"
  by (simp_all add: resumed_key_def ready_key_def createSandboxUsageEventIdempotencyKey_def)

lemma sample_resumption:
  "\<exists>v. run_alone (ResumeSandboxInstanceWorkflow (sample_services (Inr ())) ''run'' ''s'') resume_world = (v, Some (Inr ())) \<and>
     map_option status (instances v ''s'') = Some RUNNING \<and> map_option computeGeneration (instances v ''s'') = Some 1 \<and>
     map usage_idempotencyKey (usage_events v) = [resumed_key, ready_key]"
  by (simp add: run_resume resume_samples run_alone_bind run_alone_catch eval_nat_numeral)

lemma failing_resumption:
  "\<exists>v e. run_alone (ResumeSandboxInstanceWorkflow (sample_services (Inl (WorkerError ''no key''))) ''run'' ''s'') resume_world
       = (v, Some (Inl e)) \<and>
     map_option status (instances v ''s'') = Some FAILED \<and> StopProviderSandbox ''p'' \<in> set (provider_commands v) \<and>
     map usage_eventType (usage_events v) = [SANDBOX_RESUMED]"
  by (simp add: run_resume resume_samples run_alone_bind run_alone_catch clearSandboxInstanceDeadlines_def)


section \<open>Properties\<close>

text \<open>
  C21: A failed resumption is not metered as an end. Every step of a resumption, whatever happens beside it, moves the
  status of the instance along its life cycle, and adds nothing to the usage table but events of the kinds resumed and
  ready; and there are resumptions that end the instance as failed, with the provider told to stop the sandbox, after
  they have recorded it as resumed: nothing in the table ends that run.
\<close>

theorem failed_resume_unmetered:
  "guarantees (\<lambda>w v. follows_lifecycle sid w v \<and> no_end_recorded w v) (ResumeSandboxInstanceWorkflow S run sid) \<and>
   (\<exists>v e. run_alone (ResumeSandboxInstanceWorkflow (sample_services (Inl (WorkerError ''no key''))) ''run'' ''s'') resume_world
       = (v, Some (Inl e)) \<and>
     map_option status (instances v ''s'') = Some FAILED \<and> StopProviderSandbox ''p'' \<in> set (provider_commands v) \<and>
     map usage_eventType (usage_events v) = [SANDBOX_RESUMED])"
proof
  show "guarantees (\<lambda>w v. follows_lifecycle sid w v \<and> no_end_recorded w v) (ResumeSandboxInstanceWorkflow S run sid)"
    by (rule guarantees_mono [OF resume_steps]) (simp add: resume_step_def)
qed (rule failing_resumption)

subsection \<open>The wait\<close>

lemma poll_returns:
  assumes slept: "\<And>i w. i > n \<Longrightarrow> clock_ms S (env i w) \<ge> clock_ms S w + min (t - clock_ms S w) (pollIntervalMs S)"
    and interval: "pollIntervalMs S > 0"
    and remaining: "t - clock_ms S (env n w) \<le> int k * pollIntervalMs S" and fuel: "f > k"
  shows "\<exists>v m b. run_beside (poll_ready S sid t f) env n w = (v, m, Some b) \<and> m \<le> n + Suc k"
  using slept remaining fuel
proof (induction k arbitrary: n w f)
  case 0
  then obtain f' where f: "f = Suc f'" by (cases f) auto
  show ?case
    using 0(2) by (cases "snapshot_answer (env n w) (provider_commands (env n w)) sid")
      (auto simp: f run_beside_bind)
next
  case (Suc k)
  then obtain f' where f: "f = Suc f'" by (cases f) auto
  let ?w = "env n w"
  show ?case
  proof (cases "snapshot_answer ?w (provider_commands ?w) sid")
    case (Inr s)
    show ?thesis
    proof (cases "isSandboxRuntimeReady s \<or> t - clock_ms S ?w \<le> 0")
      case False
      have "t - clock_ms S (env (Suc n) ?w) \<le> int k * pollIntervalMs S"
      proof -
        have "clock_ms S (env (Suc n) ?w) \<ge> clock_ms S ?w + min (t - clock_ms S ?w) (pollIntervalMs S)"
          by (rule Suc.prems(1)) simp
        moreover have "int (Suc k) * pollIntervalMs S = int k * pollIntervalMs S + pollIntervalMs S"
          by (simp add: algebra_simps)
        moreover have "int k * pollIntervalMs S \<ge> 0" using interval by simp
        ultimately show ?thesis using Suc.prems(2) by (simp add: min_def split: if_splits)
      qed
      then have "\<exists>v m b. run_beside (poll_ready S sid t f') env (Suc n) ?w = (v, m, Some b) \<and> m \<le> Suc n + Suc k"
        by (intro Suc.IH Suc.prems(1)) (use Suc.prems(3) f in simp_all)
      then obtain v m b where "run_beside (poll_ready S sid t f') env (Suc n) ?w = (v, m, Some b)"
        and "m \<le> Suc n + Suc k" by blast
      with False Inr show ?thesis by (auto simp: f)
    qed (auto simp: f Inr)
  qed (auto simp: f)
qed

text \<open>
  C20: The wait for readiness returns, if a sleep lasts as long as it was asked to (or until the time of the deadline) and
  the clock does not run backwards: whatever the snapshots say and whatever else happens beside it, it returns or throws
  after at most one read of a snapshot for each full poll interval of the timeout and two more, and no larger number of
  rounds is ever used.
\<close>

theorem readiness_wait_returns:
  assumes "\<forall>w. clock_ms S (env (Suc n) w) \<ge> clock_ms S w"
    and "\<forall>i > Suc n. \<forall>w. clock_ms S (env i w) \<ge>
      clock_ms S w + min (clock_ms S (env n w0) + timeoutMs S - clock_ms S w) (pollIntervalMs S)"
    and "int (poll_fuel S) \<ge> timeoutMs S div pollIntervalMs S + 2"
  shows "\<exists>v m b. run_beside (waitForSandboxRuntimeReadiness S sid) env n w0 = (v, m, Some b) \<and>
    int m \<le> int n + (if timeoutMs S > 0 \<and> pollIntervalMs S > 0 then timeoutMs S div pollIntervalMs S + 3 else 0)"
proof (cases "timeoutMs S > 0 \<and> pollIntervalMs S > 0")
  case True
  let ?q = "timeoutMs S div pollIntervalMs S" and ?w = "env n w0" and ?t = "clock_ms S (env n w0) + timeoutMs S"
  have q: "?q \<ge> 0" using True by (simp add: pos_imp_zdiv_nonneg_iff)
  show ?thesis
  proof (cases "js_trim sid = []")
    case False
    have "timeoutMs S = ?q * pollIntervalMs S + timeoutMs S mod pollIntervalMs S" by simp
    moreover have "timeoutMs S mod pollIntervalMs S < pollIntervalMs S" using True by simp
    ultimately have "timeoutMs S \<le> (?q + 1) * pollIntervalMs S" unfolding distrib_right by linarith
    then have "?t - clock_ms S (env (Suc n) ?w) \<le> int (nat (?q + 1)) * pollIntervalMs S"
      using q spec [OF assms(1), of ?w] by simp
    moreover have "poll_fuel S > nat (?q + 1)" using assms(3) q by linarith
    ultimately obtain v m b where "run_beside (poll_ready S sid ?t (poll_fuel S)) env (Suc n) ?w = (v, m, Some b)"
      and "m \<le> Suc n + Suc (nat (?q + 1))"
      using poll_returns [of "Suc n" S ?t env ?w "nat (?q + 1)" "poll_fuel S" sid] assms(2) True by blast
    moreover from this(2) have "int m \<le> int n + (?q + 3)" using q by linarith
    ultimately show ?thesis
      using True False by (simp add: waitForSandboxRuntimeReadiness_def run_beside_bind)
  qed (use True q in \<open>simp add: waitForSandboxRuntimeReadiness_def\<close>)
next
  case False
  then show ?thesis by (auto simp: waitForSandboxRuntimeReadiness_def)
qed


text \<open>A clock that counts the letters of the worker's time, and others that let 250 pass before each step.\<close>

definition counting_services :: resume_services where
  "counting_services = (sample_services (Inr ()))\<lparr>clock_ms := \<lambda>w. int (length (worker_now w))\<rparr>"

definition time_passes :: "nat \<Rightarrow> worker_world \<Rightarrow> worker_world" where
  "time_passes n w = w\<lparr>worker_now := worker_now w @ replicate 250 CHR ''x''\<rparr>"

definition unready_world :: worker_world where
  "unready_world = sample_world stopped_row (\<lambda>_. sample_snapshot None) (\<lambda>_. PROVIDER_ACTIVE)"

theorem readiness_wait_returns_witness:
  "\<exists>v m b. run_beside (waitForSandboxRuntimeReadiness counting_services ''s'') time_passes 0 unready_world = (v, m, Some b) \<and>
     int m \<le> 7"
proof -
  have "\<exists>v m b. run_beside (waitForSandboxRuntimeReadiness counting_services ''s'') time_passes 0 unready_world
      = (v, m, Some b) \<and> int m \<le> int 0 + (if timeoutMs counting_services > 0 \<and> pollIntervalMs counting_services > 0
        then timeoutMs counting_services div pollIntervalMs counting_services + 3 else 0)"
    by (rule readiness_wait_returns) (auto simp: counting_services_def sample_services_def time_passes_def)
  then show ?thesis by (simp add: counting_services_def sample_services_def)
qed

subsection \<open>A resumption that succeeds\<close>

lemma step_run_returned: "exec (step_run S name p) l (Some (Inr a)) \<Longrightarrow> exec p l (Some (Inr a))"
  unfolding step_run_def by (erule exec_catchE) (auto split: prod.splits)

lemma phase_returned: "exec (resume_phase S sid pid code summary p) l (Some (Inr a)) \<Longrightarrow> exec p l (Some (Inr a))"
  unfolding resume_phase_def
  by (erule exec_catchE) (auto split: if_splits elim!: exec_bindE)

lemma bind_returned:
  assumes "exec (prog_bind p k) l (Some (Inr b))"
  obtains a l1 l2 where "exec p l1 (Some (Inr a))" and "exec (k a) l2 (Some (Inr b))" and "l = l1 @ l2"
  using assms by (cases rule: exec_bindE) auto

definition records :: "string \<Rightarrow> worker_world \<times> worker_world \<Rightarrow> bool" where
  "records key x \<longleftrightarrow> (\<exists>e \<in> set (usage_events (snd x)). usage_idempotencyKey e = key)"

definition reads_ready :: "string \<Rightarrow> worker_world \<times> worker_world \<Rightarrow> bool" where
  "reads_ready sid x \<longleftrightarrow> (\<exists>s. snapshot_answer (fst x) (provider_commands (fst x)) sid = Inr s \<and> isSandboxRuntimeReady s)"

definition reads_status :: "string \<Rightarrow> sandbox_instance_status \<Rightarrow> worker_world \<times> worker_world \<Rightarrow> bool" where
  "reads_status sid s x \<longleftrightarrow> map_option status (instances (fst x) sid) = Some s"

lemma poll_true:
  "exec (poll_ready S sid t n) l (Some (Inr True)) \<Longrightarrow> \<exists>l' x. l = l' @ [x] \<and> reads_ready sid x"
proof (induction n arbitrary: l)
  case (Suc n)
  then obtain w l1 where l: "l = (w, w) # l1"
    and rest: "exec (prog_bind (of_answer (snapshot_answer w (provider_commands w) sid)) (\<lambda>s.
       if isSandboxRuntimeReady s then Done True else if t - clock_ms S w \<le> 0 then Done False
       else poll_ready S sid t n)) l1 (Some (Inr True))"
    by (auto simp: exec_Step)
  then obtain s where s: "snapshot_answer w (provider_commands w) sid = Inr s"
    by (cases "snapshot_answer w (provider_commands w) sid") auto
  show ?case
  proof (cases "isSandboxRuntimeReady s")
    case True
    with rest s have "l = [] @ [(w, w)] \<and> reads_ready sid (w, w)" by (simp add: l reads_ready_def)
    then show ?thesis by blast
  next
    case False
    with rest s have "exec (poll_ready S sid t n) l1 (Some (Inr True))" by (auto split: if_splits)
    with Suc.IH obtain l' x where "l1 = l' @ [x]" "reads_ready sid x" by blast
    with l have "l = ((w, w) # l') @ [x] \<and> reads_ready sid x" by simp
    then show ?thesis by blast
  qed
qed (simp add: exec_Step)

lemma wait_true:
  assumes "exec (waitForSandboxRuntimeReadiness S sid) l (Some (Inr True))"
  shows "\<exists>l' x. l = l' @ [x] \<and> reads_ready sid x"
proof -
  from assms obtain w l2 t where l: "l = (w, w) # l2" and "exec (poll_ready S sid t (poll_fuel S)) l2 (Some (Inr True))"
    unfolding waitForSandboxRuntimeReadiness_def by (auto split: if_splits simp: exec_Step)
  with poll_true obtain l' x where "l2 = l' @ [x]" and "reads_ready sid x" by blast
  with l have "l = ((w, w) # l') @ [x] \<and> reads_ready sid x" by simp
  then show ?thesis by blast
qed

lemma running_marked:
  assumes "exec (markSandboxInstanceRunning sid) l (Some (Inr u))"
  shows "\<exists>l' x. l = l' @ [x] \<and> reads_status sid RUNNING x"
proof -
  from assms obtain l1 l2 where l: "l = l1 @ l2"
    and "exec (expect_status sid RUNNING ''Failed to transition sandbox instance status to running.'') l2 (Some (Inr u))"
    unfolding markSandboxInstanceRunning_def by (auto elim!: bind_returned)
  then obtain w where "l2 = [(w, w)]" and "map_option status (instances w sid) = Some RUNNING"
    unfolding expect_status_def findInstance_def by (auto simp: exec_Step split: if_splits)
  with l show ?thesis by (auto simp: reads_status_def)
qed

lemma usage_recorded:
  assumes "exec (recordResumeSandboxUsageEvent S name sid t run d row pid) l (Some (Inr u))"
  shows "\<exists>x. l = [x] \<and> records (createSandboxUsageEventIdempotencyKey sid (computeGeneration row) t run d) x"
proof -
  from step_run_returned [OF assms[unfolded recordResumeSandboxUsageEvent_def]] obtain l1 b
    where "l = l1" and "exec (recordWorkerSandboxUsageEvent (resume_usage_event sid t run d row pid)) l1 (Some (Inr b))"
    by (auto elim!: bind_returned)
  then show ?thesis
    unfolding recordWorkerSandboxUsageEvent_def
    by (auto simp: exec_Step records_def resume_usage_event_def split: if_splits)
qed

lemma activated_returned:
  assumes "exec (resume_activated S run sid row pid) l (Some (Inr u))"
  shows "\<exists>l1 x l2 y z. l = l1 @ x # l2 @ [y, z] \<and> reads_ready sid x \<and> reads_status sid RUNNING y \<and>
    records (createSandboxUsageEventIdempotencyKey sid (computeGeneration row) SANDBOX_READY run (Some ''ready'')) z"
proof -
  from assms[unfolded resume_activated_def] obtain ready la lb where l: "l = la @ lb"
    and wait: "exec (resume_phase S sid pid ''tunnel_connect_ack_wait_failed''
         ''Failed while waiting for resumed sandbox runtime readiness.''
         (step_run S ''wait-for-resumed-sandbox-runtime-readiness'' (waitForSandboxRuntimeReadiness S sid))) la (Some (Inr ready))"
    and rest: "exec (if \<not> ready
     then prog_bind (handleResumeFailure S sid pid ''tunnel_connect_ack_timeout''
         ''Timed out waiting for resumed sandbox runtime readiness.''
         (WorkerError ''Timed out waiting for resumed sandbox runtime readiness.'')) (\<lambda>_.
       Raise (WorkerError ''Timed out waiting for resumed sandbox runtime readiness.''))
     else prog_bind (resume_phase S sid pid ''status_transition_to_running_failed''
         ''Failed to mark resumed sandbox instance as running.''
         (step_run S ''mark-resumed-sandbox-instance-running'' (markSandboxInstanceRunning sid))) (\<lambda>_.
       recordResumeSandboxUsageEvent S ''record-sandbox-ready-usage-event-after-resume'' sid SANDBOX_READY run
         (Some ''ready'') row pid)) lb (Some (Inr u))"
    by (elim bind_returned)
  have ready
  proof (rule ccontr)
    assume "\<not> ready"
    with rest show False by (auto elim!: bind_returned)
  qed
  then have "ready = True" by simp
  from wait_true [OF step_run_returned [OF phase_returned [OF wait[unfolded this]]]]
  obtain l1 x where la: "la = l1 @ [x]" and x: "reads_ready sid x" by blast
  from rest \<open>ready\<close> obtain v lc ld where lb: "lb = lc @ ld"
    and mark: "exec (resume_phase S sid pid ''status_transition_to_running_failed''
         ''Failed to mark resumed sandbox instance as running.''
         (step_run S ''mark-resumed-sandbox-instance-running'' (markSandboxInstanceRunning sid))) lc (Some (Inr v))"
    and usage: "exec (recordResumeSandboxUsageEvent S ''record-sandbox-ready-usage-event-after-resume'' sid SANDBOX_READY run
         (Some ''ready'') row pid) ld (Some (Inr u))"
    by (auto elim!: bind_returned)
  from running_marked [OF step_run_returned [OF phase_returned [OF mark]]]
  obtain l2 y where "lc = l2 @ [y]" and "reads_status sid RUNNING y" by blast
  moreover from usage_recorded [OF usage] obtain z where "ld = [z]"
    and "records (createSandboxUsageEventIdempotencyKey sid (computeGeneration row) SANDBOX_READY run (Some ''ready'')) z" by blast
  ultimately have "l = l1 @ x # l2 @ [y, z] \<and> reads_ready sid x \<and> reads_status sid RUNNING y \<and>
    records (createSandboxUsageEventIdempotencyKey sid (computeGeneration row) SANDBOX_READY run (Some ''ready'')) z"
    using l la lb x by simp
  then show ?thesis by blast
qed


lemma resolved:
  assumes "exec (resolveResumableSandboxInstanceState S sid) l (Some (Inr state))"
  shows "\<exists>w row. l = [(w, w)] \<and> instances w sid = Some row \<and>
    (state = None \<and> status row \<in> {RUNNING, STARTING, STARTED, INITIALIZING} \<or>
     (\<exists>pid. state = Some (row, pid) \<and> status row \<in> {STOPPED, FAILED} \<and> providerSandboxId row = Some pid))"
proof -
  obtain w where "l \<noteq> []" and w: "fst (hd l) = w"
    using assms unfolding resolveResumableSandboxInstanceState_def by (auto simp: exec_Step)
  show ?thesis
  proof (cases "instances w sid")
    case None
    with assms w show ?thesis
      unfolding resolveResumableSandboxInstanceState_def by (auto simp: exec_Step)
  next
    case (Some row)
    then show ?thesis
    proof (cases "providerSandboxId row")
      case None
      with assms w Some show ?thesis
        unfolding resolveResumableSandboxInstanceState_def by (auto simp: exec_Step split: if_splits)
    next
      case (Some pid)
      with assms w \<open>instances w sid = Some row\<close> show ?thesis
        unfolding resolveResumableSandboxInstanceState_def
        by (cases "plan_answer S w sid"; cases "the (plan_answer S w sid)") (auto simp: exec_Step split: if_splits)
    qed
  qed
qed

lemma resumed_returned:
  assumes "exec (resume_resumed S run sid row pid) l (Some (Inr u))"
  shows "\<exists>l0 r l1 x l2 y z. l = l0 @ r # l1 @ x # l2 @ [y, z] \<and>
    records (createSandboxUsageEventIdempotencyKey sid (computeGeneration row) SANDBOX_RESUMED run None) r \<and>
    reads_ready sid x \<and> reads_status sid RUNNING y \<and>
    records (createSandboxUsageEventIdempotencyKey sid (computeGeneration row) SANDBOX_READY run (Some ''ready'')) z"
proof -
  from assms[unfolded resume_resumed_def] obtain v1 v2 la lb lc ld where l: "l = la @ lb @ lc @ ld"
    and usage: "exec (recordResumeSandboxUsageEvent S ''record-sandbox-resumed-usage-event'' sid SANDBOX_RESUMED run None
       row pid) lb (Some (Inr v1))"
    and rest: "exec (resume_activated S run sid row pid) ld (Some (Inr v2))"
    by (elim bind_returned) (metis append.assoc)
  from usage_recorded [OF usage] obtain r where "lb = [r]"
    and "records (createSandboxUsageEventIdempotencyKey sid (computeGeneration row) SANDBOX_RESUMED run None) r" by blast
  moreover from activated_returned [OF rest] obtain l1 x l2 y z where "ld = l1 @ x # l2 @ [y, z]"
    and "reads_ready sid x" and "reads_status sid RUNNING y"
    and "records (createSandboxUsageEventIdempotencyKey sid (computeGeneration row) SANDBOX_READY run (Some ''ready'')) z"
    by blast
  ultimately have "l = la @ r # (lc @ l1) @ x # l2 @ [y, z] \<and>
    records (createSandboxUsageEventIdempotencyKey sid (computeGeneration row) SANDBOX_RESUMED run None) r \<and>
    reads_ready sid x \<and> reads_status sid RUNNING y \<and>
    records (createSandboxUsageEventIdempotencyKey sid (computeGeneration row) SANDBOX_READY run (Some ''ready'')) z"
    using l by simp
  then show ?thesis by blast
qed

lemma acted_returned:
  "exec (resume_acted S run sid row pid action) l (Some (Inr u)) \<Longrightarrow>
    \<exists>l1 l2. l = l1 @ l2 \<and> exec (resume_resumed S run sid row pid) l2 (Some (Inr u))"
  unfolding resume_acted_def by (cases action) (auto elim!: bind_returned)

lemma stopped_returned:
  assumes "exec (resume_stopped S run sid row pid) l (Some (Inr u))"
  shows "\<exists>l1 l2. l = l1 @ l2 \<and> exec (resume_resumed S run sid row pid) l2 (Some (Inr u))"
  using assms unfolding resume_stopped_def
proof (elim bind_returned)
  fix la lb lc ld v1 v2 action
  assume l: "l = la @ lb" and "lb = lc @ v1" and "v1 = ld @ v2"
    and "exec (resume_acted S run sid row pid action) v2 (Some (Inr u))"
  from acted_returned [OF this(4)] obtain l1 l2 where "v2 = l1 @ l2"
    and "exec (resume_resumed S run sid row pid) l2 (Some (Inr u))" by blast
  with l \<open>lb = lc @ v1\<close> \<open>v1 = ld @ v2\<close> have "l = (la @ lc @ ld @ l1) @ l2 \<and>
    exec (resume_resumed S run sid row pid) l2 (Some (Inr u))" by simp
  then show ?thesis by blast
qed

text \<open>
  C6: A resumption reports success only after it saw the sandbox up: if a run returns, then either it found the instance
  active (running or starting) in its first step and did nothing, or it found it stopped or failed, with its sandbox
  known, and later, in this order, the table held its event of being resumed, the runtime was read as ready with its
  owner attached, the row was read as running, and in the last step the table held its event of being ready.
\<close>

theorem resume_success:
  assumes "exec (ResumeSandboxInstanceWorkflow S run sid) l (Some (Inr u))"
  shows "\<exists>w row. instances w sid = Some row \<and>
    (l = [(w, w)] \<and> status row \<in> {RUNNING, STARTING, STARTED, INITIALIZING} \<or>
     status row \<in> {STOPPED, FAILED} \<and> providerSandboxId row \<noteq> None \<and>
     (\<exists>l0 r l1 x l2 y z. l = (w, w) # l0 @ r # l1 @ x # l2 @ [y, z] \<and>
       records (createSandboxUsageEventIdempotencyKey sid (computeGeneration row) SANDBOX_RESUMED run None) r \<and>
       reads_ready sid x \<and> reads_status sid RUNNING y \<and>
       records (createSandboxUsageEventIdempotencyKey sid (computeGeneration row) SANDBOX_READY run (Some ''ready'')) z))"
proof -
  from assms[unfolded ResumeSandboxInstanceWorkflow_def] obtain state la lb where l: "l = la @ lb"
    and state: "exec (step_run S ''resolve-resumable-sandbox-instance-state''
        (resolveResumableSandboxInstanceState S sid)) la (Some (Inr state))"
    and rest: "exec (case state of None \<Rightarrow> Done () | Some (row, pid) \<Rightarrow> resume_stopped S run sid row pid) lb (Some (Inr u))"
    by (elim bind_returned)
  from resolved [OF step_run_returned [OF state]] obtain w row
    where la: "la = [(w, w)]" and row: "instances w sid = Some row"
    and found: "state = None \<and> status row \<in> {RUNNING, STARTING, STARTED, INITIALIZING} \<or>
      (\<exists>pid. state = Some (row, pid) \<and> status row \<in> {STOPPED, FAILED} \<and> providerSandboxId row = Some pid)"
    by blast
  from found consider (active) "state = None" "status row \<in> {RUNNING, STARTING, STARTED, INITIALIZING}"
    | (stopped) pid where "state = Some (row, pid)" "status row \<in> {STOPPED, FAILED}" "providerSandboxId row = Some pid"
    by blast
  then show ?thesis
  proof cases
    case active
    with rest la l row show ?thesis by auto
  next
    case stopped
    with rest have "exec (resume_stopped S run sid row pid) lb (Some (Inr u))" by simp
    from stopped_returned [OF this] obtain lc ld where lb: "lb = lc @ ld"
      and "exec (resume_resumed S run sid row pid) ld (Some (Inr u))" by blast
    from resumed_returned [OF this(2)] obtain l0 r l1 x l2 y z where "ld = l0 @ r # l1 @ x # l2 @ [y, z]"
      and facts: "records (createSandboxUsageEventIdempotencyKey sid (computeGeneration row) SANDBOX_RESUMED run None) r"
      "reads_ready sid x" "reads_status sid RUNNING y"
      "records (createSandboxUsageEventIdempotencyKey sid (computeGeneration row) SANDBOX_READY run (Some ''ready'')) z"
      by blast
    with l la lb have "l = (w, w) # (lc @ l0) @ r # l1 @ x # l2 @ [y, z]" by simp
    with facts row stopped show ?thesis by blast
  qed
qed


theorem resume_success_witness:
  "\<exists>l w row. exec (ResumeSandboxInstanceWorkflow (sample_services (Inr ())) ''run'' ''s'') ((w, w) # l) (Some (Inr ())) \<and>
     instances w ''s'' = Some row \<and> (status row \<in> {RUNNING, STARTING, STARTED, INITIALIZING} \<or>
       (\<exists>x \<in> set l. reads_ready ''s'' x) \<and> (\<exists>y \<in> set l. reads_status ''s'' RUNNING y))"
proof -
  from sample_resumption obtain v
    where "run_alone (ResumeSandboxInstanceWorkflow (sample_services (Inr ())) ''run'' ''s'') resume_world = (v, Some (Inr ()))"
    by blast
  from run_alone_exec [OF this] obtain l
    where l: "exec (ResumeSandboxInstanceWorkflow (sample_services (Inr ())) ''run'' ''s'') l (Some (Inr ()))" by blast
  from resume_success [OF l] obtain w row where row: "instances w ''s'' = Some row"
    and cases: "l = [(w, w)] \<and> status row \<in> {RUNNING, STARTING, STARTED, INITIALIZING} \<or>
      (\<exists>l0 r l1 x l2 y z. l = (w, w) # l0 @ r # l1 @ x # l2 @ [y, z] \<and> reads_ready ''s'' x \<and>
        reads_status ''s'' RUNNING y)" by blast
  from cases obtain l' where l': "l = (w, w) # l'" and end': "status row \<in> {RUNNING, STARTING, STARTED, INITIALIZING} \<or>
       (\<exists>x \<in> set l'. reads_ready ''s'' x) \<and> (\<exists>y \<in> set l'. reads_status ''s'' RUNNING y)"
    by auto
  with l row show ?thesis by blast
qed

text \<open>The gateway reports the bootstrap as degraded right before the row is read for the last time.\<close>

definition degraded_report :: "nat \<Rightarrow> worker_world \<Rightarrow> worker_world" where
  "degraded_report n w = (if n = 21 then fst (run_alone (applySandboxLifecycleEvent ''s'' BOOTSTRAP_DEGRADED) w) else w)"


end
