(* ===== verification/SandboxInspection.thy ===== *)
theory SandboxInspection
  imports SandboxResume
begin

text \<open>
  The reading of an instance by the data plane API
  (\<open>apps/data-plane-api/src/internal/sandbox-instances/services/get-sandbox-instance.ts\<close> and its two inspection policies):
  it asks the provider, and when the provider says otherwise than the row, it marks the row stopped or failed and
  records a usage event, in one transaction. Such a transaction is one step. The runtime plan and the last start-up
  operation the response carries as well are left out. Besides the disposition, an inspection answers whether the
  provider calls the sandbox running, here the parameter \<open>running\<close>.
\<close>

section \<open>Policies\<close>

datatype starting_outcome = KEEP_STARTING | INSPECTION_FAIL string string

fun determineStartingSandboxInspectionOutcome :: "provider_disposition \<Rightarrow> starting_outcome" where
  "determineStartingSandboxInspectionOutcome PROVIDER_ACTIVE = KEEP_STARTING"
| "determineStartingSandboxInspectionOutcome PROVIDER_STOPPING = KEEP_STARTING"
| "determineStartingSandboxInspectionOutcome RESUMABLE_STOPPED = KEEP_STARTING"
| "determineStartingSandboxInspectionOutcome TERMINAL_STOPPED =
     INSPECTION_FAIL ''provider_runtime_stopped_during_startup''
       ''Sandbox runtime was not running at the provider during startup inspection.''"

fun isStoppedSandboxProviderDispositionRecoverable :: "provider_disposition \<Rightarrow> bool" where
  "isStoppedSandboxProviderDispositionRecoverable TERMINAL_STOPPED = False"
| "isStoppedSandboxProviderDispositionRecoverable _ = True"

definition isSandboxBootstrapAttached :: "runtime_snapshot \<Rightarrow> bool" where
  "isSandboxBootstrapAttached s \<longleftrightarrow> ownerLeaseId s \<noteq> None \<and>
     map_option attachment_ownerLeaseId (attachment s) = ownerLeaseId s"

text \<open>The API and the worker have a definition each of what it is to be ready; this one is the API's.\<close>

definition api_isSandboxRuntimeReady :: "runtime_snapshot \<Rightarrow> bool" where
  "api_isSandboxRuntimeReady s \<longleftrightarrow> (if \<not> isSandboxBootstrapAttached s then False else runtime_ready s)"

lemma api_ready_iff [simp]: "api_isSandboxRuntimeReady s \<longleftrightarrow> isSandboxRuntimeReady s"
  by (simp add: api_isSandboxRuntimeReady_def isSandboxRuntimeReady_def isSandboxBootstrapAttached_def)

definition readEffectiveSandboxStatus ::
  "string \<Rightarrow> sandbox_instance_status \<Rightarrow> (worker_world, sandbox_instance_status) program" where
  "readEffectiveSandboxStatus sid persisted = prog_bind (readSnapshot sid) (\<lambda>s.
     Done (getSandboxEffectiveStatus persisted (api_isSandboxRuntimeReady s) (isSandboxBootstrapAttached s)))"

section \<open>Marks\<close>

definition StartupInspectionStatuses :: "sandbox_instance_status set" where
  "StartupInspectionStatuses = {STARTING, STARTED, INITIALIZING}"

definition RuntimeInspectionStatuses :: "sandbox_instance_status set" where
  "RuntimeInspectionStatuses = {RUNNING, DEGRADED, RECONNECTING}"

definition createInspectionSandboxUsageEventIdempotencyKey :: "string \<Rightarrow> int \<Rightarrow> usage_event_type \<Rightarrow> string" where
  "createInspectionSandboxUsageEventIdempotencyKey sid generation eventType =
     ''usage:'' @ sid @ '':'' @ string_of_int generation @ '':'' @ usage_type_string eventType
       @ '':data-plane-api-inspection''"

text \<open>The event of a selection, which is the row as it was read before the inspection.\<close>

definition inspection_event :: "string \<Rightarrow> instance_row \<Rightarrow> string \<Rightarrow> usage_event_type \<Rightarrow> string \<Rightarrow> usage_event" where
  "inspection_event sid selection pid eventType time =
     \<lparr>usage_idempotencyKey = createInspectionSandboxUsageEventIdempotencyKey sid (computeGeneration selection) eventType,
      usage_organizationId = organizationId selection, usage_sandboxInstanceId = sid,
      usage_computeGeneration = Some (computeGeneration selection), usage_eventType = eventType,
      usage_occurredAt = time, usage_runtimeProvider = Some (runtimeProvider selection),
      usage_providerSandboxId = Some pid, usage_vcpuCount = sandboxVcpuCount selection,
      usage_memoryMb = sandboxMemoryMb selection, usage_diskMb = sandboxDiskMb selection\<rparr>"

definition recordInspectionTerminalSandboxUsageEvent :: "usage_event \<Rightarrow> worker_world \<Rightarrow> worker_world" where
  "recordInspectionTerminalSandboxUsageEvent event w =
     (if \<exists>e \<in> set (usage_events w). usage_idempotencyKey e = usage_idempotencyKey event then w
      else w\<lparr>usage_events := usage_events w @ [event]\<rparr>)"

text \<open>
  What the four marks share: the row is updated if its status is one of those expected, and the event is recorded,
  in one transaction; \<open>check\<close> may refuse the row first.
\<close>

definition inspection_mark ::
  "string \<Rightarrow> sandbox_instance_status set \<Rightarrow> string \<Rightarrow> (instance_row \<Rightarrow> worker_error option) \<Rightarrow>
   (string \<Rightarrow> instance_row \<Rightarrow> instance_row) \<Rightarrow> (string \<Rightarrow> instance_row \<Rightarrow> usage_event) \<Rightarrow> (worker_world, unit) program" where
  "inspection_mark sid expected failure check set_columns event = Step (\<lambda>w.
     if row_lock w sid \<noteq> None then None
     else Some (case instances w sid of
       None \<Rightarrow> (w, Raise (WorkerError failure))
     | Some row \<Rightarrow>
         if status row \<notin> expected then (w, Raise (WorkerError failure))
         else (case check row of
           Some e \<Rightarrow> (w, Raise e)
         | None \<Rightarrow> (recordInspectionTerminalSandboxUsageEvent (event (db_now w) row)
               (w\<lparr>instances := (instances w)(sid \<mapsto> set_columns (db_now w) row)\<rparr>), Done ()))))"

definition set_failed :: "string \<Rightarrow> string \<Rightarrow> string \<Rightarrow> instance_row \<Rightarrow> instance_row" where
  "set_failed code message time row = row\<lparr>status := FAILED, stopReason := Some STOP_FAILED, failedAt := Some time,
     failureCode := Some code, failureMessage := Some message, updatedAt := time\<rparr>"

definition markRunningSandboxInstanceStopped ::
  "string \<Rightarrow> instance_row \<Rightarrow> string \<Rightarrow> (worker_world, unit) program" where
  "markRunningSandboxInstanceStopped sid selection pid =
     inspection_mark sid RuntimeInspectionStatuses
       ''Failed to transition sandbox instance status from runtime-active to stopped.'' (\<lambda>_. None)
       (\<lambda>time row. row\<lparr>status := STOPPED, stoppedAt := Some time, stopReason := Some STOP_SYSTEM, updatedAt := time\<rparr>)
       (\<lambda>time row. inspection_event sid selection pid SANDBOX_STOPPED time)"

definition markStartingSandboxInstanceFailed ::
  "string \<Rightarrow> instance_row \<Rightarrow> string \<Rightarrow> string \<Rightarrow> string \<Rightarrow> (worker_world, unit) program" where
  "markStartingSandboxInstanceFailed sid selection pid code message =
     inspection_mark sid StartupInspectionStatuses
       ''Failed to transition sandbox instance status from startup-active to failed.'' (\<lambda>_. None)
       (set_failed code message) (\<lambda>time row. inspection_event sid selection pid SANDBOX_FAILED time)"

definition markRunningSandboxInstanceFailed ::
  "string \<Rightarrow> instance_row \<Rightarrow> string \<Rightarrow> string \<Rightarrow> string \<Rightarrow> (worker_world, unit) program" where
  "markRunningSandboxInstanceFailed sid selection pid code message =
     inspection_mark sid RuntimeInspectionStatuses
       ''Failed to transition sandbox instance status from runtime-active to failed.'' (\<lambda>_. None)
       (set_failed code message) (\<lambda>time row. inspection_event sid selection pid SANDBOX_FAILED time)"

text \<open>A stopped instance that fails is recorded as stopped, at the time it was.\<close>

definition markStoppedSandboxInstanceFailed ::
  "string \<Rightarrow> instance_row \<Rightarrow> string \<Rightarrow> string \<Rightarrow> string \<Rightarrow> (worker_world, unit) program" where
  "markStoppedSandboxInstanceFailed sid selection pid code message =
     inspection_mark sid {STOPPED} ''Failed to transition sandbox instance status from stopped to failed.''
       (\<lambda>row. if stoppedAt row = None
          then Some (WorkerError ''Expected stopped sandbox instance to have stoppedAt before inspection failure repair.'')
          else None)
       (set_failed code message) (\<lambda>time row. inspection_event sid selection pid SANDBOX_STOPPED (the (stoppedAt row)))"

section \<open>Inspections\<close>

definition createPersistedSandboxResources :: "instance_row \<Rightarrow> (worker_world, unit) program" where
  "createPersistedSandboxResources row =
     (if sandboxVcpuCount row = None \<and> sandboxMemoryMb row = None \<and> sandboxDiskMb row = None then Done ()
      else if sandboxVcpuCount row = None \<or> sandboxMemoryMb row = None
      then Raise (WorkerError ''Persisted sandbox resources are incomplete.'')
      else Done ())"

definition inspectSandboxInstanceOrNull ::
  "(worker_world \<Rightarrow> string \<Rightarrow> bool) \<Rightarrow> instance_row \<Rightarrow> string \<Rightarrow>
   (worker_world, (provider_disposition \<times> bool) option) program" where
  "inspectSandboxInstanceOrNull running row pid =
     prog_bind (createPersistedSandboxResources row) (\<lambda>_.
     prog_bind (resolveRuntime row) (\<lambda>_.
       prog_catch (Step (\<lambda>w. Some (w, prog_bind (of_answer (inspect_answer w (provider_commands w) pid))
           (\<lambda>d. Done (Some (d, running w pid))))))
         (\<lambda>e. if e \<noteq> SandboxResourceNotFound then Raise e else Done None)))"

record instance_response =
  response_status :: sandbox_instance_status
  response_connectable :: bool
  response_failureCode :: "string option"
  response_failureMessage :: "string option"

definition reading_response :: "instance_row \<Rightarrow> sandbox_instance_status \<Rightarrow> instance_response" where
  "reading_response row s = \<lparr>response_status = s, response_connectable = (s = RUNNING), response_failureCode = failureCode row,
     response_failureMessage = failureMessage row\<rparr>"

definition reading_failed :: "string \<Rightarrow> string \<Rightarrow> instance_response" where
  "reading_failed code message = \<lparr>response_status = FAILED, response_connectable = False,
     response_failureCode = Some code, response_failureMessage = Some message\<rparr>"

definition expected_provider_id :: "string \<Rightarrow> string \<Rightarrow> worker_error" where
  "expected_provider_id what sid =
     WorkerError (''Expected '' @ what @ '' sandbox instance '' @ quoted sid @ '' to have a providerSandboxId.'')"

definition inspectStartingSandboxInstance ::
  "(worker_world \<Rightarrow> string \<Rightarrow> bool) \<Rightarrow> string \<Rightarrow> instance_row \<Rightarrow> (worker_world, instance_response) program" where
  "inspectStartingSandboxInstance running sid row = (case providerSandboxId row of
     None \<Rightarrow> if status row = STARTING then Done (reading_response row STARTING)
         else Raise (expected_provider_id (status_string (status row)) sid)
   | Some pid \<Rightarrow> prog_bind (inspectSandboxInstanceOrNull running row pid) (\<lambda>inspection. case inspection of
       None \<Rightarrow> prog_bind (markStartingSandboxInstanceFailed sid row pid ''provider_runtime_missing''
           ''Sandbox runtime was not found at the provider during startup inspection.'') (\<lambda>_.
         Done (reading_failed ''provider_runtime_missing''
           ''Sandbox runtime was not found at the provider during startup inspection.''))
     | Some (d, _) \<Rightarrow> (case determineStartingSandboxInspectionOutcome d of
         KEEP_STARTING \<Rightarrow> prog_bind (readEffectiveSandboxStatus sid (status row)) (\<lambda>s. Done (reading_response row s))
       | INSPECTION_FAIL code message \<Rightarrow>
           prog_bind (markStartingSandboxInstanceFailed sid row pid code message) (\<lambda>_.
             Done (reading_failed code message)))))"

definition inspectStoppedSandboxInstance ::
  "(worker_world \<Rightarrow> string \<Rightarrow> bool) \<Rightarrow> string \<Rightarrow> instance_row \<Rightarrow> (worker_world, instance_response) program" where
  "inspectStoppedSandboxInstance running sid row = (case providerSandboxId row of
     None \<Rightarrow> Raise (expected_provider_id ''stopped'' sid)
   | Some pid \<Rightarrow> prog_bind (inspectSandboxInstanceOrNull running row pid) (\<lambda>inspection. case inspection of
       None \<Rightarrow> prog_bind (markStoppedSandboxInstanceFailed sid row pid ''provider_runtime_missing''
           ''Sandbox runtime was not found at the provider during inspection.'') (\<lambda>_.
         Done (reading_failed ''provider_runtime_missing''
           ''Sandbox runtime was not found at the provider during inspection.''))
     | Some (d, _) \<Rightarrow>
         if isStoppedSandboxProviderDispositionRecoverable d then Done (reading_response row STOPPED)
         else prog_bind (markStoppedSandboxInstanceFailed sid row pid ''provider_runtime_not_resumable''
             ''Sandbox runtime was not resumable at the provider during inspection.'') (\<lambda>_.
           Done (reading_failed ''provider_runtime_not_resumable''
             ''Sandbox runtime was not resumable at the provider during inspection.''))))"

definition inspectRunningSandboxInstance ::
  "(worker_world \<Rightarrow> string \<Rightarrow> bool) \<Rightarrow> string \<Rightarrow> instance_row \<Rightarrow> (worker_world, instance_response) program" where
  "inspectRunningSandboxInstance running sid row = (case providerSandboxId row of
     None \<Rightarrow> Raise (expected_provider_id ''running'' sid)
   | Some pid \<Rightarrow> prog_bind (inspectSandboxInstanceOrNull running row pid) (\<lambda>inspection. case inspection of
       None \<Rightarrow> prog_bind (markRunningSandboxInstanceFailed sid row pid ''provider_runtime_missing''
           ''Sandbox runtime was not found at the provider during inspection.'') (\<lambda>_.
         Done (reading_failed ''provider_runtime_missing''
           ''Sandbox runtime was not found at the provider during inspection.''))
     | Some (_, True) \<Rightarrow> prog_bind (readEffectiveSandboxStatus sid (status row)) (\<lambda>s. Done (reading_response row s))
     | Some (_, False) \<Rightarrow> prog_bind (markRunningSandboxInstanceStopped sid row pid) (\<lambda>_. Done (reading_response row STOPPED))))"

text \<open>By the status of the row, after the check of its provider.\<close>

definition inspect_by_status ::
  "(worker_world \<Rightarrow> string \<Rightarrow> bool) \<Rightarrow> string \<Rightarrow> instance_row \<Rightarrow> (worker_world, instance_response) program" where
  "inspect_by_status running sid row =
     (if runtimeProvider row \<notin> set usage_providers then Raise (WorkerError ''Unsupported persisted sandbox provider.'')
      else case status row of
        FAILED \<Rightarrow> Done (reading_response row FAILED)
      | STOPPED \<Rightarrow> inspectStoppedSandboxInstance running sid row
      | PENDING \<Rightarrow> Done (reading_response row PENDING)
      | STARTING \<Rightarrow> inspectStartingSandboxInstance running sid row
      | STARTED \<Rightarrow> inspectStartingSandboxInstance running sid row
      | INITIALIZING \<Rightarrow> inspectStartingSandboxInstance running sid row
      | RUNNING \<Rightarrow> inspectRunningSandboxInstance running sid row
      | DEGRADED \<Rightarrow> inspectRunningSandboxInstance running sid row
      | RECONNECTING \<Rightarrow> inspectRunningSandboxInstance running sid row
      | STOPPING \<Rightarrow> Done (reading_response row STOPPING))"

definition DefaultReadableSandboxInstancePurposes :: "sandbox_instance_purpose list" where
  "DefaultReadableSandboxInstancePurposes = [SESSION, SETUP_ASSISTANT, SETUP_CHECK, SKILLS_DISCOVERY]"

definition readable_row ::
  "string \<Rightarrow> sandbox_instance_purpose list option \<Rightarrow> instance_row option \<Rightarrow> instance_row option" where
  "readable_row org allowed found = (case live_row found of
     None \<Rightarrow> None
   | Some row \<Rightarrow> if organizationId row = org \<and> purpose row \<in> set (case allowed of
         None \<Rightarrow> DefaultReadableSandboxInstancePurposes | Some ps \<Rightarrow> ps) then Some row else None)"

definition getSandboxInstance ::
  "(worker_world \<Rightarrow> string \<Rightarrow> bool) \<Rightarrow> string \<Rightarrow> string \<Rightarrow> sandbox_instance_purpose list option \<Rightarrow>
   (worker_world, instance_response option) program" where
  "getSandboxInstance running sid org allowed =
     prog_bind (findInstance sid) (\<lambda>found. case readable_row org allowed found of
       None \<Rightarrow> Done None
     | Some row \<Rightarrow> prog_bind (inspect_by_status running sid row) (\<lambda>r. Done (Some r)))"

section \<open>The steps of a reading\<close>

lemma guarantees_inspection_mark:
  assumes "\<And>w. G w w"
    and "\<And>w row. instances w sid = Some row \<Longrightarrow> status row \<in> expected \<Longrightarrow> check row = None \<Longrightarrow>
      G w (recordInspectionTerminalSandboxUsageEvent (event (db_now w) row)
        (w\<lparr>instances := (instances w)(sid \<mapsto> set_columns (db_now w) row)\<rparr>))"
  shows "guarantees G (inspection_mark sid expected failure check set_columns event)"
  unfolding inspection_mark_def
  by (rule guarantees_Step) (use assms in \<open>auto split: if_splits option.splits intro: guarantees_Done guarantees_Raise\<close>)

lemma guarantees_inspect_or_null:
  assumes "\<And>w. G w w"
  shows "guarantees G (inspectSandboxInstanceOrNull running row pid)"
  unfolding inspectSandboxInstanceOrNull_def createPersistedSandboxResources_def
  using assms by (auto intro!: guarantees_intros guarantees_reads guarantees_of_answer guarantees_Step)

text \<open>The end of an instance by a reading: the event is stamped with the time the row was stopped or failed.\<close>

definition metered_end :: "string \<Rightarrow> worker_world \<Rightarrow> worker_world \<Rightarrow> bool" where
  "metered_end sid w v \<longleftrightarrow> (\<exists>row row' e g. instances w sid = Some row \<and>
     v = recordInspectionTerminalSandboxUsageEvent e (w\<lparr>instances := (instances w)(sid \<mapsto> row')\<rparr>) \<and>
     usage_idempotencyKey e = createInspectionSandboxUsageEventIdempotencyKey sid g (usage_eventType e) \<and>
     (if status row = STOPPED
      then status row' = FAILED \<and> usage_eventType e = SANDBOX_STOPPED \<and> stoppedAt row = Some (usage_occurredAt e)
      else status row \<in> StartupInspectionStatuses \<union> RuntimeInspectionStatuses \<and>
        (status row' = STOPPED \<and> usage_eventType e = SANDBOX_STOPPED \<and> stoppedAt row' = Some (usage_occurredAt e) \<or>
         status row' = FAILED \<and> usage_eventType e = SANDBOX_FAILED \<and> failedAt row' = Some (usage_occurredAt e))))"

lemma metered_endI:
  assumes "instances w sid = Some row"
    and "status row = STOPPED \<and> status row' = FAILED \<and> t = SANDBOX_STOPPED \<and> stoppedAt row = Some time \<or>
      status row \<in> StartupInspectionStatuses \<union> RuntimeInspectionStatuses \<and> status row' = STOPPED \<and>
        t = SANDBOX_STOPPED \<and> stoppedAt row' = Some time \<or>
      status row \<in> StartupInspectionStatuses \<union> RuntimeInspectionStatuses \<and> status row' = FAILED \<and>
        t = SANDBOX_FAILED \<and> failedAt row' = Some time"
  shows "metered_end sid w (recordInspectionTerminalSandboxUsageEvent (inspection_event sid selection pid t time)
    (w\<lparr>instances := (instances w)(sid \<mapsto> row')\<rparr>))"
  unfolding metered_end_def
  by (rule exI [of _ row], rule exI [of _ row'], rule exI [of _ "inspection_event sid selection pid t time"],
      rule exI [of _ "computeGeneration selection"])
    (use assms in \<open>auto simp: inspection_event_def StartupInspectionStatuses_def RuntimeInspectionStatuses_def\<close>)

lemma metered_marks:
  "guarantees (\<lambda>w v. v = w \<or> metered_end sid w v) (markRunningSandboxInstanceStopped sid row pid)"
  "guarantees (\<lambda>w v. v = w \<or> metered_end sid w v) (markStartingSandboxInstanceFailed sid row pid code message)"
  "guarantees (\<lambda>w v. v = w \<or> metered_end sid w v) (markRunningSandboxInstanceFailed sid row pid code message)"
  "guarantees (\<lambda>w v. v = w \<or> metered_end sid w v) (markStoppedSandboxInstanceFailed sid row pid code message)"
  unfolding markRunningSandboxInstanceStopped_def markStartingSandboxInstanceFailed_def
    markRunningSandboxInstanceFailed_def markStoppedSandboxInstanceFailed_def
  by (rule guarantees_inspection_mark, simp, rule disjI2, erule metered_endI,
      simp add: set_failed_def split: if_splits)+

definition reading_step :: "string \<Rightarrow> worker_world \<Rightarrow> worker_world \<Rightarrow> bool" where
  "reading_step sid w v \<longleftrightarrow> v = w \<or> metered_end sid w v"

lemma reading_step_refl [simp]: "reading_step sid w w"
  by (simp add: reading_step_def)

lemma reading_marks:
  "guarantees (reading_step sid) (markRunningSandboxInstanceStopped sid row pid)"
  "guarantees (reading_step sid) (markStartingSandboxInstanceFailed sid row pid code message)"
  "guarantees (reading_step sid) (markRunningSandboxInstanceFailed sid row pid code message)"
  "guarantees (reading_step sid) (markStoppedSandboxInstanceFailed sid row pid code message)"
  using metered_marks unfolding reading_step_def [abs_def] by blast+

lemma reading_inspections:
  "guarantees (reading_step sid) (inspectStartingSandboxInstance running sid row)" (is ?starting)
  "guarantees (reading_step sid) (inspectStoppedSandboxInstance running sid row)" (is ?stopped)
  "guarantees (reading_step sid) (inspectRunningSandboxInstance running sid row)" (is ?running)
proof -
  have read: "guarantees (reading_step sid) (readEffectiveSandboxStatus sid s)" for s
    unfolding readEffectiveSandboxStatus_def by (intro guarantees_intros guarantees_reads reading_step_refl)
  note intros = guarantees_intros guarantees_inspect_or_null reading_marks read reading_step_refl
  show ?starting
  proof (cases "providerSandboxId row")
    case (Some pid)
    have kept: "guarantees (reading_step sid) (case determineStartingSandboxInspectionOutcome d of
        KEEP_STARTING \<Rightarrow> prog_bind (readEffectiveSandboxStatus sid (status row)) (\<lambda>s. Done (reading_response row s))
      | INSPECTION_FAIL code message \<Rightarrow>
          prog_bind (markStartingSandboxInstanceFailed sid row pid code message) (\<lambda>_.
            Done (reading_failed code message)))" for d
      by (cases "determineStartingSandboxInspectionOutcome d") (simp_all add: intros)
    show ?thesis
      unfolding inspectStartingSandboxInstance_def
      by (simp add: Some, rule guarantees_bind, rule intros, simp, rename_tac x, case_tac x) (auto intro!: intros kept)
  qed (simp add: inspectStartingSandboxInstance_def guarantees_intros)
  show ?stopped
  proof (cases "providerSandboxId row")
    case (Some pid)
    show ?thesis
      unfolding inspectStoppedSandboxInstance_def
      by (simp add: Some, rule guarantees_bind, rule intros, simp, rename_tac x, case_tac x) (auto intro!: intros)
  qed (simp add: inspectStoppedSandboxInstance_def guarantees_intros)
  show ?running
  proof (cases "providerSandboxId row")
    case (Some pid)
    show ?thesis
      unfolding inspectRunningSandboxInstance_def
      by (simp add: Some, rule guarantees_bind, rule intros, simp, rename_tac x, case_tac x)
        (auto intro!: intros split: bool.split)
  qed (simp add: inspectRunningSandboxInstance_def guarantees_intros)
qed

lemma reading_inspect_by_status: "guarantees (reading_step sid) (inspect_by_status running sid row)"
  unfolding inspect_by_status_def using reading_inspections [of sid running row]
  by (auto intro: guarantees_Done guarantees_Raise split: sandbox_instance_status.split)

lemma recorded_key:
  "\<exists>x \<in> set (usage_events (recordInspectionTerminalSandboxUsageEvent e w)). usage_idempotencyKey x = usage_idempotencyKey e"
  by (simp add: recordInspectionTerminalSandboxUsageEvent_def)

section \<open>Properties\<close>

text \<open>
  C7: A reading ends an instance only together with its event: each step of it, whatever happens beside it, leaves the
  world alone or is the one transaction that moves the row of this instance from a started status to stopped or failed,
  or from stopped to failed, and records, under the key of the instance and that kind of end, an event of the time the
  row gives; after such a step the key is in the usage table.
\<close>

theorem reading_ends_are_metered:
  "guarantees (\<lambda>w v. v = w \<or> metered_end sid w v \<and> (\<exists>g t. \<exists>x \<in> set (usage_events v).
       usage_idempotencyKey x = createInspectionSandboxUsageEventIdempotencyKey sid g t))
     (getSandboxInstance running sid org allowed)"
proof (rule guarantees_mono)
  show "guarantees (reading_step sid) (getSandboxInstance running sid org allowed)"
    unfolding getSandboxInstance_def
    by (auto intro!: guarantees_intros guarantees_reads reading_inspect_by_status split: option.split)
  fix w v assume "reading_step sid w v"
  then consider "v = w" | (metered) "metered_end sid w v" unfolding reading_step_def by blast
  then show "v = w \<or> metered_end sid w v \<and> (\<exists>g t. \<exists>x \<in> set (usage_events v).
      usage_idempotencyKey x = createInspectionSandboxUsageEventIdempotencyKey sid g t)"
  proof cases
    case metered
    then obtain e g w' where v: "v = recordInspectionTerminalSandboxUsageEvent e w'"
      and key: "usage_idempotencyKey e = createInspectionSandboxUsageEventIdempotencyKey sid g (usage_eventType e)"
      unfolding metered_end_def by blast
    from recorded_key [of e w'] have "\<exists>x \<in> set (usage_events v).
        usage_idempotencyKey x = createInspectionSandboxUsageEventIdempotencyKey sid g (usage_eventType e)"
      unfolding v key .
    with metered show ?thesis by blast
  qed simp
qed

section \<open>What a reading shows\<close>

text \<open>A response that may be connected to was made from a snapshot read as the last step.\<close>

definition shows_ready :: "string \<Rightarrow> instance_row \<Rightarrow> instance_response \<Rightarrow> (worker_world \<times> worker_world) list \<Rightarrow> bool" where
  "shows_ready sid row r l \<longleftrightarrow> (response_connectable r \<longrightarrow> status row \<in> StartupInspectionStatuses \<union> {RUNNING} \<and>
     (\<exists>v s. l = [(v, v)] \<and> snapshot_answer v (provider_commands v) sid = Inr s \<and> isSandboxRuntimeReady s))"

lemma shows_ready_unconnectable [simp]:
  "\<not> response_connectable r \<Longrightarrow> shows_ready sid row r l"
  by (simp add: shows_ready_def)

lemma unconnectable [simp]:
  "\<not> response_connectable (reading_failed code message)"
  "response_connectable (reading_response row s) \<longleftrightarrow> s = RUNNING"
  by (simp_all add: reading_failed_def reading_response_def)

lemma tail_effective:
  assumes "status row \<in> StartupInspectionStatuses \<union> RuntimeInspectionStatuses"
  shows "tail_shows (shows_ready sid row)
    (prog_bind (readEffectiveSandboxStatus sid (status row)) (\<lambda>s. Done (reading_response row s)))"
  unfolding tail_shows_def
proof (intro allI impI)
  fix l r
  assume "exec (prog_bind (readEffectiveSandboxStatus sid (status row)) (\<lambda>s. Done (reading_response row s))) l (Some (Inr r))"
  then obtain v s where l: "l = [(v, v)]" and s: "snapshot_answer v (provider_commands v) sid = Inr s"
    and r: "r = reading_response row (getSandboxEffectiveStatus (status row) (isSandboxRuntimeReady s) (isSandboxBootstrapAttached s))"
    unfolding readEffectiveSandboxStatus_def readSnapshot_def
    by (cases "snapshot_answer (fst (hd l)) (provider_commands (fst (hd l))) sid") (auto simp: exec_Step)
  have "shows_ready sid row r l"
    using assms l s unfolding shows_ready_def r
    by (auto simp: getSandboxEffectiveStatus_def StartupInspectionStatuses_def RuntimeInspectionStatuses_def
        split: if_splits)
  then show "\<exists>l1 l2. l = l1 @ l2 \<and> shows_ready sid row r l2" by (metis append_Nil)
qed

lemma tail_unconnectable:
  "\<not> response_connectable r \<Longrightarrow> tail_shows (shows_ready sid row) (prog_bind p (\<lambda>_. Done r))"
  by (intro tail_shows_bind tail_shows_Done) simp

lemma tail_inspections:
  "status row \<in> StartupInspectionStatuses \<Longrightarrow> tail_shows (shows_ready sid row) (inspectStartingSandboxInstance running sid row)"
  "tail_shows (shows_ready sid row) (inspectStoppedSandboxInstance running sid row)"
  "status row \<in> RuntimeInspectionStatuses \<Longrightarrow> tail_shows (shows_ready sid row) (inspectRunningSandboxInstance running sid row)"
proof -
  note intros = tail_shows_Done tail_shows_Raise tail_unconnectable tail_effective
  show "tail_shows (shows_ready sid row) (inspectStartingSandboxInstance running sid row)"
    if "status row \<in> StartupInspectionStatuses"
  proof (cases "providerSandboxId row")
    case (Some pid)
    have kept: "tail_shows (shows_ready sid row) (case determineStartingSandboxInspectionOutcome d of
        KEEP_STARTING \<Rightarrow> prog_bind (readEffectiveSandboxStatus sid (status row)) (\<lambda>s. Done (reading_response row s))
      | INSPECTION_FAIL code message \<Rightarrow>
          prog_bind (markStartingSandboxInstanceFailed sid row pid code message) (\<lambda>_.
            Done (reading_failed code message)))" for d
      using that by (cases "determineStartingSandboxInspectionOutcome d") (simp_all add: intros)
    show ?thesis
      unfolding inspectStartingSandboxInstance_def
      by (simp add: Some, rule tail_shows_bind, rename_tac x, case_tac x) (auto intro!: intros kept)
  qed (simp add: inspectStartingSandboxInstance_def intros)
  show "tail_shows (shows_ready sid row) (inspectStoppedSandboxInstance running sid row)"
  proof (cases "providerSandboxId row")
    case (Some pid)
    show ?thesis
      unfolding inspectStoppedSandboxInstance_def
      by (simp add: Some, rule tail_shows_bind, rename_tac x, case_tac x) (auto intro!: intros)
  qed (simp add: inspectStoppedSandboxInstance_def intros)
  show "tail_shows (shows_ready sid row) (inspectRunningSandboxInstance running sid row)"
    if "status row \<in> RuntimeInspectionStatuses"
  proof (cases "providerSandboxId row")
    case (Some pid)
    show ?thesis
      unfolding inspectRunningSandboxInstance_def using that
      by (simp add: Some, intro tail_shows_bind, rename_tac x, case_tac x) (auto intro!: intros split: bool.split)
  qed (simp add: inspectRunningSandboxInstance_def intros)
qed

lemma tail_inspect_by_status: "tail_shows (shows_ready sid row) (inspect_by_status running sid row)"
  unfolding inspect_by_status_def
  by (cases "status row")
    (auto intro!: tail_inspections tail_shows_Done tail_shows_Raise
      simp: StartupInspectionStatuses_def RuntimeInspectionStatuses_def)

text \<open>
  C19: Whoever is told that an instance may be connected to is told so of an instance that is theirs and was ready: the
  reading found the row live, in the organization asked for and of an allowed purpose, starting or running, and its
  last step read a snapshot in which the owner of the instance is the one attached and the runtime is ready.
\<close>

theorem read_connectable:
  assumes "exec (getSandboxInstance running sid org allowed) l (Some (Inr (Some r)))" and "response_connectable r"
  shows "\<exists>w row l' v s. l = (w, w) # l' @ [(v, v)] \<and> readable_row org allowed (instances w sid) = Some row \<and>
    status row \<in> StartupInspectionStatuses \<union> {RUNNING} \<and>
    snapshot_answer v (provider_commands v) sid = Inr s \<and> isSandboxRuntimeReady s"
proof -
  from assms(1) obtain w row l2 where l: "l = (w, w) # l2" and row: "readable_row org allowed (instances w sid) = Some row"
    and inspect: "exec (inspect_by_status running sid row) l2 (Some (Inr r))"
    unfolding getSandboxInstance_def findInstance_def
    by (auto simp: exec_Step elim!: exec_bindE split: option.splits)
  from tail_inspect_by_status inspect obtain l3 l4 where "l2 = l3 @ l4" and "shows_ready sid row r l4"
    unfolding tail_shows_def by blast
  with assms(2) l row show ?thesis unfolding shows_ready_def by blast
qed

definition reading_world :: "provider_disposition \<Rightarrow> worker_world" where
  "reading_world d = sample_world sample_row (\<lambda>_. sample_snapshot (Some ''o'')) (\<lambda>_. d)"

lemmas run_read = getSandboxInstance_def findInstance_def readable_row_def live_row_def inspect_by_status_def
  usage_providers_def inspectRunningSandboxInstance_def inspectSandboxInstanceOrNull_def
  createPersistedSandboxResources_def resolveRuntime_def readEffectiveSandboxStatus_def readSnapshot_def
  DefaultReadableSandboxInstancePurposes_def markRunningSandboxInstanceStopped_def inspection_mark_def
  RuntimeInspectionStatuses_def run_alone_bind run_alone_catch reading_world_def samples

lemma sample_reading:
  "\<exists>r. run_alone (getSandboxInstance (\<lambda>_ _. True) ''s'' ''org'' None) (reading_world PROVIDER_ACTIVE)
     = (reading_world PROVIDER_ACTIVE, Some (Inr (Some r))) \<and> response_connectable r"
  by (simp add: run_read isSandboxRuntimeReady_def isSandboxBootstrapAttached_def getSandboxEffectiveStatus_def)

theorem read_connectable_witness:
  "\<exists>l r (v :: worker_world) s. exec (getSandboxInstance (\<lambda>_ _. True) ''s'' ''org'' None) l (Some (Inr (Some r))) \<and>
     response_connectable r \<and> snapshot_answer v (provider_commands v) ''s'' = Inr s \<and> isSandboxRuntimeReady s"
proof -
  from sample_reading obtain r where run: "run_alone (getSandboxInstance (\<lambda>_ _. True) ''s'' ''org'' None)
      (reading_world PROVIDER_ACTIVE) = (reading_world PROVIDER_ACTIVE, Some (Inr (Some r)))"
    and r: "response_connectable r" by blast
  from run_alone_exec [OF run] obtain l
    where l: "exec (getSandboxInstance (\<lambda>_ _. True) ''s'' ''org'' None) l (Some (Inr (Some r)))" by blast
  from read_connectable [OF l r] obtain v :: worker_world and s
    where "snapshot_answer v (provider_commands v) ''s'' = Inr s" and "isSandboxRuntimeReady s" by blast
  with l r show ?thesis by (intro exI conjI)
qed


text \<open>
  A reading may end a run it did not look at: no statement of its mark is fenced. Here the reading loads the running
  instance and finds its sandbox stopped at the provider, and before it writes, the instance is resumed, and attached
  and ready again; the reading marks it stopped all the same and says so, and leaves its deadlines.
\<close>

theorem read_stops_resumed:
  "\<exists>w v r row. exec (getSandboxInstance (\<lambda>_ _. False) ''s'' ''org'' None)
       [(reading_world RESUMABLE_STOPPED, reading_world RESUMABLE_STOPPED),
        (reading_world RESUMABLE_STOPPED, reading_world RESUMABLE_STOPPED),
        (reading_world RESUMABLE_STOPPED, reading_world RESUMABLE_STOPPED), (w, v)] (Some (Inr (Some r))) \<and>
     instances w ''s'' = Some row \<and> status row = RUNNING \<and> updatedAt row = ''t9'' \<and>
     (\<exists>s. snapshot_answer w (provider_commands w) ''s'' = Inr s \<and> isSandboxRuntimeReady s) \<and>
     inspect_answer w (provider_commands w) ''p'' = Inr PROVIDER_ACTIVE \<and> providerSandboxId row = Some ''p'' \<and>
     map_option status (instances v ''s'') = Some STOPPED \<and> response_status r = STOPPED \<and> deadlines v = deadlines w"
proof -
  define resumed where "resumed = sample_world (sample_row\<lparr>updatedAt := ''t9''\<rparr>)
     (\<lambda>_. sample_snapshot (Some ''o2'')) (\<lambda>_. PROVIDER_ACTIVE)"
  obtain v r where "exec (getSandboxInstance (\<lambda>_ _. False) ''s'' ''org'' None)
       [(reading_world RESUMABLE_STOPPED, reading_world RESUMABLE_STOPPED),
        (reading_world RESUMABLE_STOPPED, reading_world RESUMABLE_STOPPED),
        (reading_world RESUMABLE_STOPPED, reading_world RESUMABLE_STOPPED), (resumed, v)] (Some (Inr (Some r)))"
    and "map_option status (instances v ''s'') = Some STOPPED" "response_status r = STOPPED" "deadlines v = deadlines resumed"
    by (simp add: run_read exec_Step resumed_def recordInspectionTerminalSandboxUsageEvent_def reading_response_def)
  moreover have "\<exists>row. instances resumed ''s'' = Some row \<and> status row = RUNNING \<and> updatedAt row = ''t9'' \<and>
      providerSandboxId row = Some ''p''" by (simp add: resumed_def samples)
  moreover have "\<exists>s. snapshot_answer resumed (provider_commands resumed) ''s'' = Inr s \<and> isSandboxRuntimeReady s"
    by (simp add: resumed_def samples isSandboxRuntimeReady_def isSandboxBootstrapAttached_def)
  moreover have "inspect_answer resumed (provider_commands resumed) ''p'' = Inr PROVIDER_ACTIVE"
    by (simp add: resumed_def samples)
  ultimately show ?thesis by (elim exE conjE) (intro exI conjI)
qed

end
